(* ===== verification/Go_Prelude.thy ===== *)
theory Go_Prelude
  imports Main "HOL-Library.Word" "HOL-Library.Sublist"
begin

text \<open>
  Shared vocabulary of the development: the error sum with its sequencing, Go byte strings
  with the functions of \<open>strings\<close> and \<open>bytes\<close> the program uses, instants and durations
  of \<open>time\<close>, and the collections of rules the component proofs share.

  A Go \<open>string\<close> or \<open>[]byte\<close> is an Isabelle \<open>string\<close>: both are sequences of bytes.
  A Go function with an \<open>error\<close> result returns a sum, \<open>Inl\<close> for the error.
\<close>

named_theorems keeps \<open>operations that leave a part of the state unchanged\<close>
named_theorems inv_intros \<open>preservation of component invariants\<close>

section \<open>Errors as values\<close>

definition bindE :: "'e + 'a \<Rightarrow> ('a \<Rightarrow> 'e + 'b) \<Rightarrow> 'e + 'b" where
  "bindE m f = (case m of Inl e \<Rightarrow> Inl e | Inr x \<Rightarrow> f x)"

lemma bindE_Inl [simp]: "bindE (Inl e) f = Inl e"
  by (simp add: bindE_def)

lemma bindE_Inr [simp]: "bindE (Inr x) f = f x"
  by (simp add: bindE_def)

lemma bindE_eq_Inr [simp]: "bindE m f = Inr y \<longleftrightarrow> (\<exists>x. m = Inr x \<and> f x = Inr y)"
  by (cases m) (auto simp: bindE_def)

lemma bindE_eq_Inl:
  "bindE m f = Inl e \<longleftrightarrow> m = Inl e \<or> (\<exists>x. m = Inr x \<and> f x = Inl e)"
  by (cases m) (auto simp: bindE_def)

lemma bindE_cong [fundef_cong]:
  "m = m' \<Longrightarrow> (\<And>x. m' = Inr x \<Longrightarrow> f x = g x) \<Longrightarrow> bindE m f = bindE m' g"
  by (cases m') (auto simp: bindE_def)

text \<open>A guard that returns an error: \<open>if bad { return err }\<close>.\<close>

definition failE :: "bool \<Rightarrow> 'e \<Rightarrow> 'e + unit" where
  "failE b e = (if b then Inl e else Inr ())"

lemma failE_eq_Inr [simp]: "failE b e = Inr u \<longleftrightarrow> \<not> b"
  by (simp add: failE_def)

lemma failE_eq_Inl [simp]: "failE b e = Inl e' \<longleftrightarrow> b \<and> e = e'"
  by (auto simp: failE_def)

text \<open>A loop over a slice that stops at the first error.\<close>

fun traverseE :: "('a \<Rightarrow> 'e + 'b) \<Rightarrow> 'a list \<Rightarrow> 'e + 'b list" where
  "traverseE f [] = Inr []"
| "traverseE f (x # xs) =
     bindE (f x) (\<lambda>y. bindE (traverseE f xs) (\<lambda>ys. Inr (y # ys)))"

lemma traverseE_Inr:
  "traverseE f xs = Inr ys \<longleftrightarrow> list_all2 (\<lambda>x y. f x = Inr y) xs ys"
proof (induction xs arbitrary: ys)
  case Nil
  then show ?case by auto
next
  case (Cons x xs)
  then show ?case by (cases ys) auto
qed

lemma traverseE_cong [fundef_cong]:
  "xs = ys \<Longrightarrow> (\<And>x. x \<in> set ys \<Longrightarrow> f x = g x) \<Longrightarrow> traverseE f xs = traverseE g ys"
  by (induction xs arbitrary: ys) auto

section \<open>Messages\<close>

text \<open>
  Error messages are concatenations. They are kept folded behind \<open>msg\<close>, so that the
  simplifier does not multiply character lists out.
\<close>

definition msg :: "string list \<Rightarrow> string" where
  "msg parts = concat parts"

definition quoted :: "string \<Rightarrow> string" where
  "quoted s = CHR 0x22 # s @ [CHR 0x22]"

section \<open>Bytes\<close>

definition is_digit :: "char \<Rightarrow> bool" where
  "is_digit c \<longleftrightarrow> 48 \<le> (of_char c :: nat) \<and> (of_char c :: nat) \<le> 57"

definition is_lower :: "char \<Rightarrow> bool" where
  "is_lower c \<longleftrightarrow> 97 \<le> (of_char c :: nat) \<and> (of_char c :: nat) \<le> 122"

definition is_upper :: "char \<Rightarrow> bool" where
  "is_upper c \<longleftrightarrow> 65 \<le> (of_char c :: nat) \<and> (of_char c :: nat) \<le> 90"

definition is_hex_digit :: "char \<Rightarrow> bool" where
  "is_hex_digit c \<longleftrightarrow>
     (let n = (of_char c :: nat)
      in 48 \<le> n \<and> n \<le> 57 \<or> 97 \<le> n \<and> n \<le> 102 \<or> 65 \<le> n \<and> n \<le> 70)"

definition digit_val :: "char \<Rightarrow> nat" where
  "digit_val c = of_char c - 48"

definition ascii_lower :: "char \<Rightarrow> char" where
  "ascii_lower c = (if is_upper c then char_of (of_char c + 32 :: nat) else c)"

text \<open>
  \<open>unicode.IsSpace\<close> on UTF-8: the encodings of the white-space code points. Each starts
  with an ASCII byte or a lead byte, which is never a continuation byte, so looking for
  them byte by byte finds exactly the runes Go decodes.
\<close>

definition space_encodings :: "string list" where
  "space_encodings =
     [[CHR 0x09], [CHR 0x0A], [CHR 0x0B], [CHR 0x0C], [CHR 0x0D], [CHR 0x20],
      [CHR 0xC2, CHR 0x85], [CHR 0xC2, CHR 0xA0], [CHR 0xE1, CHR 0x9A, CHR 0x80],
      [CHR 0xE2, CHR 0x80, CHR 0x80], [CHR 0xE2, CHR 0x80, CHR 0x81],
      [CHR 0xE2, CHR 0x80, CHR 0x82], [CHR 0xE2, CHR 0x80, CHR 0x83],
      [CHR 0xE2, CHR 0x80, CHR 0x84], [CHR 0xE2, CHR 0x80, CHR 0x85],
      [CHR 0xE2, CHR 0x80, CHR 0x86], [CHR 0xE2, CHR 0x80, CHR 0x87],
      [CHR 0xE2, CHR 0x80, CHR 0x88], [CHR 0xE2, CHR 0x80, CHR 0x89],
      [CHR 0xE2, CHR 0x80, CHR 0x8A], [CHR 0xE2, CHR 0x80, CHR 0xA8],
      [CHR 0xE2, CHR 0x80, CHR 0xA9], [CHR 0xE2, CHR 0x80, CHR 0xAF],
      [CHR 0xE2, CHR 0x81, CHR 0x9F], [CHR 0xE3, CHR 0x80, CHR 0x80]]"

fun is_prefix :: "string \<Rightarrow> string \<Rightarrow> bool" where
  "is_prefix [] s = True"
| "is_prefix (c # cs) [] = False"
| "is_prefix (c # cs) (d # ds) = (c = d \<and> is_prefix cs ds)"

lemma is_prefix_iff: "is_prefix p s \<longleftrightarrow> (\<exists>t. s = p @ t)"
  by (induction p s rule: is_prefix.induct) auto

lemma is_prefix_append [simp]: "is_prefix p (p @ t)"
  by (simp add: is_prefix_iff)

text \<open>The length of the space that starts a string, 0 when none does.\<close>

fun space_width :: "string list \<Rightarrow> string \<Rightarrow> nat" where
  "space_width [] s = 0"
| "space_width (e # es) s = (if is_prefix e s then length e else space_width es s)"

definition space_at :: "string \<Rightarrow> nat" where
  "space_at s = space_width space_encodings s"

definition space_at_rev :: "string \<Rightarrow> nat" where
  "space_at_rev s = space_width (map rev space_encodings) s"

function drop_spaces :: "string \<Rightarrow> string" where
  "drop_spaces s =
     (if space_at s = 0 \<or> s = [] then s else drop_spaces (drop (space_at s) s))"
  by pat_completeness auto
termination
  by (relation "measure length") auto

function drop_spaces_rev :: "string \<Rightarrow> string" where
  "drop_spaces_rev s =
     (if space_at_rev s = 0 \<or> s = [] then s
      else drop_spaces_rev (drop (space_at_rev s) s))"
  by pat_completeness auto
termination
  by (relation "measure length") auto

declare drop_spaces.simps [simp del] drop_spaces_rev.simps [simp del]

text \<open>\<open>strings.TrimSpace\<close> and \<open>bytes.TrimSpace\<close>.\<close>

definition trim_space :: "string \<Rightarrow> string" where
  "trim_space s = rev (drop_spaces_rev (rev (drop_spaces s)))"

lemma trim_space_Nil [simp]: "trim_space [] = []"
  by (simp add: trim_space_def drop_spaces.simps drop_spaces_rev.simps)

lemma length_drop_spaces: "length (drop_spaces s) \<le> length s"
proof (induction s rule: drop_spaces.induct)
  case (1 s)
  then show ?case by (subst drop_spaces.simps) fastforce
qed

lemma length_drop_spaces_rev: "length (drop_spaces_rev s) \<le> length s"
proof (induction s rule: drop_spaces_rev.induct)
  case (1 s)
  then show ?case by (subst drop_spaces_rev.simps) fastforce
qed

lemma length_trim_space: "length (trim_space s) \<le> length s"
  using length_drop_spaces [of s] length_drop_spaces_rev [of "rev (drop_spaces s)"]
  by (simp add: trim_space_def)

text \<open>\<open>strings.Fields\<close>: the maximal runs of bytes that start no space.\<close>

function fields_aux :: "string \<Rightarrow> string \<Rightarrow> string list" where
  "fields_aux cur [] = (if cur = [] then [] else [rev cur])"
| "fields_aux cur (c # s) =
     (if space_at (c # s) = 0 then fields_aux (c # cur) s
      else (if cur = [] then [] else [rev cur]) @
           fields_aux [] (drop (space_at (c # s)) (c # s)))"
  by pat_completeness auto
termination
  by (relation "measure (\<lambda>(cur, s). length s)") auto

definition string_fields :: "string \<Rightarrow> string list" where
  "string_fields s = fields_aux [] s"

lemma fields_aux_nonempty: "w \<in> set (fields_aux cur s) \<Longrightarrow> w \<noteq> []"
  by (induction cur s rule: fields_aux.induct) (auto split: if_splits)

lemma fields_nonempty: "w \<in> set (string_fields s) \<Longrightarrow> w \<noteq> []"
  by (simp add: string_fields_def fields_aux_nonempty)

text \<open>\<open>IndexByte\<close>, \<open>Split\<close> on one byte and \<open>Cut\<close> at the first occurrence of a byte.\<close>

fun index_byte :: "char \<Rightarrow> string \<Rightarrow> nat option" where
  "index_byte c [] = None"
| "index_byte c (d # s) = (if d = c then Some 0 else map_option Suc (index_byte c s))"

lemma index_byte_None: "index_byte c s = None \<longleftrightarrow> c \<notin> set s"
  by (induction s) auto

lemma index_byte_Some:
  "index_byte c s = Some i \<Longrightarrow> i < length s \<and> s ! i = c \<and> c \<notin> set (take i s)"
  by (induction s arbitrary: i) (auto split: if_splits simp: less_Suc_eq_0_disj)

fun split_byte_aux :: "char \<Rightarrow> string \<Rightarrow> string \<Rightarrow> string list" where
  "split_byte_aux c cur [] = [rev cur]"
| "split_byte_aux c cur (d # s) =
     (if d = c then rev cur # split_byte_aux c [] s else split_byte_aux c (d # cur) s)"

definition split_byte :: "char \<Rightarrow> string \<Rightarrow> string list" where
  "split_byte c s = split_byte_aux c [] s"

definition cut_byte :: "char \<Rightarrow> string \<Rightarrow> (string \<times> string) option" where
  "cut_byte c s =
     (case index_byte c s of None \<Rightarrow> None | Some i \<Rightarrow> Some (take i s, drop (Suc i) s))"

definition trim_prefix :: "string \<Rightarrow> string \<Rightarrow> string" where
  "trim_prefix p s = (if is_prefix p s then drop (length p) s else s)"

text \<open>
  \<open>strings.ToUpper\<close>, as far as comparisons with ASCII words see it: the only other letters
  with an ASCII capital are the dotless i (C4 B1) and the long s (C5 BF).
\<close>

fun to_upper :: "string \<Rightarrow> string" where
  "to_upper [] = []"
| "to_upper (c # s) =
     (if c = CHR 0xC4 \<and> is_prefix [CHR 0xB1] s then CHR ''I'' # to_upper (drop 1 s)
      else if c = CHR 0xC5 \<and> is_prefix [CHR 0xBF] s then CHR ''S'' # to_upper (drop 1 s)
      else (if is_lower c then char_of (of_char c - 32 :: nat) else c) # to_upper s)"

fun join_with :: "string \<Rightarrow> string list \<Rightarrow> string" where
  "join_with sep [] = []"
| "join_with sep [x] = x"
| "join_with sep (x # y # xs) = x @ sep @ join_with sep (y # xs)"

lemma cut_byte_Some:
  assumes "cut_byte c s = Some (a, b)"
  shows "s = a @ c # b" and "c \<notin> set a"
proof -
  from assms obtain i where i: "index_byte c s = Some i"
    and ab: "a = take i s" "b = drop (Suc i) s"
    by (auto simp: cut_byte_def split: option.splits)
  from index_byte_Some [OF i] show "s = a @ c # b" "c \<notin> set a"
    by (auto simp: ab id_take_nth_drop)
qed

lemma split_byte_aux_not_Nil: "split_byte_aux c cur s \<noteq> []"
  by (induction c cur s rule: split_byte_aux.induct) auto

lemma split_byte_aux_join:
  "join_with [c] (split_byte_aux c cur s) = rev cur @ s"
proof (induction c cur s rule: split_byte_aux.induct)
  case (1 c cur)
  then show ?case by simp
next
  case (2 c cur d s)
  obtain x xs where xs: "split_byte_aux c [] s = x # xs"
    using split_byte_aux_not_Nil by (cases "split_byte_aux c [] s") auto
  show ?case
    using 2 xs by (cases "d = c") auto
qed

lemma split_byte_join: "join_with [c] (split_byte c s) = s"
  by (simp add: split_byte_def split_byte_aux_join)

section \<open>Time\<close>

text \<open>
  An instant is a number of nanoseconds since the zero \<open>time.Time\<close>; a duration is a
  signed 64-bit number of nanoseconds, and \<open>Sub\<close> saturates at its limits.
\<close>

type_synonym instant = int
type_synonym duration = int

definition zero_time :: instant where
  "zero_time = 0"

definition max_duration :: duration where
  "max_duration = 2 ^ 63 - 1"

definition min_duration :: duration where
  "min_duration = - (2 ^ 63)"

definition time_sub :: "instant \<Rightarrow> instant \<Rightarrow> duration" where
  "time_sub t u = max min_duration (min max_duration (t - u))"

lemma time_sub_exact:
  "min_duration \<le> t - u \<Longrightarrow> t - u \<le> max_duration \<Longrightarrow> time_sub t u = t - u"
  by (simp add: time_sub_def)

section \<open>Machine integers\<close>

type_synonym u32 = "32 word"
type_synonym u64 = "64 word"

abbreviation max_u64 :: u64 where
  "max_u64 \<equiv> - 1"

text \<open>An addition that fits: the word sum has the sum's value.\<close>

lemma unat_add_u64:
  "unat (a :: u64) + unat b < 2 ^ 64 \<Longrightarrow> unat (a + b) = unat a + unat b"
  by (simp add: unat_word_ariths)

lemma unat_inc_u64: "(a :: u64) < b \<Longrightarrow> unat (a + 1) = unat a + 1"
proof -
  assume "a < b"
  then have "unat a + 1 < 2 ^ 64"
    using unsigned_less [where w = b and 'a = nat] by (simp add: word_less_nat_alt)
  then show ?thesis
    using unat_add_u64 [of a 1] by simp
qed

lemma unat_dec_u64: "(a :: u64) > 0 \<Longrightarrow> unat (a - 1) = unat a - 1"
  by (simp add: unat_minus_one word_gt_0)

end
