(* ===== verification/Go_Float.thy ===== *)
theory Go_Float
  imports Go_Prelude Complex_Main "HOL-Library.Product_Lexorder"
begin

text \<open>
  The values of Go's \<open>float64\<close> as far as comparisons see them: every finite value is a
  rational number (the two zeros compare equal), and there are two infinities and NaN, for
  which every comparison is false.
\<close>

datatype f64 = Fin rat | PInf | NInf | NaN

fun f64_lt :: "f64 \<Rightarrow> f64 \<Rightarrow> bool" where
  "f64_lt (Fin a) (Fin b) \<longleftrightarrow> a < b"
| "f64_lt (Fin a) PInf \<longleftrightarrow> True"
| "f64_lt NInf (Fin b) \<longleftrightarrow> True"
| "f64_lt NInf PInf \<longleftrightarrow> True"
| "f64_lt _ _ \<longleftrightarrow> False"

fun f64_eq :: "f64 \<Rightarrow> f64 \<Rightarrow> bool" where
  "f64_eq (Fin a) (Fin b) \<longleftrightarrow> a = b"
| "f64_eq PInf PInf \<longleftrightarrow> True"
| "f64_eq NInf NInf \<longleftrightarrow> True"
| "f64_eq _ _ \<longleftrightarrow> False"

definition f64_ge :: "f64 \<Rightarrow> f64 \<Rightarrow> bool" where
  "f64_ge a b \<longleftrightarrow> f64_lt b a \<or> f64_eq a b"

text \<open>Without NaN the comparisons are those of a linear order, through a rank.\<close>

fun f64_rank :: "f64 \<Rightarrow> nat \<times> rat" where
  "f64_rank NInf = (0, 0)"
| "f64_rank (Fin a) = (1, a)"
| "f64_rank PInf = (2, 0)"
| "f64_rank NaN = (3, 0)"

lemma f64_lt_rank: "a \<noteq> NaN \<Longrightarrow> b \<noteq> NaN \<Longrightarrow> f64_lt a b \<longleftrightarrow> f64_rank a < f64_rank b"
  by (cases a; cases b) (auto simp: less_prod_def)

lemma f64_eq_rank: "a \<noteq> NaN \<Longrightarrow> b \<noteq> NaN \<Longrightarrow> f64_eq a b \<longleftrightarrow> f64_rank a = f64_rank b"
  by (cases a; cases b) auto

lemma f64_ge_rank: "a \<noteq> NaN \<Longrightarrow> b \<noteq> NaN \<Longrightarrow> f64_ge a b \<longleftrightarrow> f64_rank b \<le> f64_rank a"
  by (auto simp: f64_ge_def f64_lt_rank f64_eq_rank)

lemma f64_rank_inj: "f64_rank a = f64_rank b \<longleftrightarrow> a = b"
  by (cases a; cases b) auto

lemma f64_nan_cmp [simp]:
  "\<not> f64_lt NaN x" "\<not> f64_lt x NaN" "\<not> f64_ge NaN x" "\<not> f64_ge x NaN"
  by (cases x; simp add: f64_ge_def)+

end
