(* ===== verification/Event_Queue.thy ===== *)
theory Event_Queue
  imports Go_Float "HOL-Library.Multiset"
begin

text \<open>
  The event queue of the generated simulators (codegen/container/binary.go): a 4-ary
  binary-style heap in a slice, ordered by the event time, a \<open>float64\<close>. The slice is a
  list, a swap is two list updates, and the two sift loops are recursive functions. The
  empty queue pops the sentinel event with time -1.
\<close>

section \<open>The program\<close>

record 'h event =
  Time :: f64
  Handler :: "'h option"

type_synonym 'h event_queue = "'h event list"

definition new_event_queue :: "nat \<Rightarrow> 'h event_queue" where
  "new_event_queue capacity = []"

definition eq_len :: "'h event_queue \<Rightarrow> nat" where
  "eq_len q = length q"

definition swap :: "'a list \<Rightarrow> nat \<Rightarrow> nat \<Rightarrow> 'a list" where
  "swap q i j = q[i := q ! j, j := q ! i]"

lemma length_swap [simp]: "length (swap q i j) = length q"
  by (simp add: swap_def)

function sift_up :: "'h event_queue \<Rightarrow> nat \<Rightarrow> 'h event_queue" where
  "sift_up q idx =
     (if idx > 0 then
        (let parent = (idx - 1) div 4 in
         if f64_ge (Time (q ! idx)) (Time (q ! parent)) then q
         else sift_up (swap q idx parent) parent)
      else q)"
  by pat_completeness auto
termination
  by (relation "measure snd") auto

definition lesser :: "'h event_queue \<Rightarrow> nat \<Rightarrow> nat \<Rightarrow> nat" where
  "lesser q child m = (if f64_lt (Time (q ! child)) (Time (q ! m)) then child else m)"

definition min_index :: "'h event_queue \<Rightarrow> nat \<Rightarrow> nat" where
  "min_index q idx =
     (let n = length q;
          child1 = 4 * idx + 1; child2 = 4 * idx + 2;
          child3 = 4 * idx + 3; child4 = 4 * idx + 4
      in if child1 < n then
           (let m = lesser q child1 idx in
            if child2 < n then
              (let m = lesser q child2 m in
               if child3 < n then
                 (let m = lesser q child3 m in
                  if child4 < n then lesser q child4 m else m)
               else m)
            else m)
         else idx)"

lemma min_index_cases:
  "min_index q idx = idx \<or>
   (idx < min_index q idx \<and> min_index q idx < length q \<and> (min_index q idx - 1) div 4 = idx)"
  by (auto simp: min_index_def lesser_def Let_def)

function sift_down :: "'h event_queue \<Rightarrow> nat \<Rightarrow> 'h event_queue" where
  "sift_down q idx =
     (if 4 * idx + 1 < length q then
        (let m = min_index q idx in
         if m = idx then q else sift_down (swap q idx m) m)
      else q)"
  by pat_completeness auto
termination
proof (relation "measure (\<lambda>(q, idx). length q - idx)")
  show "wf (measure (\<lambda>(q :: 'h event_queue, idx). length q - idx))" by simp
next
  fix q :: "'h event_queue" and idx m
  assume "4 * idx + 1 < length q" "m = min_index q idx" "m \<noteq> idx"
  then show "((swap q idx m, m), q, idx) \<in> measure (\<lambda>(q, idx). length q - idx)"
    using min_index_cases [of q idx] by auto
qed

declare sift_up.simps [simp del] sift_down.simps [simp del]

definition eq_push :: "'h event_queue \<Rightarrow> 'h event \<Rightarrow> 'h event_queue" where
  "eq_push q e = sift_up (q @ [e]) (length (q @ [e]) - 1)"

definition eq_pop :: "'h event_queue \<Rightarrow> 'h event \<times> 'h event_queue" where
  "eq_pop q =
     (if length q = 0 then (\<lparr>Time = Fin (- 1), Handler = None\<rparr>, q)
      else
        (let result = q ! 0;
             lastIdx = length q - 1;
             q1 = q[0 := q ! lastIdx];
             q2 = take lastIdx q1
         in (result, if length q2 > 0 then sift_down q2 0 else q2)))"

section \<open>Contents\<close>

lemma mset_swap_eq [simp]:
  "i < length q \<Longrightarrow> j < length q \<Longrightarrow> mset (swap q i j) = mset q"
  by (simp add: swap_def mset_swap)

lemma mset_sift_up: "idx < length q \<Longrightarrow> mset (sift_up q idx) = mset q"
proof (induction q idx rule: sift_up.induct)
  case (1 q idx)
  have "(idx - 1) div 4 < length q" using "1.prems" by linarith
  with 1 show ?case by (subst sift_up.simps) (auto simp: Let_def)
qed

lemma mset_sift_down: "mset (sift_down q idx) = mset q"
proof (induction q idx rule: sift_down.induct)
  case (1 q idx)
  show ?case
    using 1 min_index_cases [of q idx]
    by (subst sift_down.simps) (auto simp: Let_def)
qed

lemma mset_eq_push: "mset (eq_push q e) = mset q + {#e#}"
  by (simp add: eq_push_def mset_sift_up)

lemma mset_take_last:
  assumes "q \<noteq> []"
  shows "add_mset (q ! 0) (mset (take (length q - 1) (q[0 := q ! (length q - 1)]))) = mset q"
proof (cases "length q = 1")
  case True
  then show ?thesis by (auto simp: length_Suc_conv)
next
  case False
  with assms obtain x xs y where q: "q = x # xs @ [y]"
    by (metis append_butlast_last_id list.size(3) list.size(4) neq_Nil_conv One_nat_def add_0)
  then show ?thesis by (simp add: nth_append)
qed

lemma mset_eq_pop:
  "q \<noteq> [] \<Longrightarrow> eq_pop q = (e, q') \<Longrightarrow> e = q ! 0 \<and> add_mset e (mset q') = mset q"
  using mset_take_last [of q]
  by (auto simp: eq_pop_def Let_def mset_sift_down split: if_splits)

section \<open>Heap order\<close>

text \<open>
  \<open>is_heap\<close> is the order the sift loops restore: no event is earlier than its parent, by
  the comparison the code uses. It is about queues without a NaN time (\<open>timely\<close>).
\<close>

definition is_heap :: "'h event_queue \<Rightarrow> bool" where
  "is_heap q \<longleftrightarrow>
     (\<forall>i < length q. 0 < i \<longrightarrow> f64_ge (Time (q ! i)) (Time (q ! ((i - 1) div 4))))"

definition timely :: "'h event_queue \<Rightarrow> bool" where
  "timely q \<longleftrightarrow> (\<forall>e \<in> set q. Time e \<noteq> NaN)"

definition key :: "'h event_queue \<Rightarrow> nat \<Rightarrow> nat \<times> rat" where
  "key q i = f64_rank (Time (q ! i))"

lemma timely_nth: "timely q \<Longrightarrow> i < length q \<Longrightarrow> Time (q ! i) \<noteq> NaN"
  by (simp add: timely_def)

lemma timely_mset: "mset p = mset q \<Longrightarrow> timely p = timely q"
  by (metis mset_eq_setD timely_def)

lemma timely_swap: "i < length q \<Longrightarrow> j < length q \<Longrightarrow> timely (swap q i j) = timely q"
  by (rule timely_mset) simp

lemma cmp_key:
  assumes "timely q" "i < length q" "j < length q"
  shows "f64_ge (Time (q ! i)) (Time (q ! j)) \<longleftrightarrow> key q j \<le> key q i"
    and "f64_lt (Time (q ! i)) (Time (q ! j)) \<longleftrightarrow> key q i < key q j"
  using assms by (simp_all add: timely_nth f64_ge_rank f64_lt_rank key_def)

lemma is_heap_key:
  assumes "timely q"
  shows "is_heap q \<longleftrightarrow> (\<forall>i < length q. 0 < i \<longrightarrow> key q ((i - 1) div 4) \<le> key q i)"
proof -
  have "(i - 1) div 4 < length q" if "i < length q" for i
    using that by linarith
  then show ?thesis by (simp add: is_heap_def cmp_key [OF assms])
qed

lemma key_swap:
  "i < length q \<Longrightarrow> j < length q \<Longrightarrow>
   key (swap q i j) x = (if x = i then key q j else if x = j then key q i else key q x)"
  by (simp add: key_def swap_def nth_list_update)

text \<open>While an event moves up, only the edge above it may be out of order.\<close>

definition up_ok :: "'h event_queue \<Rightarrow> nat \<Rightarrow> bool" where
  "up_ok q idx \<longleftrightarrow>
     (\<forall>i < length q. 0 < i \<and> i \<noteq> idx \<longrightarrow> key q ((i - 1) div 4) \<le> key q i) \<and>
     (\<forall>i < length q. 0 < i \<and> (i - 1) div 4 = idx \<and> 0 < idx \<longrightarrow>
        key q ((idx - 1) div 4) \<le> key q i)"

lemma up_ok_step:
  assumes ok: "up_ok q idx" and idx: "idx < length q" "0 < idx"
    and less: "key q idx < key q ((idx - 1) div 4)"
  shows "up_ok (swap q idx ((idx - 1) div 4)) ((idx - 1) div 4)"
proof -
  define p where "p = (idx - 1) div 4"
  have p: "p < idx" "p < length q" using idx by (auto simp: p_def)
  have edge: "key q ((i - 1) div 4) \<le> key q i" if "i < length q" "0 < i" "i \<noteq> idx" for i
    using ok that by (simp add: up_ok_def)
  have grand: "key q p \<le> key q i" if "i < length q" "0 < i" "(i - 1) div 4 = idx" for i
    using ok that idx by (simp add: up_ok_def p_def)
  have less': "key q idx < key q p" using less by (simp add: p_def)
  have p_eq: "(idx - Suc 0) div 4 = p" by (simp add: p_def)
  note ks = key_swap [OF idx(1) p(2)]
  have 1: "key (swap q idx p) ((i - 1) div 4) \<le> key (swap q idx p) i"
    if i: "i < length q" "0 < i" "i \<noteq> p" for i
  proof (cases "i = idx")
    case True
    then show ?thesis using p less' by (auto simp: ks p_eq)
  next
    case False
    with i have "key q ((i - 1) div 4) \<le> key q i" by (rule_tac edge)
    moreover have "(i - 1) div 4 = p \<Longrightarrow> key q idx \<le> key q i"
      using calculation less' by auto
    ultimately show ?thesis
      using i False p grand [of i] by (simp add: ks)
  qed
  have 2: "key (swap q idx p) ((p - 1) div 4) \<le> key (swap q idx p) i"
    if i: "i < length q" "0 < i" "(i - 1) div 4 = p" "0 < p" for i
  proof -
    have "(p - 1) div 4 < p" using i(4) by auto
    then have "(p - 1) div 4 \<noteq> p" "(p - 1) div 4 \<noteq> idx" using p by auto
    moreover have "key q ((p - 1) div 4) \<le> key q p" using edge [of p] p i(4) by auto
    moreover have "i \<noteq> idx \<Longrightarrow> key q p \<le> key q i" using edge [of i] i by auto
    moreover have "i \<noteq> p" using i by auto
    ultimately show ?thesis by (auto simp: ks)
  qed
  show ?thesis using 1 2 by (simp add: up_ok_def p_eq)
qed

lemma sift_up_heap:
  "timely q \<Longrightarrow> idx < length q \<Longrightarrow> up_ok q idx \<Longrightarrow> is_heap (sift_up q idx)"
proof (induction q idx rule: sift_up.induct)
  case (1 q idx)
  define p where "p = (idx - 1) div 4"
  have p: "p < length q" using "1.prems"(2) by (simp add: p_def)
  have p_eq: "(idx - Suc 0) div 4 = p" by (simp add: p_def)
  consider "idx = 0" | "0 < idx" "key q p \<le> key q idx" | "0 < idx" "key q idx < key q p"
    by fastforce
  then show ?case
  proof cases
    case 1
    with "1.prems" show ?thesis
      by (subst sift_up.simps) (auto simp: is_heap_key up_ok_def)
  next
    case 2
    then have "is_heap q"
      using "1.prems" by (auto simp: is_heap_key up_ok_def p_def)
    with 2 p "1.prems" show ?thesis
      by (subst sift_up.simps) (simp add: cmp_key p_eq Let_def)
  next
    case 3
    then have "is_heap (sift_up (swap q idx p) p)"
      using "1.IH" [of p] "1.prems" p up_ok_step [of q idx]
      by (simp add: p_eq cmp_key timely_swap not_le)
    with 3 p "1.prems" show ?thesis
      by (subst sift_up.simps) (auto simp: cmp_key p_eq Let_def)
  qed
qed

text \<open>While an event moves down, only the edges below it may be out of order.\<close>

definition down_ok :: "'h event_queue \<Rightarrow> nat \<Rightarrow> bool" where
  "down_ok q idx \<longleftrightarrow>
     (\<forall>i < length q. 0 < i \<and> (i - 1) div 4 \<noteq> idx \<longrightarrow> key q ((i - 1) div 4) \<le> key q i) \<and>
     (\<forall>i < length q. 0 < i \<and> (i - 1) div 4 = idx \<and> 0 < idx \<longrightarrow>
        key q ((idx - 1) div 4) \<le> key q i)"

lemma key_lesser:
  "timely q \<Longrightarrow> c < length q \<Longrightarrow> m < length q \<Longrightarrow> key q (lesser q c m) = min (key q c) (key q m)"
  by (auto simp: lesser_def cmp_key min_def)

lemma lesser_bound: "c < n \<Longrightarrow> m < n \<Longrightarrow> lesser q c m < n"
  by (simp add: lesser_def)

lemma min_index_le:
  assumes "timely q" "idx < length q"
  shows "key q (min_index q idx) \<le> key q idx"
    and "c < length q \<Longrightarrow> 0 < c \<Longrightarrow> (c - 1) div 4 = idx \<Longrightarrow> key q (min_index q idx) \<le> key q c"
proof -
  show "key q (min_index q idx) \<le> key q idx"
    using assms by (auto simp: min_index_def Let_def key_lesser lesser_bound min_le_iff_disj)
next
  assume c: "c < length q" "0 < c" "(c - 1) div 4 = idx"
  then have "c = 4 * idx + 1 \<or> c = 4 * idx + 2 \<or> c = 4 * idx + 3 \<or> c = 4 * idx + 4"
    by linarith
  then show "key q (min_index q idx) \<le> key q c"
    using assms c(1)
    by (elim disjE) (auto simp: min_index_def Let_def key_lesser lesser_bound min_le_iff_disj)
qed

lemma min_index_less:
  assumes "timely q" "idx < length q" "min_index q idx \<noteq> idx"
  shows "key q (min_index q idx) < key q idx"
proof (rule ccontr)
  assume "\<not> ?thesis"
  with min_index_le(1) [OF assms(1,2)] have eq: "key q (min_index q idx) = key q idx" by simp
  have l: "lesser q c m = m" if "key q idx \<le> key q c" "key q m = key q idx"
    "c < length q" "m < length q" for c m
    using that assms(1) by (auto simp: lesser_def cmp_key)
  have ge: "key q idx \<le> key q c" if "c < length q" "0 < c" "(c - 1) div 4 = idx" for c
    using min_index_le(2) [OF assms(1,2) that] eq by simp
  have "min_index q idx = idx"
    using assms(2) by (auto simp: min_index_def Let_def l ge)
  with assms(3) show False ..
qed

lemma down_ok_step:
  assumes q: "timely q" "idx < length q" and ok: "down_ok q idx"
    and m: "m = min_index q idx" "m \<noteq> idx"
  shows "down_ok (swap q idx m) m"
proof -
  have m': "idx < m" "m < length q" "(m - 1) div 4 = idx"
    using min_index_cases [of q idx] m by auto
  have mi: "key q m < key q idx" using min_index_less [OF q] m by simp
  have child: "key q m \<le> key q i" if "i < length q" "0 < i" "(i - 1) div 4 = idx" for i
    using min_index_le(2) [OF q that] m by simp
  have edge: "key q ((i - 1) div 4) \<le> key q i"
    if "i < length q" "0 < i" "(i - 1) div 4 \<noteq> idx" for i
    using ok that by (simp add: down_ok_def)
  have grand: "key q ((idx - 1) div 4) \<le> key q i"
    if "i < length q" "0 < i" "(i - 1) div 4 = idx" "0 < idx" for i
    using ok that by (simp add: down_ok_def)
  note ks = key_swap [OF q(2) m'(2)]
  have 1: "key (swap q idx m) ((i - 1) div 4) \<le> key (swap q idx m) i"
    if i: "i < length q" "0 < i" "(i - 1) div 4 \<noteq> m" for i
  proof (cases "(i - 1) div 4 = idx")
    case True
    then have "i \<noteq> idx" using i by auto
    with True show ?thesis using mi child [of i] i m'(1) by (auto simp: ks)
  next
    case False
    then have "i \<noteq> m" using m'(3) by auto
    show ?thesis
    proof (cases "i = idx")
      case True
      then show ?thesis using grand [of m] m' i False by (simp add: ks)
    next
      case False2: False
      then show ?thesis using edge [of i] i False \<open>i \<noteq> m\<close> by (simp add: ks)
    qed
  qed
  have 2: "key (swap q idx m) ((m - 1) div 4) \<le> key (swap q idx m) i"
    if i: "i < length q" "0 < i" "(i - 1) div 4 = m" for i
  proof -
    have "i \<noteq> m" "i \<noteq> idx" using i m' by auto
    then show ?thesis using edge [of i] i m' by (simp add: ks)
  qed
  show ?thesis using 1 2 by (simp add: down_ok_def)
qed

lemma sift_down_heap:
  "timely q \<Longrightarrow> idx < length q \<Longrightarrow> down_ok q idx \<Longrightarrow> is_heap (sift_down q idx)"
proof (induction q idx rule: sift_down.induct)
  case (1 q idx)
  note q = "1.prems"(1,2) and ok = "1.prems"(3)
  show ?case
  proof (cases "min_index q idx = idx \<or> length q \<le> 4 * idx + 1")
    case True
    have "key q idx \<le> key q i" if i: "i < length q" "0 < i" "(i - 1) div 4 = idx" for i
      using min_index_le(2) [OF q i] True i by auto
    then have "is_heap q"
      using q ok by (auto simp: is_heap_key down_ok_def)
    with True show ?thesis by (subst sift_down.simps) auto
  next
    case False
    define m where "m = min_index q idx"
    have "m < length q" using False min_index_cases [of q idx] by (auto simp: m_def)
    then have "is_heap (sift_down (swap q idx m) m)"
      using "1.IH" [of m] False q down_ok_step [OF q ok]
      by (auto simp: m_def timely_swap)
    with False show ?thesis
      by (subst sift_down.simps) (simp add: m_def Let_def)
  qed
qed

lemma heap_root_least:
  assumes "timely q" "is_heap q" "i < length q"
  shows "key q 0 \<le> key q i"
  using assms(3)
proof (induction i rule: less_induct)
  case (less i)
  show ?case
  proof (cases "i = 0")
    case False
    then have "key q 0 \<le> key q ((i - 1) div 4)"
      using less.IH [of "(i - 1) div 4"] less.prems by auto
    also have "\<dots> \<le> key q i" using assms less.prems False by (simp add: is_heap_key)
    finally show ?thesis .
  qed simp
qed

section \<open>Operations keep the order\<close>

lemma timely_add: "mset q' = add_mset e (mset q) \<Longrightarrow> timely q' \<longleftrightarrow> Time e \<noteq> NaN \<and> timely q"
proof -
  assume "mset q' = add_mset e (mset q)"
  then have "set q' = insert e (set q)" by (metis set_mset_add_mset_insert set_mset_mset)
  then show ?thesis by (simp add: timely_def)
qed

lemma eq_push_heap:
  assumes "timely q" "is_heap q" "Time e \<noteq> NaN"
  shows "is_heap (eq_push q e) \<and> timely (eq_push q e)"
proof
  have t: "timely (q @ [e])" using assms by (auto simp: timely_def)
  have k: "key (q @ [e]) i = key q i" if "i < length q" for i
    using that by (simp add: key_def nth_append)
  have "up_ok (q @ [e]) (length q)"
    using assms k by (auto simp: up_ok_def is_heap_key less_Suc_eq)
  with t show "is_heap (eq_push q e)" by (simp add: eq_push_def sift_up_heap)
  show "timely (eq_push q e)" using assms timely_add mset_eq_push by fastforce
qed

lemma eq_pop_heap:
  assumes q: "timely q" "is_heap q" "q \<noteq> []" and pop: "eq_pop q = (e, q')"
  shows "is_heap q' \<and> timely q'"
proof
  have ms: "mset q = add_mset e (mset q')" using mset_eq_pop [OF q(3) pop] by metis
  then show t': "timely q'" using timely_add q(1) by blast
  define q2 where "q2 = take (length q - 1) (q[0 := q ! (length q - 1)])"
  have q': "q' = (if length q2 > 0 then sift_down q2 0 else q2)"
    using pop q(3) by (auto simp: eq_pop_def Let_def q2_def)
  show "is_heap q'"
  proof (cases "q2 = []")
    case True
    then show ?thesis using q' by (simp add: is_heap_def)
  next
    case False
    have n: "length q2 = length q - 1" by (simp add: q2_def)
    have k: "key q2 i = key q i" if "i < length q2" "0 < i" for i
      using that by (simp add: key_def q2_def)
    have "mset q2 = mset q'" using q' False by (simp add: mset_sift_down)
    then have t2: "timely q2" using t' timely_mset by blast
    have "down_ok q2 0"
    proof -
      have "key q2 ((i - 1) div 4) \<le> key q2 i"
        if "i < length q2" "0 < i" "(i - 1) div 4 \<noteq> 0" for i
        using that k [of i] k [of "(i - 1) div 4"] q n by (simp add: is_heap_key)
      then show ?thesis by (auto simp: down_ok_def)
    qed
    then show ?thesis using q' False t2 by (simp add: sift_down_heap)
  qed
qed

lemma eq_pop_least:
  assumes "timely q" "is_heap q" "q \<noteq> []" "eq_pop q = (e, q')" "e' \<in> set q"
  shows "f64_ge (Time e') (Time e)"
proof -
  obtain i where i: "i < length q" "e' = q ! i" using assms(5) by (auto simp: in_set_conv_nth)
  have e: "e = q ! 0" using mset_eq_pop assms by blast
  have "key q 0 \<le> key q i" using heap_root_least assms i by blast
  then show ?thesis using cmp_key(1) [OF assms(1) i(1), of 0] assms(3) i e by simp
qed

section \<open>The interface the simulation loop relies on\<close>

text \<open>
  \<open>drain\<close> pops a number of events; \<open>pop_trace\<close> is the shape of the generated event loop:
  pop an event, let its handler change the state and push new events, go on.
\<close>

fun drain :: "('q \<Rightarrow> 'e \<times> 'q) \<Rightarrow> nat \<Rightarrow> 'q \<Rightarrow> 'e list" where
  "drain pop 0 q = []"
| "drain pop (Suc n) q = (case pop q of (e, q') \<Rightarrow> e # drain pop n q')"

fun pop_trace ::
  "('q \<Rightarrow> 'e \<times> 'q) \<Rightarrow> ('q \<Rightarrow> 'e \<Rightarrow> 'q) \<Rightarrow> ('q \<Rightarrow> nat) \<Rightarrow>
   ('e \<Rightarrow> 's \<Rightarrow> 's \<times> 'e list) \<Rightarrow> nat \<Rightarrow> 'q \<Rightarrow> 's \<Rightarrow> 'e list" where
  "pop_trace pop push len react 0 q s = []"
| "pop_trace pop push len react (Suc n) q s =
     (if len q = 0 then []
      else case pop q of (e, q1) \<Rightarrow>
        (case react e s of (s', es) \<Rightarrow>
           e # pop_trace pop push len react n (foldl push q1 es) s'))"

locale priority_queue =
  fixes new :: 'q
    and push :: "'q \<Rightarrow> 'e \<Rightarrow> 'q"
    and pop :: "'q \<Rightarrow> 'e \<times> 'q"
    and len :: "'q \<Rightarrow> nat"
    and invar :: "'q \<Rightarrow> bool"
    and elems :: "'q \<Rightarrow> 'e multiset"
    and ok :: "'e \<Rightarrow> bool"
    and rank :: "'e \<Rightarrow> 'o::linorder"
  assumes invar_new: "invar new"
    and elems_new: "elems new = {#}"
    and len_elems: "len q = size (elems q)"
    and invar_push: "invar q \<Longrightarrow> ok e \<Longrightarrow> invar (push q e)"
    and elems_push: "elems (push q e) = add_mset e (elems q)"
    and invar_pop: "invar q \<Longrightarrow> elems q \<noteq> {#} \<Longrightarrow> pop q = (e, q') \<Longrightarrow> invar q'"
    and elems_pop: "elems q \<noteq> {#} \<Longrightarrow> pop q = (e, q') \<Longrightarrow> elems q = add_mset e (elems q')"
    and pop_least: "invar q \<Longrightarrow> pop q = (e, q') \<Longrightarrow> x \<in># elems q \<Longrightarrow> rank e \<le> rank x"
begin

lemma push_all:
  assumes "invar q" "\<forall>e \<in> set es. ok e"
  shows "invar (foldl push q es) \<and> elems (foldl push q es) = elems q + mset es"
  using assms by (induction es arbitrary: q) (auto simp: invar_push elems_push)

lemma drain_elems: "n \<le> size (elems q) \<Longrightarrow> mset (drain pop n q) \<subseteq># elems q"
proof (induction n arbitrary: q)
  case (Suc n)
  obtain e q' where pop: "pop q = (e, q')" by fastforce
  from Suc.prems have "elems q \<noteq> {#}" by auto
  from elems_pop [OF this pop] have "elems q = add_mset e (elems q')" .
  with Suc pop show ?case by simp
qed simp

lemma drain_sorted:
  "invar q \<Longrightarrow> n \<le> size (elems q) \<Longrightarrow> sorted (map rank (drain pop n q))"
proof (induction n arbitrary: q)
  case (Suc n)
  obtain e q' where pop: "pop q = (e, q')" by fastforce
  from Suc.prems have ne: "elems q \<noteq> {#}" by auto
  from elems_pop [OF ne pop] have el: "elems q = add_mset e (elems q')" .
  have n: "n \<le> size (elems q')" using Suc.prems el by simp
  have "rank e \<le> rank x" if "x \<in> set (drain pop n q')" for x
  proof (rule pop_least [OF Suc.prems(1) pop])
    have "x \<in># elems q'"
      using that drain_elems [OF n] by (simp add: mset_subset_eqD)
    then show "x \<in># elems q" by (simp add: el)
  qed
  then show ?case
    using Suc.IH [OF invar_pop [OF Suc.prems(1) ne pop] n] pop by auto
qed simp

text \<open>Pushing events and draining them sorts them.\<close>

lemma push_drain:
  assumes "\<forall>e \<in> set es. ok e"
  shows "mset (drain pop (length es) (foldl push new es)) = mset es \<and>
    sorted (map rank (drain pop (length es) (foldl push new es)))"
proof -
  let ?q = "foldl push new es"
  have q: "invar ?q" "elems ?q = mset es"
    using push_all [OF invar_new assms] by (auto simp: elems_new)
  have "mset (drain pop n p) = elems p" if "n = size (elems p)" for n p
    using that
  proof (induction n arbitrary: p)
    case (Suc n)
    obtain e p' where pop: "pop p = (e, p')" by fastforce
    from Suc.prems have "elems p \<noteq> {#}" by auto
    from elems_pop [OF this pop] Suc pop show ?case by simp
  qed simp
  from this [of "length es" ?q] q drain_sorted [OF q(1), of "length es"]
  show ?thesis by simp
qed

text \<open>The clock never goes back when handlers only schedule into the future.\<close>

lemma pop_trace_sorted:
  assumes future: "\<And>e s s' es x. react e s = (s', es) \<Longrightarrow> x \<in> set es \<Longrightarrow> ok x \<and> rank e \<le> rank x"
  shows "invar q \<Longrightarrow> \<forall>x \<in># elems q. t \<le> rank x \<Longrightarrow>
    sorted (map rank (pop_trace pop push len react n q s)) \<and>
    (\<forall>x \<in> set (pop_trace pop push len react n q s). t \<le> rank x)"
proof (induction n arbitrary: q s t)
  case (Suc n)
  show ?case
  proof (cases "len q = 0")
    case False
    obtain e q1 where pop: "pop q = (e, q1)" by fastforce
    obtain s' es where re: "react e s = (s', es)" by fastforce
    have ne: "elems q \<noteq> {#}" using False len_elems by auto
    have el: "elems q = add_mset e (elems q1)" using elems_pop [OF ne pop] .
    have q1: "invar q1" using invar_pop [OF Suc.prems(1) ne pop] .
    let ?q2 = "foldl push q1 es"
    have q2: "invar ?q2" "elems ?q2 = elems q1 + mset es"
      using push_all [OF q1] future [OF re] by auto
    have "\<forall>x \<in># elems ?q2. rank e \<le> rank x"
      using pop_least [OF Suc.prems(1) pop] future [OF re] q2(2) el by auto
    from Suc.IH [OF q2(1) this] have
      "sorted (map rank (pop_trace pop push len react n ?q2 s'))"
      "\<forall>x \<in> set (pop_trace pop push len react n ?q2 s'). rank e \<le> rank x" by auto
    moreover have "t \<le> rank e" using Suc.prems(2) el by simp
    ultimately show ?thesis using False pop re by (auto intro: order_trans)
  qed simp
qed simp

end

interpretation heapq: priority_queue
  "new_event_queue 1000" eq_push eq_pop eq_len "\<lambda>q. timely q \<and> is_heap q" mset
  "\<lambda>e. Time e \<noteq> NaN" "\<lambda>e. f64_rank (Time e)"
proof (unfold_locales, goal_cases)
  case 1
  show ?case by (simp add: new_event_queue_def timely_def is_heap_def)
next
  case 2
  show ?case by (simp add: new_event_queue_def)
next
  case (3 q)
  show ?case by (simp add: eq_len_def)
next
  case (4 q e)
  then show ?case using eq_push_heap by blast
next
  case (5 q e)
  show ?case by (simp add: mset_eq_push)
next
  case (6 q e q')
  then show ?case using eq_pop_heap [of q e q'] by auto
next
  case (7 q e q')
  then show ?case using mset_eq_pop [of q e q'] by auto
next
  case (8 q e q' x)
  then have "q \<noteq> []" by auto
  then have "f64_ge (Time x) (Time e)"
    using 8 eq_pop_least by (metis set_mset_mset)
  moreover have "e \<in> set q"
    using mset_eq_pop [OF \<open>q \<noteq> []\<close> 8(2)] \<open>q \<noteq> []\<close> by simp
  ultimately show ?case using 8 by (simp add: f64_ge_rank timely_def)
qed

section \<open>Properties\<close>

text \<open>
  Popping a heap-ordered queue without NaN times returns an event no later than any
  queued one, removes exactly that event, and leaves a heap-ordered queue; the sift loops
  terminate (they are total functions).
\<close>

theorem event_pop_earliest:
  assumes "timely q" "is_heap q" "q \<noteq> []" "eq_pop q = (e, q')"
  shows "mset q = add_mset e (mset q') \<and> (\<forall>x \<in> set q. f64_ge (Time x) (Time e)) \<and>
    timely q' \<and> is_heap q'"
proof -
  have "mset q = add_mset e (mset q')"
    using heapq.elems_pop [OF _ assms(4)] assms(3) by simp
  moreover have "\<forall>x \<in> set q. f64_ge (Time x) (Time e)"
    using eq_pop_least [OF assms] by blast
  moreover have "timely q' \<and> is_heap q'"
    using heapq.invar_pop [OF _ _ assms(4)] assms by simp
  ultimately show ?thesis by blast
qed

text \<open>
  Pushing any events with non-NaN times on a new queue and popping as many events
  returns a permutation of them in the order of their times.
\<close>

theorem event_queue_sorts:
  assumes "\<forall>e \<in> set es. Time e \<noteq> NaN"
  shows "mset (drain eq_pop (length es) (foldl eq_push (new_event_queue c) es)) = mset es \<and>
    sorted_wrt (\<lambda>a b. f64_ge (Time b) (Time a))
      (drain eq_pop (length es) (foldl eq_push (new_event_queue c) es))"
proof -
  let ?xs = "drain eq_pop (length es) (foldl eq_push (new_event_queue c) es)"
  have new: "new_event_queue c = new_event_queue 1000" by (simp add: new_event_queue_def)
  from heapq.push_drain [OF assms] have xs: "mset ?xs = mset es"
    "sorted (map (\<lambda>e. f64_rank (Time e)) ?xs)" by (simp_all add: new)
  then have "\<forall>x \<in> set ?xs. Time x \<noteq> NaN" using assms by (metis mset_eq_setD)
  with xs(2) have "sorted_wrt (\<lambda>a b. f64_ge (Time b) (Time a)) ?xs"
    by (auto simp: sorted_map f64_ge_rank intro: sorted_wrt_mono_rel [rotated])
  with xs show ?thesis by simp
qed

lemma sample_heap:
  "timely [\<lparr>Time = Fin 1, Handler = Some (7::nat)\<rparr>, \<lparr>Time = Fin 3, Handler = None\<rparr>,
     \<lparr>Time = PInf, Handler = None\<rparr>] \<and>
   is_heap [\<lparr>Time = Fin 1, Handler = Some (7::nat)\<rparr>, \<lparr>Time = Fin 3, Handler = None\<rparr>,
     \<lparr>Time = PInf, Handler = None\<rparr>] \<and>
   eq_pop [\<lparr>Time = Fin 1, Handler = Some (7::nat)\<rparr>, \<lparr>Time = Fin 3, Handler = None\<rparr>,
     \<lparr>Time = PInf, Handler = None\<rparr>] =
   (\<lparr>Time = Fin 1, Handler = Some 7\<rparr>,
    [\<lparr>Time = Fin 3, Handler = None\<rparr>, \<lparr>Time = PInf, Handler = None\<rparr>])"
  by code_simp

theorem event_pop_earliest_witness:
  "is_heap [\<lparr>Time = Fin 3, Handler = None :: nat option\<rparr>, \<lparr>Time = PInf, Handler = None\<rparr>]"
  using event_pop_earliest [of "[\<lparr>Time = Fin 1, Handler = Some (7::nat)\<rparr>,
      \<lparr>Time = Fin 3, Handler = None\<rparr>, \<lparr>Time = PInf, Handler = None\<rparr>]"] sample_heap
  by blast

theorem event_queue_sorts_witness:
  "sorted_wrt (\<lambda>a b. f64_ge (Time b) (Time a))
     (drain eq_pop 3 (foldl eq_push (new_event_queue 1000)
       [\<lparr>Time = Fin 5, Handler = Some (0::nat)\<rparr>, \<lparr>Time = NInf, Handler = Some 1\<rparr>,
        \<lparr>Time = Fin (1/2), Handler = Some 2\<rparr>]))"
  using event_queue_sorts [of "[\<lparr>Time = Fin 5, Handler = Some (0::nat)\<rparr>,
    \<lparr>Time = NInf, Handler = Some 1\<rparr>, \<lparr>Time = Fin (1/2), Handler = Some 2\<rparr>]" 1000]
  by (simp add: numeral_3_eq_3 del: drain.simps)

end
