(* ===== verification/Entity_Pool.thy ===== *)
theory Entity_Pool
  imports Go_Prelude
begin

text \<open>
  The entity pool of the generated simulators (codegen/container/pool.go): a slice of
  entities with a free list of 32-bit indices. \<open>Free\<close> and \<open>Get\<close> index the slice and panic
  out of range, so they are partial (\<open>None\<close>). The zero value of the entity type is an
  argument.
\<close>

unbundle bit_operations_syntax

section \<open>The program\<close>

definition NullIdx :: u32 where
  "NullIdx = NOT 0"

record 'a pool =
  Entities :: "'a list"
  FreeList :: "u32 list"

definition new_pool :: "nat \<Rightarrow> 'a pool" where
  "new_pool cap = \<lparr>Entities = [], FreeList = []\<rparr>"

definition pool_alloc :: "'a \<Rightarrow> 'a pool \<Rightarrow> u32 \<times> 'a pool" where
  "pool_alloc zero p =
     (if length (FreeList p) = 0 then
        (let idx = word_of_nat (length (Entities p))
         in (idx, p\<lparr>Entities := Entities p @ [zero]\<rparr>))
      else
        (let idx = FreeList p ! (length (FreeList p) - 1)
         in (idx, p\<lparr>FreeList := take (length (FreeList p) - 1) (FreeList p)\<rparr>)))"

definition pool_free :: "'a \<Rightarrow> 'a pool \<Rightarrow> u32 \<Rightarrow> 'a pool option" where
  "pool_free zero p idx =
     (if unat idx < length (Entities p)
      then Some (p\<lparr>Entities := (Entities p)[unat idx := zero],
                   FreeList := FreeList p @ [idx]\<rparr>)
      else None)"

definition pool_get :: "'a pool \<Rightarrow> u32 \<Rightarrow> 'a option" where
  "pool_get p idx =
     (if unat idx < length (Entities p) then Some (Entities p ! unat idx) else None)"

section \<open>Live handles\<close>

definition pool_live :: "'a pool \<Rightarrow> u32 set" where
  "pool_live p = {i. unat i < length (Entities p)} - set (FreeList p)"

definition pool_ok :: "'a pool \<Rightarrow> bool" where
  "pool_ok p \<longleftrightarrow> distinct (FreeList p) \<and>
     (\<forall>i \<in> set (FreeList p). unat i < length (Entities p)) \<and>
     length (Entities p) \<le> 2 ^ 32"

text \<open>There is room for one more entity: the next slice index fits an \<open>uint32\<close>.\<close>

definition pool_room :: "'a pool \<Rightarrow> bool" where
  "pool_room p \<longleftrightarrow> FreeList p \<noteq> [] \<or> length (Entities p) < 2 ^ 32"

lemma pool_alloc_cases:
  assumes "pool_alloc z p = (i, p')"
  obtains (grow) "FreeList p = []" "i = word_of_nat (length (Entities p))"
      "p' = p\<lparr>Entities := Entities p @ [z]\<rparr>"
  | (reuse) fs where "FreeList p = fs @ [i]" "p' = p\<lparr>FreeList := fs\<rparr>"
proof (cases "FreeList p = []")
  case True
  with assms show ?thesis by (auto simp: pool_alloc_def intro: grow)
next
  case False
  then obtain fs j where "FreeList p = fs @ [j]" by (metis rev_exhaust)
  with assms show ?thesis by (auto simp: pool_alloc_def intro: reuse)
qed

lemma unat_of_length: "n < 2 ^ 32 \<Longrightarrow> unat (word_of_nat n :: u32) = n"
  by (simp add: unsigned_of_nat take_bit_nat_eq_self)

lemma pool_alloc_live:
  assumes ok: "pool_ok p" and room: "pool_room p" and al: "pool_alloc z p = (i, p')"
  shows "i \<notin> pool_live p \<and> pool_live p' = insert i (pool_live p) \<and> pool_ok p'"
  using al
proof (cases rule: pool_alloc_cases)
  case grow
  with room have n: "length (Entities p) < 2 ^ 32" by (simp add: pool_room_def)
  have i: "unat i = length (Entities p)" using unat_of_length [OF n] grow(2) by simp
  have "j = i" if "unat j = length (Entities p)" for j :: u32
    using that i by (simp add: word_unat_eq_iff)
  then show ?thesis
    using grow ok n i by (auto simp: pool_live_def pool_ok_def less_Suc_eq)
next
  case (reuse fs)
  then show ?thesis using ok by (auto simp: pool_live_def pool_ok_def)
qed

lemma pool_free_live:
  assumes "pool_ok p" "i \<in> pool_live p"
  shows "\<exists>p'. pool_free z p i = Some p' \<and> pool_live p' = pool_live p - {i} \<and> pool_ok p'"
  using assms by (auto simp: pool_free_def pool_live_def pool_ok_def)

section \<open>The allocator interface\<close>

text \<open>A run of allocations and releases, as a client makes them: it frees what it holds.\<close>

inductive client_run ::
  "('s \<Rightarrow> 'i \<times> 's) \<Rightarrow> ('s \<Rightarrow> 'i \<Rightarrow> 's option) \<Rightarrow> ('s \<Rightarrow> bool) \<Rightarrow>
   's \<Rightarrow> 'i list \<Rightarrow> 's \<Rightarrow> 'i list \<Rightarrow> bool"
  for alloc free room where
  stop: "client_run alloc free room s held s held"
| acquire: "room s \<Longrightarrow> alloc s = (i, sa) \<Longrightarrow> client_run alloc free room sa (i # held) sb heldb \<Longrightarrow>
    client_run alloc free room s held sb heldb"
| release: "i \<in> set held \<Longrightarrow> free s i = Some sa \<Longrightarrow> client_run alloc free room sa (remove1 i held) sb heldb \<Longrightarrow>
    client_run alloc free room s held sb heldb"

text \<open>
  What a client of a pool relies on: a fresh handle is not live, and only the freed handle
  stops being live. The clients are the generated CREATE and TERMINATE blocks.
\<close>

locale allocator =
  fixes alloc :: "'s \<Rightarrow> 'i \<times> 's"
    and free :: "'s \<Rightarrow> 'i \<Rightarrow> 's option"
    and live :: "'s \<Rightarrow> 'i set"
    and invar :: "'s \<Rightarrow> bool"
    and room :: "'s \<Rightarrow> bool"
  assumes alloc_fresh: "invar s \<Longrightarrow> room s \<Longrightarrow> alloc s = (i, s') \<Longrightarrow>
      i \<notin> live s \<and> live s' = insert i (live s) \<and> invar s'"
    and free_live: "invar s \<Longrightarrow> i \<in> live s \<Longrightarrow>
      \<exists>s'. free s i = Some s' \<and> live s' = live s - {i} \<and> invar s'"
begin

text \<open>The handles a client holds are always distinct and exactly the live ones.\<close>

lemma client_holds_live:
  "client_run alloc free room s held sb heldb \<Longrightarrow> invar s \<Longrightarrow> distinct held \<Longrightarrow> set held = live s \<Longrightarrow>
   invar sb \<and> distinct heldb \<and> set heldb = live sb"
proof (induction rule: client_run.induct)
  case (acquire s i sa held sb heldb)
  with alloc_fresh [OF acquire.prems(1) acquire.hyps(1,2)] show ?case by auto
next
  case (release i held s sa sb heldb)
  from release.prems release.hyps have "i \<in> live s" by auto
  with free_live [OF release.prems(1) this] release.hyps release.prems
  have "live sa = live s - {i}" "invar sa" by auto
  with release show ?case by (simp add: set_remove1_eq)
qed simp

end

interpretation entity_pool: allocator
  "pool_alloc z" "pool_free z" pool_live pool_ok pool_room
proof (unfold_locales, goal_cases)
  case 1
  then show ?case by (rule pool_alloc_live)
next
  case 2
  then show ?case by (rule pool_free_live)
qed

lemma pool_new_ok: "pool_ok (new_pool cap) \<and> pool_live (new_pool cap) = {}"
  by (simp add: new_pool_def pool_ok_def pool_live_def)

section \<open>Properties\<close>

text \<open>
  From a new pool, after any sequence of allocations and frees in which the client frees
  only handles it holds, the handles it holds are pairwise distinct, are exactly the live
  ones, and each of them can be read: no entity is ever handed out twice.
\<close>

theorem pool_handles_distinct:
  assumes "client_run (pool_alloc z) (pool_free z) pool_room (new_pool cap) [] p held"
  shows "distinct held \<and> set held = pool_live p \<and>
    (\<forall>i \<in> set held. pool_get p i \<noteq> None)"
proof -
  have "pool_ok p \<and> distinct held \<and> set held = pool_live p"
    using entity_pool.client_holds_live [OF assms] pool_new_ok [of cap]
    by (metis distinct.simps(1) empty_set)
  then show ?thesis by (auto simp: pool_live_def pool_get_def)
qed

lemma pool_run_example:
  "client_run (pool_alloc (0 :: nat)) (pool_free 0) pool_room (new_pool 10) []
     \<lparr>Entities = [0, 0], FreeList = []\<rparr> [0, 1]"
proof -
  let ?run = "client_run (pool_alloc (0 :: nat)) (pool_free 0) pool_room"
  have "?run \<lparr>Entities = [0, 0], FreeList = []\<rparr> [0, 1] \<lparr>Entities = [0, 0], FreeList = []\<rparr> [0, 1]"
    by (rule client_run.stop)
  then have "?run \<lparr>Entities = [0, 0], FreeList = [0]\<rparr> [1] \<lparr>Entities = [0, 0], FreeList = []\<rparr> [0, 1]"
    by (rule client_run.acquire [rotated 2]) (simp_all add: pool_alloc_def pool_room_def)
  then have "?run \<lparr>Entities = [0, 0], FreeList = []\<rparr> [1, 0] \<lparr>Entities = [0, 0], FreeList = []\<rparr> [0, 1]"
    by (intro client_run.release [where i = 0 and held = "[1, 0]" and
          sa = "\<lparr>Entities = [0, 0], FreeList = [0]\<rparr>"]) (simp_all add: pool_free_def)
  then have "?run \<lparr>Entities = [0], FreeList = []\<rparr> [0] \<lparr>Entities = [0, 0], FreeList = []\<rparr> [0, 1]"
    by (rule client_run.acquire [rotated 2]) (simp_all add: pool_alloc_def pool_room_def)
  then have "?run \<lparr>Entities = [], FreeList = []\<rparr> [] \<lparr>Entities = [0, 0], FreeList = []\<rparr> [0, 1]"
    by (rule client_run.acquire [rotated 2]) (simp_all add: pool_alloc_def pool_room_def)
  then show ?thesis by (simp add: new_pool_def)
qed

theorem pool_handles_distinct_witness:
  "distinct [0, 1 :: u32] \<and> pool_live \<lparr>Entities = [0, 0 :: nat], FreeList = []\<rparr> = {0, 1}"
  using pool_handles_distinct [OF pool_run_example] by simp

end
