(* ===== verification/Api_Types.thy ===== *)
theory Api_Types
  imports Go_Float
begin

text \<open>
  The messages the services exchange (the structs of api/dispatcher/v1 and
  api/controlplane/v1) and the status words of controlplane/types.go and
  dispatcher/types.go. A message pointer that may be nil is an \<open>option\<close>; a protobuf map is
  a partial function; signed integers are \<open>int\<close>, since the program only copies and
  compares them.
\<close>

section \<open>Status words\<close>

definition statusPending :: string where "statusPending = ''PENDING''"
definition statusStarting :: string where "statusStarting = ''STARTING''"
definition statusSubmitted :: string where "statusSubmitted = ''SUBMITTED''"
definition statusBuilding :: string where "statusBuilding = ''BUILDING''"
definition statusReady :: string where "statusReady = ''READY''"
definition statusRunning :: string where "statusRunning = ''RUNNING''"
definition statusFinished :: string where "statusFinished = ''FINISHED''"
definition statusFailed :: string where "statusFailed = ''FAILED''"
definition statusCanceled :: string where "statusCanceled = ''CANCELED''"

definition artifactStatusBuilding :: string where "artifactStatusBuilding = ''BUILDING''"
definition artifactStatusReady :: string where "artifactStatusReady = ''READY''"
definition artifactStatusFailed :: string where "artifactStatusFailed = ''FAILED''"
definition artifactStatusMissing :: string where "artifactStatusMissing = ''MISSING''"

definition nodeStatusOnline :: string where "nodeStatusOnline = ''ONLINE''"

lemmas status_defs =
  statusPending_def statusStarting_def statusSubmitted_def statusBuilding_def
  statusReady_def statusRunning_def statusFinished_def statusFailed_def statusCanceled_def

text \<open>The status words are pairwise different; the proofs use this and keep them folded.\<close>

lemma status_distinct [simp]:
  "distinct [statusPending, statusStarting, statusSubmitted, statusBuilding, statusReady,
     statusRunning, statusFinished, statusFailed, statusCanceled]"
  by (simp add: status_defs)

lemma status_neq [simp]:
  "statusPending \<noteq> statusStarting" "statusStarting \<noteq> statusPending"
  "statusPending \<noteq> statusRunning" "statusRunning \<noteq> statusPending"
  "statusPending \<noteq> statusFinished" "statusFinished \<noteq> statusPending"
  "statusPending \<noteq> statusFailed" "statusFailed \<noteq> statusPending"
  "statusPending \<noteq> statusCanceled" "statusCanceled \<noteq> statusPending"
  "statusStarting \<noteq> statusRunning" "statusRunning \<noteq> statusStarting"
  "statusStarting \<noteq> statusFinished" "statusFinished \<noteq> statusStarting"
  "statusStarting \<noteq> statusFailed" "statusFailed \<noteq> statusStarting"
  "statusStarting \<noteq> statusCanceled" "statusCanceled \<noteq> statusStarting"
  "statusRunning \<noteq> statusFinished" "statusFinished \<noteq> statusRunning"
  "statusRunning \<noteq> statusFailed" "statusFailed \<noteq> statusRunning"
  "statusRunning \<noteq> statusCanceled" "statusCanceled \<noteq> statusRunning"
  "statusFinished \<noteq> statusFailed" "statusFailed \<noteq> statusFinished"
  "statusFinished \<noteq> statusCanceled" "statusCanceled \<noteq> statusFinished"
  "statusFailed \<noteq> statusCanceled" "statusCanceled \<noteq> statusFailed"
  by (simp_all add: status_defs)

section \<open>Dispatcher messages\<close>

record binary_artifact =
  ba_Key :: string
  ba_Sha256 :: string

record artifact_ref =
  ar_Key :: string
  ar_Sha256 :: string
  ar_Size :: int
  ar_ContentType :: string

record set_var =
  sv_Name :: string
  sv_Value :: string

record stop_rule =
  sr_Left :: string
  sr_Op :: string
  sr_Right :: string

record start_request =
  sq_ModelHash :: string
  sq_ExperimentId :: string
  sq_Binary :: "binary_artifact option"
  sq_SetVars :: "set_var option list"
  sq_StopRule :: "stop_rule option"
  sq_Metrics :: "string list"
  sq_MetricStep :: f64
  sq_StoreMetrics :: bool
  sq_MemoryLimitBytes :: u64
  sq_RunTimeoutMs :: u64

record start_response =
  sp_Accepted :: bool
  sp_ModelHash :: string
  sp_ExperimentId :: string
  sp_Status :: string
  sp_ErrorCode :: string
  sp_Message :: string

record stop_response =
  so_Stopped :: bool
  so_ModelHash :: string
  so_ExperimentId :: string
  so_Status :: string
  so_Message :: string

record experiment_status =
  es_ModelHash :: string
  es_ExperimentId :: string
  es_Status :: string
  es_FinishReason :: string
  es_ExitCode :: int
  es_ErrorMessage :: string
  es_FinalMetrics :: "string \<rightharpoonup> string"
  es_StatCount :: u64
  es_MetricsFileRows :: u64
  es_MetricsArtifact :: "artifact_ref option"
  es_StartedAtUnixMs :: int
  es_FinishedAtUnixMs :: int
  es_DurationMs :: int
  es_MemoryLimitBytes :: u64
  es_PeakMemoryBytes :: u64
  es_StderrTail :: string

record node_status =
  ns_NodeId :: string
  ns_Address :: string
  ns_RuntimeGoos :: string
  ns_RuntimeGoarch :: string
  ns_TotalSlots :: u64
  ns_UsedSlots :: u64
  ns_TotalMemoryBytes :: u64
  ns_ReservedMemoryBytes :: u64
  ns_ActiveExperiments :: u64
  ns_CachedModels :: u64

section \<open>Control plane messages\<close>

record experiment_common_config =
  cc_StopRule :: "stop_rule option"
  cc_Metrics :: "string list"
  cc_MetricStep :: f64
  cc_StoreMetrics :: bool
  cc_MemoryLimitBytes :: u64
  cc_RunTimeoutMs :: u64

record experiment_params =
  ep_SetVars :: "set_var option list"

record submit_request =
  sb_BatchId :: string
  sb_Dsl :: string
  sb_StoreSource :: bool
  sb_StoreBinary :: bool
  sb_BuildTimeoutSec :: int
  sb_Common :: "experiment_common_config option"
  sb_Experiments :: "experiment_params option list"

record submitted_experiment =
  se_ModelHash :: string
  se_ExperimentId :: string
  se_Status :: string

record submit_response =
  su_Accepted :: bool
  su_BatchId :: string
  su_ModelHash :: string
  su_Status :: string
  su_SelectedGoos :: string
  su_SelectedGoarch :: string
  su_ErrorCode :: string
  su_Message :: string
  su_Experiments :: "submitted_experiment list"

record cancel_response =
  cn_Canceled :: bool
  cn_ModelHash :: string
  cn_ExperimentId :: string
  cn_Status :: string
  cn_Message :: string

record model_artifact =
  ma_ModelHash :: string
  ma_Goos :: string
  ma_Goarch :: string
  ma_Source :: "artifact_ref option"
  ma_Binary :: "artifact_ref option"
  ma_BuildLog :: "artifact_ref option"
  ma_Status :: string
  ma_ErrorCode :: string
  ma_Message :: string

record batch_status =
  bs_BatchId :: string
  bs_ModelHash :: string
  bs_Status :: string
  bs_TotalExperiments :: int
  bs_PendingExperiments :: int
  bs_RunningExperiments :: int
  bs_FinishedExperiments :: int
  bs_FailedExperiments :: int
  bs_CanceledExperiments :: int
  bs_Artifact :: "model_artifact option"
  bs_Experiments :: "experiment_status list"
  bs_SelectedGoos :: string
  bs_SelectedGoarch :: string
  bs_ErrorCode :: string
  bs_Message :: string

section \<open>Tasks for the code generator\<close>

record codegen_artifact_ref =
  cg_URI :: string
  cg_Key :: string
  cg_SHA256 :: string
  cg_Size :: int
  cg_ContentType :: string

record codegen_task =
  ct_RequestID :: string
  ct_ReplySubject :: string
  ct_ModelHash :: string
  ct_DSL :: string
  ct_Mode :: string
  ct_GOOS :: string
  ct_GOARCH :: string
  ct_StoreSource :: "bool option"
  ct_StoreBinary :: "bool option"
  ct_BuildTimeoutSec :: int

record codegen_result =
  cr_RequestID :: string
  cr_OK :: bool
  cr_ModelHash :: string
  cr_Mode :: string
  cr_GOOS :: string
  cr_GOARCH :: string
  cr_Source :: "codegen_artifact_ref option"
  cr_Binary :: "codegen_artifact_ref option"
  cr_BuildLog :: "codegen_artifact_ref option"
  cr_Stage :: string
  cr_ErrorCode :: string
  cr_Message :: string

end
