(* ===== verification/Pending_Queue.thy ===== *)
theory Pending_Queue
  imports Api_Types
begin

text \<open>
  The scheduler's queue of experiments that wait for a node
  (controlplane/pending_queue.go): a slice of records and an index of their keys. Every
  method holds the mutex, so each is one function on the state. \<open>time.Now()\<close> is an
  argument.
\<close>

section \<open>The program\<close>

record schedule_record =
  sc_BatchID :: string
  sc_ModelHash :: string
  sc_ExperimentID :: string
  sc_GOOS :: string
  sc_GOARCH :: string
  sc_BinaryKey :: string
  sc_BinarySHA256 :: string
  sc_SetVars :: "set_var option list"
  sc_StopRule :: "stop_rule option"
  sc_Metrics :: "string list"
  sc_MetricStep :: f64
  sc_StoreMetrics :: bool
  sc_MemoryLimitBytes :: u64
  sc_RunTimeoutMs :: u64
  sc_PendingSince :: instant

record pending_queue =
  pq_items :: "schedule_record list"
  pq_index :: "string set"

definition new_pending_queue :: pending_queue where
  "new_pending_queue = \<lparr>pq_items = [], pq_index = {}\<rparr>"

definition queueKey :: "string \<Rightarrow> string \<Rightarrow> string" where
  "queueKey modelHash experimentID = modelHash @ '':'' @ experimentID"

definition record_key :: "schedule_record \<Rightarrow> string" where
  "record_key r = queueKey (sc_ModelHash r) (sc_ExperimentID r)"

definition pq_enqueue ::
  "instant \<Rightarrow> schedule_record option \<Rightarrow> pending_queue \<Rightarrow> bool \<times> pending_queue" where
  "pq_enqueue now rec q =
     (case rec of
        None \<Rightarrow> (False, q)
      | Some r \<Rightarrow>
          (let k = queueKey (sc_ModelHash r) (sc_ExperimentID r) in
           if k \<in> pq_index q then (False, q)
           else
             (let r' = (if sc_PendingSince r = zero_time then r\<lparr>sc_PendingSince := now\<rparr> else r)
              in (True, q\<lparr>pq_items := pq_items q @ [r'], pq_index := insert k (pq_index q)\<rparr>))))"

fun pq_enqueue_many ::
  "(instant \<times> schedule_record option) list \<Rightarrow> pending_queue \<Rightarrow> nat \<times> pending_queue" where
  "pq_enqueue_many [] q = (0, q)"
| "pq_enqueue_many ((now, r) # rs) q =
     (case pq_enqueue now r q of (ok, q1) \<Rightarrow>
        (case pq_enqueue_many rs q1 of (added, q2) \<Rightarrow>
           (if ok then added + 1 else added, q2)))"

fun pq_pop_loop :: "nat \<Rightarrow> pending_queue \<Rightarrow> schedule_record list \<times> pending_queue" where
  "pq_pop_loop 0 q = ([], q)"
| "pq_pop_loop (Suc n) q =
     (case pq_items q of
        [] \<Rightarrow> ([], q)
      | r # rest \<Rightarrow>
          (let q1 = q\<lparr>pq_items := rest,
                      pq_index := pq_index q - {queueKey (sc_ModelHash r) (sc_ExperimentID r)}\<rparr>
           in case pq_pop_loop n q1 of (rs, q2) \<Rightarrow> (r # rs, q2)))"

definition pq_pop_batch :: "int \<Rightarrow> pending_queue \<Rightarrow> schedule_record list \<times> pending_queue" where
  "pq_pop_batch limit q =
     (let n = int (length (pq_items q));
          limit' = (if limit \<le> 0 \<or> limit > n then n else limit)
      in pq_pop_loop (nat limit') q)"

definition pq_len :: "pending_queue \<Rightarrow> nat" where
  "pq_len q = length (pq_items q)"

definition pq_remove :: "string \<Rightarrow> string \<Rightarrow> pending_queue \<Rightarrow> bool \<times> pending_queue" where
  "pq_remove modelHash experimentID q =
     (let k = queueKey modelHash experimentID in
      if k \<notin> pq_index q then (False, q)
      else (True, q\<lparr>pq_items := filter (\<lambda>item. record_key item \<noteq> k) (pq_items q),
                    pq_index := pq_index q - {k}\<rparr>))"

section \<open>Invariant\<close>

text \<open>The index holds exactly the keys of the items, and no key twice.\<close>

definition pq_ok :: "pending_queue \<Rightarrow> bool" where
  "pq_ok q \<longleftrightarrow> pq_index q = set (map record_key (pq_items q)) \<and>
     distinct (map record_key (pq_items q))"

definition stamped :: "instant \<Rightarrow> schedule_record \<Rightarrow> schedule_record" where
  "stamped now r = (if sc_PendingSince r = zero_time then r\<lparr>sc_PendingSince := now\<rparr> else r)"

lemma stamped_key [simp]: "record_key (stamped now r) = record_key r"
  by (simp add: stamped_def record_key_def)

lemma pq_new_ok [inv_intros]: "pq_ok new_pending_queue"
  by (simp add: pq_ok_def new_pending_queue_def)

lemma pq_enqueue_Some:
  "pq_enqueue now (Some r) q =
     (if record_key r \<in> pq_index q then (False, q)
      else (True, q\<lparr>pq_items := pq_items q @ [stamped now r],
                    pq_index := insert (record_key r) (pq_index q)\<rparr>))"
  by (simp add: pq_enqueue_def stamped_def record_key_def Let_def)

lemma pq_enqueue_ok [inv_intros]:
  "pq_ok q \<Longrightarrow> pq_ok (snd (pq_enqueue now r q))"
proof (cases r)
  case None
  then show "pq_ok q \<Longrightarrow> ?thesis" by (simp add: pq_enqueue_def)
next
  case (Some x)
  then show "pq_ok q \<Longrightarrow> ?thesis" by (auto simp: pq_enqueue_Some pq_ok_def)
qed

lemma pq_pop_loop_eq:
  "pq_ok q \<Longrightarrow> n \<le> length (pq_items q) \<Longrightarrow>
   fst (pq_pop_loop n q) = take n (pq_items q) \<and>
   pq_items (snd (pq_pop_loop n q)) = drop n (pq_items q) \<and> pq_ok (snd (pq_pop_loop n q))"
proof (induction n arbitrary: q)
  case (Suc n)
  then obtain r rest where items: "pq_items q = r # rest" by (cases "pq_items q") auto
  let ?q1 = "q\<lparr>pq_items := rest, pq_index := pq_index q - {record_key r}\<rparr>"
  have "pq_ok ?q1" using Suc.prems(1) items by (auto simp: pq_ok_def)
  from Suc.IH [OF this] Suc.prems(2) items show ?case
    by (auto simp: record_key_def [symmetric] split: prod.splits)
qed simp

lemma pq_remove_ok [inv_intros]: "pq_ok q \<Longrightarrow> pq_ok (snd (pq_remove h e q))"
  by (auto simp: pq_remove_def Let_def pq_ok_def distinct_map_filter)

section \<open>The queue interface of the scheduler\<close>

text \<open>
  What the scheduler relies on: a FIFO of distinct keys. \<open>contents\<close> is the abstract list.
\<close>

locale keyed_fifo =
  fixes enq :: "'r \<Rightarrow> 'q \<Rightarrow> bool \<times> 'q"
    and pop_all :: "'q \<Rightarrow> 'r list \<times> 'q"
    and contents :: "'q \<Rightarrow> 'r list"
    and key_of :: "'r \<Rightarrow> 'k"
    and invar :: "'q \<Rightarrow> bool"
    and ready :: "'r \<Rightarrow> bool"
  assumes invar_distinct: "invar q \<Longrightarrow> distinct (map key_of (contents q))"
    and enq_invar: "invar q \<Longrightarrow> invar (snd (enq r q))"
    and enq_new: "invar q \<Longrightarrow> ready r \<Longrightarrow> key_of r \<notin> key_of ` set (contents q) \<Longrightarrow>
      fst (enq r q) \<and> contents (snd (enq r q)) = contents q @ [r]"
    and enq_dup: "invar q \<Longrightarrow> key_of r \<in> key_of ` set (contents q) \<Longrightarrow> enq r q = (False, q)"
    and pop_all_eq: "invar q \<Longrightarrow> fst (pop_all q) = contents q \<and>
      contents (snd (pop_all q)) = [] \<and> invar (snd (pop_all q))"
begin

text \<open>Putting back some of the popped records keeps their order and loses none.\<close>

lemma requeue:
  assumes "invar q" "contents q = []" "distinct (map key_of rs)" "\<forall>r \<in> set rs. ready r"
  shows "contents (foldl (\<lambda>q r. snd (enq r q)) q rs) = rs \<and>
    invar (foldl (\<lambda>q r. snd (enq r q)) q rs)"
  using assms(3,4)
proof (induction rs rule: rev_induct)
  case Nil
  then show ?case using assms by simp
next
  case (snoc r rs)
  let ?q = "foldl (\<lambda>q r. snd (enq r q)) q rs"
  from snoc have IH: "contents ?q = rs" "invar ?q" by auto
  have "key_of r \<notin> key_of ` set (contents ?q)" using snoc.prems IH by auto
  with enq_new [OF IH(2)] IH snoc.prems enq_invar [OF IH(2)] show ?case by simp
qed

lemma requeue_popped:
  assumes "invar q" "\<forall>r \<in> set (contents q). ready r"
  shows "contents (foldl (\<lambda>q r. snd (enq r q)) (snd (pop_all q))
           (filter P (fst (pop_all q)))) = filter P (contents q)"
  using requeue [of "snd (pop_all q)" "filter P (contents q)"] pop_all_eq [OF assms(1)]
    invar_distinct [OF assms(1)] assms(2) by (simp add: distinct_map_filter)

end

interpretation pending: keyed_fifo
  "\<lambda>r. pq_enqueue now (Some r)" "\<lambda>q. pq_pop_batch (int (pq_len q)) q" pq_items record_key pq_ok
  "\<lambda>r. sc_PendingSince r \<noteq> zero_time"
proof (unfold_locales, goal_cases)
  case (1 q)
  then show ?case by (simp add: pq_ok_def)
next
  case (2 q r)
  then show ?case by (rule pq_enqueue_ok)
next
  case (3 q r)
  then show ?case by (auto simp: pq_enqueue_Some pq_ok_def stamped_def)
next
  case (4 q r)
  then show ?case by (auto simp: pq_enqueue_Some pq_ok_def)
next
  case (5 q)
  then show ?case
    using pq_pop_loop_eq [of q "length (pq_items q)"]
    by (simp add: pq_pop_batch_def pq_len_def)
qed

section \<open>Refinement to a list\<close>

text \<open>
  The abstract queue is the list of waiting records alone: the index is an optimisation. The
  operations as requests, their answers, and one step of each machine.
\<close>

datatype pq_op =
    Enq instant "schedule_record option"
  | EnqMany "(instant \<times> schedule_record option) list"
  | Pop int
  | Rem string string

datatype pq_answer = Added bool | AddedMany nat | Popped "schedule_record list" | Removed bool

fun pq_step :: "pq_op \<Rightarrow> pending_queue \<Rightarrow> pq_answer \<times> pending_queue" where
  "pq_step (Enq now r) q = map_prod Added id (pq_enqueue now r q)"
| "pq_step (EnqMany rs) q = map_prod AddedMany id (pq_enqueue_many rs q)"
| "pq_step (Pop limit) q = map_prod Popped id (pq_pop_batch limit q)"
| "pq_step (Rem h e) q = map_prod Removed id (pq_remove h e q)"

definition list_enq ::
  "instant \<Rightarrow> schedule_record option \<Rightarrow> schedule_record list \<Rightarrow> bool \<times> schedule_record list" where
  "list_enq now r xs =
     (case r of
        None \<Rightarrow> (False, xs)
      | Some x \<Rightarrow>
          if \<exists>y \<in> set xs. record_key y = record_key x then (False, xs)
          else (True, xs @ [stamped now x]))"

fun list_step :: "pq_op \<Rightarrow> schedule_record list \<Rightarrow> pq_answer \<times> schedule_record list" where
  "list_step (Enq now r) xs = map_prod Added id (list_enq now r xs)"
| "list_step (EnqMany rs) xs =
     map_prod AddedMany id
       (foldl (\<lambda>(n, xs) (now, r). case list_enq now r xs of (ok, ys) \<Rightarrow> (if ok then n + 1 else n, ys))
          (0, xs) rs)"
| "list_step (Pop limit) xs =
     (if limit \<le> 0 then (Popped xs, [])
      else (Popped (take (nat limit) xs), drop (nat limit) xs))"
| "list_step (Rem h e) xs =
     (Removed (\<exists>y \<in> set xs. record_key y = queueKey h e),
      filter (\<lambda>y. record_key y \<noteq> queueKey h e) xs)"

fun run_ops :: "('o \<Rightarrow> 's \<Rightarrow> 'a \<times> 's) \<Rightarrow> 'o list \<Rightarrow> 's \<Rightarrow> 'a list \<times> 's" where
  "run_ops step [] s = ([], s)"
| "run_ops step (x # xs) s =
     (case step x s of (a, s1) \<Rightarrow> case run_ops step xs s1 of (as, s2) \<Rightarrow> (a # as, s2))"

lemma enqueue_refines:
  assumes "pq_ok q"
  shows "fst (pq_enqueue now r q) = fst (list_enq now r (pq_items q)) \<and>
    pq_items (snd (pq_enqueue now r q)) = snd (list_enq now r (pq_items q))"
proof (cases r)
  case None
  then show ?thesis by (simp add: pq_enqueue_def list_enq_def)
next
  case (Some x)
  with assms show ?thesis by (auto simp: pq_enqueue_Some list_enq_def pq_ok_def image_iff)
qed

lemma enqueue_many_refines:
  assumes "pq_ok q"
  shows "foldl (\<lambda>(n, xs) (now, r). case list_enq now r xs of (ok, ys) \<Rightarrow> (if ok then n + 1 else n, ys))
           (k, pq_items q) rs =
         (k + fst (pq_enqueue_many rs q), pq_items (snd (pq_enqueue_many rs q))) \<and>
         pq_ok (snd (pq_enqueue_many rs q))"
  using assms
proof (induction rs q arbitrary: k rule: pq_enqueue_many.induct)
  case (2 now r rs q)
  obtain ok qa where e: "pq_enqueue now r q = (ok, qa)" by fastforce
  have "list_enq now r (pq_items q) = (ok, pq_items qa)"
    using enqueue_refines [OF "2.prems", of now r] e by (simp add: prod_eq_iff)
  moreover have "pq_ok qa" using pq_enqueue_ok [OF "2.prems", of now r] e by simp
  ultimately show ?case
    using "2.IH" [OF e [symmetric], of "k + 1"] "2.IH" [OF e [symmetric], of k] e
    by (cases "pq_enqueue_many rs qa") auto
qed simp

lemma pop_refines:
  assumes "pq_ok q"
  shows "list_step (Pop limit) (pq_items q) =
      (Popped (fst (pq_pop_batch limit q)), pq_items (snd (pq_pop_batch limit q))) \<and>
    pq_ok (snd (pq_pop_batch limit q))"
proof -
  let ?n = "nat (if limit \<le> 0 \<or> limit > int (length (pq_items q)) then int (length (pq_items q)) else limit)"
  have "?n \<le> length (pq_items q)" by auto
  from pq_pop_loop_eq [OF assms this] show ?thesis
    by (auto simp: pq_pop_batch_def Let_def)
qed

lemma remove_refines:
  "pq_ok q \<Longrightarrow> list_step (Rem h e) (pq_items q) =
     (Removed (fst (pq_remove h e q)), pq_items (snd (pq_remove h e q)))"
  by (auto simp: pq_remove_def Let_def pq_ok_def image_iff filter_id_conv)

lemma step_refines:
  "pq_ok q \<Longrightarrow> list_step x (pq_items q) =
     (fst (pq_step x q), pq_items (snd (pq_step x q))) \<and> pq_ok (snd (pq_step x q))"
  using enqueue_refines enqueue_many_refines [of q 0] pop_refines remove_refines pq_enqueue_ok pq_remove_ok
  by (cases x) (auto simp: prod_eq_iff)

text \<open>
  C27. The pending queue is a first-in-first-out list without duplicate keys: on every
  sequence of Enqueue, EnqueueMany, PopBatch and Remove calls from a new queue, every answer
  and the final items are those of the plain list machine, and the index always holds
  exactly the keys of the items.
\<close>

theorem pending_queue_refines_list:
  "fst (run_ops pq_step ops new_pending_queue) = fst (run_ops list_step ops []) \<and>
   pq_items (snd (run_ops pq_step ops new_pending_queue)) = snd (run_ops list_step ops []) \<and>
   pq_ok (snd (run_ops pq_step ops new_pending_queue))"
proof -
  have "fst (run_ops pq_step ops q) = fst (run_ops list_step ops (pq_items q)) \<and>
      pq_items (snd (run_ops pq_step ops q)) = snd (run_ops list_step ops (pq_items q)) \<and>
      pq_ok (snd (run_ops pq_step ops q))" if "pq_ok q" for q
    using that
  proof (induction ops arbitrary: q)
    case (Cons x ops)
    show ?case
      using step_refines [OF Cons.prems, of x] Cons.IH [of "snd (pq_step x q)"]
      by (cases "pq_step x q") (auto split: prod.splits)
  qed simp
  from this [OF pq_new_ok] show ?thesis by (simp add: new_pending_queue_def)
qed

section \<open>Keys\<close>

lemma append_sep_eq:
  "c \<notin> set xs \<Longrightarrow> c \<notin> set ys \<Longrightarrow> xs @ c # as = ys @ c # bs \<longleftrightarrow> xs = ys \<and> as = bs"
  by (induction xs arbitrary: ys; case_tac ys) auto

lemma queueKey_inj:
  "CHR '':'' \<notin> set h \<Longrightarrow> CHR '':'' \<notin> set h' \<Longrightarrow>
   queueKey h e = queueKey h' e' \<longleftrightarrow> h = h' \<and> e = e'"
  by (simp add: queueKey_def append_sep_eq)

text \<open>
  When no model hash contains a colon (they are hexadecimal digests), a second
  experiment is refused only if it has the model hash and the experiment id of one already
  waiting, and an accepted one is the last of the queue with its pending time set.
\<close>

theorem pending_queue_refuses_only_duplicates:
  assumes "pq_ok q" "CHR '':'' \<notin> set (sc_ModelHash r)"
    and "\<forall>x \<in> set (pq_items q). CHR '':'' \<notin> set (sc_ModelHash x)" "now \<noteq> zero_time"
  shows "if \<exists>x \<in> set (pq_items q). sc_ModelHash x = sc_ModelHash r \<and> sc_ExperimentID x = sc_ExperimentID r
    then pq_enqueue now (Some r) q = (False, q)
    else fst (pq_enqueue now (Some r) q) \<and>
      (\<exists>t. t \<noteq> zero_time \<and> pq_items (snd (pq_enqueue now (Some r) q)) = pq_items q @ [r\<lparr>sc_PendingSince := t\<rparr>])"
proof -
  have dup: "record_key r \<in> pq_index q \<longleftrightarrow>
      (\<exists>x \<in> set (pq_items q). sc_ModelHash x = sc_ModelHash r \<and> sc_ExperimentID x = sc_ExperimentID r)"
    using assms(1-3) by (fastforce simp: pq_ok_def record_key_def queueKey_inj image_iff)
  have "\<exists>t. t \<noteq> zero_time \<and> stamped now r = r\<lparr>sc_PendingSince := t\<rparr>"
  proof (cases "sc_PendingSince r = zero_time")
    case True
    then show ?thesis using assms(4) by (auto simp: stamped_def)
  next
    case False
    then show ?thesis by (intro exI [of _ "sc_PendingSince r"]) (simp add: stamped_def)
  qed
  then show ?thesis by (auto simp: pq_enqueue_Some dup)
qed

definition sample_record :: "string \<Rightarrow> string \<Rightarrow> schedule_record" where
  "sample_record h e =
     \<lparr>sc_BatchID = ''b'', sc_ModelHash = h, sc_ExperimentID = e, sc_GOOS = ''linux'',
      sc_GOARCH = ''amd64'', sc_BinaryKey = ''k'', sc_BinarySHA256 = ''s'', sc_SetVars = [],
      sc_StopRule = None, sc_Metrics = [], sc_MetricStep = Fin 0, sc_StoreMetrics = False,
      sc_MemoryLimitBytes = 0, sc_RunTimeoutMs = 0, sc_PendingSince = zero_time\<rparr>"

theorem pending_queue_refuses_only_duplicates_witness:
  "\<exists>t. t \<noteq> zero_time \<and>
     pq_items (snd (pq_enqueue 7 (Some (sample_record ''a'' ''1'')) new_pending_queue)) =
       [(sample_record ''a'' ''1'')\<lparr>sc_PendingSince := t\<rparr>]"
  using pending_queue_refuses_only_duplicates [of new_pending_queue "sample_record ''a'' ''1''" 7] pq_new_ok
  by (simp add: sample_record_def new_pending_queue_def zero_time_def)

text \<open>Without that, keys collide: the hash \<open>a:b\<close> with \<open>c\<close> and \<open>a\<close> with \<open>b:c\<close>.\<close>

lemma queueKey_ambiguous: "queueKey ''a:b'' ''c'' = queueKey ''a'' ''b:c''"
  by (simp add: queueKey_def)

end
