(* ===== verification/Reservation_Ledger.thy ===== *)
theory Reservation_Ledger
  imports Go_Prelude
begin

text \<open>
  The contract of the two components that book slots and memory: the control plane's node
  registry (for the experiments the scheduler has placed on a node) and the dispatcher's
  run registry (for the simulators it runs). A ticket is an owner with the memory booked
  for it; a run takes and returns tickets, and in between other operations happen that book
  nothing.
\<close>

inductive ledger_run ::
  "('s \<Rightarrow> 'k \<Rightarrow> nat \<Rightarrow> 's \<Rightarrow> bool) \<Rightarrow> ('s \<Rightarrow> 'k \<Rightarrow> nat \<Rightarrow> 's \<Rightarrow> bool) \<Rightarrow> ('s \<Rightarrow> 's \<Rightarrow> bool) \<Rightarrow>
   's \<Rightarrow> 's \<Rightarrow> ('k \<times> nat) list \<Rightarrow> bool"
  for acquired released quiet s0 where
  start: "ledger_run acquired released quiet s0 s0 []"
| take_one: "ledger_run acquired released quiet s0 s ts \<Longrightarrow> acquired s k m s' \<Longrightarrow>
    ledger_run acquired released quiet s0 s' ((k, m) # ts)"
| give_back: "ledger_run acquired released quiet s0 s ts \<Longrightarrow> (k, m) \<in> set ts \<Longrightarrow>
    released s k m s' \<Longrightarrow> ledger_run acquired released quiet s0 s' (remove1 (k, m) ts)"
| other: "ledger_run acquired released quiet s0 s ts \<Longrightarrow> quiet s s' \<Longrightarrow>
    ledger_run acquired released quiet s0 s' ts"

definition tickets_of :: "'k \<Rightarrow> ('k \<times> nat) list \<Rightarrow> nat list" where
  "tickets_of k ts = map snd (filter (\<lambda>t. fst t = k) ts)"

lemma tickets_of_Nil [simp]: "tickets_of k [] = []"
  by (simp add: tickets_of_def)

lemma tickets_of_Cons [simp]:
  "tickets_of k ((j, m) # ts) = (if j = k then m # tickets_of k ts else tickets_of k ts)"
  by (simp add: tickets_of_def)

lemma tickets_of_remove1:
  "(j, m) \<in> set ts \<Longrightarrow>
   tickets_of k (remove1 (j, m) ts) = (if j = k then remove1 m (tickets_of k ts) else tickets_of k ts)"
  by (induction ts) (auto split: if_splits)

lemma tickets_of_mem: "(k, m) \<in> set ts \<Longrightarrow> m \<in> set (tickets_of k ts)"
  by (force simp: tickets_of_def)

lemma sum_list_remove1: "(m :: nat) \<in> set ms \<Longrightarrow> sum_list (remove1 m ms) = sum_list ms - m"
  by (induction ms) (auto simp: member_le_sum_list)

locale ledger =
  fixes acquired :: "'s \<Rightarrow> 'k \<Rightarrow> nat \<Rightarrow> 's \<Rightarrow> bool"
    and released :: "'s \<Rightarrow> 'k \<Rightarrow> nat \<Rightarrow> 's \<Rightarrow> bool"
    and quiet :: "'s \<Rightarrow> 's \<Rightarrow> bool"
    and slots :: "'s \<Rightarrow> 'k \<Rightarrow> nat"
    and memory :: "'s \<Rightarrow> 'k \<Rightarrow> nat"
    and invar :: "'s \<Rightarrow> bool"
  assumes acquired_books: "invar s \<Longrightarrow> acquired s k m s' \<Longrightarrow>
      slots s' = (slots s)(k := slots s k + 1) \<and> memory s' = (memory s)(k := memory s k + m) \<and>
      invar s'"
    and released_unbooks: "invar s \<Longrightarrow> released s k m s' \<Longrightarrow> 0 < slots s k \<Longrightarrow> m \<le> memory s k \<Longrightarrow>
      slots s' = (slots s)(k := slots s k - 1) \<and> memory s' = (memory s)(k := memory s k - m) \<and>
      invar s'"
    and quiet_books: "invar s \<Longrightarrow> quiet s s' \<Longrightarrow>
      slots s' = slots s \<and> memory s' = memory s \<and> invar s'"
begin

text \<open>The books always balance: what is booked is what the outstanding tickets add up to.\<close>

lemma balanced:
  assumes "ledger_run acquired released quiet s0 s ts" "invar s0"
    "slots s0 = (\<lambda>_. 0)" "memory s0 = (\<lambda>_. 0)"
  shows "invar s \<and> (\<forall>k. slots s k = length (tickets_of k ts) \<and> memory s k = sum_list (tickets_of k ts))"
  using assms(1)
proof (induction rule: ledger_run.induct)
  case start
  then show ?case using assms by simp
next
  case (take_one s ts k m s')
  then show ?case using acquired_books [OF _ take_one.hyps(2)] by auto
next
  case (give_back s ts k m s')
  have m: "m \<in> set (tickets_of k ts)" using tickets_of_mem [OF give_back.hyps(2)] .
  then have "0 < slots s k" "m \<le> memory s k"
    using give_back.IH by (auto intro: member_le_sum_list length_pos_if_in_set)
  with released_unbooks [OF _ give_back.hyps(3)] give_back.IH m show ?case
    by (auto simp: tickets_of_remove1 [OF give_back.hyps(2)] length_remove1 sum_list_remove1)
next
  case (other s ts s')
  then show ?case using quiet_books [OF _ other.hyps(2)] by auto
qed

end

end
