(* ===== verification/Node_Registry.thy ===== *)
theory Node_Registry
  imports Api_Types Reservation_Ledger
begin

text \<open>
  The control plane's registry of dispatcher nodes (controlplane/node_registry.go): the
  last status each node sent, when it was seen, the slots and memory the scheduler has
  reserved on it and its run of failures. Every method holds the mutex and is one function
  on the state; \<open>time.Now()\<close> is an argument, and so is the order in which a \<open>range\<close> over the
  map visits the keys, which Go leaves open.
\<close>

section \<open>The program\<close>

record node_record =
  nr_Node :: "node_status option"
  nr_LastSeenAt :: instant
  nr_ReservedSlots :: u64
  nr_ReservedMemoryBytes :: u64
  nr_failureCount :: u32

record node_registry =
  reg_ttl :: duration
  reg_nodes :: "string \<rightharpoonup> node_record"

definition new_node_registry :: "duration \<Rightarrow> node_registry" where
  "new_node_registry ttl = \<lparr>reg_ttl = ttl, reg_nodes = Map.empty\<rparr>"

definition cloneNodeStatus :: "node_status option \<Rightarrow> node_status option" where
  "cloneNodeStatus node =
     (case node of
        None \<Rightarrow> None
      | Some n \<Rightarrow> Some
          \<lparr>ns_NodeId = ns_NodeId n, ns_Address = ns_Address n,
           ns_RuntimeGoos = ns_RuntimeGoos n, ns_RuntimeGoarch = ns_RuntimeGoarch n,
           ns_TotalSlots = ns_TotalSlots n, ns_UsedSlots = ns_UsedSlots n,
           ns_TotalMemoryBytes = ns_TotalMemoryBytes n,
           ns_ReservedMemoryBytes = ns_ReservedMemoryBytes n,
           ns_ActiveExperiments = ns_ActiveExperiments n, ns_CachedModels = ns_CachedModels n\<rparr>)"

lemma cloneNodeStatus_id [simp]: "cloneNodeStatus n = n"
  by (simp add: cloneNodeStatus_def split: option.split)

definition node_register ::
  "instant \<Rightarrow> node_status option \<Rightarrow> node_registry \<Rightarrow> string + node_registry" where
  "node_register now node r =
     (case node of
        None \<Rightarrow> Inl ''empty node''
      | Some n \<Rightarrow>
          if ns_NodeId n = [] then Inl ''empty node_id''
          else if ns_Address n = [] then Inl ''empty node address''
          else if ns_RuntimeGoos n = [] then Inl ''empty runtime_goos''
          else if ns_RuntimeGoarch n = [] then Inl ''empty runtime_goarch''
          else
            (let (slots, mem, fc) =
               (case reg_nodes r (ns_NodeId n) of
                  Some e \<Rightarrow> (nr_ReservedSlots e, nr_ReservedMemoryBytes e, nr_failureCount e)
                | None \<Rightarrow> (0, 0, 0))
             in Inr (r\<lparr>reg_nodes := (reg_nodes r)(ns_NodeId n \<mapsto>
                  \<lparr>nr_Node = cloneNodeStatus node, nr_LastSeenAt = now,
                   nr_ReservedSlots = slots, nr_ReservedMemoryBytes = mem,
                   nr_failureCount = fc\<rparr>)\<rparr>)))"

definition node_heartbeat ::
  "instant \<Rightarrow> node_status option \<Rightarrow> node_registry \<Rightarrow> string + node_registry" where
  "node_heartbeat now node r =
     (case node of
        None \<Rightarrow> Inl ''empty node''
      | Some n \<Rightarrow>
          if ns_NodeId n = [] then Inl ''empty node_id''
          else
            (let updated = \<lparr>nr_Node = cloneNodeStatus node, nr_LastSeenAt = now,
                            nr_ReservedSlots = 0, nr_ReservedMemoryBytes = 0,
                            nr_failureCount = 0\<rparr>;
                 updated = (case reg_nodes r (ns_NodeId n) of
                    Some e \<Rightarrow> updated\<lparr>nr_ReservedSlots := nr_ReservedSlots e,
                                     nr_ReservedMemoryBytes := nr_ReservedMemoryBytes e,
                                     nr_failureCount := nr_failureCount e\<rparr>
                  | None \<Rightarrow> updated)
             in Inr (r\<lparr>reg_nodes := (reg_nodes r)(ns_NodeId n \<mapsto> updated)\<rparr>)))"

definition expired :: "instant \<Rightarrow> node_registry \<Rightarrow> node_record \<Rightarrow> bool" where
  "expired now r record \<longleftrightarrow> time_sub now (nr_LastSeenAt record) > reg_ttl r"

definition delete_node :: "string \<Rightarrow> node_registry \<Rightarrow> node_registry" where
  "delete_node nodeID r = r\<lparr>reg_nodes := (reg_nodes r)(nodeID := None)\<rparr>"

fun list_loop ::
  "instant \<Rightarrow> string \<Rightarrow> string list \<Rightarrow> node_registry \<Rightarrow>
   node_status option list \<Rightarrow> string list \<Rightarrow>
   (node_status option list \<times> string list) \<times> node_registry" where
  "list_loop now status [] r alive evicted = ((alive, evicted), r)"
| "list_loop now status (nodeID # order) r alive evicted =
     (case reg_nodes r nodeID of
        None \<Rightarrow> list_loop now status order r alive evicted
      | Some record \<Rightarrow>
          if expired now r record then
            list_loop now status order (delete_node nodeID r) alive (evicted @ [nodeID])
          else if status \<noteq> [] \<and> status \<noteq> nodeStatusOnline then
            list_loop now status order r alive evicted
          else
            list_loop now status order r (alive @ [cloneNodeStatus (nr_Node record)]) evicted)"

definition node_list ::
  "instant \<Rightarrow> string list \<Rightarrow> string \<Rightarrow> node_registry \<Rightarrow>
   (node_status option list \<times> string list) \<times> node_registry" where
  "node_list now order status r = list_loop now (to_upper (trim_space status)) order r [] []"

definition active_node_ids :: "instant \<Rightarrow> node_registry \<Rightarrow> string set" where
  "active_node_ids now r =
     {nodeID. \<exists>record. reg_nodes r nodeID = Some record \<and> \<not> expired now r record}"

definition hasEnoughMemoryAt :: "node_status \<Rightarrow> u64 \<Rightarrow> u64 \<Rightarrow> bool" where
  "hasEnoughMemoryAt node currentReserved memoryLimitBytes =
     (if memoryLimitBytes = 0 then True
      else
        (let total = ns_TotalMemoryBytes node in
         if total = 0 then True else currentReserved + memoryLimitBytes \<le> total))"

definition hasEnoughMemory :: "node_status \<Rightarrow> u64 \<Rightarrow> bool" where
  "hasEnoughMemory node memoryLimitBytes =
     hasEnoughMemoryAt node (ns_ReservedMemoryBytes node) memoryLimitBytes"

definition reserve_on :: "u64 \<Rightarrow> node_record \<Rightarrow> node_record" where
  "reserve_on mem record =
     (let record = record\<lparr>nr_ReservedSlots := nr_ReservedSlots record + 1\<rparr>
      in if mem > 0 then record\<lparr>nr_ReservedMemoryBytes := nr_ReservedMemoryBytes record + mem\<rparr>
         else record)"

fun pick_loop ::
  "instant \<Rightarrow> string \<Rightarrow> string \<Rightarrow> u64 \<Rightarrow> string list \<Rightarrow> node_registry \<Rightarrow>
   node_status option \<times> node_registry" where
  "pick_loop now goos goarch mem [] r = (None, r)"
| "pick_loop now goos goarch mem (nodeID # order) r =
     (case reg_nodes r nodeID of
        None \<Rightarrow> pick_loop now goos goarch mem order r
      | Some record \<Rightarrow>
          if expired now r record then pick_loop now goos goarch mem order (delete_node nodeID r)
          else
            (case nr_Node record of
               None \<Rightarrow> pick_loop now goos goarch mem order (delete_node nodeID r)
             | Some node \<Rightarrow>
                 if goos \<noteq> [] \<and> ns_RuntimeGoos node \<noteq> goos then
                   pick_loop now goos goarch mem order r
                 else if goarch \<noteq> [] \<and> ns_RuntimeGoarch node \<noteq> goarch then
                   pick_loop now goos goarch mem order r
                 else
                   (let usedSlots = (if nr_ReservedSlots record > ns_UsedSlots node
                                     then nr_ReservedSlots record else ns_UsedSlots node) in
                    if usedSlots \<ge> ns_TotalSlots node then pick_loop now goos goarch mem order r
                    else
                      (let reserved = (if nr_ReservedMemoryBytes record > ns_ReservedMemoryBytes node
                                       then nr_ReservedMemoryBytes record
                                       else ns_ReservedMemoryBytes node) in
                       if \<not> hasEnoughMemoryAt node reserved mem then
                         pick_loop now goos goarch mem order r
                       else
                         (cloneNodeStatus (Some node),
                          r\<lparr>reg_nodes := (reg_nodes r)(nodeID \<mapsto> reserve_on mem record)\<rparr>)))))"

definition pick_and_reserve ::
  "instant \<Rightarrow> string list \<Rightarrow> string \<Rightarrow> string \<Rightarrow> u64 \<Rightarrow> node_registry \<Rightarrow>
   node_status option \<times> node_registry" where
  "pick_and_reserve now order goos goarch mem r =
     pick_loop now (trim_space goos) (trim_space goarch) mem order r"

definition release_reservation :: "string \<Rightarrow> u64 \<Rightarrow> node_registry \<Rightarrow> node_registry" where
  "release_reservation nodeID mem r =
     (case reg_nodes r nodeID of
        None \<Rightarrow> r
      | Some record \<Rightarrow>
          (let record = (if nr_ReservedSlots record > 0
                         then record\<lparr>nr_ReservedSlots := nr_ReservedSlots record - 1\<rparr> else record);
               record = (if mem > 0
                         then (if nr_ReservedMemoryBytes record \<ge> mem
                               then record\<lparr>nr_ReservedMemoryBytes := nr_ReservedMemoryBytes record - mem\<rparr>
                               else record\<lparr>nr_ReservedMemoryBytes := 0\<rparr>)
                         else record)
           in r\<lparr>reg_nodes := (reg_nodes r)(nodeID \<mapsto> record)\<rparr>))"

definition node_remove :: "string \<Rightarrow> node_registry \<Rightarrow> node_registry" where
  "node_remove nodeID r = delete_node nodeID r"

definition mark_node_failed :: "string \<Rightarrow> u32 \<Rightarrow> node_registry \<Rightarrow> bool \<times> node_registry" where
  "mark_node_failed nodeID maxFailures r =
     (case reg_nodes r nodeID of
        None \<Rightarrow> (False, r)
      | Some record \<Rightarrow>
          (let record = record\<lparr>nr_failureCount := nr_failureCount record + 1\<rparr>;
               r = r\<lparr>reg_nodes := (reg_nodes r)(nodeID \<mapsto> record)\<rparr>
           in if nr_failureCount record \<ge> maxFailures then (True, delete_node nodeID r)
              else (False, r)))"

definition mark_node_succeeded :: "string \<Rightarrow> node_registry \<Rightarrow> node_registry" where
  "mark_node_succeeded nodeID r =
     (case reg_nodes r nodeID of
        None \<Rightarrow> r
      | Some record \<Rightarrow>
          if nr_failureCount record = 0 then r
          else r\<lparr>reg_nodes := (reg_nodes r)(nodeID \<mapsto> record\<lparr>nr_failureCount := 0\<rparr>)\<rparr>)"

definition node_get ::
  "instant \<Rightarrow> string \<Rightarrow> node_registry \<Rightarrow> node_status option \<times> node_registry" where
  "node_get now nodeID r =
     (case reg_nodes r nodeID of
        None \<Rightarrow> (None, r)
      | Some record \<Rightarrow>
          if expired now r record then (None, delete_node nodeID r)
          else if nr_Node record = None then (None, delete_node nodeID r)
          else (cloneNodeStatus (nr_Node record), r))"

section \<open>Choosing a node\<close>

text \<open>A node the loop deletes, and a node it may choose.\<close>

definition stale :: "instant \<Rightarrow> node_registry \<Rightarrow> string \<Rightarrow> bool" where
  "stale now r nodeID \<longleftrightarrow>
     (\<exists>record. reg_nodes r nodeID = Some record \<and> (expired now r record \<or> nr_Node record = None))"

definition fits :: "string \<Rightarrow> string \<Rightarrow> u64 \<Rightarrow> node_record \<Rightarrow> node_status \<Rightarrow> bool" where
  "fits goos goarch mem record node \<longleftrightarrow>
     (goos = [] \<or> ns_RuntimeGoos node = goos) \<and> (goarch = [] \<or> ns_RuntimeGoarch node = goarch) \<and>
     max (nr_ReservedSlots record) (ns_UsedSlots node) < ns_TotalSlots node \<and>
     hasEnoughMemoryAt node (max (nr_ReservedMemoryBytes record) (ns_ReservedMemoryBytes node)) mem"

definition eligible ::
  "instant \<Rightarrow> string \<Rightarrow> string \<Rightarrow> u64 \<Rightarrow> node_registry \<Rightarrow> string \<Rightarrow> node_record \<Rightarrow> node_status \<Rightarrow> bool" where
  "eligible now goos goarch mem r nodeID record node \<longleftrightarrow>
     reg_nodes r nodeID = Some record \<and> \<not> expired now r record \<and> nr_Node record = Some node \<and>
     fits goos goarch mem record node"

lemma delete_node_simps [simp]:
  "reg_nodes (delete_node k r) = (reg_nodes r)(k := None)" "reg_ttl (delete_node k r) = reg_ttl r"
  "(delete_node k r)\<lparr>reg_nodes := f\<rparr> = r\<lparr>reg_nodes := f\<rparr>"
  by (simp_all add: delete_node_def)

lemma pick_loop_Cons:
  "pick_loop now goos goarch mem (k # order) r =
     (case reg_nodes r k of
        None \<Rightarrow> pick_loop now goos goarch mem order r
      | Some record \<Rightarrow>
          if stale now r k then pick_loop now goos goarch mem order (delete_node k r)
          else if fits goos goarch mem record (the (nr_Node record)) then
            (nr_Node record, r\<lparr>reg_nodes := (reg_nodes r)(k \<mapsto> reserve_on mem record)\<rparr>)
          else pick_loop now goos goarch mem order r)"
proof (cases "reg_nodes r k")
  case None
  then show ?thesis by simp
next
  case (Some rc)
  have m: "(if b > a then b else a) = max b a" for a b :: u64 by (auto simp: max_def)
  from Some show ?thesis
    by (cases "nr_Node rc") (auto simp: stale_def fits_def m Let_def not_less le_max_iff_disj)
qed

declare pick_loop.simps(2) [simp del]

lemma expired_delete [simp]: "expired now (delete_node k r) = expired now r"
  by (simp add: expired_def fun_eq_iff)

lemma stale_delete [simp]: "stale now (delete_node k r) j \<longleftrightarrow> j \<noteq> k \<and> stale now r j"
  by (auto simp: stale_def)

lemma eligible_delete [simp]:
  "eligible now goos goarch mem (delete_node k r) j rc node \<longleftrightarrow>
   j \<noteq> k \<and> eligible now goos goarch mem r j rc node"
  by (auto simp: eligible_def)

lemma pick_loop_stale:
  "stale now r k \<Longrightarrow>
   pick_loop now goos goarch mem (k # order) r = pick_loop now goos goarch mem order (delete_node k r)"
  by (auto simp: pick_loop_Cons stale_def)

lemma pick_loop_None:
  "pick_loop now goos goarch mem order r = (None, r') \<Longrightarrow> distinct order \<Longrightarrow>
   (\<forall>k \<in> set order. \<forall>rc node. \<not> eligible now goos goarch mem r k rc node) \<and>
   r' = r\<lparr>reg_nodes := (\<lambda>k. if k \<in> set order \<and> stale now r k then None else reg_nodes r k)\<rparr>"
proof (induction order arbitrary: r)
  case Nil
  then show ?case by simp
next
  case (Cons k order)
  show ?case
  proof (cases "stale now r k")
    case True
    have "\<not> eligible now goos goarch mem r k rc n" for rc n
      using True by (auto simp: eligible_def stale_def)
    moreover have "pick_loop now goos goarch mem order (delete_node k r) = (None, r')"
      using Cons.prems(1) by (simp add: pick_loop_stale [OF True])
    moreover have "(\<lambda>j. if j \<in> set order \<and> stale now (delete_node k r) j then None
          else reg_nodes (delete_node k r) j) =
        (\<lambda>j. if j \<in> set (k # order) \<and> stale now r j then None else reg_nodes r j)"
      using True by (auto simp: fun_eq_iff)
    ultimately show ?thesis
      using Cons.IH [of "delete_node k r"] Cons.prems(2) True
      by auto
  next
    case False
    then have *: "\<not> eligible now goos goarch mem r k rc n \<and> pick_loop now goos goarch mem order r = (None, r')" for rc n
      using Cons.prems
      by (auto simp: pick_loop_Cons eligible_def stale_def split: option.splits if_splits)
    have "(\<lambda>j. if j \<in> set (k # order) \<and> stale now r j then None else reg_nodes r j) =
        (\<lambda>j. if j \<in> set order \<and> stale now r j then None else reg_nodes r j)"
      using False by (auto simp: fun_eq_iff)
    with * Cons.IH [of r] Cons.prems show ?thesis by auto
  qed
qed

lemma pick_loop_Some:
  "pick_loop now goos goarch mem order r = (Some n, r') \<Longrightarrow> distinct order \<Longrightarrow>
   \<exists>k \<in> set order. \<exists>record. eligible now goos goarch mem r k record n \<and>
     reg_nodes r' k = Some (reserve_on mem record) \<and> reg_ttl r' = reg_ttl r \<and>
     (\<forall>j. j \<noteq> k \<longrightarrow> reg_nodes r' j = reg_nodes r j \<or> stale now r j \<and> reg_nodes r' j = None)"
proof (induction order arbitrary: r)
  case Nil
  then show ?case by simp
next
  case (Cons k order)
  show ?case
  proof (cases "stale now r k")
    case True
    have "pick_loop now goos goarch mem order (delete_node k r) = (Some n, r')"
      using Cons.prems(1) by (simp add: pick_loop_stale [OF True])
    from Cons.IH [OF this] Cons.prems(2) obtain j rc where j: "j \<in> set order"
      "eligible now goos goarch mem (delete_node k r) j rc n"
      "reg_nodes r' j = Some (reserve_on mem rc)" "reg_ttl r' = reg_ttl r"
      "\<forall>i. i \<noteq> j \<longrightarrow> reg_nodes r' i = ((reg_nodes r)(k := None)) i \<or>
         stale now (delete_node k r) i \<and> reg_nodes r' i = None"
      by auto
    have "reg_nodes r' i = reg_nodes r i \<or> stale now r i \<and> reg_nodes r' i = None"
      if "i \<noteq> j" for i
      using j(5) that True by (cases "i = k") auto
    with j(1-4) show ?thesis by (intro bexI [of _ j] exI [of _ rc]) auto
  next
    case False
    show ?thesis
    proof (cases "\<exists>record. reg_nodes r k = Some record \<and>
        fits goos goarch mem record (the (nr_Node record))")
      case True
      then show ?thesis using False Cons.prems
        by (auto simp: pick_loop_Cons eligible_def stale_def)
    next
      case False2: False
      with False Cons.prems(1) have "pick_loop now goos goarch mem order r = (Some n, r')"
        by (auto simp: pick_loop_Cons split: option.splits)
      from Cons.IH [OF this] Cons.prems(2) show ?thesis by auto
    qed
  qed
qed

text \<open>
  C23. \<open>PickAndReserve\<close>, whatever the order in which the map is visited: with an answer, the
  node was alive, matches the requested platform, has a free slot and the memory, its
  reservation (and no other) is increased, and the only other change is that expired nodes
  may be forgotten; without an answer, no node was eligible, and exactly the expired nodes
  are forgotten.
\<close>

theorem pick_and_reserve_correct:
  assumes "distinct order" "set order = dom (reg_nodes r)"
    and "pick_and_reserve now order goos goarch mem r = (answer, r')"
  shows "case answer of
      Some n \<Rightarrow> (\<exists>k rc. eligible now (trim_space goos) (trim_space goarch) mem r k rc n \<and>
        reg_nodes r' k = Some (reserve_on mem rc) \<and>
        (\<forall>j. j \<noteq> k \<longrightarrow> reg_nodes r' j = reg_nodes r j \<or> stale now r j \<and> reg_nodes r' j = None))
    | None \<Rightarrow>
        (\<forall>k rc n. \<not> eligible now (trim_space goos) (trim_space goarch) mem r k rc n) \<and>
        reg_nodes r' = (\<lambda>k. if stale now r k then None else reg_nodes r k)"
proof (cases answer)
  case None
  with assms pick_loop_None [of now "trim_space goos" "trim_space goarch" mem order r r']
  have none: "\<forall>k \<in> dom (reg_nodes r). \<forall>rc n. \<not> eligible now (trim_space goos) (trim_space goarch) mem r k rc n"
    and r': "reg_nodes r' = (\<lambda>k. if k \<in> dom (reg_nodes r) \<and> stale now r k then None else reg_nodes r k)"
    by (auto simp: pick_and_reserve_def)
  have "stale now r k \<Longrightarrow> k \<in> dom (reg_nodes r)" for k by (auto simp: stale_def)
  then have "reg_nodes r' = (\<lambda>k. if stale now r k then None else reg_nodes r k)"
    unfolding r' by (auto simp: fun_eq_iff)
  moreover have "\<not> eligible now (trim_space goos) (trim_space goarch) mem r k rc n" for k rc n
    using none by (auto simp: eligible_def)
  ultimately show ?thesis using None by simp
next
  case (Some n)
  with assms pick_loop_Some [of now "trim_space goos" "trim_space goarch" mem order r n r']
  show ?thesis unfolding pick_and_reserve_def by auto
qed

section \<open>Memory\<close>

text \<open>
  The memory test is the comparison of the sum with the total (0 means unlimited), as
  long as the sum does not reach 2^64.
\<close>

theorem enough_memory_exact:
  assumes "unat cur + unat mem < 2 ^ 64"
  shows "hasEnoughMemoryAt node cur mem \<longleftrightarrow>
    mem = 0 \<or> ns_TotalMemoryBytes node = 0 \<or> unat cur + unat mem \<le> unat (ns_TotalMemoryBytes node)"
  using unat_add_u64 [OF assms] by (auto simp: hasEnoughMemoryAt_def Let_def word_le_nat_alt)

definition sample_node :: node_status where
  "sample_node = \<lparr>ns_NodeId = ''n1'', ns_Address = ''h:1'', ns_RuntimeGoos = ''linux'',
     ns_RuntimeGoarch = ''amd64'', ns_TotalSlots = 2, ns_UsedSlots = 0,
     ns_TotalMemoryBytes = 1000, ns_ReservedMemoryBytes = 0, ns_ActiveExperiments = 0,
     ns_CachedModels = 0\<rparr>"

definition sample_registry :: node_registry where
  "sample_registry = \<lparr>reg_ttl = 100, reg_nodes = [''n1'' \<mapsto>
     \<lparr>nr_Node = Some sample_node, nr_LastSeenAt = 50, nr_ReservedSlots = 1,
      nr_ReservedMemoryBytes = 600, nr_failureCount = 0\<rparr>]\<rparr>"

theorem enough_memory_exact_witness:
  "hasEnoughMemoryAt sample_node 600 400 \<and> \<not> hasEnoughMemoryAt sample_node 600 401"
  using enough_memory_exact [of 600 400 sample_node] enough_memory_exact [of 600 401 sample_node]
  by (simp add: sample_node_def)

theorem pick_and_reserve_correct_witness:
  "\<exists>k rc. eligible 60 ''linux'' [] 400 sample_registry k rc sample_node"
proof -
  have "trim_space '' linux'' = ''linux''" by code_simp
  then have "pick_and_reserve 60 [''n1''] '' linux'' [] 400 sample_registry =
      (Some sample_node, sample_registry\<lparr>reg_nodes := [''n1'' \<mapsto>
         \<lparr>nr_Node = Some sample_node, nr_LastSeenAt = 50, nr_ReservedSlots = 2,
          nr_ReservedMemoryBytes = 1000, nr_failureCount = 0\<rparr>]\<rparr>)"
    by (simp add: pick_and_reserve_def sample_registry_def sample_node_def pick_loop_Cons
      stale_def expired_def time_sub_def max_duration_def min_duration_def fits_def
      hasEnoughMemoryAt_def reserve_on_def)
  from pick_and_reserve_correct [OF _ _ this] \<open>trim_space '' linux'' = ''linux''\<close>
  show ?thesis by (auto simp: sample_registry_def)
qed

text \<open>
  At the limit it is not: with 8 bytes free of 2^64 - 1, a request of 16 is accepted, since
  the sum wraps to 8.
\<close>

lemma enough_memory_wraps:
  "hasEnoughMemoryAt (sample_node\<lparr>ns_TotalMemoryBytes := max_u64\<rparr>) (max_u64 - 7) 16"
  by (simp add: hasEnoughMemoryAt_def sample_node_def)

section \<open>Listing\<close>

lemma list_loop_result:
  "distinct order \<Longrightarrow>
   list_loop now status order r alive evicted =
     ((alive @ (if status \<noteq> [] \<and> status \<noteq> nodeStatusOnline then [] else
          map (\<lambda>k. nr_Node (the (reg_nodes r k)))
            (filter (\<lambda>k. \<exists>rc. reg_nodes r k = Some rc \<and> \<not> expired now r rc) order)),
       evicted @ filter (\<lambda>k. \<exists>rc. reg_nodes r k = Some rc \<and> expired now r rc) order),
      r\<lparr>reg_nodes := (\<lambda>k. if k \<in> set order \<and> (\<exists>rc. reg_nodes r k = Some rc \<and> expired now r rc)
                         then None else reg_nodes r k)\<rparr>)"
proof (induction order arbitrary: r alive evicted)
  case Nil
  then show ?case by simp
next
  case (Cons k order)
  let ?dead = "\<lambda>r k. \<exists>rc. reg_nodes r k = Some rc \<and> expired now r rc"
  consider (none) "reg_nodes r k = None"
    | (dead) rc where "reg_nodes r k = Some rc" "expired now r rc"
    | (alive) rc where "reg_nodes r k = Some rc" "\<not> expired now r rc"
    by (cases "reg_nodes r k") auto
  then show ?case
  proof cases
    case none
    then have "(\<lambda>j. if j \<in> set (k # order) \<and> ?dead r j then None else reg_nodes r j) =
        (\<lambda>j. if j \<in> set order \<and> ?dead r j then None else reg_nodes r j)"
      by (auto simp: fun_eq_iff)
    with none Cons show ?thesis by simp
  next
    case dead
    let ?r = "delete_node k r"
    have 1: "filter (?dead ?r) order = filter (?dead r) order"
      "filter (\<lambda>k. \<exists>rc. reg_nodes ?r k = Some rc \<and> \<not> expired now ?r rc) order =
       filter (\<lambda>k. \<exists>rc. reg_nodes r k = Some rc \<and> \<not> expired now r rc) order"
      using Cons.prems by (auto intro!: filter_cong)
    have 2: "map (\<lambda>k. nr_Node (the (reg_nodes ?r k))) (filter P order) =
        map (\<lambda>k. nr_Node (the (reg_nodes r k))) (filter P order)" for P
      using Cons.prems by auto
    have 3: "(\<lambda>j. if j \<in> set order \<and> ?dead ?r j then None else reg_nodes ?r j) =
        (\<lambda>j. if j \<in> set (k # order) \<and> ?dead r j then None else reg_nodes r j)"
      using dead by (auto simp: fun_eq_iff)
    from dead have "list_loop now status (k # order) r alive evicted =
        list_loop now status order ?r alive (evicted @ [k])" by simp
    also have "\<dots> = ((alive @ (if status \<noteq> [] \<and> status \<noteq> nodeStatusOnline then [] else
          map (\<lambda>k. nr_Node (the (reg_nodes r k)))
            (filter (\<lambda>k. \<exists>rc. reg_nodes r k = Some rc \<and> \<not> expired now r rc) order)),
        (evicted @ [k]) @ filter (?dead r) order),
        ?r\<lparr>reg_nodes := (\<lambda>j. if j \<in> set (k # order) \<and> ?dead r j then None else reg_nodes r j)\<rparr>)"
      using Cons.IH [of ?r alive "evicted @ [k]"] Cons.prems unfolding 1 2 3 by simp
    finally show ?thesis using dead by simp
  next
    case alive
    then have "(\<lambda>j. if j \<in> set (k # order) \<and> ?dead r j then None else reg_nodes r j) =
        (\<lambda>j. if j \<in> set order \<and> ?dead r j then None else reg_nodes r j)"
      by (auto simp: fun_eq_iff)
    with alive Cons show ?thesis by simp
  qed
qed

text \<open>
  \<open>List\<close> evicts exactly the nodes whose last message is older than the TTL and answers
  the others (all of them for the status ONLINE or none, nobody otherwise), one entry per
  node; what it keeps is what \<open>ActiveNodeIDs\<close> answers at that time, and afterwards \<open>Get\<close>
  finds a node iff it is active and has a status.
\<close>

theorem node_list_correct:
  assumes "distinct order" "set order = dom (reg_nodes r)"
    and "node_list now order status r = ((alive, evicted), r')"
  shows "set evicted = dom (reg_nodes r) - active_node_ids now r \<and> distinct evicted \<and>
    dom (reg_nodes r') = active_node_ids now r \<and>
    active_node_ids now r' = active_node_ids now r \<and>
    (if to_upper (trim_space status) \<in> {[], nodeStatusOnline}
     then length alive = card (active_node_ids now r) \<and>
       set alive = {nr_Node rc | k rc. k \<in> active_node_ids now r \<and> reg_nodes r k = Some rc}
     else alive = []) \<and>
    (\<forall>k. fst (node_get now k r') \<noteq> None \<longleftrightarrow>
       k \<in> active_node_ids now r \<and> nr_Node (the (reg_nodes r k)) \<noteq> None)"
proof -
  let ?act = "filter (\<lambda>k. \<exists>rc. reg_nodes r k = Some rc \<and> \<not> expired now r rc) order"
  note res = assms(3) [unfolded node_list_def list_loop_result [OF assms(1)], simplified]
  have act: "set ?act = active_node_ids now r" using assms(2) by (auto simp: active_node_ids_def)
  have card: "length ?act = card (active_node_ids now r)"
    using assms(1) act distinct_card [of ?act] by simp
  have r': "reg_nodes r' = (\<lambda>k. if k \<in> active_node_ids now r then reg_nodes r k else None)"
    "reg_ttl r' = reg_ttl r"
    using res assms(2) by (auto simp: active_node_ids_def fun_eq_iff)
  then have exp: "expired now r' = expired now r" by (simp add: expired_def fun_eq_iff)
  have "set evicted = dom (reg_nodes r) - active_node_ids now r \<and> distinct evicted"
    using res assms(1,2) by (auto simp: active_node_ids_def)
  moreover have "dom (reg_nodes r') = active_node_ids now r"
    by (auto simp: r' active_node_ids_def split: if_splits)
  moreover have "active_node_ids now r' = active_node_ids now r"
    by (auto simp: active_node_ids_def r'(1) exp split: if_splits)
  moreover have "to_upper (trim_space status) \<in> {[], nodeStatusOnline} \<Longrightarrow>
      alive = map (\<lambda>k. nr_Node (the (reg_nodes r k))) ?act"
    using res by (auto split: if_splits)
  then have "to_upper (trim_space status) \<in> {[], nodeStatusOnline} \<Longrightarrow>
      length alive = card (active_node_ids now r) \<and>
      set alive = {nr_Node rc | k rc. k \<in> active_node_ids now r \<and> reg_nodes r k = Some rc}"
    using card act by (fastforce simp: active_node_ids_def image_iff)
  moreover have "to_upper (trim_space status) \<notin> {[], nodeStatusOnline} \<Longrightarrow> alive = []"
    using res by (auto split: if_splits)
  moreover have "fst (node_get now k r') \<noteq> None \<longleftrightarrow>
      k \<in> active_node_ids now r \<and> nr_Node (the (reg_nodes r k)) \<noteq> None" for k
    by (auto simp: node_get_def r' exp active_node_ids_def split: option.splits)
  ultimately show ?thesis by simp
qed

theorem node_list_correct_witness:
  "active_node_ids 200 sample_registry = {}"
proof -
  have "node_list 200 [''n1''] [] sample_registry =
      (([], [''n1'']), sample_registry\<lparr>reg_nodes := Map.empty\<rparr>)"
    by (simp add: node_list_def sample_registry_def expired_def time_sub_def max_duration_def
      min_duration_def delete_node_def)
  from node_list_correct [OF _ _ this] show ?thesis by (simp add: sample_registry_def)
qed

section \<open>Failures\<close>

lemma mark_node_failed_Some:
  "reg_nodes r k = Some rc \<Longrightarrow> mark_node_failed k m r =
     (if nr_failureCount rc + 1 \<ge> m then (True, delete_node k r)
      else (False, r\<lparr>reg_nodes := (reg_nodes r)(k \<mapsto> rc\<lparr>nr_failureCount := nr_failureCount rc + 1\<rparr>)\<rparr>))"
  by (simp add: mark_node_failed_def delete_node_def)

fun fail_times :: "nat \<Rightarrow> string \<Rightarrow> u32 \<Rightarrow> node_registry \<Rightarrow> node_registry" where
  "fail_times 0 k m r = r"
| "fail_times (Suc n) k m r = fail_times n k m (snd (mark_node_failed k m r))"

lemma fail_times_count:
  "reg_nodes r k = Some rc \<Longrightarrow> unat (nr_failureCount rc) + n < unat m \<Longrightarrow>
   \<exists>rc'. reg_nodes (fail_times n k m r) k = Some rc' \<and>
     unat (nr_failureCount rc') = unat (nr_failureCount rc) + n"
proof (induction n arbitrary: r rc)
  case 0
  then show ?case by simp
next
  case (Suc n)
  let ?rc = "rc\<lparr>nr_failureCount := nr_failureCount rc + 1\<rparr>"
  have b: "unat (nr_failureCount rc) + 1 < 2 ^ 32"
    using Suc.prems(2) unsigned_less [where w = m and 'a = nat] by simp
  then have inc: "unat (nr_failureCount rc + 1) = unat (nr_failureCount rc) + 1"
    by (simp add: unat_word_ariths)
  then have "\<not> nr_failureCount rc + 1 \<ge> m" using Suc.prems(2) by (simp add: word_le_nat_alt)
  with Suc.prems(1) Suc.IH [of "snd (mark_node_failed k m r)" ?rc] Suc.prems(2) inc show ?case
    by (simp add: mark_node_failed_Some)
qed

text \<open>
  After a success the count of failures starts again: the next \<open>maxFailures - 1\<close>
  failures leave the node registered, and the one after removes it (and says so).
\<close>

theorem node_removed_at_max_failures:
  assumes "reg_nodes r k \<noteq> None" "0 < m" "n < unat m"
  shows "reg_nodes (fail_times n k m (mark_node_succeeded k r)) k \<noteq> None \<and>
    (let (removed, r') = mark_node_failed k m (fail_times n k m (mark_node_succeeded k r))
     in (removed \<longleftrightarrow> n + 1 = unat m) \<and> (removed \<longleftrightarrow> reg_nodes r' k = None))"
proof -
  from assms(1) obtain rc where rc: "reg_nodes (mark_node_succeeded k r) k = Some rc"
    "nr_failureCount rc = 0"
    by (cases "nr_failureCount (the (reg_nodes r k)) = 0")
      (auto simp: mark_node_succeeded_def split: option.split)
  with fail_times_count [OF rc(1), of n m] assms(3) obtain rc' where
    rc': "reg_nodes (fail_times n k m (mark_node_succeeded k r)) k = Some rc'"
    "unat (nr_failureCount rc') = n" by auto
  have "unat (nr_failureCount rc') + 1 < 2 ^ 32"
    using rc'(2) assms(3) unsigned_less [where w = m and 'a = nat] by simp
  then have "unat (nr_failureCount rc' + 1) = n + 1" using rc'(2) by (simp add: unat_word_ariths)
  then have "nr_failureCount rc' + 1 \<ge> m \<longleftrightarrow> n + 1 = unat m"
    using assms(3) by (auto simp: word_le_nat_alt)
  then show ?thesis using rc'(1) by (simp add: mark_node_failed_Some)
qed

theorem node_removed_at_max_failures_witness:
  "fst (mark_node_failed ''n1'' 1 (mark_node_succeeded ''n1'' sample_registry))"
  using node_removed_at_max_failures [of sample_registry "''n1''" 1 0]
  by (simp add: sample_registry_def case_prod_unfold Let_def)

section \<open>Reservations\<close>

text \<open>The slots and the memory the registry holds reserved on a node.\<close>

definition slots_on :: "node_registry \<Rightarrow> string \<Rightarrow> nat" where
  "slots_on r k = (case reg_nodes r k of None \<Rightarrow> 0 | Some rc \<Rightarrow> unat (nr_ReservedSlots rc))"

definition memory_on :: "node_registry \<Rightarrow> string \<Rightarrow> nat" where
  "memory_on r k = (case reg_nodes r k of None \<Rightarrow> 0 | Some rc \<Rightarrow> unat (nr_ReservedMemoryBytes rc))"

definition reg_ok :: "node_registry \<Rightarrow> bool" where
  "reg_ok r \<longleftrightarrow> (\<forall>k rc n. reg_nodes r k = Some rc \<longrightarrow> nr_Node rc = Some n \<longrightarrow> ns_NodeId n = k)"

text \<open>
  The operations as steps. A pick is counted when no node is forgotten on the way and the
  memory booked on the chosen node stays below 2^64; the other operations when they forget
  no node (a forgotten node loses its reservations).
\<close>

definition node_acquired :: "node_registry \<Rightarrow> string \<Rightarrow> nat \<Rightarrow> node_registry \<Rightarrow> bool" where
  "node_acquired r k m r' \<longleftrightarrow>
     (\<exists>now order goos goarch mem n. distinct order \<and>
        pick_and_reserve now order goos goarch mem r = (Some n, r') \<and> ns_NodeId n = k \<and>
        m = unat mem \<and> memory_on r k + m < 2 ^ 64 \<and> dom (reg_nodes r) \<subseteq> dom (reg_nodes r'))"

definition node_released :: "node_registry \<Rightarrow> string \<Rightarrow> nat \<Rightarrow> node_registry \<Rightarrow> bool" where
  "node_released r k m r' \<longleftrightarrow> (\<exists>mem. m = unat mem \<and> r' = release_reservation k mem r)"

inductive node_event :: "node_registry \<Rightarrow> node_registry \<Rightarrow> bool" where
  register: "node_register now node r = Inr r' \<Longrightarrow> node_event r r'"
| heartbeat: "node_heartbeat now node r = Inr r' \<Longrightarrow> node_event r r'"
| listed: "distinct order \<Longrightarrow> node_event r (snd (node_list now order status r))"
| nothing_picked: "distinct order \<Longrightarrow> pick_and_reserve now order goos goarch mem r = (None, r') \<Longrightarrow>
    node_event r r'"
| failed: "node_event r (snd (mark_node_failed k m r))"
| succeeded: "node_event r (mark_node_succeeded k r)"
| got: "node_event r (snd (node_get now k r))"
| removed: "node_event r (node_remove k r)"

definition node_quiet :: "node_registry \<Rightarrow> node_registry \<Rightarrow> bool" where
  "node_quiet r r' \<longleftrightarrow> node_event r r' \<and> dom (reg_nodes r) \<subseteq> dom (reg_nodes r')"

text \<open>An event changes a record without touching its reservations, adds an empty one, or
  deletes one.\<close>

lemma node_event_cases:
  "node_event r r' \<Longrightarrow> reg_ok r \<Longrightarrow>
   (\<forall>k. reg_nodes r' k = None \<or> slots_on r' k = slots_on r k \<and> memory_on r' k = memory_on r k) \<and>
   reg_ok r'"
proof (induction rule: node_event.induct)
  case (register now node r r')
  then show ?case
    by (auto simp: node_register_def slots_on_def memory_on_def reg_ok_def
      split: option.splits if_splits)
next
  case (heartbeat now node r r')
  then show ?case
    by (auto simp: node_heartbeat_def slots_on_def memory_on_def reg_ok_def Let_def
      split: option.splits if_splits)
next
  case (listed order r now status)
  then show ?case
    by (auto simp: node_list_def list_loop_result slots_on_def memory_on_def reg_ok_def
      split: option.splits if_splits)
next
  case (nothing_picked order now goos goarch mem r r')
  then show ?case
    using pick_loop_None [OF nothing_picked.hyps(2) [unfolded pick_and_reserve_def]]
    by (auto simp: slots_on_def memory_on_def reg_ok_def split: option.splits if_splits)
next
  case (failed r k m)
  then show ?case
    by (auto simp: mark_node_failed_def slots_on_def memory_on_def reg_ok_def Let_def
      split: option.splits if_splits)
next
  case (succeeded r k)
  then show ?case
    by (auto simp: mark_node_succeeded_def slots_on_def memory_on_def reg_ok_def
      split: option.splits if_splits)
next
  case (got r now k)
  then show ?case
    by (auto simp: node_get_def slots_on_def memory_on_def reg_ok_def split: option.splits)
next
  case (removed r k)
  then show ?case
    by (auto simp: node_remove_def slots_on_def memory_on_def reg_ok_def split: option.splits)
qed

lemma reserve_on_books:
  assumes "fits goos goarch mem rc n" "unat (nr_ReservedMemoryBytes rc) + unat mem < 2 ^ 64"
  shows "unat (nr_ReservedSlots (reserve_on mem rc)) = unat (nr_ReservedSlots rc) + 1"
    "unat (nr_ReservedMemoryBytes (reserve_on mem rc)) = unat (nr_ReservedMemoryBytes rc) + unat mem"
    "nr_Node (reserve_on mem rc) = nr_Node rc"
proof -
  have "nr_ReservedSlots rc < ns_TotalSlots n" using assms(1) by (simp add: fits_def)
  from unat_inc_u64 [OF this]
  show "unat (nr_ReservedSlots (reserve_on mem rc)) = unat (nr_ReservedSlots rc) + 1"
    by (simp add: reserve_on_def Let_def)
  show "unat (nr_ReservedMemoryBytes (reserve_on mem rc)) = unat (nr_ReservedMemoryBytes rc) + unat mem"
    using unat_add_u64 [OF assms(2)] by (simp add: reserve_on_def Let_def word_gt_0)
  show "nr_Node (reserve_on mem rc) = nr_Node rc" by (simp add: reserve_on_def Let_def)
qed

lemma release_books:
  assumes "0 < slots_on r k" "unat mem \<le> memory_on r k"
  shows "slots_on (release_reservation k mem r) = (slots_on r)(k := slots_on r k - 1) \<and>
    memory_on (release_reservation k mem r) = (memory_on r)(k := memory_on r k - unat mem)"
proof -
  obtain rc where rc: "reg_nodes r k = Some rc"
    using assms(1) by (auto simp: slots_on_def split: option.splits)
  have "nr_ReservedSlots rc > 0" "mem \<le> nr_ReservedMemoryBytes rc"
    using assms rc by (auto simp: slots_on_def memory_on_def word_le_nat_alt word_gt_0 unat_gt_0)
  then show ?thesis
    using rc unat_dec_u64 [of "nr_ReservedSlots rc"] unat_sub [of mem "nr_ReservedMemoryBytes rc"]
    by (auto simp: release_reservation_def slots_on_def memory_on_def fun_eq_iff Let_def word_gt_0)
qed

lemma node_acquired_books:
  assumes "reg_ok r" "node_acquired r k m r'"
  shows "slots_on r' = (slots_on r)(k := slots_on r k + 1) \<and>
    memory_on r' = (memory_on r)(k := memory_on r k + m) \<and> reg_ok r'"
proof -
  from assms(2) obtain now order goos goarch mem n where pick: "distinct order"
    "pick_loop now goos goarch mem order r = (Some n, r')" and k: "ns_NodeId n = k"
    and m: "m = unat mem" "memory_on r k + m < 2 ^ 64" and dom: "dom (reg_nodes r) \<subseteq> dom (reg_nodes r')"
    by (auto simp: node_acquired_def pick_and_reserve_def)
  from pick_loop_Some [OF pick(2,1)] obtain j rc where j: "eligible now goos goarch mem r j rc n"
    "reg_nodes r' j = Some (reserve_on mem rc)"
    "\<forall>i. i \<noteq> j \<longrightarrow> reg_nodes r' i = reg_nodes r i \<or> stale now r i \<and> reg_nodes r' i = None"
    by auto
  then have rc: "reg_nodes r j = Some rc" "nr_Node rc = Some n" "fits goos goarch mem rc n"
    by (auto simp: eligible_def)
  with assms(1) k have jk: "j = k" by (simp add: reg_ok_def)
  have nodes: "reg_nodes r' = (reg_nodes r)(k \<mapsto> reserve_on mem rc)"
  proof
    fix i
    show "reg_nodes r' i = ((reg_nodes r)(k \<mapsto> reserve_on mem rc)) i"
      using j(2) j(3) [rule_format, of i] dom jk by (cases "i = k"; cases "reg_nodes r i") (auto simp: domIff subset_iff)
  qed
  have "unat (nr_ReservedMemoryBytes rc) + unat mem < 2 ^ 64"
    using m rc(1) jk by (simp add: memory_on_def)
  note books = reserve_on_books [OF rc(3) this]
  show ?thesis
    using nodes rc jk books m assms(1)
    by (auto simp: slots_on_def memory_on_def reg_ok_def fun_eq_iff)
qed

lemma release_reg_ok: "reg_ok r \<Longrightarrow> reg_ok (release_reservation k mem r)"
  by (auto simp: release_reservation_def reg_ok_def Let_def split: option.splits if_splits)

lemma node_quiet_books:
  assumes "reg_ok r" "node_quiet r r'"
  shows "slots_on r' = slots_on r \<and> memory_on r' = memory_on r \<and> reg_ok r'"
proof -
  have ev: "\<forall>k. reg_nodes r' k = None \<or> slots_on r' k = slots_on r k \<and> memory_on r' k = memory_on r k"
    and ok: "reg_ok r'" and dom: "dom (reg_nodes r) \<subseteq> dom (reg_nodes r')"
    using node_event_cases assms by (auto simp: node_quiet_def)
  have "slots_on r' k = slots_on r k \<and> memory_on r' k = memory_on r k" for k
  proof (cases "reg_nodes r' k")
    case None
    then have "reg_nodes r k = None" using dom by auto
    with None show ?thesis by (simp add: slots_on_def memory_on_def)
  next
    case (Some rc)
    then show ?thesis using ev [rule_format, of k] by simp
  qed
  with ok show ?thesis by (simp add: fun_eq_iff)
qed

interpretation node_ledger: ledger
  node_acquired node_released node_quiet slots_on memory_on reg_ok
proof (unfold_locales, goal_cases)
  case (1 s k m s')
  then show ?case by (rule node_acquired_books)
next
  case (2 s k m s')
  then obtain mem where "m = unat mem" "s' = release_reservation k mem s"
    by (auto simp: node_released_def)
  with 2 show ?case using release_books [of s k mem] release_reg_ok [of s k mem] by simp
next
  case (3 s s')
  then show ?case by (rule node_quiet_books)
qed

text \<open>
  C24. The registry keeps the scheduler's books: after any interleaving of registrations,
  heartbeats, picks, releases, failures, successes and lookups from an empty registry, as
  long as no node is forgotten, the slots reserved on each node are exactly the outstanding
  placements there, and its reserved bytes are exactly the sum of their memory limits.
\<close>

theorem reservations_balance:
  assumes "ledger_run node_acquired node_released node_quiet (new_node_registry ttl) r ts"
  shows "slots_on r k = length (tickets_of k ts) \<and> memory_on r k = sum_list (tickets_of k ts)"
  using node_ledger.balanced [OF assms]
  by (simp add: reg_ok_def new_node_registry_def slots_on_def memory_on_def fun_eq_iff)

lemma sample_run:
  "ledger_run node_acquired node_released node_quiet (new_node_registry 100)
     \<lparr>reg_ttl = 100, reg_nodes = [''n1'' \<mapsto>
        \<lparr>nr_Node = Some sample_node, nr_LastSeenAt = 50, nr_ReservedSlots = 1,
         nr_ReservedMemoryBytes = 600, nr_failureCount = 0\<rparr>]\<rparr> [(''n1'', 600)]"
proof -
  let ?run = "ledger_run node_acquired node_released node_quiet (new_node_registry 100)"
  let ?r = "\<lparr>reg_ttl = 100, reg_nodes = [''n1'' \<mapsto>
        \<lparr>nr_Node = Some sample_node, nr_LastSeenAt = 50, nr_ReservedSlots = 0,
         nr_ReservedMemoryBytes = 0, nr_failureCount = 0\<rparr>]\<rparr>"
  have "node_register 50 (Some sample_node) (new_node_registry 100) = Inr ?r"
    by (simp add: node_register_def sample_node_def new_node_registry_def)
  then have "node_quiet (new_node_registry 100) ?r"
    by (auto simp: node_quiet_def new_node_registry_def intro: node_event.register)
  with ledger_run.start have "?run ?r []" by (rule ledger_run.other)
  moreover have "pick_and_reserve 60 [''n1''] [] [] 600 ?r = (Some sample_node,
      \<lparr>reg_ttl = 100, reg_nodes = [''n1'' \<mapsto>
        \<lparr>nr_Node = Some sample_node, nr_LastSeenAt = 50, nr_ReservedSlots = 1,
         nr_ReservedMemoryBytes = 600, nr_failureCount = 0\<rparr>]\<rparr>)"
    by (simp add: pick_and_reserve_def sample_node_def pick_loop_Cons
      stale_def expired_def time_sub_def max_duration_def min_duration_def fits_def
      hasEnoughMemoryAt_def reserve_on_def)
  then have "node_acquired ?r ''n1'' 600 \<lparr>reg_ttl = 100, reg_nodes = [''n1'' \<mapsto>
        \<lparr>nr_Node = Some sample_node, nr_LastSeenAt = 50, nr_ReservedSlots = 1,
         nr_ReservedMemoryBytes = 600, nr_failureCount = 0\<rparr>]\<rparr>"
    unfolding node_acquired_def
    by (intro exI [of _ "60"] exI [of _ "[''n1'']"] exI [of _ "[]"] exI [of _ "600"]
        exI [of _ sample_node]) (simp add: memory_on_def sample_node_def)
  ultimately show ?thesis by (rule ledger_run.take_one)
qed

theorem reservations_balance_witness:
  "slots_on \<lparr>reg_ttl = 100, reg_nodes = [''n1'' \<mapsto>
        \<lparr>nr_Node = Some sample_node, nr_LastSeenAt = 50, nr_ReservedSlots = 1,
         nr_ReservedMemoryBytes = 600, nr_failureCount = 0\<rparr>]\<rparr> ''n1'' = length [600 :: nat]"
  using reservations_balance [OF sample_run, of "''n1''"] by simp

end
