(* ===== verification/Dispatcher_Registry.thy ===== *)
theory Dispatcher_Registry
  imports Api_Types Reservation_Ledger "HOL-Library.Multiset"
begin

text \<open>
  The dispatcher's registry of runs (dispatcher/registry.go, dispatcher/types.go): the slots
  and memory of the node, and the record of each experiment it was asked to run. Every
  method holds the mutex and is one function on the state. A \<open>context.CancelFunc\<close> is a value
  of the type variable \<open>'c\<close>; the operations that call cancel functions return the ones they
  call. The order of a \<open>range\<close> over the map is an argument.
\<close>

section \<open>The program\<close>

record experiment_key =
  k_ModelHash :: string
  k_ExperimentID :: string

record experiment_result =
  rs_ExperimentID :: string
  rs_ModelHash :: string
  rs_Status :: string
  rs_FinishReason :: string
  rs_ExitCode :: int
  rs_ErrorMessage :: string
  rs_FinalMetrics :: "string \<rightharpoonup> string"
  rs_StatCount :: u64
  rs_MetricsFileRows :: u64
  rs_MetricsArtifact :: "artifact_ref option"
  rs_StartedAtUnixMS :: int
  rs_FinishedAtUnixMS :: int
  rs_DurationMS :: int
  rs_MemoryLimitBytes :: u64
  rs_PeakMemoryBytes :: u64
  rs_StderrTail :: string

record 'c experiment_record =
  er_Key :: experiment_key
  er_Result :: experiment_result
  er_Cancel :: "'c option"
  er_MemoryReserved :: u64
  er_CancelRequested :: bool
  er_CancelReason :: string

record 'c registry =
  totalSlots :: u64
  usedSlots :: u64
  totalMemoryBytes :: u64
  reservedMemoryBytes :: u64
  experiments :: "experiment_key \<rightharpoonup> 'c experiment_record"

definition empty_result :: experiment_result where
  "empty_result =
     \<lparr>rs_ExperimentID = [], rs_ModelHash = [], rs_Status = [], rs_FinishReason = [],
      rs_ExitCode = 0, rs_ErrorMessage = [], rs_FinalMetrics = Map.empty, rs_StatCount = 0,
      rs_MetricsFileRows = 0, rs_MetricsArtifact = None, rs_StartedAtUnixMS = 0,
      rs_FinishedAtUnixMS = 0, rs_DurationMS = 0, rs_MemoryLimitBytes = 0,
      rs_PeakMemoryBytes = 0, rs_StderrTail = []\<rparr>"

definition experimentKey :: "string \<Rightarrow> string \<Rightarrow> experiment_key" where
  "experimentKey modelHash experimentID =
     \<lparr>k_ModelHash = modelHash, k_ExperimentID = experimentID\<rparr>"

definition isActiveStatus :: "string \<Rightarrow> bool" where
  "isActiveStatus status =
     (if status = statusPending \<or> status = statusStarting \<or> status = statusRunning
      then True else False)"

definition new_registry :: "u64 \<Rightarrow> u64 \<Rightarrow> 'c registry" where
  "new_registry slots memory =
     \<lparr>totalSlots = slots, usedSlots = 0, totalMemoryBytes = memory, reservedMemoryBytes = 0,
      experiments = Map.empty\<rparr>"

definition try_start ::
  "string \<Rightarrow> string \<Rightarrow> u64 \<Rightarrow> 'c registry \<Rightarrow>
   (('c experiment_record option \<times> string \<times> string) \<times> 'c registry)" where
  "try_start modelHash experimentID memoryLimitBytes r =
     (let key = experimentKey modelHash experimentID in
      if (case experiments r key of Some existing \<Rightarrow> isActiveStatus (rs_Status (er_Result existing))
          | None \<Rightarrow> False) then
        ((None, ''experiment_already_running'',
          msg [''experiment '', modelHash, ''/'', experimentID, '' is already running'']), r)
      else if totalSlots r > 0 \<and> usedSlots r \<ge> totalSlots r then
        ((None, ''no_free_slots'', ''no free execution slots''), r)
      else if totalMemoryBytes r > 0 \<and> memoryLimitBytes > 0 \<and>
              reservedMemoryBytes r + memoryLimitBytes > totalMemoryBytes r then
        ((None, ''not_enough_memory'', ''not enough free memory''), r)
      else
        (let record =
           \<lparr>er_Key = key,
            er_Result = empty_result
              \<lparr>rs_ModelHash := modelHash, rs_ExperimentID := experimentID,
               rs_Status := statusStarting, rs_ExitCode := -1, rs_FinalMetrics := Map.empty,
               rs_MemoryLimitBytes := memoryLimitBytes, rs_PeakMemoryBytes := 0\<rparr>,
            er_Cancel = None, er_MemoryReserved = memoryLimitBytes,
            er_CancelRequested = False, er_CancelReason = []\<rparr>
         in ((Some record, [], []),
             r\<lparr>experiments := (experiments r)(key \<mapsto> record),
               usedSlots := usedSlots r + 1,
               reservedMemoryBytes := reservedMemoryBytes r + memoryLimitBytes\<rparr>)))"

definition set_cancel :: "string \<Rightarrow> string \<Rightarrow> 'c \<Rightarrow> 'c registry \<Rightarrow> 'c registry" where
  "set_cancel modelHash experimentID cancel r =
     (let key = experimentKey modelHash experimentID in
      case experiments r key of
        None \<Rightarrow> r
      | Some record \<Rightarrow>
          r\<lparr>experiments := (experiments r)(key \<mapsto> record\<lparr>er_Cancel := Some cancel\<rparr>)\<rparr>)"

definition set_status :: "string \<Rightarrow> string \<Rightarrow> string \<Rightarrow> 'c registry \<Rightarrow> 'c registry" where
  "set_status modelHash experimentID status r =
     (let key = experimentKey modelHash experimentID in
      case experiments r key of
        None \<Rightarrow> r
      | Some record \<Rightarrow>
          r\<lparr>experiments := (experiments r)(key \<mapsto>
              record\<lparr>er_Result := (er_Result record)\<lparr>rs_Status := status\<rparr>\<rparr>)\<rparr>)"

definition cancel_experiment ::
  "string \<Rightarrow> string \<Rightarrow> 'c registry \<Rightarrow> (bool \<times> string) \<times> 'c list \<times> 'c registry" where
  "cancel_experiment modelHash experimentID r =
     (let key = experimentKey modelHash experimentID in
      case experiments r key of
        None \<Rightarrow> ((False, ''experiment not found''), [], r)
      | Some record \<Rightarrow>
          if \<not> isActiveStatus (rs_Status (er_Result record)) then
            ((False, ''experiment is not active''), [], r)
          else
            (let record = record\<lparr>er_CancelRequested := True\<rparr>;
                 record = (if er_CancelReason record = []
                           then record\<lparr>er_CancelReason := ''user_canceled''\<rparr> else record);
                 record = record\<lparr>er_Result := (er_Result record)
                            \<lparr>rs_Status := statusCanceled,
                             rs_FinishReason := er_CancelReason record\<rparr>\<rparr>;
                 called = (case er_Cancel record of None \<Rightarrow> [] | Some c \<Rightarrow> [c])
             in ((True, ''experiment cancellation requested''), called,
                 r\<lparr>experiments := (experiments r)(key \<mapsto> record)\<rparr>)))"

definition finish_experiment ::
  "string \<Rightarrow> string \<Rightarrow> experiment_result \<Rightarrow> 'c registry \<Rightarrow> experiment_result \<times> 'c registry" where
  "finish_experiment modelHash experimentID result r =
     (let key = experimentKey modelHash experimentID in
      case experiments r key of
        None \<Rightarrow>
          (result,
           r\<lparr>experiments := (experiments r)(key \<mapsto>
               \<lparr>er_Key = key, er_Result = result, er_Cancel = None, er_MemoryReserved = 0,
                er_CancelRequested = False, er_CancelReason = []\<rparr>)\<rparr>)
      | Some record \<Rightarrow>
          (let result =
             (if er_CancelRequested record \<and> rs_Status result \<noteq> statusFinished then
                (let result = result\<lparr>rs_Status := statusCanceled\<rparr> in
                 if er_CancelReason record \<noteq> [] then
                   result\<lparr>rs_FinishReason := er_CancelReason record\<rparr>
                 else if rs_FinishReason result = [] then
                   result\<lparr>rs_FinishReason := ''user_canceled''\<rparr>
                 else result)
              else result);
             mem = er_MemoryReserved record;
             r = (if mem > 0 then
                    (if reservedMemoryBytes r \<ge> mem
                     then r\<lparr>reservedMemoryBytes := reservedMemoryBytes r - mem\<rparr>
                     else r\<lparr>reservedMemoryBytes := 0\<rparr>)
                  else r);
             record = record\<lparr>er_Result := result, er_MemoryReserved := 0\<rparr>;
             r = r\<lparr>experiments := (experiments r)(key \<mapsto> record)\<rparr>;
             r = (if usedSlots r > 0 then r\<lparr>usedSlots := usedSlots r - 1\<rparr> else r)
           in (result, r)))"

definition get_experiment ::
  "string \<Rightarrow> string \<Rightarrow> 'c registry \<Rightarrow> experiment_result \<times> bool" where
  "get_experiment modelHash experimentID r =
     (case experiments r (experimentKey modelHash experimentID) of
        None \<Rightarrow> (empty_result, False)
      | Some record \<Rightarrow> (er_Result record, True))"

fun list_experiments ::
  "experiment_key list \<Rightarrow> string \<Rightarrow> 'c registry \<Rightarrow> experiment_result list" where
  "list_experiments [] status r = []"
| "list_experiments (key # order) status r =
     (case experiments r key of
        None \<Rightarrow> list_experiments order status r
      | Some record \<Rightarrow>
          if status \<noteq> [] \<and> rs_Status (er_Result record) \<noteq> status
          then list_experiments order status r
          else er_Result record # list_experiments order status r)"

record registry_snapshot =
  snap_TotalSlots :: u64
  snap_UsedSlots :: u64
  snap_TotalMemoryBytes :: u64
  snap_ReservedMemoryBytes :: u64
  snap_ActiveExperiments :: u64

fun count_active :: "experiment_key list \<Rightarrow> 'c registry \<Rightarrow> u64 \<Rightarrow> u64" where
  "count_active [] r active = active"
| "count_active (key # order) r active =
     (case experiments r key of
        None \<Rightarrow> count_active order r active
      | Some record \<Rightarrow>
          if isActiveStatus (rs_Status (er_Result record)) then count_active order r (active + 1)
          else count_active order r active)"

definition snapshot :: "experiment_key list \<Rightarrow> 'c registry \<Rightarrow> registry_snapshot" where
  "snapshot order r =
     \<lparr>snap_TotalSlots = totalSlots r, snap_UsedSlots = usedSlots r,
      snap_TotalMemoryBytes = totalMemoryBytes r,
      snap_ReservedMemoryBytes = reservedMemoryBytes r,
      snap_ActiveExperiments = count_active order r 0\<rparr>"

fun cancel_all ::
  "experiment_key list \<Rightarrow> string \<Rightarrow> 'c registry \<Rightarrow> nat \<times> 'c list \<times> 'c registry" where
  "cancel_all [] reason r = (0, [], r)"
| "cancel_all (key # order) reason r =
     (case experiments r key of
        None \<Rightarrow> cancel_all order reason r
      | Some record \<Rightarrow>
          if \<not> isActiveStatus (rs_Status (er_Result record)) then cancel_all order reason r
          else
            (let record = record\<lparr>er_CancelRequested := True\<rparr>;
                 record = (if er_CancelReason record = [] then record\<lparr>er_CancelReason := reason\<rparr>
                           else record);
                 result = (er_Result record)\<lparr>rs_Status := statusCanceled\<rparr>;
                 result = (if rs_FinishReason result = []
                           then result\<lparr>rs_FinishReason := er_CancelReason record\<rparr> else result);
                 record = record\<lparr>er_Result := result\<rparr>;
                 called = (case er_Cancel record of None \<Rightarrow> [] | Some c \<Rightarrow> [c])
             in case cancel_all order reason (r\<lparr>experiments := (experiments r)(key \<mapsto> record)\<rparr>) of
                  (cnt, others, r') \<Rightarrow> (cnt + 1, called @ others, r')))"

section \<open>What the operations keep\<close>

lemma set_cancel_keeps [keeps]:
  "usedSlots (set_cancel h e c r) = usedSlots r"
  "reservedMemoryBytes (set_cancel h e c r) = reservedMemoryBytes r"
  "totalSlots (set_cancel h e c r) = totalSlots r"
  "totalMemoryBytes (set_cancel h e c r) = totalMemoryBytes r"
  "map_option er_MemoryReserved (experiments (set_cancel h e c r) k) =
   map_option er_MemoryReserved (experiments r k)"
  by (auto simp: set_cancel_def Let_def split: option.split)

lemma set_status_keeps [keeps]:
  "usedSlots (set_status h e st r) = usedSlots r"
  "reservedMemoryBytes (set_status h e st r) = reservedMemoryBytes r"
  "totalSlots (set_status h e st r) = totalSlots r"
  "totalMemoryBytes (set_status h e st r) = totalMemoryBytes r"
  "map_option er_MemoryReserved (experiments (set_status h e st r) k) =
   map_option er_MemoryReserved (experiments r k)"
  by (auto simp: set_status_def Let_def split: option.split)

lemma cancel_keeps [keeps]:
  "usedSlots (snd (snd (cancel_experiment h e r))) = usedSlots r"
  "reservedMemoryBytes (snd (snd (cancel_experiment h e r))) = reservedMemoryBytes r"
  "totalSlots (snd (snd (cancel_experiment h e r))) = totalSlots r"
  "totalMemoryBytes (snd (snd (cancel_experiment h e r))) = totalMemoryBytes r"
  "map_option er_MemoryReserved (experiments (snd (snd (cancel_experiment h e r))) k) =
   map_option er_MemoryReserved (experiments r k)"
  by (auto simp: cancel_experiment_def Let_def split: option.split)

lemma cancel_all_keeps [keeps]:
  "usedSlots (snd (snd (cancel_all order reason r))) = usedSlots r \<and>
   reservedMemoryBytes (snd (snd (cancel_all order reason r))) = reservedMemoryBytes r \<and>
   totalSlots (snd (snd (cancel_all order reason r))) = totalSlots r \<and>
   totalMemoryBytes (snd (snd (cancel_all order reason r))) = totalMemoryBytes r \<and>
   map_option er_MemoryReserved (experiments (snd (snd (cancel_all order reason r))) k) =
   map_option er_MemoryReserved (experiments r k)"
proof (induction order reason r rule: cancel_all.induct)
  case (2 key order reason r)
  then show ?case
    by (auto simp: Let_def case_prod_unfold split: option.split)
qed simp

section \<open>Runs\<close>

text \<open>
  A life of the registry as the dispatcher's server and workers drive it. \<open>active\<close> lists the
  runs that were accepted and not finished yet. A key is not started again while its run is
  active, and the sums stay below 2^64.
\<close>

inductive disp_quiet :: "'c registry \<Rightarrow> 'c registry \<Rightarrow> bool" where
  set_cancel: "disp_quiet r (set_cancel h e c r)"
| set_status: "disp_quiet r (set_status h e st r)"
| cancel: "disp_quiet r (snd (snd (cancel_experiment h e r)))"
| cancel_all: "disp_quiet r (snd (snd (cancel_all order reason r)))"
| refused: "try_start h e m r = ((None, code, why), r') \<Longrightarrow> disp_quiet r r'"

inductive disp_run ::
  "u64 \<Rightarrow> u64 \<Rightarrow> 'c registry \<Rightarrow> (experiment_key \<times> u64) list \<Rightarrow> bool"
  for T M where
  new: "disp_run T M (new_registry T M) []"
| start: "disp_run T M r active \<Longrightarrow> try_start h e m r = ((Some rec, code, why), r') \<Longrightarrow>
    experimentKey h e \<notin> fst ` set active \<Longrightarrow> unat (usedSlots r) + 1 < 2 ^ 64 \<Longrightarrow>
    unat (reservedMemoryBytes r) + unat m < 2 ^ 64 \<Longrightarrow>
    disp_run T M r' ((experimentKey h e, m) # active)"
| finish: "disp_run T M r active \<Longrightarrow> (experimentKey h e, m) \<in> set active \<Longrightarrow>
    disp_run T M (snd (finish_experiment h e res r)) (remove1 (experimentKey h e, m) active)"
| quiet: "disp_run T M r active \<Longrightarrow> disp_quiet r r' \<Longrightarrow> disp_run T M r' active"

lemma try_start_Some:
  assumes "try_start h e m r = ((Some rec, code, why), r')"
  shows "code = [] \<and> usedSlots r' = usedSlots r + 1 \<and>
    reservedMemoryBytes r' = reservedMemoryBytes r + m \<and>
    totalSlots r' = totalSlots r \<and> totalMemoryBytes r' = totalMemoryBytes r \<and>
    (totalSlots r > 0 \<longrightarrow> usedSlots r < totalSlots r) \<and>
    (totalMemoryBytes r > 0 \<longrightarrow> m > 0 \<longrightarrow> reservedMemoryBytes r + m \<le> totalMemoryBytes r) \<and>
    experiments r' = (experiments r)(experimentKey h e \<mapsto> rec) \<and> er_MemoryReserved rec = m \<and>
    er_Key rec = experimentKey h e \<and> rs_Status (er_Result rec) = statusStarting \<and>
    \<not> er_CancelRequested rec"
  using assms by (auto simp: try_start_def Let_def not_le not_less split: if_splits)

lemma try_start_None:
  "try_start h e m r = ((None, code, why), r') \<Longrightarrow> r' = r \<and> code \<noteq> []"
  by (auto simp: try_start_def Let_def split: if_splits)

lemma disp_quiet_books:
  "disp_quiet r r' \<Longrightarrow> usedSlots r' = usedSlots r \<and> reservedMemoryBytes r' = reservedMemoryBytes r \<and>
   totalSlots r' = totalSlots r \<and> totalMemoryBytes r' = totalMemoryBytes r \<and>
   (\<forall>k. map_option er_MemoryReserved (experiments r' k) = map_option er_MemoryReserved (experiments r k))"
  by (induction rule: disp_quiet.induct) (auto simp: keeps dest: try_start_None)

text \<open>The registry as a ledger with one owner, the node.\<close>

definition disp_acquired :: "'c registry \<Rightarrow> unit \<Rightarrow> nat \<Rightarrow> 'c registry \<Rightarrow> bool" where
  "disp_acquired r k m r' \<longleftrightarrow>
     (\<exists>h e mem rec code why. try_start h e mem r = ((Some rec, code, why), r') \<and> m = unat mem \<and>
        unat (usedSlots r) + 1 < 2 ^ 64 \<and> unat (reservedMemoryBytes r) + m < 2 ^ 64)"

definition disp_released :: "'c registry \<Rightarrow> unit \<Rightarrow> nat \<Rightarrow> 'c registry \<Rightarrow> bool" where
  "disp_released r k m r' \<longleftrightarrow>
     (\<exists>h e res rec. r' = snd (finish_experiment h e res r) \<and>
        experiments r (experimentKey h e) = Some rec \<and> m = unat (er_MemoryReserved rec))"

lemma finish_books:
  assumes "experiments r (experimentKey h e) = Some rec" "usedSlots r > 0"
    "er_MemoryReserved rec \<le> reservedMemoryBytes r"
  shows "usedSlots (snd (finish_experiment h e res r)) = usedSlots r - 1 \<and>
    reservedMemoryBytes (snd (finish_experiment h e res r)) =
      reservedMemoryBytes r - er_MemoryReserved rec"
  using assms by (auto simp: finish_experiment_def Let_def word_gt_0)

lemma finish_keeps [keeps]:
  "totalSlots (snd (finish_experiment h e res r)) = totalSlots r"
  "totalMemoryBytes (snd (finish_experiment h e res r)) = totalMemoryBytes r"
  "k \<noteq> experimentKey h e \<Longrightarrow> experiments (snd (finish_experiment h e res r)) k = experiments r k"
  by (auto simp: finish_experiment_def Let_def split: option.split)

interpretation disp_ledger: ledger
  disp_acquired disp_released disp_quiet
  "\<lambda>r _. unat (usedSlots r)" "\<lambda>r _. unat (reservedMemoryBytes r)" "\<lambda>_. True"
proof (unfold_locales, goal_cases)
  case (1 s k m s')
  then obtain h e mem rec code why where
    "try_start h e mem s = ((Some rec, code, why), s')" and m: "m = unat mem"
    and b: "unat (usedSlots s) + 1 < 2 ^ 64" "unat (reservedMemoryBytes s) + unat mem < 2 ^ 64"
    by (auto simp: disp_acquired_def)
  from try_start_Some [OF this(1)] unat_add_u64 [OF b(2)] unat_add_u64 [of "usedSlots s" 1] b(1)
  show ?case by (auto simp: m fun_eq_iff)
next
  case (2 s k m s')
  then obtain h e res rec where s': "s' = snd (finish_experiment h e res s)"
    and rec: "experiments s (experimentKey h e) = Some rec" "m = unat (er_MemoryReserved rec)"
    by (auto simp: disp_released_def)
  have pos: "usedSlots s > 0" using 2(3) by (simp add: word_gt_0 unat_gt_0)
  have le: "er_MemoryReserved rec \<le> reservedMemoryBytes s"
    using 2(4) rec(2) by (simp add: word_le_nat_alt)
  show ?case
    using finish_books [OF rec(1) pos le, of res] unat_dec_u64 [OF pos] unat_sub [OF le]
    by (simp add: s' rec(2) fun_eq_iff)
next
  case (3 s s')
  then show ?case using disp_quiet_books by (metis (no_types, lifting))
qed

definition run_tickets :: "(experiment_key \<times> u64) list \<Rightarrow> (unit \<times> nat) list" where
  "run_tickets active = map (\<lambda>(k, m). ((), unat m)) active"

definition active_ok :: "'c registry \<Rightarrow> (experiment_key \<times> u64) list \<Rightarrow> bool" where
  "active_ok r active \<longleftrightarrow> distinct (map fst active) \<and>
     (\<forall>(k, m) \<in> set active. map_option er_MemoryReserved (experiments r k) = Some m)"

lemma run_tickets_remove1:
  "(k, m) \<in> set active \<Longrightarrow>
   mset (run_tickets (remove1 (k, m) active)) = mset (remove1 ((), unat m) (run_tickets active))"
  by (simp add: run_tickets_def image_mset_Diff)

lemma finish_ticket:
  assumes run: "ledger_run disp_acquired disp_released disp_quiet r0 r ts"
    and ts: "mset ts = mset (run_tickets active)" and ok: "active_ok r active"
    and mem: "(experimentKey h e, m) \<in> set active"
  shows "\<exists>ts'. ledger_run disp_acquired disp_released disp_quiet r0
      (snd (finish_experiment h e res r)) ts' \<and>
    mset ts' = mset (run_tickets (remove1 (experimentKey h e, m) active))"
proof -
  have "((), unat m) \<in> set (run_tickets active)" using mem by (force simp: run_tickets_def)
  then have t: "((), unat m) \<in> set ts" using ts mset_eq_setD by metis
  obtain rec where "experiments r (experimentKey h e) = Some rec" "er_MemoryReserved rec = m"
    using ok mem by (auto simp: active_ok_def)
  then have "disp_released r () (unat m) (snd (finish_experiment h e res r))"
    by (auto simp: disp_released_def)
  from ledger_run.give_back [OF run t this] show ?thesis
    using ts by (intro exI [of _ "remove1 ((), unat m) ts"])
      (simp add: run_tickets_remove1 [OF mem])
qed

lemma disp_run_ledger:
  "disp_run T M r active \<Longrightarrow>
   (\<exists>ts. ledger_run disp_acquired disp_released disp_quiet (new_registry T M) r ts \<and>
      mset ts = mset (run_tickets active)) \<and> active_ok r active"
proof (induction rule: disp_run.induct)
  case new
  then show ?case
    by (auto simp: run_tickets_def active_ok_def intro!: exI [of _ "[]"] ledger_run.start)
next
  case (start r active h e m rec code why r')
  then obtain ts where ts: "ledger_run disp_acquired disp_released disp_quiet (new_registry T M) r ts"
    "mset ts = mset (run_tickets active)" and ok: "active_ok r active" by blast
  have "disp_acquired r () (unat m) r'" using start.hyps unfolding disp_acquired_def by blast
  from ledger_run.take_one [OF ts(1) this] ts(2)
  have "\<exists>ts. ledger_run disp_acquired disp_released disp_quiet (new_registry T M) r' ts \<and>
      mset ts = mset (run_tickets ((experimentKey h e, m) # active))"
    by (intro exI [of _ "((), unat m) # ts"]) (simp add: run_tickets_def)
  moreover have "active_ok r' ((experimentKey h e, m) # active)"
    using ok start.hyps(3) try_start_Some [OF start.hyps(2)]
    by (force simp: active_ok_def)
  ultimately show ?case by blast
next
  case (finish r active h e m res)
  then obtain ts where ts: "ledger_run disp_acquired disp_released disp_quiet (new_registry T M) r ts"
    "mset ts = mset (run_tickets active)" and ok: "active_ok r active" by blast
  have dist: "distinct (map fst active)" using ok by (simp add: active_ok_def)
  let ?rest = "remove1 (experimentKey h e, m) active"
  have rest: "set ?rest = set active - {(experimentKey h e, m)}"
    using dist by (simp add: distinct_map set_remove1_eq)
  have "distinct (map fst ?rest)"
    using dist by (simp add: distinct_map rest inj_on_diff)
  moreover have "map_option er_MemoryReserved (experiments (snd (finish_experiment h e res r)) k) = Some m'"
    if "(k, m') \<in> set ?rest" for k m'
  proof -
    have "(k, m') \<in> set active" "(k, m') \<noteq> (experimentKey h e, m)" using that rest by auto
    then have "k \<noteq> experimentKey h e"
      using eq_key_imp_eq_value [OF dist finish.hyps(2), of m'] by auto
    then show ?thesis
      using ok \<open>(k, m') \<in> set active\<close> by (auto simp: active_ok_def keeps)
  qed
  ultimately have "active_ok (snd (finish_experiment h e res r)) ?rest"
    by (auto simp: active_ok_def)
  with finish_ticket [OF ts ok finish.hyps(2)] show ?case by blast
next
  case (quiet r active r')
  then show ?case
    using ledger_run.other [of disp_acquired disp_released disp_quiet "new_registry T M" r _ r']
      disp_quiet_books [OF quiet.hyps(2)]
    by (fastforce simp: active_ok_def)
qed

lemma dec_le_u64: "0 < (x :: u64) \<Longrightarrow> x - 1 \<le> x"
  by (simp add: word_le_nat_alt unat_dec_u64)

lemma disp_run_capacity:
  "disp_run T M r active \<Longrightarrow> totalSlots r = T \<and> totalMemoryBytes r = M \<and>
   (0 < T \<longrightarrow> usedSlots r \<le> T) \<and> (0 < M \<longrightarrow> reservedMemoryBytes r \<le> M)"
proof (induction rule: disp_run.induct)
  case new
  then show ?case by (simp add: new_registry_def)
next
  case (start r active h e m rec code why r')
  from try_start_Some [OF start.hyps(2)] start.IH show ?case
    by (auto simp: inc_le word_gt_0)
next
  case (finish r active h e m res)
  have "usedSlots (snd (finish_experiment h e res r)) \<le> usedSlots r \<and>
      reservedMemoryBytes (snd (finish_experiment h e res r)) \<le> reservedMemoryBytes r"
    by (auto simp: finish_experiment_def Let_def dec_le_u64 word_sub_le split: option.split)
  with finish.IH show ?case by (auto simp: keeps)
next
  case (quiet r active r')
  then show ?case using disp_quiet_books [OF quiet.hyps(2)] by simp
qed

section \<open>Properties\<close>

text \<open>
  C8. A dispatcher never runs more than its capacity and never loses any: through every
  interleaving of starts, cancellations, status changes and finishes in which a key is not
  started again while its run is still open, the used slots are the number of open runs, the
  reserved memory is the sum of their limits, and both stay within the configured totals
  (when these are not 0, which means unlimited).
\<close>

theorem dispatcher_capacity:
  assumes "disp_run T M r active"
  shows "unat (usedSlots r) = length active \<and>
    unat (reservedMemoryBytes r) = sum_list (map (\<lambda>(k, m). unat m) active) \<and>
    (0 < T \<longrightarrow> usedSlots r \<le> T) \<and> (0 < M \<longrightarrow> reservedMemoryBytes r \<le> M)"
proof -
  from disp_run_ledger [OF assms] obtain ts where
    run: "ledger_run disp_acquired disp_released disp_quiet (new_registry T M) r ts"
    and ts: "mset ts = mset (run_tickets active)" by blast
  from disp_ledger.balanced [OF run] have bal: "unat (usedSlots r) = length (tickets_of () ts)"
    "unat (reservedMemoryBytes r) = sum_list (tickets_of () ts)"
    by (simp_all add: new_registry_def fun_eq_iff)
  have "tickets_of () ts = map snd ts" by (simp add: tickets_of_def)
  moreover have "length ts = length active"
    using ts by (metis length_map run_tickets_def size_mset)
  moreover have "sum_list (map snd ts) = sum_list (map snd (run_tickets active))"
    using ts by (metis mset_map sum_mset_sum_list)
  moreover have "map snd (run_tickets active) = map (\<lambda>(k, m). unat m) active"
    by (simp add: run_tickets_def case_prod_unfold)
  ultimately show ?thesis using bal disp_run_capacity [OF assms] by simp
qed

text \<open>
  \<open>TryStart\<close> answers a record exactly when it answers no error code (so its caller,
  which tests the code, never dereferences nil); a refusal changes nothing; the refusals are
  exactly an active run of the same key, no free slot, or not enough memory, in this order.
\<close>

theorem try_start_decides:
  "case try_start h e m r of ((record, code, why), r') \<Rightarrow>
     (record = None \<longleftrightarrow> code \<noteq> []) \<and> (record = None \<longrightarrow> r' = r) \<and>
     (code = ''experiment_already_running'' \<longleftrightarrow>
        (\<exists>rc. experiments r (experimentKey h e) = Some rc \<and> isActiveStatus (rs_Status (er_Result rc)))) \<and>
     (record \<noteq> None \<longleftrightarrow>
        \<not> (\<exists>rc. experiments r (experimentKey h e) = Some rc \<and> isActiveStatus (rs_Status (er_Result rc))) \<and>
        (totalSlots r = 0 \<or> usedSlots r < totalSlots r) \<and>
        (totalMemoryBytes r = 0 \<or> m = 0 \<or> reservedMemoryBytes r + m \<le> totalMemoryBytes r))"
  by (auto simp: try_start_def Let_def word_gt_0 not_le not_less split: option.split)

text \<open>
  A cancellation that was accepted wins: until the run is finished, and whatever the
  worker does to its status in between, \<open>Finish\<close> reports CANCELED with the reason of the
  cancellation, unless the simulator had already reached the end of its run (FINISHED); and
  what \<open>Finish\<close> returns is what \<open>Get\<close> answers from then on.
\<close>

theorem cancel_wins:
  assumes "cancel_experiment h e r = ((True, why), called, ra)"
    and "finish_experiment h e res (set_status h e st ra) = (final, rb)"
  shows "get_experiment h e rb = (final, True) \<and>
    (if rs_Status res = statusFinished then final = res
     else rs_Status final = statusCanceled \<and> rs_FinishReason final \<noteq> [] \<and>
       rs_FinishReason final = rs_FinishReason (fst (get_experiment h e ra)))"
proof -
  from assms(1) obtain rc where rc: "experiments r (experimentKey h e) = Some rc"
    "isActiveStatus (rs_Status (er_Result rc))"
    by (auto simp: cancel_experiment_def Let_def split: option.splits if_splits)
  define why' where "why' = (if er_CancelReason rc = [] then ''user_canceled'' else er_CancelReason rc)"
  have why': "why' \<noteq> []" by (simp add: why'_def)
  define rc' where "rc' = rc\<lparr>er_CancelRequested := True, er_CancelReason := why',
      er_Result := (er_Result rc)\<lparr>rs_Status := statusCanceled, rs_FinishReason := why'\<rparr>\<rparr>"
  have ra: "experiments ra (experimentKey h e) = Some rc'"
    using assms(1) rc
    by (cases rc; cases "er_CancelReason rc = []")
      (auto simp: cancel_experiment_def rc'_def why'_def Let_def)
  then have "experiments (set_status h e st ra) (experimentKey h e) =
      Some (rc'\<lparr>er_Result := (er_Result rc')\<lparr>rs_Status := st\<rparr>\<rparr>)"
    by (simp add: set_status_def Let_def)
  with assms(2) ra why' show ?thesis
    by (auto simp: finish_experiment_def get_experiment_def rc'_def Let_def split: if_splits)
qed

definition sample_start :: "u64 \<Rightarrow> nat registry \<Rightarrow> nat registry" where
  "sample_start mem r = snd (try_start ''aa'' ''e1'' mem r)"

lemma sample_run_two:
  "disp_run 2 1000 (sample_start 600 (new_registry 2 1000)) [(experimentKey ''aa'' ''e1'', 600)]"
proof -
  have "\<exists>rec. try_start ''aa'' ''e1'' 600 (new_registry 2 1000 :: nat registry) =
      ((Some rec, [], []), sample_start 600 (new_registry 2 1000))"
    by (simp add: sample_start_def try_start_def new_registry_def Let_def)
  then show ?thesis
    by (auto intro!: disp_run.start [OF disp_run.new] simp: new_registry_def)
qed

theorem try_start_decides_witness:
  "try_start ''aa'' ''e1'' 600 (new_registry 1 500 :: nat registry) =
     ((None, ''not_enough_memory'', ''not enough free memory''), new_registry 1 500)"
proof -
  let ?t = "try_start ''aa'' ''e1'' 600 (new_registry 1 500 :: nat registry)"
  have t: "fst ?t = (None, ''not_enough_memory'', ''not enough free memory'')"
    by (simp add: try_start_def new_registry_def Let_def)
  then have "snd ?t = new_registry 1 500"
    using try_start_decides [where h = "''aa''" and e = "''e1''" and m = 600 and r = "new_registry 1 500 :: nat registry"]
    by (cases ?t) auto
  with t show ?thesis by (simp add: prod_eq_iff)
qed

theorem dispatcher_capacity_witness:
  "unat (usedSlots (sample_start 600 (new_registry 2 1000))) = 1 \<and>
   unat (reservedMemoryBytes (sample_start 600 (new_registry 2 1000))) = 600"
  using dispatcher_capacity [OF sample_run_two] by simp

theorem cancel_wins_witness:
  "\<exists>final r. finish_experiment ''aa'' ''e1'' (empty_result\<lparr>rs_Status := statusFailed\<rparr>)
       (set_status ''aa'' ''e1'' statusRunning
         (snd (snd (cancel_experiment ''aa'' ''e1'' (sample_start 600 (new_registry 2 1000)))))) =
     (final, r) \<and> rs_Status final = statusCanceled"
proof -
  let ?r = "sample_start 600 (new_registry 2 1000)"
  let ?c = "cancel_experiment ''aa'' ''e1'' ?r"
  let ?f = "finish_experiment ''aa'' ''e1'' (empty_result\<lparr>rs_Status := statusFailed\<rparr>)
    (set_status ''aa'' ''e1'' statusRunning (snd (snd ?c)))"
  have "?c = ((True, snd (fst ?c)), fst (snd ?c), snd (snd ?c))"
    by (simp add: sample_start_def try_start_def new_registry_def cancel_experiment_def
      isActiveStatus_def Let_def)
  from cancel_wins [OF this, of "empty_result\<lparr>rs_Status := statusFailed\<rparr>" statusRunning "fst ?f" "snd ?f"]
  have "rs_Status (fst ?f) = statusCanceled" by simp
  then show ?thesis by (intro exI [of _ "fst ?f"] exI [of _ "snd ?f"]) simp
qed

section \<open>A canceled run that is started again\<close>

text \<open>
  \<open>TryStart\<close> refuses a key only while its status is active, and \<open>Cancel\<close> ends that at once,
  not when the simulator stops. Starting the same experiment again in that window replaces
  the record of the first run: after both workers have finished, the 600 bytes of the first
  run stay reserved although nothing runs.
\<close>

lemma restart_leaks_memory:
  "let r = sample_start 600 (new_registry 2 1000);
       r = snd (snd (cancel_experiment ''aa'' ''e1'' r));
       r = sample_start 300 r;
       r = snd (finish_experiment ''aa'' ''e1'' empty_result r);
       r = snd (finish_experiment ''aa'' ''e1'' empty_result r)
   in usedSlots r = 0 \<and> reservedMemoryBytes r = 600"
  by code_simp

end
