(* ===== verification/Dispatcher_Protocol.thy ===== *)
theory Dispatcher_Protocol
  imports Dispatcher_Registry
begin

text \<open>
  The text protocol between a dispatcher and the simulators it runs
  (dispatcher/protocol.go, dispatcher/util.go) and the translation of a start request into
  the run configuration (dispatcher/run.go, dispatcher/config.go). A set flag, a stop rule
  and a metric list travel as text and are parsed back before the simulator starts; the
  round trips are proved here. Errors are message strings.
\<close>

section \<open>Helpers (util.go)\<close>

definition replace_byte :: "char \<Rightarrow> char \<Rightarrow> string \<Rightarrow> string" where
  "replace_byte a b s = map (\<lambda>c. if c = a then b else c) s"

definition safePathName :: "string \<Rightarrow> string" where
  "safePathName value =
     (let value = trim_space value;
          value = replace_byte (CHR 0x5C) (CHR ''_'') value;
          value = replace_byte (CHR ''/'') (CHR ''_'') value;
          value = replace_byte (CHR '':'') (CHR ''_'') value
      in if value = [] then ''experiment'' else value)"

definition isHex :: "string \<Rightarrow> bool" where
  "isHex value = list_all is_hex_digit value"

definition modelBinaryFileName :: "string \<Rightarrow> string" where
  "modelBinaryFileName goos = (if goos = ''windows'' then ''model.exe'' else ''model'')"

section \<open>Parsing (protocol.go)\<close>

text \<open>A scanner over the lines still to come; \<open>None\<close> at the end of the input.\<close>

fun scanNonEmptyLine :: "string list \<Rightarrow> (string \<times> string list) option" where
  "scanNonEmptyLine [] = None"
| "scanNonEmptyLine (l # lines) =
     (let line = trim_space l in
      if line \<noteq> [] then Some (line, lines) else scanNonEmptyLine lines)"

definition parseHello :: "string \<Rightarrow> string + string" where
  "parseHello line =
     (let fs = string_fields line in
      if length fs \<noteq> 2 \<or> fs ! 0 \<noteq> ''HELLO'' then
        Inl (msg [''expected HELLO <model_hash>, got '', quoted line])
      else if length (fs ! 1) \<noteq> 64 \<or> \<not> isHex (fs ! 1) then
        Inl (msg [''invalid HELLO model hash '', quoted (fs ! 1)])
      else Inr (fs ! 1))"

fun stat_loop :: "string list \<Rightarrow> (string \<rightharpoonup> string) \<Rightarrow> string + (string \<rightharpoonup> string)" where
  "stat_loop [] result = Inr result"
| "stat_loop (p # parts) result =
     (let part = trim_space p in
      if part = [] then stat_loop parts result
      else
        (case cut_byte (CHR ''='') part of
           None \<Rightarrow> Inl (msg [''bad metric pair '', quoted part])
         | Some (n, v) \<Rightarrow>
             (let name = trim_space n; value = trim_space v in
              if name = [] then Inl (msg [''empty metric name in '', quoted part])
              else stat_loop parts (result(name \<mapsto> value)))))"

definition parseStatLine :: "string \<Rightarrow> string + (string \<rightharpoonup> string)" where
  "parseStatLine line =
     (let raw = trim_space (trim_prefix ''STAT'' line) in
      if raw = [] then Inr Map.empty
      else stat_loop (split_byte (CHR '';'') raw) Map.empty)"

definition parseVarOverride :: "string \<Rightarrow> string + set_var" where
  "parseVarOverride raw =
     (case cut_byte (CHR ''='') raw of
        None \<Rightarrow> Inl (msg [''bad set '', quoted raw, '', expected name=value''])
      | Some (n, v) \<Rightarrow>
          (let name = trim_space n; value = trim_space v in
           if name = [] then Inl (msg [''empty variable name in set '', quoted raw])
           else if value = [] then Inl (msg [''empty variable value in set '', quoted raw])
           else Inr \<lparr>sv_Name = name, sv_Value = value\<rparr>))"

definition parseVarOverrides :: "string list \<Rightarrow> string + set_var list" where
  "parseVarOverrides values = traverseE parseVarOverride values"

definition stop_ops :: "string list" where
  "stop_ops = [''=='', ''!='', ''>'', ''>='', ''<'', ''<='']"

definition parseStopRule :: "string \<Rightarrow> string + stop_rule option" where
  "parseStopRule raw0 =
     (let raw = trim_space raw0 in
      if raw = [] then Inr None
      else
        (let fs = string_fields raw in
         if length fs \<noteq> 3 then
           Inl (msg [''bad stop-rule '', quoted raw, '', expected '', [CHR 0x27], ''<left> <op> <right>'', [CHR 0x27]])
         else if fs ! 1 \<notin> set stop_ops then
           Inl (msg [''bad stop-rule operator '', quoted (fs ! 1)])
         else Inr (Some \<lparr>sr_Left = fs ! 0, sr_Op = fs ! 1, sr_Right = fs ! 2\<rparr>)))"

definition metricClock :: string where
  "metricClock = ''Simulation.clock''"

fun metrics_loop :: "string list \<Rightarrow> string set \<Rightarrow> string list \<Rightarrow> string list" where
  "metrics_loop [] seen result = result"
| "metrics_loop (p # parts) seen result =
     (let name = trim_space p in
      if name = [] then metrics_loop parts seen result
      else if name \<in> seen then metrics_loop parts seen result
      else metrics_loop parts (insert name seen) (result @ [name]))"

definition normalizeMetrics :: "string \<Rightarrow> string list" where
  "normalizeMetrics raw = metrics_loop (split_byte (CHR '';'') raw) {metricClock} [metricClock]"

section \<open>The run configuration (config.go, run.go)\<close>

record run_config =
  cf_ExperimentID :: string
  cf_ModelHash :: string
  cf_BinaryKey :: string
  cf_BinarySHA256 :: string
  cf_SetFlags :: "string list"
  cf_MetricsRaw :: string
  cf_StopRuleRaw :: string
  cf_MetricStep :: f64
  cf_StoreMetrics :: bool
  cf_WorkDir :: string
  cf_RunTimeout :: duration
  cf_MemoryLimitBytes :: u64
  cf_CgroupEnabled :: bool
  cf_CgroupRoot :: string
  cf_CgroupParent :: string
  cf_S3Endpoint :: string
  cf_S3AccessKey :: string
  cf_S3SecretKey :: string
  cf_S3Bucket :: string
  cf_S3UseSSL :: bool
  cf_S3Region :: string
  cf_S3Prefix :: string
  cf_S3CreateBucket :: bool

text \<open>\<open>time.Duration(ms) * time.Millisecond\<close>: a 64-bit product, read as signed.\<close>

definition millis :: "u64 \<Rightarrow> duration" where
  "millis ms = sint (ms * 1000000)"

definition configFromStartRequest ::
  "string \<Rightarrow> string \<Rightarrow> binary_artifact \<Rightarrow> set_var list \<Rightarrow> stop_rule option \<Rightarrow> string list \<Rightarrow>
   f64 \<Rightarrow> bool \<Rightarrow> u64 \<Rightarrow> u64 \<Rightarrow> run_config \<Rightarrow> run_config" where
  "configFromStartRequest reqModelHash reqExperimentID binary setVars stopRule metrics
     metricStep storeMetrics memoryLimitBytes runTimeoutMS base =
     base\<lparr>cf_ExperimentID := reqExperimentID, cf_ModelHash := reqModelHash,
          cf_BinaryKey := ba_Key binary, cf_BinarySHA256 := ba_Sha256 binary,
          cf_SetFlags := map (\<lambda>v. sv_Name v @ ''='' @ sv_Value v) setVars,
          cf_StopRuleRaw := (case stopRule of
             None \<Rightarrow> []
           | Some r \<Rightarrow> trim_space (sr_Left r @ '' '' @ sr_Op r @ '' '' @ sr_Right r)),
          cf_MetricsRaw := join_with '';'' metrics, cf_MetricStep := metricStep,
          cf_StoreMetrics := storeMetrics, cf_MemoryLimitBytes := memoryLimitBytes,
          cf_RunTimeout := (if runTimeoutMS > 0 then millis runTimeoutMS else 0)\<rparr>"

definition appendResultError :: "string \<Rightarrow> experiment_result \<Rightarrow> experiment_result" where
  "appendResultError message result =
     (let result = (if rs_ErrorMessage result = [] then result\<lparr>rs_ErrorMessage := message\<rparr>
                    else result\<lparr>rs_ErrorMessage := msg [rs_ErrorMessage result, ''; '', message]\<rparr>)
      in if rs_Status result \<noteq> statusCanceled then result\<lparr>rs_Status := statusFailed\<rparr> else result)"

section \<open>Tidy strings\<close>

text \<open>No white space at either end: trimming leaves the string as it is.\<close>

definition tidy :: "string \<Rightarrow> bool" where
  "tidy s \<longleftrightarrow> (s = [] \<or> space_at s = 0) \<and> (s = [] \<or> space_at_rev (rev s) = 0)"

lemma trim_tidy: "tidy s \<Longrightarrow> trim_space s = s"
proof -
  assume "tidy s"
  then have "drop_spaces s = s" "drop_spaces_rev (rev s) = rev s"
    by (subst drop_spaces.simps drop_spaces_rev.simps; auto simp: tidy_def)+
  then show ?thesis by (simp add: trim_space_def)
qed

lemma space_width_0:
  "(\<forall>e \<in> set es. e \<noteq> []) \<Longrightarrow> space_width es s = 0 \<longleftrightarrow> (\<forall>e \<in> set es. \<not> is_prefix e s)"
  by (induction es) auto

lemma space_encodings_not_Nil: "\<forall>e \<in> set space_encodings. e \<noteq> []"
  by (simp add: space_encodings_def)

lemma space_at_0: "space_at s = 0 \<longleftrightarrow> (\<forall>e \<in> set space_encodings. \<not> is_prefix e s)"
  unfolding space_at_def by (rule space_width_0 [OF space_encodings_not_Nil])

text \<open>A word: no space starts at any of its positions.\<close>

definition solid :: "string \<Rightarrow> bool" where
  "solid w \<longleftrightarrow> w \<noteq> [] \<and> (\<forall>i < length w. space_at (drop i w) = 0)"

lemma is_prefix_before:
  "is_prefix e (u @ c # s) \<Longrightarrow> c \<notin> set e \<Longrightarrow> is_prefix e u"
proof (induction e u rule: is_prefix.induct)
  case (2 d e)
  then show ?case by auto
qed auto

lemma encodings_cases: "e \<in> set space_encodings \<Longrightarrow> CHR 0x20 \<notin> set e \<or> e = [CHR 0x20]"
  by (auto simp: space_encodings_def)

lemma solid_then_blank:
  assumes "space_at u = 0" "u \<noteq> []"
  shows "space_at (u @ CHR 0x20 # s) = 0"
  unfolding space_at_0
proof (intro ballI notI)
  fix e assume e: "e \<in> set space_encodings" "is_prefix e (u @ CHR 0x20 # s)"
  obtain c v where u: "u = c # v" using assms(2) by (cases u) auto
  from encodings_cases [OF e(1)] have "is_prefix e u"
  proof
    assume "e = [CHR 0x20]"
    with e(2) u show ?thesis by simp
  qed (use e(2) is_prefix_before in blast)
  with assms(1) e(1) show False by (simp add: space_at_0)
qed

lemma solid_Cons: "solid (c # w) \<longleftrightarrow> space_at (c # w) = 0 \<and> (w = [] \<or> solid w)"
proof -
  have "(\<forall>i < length (c # w). space_at (drop i (c # w)) = 0) \<longleftrightarrow>
      space_at (c # w) = 0 \<and> (\<forall>i < length w. space_at (drop i w) = 0)"
    by (auto simp: less_Suc_eq_0_disj)
  then show ?thesis by (auto simp: solid_def)
qed

lemma space_at_blank: "space_at (CHR 0x20 # s) = 1"
  by (simp add: space_at_def space_encodings_def)

lemma fields_aux_solid:
  "solid w \<Longrightarrow> fields_aux cur (w @ CHR 0x20 # s) = (rev cur @ w) # fields_aux [] s"
proof (induction w arbitrary: cur)
  case Nil
  then show ?case by (simp add: solid_def)
next
  case (Cons c w)
  then have 0: "space_at (c # w @ CHR 0x20 # s) = 0"
    using solid_then_blank [of "c # w" s] by (simp add: solid_Cons)
  show ?case
  proof (cases "w = []")
    case True
    with 0 show ?thesis by (simp add: space_at_blank)
  next
    case False
    with Cons have "solid w" by (simp add: solid_Cons)
    with 0 Cons.IH show ?thesis by simp
  qed
qed

lemma fields_aux_last: "solid w \<Longrightarrow> fields_aux cur w = [rev cur @ w]"
proof (induction w arbitrary: cur)
  case Nil
  then show ?case by (simp add: solid_def)
next
  case (Cons c w)
  then show ?case by (cases "w = []") (auto simp: solid_Cons)
qed

lemma fields_three:
  "solid a \<Longrightarrow> solid b \<Longrightarrow> solid c \<Longrightarrow> string_fields (a @ '' '' @ b @ '' '' @ c) = [a, b, c]"
  by (simp add: string_fields_def fields_aux_solid fields_aux_last)

section \<open>Separators\<close>

text \<open>A byte that is part of no space: a separator next to a tidy string hides nothing.\<close>

definition inert :: "char \<Rightarrow> bool" where
  "inert c \<longleftrightarrow> (\<forall>e \<in> set space_encodings. c \<notin> set e)"

lemma inert_eq [simp]: "inert (CHR ''='')" and inert_semi [simp]: "inert (CHR '';'')"
  by (simp_all add: inert_def space_encodings_def)

lemma space_at_rev_0: "space_at_rev s = 0 \<longleftrightarrow> (\<forall>e \<in> set space_encodings. \<not> is_prefix (rev e) s)"
  unfolding space_at_rev_def using space_encodings_not_Nil by (subst space_width_0) auto

lemma space_at_inert: "inert c \<Longrightarrow> s = [] \<or> space_at s = 0 \<Longrightarrow> space_at (s @ c # t) = 0"
  unfolding space_at_0 inert_def
proof (intro ballI notI)
  fix e assume c: "\<forall>e \<in> set space_encodings. c \<notin> set e" and e: "e \<in> set space_encodings"
    and s: "s = [] \<or> (\<forall>e \<in> set space_encodings. \<not> is_prefix e s)" and p: "is_prefix e (s @ c # t)"
  have "is_prefix e s" using is_prefix_before [OF p] c e by simp
  with s e space_encodings_not_Nil show False by (cases e) auto
qed

lemma space_at_rev_inert:
  "inert c \<Longrightarrow> s = [] \<or> space_at_rev s = 0 \<Longrightarrow> space_at_rev (s @ c # t) = 0"
  unfolding space_at_rev_0 inert_def
proof (intro ballI notI)
  fix e assume c: "\<forall>e \<in> set space_encodings. c \<notin> set e" and e: "e \<in> set space_encodings"
    and s: "s = [] \<or> (\<forall>e \<in> set space_encodings. \<not> is_prefix (rev e) s)"
    and p: "is_prefix (rev e) (s @ c # t)"
  have "is_prefix (rev e) s" using is_prefix_before [OF p] c e by simp
  with s e space_encodings_not_Nil show False by (cases "rev e") auto
qed

lemma tidy_inert: "inert c \<Longrightarrow> tidy a \<Longrightarrow> tidy b \<Longrightarrow> tidy (a @ c # b)"
  by (auto simp: tidy_def intro!: space_at_inert space_at_rev_inert)

lemma tidy_solid_ends:
  assumes "solid a" "solid b"
  shows "tidy (a @ '' '' @ u @ '' '' @ b)"
proof -
  have "space_at a = 0" using assms(1) by (auto simp: solid_def dest: spec [of _ 0])
  then have 1: "space_at (a @ CHR 0x20 # u @ '' '' @ b) = 0"
    using assms(1) solid_then_blank [of a] by (simp add: solid_def)
  have 2: "space_at_rev (rev b @ CHR 0x20 # t) = 0" for t
    unfolding space_at_rev_0
  proof (intro ballI notI)
    fix e assume e: "e \<in> set space_encodings" and p: "is_prefix (rev e) (rev b @ CHR 0x20 # t)"
    have "b \<noteq> []" using assms(2) by (simp add: solid_def)
    have "is_prefix (rev e) (rev b)"
      using encodings_cases [OF e]
    proof
      assume "e = [CHR 0x20]"
      with p \<open>b \<noteq> []\<close> show ?thesis by (cases "rev b") auto
    qed (use is_prefix_before [OF p] in auto)
    then obtain x where "rev b = rev e @ x" by (auto simp: is_prefix_iff)
    then have b: "b = rev x @ e" by (metis rev_append rev_rev_ident)
    moreover have "e \<noteq> []" using e space_encodings_not_Nil by auto
    ultimately have "drop (length x) b = e" "length x < length b" by auto
    then have "space_at e = 0" using assms(2) by (auto simp: solid_def)
    with e show False by (auto simp: space_at_0 is_prefix_iff)
  qed
  show ?thesis using 1 2 [of "rev (a @ '' '' @ u)"] by (simp add: tidy_def)
qed

lemma cut_byte_append: "c \<notin> set a \<Longrightarrow> cut_byte c (a @ c # b) = Some (a, b)"
proof -
  assume "c \<notin> set a"
  then have "index_byte c (a @ c # b) = Some (length a)" by (induction a) auto
  then show ?thesis by (simp add: cut_byte_def)
qed

lemma split_byte_aux_append:
  "c \<notin> set a \<Longrightarrow> split_byte_aux c cur (a @ c # b) = (rev cur @ a) # split_byte_aux c [] b"
  by (induction a arbitrary: cur) auto

lemma split_byte_aux_one: "c \<notin> set a \<Longrightarrow> split_byte_aux c cur a = [rev cur @ a]"
  by (induction a arbitrary: cur) auto

lemma split_byte_of_join:
  "xs \<noteq> [] \<Longrightarrow> \<forall>x \<in> set xs. c \<notin> set x \<Longrightarrow> split_byte c (join_with [c] xs) = xs"
  unfolding split_byte_def
  by (induction "[c]" xs rule: join_with.induct)
    (simp_all add: split_byte_aux_append split_byte_aux_one)

section \<open>Round trips\<close>

definition good_set_var :: "set_var \<Rightarrow> bool" where
  "good_set_var v \<longleftrightarrow> tidy (sv_Name v) \<and> sv_Name v \<noteq> [] \<and> CHR ''='' \<notin> set (sv_Name v) \<and>
     tidy (sv_Value v) \<and> sv_Value v \<noteq> []"

definition good_stop_rule :: "stop_rule \<Rightarrow> bool" where
  "good_stop_rule r \<longleftrightarrow> solid (sr_Left r) \<and> sr_Op r \<in> set stop_ops \<and> solid (sr_Right r)"

lemma stop_ops_solid: "op \<in> set stop_ops \<Longrightarrow> solid op"
  by (auto simp: stop_ops_def solid_Cons space_at_0 space_encodings_def)

lemma parse_one_override:
  "good_set_var v \<Longrightarrow> parseVarOverride (sv_Name v @ ''='' @ sv_Value v) = Inr v"
  using cut_byte_append [of "CHR ''=''" "sv_Name v" "sv_Value v"]
  by (cases v) (simp add: good_set_var_def parseVarOverride_def trim_tidy Let_def)

lemma parse_stop_text:
  assumes "good_stop_rule r"
  shows "parseStopRule (trim_space (sr_Left r @ '' '' @ sr_Op r @ '' '' @ sr_Right r)) = Inr (Some r)"
proof -
  have s: "solid (sr_Left r)" "solid (sr_Op r)" "solid (sr_Right r)"
    using assms stop_ops_solid by (auto simp: good_stop_rule_def)
  have "trim_space (sr_Left r @ '' '' @ sr_Op r @ '' '' @ sr_Right r) =
      sr_Left r @ '' '' @ sr_Op r @ '' '' @ sr_Right r"
    by (rule trim_tidy [OF tidy_solid_ends [OF s(1,3)]])
  then show ?thesis
    using fields_three [OF s] assms
    by (cases r) (simp add: parseStopRule_def good_stop_rule_def)
qed

text \<open>
  What a start request asks for is what the simulator is given: the set flags and the
  stop rule written into the run configuration parse back to the variables and the rule of
  the request, when names and values are trimmed and not empty, a name has no equals sign
  and the sides of the rule are words.
\<close>

theorem run_config_roundtrip:
  assumes "\<forall>v \<in> set vs. good_set_var v" "\<forall>r. rule = Some r \<longrightarrow> good_stop_rule r"
  shows "let cfg = configFromStartRequest h e bin vs rule metrics step store mem ms base in
    parseVarOverrides (cf_SetFlags cfg) = Inr vs \<and> parseStopRule (cf_StopRuleRaw cfg) = Inr rule"
proof -
  have "parseVarOverrides (map (\<lambda>v. sv_Name v @ ''='' @ sv_Value v) vs) = Inr vs"
    unfolding parseVarOverrides_def traverseE_Inr
    using assms(1) parse_one_override by (simp add: list_all2_conv_all_nth)
  moreover have "parseStopRule (case rule of None \<Rightarrow> []
      | Some r \<Rightarrow> trim_space (sr_Left r @ '' '' @ sr_Op r @ '' '' @ sr_Right r)) = Inr rule"
  proof (cases rule)
    case None
    then show ?thesis by (simp add: parseStopRule_def)
  next
    case (Some r)
    then show ?thesis using parse_stop_text assms(2) by simp
  qed
  ultimately show ?thesis by (simp add: configFromStartRequest_def Let_def)
qed

lemma metrics_loop_spec:
  "set result = seen \<Longrightarrow> distinct result \<Longrightarrow>
   (\<exists>more. metrics_loop parts seen result = result @ more) \<and>
   distinct (metrics_loop parts seen result) \<and>
   set (metrics_loop parts seen result) = seen \<union> (trim_space ` set parts - {[]})"
proof (induction parts seen result rule: metrics_loop.induct)
  case (2 p parts seen result)
  let ?n = "trim_space p"
  consider "?n = []" | "?n \<noteq> []" "?n \<in> seen" | "?n \<noteq> []" "?n \<notin> seen" by blast
  then show ?case
  proof cases
    case 3
    with "2.prems" have "set (result @ [?n]) = insert ?n seen" "distinct (result @ [?n])" by auto
    from "2.IH"(3) [OF refl 3 this] 3 show ?thesis by auto
  qed (use 2 in auto)
qed simp

text \<open>
  The metrics the simulator reports: the clock first, then the requested names, trimmed,
  without empty ones and without repetition, whatever the text; and for a request whose
  names contain no semicolon, exactly the requested ones.
\<close>

theorem metrics_normalized:
  "\<exists>more. normalizeMetrics raw = metricClock # more \<and> distinct (metricClock # more) \<and>
     set (metricClock # more) = insert metricClock (trim_space ` set (split_byte (CHR '';'') raw) - {[]}) \<and>
     (\<forall>names. raw = join_with '';'' names \<and> (\<forall>n \<in> set names. CHR '';'' \<notin> set n) \<longrightarrow>
        set (normalizeMetrics raw) = insert metricClock (trim_space ` set names - {[]}))"
proof -
  note spec = metrics_loop_spec [of "[metricClock]" "{metricClock}" "split_byte (CHR '';'') raw", simplified]
  then obtain more where more: "normalizeMetrics raw = metricClock # more"
    by (auto simp: normalizeMetrics_def)
  have set_eq: "set (normalizeMetrics raw) =
      insert metricClock (trim_space ` set (split_byte (CHR '';'') raw) - {[]})"
    using spec by (simp add: normalizeMetrics_def)
  have "set (normalizeMetrics raw) = insert metricClock (trim_space ` set names - {[]})"
    if "raw = join_with '';'' names" "\<forall>n \<in> set names. CHR '';'' \<notin> set n" for names
  proof (cases "names = []")
    case True
    with that set_eq show ?thesis by (simp add: split_byte_def)
  next
    case False
    with that set_eq split_byte_of_join [OF False that(2)] show ?thesis by simp
  qed
  with more set_eq spec show ?thesis by (auto simp: normalizeMetrics_def)
qed

definition sample_vars :: "set_var list" where
  "sample_vars = [\<lparr>sv_Name = ''a'', sv_Value = ''1''\<rparr>, \<lparr>sv_Name = ''b'', sv_Value = ''x=2''\<rparr>]"

definition sample_rule :: stop_rule where
  "sample_rule = \<lparr>sr_Left = ''a'', sr_Op = ''>='', sr_Right = ''10''\<rparr>"

lemma sample_good: "(\<forall>v \<in> set sample_vars. good_set_var v) \<and> good_stop_rule sample_rule"
  by (simp add: sample_vars_def sample_rule_def good_set_var_def good_stop_rule_def tidy_def
    space_at_0 space_at_rev_0 solid_Cons stop_ops_def space_encodings_def)

theorem run_config_roundtrip_witness:
  "\<forall>bin base. parseStopRule (cf_StopRuleRaw (configFromStartRequest ''h'' ''e'' bin sample_vars
     (Some sample_rule) [''a''] (Fin 1) True 0 1000 base)) = Inr (Some sample_rule)"
proof -
  have "\<forall>r. Some sample_rule = Some r \<longrightarrow> good_stop_rule r" using sample_good by simp
  from run_config_roundtrip [OF conjunct1 [OF sample_good] this] show ?thesis
    by (simp add: Let_def)
qed

theorem metrics_normalized_witness:
  "set (normalizeMetrics ('' a '' @ '';'' @ ''b'')) = {metricClock, ''a'', ''b''}"
proof -
  have "trim_space '' a '' = ''a''" "trim_space ''b'' = ''b''" by code_simp+
  then show ?thesis
    using metrics_normalized [of "join_with '';'' ['' a '', ''b'']"]
    by (fastforce dest!: spec [of _ "['' a '', ''b'']"])
qed

text \<open>
  A simulator is greeted exactly by a line of the two words HELLO and 64 hexadecimal
  digits, which are the model hash.
\<close>

theorem hello_exact:
  "parseHello line = Inr h \<longleftrightarrow>
     string_fields line = [''HELLO'', h] \<and> length h = 64 \<and> list_all is_hex_digit h"
proof -
  have "length fs = 2 \<longleftrightarrow> (\<exists>a b. fs = [a, b])" for fs :: "string list"
    by (auto simp: length_Suc_conv numeral_2_eq_2)
  then show ?thesis by (auto simp: parseHello_def isHex_def Let_def)
qed

section \<open>Statistics\<close>

text \<open>A metric as a simulator prints it, \<open>name=value\<close>.\<close>

definition good_metric :: "string \<times> string \<Rightarrow> bool" where
  "good_metric p \<longleftrightarrow> tidy (fst p) \<and> fst p \<noteq> [] \<and> CHR ''='' \<notin> set (fst p) \<and>
     CHR '';'' \<notin> set (fst p) \<and> tidy (snd p) \<and> CHR '';'' \<notin> set (snd p)"

definition metric_text :: "string \<times> string \<Rightarrow> string" where
  "metric_text p = fst p @ ''='' @ snd p"

lemma metric_text_tidy: "good_metric p \<Longrightarrow> tidy (metric_text p)"
  using tidy_inert [of "CHR ''=''" "fst p" "snd p"] by (simp add: good_metric_def metric_text_def)

lemma stat_loop_metrics:
  "\<forall>p \<in> set ps. good_metric p \<Longrightarrow>
   stat_loop (map metric_text ps) m = Inr (m ++ map_of (rev ps))"
proof (induction ps arbitrary: m)
  case Nil
  then show ?case by simp
next
  case (Cons p ps)
  then have g: "good_metric p" by simp
  have "cut_byte (CHR ''='') (metric_text p) = Some (fst p, snd p)"
    using g cut_byte_append [of "CHR ''=''" "fst p" "snd p"]
    by (simp add: good_metric_def metric_text_def)
  moreover have "metric_text p \<noteq> []" by (simp add: metric_text_def)
  ultimately have "stat_loop (map metric_text (p # ps)) m =
      stat_loop (map metric_text ps) (m(fst p \<mapsto> snd p))"
    using g trim_tidy [OF metric_text_tidy [OF g]]
    by (cases p) (simp add: good_metric_def trim_tidy Let_def)
  then show ?case using Cons.IH [of "m(fst p \<mapsto> snd p)"] Cons.prems by (simp del: fun_upd_apply)
qed

lemma join_tidy: "\<forall>x \<in> set xs. tidy x \<Longrightarrow> tidy (join_with '';'' xs)"
proof (induction "'';''" xs rule: join_with.induct)
  case 1
  then show ?case by (simp add: tidy_def)
next
  case (3 x y xs)
  then show ?case using tidy_inert [of "CHR '';''" x "join_with '';'' (y # xs)"] by simp
qed simp

lemma trim_blank: "tidy s \<Longrightarrow> trim_space (CHR 0x20 # s) = s"
proof -
  assume "tidy s"
  then have "drop_spaces (CHR 0x20 # s) = s"
    by (subst drop_spaces.simps)
      (simp add: space_at_blank, subst drop_spaces.simps, auto simp: tidy_def)
  moreover have "drop_spaces_rev (rev s) = rev s"
    using \<open>tidy s\<close> by (subst drop_spaces_rev.simps) (auto simp: tidy_def)
  ultimately show ?thesis by (simp add: trim_space_def)
qed

lemma parse_stat_line:
  assumes "\<forall>p \<in> set ps. good_metric p"
  shows "parseStatLine (''STAT '' @ join_with '';'' (map metric_text ps)) = Inr (map_of (rev ps))"
proof (cases "ps = []")
  case True
  have "trim_space '' '' = []" by code_simp
  with True show ?thesis by (simp add: parseStatLine_def trim_prefix_def)
next
  case False
  let ?raw = "join_with '';'' (map metric_text ps)"
  have tidy: "tidy ?raw" using assms metric_text_tidy by (intro join_tidy) auto
  have semi: "\<forall>x \<in> set (map metric_text ps). CHR '';'' \<notin> set x"
    using assms by (auto simp: good_metric_def metric_text_def)
  have split: "split_byte (CHR '';'') ?raw = map metric_text ps"
    using split_byte_of_join [OF _ semi] False by simp
  have "?raw \<noteq> []"
    using False by (cases ps rule: remdups_adj.cases) (auto simp: metric_text_def)
  moreover have "trim_space (trim_prefix ''STAT'' (''STAT '' @ ?raw)) = ?raw"
    using trim_blank [OF tidy] by (simp add: trim_prefix_def)
  ultimately show ?thesis
    using stat_loop_metrics [OF assms, of Map.empty] split
    by (simp add: parseStatLine_def Let_def)
qed

text \<open>
  Reading a statistics line gives back the metrics that were printed on it, for names
  and values without stray white space and separators; of two values for one name the last
  one counts.
\<close>

theorem stat_line_roundtrip:
  assumes "\<forall>p \<in> set ps. good_metric p"
  shows "parseStatLine (''STAT '' @ join_with '';'' (map metric_text ps)) = Inr (map_of (rev ps))"
  using assms by (rule parse_stat_line)

theorem stat_line_roundtrip_witness:
  "parseStatLine ''STAT a=1;b=2;a=3'' = Inr [''a'' \<mapsto> ''1'', ''b'' \<mapsto> ''2'', ''a'' \<mapsto> ''3'']"
proof -
  have "\<forall>p \<in> set [(''a'', ''1''), (''b'', ''2''), (''a'', ''3'')]. good_metric p" by code_simp
  from stat_line_roundtrip [OF this] show ?thesis
    by (simp add: metric_text_def fun_upd_twist)
qed

end
