(* ===== verification/Model_Process.thy ===== *)
theory Model_Process
  imports Dispatcher_Protocol
begin

text \<open>
  One run of a simulator by the dispatcher (dispatcher/model_process.go and
  dispatcher/metric_trace.go): the process is started, greeted, configured over its standard
  input and read until it ends. What the operating system and the process do is the
  environment \<open>model_env\<close>: the errors of the system calls, the lines the process prints, how
  it ends, the state of the context, the memory events and the clock.
\<close>

section \<open>Environment and results\<close>

datatype ctx_state = CtxLive | CtxCanceled string | CtxDeadline string | CtxOther string

record model_env =
  me_CgroupErr :: "string option"
  me_StdinErr :: "string option"
  me_StdoutErr :: "string option"
  me_StderrErr :: "string option"
  me_StartErr :: "string option"
  me_AddProcessErr :: "string option"
  me_Stdout :: "string list"
  me_ScanErr :: "string option"
  me_WriteErr :: "nat \<Rightarrow> string option"
  me_FlushErr :: "string option"
  me_RowErr :: "nat \<Rightarrow> string option"
  me_ExitCode :: "int option"
  me_WaitErr :: "string option"
  me_Ctx :: ctx_state
  me_StartedAt :: instant
  me_FinishedAt :: instant
  me_OOMKilled :: bool
  me_PeakMemory :: u64
  me_StderrTail :: "string option"
  me_FormatFloat :: "f64 \<Rightarrow> string"

record model_run_config =
  mc_ExperimentID :: string
  mc_ModelHash :: string
  mc_BinaryPath :: string
  mc_SetVars :: "set_var list"
  mc_StopRule :: "stop_rule option"
  mc_Metrics :: "string list"
  mc_MetricStep :: f64
  mc_Trace :: "(string list) option"
  mc_MemoryLimitBytes :: u64
  mc_CgroupEnabled :: bool
  mc_CgroupRoot :: string
  mc_CgroupParent :: string

record model_run_result =
  mr_Status :: string
  mr_FinishReason :: string
  mr_ExitCode :: int
  mr_ErrorMessage :: string
  mr_FinalMetrics :: "string \<rightharpoonup> string"
  mr_StatCount :: u64
  mr_StartedAtUnixMS :: int
  mr_FinishedAtUnixMS :: int
  mr_DurationMS :: int
  mr_MemoryLimitBytes :: u64
  mr_PeakMemoryBytes :: u64
  mr_StderrTail :: string

text \<open>The run so far: the result, whether the process was killed, the text sent to it and
  the rows of the metrics file.\<close>

record session =
  ss_Result :: model_run_result
  ss_Killed :: bool
  ss_Sent :: "string list"
  ss_Rows :: "string list list"

definition unix_epoch :: instant where
  "unix_epoch = 62135596800 * 10 ^ 9"

definition unix_milli :: "instant \<Rightarrow> int" where
  "unix_milli t = (t - unix_epoch) div 10 ^ 6"

definition milliseconds :: "duration \<Rightarrow> int" where
  "milliseconds d = (if 0 \<le> d then d div 10 ^ 6 else - ((- d) div 10 ^ 6))"

section \<open>The metrics file (metric_trace.go)\<close>

definition trace_row :: "string list \<Rightarrow> (string \<rightharpoonup> string) \<Rightarrow> string list" where
  "trace_row metrics stat = map (\<lambda>metric. case stat metric of None \<Rightarrow> [] | Some v \<Rightarrow> v) metrics"

definition write_stat ::
  "model_env \<Rightarrow> string list \<Rightarrow> (string \<rightharpoonup> string) \<Rightarrow> session \<Rightarrow> string + session" where
  "write_stat env metrics stat s =
     (case me_RowErr env (length (ss_Rows s)) of
        Some err \<Rightarrow> Inl err
      | None \<Rightarrow> Inr (s\<lparr>ss_Rows := ss_Rows s @ [trace_row metrics stat]\<rparr>))"

section \<open>Ending a run\<close>

definition fail_run :: "string \<Rightarrow> session \<Rightarrow> session" where
  "fail_run message s =
     s\<lparr>ss_Result := (ss_Result s)\<lparr>mr_Status := statusFailed, mr_ErrorMessage := message\<rparr>,
       ss_Killed := True\<rparr>"

definition waitProcess :: "model_env \<Rightarrow> session \<Rightarrow> string option \<times> session" where
  "waitProcess env s =
     (me_WaitErr env,
      case me_ExitCode env of
        None \<Rightarrow> s
      | Some code \<Rightarrow> s\<lparr>ss_Result := (ss_Result s)\<lparr>mr_ExitCode := code\<rparr>\<rparr>)"

definition finishRunResult :: "model_env \<Rightarrow> bool \<Rightarrow> session \<Rightarrow> session" where
  "finishRunResult env cg s =
     (let result = ss_Result s;
          result = result\<lparr>mr_FinishedAtUnixMS := unix_milli (me_FinishedAt env),
            mr_DurationMS := milliseconds (time_sub (me_FinishedAt env) (me_StartedAt env))\<rparr>;
          result = (if cg then
              (let result = result\<lparr>mr_PeakMemoryBytes := me_PeakMemory env\<rparr> in
               if me_OOMKilled env \<and> mr_Status result \<noteq> statusCanceled \<and>
                  mr_FinishReason result \<noteq> ''timeout'' then
                 (let result = result\<lparr>mr_Status := statusFailed,
                                     mr_FinishReason := ''memory_limit_exceeded''\<rparr> in
                  if mr_ErrorMessage result = [] then
                    result\<lparr>mr_ErrorMessage := ''model process exceeded cgroup memory limit''\<rparr>
                  else result)
               else result)
            else result);
          result = result\<lparr>mr_StderrTail := (case me_StderrTail env of Some t \<Rightarrow> t | None \<Rightarrow> [])\<rparr>
      in s\<lparr>ss_Result := result\<rparr>)"

definition conclude :: "model_env \<Rightarrow> bool \<Rightarrow> session \<Rightarrow> session" where
  "conclude env cg s = finishRunResult env cg (snd (waitProcess env s))"

section \<open>Configuring the simulator\<close>

definition config_lines :: "model_env \<Rightarrow> model_run_config \<Rightarrow> string list" where
  "config_lines env cfg =
     map (\<lambda>v. ''SET '' @ sv_Name v @ '' '' @ sv_Value v) (mc_SetVars cfg) @
     (case mc_StopRule cfg of
        None \<Rightarrow> []
      | Some r \<Rightarrow> [''RULE STOP '' @ sr_Left r @ '' '' @ sr_Op r @ '' '' @ sr_Right r]) @
     (if mc_Metrics cfg = [] then [] else [''METRIC '' @ join_with '';'' (mc_Metrics cfg)]) @
     (if f64_lt (Fin 0) (mc_MetricStep cfg)
      then [''METRIC_STEP '' @ me_FormatFloat env (mc_MetricStep cfg)] else []) @
     [''START'']"

fun write_lines :: "model_env \<Rightarrow> string list \<Rightarrow> session \<Rightarrow> string option \<times> session" where
  "write_lines env [] s = (None, s)"
| "write_lines env (l # ls) s =
     (case me_WriteErr env (length (ss_Sent s)) of
        Some err \<Rightarrow> (Some err, s)
      | None \<Rightarrow> write_lines env ls (s\<lparr>ss_Sent := ss_Sent s @ [l]\<rparr>))"

definition writeModelConfig ::
  "model_env \<Rightarrow> model_run_config \<Rightarrow> session \<Rightarrow> string option \<times> session" where
  "writeModelConfig env cfg s = write_lines env (config_lines env cfg) s"

fun waitReady :: "model_env \<Rightarrow> string list \<Rightarrow> session \<Rightarrow> (bool \<times> string list) \<times> session" where
  "waitReady env [] s =
     ((False, []),
      case me_ScanErr env of
        Some err \<Rightarrow> fail_run (msg [''read READY: '', err]) s
      | None \<Rightarrow> fail_run ''process closed stdout before READY'' s)"
| "waitReady env (l # lines) s =
     (let line = trim_space l in
      if line = [] then waitReady env lines s
      else if line = ''READY'' then ((True, lines), s)
      else if is_prefix ''ERR '' line then
        ((False, lines), fail_run (msg [''model returned '', line]) s)
      else ((False, lines), fail_run (msg [''unexpected line before READY: '', line]) s))"

section \<open>Reading the run\<close>

datatype reading =
    Broken session  \<comment> \<open>\<open>fail\<close> was called\<close>
  | Ended session  \<comment> \<open>an END line was read\<close>
  | Exhausted session  \<comment> \<open>the process closed its output\<close>

fun read_loop :: "model_env \<Rightarrow> model_run_config \<Rightarrow> string list \<Rightarrow> session \<Rightarrow> reading" where
  "read_loop env cfg [] s = Exhausted s"
| "read_loop env cfg (l # lines) s =
     (let line = trim_space l in
      if line = [] then read_loop env cfg lines s
      else if is_prefix ''STAT '' line then
        (case parseStatLine line of
           Inl err \<Rightarrow> Broken (fail_run (msg [''parse STAT: '', err]) s)
         | Inr stat \<Rightarrow>
             (let s1 = s\<lparr>ss_Result := (ss_Result s)\<lparr>mr_FinalMetrics := stat,
                            mr_StatCount := mr_StatCount (ss_Result s) + 1\<rparr>\<rparr>
              in case mc_Trace cfg of
                   None \<Rightarrow> read_loop env cfg lines s1
                 | Some metrics \<Rightarrow>
                     (case write_stat env metrics stat s1 of
                        Inl err \<Rightarrow> Broken (fail_run (msg [''write metrics csv: '', err]) s1)
                      | Inr s2 \<Rightarrow> read_loop env cfg lines s2)))
      else if is_prefix ''END'' line then
        Ended (s\<lparr>ss_Result := (ss_Result s)\<lparr>mr_FinishReason :=
                    trim_space (trim_prefix ''END'' line)\<rparr>\<rparr>)
      else if is_prefix ''ERR '' line then
        Broken (fail_run (msg [''model returned '', line]) s)
      else Broken (fail_run (msg [''unexpected model line: '', line]) s))"

text \<open>\<open>strings.EqualFold\<close> with a word of ASCII letters that have no other case variants.\<close>

definition equal_fold :: "string \<Rightarrow> string \<Rightarrow> bool" where
  "equal_fold s t \<longleftrightarrow> map ascii_lower s = map ascii_lower t"

definition after_wait :: "model_env \<Rightarrow> bool \<Rightarrow> bool \<Rightarrow> session \<Rightarrow> session" where
  "after_wait env cg receivedEnd s0 =
     (case waitProcess env s0 of (waitErr, s) \<Rightarrow>
      let result = ss_Result s;
          set_result = (\<lambda>r. finishRunResult env cg (s\<lparr>ss_Result := r\<rparr>)) in
      case me_Ctx env of
        CtxCanceled e \<Rightarrow>
          set_result (result\<lparr>mr_Status := statusCanceled, mr_FinishReason := ''user_canceled'',
                            mr_ErrorMessage := []\<rparr>)
      | CtxDeadline e \<Rightarrow>
          set_result (result\<lparr>mr_Status := statusFailed, mr_FinishReason := ''timeout'',
                            mr_ErrorMessage := e\<rparr>)
      | CtxOther e \<Rightarrow>
          set_result (result\<lparr>mr_Status := statusFailed, mr_ErrorMessage := e\<rparr>)
      | CtxLive \<Rightarrow>
          (if waitErr \<noteq> None \<and> mr_ErrorMessage result = [] then
             set_result (result\<lparr>mr_Status := statusFailed, mr_ErrorMessage := the waitErr\<rparr>)
           else if \<not> receivedEnd then
             (let result = result\<lparr>mr_Status := statusFailed\<rparr> in
              set_result (if mr_ErrorMessage result = []
                          then result\<lparr>mr_ErrorMessage := ''process finished without END''\<rparr>
                          else result))
           else if equal_fold (mr_FinishReason result) ''error'' then
             (let result = result\<lparr>mr_Status := statusFailed\<rparr> in
              set_result (if mr_ErrorMessage result = []
                          then result\<lparr>mr_ErrorMessage := ''model finished with error reason''\<rparr>
                          else result))
           else set_result (result\<lparr>mr_Status := statusFinished\<rparr>)))"

definition configured :: "model_env \<Rightarrow> model_run_config \<Rightarrow> bool \<Rightarrow> string list \<Rightarrow> session \<Rightarrow> session" where
  "configured env cfg cg lines s =
     (case waitReady env lines s of
        ((False, rest), s) \<Rightarrow> conclude env cg s
      | ((True, rest), s) \<Rightarrow>
          (case read_loop env cfg rest s of
             Broken s \<Rightarrow> conclude env cg s
           | Ended s \<Rightarrow> after_wait env cg True s
           | Exhausted s \<Rightarrow>
               (case me_ScanErr env of
                  Some err \<Rightarrow> conclude env cg (fail_run (msg [''read model stdout: '', err]) s)
                | None \<Rightarrow> after_wait env cg False s)))"

definition talk :: "model_env \<Rightarrow> model_run_config \<Rightarrow> bool \<Rightarrow> session \<Rightarrow> session" where
  "talk env cfg cg s =
     (case scanNonEmptyLine (me_Stdout env) of
        None \<Rightarrow>
          conclude env cg
            (case me_ScanErr env of
               Some err \<Rightarrow> fail_run (msg [''read HELLO: '', err]) s
             | None \<Rightarrow> fail_run ''process closed stdout before HELLO'' s)
      | Some (helloLine, lines) \<Rightarrow>
          (case parseHello helloLine of
             Inl err \<Rightarrow> conclude env cg (fail_run err s)
           | Inr helloHash \<Rightarrow>
               if helloHash \<noteq> mc_ModelHash cfg then
                 conclude env cg (fail_run
                   (msg [''model hash mismatch: expected '', mc_ModelHash cfg, '', got '', helloHash]) s)
               else
                 (case writeModelConfig env cfg s of
                    (Some err, s) \<Rightarrow>
                      conclude env cg (fail_run (msg [''write model config: '', err]) s)
                  | (None, s) \<Rightarrow>
                      (case me_FlushErr env of
                         Some err \<Rightarrow>
                           conclude env cg (fail_run (msg [''flush model config: '', err]) s)
                       | None \<Rightarrow> configured env cfg cg lines s))))"

definition run_model_process :: "model_env \<Rightarrow> model_run_config \<Rightarrow> session" where
  "run_model_process env cfg =
     (let result =
        \<lparr>mr_Status = statusFailed, mr_FinishReason = [], mr_ExitCode = -1, mr_ErrorMessage = [],
         mr_FinalMetrics = Map.empty, mr_StatCount = 0, mr_StartedAtUnixMS = 0,
         mr_FinishedAtUnixMS = 0, mr_DurationMS = 0,
         mr_MemoryLimitBytes = mc_MemoryLimitBytes cfg, mr_PeakMemoryBytes = 0,
         mr_StderrTail = []\<rparr>;
          s = \<lparr>ss_Result = result, ss_Killed = False, ss_Sent = [], ss_Rows = []\<rparr>;
          stop = (\<lambda>prefix err. s\<lparr>ss_Result := result\<lparr>mr_ErrorMessage := msg [prefix, err]\<rparr>\<rparr>);
          cg = (mc_CgroupEnabled cfg \<and> mc_MemoryLimitBytes cfg > 0);
          started = s\<lparr>ss_Result := result\<lparr>mr_StartedAtUnixMS := unix_milli (me_StartedAt env)\<rparr>\<rparr>
      in if cg \<and> me_CgroupErr env \<noteq> None then stop ''create cgroup: '' (the (me_CgroupErr env))
         else if me_StdinErr env \<noteq> None then stop ''stdin pipe: '' (the (me_StdinErr env))
         else if me_StdoutErr env \<noteq> None then stop ''stdout pipe: '' (the (me_StdoutErr env))
         else if me_StderrErr env \<noteq> None then stop ''stderr pipe: '' (the (me_StderrErr env))
         else if me_StartErr env \<noteq> None then stop ''start process: '' (the (me_StartErr env))
         else if cg \<and> me_AddProcessErr env \<noteq> None then
           conclude env cg (started\<lparr>
             ss_Result := (ss_Result started)\<lparr>mr_ErrorMessage :=
               msg [''add process to cgroup: '', the (me_AddProcessErr env)]\<rparr>,
             ss_Killed := True\<rparr>)
         else talk env cfg cg started)"

section \<open>The conversation\<close>

text \<open>The lines that count, and what a run of statistics lines leaves behind.\<close>

definition nonblank :: "string list \<Rightarrow> string list" where
  "nonblank ls = filter (\<lambda>l. l \<noteq> []) (map trim_space ls)"

lemma nonblank_Nil [simp]: "nonblank [] = []"
  by (simp add: nonblank_def)

lemma nonblank_Cons [simp]:
  "nonblank (l # ls) = (if trim_space l = [] then nonblank ls else trim_space l # nonblank ls)"
  by (simp add: nonblank_def)

definition stat_value :: "string \<Rightarrow> (string \<rightharpoonup> string)" where
  "stat_value l = (case parseStatLine l of Inr m \<Rightarrow> m | Inl _ \<Rightarrow> Map.empty)"

definition stats_ok :: "model_env \<Rightarrow> model_run_config \<Rightarrow> nat \<Rightarrow> string list \<Rightarrow> bool" where
  "stats_ok env cfg k stats \<longleftrightarrow>
     (\<forall>i < length stats. is_prefix ''STAT '' (stats ! i) \<and> (\<exists>m. parseStatLine (stats ! i) = Inr m) \<and>
        (mc_Trace cfg \<noteq> None \<longrightarrow> me_RowErr env (k + i) = None))"

definition after_stats :: "model_run_config \<Rightarrow> string list \<Rightarrow> session \<Rightarrow> session" where
  "after_stats cfg stats s =
     s\<lparr>ss_Result := (ss_Result s)\<lparr>
         mr_FinalMetrics := (if stats = [] then mr_FinalMetrics (ss_Result s) else stat_value (last stats)),
         mr_StatCount := mr_StatCount (ss_Result s) + of_nat (length stats)\<rparr>,
       ss_Rows := ss_Rows s @ (case mc_Trace cfg of None \<Rightarrow> []
         | Some metrics \<Rightarrow> map (\<lambda>l. trace_row metrics (stat_value l)) stats)\<rparr>"

definition with_reason :: "string \<Rightarrow> session \<Rightarrow> session" where
  "with_reason fin s = s\<lparr>ss_Result := (ss_Result s)\<lparr>mr_FinishReason :=
     trim_space (trim_prefix ''END'' fin)\<rparr>\<rparr>"

definition take_stat :: "model_run_config \<Rightarrow> string \<Rightarrow> session \<Rightarrow> session" where
  "take_stat cfg l s = after_stats cfg [l] s"

lemma after_stats_Nil [simp]: "after_stats cfg [] s = s"
  by (cases s; cases "ss_Result s") (simp add: after_stats_def split: option.split)

lemma after_stats_Cons: "after_stats cfg (l # stats) s = after_stats cfg stats (take_stat cfg l s)"
  by (simp add: take_stat_def after_stats_def split: option.split)

lemma stats_ok_Nil [simp]: "stats_ok env cfg k []"
  by (simp add: stats_ok_def)

lemma stats_ok_Cons:
  "stats_ok env cfg k (l # stats) \<longleftrightarrow>
     is_prefix ''STAT '' l \<and> (\<exists>m. parseStatLine l = Inr m) \<and>
     (mc_Trace cfg \<noteq> None \<longrightarrow> me_RowErr env k = None) \<and> stats_ok env cfg (Suc k) stats"
  by (auto simp: stats_ok_def All_less_Suc2)

lemma length_rows_take_stat:
  "length (ss_Rows (take_stat cfg l s)) = length (ss_Rows s) + (if mc_Trace cfg = None then 0 else 1)"
  by (simp add: take_stat_def after_stats_def split: option.split)

lemma stats_ok_rows:
  "mc_Trace cfg = None \<Longrightarrow> stats_ok env cfg k stats = stats_ok env cfg j stats"
  by (simp add: stats_ok_def)

text \<open>One line of the loop, as a case distinction.\<close>

lemma read_loop_stat:
  assumes "trim_space l = x" "x \<noteq> []" "is_prefix ''STAT '' x" "parseStatLine x = Inr m"
    and "mc_Trace cfg \<noteq> None \<longrightarrow> me_RowErr env (length (ss_Rows s)) = None"
  shows "read_loop env cfg (l # lines) s = read_loop env cfg lines (take_stat cfg x s)"
proof -
  have "stat_value x = m" using assms(4) by (simp add: stat_value_def)
  then show ?thesis
    using assms by (cases "mc_Trace cfg")
      (auto simp: Let_def write_stat_def take_stat_def after_stats_def)
qed

lemma read_loop_Ended:
  assumes "read_loop env cfg ls s = Ended s'"
  shows "\<exists>stats fin rest. nonblank ls = stats @ fin # rest \<and>
    stats_ok env cfg (length (ss_Rows s)) stats \<and> is_prefix ''END'' fin \<and>
    s' = with_reason fin (after_stats cfg stats s)"
  using assms
proof (induction ls arbitrary: s)
  case (Cons l ls)
  define x where "x = trim_space l"
  consider (blank) "x = []"
    | (stat) m where "x \<noteq> []" "is_prefix ''STAT '' x" "parseStatLine x = Inr m"
        "mc_Trace cfg \<noteq> None \<longrightarrow> me_RowErr env (length (ss_Rows s)) = None"
    | (fin) "x \<noteq> []" "\<not> is_prefix ''STAT '' x" "is_prefix ''END'' x"
    using Cons.prems
    by (fastforce simp: Let_def write_stat_def x_def split: if_splits sum.splits option.splits)
  then show ?case
  proof cases
    case blank
    with Cons show ?thesis by (simp add: x_def)
  next
    case stat
    with Cons.prems have "read_loop env cfg ls (take_stat cfg x s) = Ended s'"
      using read_loop_stat [OF x_def [symmetric] stat] by simp
    from Cons.IH [OF this] obtain stats fin rest where
      1: "nonblank ls = stats @ fin # rest" "is_prefix ''END'' fin"
        "s' = with_reason fin (after_stats cfg stats (take_stat cfg x s))"
      and ok: "stats_ok env cfg (length (ss_Rows (take_stat cfg x s))) stats" by blast
    have "stats_ok env cfg (Suc (length (ss_Rows s))) stats"
      using ok stats_ok_rows [of cfg env] by (cases "mc_Trace cfg = None") (auto simp: length_rows_take_stat)
    with stat have "stats_ok env cfg (length (ss_Rows s)) (x # stats)"
      by (auto simp: stats_ok_Cons)
    moreover have "nonblank (l # ls) = (x # stats) @ fin # rest" using 1(1) stat(1) by (simp add: x_def)
    ultimately show ?thesis using 1(2,3) after_stats_Cons by metis
  next
    case fin
    with Cons.prems have "s' = with_reason x (after_stats cfg [] s)"
      by (simp add: x_def with_reason_def)
    moreover have "nonblank (l # ls) = [] @ x # nonblank ls" using fin(1) by (simp add: x_def)
    ultimately show ?thesis using fin(3) stats_ok_Nil by metis
  qed
qed simp

lemma read_loop_complete:
  assumes "nonblank ls = stats @ fin # rest" "stats_ok env cfg (length (ss_Rows s)) stats"
    "is_prefix ''END'' fin"
  shows "read_loop env cfg ls s = Ended (with_reason fin (after_stats cfg stats s))"
  using assms
proof (induction ls arbitrary: s stats)
  case (Cons l ls)
  define x where "x = trim_space l"
  show ?case
  proof (cases "x = []")
    case True
    with Cons show ?thesis by (simp add: x_def)
  next
    case False
    then have nb: "x # nonblank ls = stats @ fin # rest" using Cons.prems(1) by (simp add: x_def)
    show ?thesis
    proof (cases stats)
      case Nil
      with nb have "fin = x" by simp
      moreover from this have "\<not> is_prefix ''STAT '' x" using Cons.prems(3) by (cases x) auto
      ultimately show ?thesis using Cons.prems(3) False Nil
        by (simp add: x_def [symmetric] with_reason_def)
    next
      case (Cons y ys)
      with nb have y: "y = x" "nonblank ls = ys @ fin # rest" by auto
      from Cons.prems(2) Cons y have st: "is_prefix ''STAT '' x" "\<exists>m. parseStatLine x = Inr m"
        "mc_Trace cfg \<noteq> None \<longrightarrow> me_RowErr env (length (ss_Rows s)) = None"
        "stats_ok env cfg (Suc (length (ss_Rows s))) ys"
        by (auto simp: stats_ok_Cons)
      have "stats_ok env cfg (length (ss_Rows (take_stat cfg x s))) ys"
        using st(4) stats_ok_rows [of cfg env] by (cases "mc_Trace cfg = None") (auto simp: length_rows_take_stat)
      from Cons.IH [OF y(2) this Cons.prems(3)] st(2) read_loop_stat [OF x_def [symmetric] False st(1) _ st(3)]
      show ?thesis using Cons y by (auto simp: after_stats_Cons)
    qed
  qed
qed simp

lemma scan_nonblank:
  "scanNonEmptyLine ls = Some (l, rest) \<Longrightarrow> nonblank ls = l # nonblank rest"
  by (induction ls rule: scanNonEmptyLine.induct) (auto simp: Let_def split: if_splits)

lemma scan_complete:
  "nonblank ls = l # xs \<Longrightarrow> \<exists>rest. scanNonEmptyLine ls = Some (l, rest) \<and> nonblank rest = xs"
  by (induction ls rule: scanNonEmptyLine.induct) (auto simp: Let_def split: if_splits)

lemma ready_nonblank:
  "waitReady env ls s = ((True, rest), s') \<Longrightarrow> s' = s \<and> nonblank ls = ''READY'' # nonblank rest"
  by (induction env ls s rule: waitReady.induct) (auto simp: Let_def split: if_splits)

lemma ready_complete:
  "nonblank ls = ''READY'' # xs \<Longrightarrow> \<exists>rest. waitReady env ls s = ((True, rest), s) \<and> nonblank rest = xs"
  by (induction env ls s rule: waitReady.induct) (auto simp: Let_def split: if_splits)

lemma write_lines_all:
  "write_lines env ls s = (None, s') \<longleftrightarrow>
     (\<forall>i < length ls. me_WriteErr env (length (ss_Sent s) + i) = None) \<and>
     s' = s\<lparr>ss_Sent := ss_Sent s @ ls\<rparr>"
  by (induction env ls s rule: write_lines.induct)
    (auto simp: All_less_Suc2 split: option.split)

lemma status_fail_run [simp]: "mr_Status (ss_Result (fail_run m s)) = statusFailed"
  by (simp add: fail_run_def)

lemma status_wait [simp]: "mr_Status (ss_Result (snd (waitProcess env s))) = mr_Status (ss_Result s)"
  by (simp add: waitProcess_def split: option.split)

lemma status_finishRunResult:
  "mr_Status (ss_Result (finishRunResult env cg s)) =
     (if cg \<and> me_OOMKilled env \<and> mr_Status (ss_Result s) \<noteq> statusCanceled \<and>
         mr_FinishReason (ss_Result s) \<noteq> ''timeout''
      then statusFailed else mr_Status (ss_Result s))"
  by (simp add: finishRunResult_def Let_def)

lemma conclude_not_finished:
  "mr_Status (ss_Result s) = statusFailed \<Longrightarrow> mr_Status (ss_Result (conclude env cg s)) = statusFailed"
  by (simp add: conclude_def status_finishRunResult)

lemma read_loop_Broken:
  "read_loop env cfg ls s = Broken s' \<Longrightarrow> mr_Status (ss_Result s') = statusFailed"
  by (induction env cfg ls s rule: read_loop.induct)
    (auto simp: Let_def split: if_splits sum.splits option.splits)

lemma ready_failed:
  "waitReady env ls s = ((False, rest), s') \<Longrightarrow> mr_Status (ss_Result s') = statusFailed"
  by (induction env ls s rule: waitReady.induct) (auto simp: Let_def split: if_splits option.splits)

text \<open>What the end of a complete conversation decides.\<close>

definition ends_well :: "model_env \<Rightarrow> bool \<Rightarrow> string \<Rightarrow> bool" where
  "ends_well env cg fin \<longleftrightarrow>
     me_Ctx env = CtxLive \<and> me_WaitErr env = None \<and>
     \<not> equal_fold (trim_space (trim_prefix ''END'' fin)) ''error'' \<and>
     \<not> (cg \<and> me_OOMKilled env \<and> trim_space (trim_prefix ''END'' fin) \<noteq> ''timeout'')"

lemma result_wait [simp]:
  "mr_FinishReason (ss_Result (snd (waitProcess env s))) = mr_FinishReason (ss_Result s)"
  "mr_ErrorMessage (ss_Result (snd (waitProcess env s))) = mr_ErrorMessage (ss_Result s)"
  "fst (waitProcess env s) = me_WaitErr env"
  by (simp_all add: waitProcess_def split: option.split)

lemma after_wait_Ended:
  assumes "mr_ErrorMessage (ss_Result s) = []"
  shows "mr_Status (ss_Result (after_wait env cg True (with_reason fin s))) = statusFinished \<longleftrightarrow>
    ends_well env cg fin"
proof -
  define s1 where "s1 = snd (waitProcess env (with_reason fin s))"
  have w: "waitProcess env (with_reason fin s) = (me_WaitErr env, s1)"
    by (simp add: s1_def prod_eq_iff)
  have 1: "mr_FinishReason (ss_Result s1) = trim_space (trim_prefix ''END'' fin)"
    "mr_ErrorMessage (ss_Result s1) = []"
    using assms by (simp_all add: s1_def, simp_all add: with_reason_def)
  show ?thesis
    using 1 by (cases "me_Ctx env")
      (auto simp: after_wait_def w Let_def status_finishRunResult ends_well_def)
qed

lemma after_wait_Exhausted:
  "mr_Status (ss_Result (after_wait env cg False s)) \<noteq> statusFinished"
  by (cases "waitProcess env s"; cases "me_Ctx env")
    (auto simp: after_wait_def Let_def status_finishRunResult)

section \<open>Properties\<close>

definition with_cgroup :: "model_run_config \<Rightarrow> bool" where
  "with_cgroup cfg \<longleftrightarrow> mc_CgroupEnabled cfg \<and> mc_MemoryLimitBytes cfg > 0"

definition launched :: "model_env \<Rightarrow> model_run_config \<Rightarrow> bool" where
  "launched env cfg \<longleftrightarrow>
     (with_cgroup cfg \<longrightarrow> me_CgroupErr env = None \<and> me_AddProcessErr env = None) \<and>
     me_StdinErr env = None \<and> me_StdoutErr env = None \<and> me_StderrErr env = None \<and>
     me_StartErr env = None"

definition told :: "model_env \<Rightarrow> model_run_config \<Rightarrow> bool" where
  "told env cfg \<longleftrightarrow>
     (\<forall>i < length (config_lines env cfg). me_WriteErr env i = None) \<and> me_FlushErr env = None"

definition started_session :: "model_env \<Rightarrow> model_run_config \<Rightarrow> session" where
  "started_session env cfg =
     \<lparr>ss_Result =
        \<lparr>mr_Status = statusFailed, mr_FinishReason = [], mr_ExitCode = -1, mr_ErrorMessage = [],
         mr_FinalMetrics = Map.empty, mr_StatCount = 0,
         mr_StartedAtUnixMS = unix_milli (me_StartedAt env),
         mr_FinishedAtUnixMS = 0, mr_DurationMS = 0,
         mr_MemoryLimitBytes = mc_MemoryLimitBytes cfg, mr_PeakMemoryBytes = 0,
         mr_StderrTail = []\<rparr>,
      ss_Killed = False, ss_Sent = [], ss_Rows = []\<rparr>"

lemma run_launched:
  "mr_Status (ss_Result (run_model_process env cfg)) = statusFinished \<Longrightarrow> launched env cfg"
  "launched env cfg \<Longrightarrow>
     run_model_process env cfg = talk env cfg (with_cgroup cfg) (started_session env cfg)"
  by (auto simp: run_model_process_def launched_def with_cgroup_def started_session_def Let_def
    conclude_not_finished split: if_splits)

lemma run_talked:
  assumes "launched env cfg" "told env cfg"
    "nonblank (me_Stdout env) = hello # ''READY'' # stats @ fin # rest"
    "parseHello hello = Inr (mc_ModelHash cfg)" "stats_ok env cfg 0 stats" "is_prefix ''END'' fin"
  shows "run_model_process env cfg =
    after_wait env (with_cgroup cfg) True (with_reason fin (after_stats cfg stats
      ((started_session env cfg)\<lparr>ss_Sent := config_lines env cfg\<rparr>)))"
proof -
  let ?s = "(started_session env cfg)\<lparr>ss_Sent := config_lines env cfg\<rparr>"
  from scan_complete [OF assms(3)] obtain r1 where
    r1: "scanNonEmptyLine (me_Stdout env) = Some (hello, r1)" "nonblank r1 = ''READY'' # stats @ fin # rest"
    by blast
  from ready_complete [OF r1(2)] obtain r2 where
    r2: "waitReady env r1 ?s = ((True, r2), ?s)" "nonblank r2 = stats @ fin # rest" by blast
  have "writeModelConfig env cfg (started_session env cfg) = (None, ?s)"
    using assms(2) by (simp add: writeModelConfig_def write_lines_all told_def started_session_def)
  moreover have "stats_ok env cfg (length (ss_Rows ?s)) stats"
    using assms(5) by (simp add: started_session_def)
  from read_loop_complete [OF r2(2) this assms(6)]
  have "read_loop env cfg r2 ?s = Ended (with_reason fin (after_stats cfg stats ?s))" .
  ultimately show ?thesis
    using assms(2) by (simp add: run_launched(2) [OF assms(1)] talk_def r1(1) assms(4) told_def
      configured_def r2(1))
qed

lemma run_finished_talked:
  assumes fin: "mr_Status (ss_Result (run_model_process env cfg)) = statusFinished"
  shows "told env cfg \<and> (\<exists>hello stats fin rest.
    nonblank (me_Stdout env) = hello # ''READY'' # stats @ fin # rest \<and>
    parseHello hello = Inr (mc_ModelHash cfg) \<and> stats_ok env cfg 0 stats \<and> is_prefix ''END'' fin)"
proof -
  let ?cg = "with_cgroup cfg" and ?s = "started_session env cfg"
  have neq: "statusFailed \<noteq> statusFinished" by simp
  note nf = conclude_not_finished [of _ env ?cg]
  from run_launched [of env cfg] fin
  have st: "mr_Status (ss_Result (talk env cfg ?cg ?s)) = statusFinished" by simp
  obtain hello r1 where r1: "scanNonEmptyLine (me_Stdout env) = Some (hello, r1)"
    using st by (cases "scanNonEmptyLine (me_Stdout env)")
      (auto simp: talk_def nf split: option.splits)
  have hash: "parseHello hello = Inr (mc_ModelHash cfg)"
    using st r1 by (auto simp: talk_def nf split: sum.splits if_splits)
  obtain s1 where w: "writeModelConfig env cfg ?s = (None, s1)" "me_FlushErr env = None"
    and st1: "mr_Status (ss_Result (configured env cfg ?cg r1 s1)) = statusFinished"
    using st r1 hash by (auto simp: talk_def nf split: prod.splits option.splits)
  have rows: "ss_Rows s1 = []" and told: "told env cfg"
    using w by (auto simp: writeModelConfig_def write_lines_all told_def started_session_def)
  obtain r2 where r2: "waitReady env r1 s1 = ((True, r2), s1)" "nonblank r1 = ''READY'' # nonblank r2"
  proof -
    obtain b r s2 where b: "waitReady env r1 s1 = ((b, r), s2)" by (metis surj_pair)
    have b using st1 b ready_failed [of env r1 s1 r s2] nf
      by (cases b) (auto simp: configured_def)
    with b ready_nonblank show ?thesis by (auto intro: that)
  qed
  obtain s2 where "read_loop env cfg r2 s1 = Ended s2"
    using st1 r2(1) read_loop_Broken [of env cfg r2 s1] nf after_wait_Exhausted [of env ?cg]
    by (cases "read_loop env cfg r2 s1") (auto simp: configured_def split: option.splits)
  from read_loop_Ended [OF this] rows obtain stats fin rest where
    "nonblank r2 = stats @ fin # rest" "stats_ok env cfg 0 stats" "is_prefix ''END'' fin"
    by auto
  with told hash r2(2) scan_nonblank [OF r1] show ?thesis by auto
qed

text \<open>
  C1. An experiment is reported FINISHED exactly when the whole conversation went well: the
  process started (in its cgroup, if it has one), greeted with the hash of the model that was
  asked for, took the whole configuration, answered READY, printed only well-formed
  statistics (each written to the metrics file, if there is one) and then END with a reason
  other than error, and ended by itself, without a cancellation, a timeout, an exit error or
  the memory limit.
\<close>

theorem finished_exactly_when:
  "mr_Status (ss_Result (run_model_process env cfg)) = statusFinished \<longleftrightarrow>
     launched env cfg \<and> told env cfg \<and>
     (\<exists>hello stats fin rest. nonblank (me_Stdout env) = hello # ''READY'' # stats @ fin # rest \<and>
        parseHello hello = Inr (mc_ModelHash cfg) \<and> stats_ok env cfg 0 stats \<and>
        is_prefix ''END'' fin \<and> ends_well env (with_cgroup cfg) fin)"
proof -
  have msg0: "mr_ErrorMessage (ss_Result (after_stats cfg stats
      ((started_session env cfg)\<lparr>ss_Sent := config_lines env cfg\<rparr>))) = []" for stats
    by (simp add: after_stats_def started_session_def)
  show ?thesis
  proof
    assume fin: "mr_Status (ss_Result (run_model_process env cfg)) = statusFinished"
    from run_finished_talked [OF fin] obtain hello stats e rest where
      told: "told env cfg" and t: "nonblank (me_Stdout env) = hello # ''READY'' # stats @ e # rest"
      "parseHello hello = Inr (mc_ModelHash cfg)" "stats_ok env cfg 0 stats" "is_prefix ''END'' e"
      by blast
    from fin have "ends_well env (with_cgroup cfg) e"
      unfolding run_talked [OF run_launched(1) [OF fin] told t] after_wait_Ended [OF msg0] .
    with run_launched(1) [OF fin] told t show "launched env cfg \<and> told env cfg \<and>
     (\<exists>hello stats fin rest. nonblank (me_Stdout env) = hello # ''READY'' # stats @ fin # rest \<and>
        parseHello hello = Inr (mc_ModelHash cfg) \<and> stats_ok env cfg 0 stats \<and>
        is_prefix ''END'' fin \<and> ends_well env (with_cgroup cfg) fin)" by blast
  next
    assume "launched env cfg \<and> told env cfg \<and>
     (\<exists>hello stats fin rest. nonblank (me_Stdout env) = hello # ''READY'' # stats @ fin # rest \<and>
        parseHello hello = Inr (mc_ModelHash cfg) \<and> stats_ok env cfg 0 stats \<and>
        is_prefix ''END'' fin \<and> ends_well env (with_cgroup cfg) fin)"
    then obtain hello stats e rest where l: "launched env cfg" "told env cfg"
      and t: "nonblank (me_Stdout env) = hello # ''READY'' # stats @ e # rest"
      "parseHello hello = Inr (mc_ModelHash cfg)" "stats_ok env cfg 0 stats" "is_prefix ''END'' e"
      and w: "ends_well env (with_cgroup cfg) e" by blast
    show "mr_Status (ss_Result (run_model_process env cfg)) = statusFinished"
      unfolding run_talked [OF l t] after_wait_Ended [OF msg0] by (rule w)
  qed
qed

lemma finishRunResult_keeps [keeps]:
  "ss_Rows (finishRunResult env cg s) = ss_Rows s"
  "ss_Sent (finishRunResult env cg s) = ss_Sent s"
  "mr_StatCount (ss_Result (finishRunResult env cg s)) = mr_StatCount (ss_Result s)"
  "mr_FinalMetrics (ss_Result (finishRunResult env cg s)) = mr_FinalMetrics (ss_Result s)"
  by (simp_all add: finishRunResult_def Let_def)

lemma after_wait_keeps [keeps]:
  "ss_Rows (after_wait env cg e s) = ss_Rows s"
  "ss_Sent (after_wait env cg e s) = ss_Sent s"
  "mr_StatCount (ss_Result (after_wait env cg e s)) = mr_StatCount (ss_Result s)"
  "mr_FinalMetrics (ss_Result (after_wait env cg e s)) = mr_FinalMetrics (ss_Result s)"
  by (cases "me_Ctx env"; auto simp: after_wait_def waitProcess_def keeps Let_def split: option.split)+

text \<open>
  The result of a FINISHED run is what the simulator printed: it was sent exactly the
  configuration, the final metrics are those of its last statistics line (none, if it printed
  none), the count is the number of these lines, and the metrics file has one row per line
  with the columns of the requested metrics.
\<close>

theorem finished_results:
  assumes "mr_Status (ss_Result (run_model_process env cfg)) = statusFinished"
  shows "\<exists>hello stats fin rest. nonblank (me_Stdout env) = hello # ''READY'' # stats @ fin # rest \<and>
    ss_Sent (run_model_process env cfg) = config_lines env cfg \<and>
    mr_StatCount (ss_Result (run_model_process env cfg)) = of_nat (length stats) \<and>
    mr_FinalMetrics (ss_Result (run_model_process env cfg)) =
      (if stats = [] then Map.empty else stat_value (last stats)) \<and>
    ss_Rows (run_model_process env cfg) = (case mc_Trace cfg of None \<Rightarrow> []
      | Some metrics \<Rightarrow> map (\<lambda>l. trace_row metrics (stat_value l)) stats)"
proof -
  from run_finished_talked [OF assms] obtain hello stats fin rest where
    told: "told env cfg" and t: "nonblank (me_Stdout env) = hello # ''READY'' # stats @ fin # rest"
    "parseHello hello = Inr (mc_ModelHash cfg)" "stats_ok env cfg 0 stats" "is_prefix ''END'' fin"
    by blast
  show ?thesis
    unfolding run_talked [OF run_launched(1) [OF assms] told t]
    by (intro exI [of _ hello] exI [of _ stats] exI [of _ fin] exI [of _ rest])
      (simp add: t(1) keeps, simp add: with_reason_def after_stats_def started_session_def
        split: option.split)
qed

definition sample_hash :: string where
  "sample_hash = replicate 64 (CHR ''a'')"

definition sample_env :: model_env where
  "sample_env =
     \<lparr>me_CgroupErr = None, me_StdinErr = None, me_StdoutErr = None, me_StderrErr = None,
      me_StartErr = None, me_AddProcessErr = None,
      me_Stdout = [''HELLO '' @ sample_hash, ''READY'', ''STAT Simulation.clock=1;q=3'', ''END stop''],
      me_ScanErr = None, me_WriteErr = (\<lambda>_. None), me_FlushErr = None, me_RowErr = (\<lambda>_. None),
      me_ExitCode = Some 0, me_WaitErr = None, me_Ctx = CtxLive, me_StartedAt = unix_epoch,
      me_FinishedAt = unix_epoch, me_OOMKilled = False, me_PeakMemory = 0, me_StderrTail = None,
      me_FormatFloat = (\<lambda>_. [])\<rparr>"

definition sample_config :: model_run_config where
  "sample_config =
     \<lparr>mc_ExperimentID = ''e1'', mc_ModelHash = sample_hash, mc_BinaryPath = ''/m'', mc_SetVars = [],
      mc_StopRule = None, mc_Metrics = [''Simulation.clock''], mc_MetricStep = Fin 0,
      mc_Trace = Some [''q''], mc_MemoryLimitBytes = 0, mc_CgroupEnabled = False,
      mc_CgroupRoot = [], mc_CgroupParent = []\<rparr>"

lemma sample_finishes:
  "mr_Status (ss_Result (run_model_process sample_env sample_config)) = statusFinished"
  by code_simp

theorem finished_results_witness:
  "ss_Sent (run_model_process sample_env sample_config) = [''METRIC Simulation.clock'', ''START'']"
proof -
  have "config_lines sample_env sample_config = [''METRIC Simulation.clock'', ''START'']"
    by (simp add: config_lines_def sample_config_def)
  with finished_results [OF sample_finishes] show ?thesis by (elim exE conjE) simp
qed

end
