(* ===== verification/Dispatcher_Server.thy ===== *)
theory Dispatcher_Server
  imports Model_Process
begin

text \<open>
  The dispatcher's service (dispatcher/server.go), the execution of one experiment
  (dispatcher/run.go), the cache of model binaries (dispatcher/model_cache.go), the object
  keys (dispatcher/store_s3.go) and the node status (dispatcher/serve.go). A worker takes a
  task, runs it, finishes it in the registry and submits the result to the reporter.
\<close>

section \<open>Paths\<close>

text \<open>\<open>path.Clean\<close> on slash-separated paths, as a stack of elements.\<close>

fun clean_elems :: "bool \<Rightarrow> string list \<Rightarrow> string list \<Rightarrow> string list" where
  "clean_elems rooted acc [] = rev acc"
| "clean_elems rooted acc (x # xs) =
     (if x = [] \<or> x = ''.'' then clean_elems rooted acc xs
      else if x = ''..'' then
        (case acc of
           [] \<Rightarrow> clean_elems rooted (if rooted then [] else [''..'']) xs
         | a # as \<Rightarrow> if a = ''..'' then clean_elems rooted (''..'' # acc) xs
                     else clean_elems rooted as xs)
      else clean_elems rooted (x # acc) xs)"

definition path_clean :: "string \<Rightarrow> string" where
  "path_clean p =
     (let rooted = is_prefix ''/'' p;
          body = join_with ''/'' (clean_elems rooted [] (split_byte (CHR ''/'') p))
      in if rooted then ''/'' @ body else if body = [] then ''.'' else body)"

definition file_join :: "string list \<Rightarrow> string" where
  "file_join parts =
     (let ps = filter (\<lambda>p. p \<noteq> []) parts in
      if ps = [] then [] else path_clean (join_with ''/'' ps))"

definition normalizeS3ObjectKey :: "string \<Rightarrow> string + string" where
  "normalizeS3ObjectKey key0 =
     (let key = path_clean (trim_prefix ''/'' (replace_byte (CHR 0x5C) (CHR ''/'') key0)) in
      if key = ''.'' \<or> key = [] then Inl ''empty s3 object key''
      else if key = ''..'' \<or> is_prefix ''../'' key then Inl (msg [''unsafe s3 object key '', quoted key])
      else Inr key)"

definition objectKeyForWrite :: "string \<Rightarrow> string \<Rightarrow> string + string" where
  "objectKeyForWrite storePrefix key =
     bindE (normalizeS3ObjectKey key)
       (\<lambda>cleanKey. Inr (if storePrefix = [] then cleanKey else storePrefix @ ''/'' @ cleanKey))"

section \<open>The cache of model binaries (model_cache.go)\<close>

record cached_model =
  cm_ModelHash :: string
  cm_BinaryKey :: string
  cm_BinarySHA256 :: string
  cm_LocalPath :: string
  cm_DownloadedAt :: instant
  cm_LastUsedAt :: instant

record model_cache =
  ca_workDir :: string
  ca_models :: "string \<rightharpoonup> cached_model"

text \<open>What the file system and the object store answer to one call.\<close>

record cache_env =
  ce_Now :: instant
  ce_FileExists :: "string \<Rightarrow> bool"
  ce_MkdirErr :: "string option"
  ce_GetFile :: "string \<Rightarrow> string \<Rightarrow> string \<Rightarrow> string + artifact_ref"
  ce_ChmodErr :: "string option"
  ce_GOOS :: string

definition get_or_download ::
  "cache_env \<Rightarrow> string \<Rightarrow> string \<Rightarrow> string \<Rightarrow> model_cache \<Rightarrow>
   (string + cached_model) \<times> model_cache" where
  "get_or_download env modelHash binaryKey binarySHA256 c =
     (if modelHash = [] then (Inl ''empty model hash'', c)
      else if binaryKey = [] then (Inl ''empty binary key'', c)
      else
        (let expectedSHA = map ascii_lower (trim_space binarySHA256);
             use = (\<lambda>cached. (let cached = cached\<lparr>cm_LastUsedAt := ce_Now env\<rparr> in
                      (Inr cached, c\<lparr>ca_models := (ca_models c)(modelHash \<mapsto> cached)\<rparr>)));
             hit = (case ca_models c modelHash of
                None \<Rightarrow> None
              | Some cached \<Rightarrow>
                  if cm_LocalPath cached \<noteq> [] \<and> ce_FileExists env (cm_LocalPath cached) \<and>
                     (expectedSHA \<noteq> [] \<and> equal_fold (cm_BinarySHA256 cached) expectedSHA \<or>
                      expectedSHA = [] \<and> cm_BinaryKey cached = binaryKey)
                  then Some cached else None)
         in case hit of
              Some cached \<Rightarrow> use cached
            | None \<Rightarrow>
                (let modelDir = file_join [ca_workDir c, ''models'', safePathName modelHash];
                     localPath = file_join [modelDir, modelBinaryFileName (ce_GOOS env)]
                 in case ce_MkdirErr env of
                      Some err \<Rightarrow> (Inl err, c)
                    | None \<Rightarrow>
                        (case ce_GetFile env binaryKey localPath expectedSHA of
                           Inl err \<Rightarrow> (Inl err, c)
                         | Inr ref \<Rightarrow>
                             (let cached =
                                \<lparr>cm_ModelHash = modelHash, cm_BinaryKey = binaryKey,
                                 cm_BinarySHA256 = ar_Sha256 ref, cm_LocalPath = localPath,
                                 cm_DownloadedAt = ce_Now env, cm_LastUsedAt = ce_Now env\<rparr>;
                                  c = c\<lparr>ca_models := (ca_models c)(modelHash \<mapsto> cached)\<rparr>
                              in case ce_ChmodErr env of
                                   Some err \<Rightarrow> (Inl err, c)
                                 | None \<Rightarrow> (Inr cached, c))))))"

definition cache_len :: "model_cache \<Rightarrow> nat" where
  "cache_len c = card (dom (ca_models c))"

section \<open>Executing an experiment (run.go)\<close>

record execute_env =
  ee_MkdirErr :: "string option"
  ee_Cache :: cache_env
  ee_CtxAtPrepare :: ctx_state
  ee_TraceErr :: "string option"
  ee_Model :: model_env
  ee_CloseErr :: "string option"
  ee_PutFile :: "string \<Rightarrow> string + artifact_ref"

definition executeExperiment ::
  "execute_env \<Rightarrow> run_config \<Rightarrow> model_cache \<Rightarrow> experiment_result \<times> model_cache" where
  "executeExperiment env cfg cache =
     (let result = empty_result
        \<lparr>rs_ExperimentID := cf_ExperimentID cfg, rs_ModelHash := cf_ModelHash cfg,
         rs_Status := statusFailed, rs_ExitCode := -1, rs_FinalMetrics := Map.empty,
         rs_MemoryLimitBytes := cf_MemoryLimitBytes cfg, rs_PeakMemoryBytes := 0\<rparr>;
        failed = (\<lambda>err. result\<lparr>rs_ErrorMessage := err\<rparr>) in
      case parseVarOverrides (cf_SetFlags cfg) of Inl err \<Rightarrow> (failed err, cache) | Inr setVars \<Rightarrow>
      (case parseStopRule (cf_StopRuleRaw cfg) of Inl err \<Rightarrow> (failed err, cache) | Inr stopRule \<Rightarrow>
      (let runtimeMetrics = normalizeMetrics (cf_MetricsRaw cfg);
           experimentDir = file_join [cf_WorkDir cfg, ''experiments'',
             safePathName (cf_ModelHash cfg), safePathName (cf_ExperimentID cfg)] in
      case ee_MkdirErr env of Some err \<Rightarrow> (failed err, cache) | None \<Rightarrow>
      (case normalizeS3ObjectKey (cf_BinaryKey cfg) of Inl err \<Rightarrow> (failed err, cache) | Inr binaryKey \<Rightarrow>
      (case get_or_download (ee_Cache env) (cf_ModelHash cfg) binaryKey (cf_BinarySHA256 cfg) cache of
         (Inl err, cache) \<Rightarrow>
           ((case ee_CtxAtPrepare env of
               CtxCanceled _ \<Rightarrow>
                 result\<lparr>rs_Status := statusCanceled, rs_FinishReason := ''user_canceled'',
                        rs_ErrorMessage := []\<rparr>
             | CtxDeadline _ \<Rightarrow>
                 result\<lparr>rs_Status := statusFailed, rs_FinishReason := ''timeout'',
                        rs_ErrorMessage := msg [''prepare binary: '', err]\<rparr>
             | _ \<Rightarrow> failed (msg [''prepare binary: '', err])), cache)
       | (Inr cachedModel, cache) \<Rightarrow>
           (if cf_StoreMetrics cfg \<and> ee_TraceErr env \<noteq> None then
              (failed (msg [''create metrics csv: '', the (ee_TraceErr env)]), cache)
            else
              (let s = run_model_process (ee_Model env)
                 \<lparr>mc_ExperimentID = cf_ExperimentID cfg, mc_ModelHash = cf_ModelHash cfg,
                  mc_BinaryPath = cm_LocalPath cachedModel, mc_SetVars = setVars,
                  mc_StopRule = stopRule, mc_Metrics = runtimeMetrics,
                  mc_MetricStep = cf_MetricStep cfg,
                  mc_Trace = (if cf_StoreMetrics cfg then Some runtimeMetrics else None),
                  mc_MemoryLimitBytes = cf_MemoryLimitBytes cfg,
                  mc_CgroupEnabled = cf_CgroupEnabled cfg, mc_CgroupRoot = cf_CgroupRoot cfg,
                  mc_CgroupParent = cf_CgroupParent cfg\<rparr>;
                   runResult = ss_Result s;
                   result = result
                     \<lparr>rs_Status := mr_Status runResult, rs_FinishReason := mr_FinishReason runResult,
                      rs_ExitCode := mr_ExitCode runResult,
                      rs_ErrorMessage := mr_ErrorMessage runResult,
                      rs_FinalMetrics := mr_FinalMetrics runResult,
                      rs_StatCount := mr_StatCount runResult,
                      rs_StartedAtUnixMS := mr_StartedAtUnixMS runResult,
                      rs_FinishedAtUnixMS := mr_FinishedAtUnixMS runResult,
                      rs_DurationMS := mr_DurationMS runResult,
                      rs_MemoryLimitBytes := mr_MemoryLimitBytes runResult,
                      rs_PeakMemoryBytes := mr_PeakMemoryBytes runResult,
                      rs_StderrTail := mr_StderrTail runResult\<rparr>
               in ((if cf_StoreMetrics cfg then
                      (let result = result\<lparr>rs_MetricsFileRows := of_nat (length (ss_Rows s))\<rparr> in
                       case ee_CloseErr env of
                         Some err \<Rightarrow> appendResultError (msg [''close metrics csv: '', err]) result
                       | None \<Rightarrow>
                           (case ee_PutFile env (''models/'' @ cf_ModelHash cfg @ ''/experiments/'' @
                                   cf_ExperimentID cfg @ ''/metrics.csv'') of
                              Inl err \<Rightarrow> appendResultError (msg [''upload metrics csv: '', err]) result
                            | Inr ref \<Rightarrow> result\<lparr>rs_MetricsArtifact := Some ref\<rparr>))
                    else result), cache))))))))"

section \<open>The service (server.go)\<close>

record serve_config =
  vc_NodeID :: string
  vc_AdvertiseAddr :: string
  vc_base :: run_config

text \<open>A task is the run context (a timeout, or none) with the configuration.\<close>

type_synonym experiment_task = "duration option \<times> run_config"

definition rejectedStart :: "start_request \<Rightarrow> string \<Rightarrow> string \<Rightarrow> start_response" where
  "rejectedStart req code message =
     \<lparr>sp_Accepted = False, sp_ModelHash = sq_ModelHash req, sp_ExperimentId = sq_ExperimentId req,
      sp_Status = statusFailed, sp_ErrorCode = code, sp_Message = message\<rparr>"

fun pbSetVarsToDomain :: "set_var option list \<Rightarrow> set_var list" where
  "pbSetVarsToDomain [] = []"
| "pbSetVarsToDomain (v # vs) =
     (case v of
        None \<Rightarrow> pbSetVarsToDomain vs
      | Some v \<Rightarrow> \<lparr>sv_Name = sv_Name v, sv_Value = sv_Value v\<rparr> # pbSetVarsToDomain vs)"

definition pbStopRuleToDomain :: "stop_rule option \<Rightarrow> stop_rule option" where
  "pbStopRuleToDomain value =
     (case value of
        None \<Rightarrow> None
      | Some v \<Rightarrow>
          (let left = trim_space (sr_Left v); op = trim_space (sr_Op v); right = trim_space (sr_Right v)
           in if left = [] \<and> op = [] \<and> right = [] then None
              else Some \<lparr>sr_Left = left, sr_Op = op, sr_Right = right\<rparr>))"

text \<open>
  \<open>StartExperiment\<close>: \<open>cancel\<close> is the cancel function of the new context and \<open>ended\<close> the
  error of the request's context if it ends before a worker takes the task.
\<close>

definition start_experiment ::
  "serve_config \<Rightarrow> 'c \<Rightarrow> string option \<Rightarrow> start_request \<Rightarrow> 'c registry \<Rightarrow>
   (start_response \<times> experiment_task option) \<times> 'c registry" where
  "start_experiment scfg cancel ended req r =
     (let reject = (\<lambda>code message. (rejectedStart req code message, None));
          h = sq_ModelHash req; e = sq_ExperimentId req in
      if h = [] then (reject ''bad_request'' ''empty model_hash'', r)
      else if e = [] then (reject ''bad_request'' ''empty experiment_id'', r)
      else if length h \<noteq> 64 \<or> \<not> isHex h then
        (reject ''bad_request'' ''model_hash must be 64 hex characters'', r)
      else
        (case sq_Binary req of
           None \<Rightarrow> (reject ''bad_request'' ''empty binary key'', r)
         | Some bin \<Rightarrow>
             if ba_Key bin = [] then (reject ''bad_request'' ''empty binary key'', r)
             else if ba_Sha256 bin \<noteq> [] \<and> (length (ba_Sha256 bin) \<noteq> 64 \<or> \<not> isHex (ba_Sha256 bin)) then
               (reject ''bad_request'' ''binary sha256 must be 64 hex characters'', r)
             else
               (case try_start h e (sq_MemoryLimitBytes req) r of
                  ((None, code, why), r) \<Rightarrow> (reject code why, r)
                | ((Some record, code, why), r) \<Rightarrow>
                    (let runCtx = (if sq_RunTimeoutMs req > 0 then Some (millis (sq_RunTimeoutMs req))
                                   else None);
                         r = set_cancel h e cancel r;
                         cfg = configFromStartRequest h e
                           \<lparr>ba_Key = ba_Key bin, ba_Sha256 = ba_Sha256 bin\<rparr>
                           (pbSetVarsToDomain (sq_SetVars req)) (pbStopRuleToDomain (sq_StopRule req))
                           (sq_Metrics req) (sq_MetricStep req) (sq_StoreMetrics req)
                           (sq_MemoryLimitBytes req) (sq_RunTimeoutMs req) (vc_base scfg)
                     in case ended of
                          None \<Rightarrow>
                            ((\<lparr>sp_Accepted = True, sp_ModelHash = k_ModelHash (er_Key record),
                               sp_ExperimentId = k_ExperimentID (er_Key record),
                               sp_Status = statusStarting, sp_ErrorCode = [],
                               sp_Message = ''experiment accepted''\<rparr>, Some (runCtx, cfg)), r)
                        | Some err \<Rightarrow>
                            (reject ''request_canceled'' err,
                             snd (finish_experiment h e (empty_result
                               \<lparr>rs_ModelHash := h, rs_ExperimentID := e, rs_Status := statusFailed,
                                rs_ExitCode := -1, rs_ErrorMessage := err,
                                rs_MemoryLimitBytes := sq_MemoryLimitBytes req\<rparr>) r))))))"

text \<open>One task of a worker; the result is what it submits to the reporter.\<close>

definition run_experiment_task ::
  "execute_env \<Rightarrow> experiment_task \<Rightarrow> 'c registry \<Rightarrow> model_cache \<Rightarrow>
   experiment_result \<times> 'c registry \<times> model_cache" where
  "run_experiment_task env task r cache =
     (let cfg = snd task;
          r = set_status (cf_ModelHash cfg) (cf_ExperimentID cfg) statusRunning r in
      case executeExperiment env cfg cache of (result, cache) \<Rightarrow>
        (case finish_experiment (cf_ModelHash cfg) (cf_ExperimentID cfg) result r of
           (finalResult, r) \<Rightarrow> (finalResult, r, cache)))"

definition stop_experiment ::
  "string \<Rightarrow> string \<Rightarrow> 'c registry \<Rightarrow> stop_response \<times> 'c list \<times> 'c registry" where
  "stop_experiment h e r =
     (case cancel_experiment h e r of ((stopped, message), called, r) \<Rightarrow>
        (\<lparr>so_Stopped = stopped, so_ModelHash = h, so_ExperimentId = e,
          so_Status = (if \<not> stopped then statusFailed else statusCanceled), so_Message = message\<rparr>,
         called, r))"

definition artifactRefToPB :: "artifact_ref option \<Rightarrow> artifact_ref option" where
  "artifactRefToPB ref =
     (case ref of
        None \<Rightarrow> None
      | Some a \<Rightarrow> Some \<lparr>ar_Key = ar_Key a, ar_Sha256 = ar_Sha256 a, ar_Size = ar_Size a,
                        ar_ContentType = ar_ContentType a\<rparr>)"

text \<open>\<open>int32(result.ExitCode)\<close> keeps the low 32 bits.\<close>

definition to_int32 :: "int \<Rightarrow> int" where
  "to_int32 n = sint (word_of_int n :: 32 word)"

definition experimentResultToPB :: "experiment_result \<Rightarrow> experiment_status" where
  "experimentResultToPB result =
     \<lparr>es_ModelHash = rs_ModelHash result, es_ExperimentId = rs_ExperimentID result,
      es_Status = rs_Status result, es_FinishReason = rs_FinishReason result,
      es_ExitCode = to_int32 (rs_ExitCode result), es_ErrorMessage = rs_ErrorMessage result,
      es_FinalMetrics = rs_FinalMetrics result, es_StatCount = rs_StatCount result,
      es_MetricsFileRows = rs_MetricsFileRows result,
      es_MetricsArtifact = artifactRefToPB (rs_MetricsArtifact result),
      es_StartedAtUnixMs = rs_StartedAtUnixMS result,
      es_FinishedAtUnixMs = rs_FinishedAtUnixMS result, es_DurationMs = rs_DurationMS result,
      es_MemoryLimitBytes = rs_MemoryLimitBytes result,
      es_PeakMemoryBytes = rs_PeakMemoryBytes result, es_StderrTail = rs_StderrTail result\<rparr>"

definition get_experiment_status ::
  "string \<Rightarrow> string \<Rightarrow> 'c registry \<Rightarrow> string + experiment_status" where
  "get_experiment_status h e r =
     (case get_experiment h e r of (result, ok) \<Rightarrow>
        if \<not> ok then Inl (msg [''experiment not found: '', h, ''/'', e])
        else Inr (experimentResultToPB result))"

definition list_experiment_statuses ::
  "experiment_key list \<Rightarrow> string \<Rightarrow> 'c registry \<Rightarrow> experiment_status list" where
  "list_experiment_statuses order status r = map experimentResultToPB (list_experiments order status r)"

definition nodeStatus ::
  "serve_config \<Rightarrow> string \<Rightarrow> string \<Rightarrow> experiment_key list \<Rightarrow> 'c registry \<Rightarrow> model_cache \<Rightarrow> node_status" where
  "nodeStatus cfg goos goarch order r cache =
     (let snap = snapshot order r in
      \<lparr>ns_NodeId = vc_NodeID cfg, ns_Address = vc_AdvertiseAddr cfg, ns_RuntimeGoos = goos,
       ns_RuntimeGoarch = goarch, ns_TotalSlots = snap_TotalSlots snap,
       ns_UsedSlots = snap_UsedSlots snap, ns_TotalMemoryBytes = snap_TotalMemoryBytes snap,
       ns_ReservedMemoryBytes = snap_ReservedMemoryBytes snap,
       ns_ActiveExperiments = snap_ActiveExperiments snap,
       ns_CachedModels = of_nat (cache_len cache)\<rparr>)"

section \<open>Object keys\<close>

text \<open>Cleaning leaves \<open>..\<close> only in front, and none under a root.\<close>

definition plain :: "string list \<Rightarrow> bool" where
  "plain xs \<longleftrightarrow> (\<forall>x \<in> set xs. x \<noteq> ''..'' \<and> x \<noteq> [] \<and> CHR ''/'' \<notin> set x)"

lemma clean_elems_shape:
  "\<exists>as n. acc = as @ replicate n ''..'' \<and> plain as \<and> (rooted \<longrightarrow> n = 0) \<Longrightarrow>
   \<forall>x \<in> set xs. CHR ''/'' \<notin> set x \<Longrightarrow>
   \<exists>bs n. clean_elems rooted acc xs = replicate n ''..'' @ bs \<and> plain bs \<and> (rooted \<longrightarrow> n = 0)"
proof (induction rooted acc xs rule: clean_elems.induct)
  case (1 rooted acc)
  then obtain as n where "acc = as @ replicate n ''..''" "plain as" "rooted \<longrightarrow> n = 0" by blast
  then have "clean_elems rooted acc [] = replicate n ''..'' @ rev as" "plain (rev as)"
    by (simp_all add: plain_def)
  with \<open>rooted \<longrightarrow> n = 0\<close> show ?case by blast
next
  case (2 rooted acc x xs)
  from "2.prems" obtain as n where acc: "acc = as @ replicate n ''..''" "plain as" "rooted \<longrightarrow> n = 0"
    by blast
  have xs: "\<forall>y \<in> set xs. CHR ''/'' \<notin> set y" and x: "CHR ''/'' \<notin> set x" using "2.prems"(2) by auto
  consider (skip) "x = [] \<or> x = ''.''" | (up) "x = ''..''"
    | (push) "x \<noteq> []" "x \<noteq> ''.''" "x \<noteq> ''..''" by blast
  then show ?case
  proof cases
    case skip
    with "2.IH"(1) "2.prems"(1) xs show ?thesis by auto
  next
    case push
    have "\<exists>as' m. x # acc = as' @ replicate m ''..'' \<and> plain as' \<and> (rooted \<longrightarrow> m = 0)"
      using acc x push by (intro exI [of _ "x # as"] exI [of _ n]) (auto simp: plain_def)
    with "2.IH"(5) push xs show ?thesis by auto
  next
    case up
    then have nx: "\<not> (x = [] \<or> x = ''.'')" by simp
    show ?thesis
    proof (cases as)
      case Nil
      show ?thesis
      proof (cases n)
        case 0
        have "\<exists>as' m. (if rooted then [] else [''..'']) = as' @ replicate m ''..'' \<and> plain as' \<and>
            (rooted \<longrightarrow> m = 0)"
          by (intro exI [of _ "[]"] exI [of _ "if rooted then 0 else 1"]) (simp add: plain_def)
        with "2.IH"(2) up nx xs acc(1) Nil 0 show ?thesis by simp
      next
        case (Suc k)
        then have acc': "acc = ''..'' # replicate k ''..''" "\<not> rooted" using acc Nil by auto
        have "\<exists>as' m. ''..'' # acc = as' @ replicate m ''..'' \<and> plain as' \<and> (rooted \<longrightarrow> m = 0)"
          using acc' by (intro exI [of _ "[]"] exI [of _ "Suc (Suc k)"]) (simp add: plain_def)
        with "2.IH"(3) up nx xs acc' show ?thesis by simp
      qed
    next
      case (Cons a as')
      then have a: "a \<noteq> ''..''" "plain as'" using acc(2) by (auto simp: plain_def)
      have "\<exists>cs m. as' @ replicate n ''..'' = cs @ replicate m ''..'' \<and> plain cs \<and> (rooted \<longrightarrow> m = 0)"
        using a acc(3) by blast
      with "2.IH"(4) up nx xs acc(1) Cons a show ?thesis by simp
    qed
  qed
qed

lemma split_byte_no_sep: "x \<in> set (split_byte c s) \<Longrightarrow> c \<notin> set x"
proof -
  have "x \<in> set (split_byte_aux c cur s) \<Longrightarrow> c \<notin> set cur \<Longrightarrow> c \<notin> set x" for cur
    by (induction c cur s rule: split_byte_aux.induct) (auto split: if_splits)
  from this [of "[]"] show "x \<in> set (split_byte c s) \<Longrightarrow> c \<notin> set x" by (simp add: split_byte_def)
qed

lemma join_starts_up: "\<exists>t. join_with ''/'' (''..'' # xs) = ''..'' @ t \<and> (t = [] \<or> is_prefix ''/'' t)"
  by (cases xs) auto

text \<open>
  The keys that reach the object store are safe: an accepted key is not empty and none
  of its slash-separated parts is \<open>..\<close>.
\<close>

theorem s3_key_safe:
  assumes "normalizeS3ObjectKey key0 = Inr key"
  shows "key \<noteq> [] \<and> ''..'' \<notin> set (split_byte (CHR ''/'') key)"
proof -
  define p where "p = trim_prefix ''/'' (replace_byte (CHR 0x5C) (CHR ''/'') key0)"
  have key: "key = path_clean p" "key \<noteq> ''.''" "key \<noteq> []" "key \<noteq> ''..''" "\<not> is_prefix ''../'' key"
    using assms by (auto simp: normalizeS3ObjectKey_def p_def Let_def split: if_splits)
  define rooted where "rooted = is_prefix ''/'' p"
  have "\<exists>bs n. clean_elems rooted [] (split_byte (CHR ''/'') p) = replicate n ''..'' @ bs \<and>
      plain bs \<and> (rooted \<longrightarrow> n = 0)"
    using split_byte_no_sep by (intro clean_elems_shape) (auto simp: plain_def)
  then obtain bs n where el: "clean_elems rooted [] (split_byte (CHR ''/'') p) = replicate n ''..'' @ bs"
    "plain bs" "rooted \<longrightarrow> n = 0" by blast
  have n0: "n = 0"
  proof (rule ccontr)
    assume "n \<noteq> 0"
    then obtain k where "n = Suc k" by (cases n) auto
    then have "\<not> rooted" "replicate n ''..'' @ bs = ''..'' # (replicate k ''..'' @ bs)"
      using el(3) by auto
    then have "key = (let b = join_with ''/'' (''..'' # (replicate k ''..'' @ bs)) in
        if b = [] then ''.'' else b)"
      using key(1) el(1) by (simp add: path_clean_def rooted_def)
    with join_starts_up [of "replicate k ''..'' @ bs"] key(4,5) show False
      by (auto simp: is_prefix_iff)
  qed
  have parts: "''..'' \<notin> set (split_byte (CHR ''/'') (join_with ''/'' bs))"
    using split_byte_of_join [of bs "CHR ''/''"] el(2)
    by (cases "bs = []") (auto simp: plain_def split_byte_def)
  have "split_byte (CHR ''/'') (CHR ''/'' # s) = [] # split_byte (CHR ''/'') s" for s
    by (simp add: split_byte_def)
  then show ?thesis
    using key(1-3) parts el(1) n0 by (auto simp: path_clean_def Let_def rooted_def split: if_splits)
qed

theorem s3_key_safe_witness:
  "''..'' \<notin> set (split_byte (CHR ''/'') ''models/x/model'')"
proof -
  have "normalizeS3ObjectKey ''/models/a/../x/./model'' = Inr ''models/x/model''" by code_simp
  from s3_key_safe [OF this] show ?thesis by simp
qed

section \<open>Runs\<close>

definition final_status :: "string \<Rightarrow> bool" where
  "final_status st \<longleftrightarrow> st = statusFinished \<or> st = statusFailed \<or> st = statusCanceled"

lemma final_status_simps [simp]:
  "final_status statusFinished" "final_status statusFailed" "final_status statusCanceled"
  by (simp_all add: final_status_def)

lemma final_conclude [intro]:
  "final_status (mr_Status (ss_Result s)) \<Longrightarrow> final_status (mr_Status (ss_Result (conclude env cg s)))"
  by (simp add: conclude_def status_finishRunResult)

lemma final_after_wait [intro]: "final_status (mr_Status (ss_Result (after_wait env cg e s)))"
  by (cases "waitProcess env s"; cases "me_Ctx env")
    (auto simp: after_wait_def Let_def status_finishRunResult)

lemma final_configured: "final_status (mr_Status (ss_Result (configured env cfg cg ls s)))"
proof -
  obtain b rest s1 where w: "waitReady env ls s = ((b, rest), s1)" by (metis surj_pair)
  show ?thesis
  proof (cases b)
    case False
    with w ready_failed [of env ls s rest s1] show ?thesis
      by (auto simp: configured_def)
  next
    case True
    with w read_loop_Broken [of env cfg rest s1] show ?thesis
      by (auto simp: configured_def split: reading.split option.split)
  qed
qed

lemma final_run: "final_status (mr_Status (ss_Result (run_model_process env cfg)))"
  by (auto simp: run_model_process_def talk_def Let_def final_configured
    split: option.split sum.split prod.split)

lemma final_append: "final_status (rs_Status r) \<Longrightarrow> final_status (rs_Status (appendResultError m r))"
  by (auto simp: appendResultError_def Let_def)

lemma final_execute: "final_status (rs_Status (fst (executeExperiment env cfg cache)))"
  by (auto simp: executeExperiment_def Let_def final_run final_append
    split: sum.split option.split prod.split ctx_state.split)

lemma final_finish:
  "final_status (rs_Status res) \<Longrightarrow> final_status (rs_Status (fst (finish_experiment h e res r)))"
  by (auto simp: finish_experiment_def Let_def split: option.split)

lemma start_experiment_accepted:
  assumes "start_experiment scfg c ended req r = ((resp, Some task), r1)"
  shows "ended = None \<and> sp_Accepted resp \<and> isHex (sq_ModelHash req) \<and> length (sq_ModelHash req) = 64 \<and>
    cf_ModelHash (snd task) = sq_ModelHash req \<and> cf_ExperimentID (snd task) = sq_ExperimentId req \<and>
    (\<exists>rec code why ra. try_start (sq_ModelHash req) (sq_ExperimentId req) (sq_MemoryLimitBytes req) r =
       ((Some rec, code, why), ra) \<and> r1 = set_cancel (sq_ModelHash req) (sq_ExperimentId req) c ra)"
  using assms
  by (auto simp: start_experiment_def Let_def configFromStartRequest_def
    split: if_splits option.splits prod.splits)

lemma start_experiment_rejected:
  assumes "start_experiment scfg c ended req r = ((resp, None), r1)"
  shows "\<not> sp_Accepted resp \<and> (r1 = r \<or>
    (\<exists>rec code why ra res. try_start (sq_ModelHash req) (sq_ExperimentId req) (sq_MemoryLimitBytes req) r =
       ((Some rec, code, why), ra) \<and>
       r1 = snd (finish_experiment (sq_ModelHash req) (sq_ExperimentId req) res
         (set_cancel (sq_ModelHash req) (sq_ExperimentId req) c ra))))"
proof -
  have "try_start h e m r = ((None, code, why), ra) \<Longrightarrow> ra = r" for h e m code why ra
    using try_start_None by blast
  with assms show ?thesis
    by (auto simp: start_experiment_def Let_def rejectedStart_def
      split: if_splits option.splits prod.splits)
qed

lemma finish_get:
  "get_experiment h e (snd (finish_experiment h e res r)) = (fst (finish_experiment h e res r), True)"
  by (auto simp: finish_experiment_def get_experiment_def Let_def split: option.split)

text \<open>Starting a run and finishing it gives the slot and the memory back.\<close>

lemma start_finish_books:
  assumes st: "try_start h e m r = ((Some rec, code, why), ra)"
    and b: "unat (usedSlots r) + 1 < 2 ^ 64" "unat (reservedMemoryBytes r) + unat m < 2 ^ 64"
    and keep: "usedSlots rb = usedSlots ra" "reservedMemoryBytes rb = reservedMemoryBytes ra"
      "map_option er_MemoryReserved (experiments rb (experimentKey h e)) =
       map_option er_MemoryReserved (experiments ra (experimentKey h e))"
  shows "usedSlots (snd (finish_experiment h e res rb)) = usedSlots r \<and>
    reservedMemoryBytes (snd (finish_experiment h e res rb)) = reservedMemoryBytes r"
proof -
  note s = try_start_Some [OF st]
  then obtain rc where rc: "experiments rb (experimentKey h e) = Some rc" "er_MemoryReserved rc = m"
    using keep(3) by auto
  have "unat (usedSlots r + 1) = unat (usedSlots r) + 1"
    using unat_add_u64 [of "usedSlots r" 1] b(1) by simp
  then have pos: "usedSlots rb > 0" using s keep(1) by (simp add: word_gt_0 flip: unat_gt_0)
  have "m \<le> reservedMemoryBytes rb"
    using s keep(2) unat_add_u64 [OF b(2)] by (simp add: word_le_nat_alt)
  with finish_books [OF rc(1) pos, of res] rc(2) s keep(1,2) show ?thesis by simp
qed

text \<open>
  A start request that is rejected books nothing: the slots and the memory in use are
  what they were before, also when the request was canceled after the slot had been taken.
\<close>

theorem rejected_start_books_nothing:
  assumes "start_experiment scfg c ended req r = ((resp, None), r1)"
    and "unat (usedSlots r) + 1 < 2 ^ 64"
    and "unat (reservedMemoryBytes r) + unat (sq_MemoryLimitBytes req) < 2 ^ 64"
  shows "\<not> sp_Accepted resp \<and> usedSlots r1 = usedSlots r \<and>
    reservedMemoryBytes r1 = reservedMemoryBytes r"
proof (cases "r1 = r")
  case True
  then show ?thesis using start_experiment_rejected [OF assms(1)] by simp
next
  case False
  let ?h = "sq_ModelHash req" and ?e = "sq_ExperimentId req"
  from False start_experiment_rejected [OF assms(1)] obtain rec code why ra res where
    st: "try_start ?h ?e (sq_MemoryLimitBytes req) r = ((Some rec, code, why), ra)" and
    r1: "r1 = snd (finish_experiment ?h ?e res (set_cancel ?h ?e c ra))" and
    rej: "\<not> sp_Accepted resp" by blast
  from start_finish_books [OF st assms(2,3), of "set_cancel ?h ?e c ra" res] r1 rej
  show ?thesis by (simp add: keeps)
qed


definition sample_request :: start_request where
  "sample_request =
     \<lparr>sq_ModelHash = sample_hash, sq_ExperimentId = ''e1'',
      sq_Binary = Some \<lparr>ba_Key = ''models/m'', ba_Sha256 = []\<rparr>, sq_SetVars = [None],
      sq_StopRule = None, sq_Metrics = [''q''], sq_MetricStep = Fin 1, sq_StoreMetrics = False,
      sq_MemoryLimitBytes = 100, sq_RunTimeoutMs = 0\<rparr>"

definition sample_serve :: serve_config where
  "sample_serve = \<lparr>vc_NodeID = ''n1'', vc_AdvertiseAddr = ''h:1'', vc_base =
     \<lparr>cf_ExperimentID = [], cf_ModelHash = [], cf_BinaryKey = [], cf_BinarySHA256 = [],
      cf_SetFlags = [], cf_MetricsRaw = [], cf_StopRuleRaw = [], cf_MetricStep = Fin 0,
      cf_StoreMetrics = False, cf_WorkDir = ''w'', cf_RunTimeout = 0, cf_MemoryLimitBytes = 0,
      cf_CgroupEnabled = False, cf_CgroupRoot = [], cf_CgroupParent = [], cf_S3Endpoint = [],
      cf_S3AccessKey = [], cf_S3SecretKey = [], cf_S3Bucket = [], cf_S3UseSSL = False,
      cf_S3Region = [], cf_S3Prefix = [], cf_S3CreateBucket = False\<rparr>\<rparr>"

definition sample_execute :: execute_env where
  "sample_execute = \<lparr>ee_MkdirErr = None, ee_Cache = \<lparr>ce_Now = 5, ce_FileExists = (\<lambda>_. False),
      ce_MkdirErr = None, ce_GetFile = (\<lambda>k p sha. Inr \<lparr>ar_Key = k, ar_Sha256 = sample_hash,
        ar_Size = 1, ar_ContentType = []\<rparr>), ce_ChmodErr = None, ce_GOOS = ''linux''\<rparr>,
      ee_CtxAtPrepare = CtxLive, ee_TraceErr = None, ee_Model = sample_env, ee_CloseErr = None,
      ee_PutFile = (\<lambda>_. Inl ''no store'')\<rparr>"

abbreviation sample_answer :: "string option \<Rightarrow> (start_response \<times> experiment_task option) \<times> nat registry" where
  "sample_answer ended \<equiv> start_experiment sample_serve 7 ended sample_request (new_registry 1 1000)"

lemma sample_books:
  "unat (usedSlots (new_registry 1 1000 :: nat registry)) + 1 < 2 ^ 64"
  "unat (reservedMemoryBytes (new_registry 1 1000 :: nat registry)) +
     unat (sq_MemoryLimitBytes sample_request) < 2 ^ 64"
  by (simp_all add: new_registry_def sample_request_def)

lemma sample_rejected: "snd (fst (sample_answer (Some ''context canceled''))) = None"
  by code_simp

lemma sample_accepted: "snd (fst (sample_answer None)) \<noteq> None"
  by code_simp

theorem rejected_start_books_nothing_witness:
  "usedSlots (snd (sample_answer (Some ''context canceled''))) = 0"
proof -
  let ?a = "sample_answer (Some ''context canceled'')"
  have "?a = ((fst (fst ?a), None), snd ?a)" using sample_rejected by (simp add: prod_eq_iff)
  from rejected_start_books_nothing [OF this sample_books] show ?thesis
    by (simp add: new_registry_def)
qed


text \<open>
  The product \<open>time.Duration(ms) * time.Millisecond\<close> wraps: a timeout of about 292
  years is a context that has already expired.
\<close>

lemma huge_timeout_is_negative: "millis (2 ^ 63 div 1000000 + 1) < 0"
  by code_simp

end
