(* ===== verification/Repository.thy ===== *)
theory Repository
  imports Pending_Queue
begin

text \<open>
  The control plane's database layer (controlplane/repository.go over schema.sql). A table
  is the list of its rows in insertion order; a nullable column is an \<open>option\<close>; BIGINT is
  \<open>int\<close>, JSONB columns hold the value that was marshalled, and CHAR(64) columns are text, as
  they are for the 64-digit hashes the program stores. Every SQL statement is a function on
  the database that returns rows, or an error for a violated constraint; the database may
  also refuse a statement, or execute it and lose the answer, as the environment says.
\<close>

section \<open>Tables\<close>

text \<open>The four columns of an artifact reference.\<close>

record ref_cols =
  rc_key :: "string option"
  rc_sha256 :: "string option"
  rc_size :: "int option"
  rc_content_type :: "string option"

definition null_ref :: ref_cols where
  "null_ref = \<lparr>rc_key = None, rc_sha256 = None, rc_size = None, rc_content_type = None\<rparr>"

record artifact_row =
  a_model_hash :: string
  a_goos :: string
  a_goarch :: string
  a_status :: string
  a_source :: ref_cols
  a_binary :: ref_cols
  a_build_log :: ref_cols
  a_error_code :: "string option"
  a_message :: "string option"
  a_updated_at :: instant

record batch_row =
  b_batch_id :: string
  b_model_hash :: string
  b_status :: string
  b_selected_goos :: string
  b_selected_goarch :: string
  b_store_source :: bool
  b_store_binary :: bool
  b_build_timeout_sec :: int
  b_stop_rule :: "stop_rule option"
  b_metrics :: "string list"
  b_metric_step :: f64
  b_store_metrics :: bool
  b_memory_limit_bytes :: int
  b_run_timeout_ms :: int
  b_error_code :: "string option"
  b_message :: "string option"
  b_updated_at :: instant

record experiment_row =
  x_model_hash :: string
  x_experiment_id :: string
  x_batch_id :: string
  x_status :: string
  x_dispatcher_node_id :: "string option"
  x_set_vars :: "set_var option list"
  x_finish_reason :: "string option"
  x_exit_code :: int
  x_error_message :: "string option"
  x_final_metrics :: "string \<rightharpoonup> string"
  x_stat_count :: int
  x_metrics_file_rows :: int
  x_metrics_artifact :: ref_cols
  x_started_at_unix_ms :: "int option"
  x_finished_at_unix_ms :: "int option"
  x_duration_ms :: "int option"
  x_memory_limit_bytes :: int
  x_peak_memory_bytes :: int
  x_stderr_tail :: "string option"
  x_created_at :: instant
  x_updated_at :: instant

record database =
  t_models :: "(string \<times> string) list"
  t_artifacts :: "artifact_row list"
  t_batches :: "batch_row list"
  t_experiments :: "experiment_row list"

section \<open>Statements\<close>

datatype verdict =
    Done  \<comment> \<open>executed and answered\<close>
  | NotDone string  \<comment> \<open>failed without effect\<close>
  | DoneUnanswered string  \<comment> \<open>executed, but the client got an error\<close>

type_synonym sql_env = "nat \<Rightarrow> verdict"

text \<open>The database with the number of statements sent to it so far.\<close>

record world =
  w_db :: database
  w_sent :: nat

definition run_sql ::
  "sql_env \<Rightarrow> (database \<Rightarrow> string + ('a \<times> database)) \<Rightarrow> world \<Rightarrow> (string + 'a) \<times> world" where
  "run_sql env stmt w =
     (let w1 = w\<lparr>w_sent := w_sent w + 1\<rparr> in
      case env (w_sent w) of
        NotDone e \<Rightarrow> (Inl e, w1)
      | Done \<Rightarrow>
          (case stmt (w_db w) of
             Inl e \<Rightarrow> (Inl e, w1)
           | Inr (x, db) \<Rightarrow> (Inr x, w1\<lparr>w_db := db\<rparr>))
      | DoneUnanswered e \<Rightarrow>
          (case stmt (w_db w) of
             Inl e' \<Rightarrow> (Inl e', w1)
           | Inr (x, db) \<Rightarrow> (Inl e, w1\<lparr>w_db := db\<rparr>)))"

text \<open>\<open>UPDATE experiments SET f WHERE P\<close>, with the rows it touched as they are afterwards.\<close>

definition update_experiments ::
  "(experiment_row \<Rightarrow> bool) \<Rightarrow> (experiment_row \<Rightarrow> experiment_row) \<Rightarrow> database \<Rightarrow>
   string + (experiment_row list \<times> database)" where
  "update_experiments P f db =
     Inr (map f (filter P (t_experiments db)),
          db\<lparr>t_experiments := map (\<lambda>x. if P x then f x else x) (t_experiments db)\<rparr>)"

definition update_batches ::
  "(batch_row \<Rightarrow> bool) \<Rightarrow> (batch_row \<Rightarrow> batch_row) \<Rightarrow> database \<Rightarrow> string + (unit \<times> database)" where
  "update_batches P f db =
     Inr ((), db\<lparr>t_batches := map (\<lambda>b. if P b then f b else b) (t_batches db)\<rparr>)"

definition is_experiment :: "string \<Rightarrow> string \<Rightarrow> experiment_row \<Rightarrow> bool" where
  "is_experiment h e x \<longleftrightarrow> x_model_hash x = h \<and> x_experiment_id x = e"

section \<open>Conversions\<close>

definition nullString :: "string option \<Rightarrow> string" where
  "nullString v = (case v of None \<Rightarrow> [] | Some s \<Rightarrow> s)"

definition nullInt64Value :: "int option \<Rightarrow> int" where
  "nullInt64Value v = (case v of None \<Rightarrow> 0 | Some n \<Rightarrow> n)"

definition nilIfEmpty :: "string \<Rightarrow> string option" where
  "nilIfEmpty v = (if v = [] then None else Some v)"

definition nilIfZeroI64 :: "int \<Rightarrow> int option" where
  "nilIfZeroI64 v = (if v = 0 then None else Some v)"

definition maxInt64Uint :: u64 where
  "maxInt64Uint = 2 ^ 63 - 1"

definition u64ToI64 :: "u64 \<Rightarrow> int" where
  "u64ToI64 v = (if v > maxInt64Uint then uint maxInt64Uint else uint v)"

definition int64ToU64 :: "int \<Rightarrow> u64" where
  "int64ToU64 v = (if v < 0 then 0 else word_of_int v)"

definition artifactFromNulls :: "ref_cols \<Rightarrow> artifact_ref option" where
  "artifactFromNulls c =
     (case rc_key c of
        None \<Rightarrow> None
      | Some key \<Rightarrow>
          if key = [] then None
          else Some \<lparr>ar_Key = key, ar_Sha256 = nullString (rc_sha256 c),
                     ar_Size = nullInt64Value (rc_size c),
                     ar_ContentType = nullString (rc_content_type c)\<rparr>)"

definition codegenArtifactFromNulls :: "ref_cols \<Rightarrow> codegen_artifact_ref option" where
  "codegenArtifactFromNulls c =
     (case rc_key c of
        None \<Rightarrow> None
      | Some key \<Rightarrow>
          if key = [] then None
          else Some \<lparr>cg_URI = [], cg_Key = key, cg_SHA256 = nullString (rc_sha256 c),
                     cg_Size = nullInt64Value (rc_size c),
                     cg_ContentType = nullString (rc_content_type c)\<rparr>)"

definition artifactKey :: "codegen_artifact_ref option \<Rightarrow> string option" where
  "artifactKey ref = (case ref of None \<Rightarrow> None | Some r \<Rightarrow> nilIfEmpty (cg_Key r))"

definition artifactSHA256 :: "codegen_artifact_ref option \<Rightarrow> string option" where
  "artifactSHA256 ref = (case ref of None \<Rightarrow> None | Some r \<Rightarrow> nilIfEmpty (cg_SHA256 r))"

definition artifactSize :: "codegen_artifact_ref option \<Rightarrow> int option" where
  "artifactSize ref = (case ref of None \<Rightarrow> None | Some r \<Rightarrow> Some (cg_Size r))"

definition artifactContentType :: "codegen_artifact_ref option \<Rightarrow> string option" where
  "artifactContentType ref = (case ref of None \<Rightarrow> None | Some r \<Rightarrow> nilIfEmpty (cg_ContentType r))"

definition ref_columns :: "codegen_artifact_ref option \<Rightarrow> ref_cols" where
  "ref_columns ref = \<lparr>rc_key = artifactKey ref, rc_sha256 = artifactSHA256 ref,
     rc_size = artifactSize ref, rc_content_type = artifactContentType ref\<rparr>"

section \<open>Batch status\<close>

definition count_status :: "string set \<Rightarrow> string \<Rightarrow> database \<Rightarrow> nat" where
  "count_status sts batchID db =
     length (filter (\<lambda>x. x_batch_id x = batchID \<and> x_status x \<in> sts) (t_experiments db))"

text \<open>The counts of \<open>RefreshBatchStatus\<close>: total, pending, running, finished, failed, canceled.\<close>

definition batch_counts :: "string \<Rightarrow> database \<Rightarrow> nat \<times> nat \<times> nat \<times> nat \<times> nat \<times> nat" where
  "batch_counts batchID db =
     (length (filter (\<lambda>x. x_batch_id x = batchID) (t_experiments db)),
      count_status {statusPending, statusStarting} batchID db,
      count_status {statusRunning} batchID db, count_status {statusFinished} batchID db,
      count_status {statusFailed} batchID db, count_status {statusCanceled} batchID db)"

definition batch_status_of :: "nat \<times> nat \<times> nat \<times> nat \<times> nat \<times> nat \<Rightarrow> string" where
  "batch_status_of counts =
     (case counts of (all_of, pending, running, finished, failed, canceled) \<Rightarrow>
        if all_of = 0 then statusSubmitted
        else if failed > 0 \<and> finished + failed + canceled = all_of then statusFailed
        else if canceled > 0 \<and> finished + canceled = all_of then statusCanceled
        else if finished = all_of then statusFinished
        else if pending > 0 \<or> running > 0 then statusRunning
        else statusRunning)"

definition refresh_batch_status ::
  "sql_env \<Rightarrow> instant \<Rightarrow> string \<Rightarrow> world \<Rightarrow> (string + unit) \<times> world" where
  "refresh_batch_status env now batchID w =
     (case run_sql env (\<lambda>db. Inr (batch_counts batchID db, db)) w of
        (Inl err, w) \<Rightarrow> (Inl err, w)
      | (Inr counts, w) \<Rightarrow>
          run_sql env (update_batches (\<lambda>b. b_batch_id b = batchID)
            (\<lambda>b. b\<lparr>b_status := batch_status_of counts, b_updated_at := now\<rparr>)) w)"

section \<open>Results\<close>

definition store_result :: "instant \<Rightarrow> string \<Rightarrow> experiment_status \<Rightarrow> experiment_row \<Rightarrow> experiment_row" where
  "store_result now nodeID result x =
     x\<lparr>x_status := es_Status result, x_dispatcher_node_id := nilIfEmpty nodeID,
       x_finish_reason := nilIfEmpty (es_FinishReason result),
       x_exit_code := es_ExitCode result,
       x_error_message := nilIfEmpty (es_ErrorMessage result),
       x_final_metrics := es_FinalMetrics result,
       x_stat_count := u64ToI64 (es_StatCount result),
       x_metrics_file_rows := u64ToI64 (es_MetricsFileRows result),
       x_metrics_artifact := (case es_MetricsArtifact result of
           None \<Rightarrow> null_ref
         | Some a \<Rightarrow> \<lparr>rc_key = nilIfEmpty (ar_Key a), rc_sha256 = nilIfEmpty (ar_Sha256 a),
                      rc_size = Some (ar_Size a), rc_content_type = nilIfEmpty (ar_ContentType a)\<rparr>),
       x_started_at_unix_ms := nilIfZeroI64 (es_StartedAtUnixMs result),
       x_finished_at_unix_ms := nilIfZeroI64 (es_FinishedAtUnixMs result),
       x_duration_ms := nilIfZeroI64 (es_DurationMs result),
       x_memory_limit_bytes := u64ToI64 (es_MemoryLimitBytes result),
       x_peak_memory_bytes := u64ToI64 (es_PeakMemoryBytes result),
       x_stderr_tail := nilIfEmpty (es_StderrTail result),
       x_updated_at := now\<rparr>"

text \<open>The answer is the batch, whether the row was found, and the error.\<close>

definition update_experiment_result ::
  "sql_env \<Rightarrow> instant \<Rightarrow> string \<Rightarrow> experiment_status option \<Rightarrow> world \<Rightarrow>
   (string \<times> bool \<times> string option) \<times> world" where
  "update_experiment_result env now nodeID result w =
     (case result of
        None \<Rightarrow> (([], False, Some ''empty experiment result''), w)
      | Some res \<Rightarrow>
          (case run_sql env (update_experiments
                 (is_experiment (es_ModelHash res) (es_ExperimentId res))
                 (store_result now nodeID res)) w of
             (Inl err, w) \<Rightarrow> (([], False, Some err), w)
           | (Inr [], w) \<Rightarrow> (([], False, None), w)
           | (Inr (x # xs), w) \<Rightarrow>
               (case refresh_batch_status env now (x_batch_id x) w of
                  (Inl err, w) \<Rightarrow> ((x_batch_id x, True, Some err), w)
                | (Inr _, w) \<Rightarrow> ((x_batch_id x, True, None), w))))"

definition scanExperiment :: "experiment_row \<Rightarrow> experiment_status" where
  "scanExperiment x =
     \<lparr>es_ModelHash = x_model_hash x, es_ExperimentId = x_experiment_id x, es_Status = x_status x,
      es_FinishReason = nullString (x_finish_reason x), es_ExitCode = x_exit_code x,
      es_ErrorMessage = nullString (x_error_message x), es_FinalMetrics = x_final_metrics x,
      es_StatCount = int64ToU64 (x_stat_count x),
      es_MetricsFileRows = int64ToU64 (x_metrics_file_rows x),
      es_MetricsArtifact = artifactFromNulls (x_metrics_artifact x),
      es_StartedAtUnixMs = nullInt64Value (x_started_at_unix_ms x),
      es_FinishedAtUnixMs = nullInt64Value (x_finished_at_unix_ms x),
      es_DurationMs = nullInt64Value (x_duration_ms x),
      es_MemoryLimitBytes = int64ToU64 (x_memory_limit_bytes x),
      es_PeakMemoryBytes = int64ToU64 (x_peak_memory_bytes x),
      es_StderrTail = nullString (x_stderr_tail x)\<rparr>"

definition get_experiment_row ::
  "sql_env \<Rightarrow> string \<Rightarrow> string \<Rightarrow> world \<Rightarrow> (string + experiment_status option) \<times> world" where
  "get_experiment_row env h e w =
     (case run_sql env (\<lambda>db. Inr (filter (is_experiment h e) (t_experiments db), db)) w of
        (Inl err, w) \<Rightarrow> (Inl err, w)
      | (Inr [], w) \<Rightarrow> (Inr None, w)
      | (Inr (x # xs), w) \<Rightarrow> (Inr (Some (scanExperiment x)), w))"

text \<open>\<open>ORDER BY experiment_id\<close> depends on the collation of the database, a rank of ids.\<close>

definition list_experiments_by_batch ::
  "sql_env \<Rightarrow> (string \<Rightarrow> nat) \<Rightarrow> string \<Rightarrow> world \<Rightarrow> (string + experiment_status list) \<times> world" where
  "list_experiments_by_batch env collation batchID w =
     run_sql env (\<lambda>db. Inr (map scanExperiment
       (sort_key (\<lambda>x. collation (x_experiment_id x))
          (filter (\<lambda>x. x_batch_id x = batchID) (t_experiments db))), db)) w"

definition find_artifact :: "string \<Rightarrow> string \<Rightarrow> string \<Rightarrow> database \<Rightarrow> artifact_row option" where
  "find_artifact h goos goarch db =
     find (\<lambda>a. a_model_hash a = h \<and> a_goos a = goos \<and> a_goarch a = goarch) (t_artifacts db)"

fun tally :: "experiment_status list \<Rightarrow> batch_status \<Rightarrow> batch_status" where
  "tally [] st = st"
| "tally (e # es) st =
     (let st = st\<lparr>bs_TotalExperiments := bs_TotalExperiments st + 1\<rparr>;
          s = es_Status e
      in tally es
        (if s = statusPending \<or> s = statusStarting then
           st\<lparr>bs_PendingExperiments := bs_PendingExperiments st + 1\<rparr>
         else if s = statusRunning then st\<lparr>bs_RunningExperiments := bs_RunningExperiments st + 1\<rparr>
         else if s = statusFinished then st\<lparr>bs_FinishedExperiments := bs_FinishedExperiments st + 1\<rparr>
         else if s = statusFailed then st\<lparr>bs_FailedExperiments := bs_FailedExperiments st + 1\<rparr>
         else if s = statusCanceled then st\<lparr>bs_CanceledExperiments := bs_CanceledExperiments st + 1\<rparr>
         else st))"

definition get_experiment_batch ::
  "sql_env \<Rightarrow> (string \<Rightarrow> nat) \<Rightarrow> string \<Rightarrow> world \<Rightarrow> (string + batch_status option) \<times> world" where
  "get_experiment_batch env collation batchID w =
     (case run_sql env (\<lambda>db. Inr (map (\<lambda>b. (b,
              find_artifact (b_model_hash b) (b_selected_goos b) (b_selected_goarch b) db))
            (filter (\<lambda>b. b_batch_id b = batchID) (t_batches db)), db)) w of
        (Inl err, w) \<Rightarrow> (Inl err, w)
      | (Inr [], w) \<Rightarrow> (Inr None, w)
      | (Inr ((b, art) # more_rows), w) \<Rightarrow>
          (case list_experiments_by_batch env collation batchID w of
             (Inl err, w) \<Rightarrow> (Inl err, w)
           | (Inr experiments, w) \<Rightarrow>
               (let artifact = \<lparr>ma_ModelHash = b_model_hash b, ma_Goos = b_selected_goos b,
                      ma_Goarch = b_selected_goarch b, ma_Source = None, ma_Binary = None,
                      ma_BuildLog = None, ma_Status = artifactStatusMissing, ma_ErrorCode = [],
                      ma_Message = []\<rparr>;
                    artifact = (case art of
                        None \<Rightarrow> artifact
                      | Some a \<Rightarrow> artifact
                          \<lparr>ma_Status := a_status a, ma_Source := artifactFromNulls (a_source a),
                           ma_Binary := artifactFromNulls (a_binary a),
                           ma_BuildLog := artifactFromNulls (a_build_log a),
                           ma_ErrorCode := nullString (a_error_code a),
                           ma_Message := nullString (a_message a)\<rparr>);
                    status = \<lparr>bs_BatchId = b_batch_id b, bs_ModelHash = b_model_hash b,
                      bs_Status = b_status b, bs_TotalExperiments = 0, bs_PendingExperiments = 0,
                      bs_RunningExperiments = 0, bs_FinishedExperiments = 0,
                      bs_FailedExperiments = 0, bs_CanceledExperiments = 0,
                      bs_Artifact = Some artifact, bs_Experiments = experiments,
                      bs_SelectedGoos = b_selected_goos b, bs_SelectedGoarch = b_selected_goarch b,
                      bs_ErrorCode = nullString (b_error_code b),
                      bs_Message = nullString (b_message b)\<rparr>
                in (Inr (Some (tally experiments status)), w))))"

section \<open>Batches\<close>

record normalized_experiment =
  ne_ExperimentID :: string
  ne_SetVars :: "set_var option list"

record create_input =
  ci_BatchID :: string
  ci_ModelHash :: string
  ci_DSL :: string
  ci_SelectedGOOS :: string
  ci_SelectedGOARCH :: string
  ci_StoreSource :: bool
  ci_StoreBinary :: bool
  ci_BuildTimeoutSec :: int
  ci_Common :: experiment_common_config
  ci_Experiments :: "normalized_experiment list"

definition insert_model :: "string \<Rightarrow> string \<Rightarrow> database \<Rightarrow> string + (unit \<times> database)" where
  "insert_model h dsl db =
     Inr ((), if h \<in> fst ` set (t_models db) then db
              else db\<lparr>t_models := t_models db @ [(h, dsl)]\<rparr>)"

definition insert_batch :: "instant \<Rightarrow> create_input \<Rightarrow> database \<Rightarrow> string + (unit \<times> database)" where
  "insert_batch now input db =
     (if ci_BatchID input \<in> b_batch_id ` set (t_batches db) then
        Inl ''duplicate key value violates unique constraint experiment_batches_pkey''
      else if ci_ModelHash input \<notin> fst ` set (t_models db) then
        Inl ''insert violates foreign key constraint experiment_batches_model_hash_fkey''
      else Inr ((), db\<lparr>t_batches := t_batches db @
        [\<lparr>b_batch_id = ci_BatchID input, b_model_hash = ci_ModelHash input,
          b_status = statusSubmitted, b_selected_goos = ci_SelectedGOOS input,
          b_selected_goarch = ci_SelectedGOARCH input, b_store_source = ci_StoreSource input,
          b_store_binary = ci_StoreBinary input, b_build_timeout_sec = ci_BuildTimeoutSec input,
          b_stop_rule = cc_StopRule (ci_Common input), b_metrics = cc_Metrics (ci_Common input),
          b_metric_step = cc_MetricStep (ci_Common input),
          b_store_metrics = cc_StoreMetrics (ci_Common input),
          b_memory_limit_bytes = u64ToI64 (cc_MemoryLimitBytes (ci_Common input)),
          b_run_timeout_ms = u64ToI64 (cc_RunTimeoutMs (ci_Common input)),
          b_error_code = None, b_message = None, b_updated_at = now\<rparr>]\<rparr>))"

definition insert_experiment ::
  "instant \<Rightarrow> create_input \<Rightarrow> normalized_experiment \<Rightarrow> database \<Rightarrow> string + (unit \<times> database)" where
  "insert_experiment now input experiment db =
     (if \<exists>x \<in> set (t_experiments db). is_experiment (ci_ModelHash input) (ne_ExperimentID experiment) x then
        Inl ''duplicate key value violates unique constraint experiments_pkey''
      else if ci_ModelHash input \<notin> fst ` set (t_models db) \<or>
              ci_BatchID input \<notin> b_batch_id ` set (t_batches db) then
        Inl ''insert violates a foreign key constraint of experiments''
      else Inr ((), db\<lparr>t_experiments := t_experiments db @
        [\<lparr>x_model_hash = ci_ModelHash input, x_experiment_id = ne_ExperimentID experiment,
          x_batch_id = ci_BatchID input, x_status = statusPending, x_dispatcher_node_id = None,
          x_set_vars = ne_SetVars experiment, x_finish_reason = None, x_exit_code = -1,
          x_error_message = None, x_final_metrics = Map.empty, x_stat_count = 0,
          x_metrics_file_rows = 0, x_metrics_artifact = null_ref, x_started_at_unix_ms = None,
          x_finished_at_unix_ms = None, x_duration_ms = None,
          x_memory_limit_bytes = u64ToI64 (cc_MemoryLimitBytes (ci_Common input)),
          x_peak_memory_bytes = 0, x_stderr_tail = None, x_created_at = now,
          x_updated_at = now\<rparr>]\<rparr>))"

fun insert_experiments ::
  "sql_env \<Rightarrow> instant \<Rightarrow> create_input \<Rightarrow> normalized_experiment list \<Rightarrow> world \<Rightarrow>
   (string + unit) \<times> world" where
  "insert_experiments env now input [] w = (Inr (), w)"
| "insert_experiments env now input (e # es) w =
     (case run_sql env (insert_experiment now input e) w of
        (Inl err, w) \<Rightarrow> (Inl err, w)
      | (Inr _, w) \<Rightarrow> insert_experiments env now input es w)"

text \<open>
  The transaction works on its own copy of the tables; \<open>Commit\<close> is a statement that makes
  the copy the database, and any error leaves the deferred rollback to drop it.
\<close>

definition create_experiment_batch ::
  "sql_env \<Rightarrow> instant \<Rightarrow> create_input \<Rightarrow> world \<Rightarrow> (string + unit) \<times> world" where
  "create_experiment_batch env now input w =
     (let before = w_db w;
          rollback = (\<lambda>w. w\<lparr>w_db := before\<rparr>) in
      case run_sql env (\<lambda>db. Inr ((), db)) w of
        (Inl err, w) \<Rightarrow> (Inl err, w)
      | (Inr _, w) \<Rightarrow>
          (case run_sql env (insert_model (ci_ModelHash input) (ci_DSL input)) w of
             (Inl err, w) \<Rightarrow> (Inl err, rollback w)
           | (Inr _, w) \<Rightarrow>
               (case run_sql env (insert_batch now input) w of
                  (Inl err, w) \<Rightarrow> (Inl err, rollback w)
                | (Inr _, w) \<Rightarrow>
                    (case insert_experiments env now input (ci_Experiments input) w of
                       (Inl err, w) \<Rightarrow> (Inl err, rollback w)
                     | (Inr _, w) \<Rightarrow>
                         run_sql env (\<lambda>db. Inr ((), w_db w)) (rollback w)))))"

definition update_batch_status ::
  "sql_env \<Rightarrow> instant \<Rightarrow> string \<Rightarrow> string \<Rightarrow> string \<Rightarrow> string \<Rightarrow> world \<Rightarrow> (string + unit) \<times> world" where
  "update_batch_status env now batchID batchStatus errorCode message w =
     run_sql env (update_batches (\<lambda>b. b_batch_id b = batchID)
       (\<lambda>b. b\<lparr>b_status := batchStatus, b_error_code := nilIfEmpty errorCode,
              b_message := nilIfEmpty message, b_updated_at := now\<rparr>)) w"

section \<open>Model artifacts\<close>

record artifact_record =
  mar_ModelHash :: string
  mar_GOOS :: string
  mar_GOARCH :: string
  mar_Status :: string
  mar_Source :: "codegen_artifact_ref option"
  mar_Binary :: "codegen_artifact_ref option"
  mar_BuildLog :: "codegen_artifact_ref option"
  mar_ErrorCode :: string
  mar_Message :: string

definition artifact_ready :: "artifact_row \<Rightarrow> bool" where
  "artifact_ready a \<longleftrightarrow> a_status a = artifactStatusReady \<and> rc_key (a_binary a) \<noteq> None \<and>
     rc_sha256 (a_binary a) \<noteq> None"

definition get_ready_model_artifact ::
  "sql_env \<Rightarrow> string \<Rightarrow> string \<Rightarrow> string \<Rightarrow> world \<Rightarrow> (string + artifact_record option) \<times> world" where
  "get_ready_model_artifact env h goos goarch w =
     (case run_sql env (\<lambda>db. Inr (filter (\<lambda>a. a_model_hash a = h \<and> a_goos a = goos \<and>
              a_goarch a = goarch \<and> artifact_ready a) (t_artifacts db), db)) w of
        (Inl err, w) \<Rightarrow> (Inl err, w)
      | (Inr [], w) \<Rightarrow> (Inr None, w)
      | (Inr (a # rest), w) \<Rightarrow>
          (Inr (Some \<lparr>mar_ModelHash = a_model_hash a, mar_GOOS = a_goos a, mar_GOARCH = a_goarch a,
             mar_Status = a_status a, mar_Source = codegenArtifactFromNulls (a_source a),
             mar_Binary = codegenArtifactFromNulls (a_binary a),
             mar_BuildLog = codegenArtifactFromNulls (a_build_log a), mar_ErrorCode = [],
             mar_Message = []\<rparr>), w))"

text \<open>\<open>INSERT ... ON CONFLICT (model_hash, goos, goarch) DO UPDATE\<close>.\<close>

definition upsert_artifact ::
  "artifact_row \<Rightarrow> (artifact_row \<Rightarrow> artifact_row) \<Rightarrow> database \<Rightarrow> string + (unit \<times> database)" where
  "upsert_artifact new merge db =
     (let same = (\<lambda>a. a_model_hash a = a_model_hash new \<and> a_goos a = a_goos new \<and>
                      a_goarch a = a_goarch new) in
      if a_model_hash new \<notin> fst ` set (t_models db) then
        Inl ''insert violates foreign key constraint model_artifacts_model_hash_fkey''
      else if \<exists>a \<in> set (t_artifacts db). same a then
        Inr ((), db\<lparr>t_artifacts := map (\<lambda>a. if same a then merge a else a) (t_artifacts db)\<rparr>)
      else Inr ((), db\<lparr>t_artifacts := t_artifacts db @ [new]\<rparr>))"

definition mark_model_artifact_building ::
  "sql_env \<Rightarrow> instant \<Rightarrow> string \<Rightarrow> string \<Rightarrow> string \<Rightarrow> world \<Rightarrow> (string + unit) \<times> world" where
  "mark_model_artifact_building env now h goos goarch w =
     run_sql env (upsert_artifact
       \<lparr>a_model_hash = h, a_goos = goos, a_goarch = goarch, a_status = artifactStatusBuilding,
        a_source = null_ref, a_binary = null_ref, a_build_log = null_ref, a_error_code = None,
        a_message = None, a_updated_at = now\<rparr>
       (\<lambda>a. a\<lparr>a_status := artifactStatusBuilding, a_error_code := None, a_message := None,
              a_updated_at := now\<rparr>)) w"

definition save_codegen_result ::
  "sql_env \<Rightarrow> instant \<Rightarrow> codegen_task \<Rightarrow> codegen_result option \<Rightarrow> world \<Rightarrow> (string + unit) \<times> world" where
  "save_codegen_result env now task result w =
     (case result of
        None \<Rightarrow> (Inl ''empty codegen result'', w)
      | Some r \<Rightarrow>
          (let h = (if cr_ModelHash r = [] then ct_ModelHash task else cr_ModelHash r);
               goos = (if cr_GOOS r = [] then ct_GOOS task else cr_GOOS r);
               goarch = (if cr_GOARCH r = [] then ct_GOARCH task else cr_GOARCH r);
               status = (if cr_OK r then artifactStatusReady else artifactStatusFailed);
               errorCode = (if cr_OK r then [] else cr_ErrorCode r);
               message = (if cr_OK r then [] else cr_Message r);
               new = \<lparr>a_model_hash = h, a_goos = goos, a_goarch = goarch, a_status = status,
                 a_source = ref_columns (cr_Source r), a_binary = ref_columns (cr_Binary r),
                 a_build_log = ref_columns (cr_BuildLog r), a_error_code = nilIfEmpty errorCode,
                 a_message = nilIfEmpty message, a_updated_at = now\<rparr>
           in run_sql env (upsert_artifact new
                (\<lambda>a. a\<lparr>a_status := a_status new, a_source := a_source new, a_binary := a_binary new,
                       a_build_log := a_build_log new, a_error_code := a_error_code new,
                       a_message := a_message new, a_updated_at := now\<rparr>)) w))"

section \<open>Scheduling\<close>

text \<open>The rows of the join, as schedule records.\<close>

definition schedule_row :: "instant \<Rightarrow> experiment_row \<Rightarrow> batch_row \<Rightarrow> artifact_row \<Rightarrow> schedule_record" where
  "schedule_row now e b a =
     \<lparr>sc_BatchID = b_batch_id b, sc_ModelHash = x_model_hash e, sc_ExperimentID = x_experiment_id e,
      sc_GOOS = b_selected_goos b, sc_GOARCH = b_selected_goarch b,
      sc_BinaryKey = nullString (rc_key (a_binary a)),
      sc_BinarySHA256 = nullString (rc_sha256 (a_binary a)), sc_SetVars = x_set_vars e,
      sc_StopRule = Some (case b_stop_rule b of
          None \<Rightarrow> \<lparr>sr_Left = [], sr_Op = [], sr_Right = []\<rparr> | Some r \<Rightarrow> r),
      sc_Metrics = b_metrics b, sc_MetricStep = b_metric_step b,
      sc_StoreMetrics = b_store_metrics b,
      sc_MemoryLimitBytes = int64ToU64 (if x_memory_limit_bytes e = 0 then b_memory_limit_bytes b
                                        else x_memory_limit_bytes e),
      sc_RunTimeoutMs = int64ToU64 (b_run_timeout_ms b),
      sc_PendingSince = (if x_created_at e = zero_time then now else x_created_at e)\<rparr>"

definition schedulable_join ::
  "(experiment_row \<Rightarrow> batch_row \<Rightarrow> artifact_row \<Rightarrow> bool) \<Rightarrow> database \<Rightarrow>
   (experiment_row \<times> batch_row \<times> artifact_row) list" where
  "schedulable_join P db =
     [(e, b, a). e \<leftarrow> t_experiments db, b \<leftarrow> t_batches db, b_batch_id b = x_batch_id e,
        a \<leftarrow> t_artifacts db, a_model_hash a = b_model_hash b \<and> a_goos a = b_selected_goos b \<and>
          a_goarch a = b_selected_goarch b, P e b a]"

definition list_schedulable_by_batch ::
  "sql_env \<Rightarrow> (string \<Rightarrow> nat) \<Rightarrow> instant \<Rightarrow> string \<Rightarrow> world \<Rightarrow>
   (string + schedule_record list) \<times> world" where
  "list_schedulable_by_batch env collation now batchID w =
     run_sql env (\<lambda>db. Inr (map (\<lambda>(e, b, a). schedule_row now e b a)
       (sort_key (\<lambda>(e, b, a). collation (x_experiment_id e))
         (schedulable_join (\<lambda>e b a. b_batch_id b = batchID \<and> x_status e = statusPending \<and>
            (b_status b = statusReady \<or> b_status b = statusRunning) \<and> artifact_ready a) db)), db)) w"

definition list_schedulable ::
  "sql_env \<Rightarrow> (string \<Rightarrow> nat) \<Rightarrow> instant \<Rightarrow> int \<Rightarrow> world \<Rightarrow>
   (string + schedule_record list) \<times> world" where
  "list_schedulable env collation now limit w =
     (let limit = (if limit \<le> 0 then 1000 else limit) in
      run_sql env (\<lambda>db. Inr (take (nat limit) (map (\<lambda>(e, b, a). schedule_row now e b a)
        (sort_key (\<lambda>(e, b, a). x_created_at e)
          (sort_key (\<lambda>(e, b, a). collation (x_experiment_id e))
            (schedulable_join (\<lambda>e b a. x_status e = statusPending \<and>
               (b_status b = statusReady \<or> b_status b = statusRunning) \<and> artifact_ready a) db)))), db)) w)"

definition try_mark_experiment_starting ::
  "sql_env \<Rightarrow> instant \<Rightarrow> string \<Rightarrow> string \<Rightarrow> string \<Rightarrow> world \<Rightarrow> (string + bool) \<times> world" where
  "try_mark_experiment_starting env now h e nodeID w =
     (case run_sql env (update_experiments
            (\<lambda>x. is_experiment h e x \<and> x_status x = statusPending)
            (\<lambda>x. x\<lparr>x_status := statusStarting, x_dispatcher_node_id := nilIfEmpty nodeID,
                   x_error_message := None, x_updated_at := now\<rparr>)) w of
        (Inl err, w) \<Rightarrow> (Inl err, w)
      | (Inr rows, w) \<Rightarrow> (Inr (length rows = 1), w))"

definition mark_experiment_pending ::
  "sql_env \<Rightarrow> instant \<Rightarrow> string \<Rightarrow> string \<Rightarrow> string \<Rightarrow> world \<Rightarrow> (string + unit) \<times> world" where
  "mark_experiment_pending env now h e message w =
     (case run_sql env (update_experiments (is_experiment h e)
            (\<lambda>x. x\<lparr>x_status := statusPending, x_dispatcher_node_id := None,
                   x_error_message := nilIfEmpty message, x_updated_at := now\<rparr>)) w of
        (Inl err, w) \<Rightarrow> (Inl err, w)
      | (Inr rows, w) \<Rightarrow> (Inr (), w))"

definition mark_experiment_failed_to_start ::
  "sql_env \<Rightarrow> instant \<Rightarrow> string \<Rightarrow> string \<Rightarrow> string \<Rightarrow> string \<Rightarrow> world \<Rightarrow> (string + unit) \<times> world" where
  "mark_experiment_failed_to_start env now h e nodeID message w =
     (case run_sql env (update_experiments (is_experiment h e)
            (\<lambda>x. x\<lparr>x_status := statusFailed, x_dispatcher_node_id := nilIfEmpty nodeID,
                   x_error_message := nilIfEmpty message, x_updated_at := now\<rparr>)) w of
        (Inl err, w) \<Rightarrow> (Inl err, w)
      | (Inr rows, w) \<Rightarrow> (Inr (), w))"

section \<open>Cancellation and lost nodes\<close>

record cancel_record =
  cx_BatchID :: string
  cx_ModelHash :: string
  cx_ExperimentID :: string
  cx_Status :: string
  cx_DispatcherNodeID :: string
  cx_MemoryLimitBytes :: u64

definition get_experiment_for_cancel ::
  "sql_env \<Rightarrow> string \<Rightarrow> string \<Rightarrow> world \<Rightarrow> (string + cancel_record option) \<times> world" where
  "get_experiment_for_cancel env h e w =
     (case run_sql env (\<lambda>db. Inr (filter (is_experiment h e) (t_experiments db), db)) w of
        (Inl err, w) \<Rightarrow> (Inl err, w)
      | (Inr [], w) \<Rightarrow> (Inr None, w)
      | (Inr (x # xs), w) \<Rightarrow>
          (Inr (Some \<lparr>cx_BatchID = x_batch_id x, cx_ModelHash = x_model_hash x,
             cx_ExperimentID = x_experiment_id x, cx_Status = x_status x,
             cx_DispatcherNodeID = nullString (x_dispatcher_node_id x),
             cx_MemoryLimitBytes = int64ToU64 (x_memory_limit_bytes x)\<rparr>), w))"

definition mark_pending_experiment_canceled ::
  "sql_env \<Rightarrow> instant \<Rightarrow> int \<Rightarrow> string \<Rightarrow> string \<Rightarrow> world \<Rightarrow> (string + bool) \<times> world" where
  "mark_pending_experiment_canceled env now nowMs h e w =
     (case run_sql env (update_experiments
            (\<lambda>x. is_experiment h e x \<and> x_status x = statusPending)
            (\<lambda>x. x\<lparr>x_status := statusCanceled, x_finish_reason := Some ''user_canceled'',
                   x_error_message := None, x_finished_at_unix_ms := Some nowMs,
                   x_updated_at := now\<rparr>)) w of
        (Inl err, w) \<Rightarrow> (Inl err, w)
      | (Inr rows, w) \<Rightarrow> (Inr (length rows = 1), w))"

record orphaned_experiment =
  oe_BatchID :: string
  oe_ModelHash :: string
  oe_ExperimentID :: string
  oe_DispatcherNodeID :: string

definition orphaned :: "string list \<Rightarrow> instant \<Rightarrow> experiment_row \<Rightarrow> bool" where
  "orphaned activeNodeIDs cutoff x \<longleftrightarrow>
     (x_status x = statusStarting \<or> x_status x = statusRunning) \<and> x_updated_at x < cutoff \<and>
     (case x_dispatcher_node_id x of None \<Rightarrow> False | Some n \<Rightarrow> n \<notin> set activeNodeIDs)"

definition mark_orphaned_experiments_failed ::
  "sql_env \<Rightarrow> instant \<Rightarrow> int \<Rightarrow> string list \<Rightarrow> duration \<Rightarrow> world \<Rightarrow>
   (string + orphaned_experiment list) \<times> world" where
  "mark_orphaned_experiments_failed env now nowMs activeNodeIDs gracePeriod w =
     (let cutoff = now - gracePeriod in
      case run_sql env (update_experiments (orphaned activeNodeIDs cutoff)
            (\<lambda>x. x\<lparr>x_status := statusFailed, x_finish_reason := Some ''node_lost'',
                   x_error_message := Some ''dispatcher node lost contact'',
                   x_finished_at_unix_ms := Some nowMs, x_updated_at := now\<rparr>)) w of
        (Inl err, w) \<Rightarrow> (Inl err, w)
      | (Inr rows, w) \<Rightarrow>
          (Inr (map (\<lambda>x. \<lparr>oe_BatchID = x_batch_id x, oe_ModelHash = x_model_hash x,
             oe_ExperimentID = x_experiment_id x,
             oe_DispatcherNodeID = nullString (x_dispatcher_node_id x)\<rparr>) rows), w))"

section \<open>Integrity\<close>

text \<open>The primary keys, and the foreign keys to models and batches.\<close>

definition exp_key :: "experiment_row \<Rightarrow> string \<times> string" where
  "exp_key x = (x_model_hash x, x_experiment_id x)"

definition art_key :: "artifact_row \<Rightarrow> string \<times> string \<times> string" where
  "art_key a = (a_model_hash a, a_goos a, a_goarch a)"

definition db_ok :: "database \<Rightarrow> bool" where
  "db_ok db \<longleftrightarrow> distinct (map fst (t_models db)) \<and> distinct (map art_key (t_artifacts db)) \<and>
     distinct (map b_batch_id (t_batches db)) \<and> distinct (map exp_key (t_experiments db)) \<and>
     a_model_hash ` set (t_artifacts db) \<subseteq> fst ` set (t_models db) \<and>
     b_model_hash ` set (t_batches db) \<subseteq> fst ` set (t_models db) \<and>
     x_model_hash ` set (t_experiments db) \<subseteq> fst ` set (t_models db) \<and>
     x_batch_id ` set (t_experiments db) \<subseteq> b_batch_id ` set (t_batches db)"

text \<open>A statement that keeps a property of the database, whatever its verdict.\<close>

definition stmt_keeps ::
  "(database \<Rightarrow> bool) \<Rightarrow> (database \<Rightarrow> string + ('a \<times> database)) \<Rightarrow> bool" where
  "stmt_keeps I stmt \<longleftrightarrow> (\<forall>db x db'. I db \<longrightarrow> stmt db = Inr (x, db') \<longrightarrow> I db')"

lemma run_sql_keeps:
  "stmt_keeps I stmt \<Longrightarrow> I (w_db w) \<Longrightarrow> I (w_db (snd (run_sql env stmt w)))"
  by (auto simp: run_sql_def stmt_keeps_def Let_def split: verdict.split sum.split)

lemma run_sql_keeps': "run_sql env stmt w = (r, w') \<Longrightarrow> stmt_keeps I stmt \<Longrightarrow> I (w_db w) \<Longrightarrow> I (w_db w')"
  using run_sql_keeps [of I stmt w env] by simp

lemma query_keeps [inv_intros]: "stmt_keeps I (\<lambda>db. Inr (f db, db))"
  by (simp add: stmt_keeps_def)

text \<open>The columns the keys are about; an update that leaves them alone keeps the keys.\<close>

definition key_columns ::
  "database \<Rightarrow> string list \<times> (string \<times> string \<times> string) list \<times> (string \<times> string) list \<times>
   ((string \<times> string) \<times> string) list" where
  "key_columns db = (map fst (t_models db), map art_key (t_artifacts db),
     map (\<lambda>b. (b_batch_id b, b_model_hash b)) (t_batches db),
     map (\<lambda>x. (exp_key x, x_batch_id x)) (t_experiments db))"

lemma db_ok_columns: "key_columns db = key_columns db' \<Longrightarrow> db_ok db \<Longrightarrow> db_ok db'"
proof -
  have *: "db_ok db \<longleftrightarrow> (case key_columns db of (ms, as, bs, xs) \<Rightarrow>
      distinct ms \<and> distinct as \<and> distinct (map fst bs) \<and> distinct (map fst xs) \<and>
      fst ` set as \<subseteq> set ms \<and> snd ` set bs \<subseteq> set ms \<and> (fst \<circ> fst) ` set xs \<subseteq> set ms \<and>
      snd ` set xs \<subseteq> fst ` set bs)" for db
    by (simp add: db_ok_def key_columns_def comp_def image_image exp_key_def [abs_def]
      art_key_def [abs_def])
  show "key_columns db = key_columns db' \<Longrightarrow> db_ok db \<Longrightarrow> db_ok db'"
    unfolding * by simp
qed

lemma update_experiments_ok [inv_intros]:
  assumes "\<And>x. exp_key (f x) = exp_key x" "\<And>x. x_batch_id (f x) = x_batch_id x"
  shows "stmt_keeps db_ok (update_experiments P f)"
proof -
  have "key_columns (db\<lparr>t_experiments := map (\<lambda>x. if P x then f x else x) (t_experiments db)\<rparr>) =
      key_columns db" for db
    by (simp add: key_columns_def assms)
  from db_ok_columns [OF this [symmetric]] show ?thesis
    by (auto simp: stmt_keeps_def update_experiments_def)
qed

lemma update_batches_ok [inv_intros]:
  assumes "\<And>b. b_batch_id (f b) = b_batch_id b" "\<And>b. b_model_hash (f b) = b_model_hash b"
  shows "stmt_keeps db_ok (update_batches P f)"
proof -
  have "key_columns (db\<lparr>t_batches := map (\<lambda>b. if P b then f b else b) (t_batches db)\<rparr>) =
      key_columns db" for db
    by (simp add: key_columns_def assms)
  from db_ok_columns [OF this [symmetric]] show ?thesis
    by (auto simp: stmt_keeps_def update_batches_def)
qed

lemma insert_model_ok [inv_intros]: "stmt_keeps db_ok (insert_model h dsl)"
  by (auto simp: stmt_keeps_def insert_model_def db_ok_def)

lemma insert_batch_ok [inv_intros]: "stmt_keeps db_ok (insert_batch now input)"
  by (auto simp: stmt_keeps_def insert_batch_def db_ok_def split: if_splits)

lemma insert_experiment_ok [inv_intros]: "stmt_keeps db_ok (insert_experiment now input e)"
  by (auto simp: stmt_keeps_def insert_experiment_def db_ok_def exp_key_def is_experiment_def
    split: if_splits)

lemma upsert_artifact_ok [inv_intros]:
  assumes "\<And>a. art_key (merge a) = art_key a"
  shows "stmt_keeps db_ok (upsert_artifact new merge)"
proof -
  have "key_columns (db\<lparr>t_artifacts := map (\<lambda>a. if P a then merge a else a) (t_artifacts db)\<rparr>) =
      key_columns db" for db P
    by (simp add: key_columns_def assms)
  note upd = db_ok_columns [OF this [symmetric]]
  have ins: "db_ok db \<Longrightarrow> a_model_hash new \<in> fst ` set (t_models db) \<Longrightarrow>
      \<not> (\<exists>a \<in> set (t_artifacts db). a_model_hash a = a_model_hash new \<and> a_goos a = a_goos new \<and>
        a_goarch a = a_goarch new) \<Longrightarrow> db_ok (db\<lparr>t_artifacts := t_artifacts db @ [new]\<rparr>)" for db
    by (auto simp: db_ok_def art_key_def)
  show ?thesis
    unfolding stmt_keeps_def upsert_artifact_def Let_def
    by (auto split: if_splits intro!: upd ins)
qed

section \<open>Calls\<close>

text \<open>The calls that change the database. The answer is whether a mark took effect.\<close>

datatype repo_call =
    StoreResult instant string "experiment_status option"
  | Refresh instant string
  | CreateBatch instant create_input
  | SetBatch instant string string string string
  | Building instant string string string
  | SaveCodegen instant codegen_task "codegen_result option"
  | MarkStarting instant string string string
  | MarkPending instant string string string
  | MarkFailed instant string string string string
  | CancelPending instant int string string
  | FailOrphans instant int "string list" duration

definition said_yes :: "(string + bool) \<times> world \<Rightarrow> bool \<times> world" where
  "said_yes r = (fst r = Inr True, snd r)"

fun do_call :: "sql_env \<Rightarrow> repo_call \<Rightarrow> world \<Rightarrow> bool \<times> world" where
  "do_call env (StoreResult now node res) w = (False, snd (update_experiment_result env now node res w))"
| "do_call env (Refresh now b) w = (False, snd (refresh_batch_status env now b w))"
| "do_call env (CreateBatch now i) w = (False, snd (create_experiment_batch env now i w))"
| "do_call env (SetBatch now b st c m) w = (False, snd (update_batch_status env now b st c m w))"
| "do_call env (Building now h os arch) w = (False, snd (mark_model_artifact_building env now h os arch w))"
| "do_call env (SaveCodegen now t r) w = (False, snd (save_codegen_result env now t r w))"
| "do_call env (MarkStarting now h e n) w = said_yes (try_mark_experiment_starting env now h e n w)"
| "do_call env (MarkPending now h e m) w = (False, snd (mark_experiment_pending env now h e m w))"
| "do_call env (MarkFailed now h e n m) w = (False, snd (mark_experiment_failed_to_start env now h e n m w))"
| "do_call env (CancelPending now ms h e) w =
     said_yes (mark_pending_experiment_canceled env now ms h e w)"
| "do_call env (FailOrphans now ms ids g) w =
     (False, snd (mark_orphaned_experiments_failed env now ms ids g w))"

text \<open>
  A property of databases kept by each statement of a call is kept by the call: the calls
  are sequences of statements, and a rollback goes back to a database that had it.
\<close>

lemma insert_experiments_keeps:
  "(\<And>e. e \<in> set es \<Longrightarrow> stmt_keeps I (insert_experiment now input e)) \<Longrightarrow> I (w_db w) \<Longrightarrow>
   I (w_db (snd (insert_experiments env now input es w)))"
proof (induction es arbitrary: w)
  case (Cons e es)
  from run_sql_keeps [OF Cons.prems(1) Cons.prems(2), of e env] Cons show ?case
    by (auto split: prod.split sum.split)
qed simp

lemma create_batch_keeps:
  assumes "stmt_keeps I (insert_model (ci_ModelHash input) (ci_DSL input))"
    "stmt_keeps I (insert_batch now input)"
    "\<And>e. e \<in> set (ci_Experiments input) \<Longrightarrow> stmt_keeps I (insert_experiment now input e)"
    "I (w_db w)"
  shows "I (w_db (snd (create_experiment_batch env now input w)))"
proof -
  obtain r1 w1 where 1: "run_sql env (\<lambda>db. Inr ((), db)) w = (r1, w1)" by fastforce
  obtain r2 w2 where 2: "run_sql env (insert_model (ci_ModelHash input) (ci_DSL input)) w1 = (r2, w2)"
    by fastforce
  obtain r3 w3 where 3: "run_sql env (insert_batch now input) w2 = (r3, w3)" by fastforce
  obtain r4 w4 where 4: "insert_experiments env now input (ci_Experiments input) w3 = (r4, w4)"
    by fastforce
  have I1: "I (w_db w1)" using run_sql_keeps' [OF 1, of I] query_keeps [of I "\<lambda>_. ()"] assms(4) by simp
  have I2: "I (w_db w2)" using run_sql_keeps' [OF 2 assms(1) I1] .
  have I3: "I (w_db w3)" using run_sql_keeps' [OF 3 assms(2) I2] .
  have "I (w_db (snd (insert_experiments env now input (ci_Experiments input) w3)))"
    using assms(3) I3 by (rule insert_experiments_keeps)
  then have I4: "I (w_db w4)" using 4 by simp
  have commit: "I (w_db (snd (run_sql env (\<lambda>db. Inr ((), w_db w4)) (w4\<lparr>w_db := w_db w\<rparr>))))"
    using run_sql_keeps [of I "\<lambda>db. Inr ((), w_db w4)" "w4\<lparr>w_db := w_db w\<rparr>" env] I4 assms(4)
    by (simp add: stmt_keeps_def)
  show ?thesis
    using 1 2 3 4 I1 assms(4) commit
    by (auto simp: create_experiment_batch_def Let_def split: sum.split)
qed

lemma refresh_keeps:
  assumes "\<And>f. (\<And>b. b_batch_id (f b) = b_batch_id b \<and> b_model_hash (f b) = b_model_hash b) \<Longrightarrow>
      stmt_keeps I (update_batches (\<lambda>b. b_batch_id b = batchID) f)"
    and "I (w_db w)"
  shows "I (w_db (snd (refresh_batch_status env now batchID w)))"
proof -
  obtain r w1 where 1: "run_sql env (\<lambda>db. Inr (batch_counts batchID db, db)) w = (r, w1)" by fastforce
  have I1: "I (w_db w1)" using run_sql_keeps' [OF 1, of I] query_keeps [of I "batch_counts batchID"] assms(2) by simp
  show ?thesis
    using 1 I1 run_sql_keeps [OF assms(1) I1]
    by (auto simp: refresh_batch_status_def split: sum.split)
qed


section \<open>At most one dispatch\<close>

text \<open>The experiment is stored and is not pending.\<close>

definition taken :: "string \<Rightarrow> string \<Rightarrow> database \<Rightarrow> bool" where
  "taken h e db \<longleftrightarrow> (\<exists>x \<in> set (t_experiments db). is_experiment h e x) \<and>
     (\<forall>x \<in> set (t_experiments db). is_experiment h e x \<longrightarrow> x_status x \<noteq> statusPending)"

text \<open>The calls that may make it pending again: the scheduler's own rollback, and a result
  that a dispatcher reports with the status PENDING (it never does).\<close>

fun reopens :: "string \<Rightarrow> string \<Rightarrow> repo_call \<Rightarrow> bool" where
  "reopens h e (MarkPending now h' e' m) \<longleftrightarrow> h' = h \<and> e' = e"
| "reopens h e (StoreResult now node (Some res)) \<longleftrightarrow>
     es_ModelHash res = h \<and> es_ExperimentId res = e \<and> es_Status res = statusPending"
| "reopens h e _ \<longleftrightarrow> False"

fun starts :: "string \<Rightarrow> string \<Rightarrow> repo_call \<Rightarrow> bool" where
  "starts h e (MarkStarting now h' e' n) \<longleftrightarrow> h' = h \<and> e' = e"
| "starts h e _ \<longleftrightarrow> False"

lemma update_taken:
  assumes "\<And>x. exp_key (f x) = exp_key x"
    "\<And>x. is_experiment h e x \<Longrightarrow> P x \<Longrightarrow> x_status x \<noteq> statusPending \<Longrightarrow> x_status (f x) \<noteq> statusPending"
  shows "stmt_keeps (taken h e) (update_experiments P f)"
proof -
  define g where "g x = (if P x then f x else x)" for x
  have k: "is_experiment h e (g x) = is_experiment h e x" for x
    using assms(1) [of x] by (simp add: g_def is_experiment_def exp_key_def)
  have st: "x_status (g x) \<noteq> statusPending"
    if "is_experiment h e x" "x_status x \<noteq> statusPending" for x
    using assms(2) [of x] that by (simp add: g_def)
  have "taken h e (db\<lparr>t_experiments := map g (t_experiments db)\<rparr>)" if "taken h e db" for db
    using that k st by (auto simp: taken_def)
  then show ?thesis
    by (auto simp: stmt_keeps_def update_experiments_def g_def [abs_def])
qed

lemma other_tables_taken:
  "stmt_keeps (taken h e) (insert_model m d)"
  "stmt_keeps (taken h e) (insert_batch now i)"
  "stmt_keeps (taken h e) (update_batches P f)"
  "stmt_keeps (taken h e) (upsert_artifact a merge)"
  by (auto simp: stmt_keeps_def taken_def insert_model_def insert_batch_def update_batches_def
    upsert_artifact_def Let_def split: if_splits)

lemma insert_experiment_taken: "stmt_keeps (taken h e) (insert_experiment now i n)"
  by (auto simp: stmt_keeps_def taken_def insert_experiment_def is_experiment_def split: if_splits)

lemma taken_keeps:
  assumes "\<not> reopens h e call" "taken h e (w_db w)"
  shows "taken h e (w_db (snd (do_call env call w)))"
proof -
  have upd: "taken h e (w_db w') " if "run_sql env' (update_experiments P f) w = (r, w')"
    "\<And>x. exp_key (f x) = exp_key x"
    "\<And>x. is_experiment h e x \<Longrightarrow> P x \<Longrightarrow> x_status x \<noteq> statusPending \<Longrightarrow> x_status (f x) \<noteq> statusPending"
    for env' P f r w'
    using run_sql_keeps' [OF that(1) update_taken assms(2)] that(2,3) by blast
  have refr: "taken h e (w_db w') \<Longrightarrow> taken h e (w_db (snd (refresh_batch_status env now b w')))"
    for now b w'
    by (rule refresh_keeps) (rule other_tables_taken)
  show ?thesis
  proof (cases call)
    case (StoreResult now node res)
    have "taken h e (w_db w')"
      if "run_sql env (update_experiments (is_experiment (es_ModelHash q) (es_ExperimentId q))
          (store_result now node q)) w = (r, w')" "res = Some q" for q r w'
      using assms(1) StoreResult that(2)
      by (intro upd [OF that(1)]) (auto simp: store_result_def exp_key_def is_experiment_def)
    then show ?thesis
      using assms(2) refr unfolding StoreResult
      by (auto simp: update_experiment_result_def split: option.split prod.splits sum.splits list.splits)
        (metis snd_conv)+
  next
    case (Refresh now b)
    then show ?thesis using refr [OF assms(2)] by simp
  next
    case (CreateBatch now i)
    then show ?thesis
      using create_batch_keeps [OF other_tables_taken(1,2) insert_experiment_taken assms(2)] by simp
  next
    case (SetBatch now b st c m)
    then show ?thesis
      using run_sql_keeps [OF other_tables_taken(3) assms(2)] by (simp add: update_batch_status_def)
  next
    case (Building now h' os arch)
    then show ?thesis
      using run_sql_keeps [OF other_tables_taken(4) assms(2)]
      by (simp add: mark_model_artifact_building_def)
  next
    case (SaveCodegen now t r)
    then show ?thesis
      using run_sql_keeps [OF other_tables_taken(4) assms(2)] assms(2)
      by (simp add: save_codegen_result_def Let_def split: option.split)
  next
    case (MarkStarting now h' e' n)
    then show ?thesis
      by (auto simp: said_yes_def try_mark_experiment_starting_def exp_key_def dest!: upd
        split: prod.split sum.split)
  next
    case (MarkPending now h' e' m)
    then show ?thesis using assms(1)
      by (auto simp: mark_experiment_pending_def exp_key_def is_experiment_def dest!: upd
        split: prod.split sum.split)
  next
    case (MarkFailed now h' e' n m)
    then show ?thesis
      by (auto simp: mark_experiment_failed_to_start_def exp_key_def dest!: upd
        split: prod.split sum.split)
  next
    case (CancelPending now ms h' e')
    then show ?thesis
      by (auto simp: said_yes_def mark_pending_experiment_canceled_def exp_key_def dest!: upd
        split: prod.split sum.split)
  next
    case (FailOrphans now ms ids g)
    then show ?thesis
      by (auto simp: mark_orphaned_experiments_failed_def exp_key_def Let_def dest!: upd
        split: prod.split sum.split)
  qed
qed

lemma update_answered:
  "run_sql env (update_experiments P f) w = (Inr rows, w') \<Longrightarrow>
   rows = map f (filter P (t_experiments (w_db w))) \<and>
   w_db w' = (w_db w)\<lparr>t_experiments := map (\<lambda>x. if P x then f x else x) (t_experiments (w_db w))\<rparr>"
  by (auto simp: run_sql_def update_experiments_def Let_def split: verdict.splits)

lemma started_yes:
  assumes "said_yes (try_mark_experiment_starting env now h e n w) = (True, w')"
  shows "\<exists>rows. run_sql env (update_experiments (\<lambda>x. is_experiment h e x \<and> x_status x = statusPending)
     (\<lambda>x. x\<lparr>x_status := statusStarting, x_dispatcher_node_id := nilIfEmpty n,
      x_error_message := None, x_updated_at := now\<rparr>)) w = (Inr rows, w') \<and> length rows = 1"
  using assms unfolding said_yes_def try_mark_experiment_starting_def
  by (simp split: prod.splits sum.splits)

lemma update_taken_at:
  assumes "t_experiments db' = map (\<lambda>x. if P x then f x else x) (t_experiments db)"
    "filter P (t_experiments db) \<noteq> []"
    "\<And>x. is_experiment h e (f x) = is_experiment h e x" "\<And>x. x_status (f x) \<noteq> statusPending"
    "\<And>x. P x \<longleftrightarrow> is_experiment h e x \<and> x_status x = statusPending"
  shows "taken h e db'"
proof -
  from assms(2) obtain x where x: "x \<in> set (t_experiments db)" "P x" by (auto simp: filter_empty_conv)
  then have "\<exists>y \<in> set (t_experiments db'). is_experiment h e y"
    using assms(1,3) assms(5) by (intro bexI [of _ "f x"]) auto
  moreover have "x_status y \<noteq> statusPending" if "y \<in> set (t_experiments db')" "is_experiment h e y" for y
    using that assms(1,4,5) by (auto split: if_splits)
  ultimately show ?thesis by (simp add: taken_def)
qed

lemma mark_starting_takes:
  assumes "starts h e call" "do_call env call w = (True, w')"
  shows "taken h e (w_db w')"
proof -
  from assms(1) obtain now n where c: "call = MarkStarting now h e n" by (auto elim: starts.elims)
  from started_yes assms(2) obtain rows where
    "run_sql env (update_experiments (\<lambda>x. is_experiment h e x \<and> x_status x = statusPending)
     (\<lambda>x. x\<lparr>x_status := statusStarting, x_dispatcher_node_id := nilIfEmpty n,
      x_error_message := None, x_updated_at := now\<rparr>)) w = (Inr rows, w')" and l: "length rows = 1"
    unfolding c do_call.simps by blast
  note u = update_answered [OF this(1)]
  have x: "t_experiments (w_db w') = map (\<lambda>x. if is_experiment h e x \<and> x_status x = statusPending
     then x\<lparr>x_status := statusStarting, x_dispatcher_node_id := nilIfEmpty n,
      x_error_message := None, x_updated_at := now\<rparr> else x) (t_experiments (w_db w))"
    using u by simp
  show ?thesis
    by (rule update_taken_at [OF x]) (use u l in \<open>auto simp: is_experiment_def statusStarting_def statusPending_def\<close>)
qed
lemma update_none:
  "filter P (t_experiments (w_db w)) = [] \<Longrightarrow> run_sql env (update_experiments P f) w = (Inr rows, w') \<Longrightarrow>
   rows = []"
  using update_answered by fastforce

lemma taken_not_marked:
  assumes "starts h e call" "taken h e (w_db w)"
  shows "\<not> fst (do_call env call w)"
proof
  assume y: "fst (do_call env call w)"
  from assms(1) obtain now n where c: "call = MarkStarting now h e n" by (auto elim: starts.elims)
  from y have "said_yes (try_mark_experiment_starting env now h e n w) =
      (True, snd (said_yes (try_mark_experiment_starting env now h e n w)))"
    unfolding c do_call.simps by (simp add: prod_eq_iff)
  from started_yes [OF this] obtain rows w' where
    r: "run_sql env (update_experiments (\<lambda>x. is_experiment h e x \<and> x_status x = statusPending)
     (\<lambda>x. x\<lparr>x_status := statusStarting, x_dispatcher_node_id := nilIfEmpty n,
      x_error_message := None, x_updated_at := now\<rparr>)) w = (Inr rows, w')" "length rows = 1" by blast
  have "filter (\<lambda>x. is_experiment h e x \<and> x_status x = statusPending) (t_experiments (w_db w)) = []"
    using assms(2) by (simp add: taken_def filter_empty_conv)
  from update_none [OF this r(1)] r(2) show False by simp
qed

fun run_calls :: "sql_env \<Rightarrow> repo_call list \<Rightarrow> world \<Rightarrow> bool list" where
  "run_calls env [] w = []"
| "run_calls env (c # cs) w =
     (case do_call env c w of (ans, w') \<Rightarrow> ans # run_calls env cs w')"

lemma taken_never_again:
  "taken h e (w_db w) \<Longrightarrow> \<forall>c \<in> set cs. \<not> reopens h e c \<Longrightarrow>
   filter (\<lambda>(c, ans). starts h e c \<and> ans) (zip cs (run_calls env cs w)) = []"
proof (induction cs arbitrary: w)
  case (Cons c cs)
  obtain ans w' where s: "do_call env c w = (ans, w')" by fastforce
  have "taken h e (w_db w')" using taken_keeps [of h e c w env] Cons.prems s by simp
  with Cons.IH [of w'] Cons.prems s taken_not_marked [of h e c w env] show ?case by auto
qed simp

text \<open>
  C19. An experiment is dispatched at most once: in any interleaving of database calls, by
  any number of clients and whatever the database answers, \<open>TryMarkExperimentStarting\<close> says
  yes at most once for it, as long as nobody puts it back to PENDING in between.
\<close>

theorem dispatched_at_most_once:
  assumes "\<forall>c \<in> set cs. \<not> reopens h e c"
  shows "length (filter (\<lambda>(c, ans). starts h e c \<and> ans) (zip cs (run_calls env cs w))) \<le> 1"
  using assms
proof (induction cs arbitrary: w)
  case (Cons c cs)
  obtain ans w' where s: "do_call env c w = (ans, w')" by fastforce
  show ?case
  proof (cases "starts h e c \<and> ans")
    case True
    then have "taken h e (w_db w')" using mark_starting_takes [of h e c env w w'] s by simp
    from taken_never_again [OF this, of cs env] Cons.prems s True show ?thesis by simp
  next
    case False
    with Cons.IH [of w'] Cons.prems s show ?thesis by auto
  qed
qed simp

section \<open>Batch status and results\<close>

lemma batch_status_cases:
  assumes "counts = batch_counts b db" "xs = filter (\<lambda>x. x_batch_id x = b) (t_experiments db)"
  shows "batch_status_of counts =
    (if xs = [] then statusSubmitted
     else if \<exists>x \<in> set xs. x_status x \<notin> {statusFinished, statusFailed, statusCanceled} then statusRunning
     else if \<exists>x \<in> set xs. x_status x = statusFailed then statusFailed
     else if \<exists>x \<in> set xs. x_status x = statusCanceled then statusCanceled
     else statusFinished)"
proof -
  have n: "count_status S b db = length (filter (\<lambda>x. x_status x \<in> S) xs)" for S
    by (simp add: count_status_def assms(2) conj_commute)
  let ?n = "\<lambda>s. length (filter (\<lambda>x. x_status x = s) xs)"
  have fc: "length (filter (\<lambda>x. x_status x \<in> {statusFinished, statusCanceled}) xs) =
      ?n statusFinished + ?n statusCanceled"
    by (induction xs) (auto simp: statusFinished_def statusCanceled_def)
  have ffc: "length (filter (\<lambda>x. x_status x \<in> {statusFinished, statusFailed, statusCanceled}) xs) =
      ?n statusFinished + ?n statusFailed + ?n statusCanceled"
    by (induction xs) (auto simp: statusFinished_def statusFailed_def statusCanceled_def)
  have all: "length (filter Q xs) = length xs \<longleftrightarrow> (\<forall>x \<in> set xs. Q x)" for Q
    using sum_length_filter_compl [of Q xs] by (fastforce simp: filter_empty_conv)
  have pos: "length (filter Q xs) > 0 \<longleftrightarrow> (\<exists>x \<in> set xs. Q x)" for Q
    by (auto simp: filter_empty_conv)
  have a1: "?n statusFinished + ?n statusFailed + ?n statusCanceled = length xs \<longleftrightarrow>
      (\<forall>x \<in> set xs. x_status x \<in> {statusFinished, statusFailed, statusCanceled})"
    unfolding ffc [symmetric] all by (rule refl)
  have a2: "?n statusFinished + ?n statusCanceled = length xs \<longleftrightarrow>
      (\<forall>x \<in> set xs. x_status x \<in> {statusFinished, statusCanceled})"
    unfolding fc [symmetric] all by (rule refl)
  have st: "batch_status_of counts = (if xs = [] then statusSubmitted
      else if (\<exists>x \<in> set xs. x_status x = statusFailed) \<and>
         (\<forall>x \<in> set xs. x_status x \<in> {statusFinished, statusFailed, statusCanceled}) then statusFailed
      else if (\<exists>x \<in> set xs. x_status x = statusCanceled) \<and>
         (\<forall>x \<in> set xs. x_status x \<in> {statusFinished, statusCanceled}) then statusCanceled
      else if (\<forall>x \<in> set xs. x_status x = statusFinished) then statusFinished
      else statusRunning)"
    unfolding assms(1) batch_counts_def batch_status_of_def prod.case n assms(2) [symmetric] singleton_iff
      a1 a2 all pos length_0_conv if_cancel
    by (rule refl)
  show ?thesis
  proof (cases "\<exists>x \<in> set xs. x_status x \<notin> {statusFinished, statusFailed, statusCanceled}")
    case True
    then have "\<not> (\<forall>x \<in> set xs. x_status x \<in> {statusFinished, statusCanceled})"
      "\<not> (\<forall>x \<in> set xs. x_status x = statusFinished)" "xs \<noteq> []" by auto
    with True st show ?thesis by simp
  next
    case False
    then have f: "\<forall>x \<in> set xs. x_status x \<in> {statusFinished, statusFailed, statusCanceled}" by blast
    show ?thesis
    proof (cases "\<exists>x \<in> set xs. x_status x = statusFailed")
      case True
      with f st show ?thesis by auto
    next
      case no: False
      with f have fc: "\<forall>x \<in> set xs. x_status x \<in> {statusFinished, statusCanceled}" by blast
      show ?thesis
      proof (cases "\<exists>x \<in> set xs. x_status x = statusCanceled")
        case True
        with f fc no st show ?thesis by simp
      next
        case False
        with fc have "\<forall>x \<in> set xs. x_status x = statusFinished" by blast
        with False no f st show ?thesis by simp
      qed
    qed
  qed
qed

lemma run_sql_answered:
  "run_sql env stmt w = (Inr x, w') \<Longrightarrow> stmt (w_db w) = Inr (x, w_db w')"
  by (auto simp: run_sql_def Let_def split: verdict.splits sum.splits)

lemma mem_update:
  "y \<in> set (map (\<lambda>y. if P y then f y else y) ys) \<Longrightarrow> P y \<Longrightarrow> \<exists>z. y = f z"
  by (auto split: if_splits)

lemma update_batches_answered:
  "run_sql env (update_batches P f) w = (Inr u, w') \<Longrightarrow>
   w_db w' = (w_db w)\<lparr>t_batches := map (\<lambda>y. if P y then f y else y) (t_batches (w_db w))\<rparr>"
  by (auto simp: run_sql_def update_batches_def Let_def split: verdict.splits)

text \<open>
  C21. Refreshing a batch without an error leaves it with the status its experiments have
  together: SUBMITTED without experiments, RUNNING while one of them is not final, and then
  FAILED if one failed, else CANCELED if one was canceled, else FINISHED. No experiment and
  no other batch changes.
\<close>

theorem batch_status_meaning:
  assumes "refresh_batch_status env now b w = (Inr (), w')"
    and "xs = filter (\<lambda>x. x_batch_id x = b) (t_experiments (w_db w))"
  shows "(\<forall>y \<in> set (t_batches (w_db w')). b_batch_id y = b \<longrightarrow> b_status y =
      (if xs = [] then statusSubmitted
       else if \<exists>x \<in> set xs. x_status x \<notin> {statusFinished, statusFailed, statusCanceled} then statusRunning
       else if \<exists>x \<in> set xs. x_status x = statusFailed then statusFailed
       else if \<exists>x \<in> set xs. x_status x = statusCanceled then statusCanceled
       else statusFinished)) \<and>
    t_experiments (w_db w') = t_experiments (w_db w) \<and>
    filter (\<lambda>y. b_batch_id y \<noteq> b) (t_batches (w_db w')) =
      filter (\<lambda>y. b_batch_id y \<noteq> b) (t_batches (w_db w)) \<and>
    map b_batch_id (t_batches (w_db w')) = map b_batch_id (t_batches (w_db w))"
proof -
  obtain r w1 where 1: "run_sql env (\<lambda>db. Inr (batch_counts b db, db)) w = (r, w1)" by fastforce
  with assms(1) obtain counts where r: "r = Inr counts"
    by (cases r) (simp_all add: refresh_batch_status_def)
  from run_sql_answered [OF 1 [unfolded r]]
  have db1: "counts = batch_counts b (w_db w)" "w_db w1 = w_db w" by auto
  from assms(1) 1 r have "run_sql env (update_batches (\<lambda>y. b_batch_id y = b)
      (\<lambda>y. y\<lparr>b_status := batch_status_of counts, b_updated_at := now\<rparr>)) w1 = (Inr (), w')"
    by (simp add: refresh_batch_status_def)
  note db' = update_batches_answered [OF this, unfolded db1(2)]
  have others: "filter (\<lambda>y. b_batch_id y \<noteq> b) (map (\<lambda>y. if b_batch_id y = b then f y else y) ys) =
        filter (\<lambda>y. b_batch_id y \<noteq> b) ys"
      "map b_batch_id (map (\<lambda>y. if b_batch_id y = b then f y else y) ys) = map b_batch_id ys"
    if "\<And>y. b_batch_id (f y) = b_batch_id y" for f ys
    using that by (induction ys) simp_all
  have st: "b_status y = batch_status_of counts" if y: "y \<in> set (t_batches (w_db w'))" "b_batch_id y = b" for y
  proof -
    have "t_batches (w_db w') = map (\<lambda>y. if b_batch_id y = b
        then y\<lparr>b_status := batch_status_of counts, b_updated_at := now\<rparr> else y) (t_batches (w_db w))"
      by (simp add: db')
    from mem_update [OF y(1) [unfolded this]] y(2) obtain z where
      "y = z\<lparr>b_status := batch_status_of counts, b_updated_at := now\<rparr>" by blast
    then show ?thesis by simp
  qed
  have rest: "t_experiments (w_db w') = t_experiments (w_db w)"
    "filter (\<lambda>y. b_batch_id y \<noteq> b) (t_batches (w_db w')) =
      filter (\<lambda>y. b_batch_id y \<noteq> b) (t_batches (w_db w))"
    "map b_batch_id (t_batches (w_db w')) = map b_batch_id (t_batches (w_db w))"
    by (simp_all add: db' others del: map_map)
  show ?thesis
    unfolding batch_status_cases [OF db1(1) assms(2), symmetric] using st rest by blast
qed

lemma int64_u64: "int64ToU64 (u64ToI64 v) = min v maxInt64Uint"
proof -
  have "\<not> uint v < 0" "\<not> uint maxInt64Uint < 0" by simp_all
  then show ?thesis
    by (cases "v > maxInt64Uint") (auto simp: int64ToU64_def u64ToI64_def min_def)
qed

lemma null_nil [simp]: "nullString (nilIfEmpty s) = s" "nullInt64Value (nilIfZeroI64 n) = n"
  by (simp_all add: nullString_def nilIfEmpty_def nullInt64Value_def nilIfZeroI64_def)

lemma filter_key: "distinct (map f xs) \<Longrightarrow> x \<in> set xs \<Longrightarrow> filter (\<lambda>y. f y = f x) xs = [x]"
  by (induction xs) (auto simp: filter_empty_conv image_iff)

lemma key_unique:
  assumes "db_ok db" "x \<in> set (t_experiments db)" "is_experiment h e x"
  shows "filter (is_experiment h e) (t_experiments db) = [x]"
proof -
  have "distinct (map exp_key (t_experiments db))" using assms(1) by (simp add: db_ok_def)
  from filter_key [OF this assms(2)] assms(3) show ?thesis
    by (simp add: exp_key_def is_experiment_def [abs_def])
qed

lemma refresh_experiments [simp]:
  "t_experiments (w_db (snd (refresh_batch_status env now b w))) = t_experiments (w_db w)"
  by (rule refresh_keeps [of "\<lambda>db. t_experiments db = t_experiments (w_db w)"])
    (auto simp: stmt_keeps_def update_batches_def)

lemma scan_stored:
  assumes "is_experiment (es_ModelHash res) (es_ExperimentId res) x"
    "es_MetricsArtifact res = None \<or> ar_Key (the (es_MetricsArtifact res)) \<noteq> []"
  shows "scanExperiment (store_result now node res x) =
    res\<lparr>es_StatCount := min (es_StatCount res) maxInt64Uint,
        es_MetricsFileRows := min (es_MetricsFileRows res) maxInt64Uint,
        es_MemoryLimitBytes := min (es_MemoryLimitBytes res) maxInt64Uint,
        es_PeakMemoryBytes := min (es_PeakMemoryBytes res) maxInt64Uint\<rparr>"
proof -
  have art: "artifactFromNulls (case es_MetricsArtifact res of None \<Rightarrow> null_ref
      | Some a \<Rightarrow> \<lparr>rc_key = nilIfEmpty (ar_Key a), rc_sha256 = nilIfEmpty (ar_Sha256 a),
                 rc_size = Some (ar_Size a), rc_content_type = nilIfEmpty (ar_ContentType a)\<rparr>) =
      es_MetricsArtifact res"
    using assms(2)
    by (cases "es_MetricsArtifact res")
      (simp_all add: artifactFromNulls_def null_ref_def nilIfEmpty_def nullString_def nullInt64Value_def)
  show ?thesis
    using assms(1) by (simp add: scanExperiment_def store_result_def is_experiment_def int64_u64 art)
qed


section \<open>Creating a batch\<close>

lemma insert_experiment_answered:
  assumes "insert_experiment now input n db = Inr (u, db')"
  shows "\<exists>row. db' = db\<lparr>t_experiments := t_experiments db @ [row]\<rparr> \<and>
    (x_model_hash row, x_experiment_id row, x_batch_id row, x_status row, x_set_vars row) =
    (ci_ModelHash input, ne_ExperimentID n, ci_BatchID input, statusPending, ne_SetVars n)"
  using assms
  by (intro exI [of _ "last (t_experiments db')"]) (auto simp: insert_experiment_def split: if_splits)

lemma insert_batch_answered:
  assumes "insert_batch now input db = Inr (u, db')"
  shows "\<exists>batch. db' = db\<lparr>t_batches := t_batches db @ [batch]\<rparr> \<and>
    b_batch_id batch = ci_BatchID input \<and> b_status batch = statusSubmitted \<and>
    b_model_hash batch = ci_ModelHash input \<and> b_selected_goos batch = ci_SelectedGOOS input \<and>
    b_selected_goarch batch = ci_SelectedGOARCH input \<and>
    ci_BatchID input \<notin> b_batch_id ` set (t_batches db)"
  using assms
  by (intro exI [of _ "last (t_batches db')"]) (auto simp: insert_batch_def split: if_splits)

lemma insert_model_answered:
  assumes "insert_model h dsl db = Inr (u, db')"
  shows "\<exists>models. db' = db\<lparr>t_models := t_models db @ models\<rparr>"
  using assms
  by (cases "h \<in> fst ` set (t_models db)")
    (auto simp: insert_model_def intro: exI [of _ "[]"])

lemma insert_experiments_answered:
  "insert_experiments env now input es w = (Inr (), w') \<Longrightarrow>
   \<exists>rows. w_db w' = (w_db w)\<lparr>t_experiments := t_experiments (w_db w) @ rows\<rparr> \<and>
     map (\<lambda>x. (x_model_hash x, x_experiment_id x, x_batch_id x, x_status x, x_set_vars x)) rows =
     map (\<lambda>n. (ci_ModelHash input, ne_ExperimentID n, ci_BatchID input, statusPending, ne_SetVars n)) es"
proof (induction es arbitrary: w)
  case Nil
  then show ?case by (intro exI [of _ "[]"]) simp
next
  case (Cons n es)
  obtain r w1 where 1: "run_sql env (insert_experiment now input n) w = (r, w1)" by fastforce
  with Cons.prems obtain u where r: "r = Inr u" by (cases r) simp_all
  with 1 Cons.prems have "insert_experiments env now input es w1 = (Inr (), w')" by simp
  from Cons.IH [OF this] obtain rows where
    rows: "w_db w' = (w_db w1)\<lparr>t_experiments := t_experiments (w_db w1) @ rows\<rparr>"
      "map (\<lambda>x. (x_model_hash x, x_experiment_id x, x_batch_id x, x_status x, x_set_vars x)) rows =
       map (\<lambda>n. (ci_ModelHash input, ne_ExperimentID n, ci_BatchID input, statusPending, ne_SetVars n)) es"
    by blast
  from insert_experiment_answered [OF run_sql_answered [OF 1 [unfolded r]]] obtain row where
    "w_db w1 = (w_db w)\<lparr>t_experiments := t_experiments (w_db w) @ [row]\<rparr>"
    "(x_model_hash row, x_experiment_id row, x_batch_id row, x_status row, x_set_vars row) =
     (ci_ModelHash input, ne_ExperimentID n, ci_BatchID input, statusPending, ne_SetVars n)"
    by blast
  with rows show ?case by (intro exI [of _ "row # rows"]) simp
qed

lemma run_sql_db:
  "run_sql env stmt w = (r, w') \<Longrightarrow> w_db w' = w_db w \<or> (\<exists>x. stmt (w_db w) = Inr (x, w_db w'))"
  by (auto simp: run_sql_def Let_def split: verdict.splits sum.splits)

text \<open>The database with a whole new batch in it.\<close>

definition batch_added :: "create_input \<Rightarrow> database \<Rightarrow> database \<Rightarrow> bool" where
  "batch_added input db db' \<longleftrightarrow>
    (\<exists>batch rows models. db' = db\<lparr>t_models := t_models db @ models,
         t_batches := t_batches db @ [batch], t_experiments := t_experiments db @ rows\<rparr> \<and>
       b_batch_id batch = ci_BatchID input \<and> b_status batch = statusSubmitted \<and>
       b_model_hash batch = ci_ModelHash input \<and> b_selected_goos batch = ci_SelectedGOOS input \<and>
       b_selected_goarch batch = ci_SelectedGOARCH input \<and>
       ci_BatchID input \<notin> b_batch_id ` set (t_batches db) \<and>
       map (\<lambda>x. (x_model_hash x, x_experiment_id x, x_batch_id x, x_status x, x_set_vars x)) rows =
       map (\<lambda>n. (ci_ModelHash input, ne_ExperimentID n, ci_BatchID input, statusPending, ne_SetVars n))
         (ci_Experiments input))"

lemma create_batch_cases:
  assumes "create_experiment_batch env now input w = (r, w')"
  shows "(r \<noteq> Inr () \<and> w_db w' = w_db w) \<or> batch_added input (w_db w) (w_db w')"
    (is "?none \<or> ?all (w_db w')")
proof -
  note def = create_experiment_batch_def Let_def
  obtain r1 w1 where 1: "run_sql env (\<lambda>db. Inr ((), db)) w = (r1, w1)" by fastforce
  have db1: "w_db w1 = w_db w" using run_sql_db [OF 1] by auto
  obtain r2 w2 where 2: "run_sql env (insert_model (ci_ModelHash input) (ci_DSL input)) w1 = (r2, w2)"
    by fastforce
  obtain r3 w3 where 3: "run_sql env (insert_batch now input) w2 = (r3, w3)" by fastforce
  obtain r4 w4 where 4: "insert_experiments env now input (ci_Experiments input) w3 = (r4, w4)"
    by fastforce
  obtain r5 w5 where 5: "run_sql env (\<lambda>db. Inr ((), w_db w4)) (w4\<lparr>w_db := w_db w\<rparr>) = (r5, w5)"
    by fastforce
  show ?thesis
  proof (cases "isl r1 \<or> isl r2 \<or> isl r3 \<or> isl r4")
    case True
    then have ?none
      using assms 1 2 3 4 db1 by (cases r1; cases r2; cases r3; cases r4; auto simp: def)
    then show ?thesis ..
  next
    case False
    then have ok: "r1 = Inr ()" "r2 = Inr ()" "r3 = Inr ()" "r4 = Inr ()"
      by (cases r1; cases r2; cases r3; cases r4; simp)+
    have fin: "r = r5" "w' = w5" using assms 1 2 3 4 5 ok by (simp_all add: def)
    from insert_model_answered [OF run_sql_answered [OF 2 [unfolded ok]]] obtain models where
      db2: "w_db w2 = (w_db w)\<lparr>t_models := t_models (w_db w) @ models\<rparr>" unfolding db1 by blast
    from insert_batch_answered [OF run_sql_answered [OF 3 [unfolded ok]]] obtain batch where
      db3: "w_db w3 = (w_db w2)\<lparr>t_batches := t_batches (w_db w2) @ [batch]\<rparr>"
        "b_batch_id batch = ci_BatchID input" "b_status batch = statusSubmitted"
        "b_model_hash batch = ci_ModelHash input" "b_selected_goos batch = ci_SelectedGOOS input"
        "b_selected_goarch batch = ci_SelectedGOARCH input" "ci_BatchID input \<notin> b_batch_id ` set (t_batches (w_db w2))"
      by blast
    from insert_experiments_answered [OF 4 [unfolded ok]] obtain rows where
      db4: "w_db w4 = (w_db w3)\<lparr>t_experiments := t_experiments (w_db w3) @ rows\<rparr>"
        "map (\<lambda>x. (x_model_hash x, x_experiment_id x, x_batch_id x, x_status x, x_set_vars x)) rows =
         map (\<lambda>n. (ci_ModelHash input, ne_ExperimentID n, ci_BatchID input, statusPending, ne_SetVars n))
           (ci_Experiments input)"
      by blast
    have all: "?all (w_db w4)"
      unfolding batch_added_def
      by (rule exI [of _ batch], rule exI [of _ rows], rule exI [of _ models])
        (use db2 db3 db4 in simp)
    have db5: "w_db w5 = w_db w4 \<or> w_db w5 = w_db w" using run_sql_db [OF 5] by auto
    have "w_db w5 = w_db w4" if "r5 = Inr ()"
      using run_sql_answered [OF 5 [unfolded that]] by simp
    with db5 have "(r5 \<noteq> Inr () \<and> w_db w5 = w_db w) \<or> w_db w5 = w_db w4" by blast
    then show ?thesis
      unfolding fin by (rule disj_forward) (assumption, simp only: all)
  qed
qed

text \<open>
  C26. Creating a batch is all or nothing: whatever fails, the database is as before, or
  holds the batch as SUBMITTED with all its experiments, in order and PENDING; without an
  error it is the latter, and then the batch id was not taken.
\<close>

theorem batch_created_atomically:
  assumes "create_experiment_batch env now input w = (r, w')"
  shows "(r \<noteq> Inr () \<and> w_db w' = w_db w) \<or>
    (\<exists>batch rows models. w_db w' = (w_db w)\<lparr>t_models := t_models (w_db w) @ models,
         t_batches := t_batches (w_db w) @ [batch], t_experiments := t_experiments (w_db w) @ rows\<rparr> \<and>
       b_batch_id batch = ci_BatchID input \<and> b_status batch = statusSubmitted \<and>
       b_model_hash batch = ci_ModelHash input \<and>
       ci_BatchID input \<notin> b_batch_id ` set (t_batches (w_db w)) \<and>
       map (\<lambda>x. (x_model_hash x, x_experiment_id x, x_batch_id x, x_status x, x_set_vars x)) rows =
       map (\<lambda>n. (ci_ModelHash input, ne_ExperimentID n, ci_BatchID input, statusPending, ne_SetVars n))
         (ci_Experiments input))"
  using create_batch_cases [OF assms] unfolding batch_added_def by blast

section \<open>A small database\<close>

definition demo_input :: create_input where
  "demo_input = \<lparr>ci_BatchID = ''b1'', ci_ModelHash = ''m'', ci_DSL = ''dsl'', ci_SelectedGOOS = ''linux'',
     ci_SelectedGOARCH = ''amd64'', ci_StoreSource = False, ci_StoreBinary = True,
     ci_BuildTimeoutSec = 60,
     ci_Common = \<lparr>cc_StopRule = None, cc_Metrics = [], cc_MetricStep = Fin 0, cc_StoreMetrics = False,
       cc_MemoryLimitBytes = 7, cc_RunTimeoutMs = 9\<rparr>,
     ci_Experiments = [\<lparr>ne_ExperimentID = ''e1'', ne_SetVars = []\<rparr>, \<lparr>ne_ExperimentID = ''e2'', ne_SetVars = []\<rparr>]\<rparr>"

definition empty_world :: world where
  "empty_world = \<lparr>w_db = \<lparr>t_models = [], t_artifacts = [], t_batches = [], t_experiments = []\<rparr>, w_sent = 0\<rparr>"

definition demo_world :: world where
  "demo_world = snd (create_experiment_batch (\<lambda>_. Done) 5 demo_input empty_world)"

definition demo_result :: experiment_status where
  "demo_result = \<lparr>es_ModelHash = ''m'', es_ExperimentId = ''e1'', es_Status = statusFinished,
     es_FinishReason = ''ready_and_end'', es_ExitCode = 0, es_ErrorMessage = [],
     es_FinalMetrics = [''x'' \<mapsto> ''1''], es_StatCount = 3, es_MetricsFileRows = 9223372036854775808,
     es_MetricsArtifact = None, es_StartedAtUnixMs = 1, es_FinishedAtUnixMs = 2, es_DurationMs = 1,
     es_MemoryLimitBytes = 7, es_PeakMemoryBytes = 6, es_StderrTail = []\<rparr>"


theorem dispatched_at_most_once_witness:
  "length (filter (\<lambda>(c, ans). starts ''m'' ''e1'' c \<and> ans)
     (zip [MarkStarting 6 ''m'' ''e1'' ''n1'', MarkStarting 7 ''m'' ''e1'' ''n2'']
       (run_calls (\<lambda>_. Done) [MarkStarting 6 ''m'' ''e1'' ''n1'', MarkStarting 7 ''m'' ''e1'' ''n2'']
         demo_world))) \<le> 1 \<and>
   run_calls (\<lambda>_. Done) [MarkStarting 6 ''m'' ''e1'' ''n1'', MarkStarting 7 ''m'' ''e1'' ''n2''] demo_world =
     [True, False]"
proof (intro conjI dispatched_at_most_once)
  show "run_calls (\<lambda>_. Done) [MarkStarting 6 ''m'' ''e1'' ''n1'', MarkStarting 7 ''m'' ''e1'' ''n2'']
      demo_world = [True, False]" by code_simp
qed simp

theorem batch_status_meaning_witness:
  "\<exists>w'. refresh_batch_status (\<lambda>_. Done) 8 ''b1'' demo_world = (Inr (), w') \<and>
    (\<forall>y \<in> set (t_batches (w_db w')). b_batch_id y = ''b1'' \<longrightarrow> b_status y = statusRunning)"
proof -
  obtain r w' where r: "refresh_batch_status (\<lambda>_. Done) 8 ''b1'' demo_world = (r, w')" by fastforce
  have "fst (refresh_batch_status (\<lambda>_. Done) 8 ''b1'' demo_world) = Inr ()" by code_simp
  with r have ok: "refresh_batch_status (\<lambda>_. Done) 8 ''b1'' demo_world = (Inr (), w')" by simp
  have "map x_status (filter (\<lambda>x. x_batch_id x = ''b1'') (t_experiments (w_db demo_world))) =
      [statusPending, statusPending]" by code_simp
  moreover obtain xs where xs: "xs = filter (\<lambda>x. x_batch_id x = ''b1'') (t_experiments (w_db demo_world))"
    by blast
  ultimately have m: "map x_status xs = [statusPending, statusPending]" by (simp only:)
  have "x_status ` set xs = set [statusPending, statusPending]" unfolding m [symmetric] by (simp only: set_map)
  then have "statusPending \<in> x_status ` set xs" by (simp only: list.set insert_iff simp_thms)
  then obtain x where "x \<in> set xs" "x_status x = statusPending" by (elim imageE) simp
  then have st: "xs \<noteq> []" "\<exists>x \<in> set xs. x_status x \<notin> {statusFinished, statusFailed, statusCanceled}"
    by (auto simp: statusPending_def statusFinished_def statusFailed_def statusCanceled_def intro!: bexI [of _ x])
  from batch_status_meaning [OF ok xs] st ok show ?thesis by (intro exI [of _ w']) simp
qed


theorem batch_created_atomically_witness:
  "\<exists>batch rows models. w_db demo_world = (w_db empty_world)\<lparr>t_models := t_models (w_db empty_world) @ models,
         t_batches := t_batches (w_db empty_world) @ [batch],
         t_experiments := t_experiments (w_db empty_world) @ rows\<rparr> \<and>
     map x_experiment_id rows = [''e1'', ''e2'']"
proof -
  have "fst (create_experiment_batch (\<lambda>_. Done) 5 demo_input empty_world) = Inr ()" by code_simp
  then have c: "create_experiment_batch (\<lambda>_. Done) 5 demo_input empty_world = (Inr (), demo_world)"
    by (simp add: demo_world_def prod_eq_iff)
  from batch_created_atomically [OF c] obtain batch rows models where
    "w_db demo_world = (w_db empty_world)\<lparr>t_models := t_models (w_db empty_world) @ models,
         t_batches := t_batches (w_db empty_world) @ [batch],
         t_experiments := t_experiments (w_db empty_world) @ rows\<rparr>"
    and m: "map (\<lambda>x. (x_model_hash x, x_experiment_id x, x_batch_id x, x_status x, x_set_vars x)) rows =
       map (\<lambda>n. (ci_ModelHash demo_input, ne_ExperimentID n, ci_BatchID demo_input, statusPending,
         ne_SetVars n)) (ci_Experiments demo_input)" by blast
  moreover from m have "map x_experiment_id rows = [''e1'', ''e2'']"
    by (auto simp: demo_input_def map_eq_Cons_conv)
  ultimately show ?thesis
    by (intro exI [of _ batch] exI [of _ rows] exI [of _ models] conjI)
qed

end
