(* ===== verification/Scheduler.thy ===== *)
theory Scheduler
  imports Repository Node_Registry "HOL-Library.Sublist"
begin

text \<open>
  The scheduler of the control plane (controlplane/scheduler.go): one tick pops everything
  that waits, reserves a node for each experiment, acquires the experiment in the database,
  and only then asks the dispatcher to start it. What lies outside (the database's answers,
  the clock, the order of Go's map iteration, the dispatchers, the provisioner) is an
  environment; the requests sent are kept in the state as a trace.
\<close>

section \<open>State and environment\<close>

text \<open>The settings of controlplane/config.go.\<close>

record control_config =
  kc_ListenAddr :: string
  kc_DatabaseURL :: string
  kc_DefaultGOOS :: string
  kc_DefaultGOARCH :: string
  kc_NodeTTL :: duration
  kc_NodeLostGracePeriod :: duration
  kc_NodeLostReconcileInterval :: duration
  kc_MaxNodeFailures :: int
  kc_SchedulerInterval :: duration
  kc_DispatcherRequestTimeout :: duration
  kc_ScaleOutAfter :: duration
  kc_ScaleOutCooldown :: duration
  kc_NATSURL :: string
  kc_CodegenStream :: string
  kc_CodegenSubject :: string
  kc_CodegenReplyPrefix :: string
  kc_CodegenRequestTimeout :: duration
  kc_EnableReflection :: bool

text \<open>The checks of \<open>parseConfig\<close> on the parsed flags; the error, if any.\<close>

definition check_config :: "control_config \<Rightarrow> string option" where
  "check_config cfg =
     (if kc_ListenAddr cfg = [] then Some ''empty listen-addr''
      else if kc_DatabaseURL cfg = [] then Some ''empty database-url''
      else if kc_DefaultGOOS cfg = [] then Some ''empty default-goos''
      else if kc_DefaultGOARCH cfg = [] then Some ''empty default-goarch''
      else if kc_NodeTTL cfg \<le> 0 then Some ''node-ttl must be > 0''
      else if kc_NodeLostGracePeriod cfg \<le> 0 then Some ''node-lost-grace-period must be > 0''
      else if kc_NodeLostReconcileInterval cfg \<le> 0 then
        Some ''node-lost-reconcile-interval must be > 0''
      else if kc_SchedulerInterval cfg \<le> 0 then Some ''scheduler-interval must be > 0''
      else if kc_DispatcherRequestTimeout cfg \<le> 0 then
        Some ''dispatcher-request-timeout must be > 0''
      else if kc_ScaleOutAfter cfg \<le> 0 then Some ''scale-out-after must be > 0''
      else if kc_ScaleOutCooldown cfg \<le> 0 then Some ''scale-out-cooldown must be > 0''
      else if kc_NATSURL cfg = [] then Some ''empty nats-url''
      else if kc_CodegenStream cfg = [] then Some ''empty codegen-stream''
      else if kc_CodegenSubject cfg = [] then Some ''empty codegen-subject''
      else if kc_CodegenReplyPrefix cfg = [] then Some ''empty codegen-reply-prefix''
      else if kc_CodegenRequestTimeout cfg \<le> 0 then Some ''codegen-request-timeout must be > 0''
      else if kc_MaxNodeFailures cfg \<le> 0 then Some ''max-node-failures must be > 0''
      else None)"

record scale_out_request =
  so_PendingExperiments :: nat
  so_NeedNodes :: nat
  so_GOOS :: string
  so_GOARCH :: string
  so_MemoryLimit :: u64
  so_OldestPendingFor :: duration

text \<open>
  The clock is read at several places while one record is handled: \<open>ke_clock i j\<close> is the
  \<open>j\<close>-th reading for the \<open>i\<close>-th record. \<open>ke_start i\<close> is what calling \<open>StartExperiment\<close> on
  an address gives for the \<open>i\<close>-th record, an error or a response.
\<close>

record control_env =
  ke_sql :: sql_env
  ke_clock :: "nat \<Rightarrow> nat \<Rightarrow> instant"
  ke_order :: "nat \<Rightarrow> string list"
  ke_dial :: "string \<Rightarrow> string option"
  ke_start :: "nat \<Rightarrow> string \<Rightarrow> start_request \<Rightarrow> string + start_response"
  ke_provisioner :: bool

record control_state =
  cs_world :: world
  cs_nodes :: node_registry
  cs_queue :: pending_queue
  cs_lastScaleOut :: instant
  cs_startCalls :: "(string \<times> start_request) list"
  cs_scaleOuts :: "scale_out_request list"

section \<open>Starting one experiment\<close>

datatype startOutcome =
    startOutcomeAccepted
  | startOutcomeRetryable
  | startOutcomeFatal
  | startOutcomeAlreadyRunning
  | startOutcomeAmbiguous

definition isTransientRejectCode :: "string \<Rightarrow> bool" where
  "isTransientRejectCode code \<longleftrightarrow>
     code = ''no_free_slots'' \<or> code = ''not_enough_memory'' \<or> code = ''request_canceled''"

definition isAlreadyRunningRejectCode :: "string \<Rightarrow> bool" where
  "isAlreadyRunningRejectCode code \<longleftrightarrow> code = ''experiment_already_running''"

text \<open>\<open>grpc.NewClient\<close> is a parameter; only the check of the address is the program's.\<close>

definition new_dispatcher_client :: "(string \<Rightarrow> string option) \<Rightarrow> string \<Rightarrow> string + string" where
  "new_dispatcher_client dial address =
     (if address = [] then Inl ''empty dispatcher address''
      else case dial address of Some err \<Rightarrow> Inl err | None \<Rightarrow> Inr address)"

definition start_request_of :: "schedule_record \<Rightarrow> start_request" where
  "start_request_of record =
     \<lparr>sq_ModelHash = sc_ModelHash record, sq_ExperimentId = sc_ExperimentID record,
      sq_Binary = Some \<lparr>ba_Key = sc_BinaryKey record, ba_Sha256 = sc_BinarySHA256 record\<rparr>,
      sq_SetVars = sc_SetVars record, sq_StopRule = sc_StopRule record,
      sq_Metrics = sc_Metrics record, sq_MetricStep = sc_MetricStep record,
      sq_StoreMetrics = sc_StoreMetrics record,
      sq_MemoryLimitBytes = sc_MemoryLimitBytes record, sq_RunTimeoutMs = sc_RunTimeoutMs record\<rparr>"

definition classify_response :: "start_response \<Rightarrow> startOutcome \<times> string" where
  "classify_response resp =
     (if \<not> sp_Accepted resp then
        (let message = sp_Message resp;
             message = (if message = [] then sp_ErrorCode resp else message);
             message = (if message = [] then ''dispatcher rejected experiment'' else message)
         in if isAlreadyRunningRejectCode (sp_ErrorCode resp) then (startOutcomeAlreadyRunning, message)
            else if isTransientRejectCode (sp_ErrorCode resp) then (startOutcomeRetryable, message)
            else (startOutcomeFatal, message))
      else (startOutcomeAccepted, []))"

text \<open>The error that the function also returns is only logged; it is left out.\<close>

definition startExperimentOnNode ::
  "control_env \<Rightarrow> nat \<Rightarrow> schedule_record \<Rightarrow> node_status \<Rightarrow> control_state \<Rightarrow>
   (startOutcome \<times> string) \<times> control_state" where
  "startExperimentOnNode env i record node s =
     (case new_dispatcher_client (ke_dial env) (ns_Address node) of
        Inl err \<Rightarrow> ((startOutcomeAmbiguous, err), s)
      | Inr address \<Rightarrow>
          (let req = start_request_of record;
               s = s\<lparr>cs_startCalls := cs_startCalls s @ [(address, req)]\<rparr>
           in case ke_start env i address req of
                Inl err \<Rightarrow> ((startOutcomeAmbiguous, err), s)
              | Inr resp \<Rightarrow> (classify_response resp, s)))"

section \<open>One tick\<close>

record tick =
  tk_state :: control_state
  tk_scheduled :: nat
  tk_noNode :: nat
  tk_firstBlocked :: "schedule_record option"

definition release_for :: "string \<Rightarrow> schedule_record \<Rightarrow> control_state \<Rightarrow> control_state" where
  "release_for nodeID record s =
     s\<lparr>cs_nodes := release_reservation nodeID (sc_MemoryLimitBytes record) (cs_nodes s)\<rparr>"

definition enqueue_again :: "instant \<Rightarrow> schedule_record \<Rightarrow> control_state \<Rightarrow> control_state" where
  "enqueue_again now record s = s\<lparr>cs_queue := snd (pq_enqueue now (Some record) (cs_queue s))\<rparr>"

definition node_succeeded :: "string \<Rightarrow> control_state \<Rightarrow> control_state" where
  "node_succeeded nodeID s = s\<lparr>cs_nodes := mark_node_succeeded nodeID (cs_nodes s)\<rparr>"

text \<open>Errors of \<open>RefreshBatchStatus\<close> are only logged.\<close>

definition refresh_batch :: "control_env \<Rightarrow> instant \<Rightarrow> string \<Rightarrow> control_state \<Rightarrow> control_state" where
  "refresh_batch env now batchID s =
     s\<lparr>cs_world := snd (refresh_batch_status (ke_sql env) now batchID (cs_world s))\<rparr>"

text \<open>What follows an outcome: the new state, and whether the record counts as scheduled.\<close>

definition after_outcome ::
  "control_env \<Rightarrow> control_config \<Rightarrow> nat \<Rightarrow> schedule_record \<Rightarrow> string \<Rightarrow> startOutcome \<Rightarrow> string \<Rightarrow>
   control_state \<Rightarrow> control_state \<times> bool" where
  "after_outcome env cfg i record nodeID outcome message s =
     (let h = sc_ModelHash record; e = sc_ExperimentID record in
      case outcome of
        startOutcomeAccepted \<Rightarrow>
          (refresh_batch env (ke_clock env i 2) (sc_BatchID record) (node_succeeded nodeID s), True)
      | startOutcomeRetryable \<Rightarrow>
          (let s = node_succeeded nodeID (release_for nodeID record s) in
           case mark_experiment_pending (ke_sql env) (ke_clock env i 2) h e message (cs_world s) of
             (Inl markErr, w) \<Rightarrow> (s\<lparr>cs_world := w\<rparr>, False)
           | (Inr _, w) \<Rightarrow> (enqueue_again (ke_clock env i 3) record (s\<lparr>cs_world := w\<rparr>), False))
      | startOutcomeFatal \<Rightarrow>
          (let s = node_succeeded nodeID (release_for nodeID record s) in
           case mark_experiment_failed_to_start (ke_sql env) (ke_clock env i 2) h e nodeID message
                  (cs_world s) of
             (Inl markErr, w) \<Rightarrow> (s\<lparr>cs_world := w\<rparr>, False)
           | (Inr _, w) \<Rightarrow>
               (refresh_batch env (ke_clock env i 3) (sc_BatchID record) (s\<lparr>cs_world := w\<rparr>), False))
      | startOutcomeAlreadyRunning \<Rightarrow>
          (refresh_batch env (ke_clock env i 2) (sc_BatchID record) (node_succeeded nodeID s), True)
      | startOutcomeAmbiguous \<Rightarrow>
          (refresh_batch env (ke_clock env i 2) (sc_BatchID record)
             (s\<lparr>cs_nodes := snd (mark_node_failed nodeID (word_of_int (kc_MaxNodeFailures cfg)) (cs_nodes s))\<rparr>),
           False))"

text \<open>The body of the loop of \<open>RunOnce\<close>, for the \<open>i\<close>-th record popped.\<close>

definition schedule_one ::
  "control_env \<Rightarrow> control_config \<Rightarrow> nat \<Rightarrow> schedule_record \<Rightarrow> tick \<Rightarrow> tick" where
  "schedule_one env cfg i record t =
     (let s = tk_state t in
      case pick_and_reserve (ke_clock env i 0) (ke_order env i) (sc_GOOS record) (sc_GOARCH record)
             (sc_MemoryLimitBytes record) (cs_nodes s) of
        (None, nodes) \<Rightarrow>
          t\<lparr>tk_noNode := tk_noNode t + 1,
            tk_firstBlocked := (case tk_firstBlocked t of None \<Rightarrow> Some record | Some b \<Rightarrow> Some b),
            tk_state := enqueue_again (ke_clock env i 1) record (s\<lparr>cs_nodes := nodes\<rparr>)\<rparr>
      | (Some node, nodes) \<Rightarrow>
          (let nodeID = ns_NodeId node; s = s\<lparr>cs_nodes := nodes\<rparr> in
           case try_mark_experiment_starting (ke_sql env) (ke_clock env i 1) (sc_ModelHash record)
                  (sc_ExperimentID record) nodeID (cs_world s) of
             (Inl err, w) \<Rightarrow>
               t\<lparr>tk_state := enqueue_again (ke_clock env i 2) record
                   (release_for nodeID record (s\<lparr>cs_world := w\<rparr>))\<rparr>
           | (Inr acquired, w) \<Rightarrow>
               if \<not> acquired then t\<lparr>tk_state := release_for nodeID record (s\<lparr>cs_world := w\<rparr>)\<rparr>
               else
                 (case startExperimentOnNode env i record node (s\<lparr>cs_world := w\<rparr>) of
                    ((outcome, message), s) \<Rightarrow>
                      (case after_outcome env cfg i record nodeID outcome message s of
                         (s, scheduled) \<Rightarrow>
                           t\<lparr>tk_state := s,
                             tk_scheduled := tk_scheduled t + (if scheduled then 1 else 0)\<rparr>))))"

fun schedule_loop ::
  "control_env \<Rightarrow> control_config \<Rightarrow> nat \<Rightarrow> schedule_record list \<Rightarrow> tick \<Rightarrow> tick" where
  "schedule_loop env cfg i [] t = t"
| "schedule_loop env cfg i (record # records) t =
     schedule_loop env cfg (Suc i) records (schedule_one env cfg i record t)"

text \<open>\<open>n\<close> is the number of records of the tick: the clock is read again after the loop.\<close>

definition maybeRequestScaleOut ::
  "control_env \<Rightarrow> control_config \<Rightarrow> nat \<Rightarrow> schedule_record option \<Rightarrow> control_state \<Rightarrow> control_state" where
  "maybeRequestScaleOut env cfg n record s =
     (case record of
        None \<Rightarrow> s
      | Some r \<Rightarrow>
          if \<not> ke_provisioner env then s
          else
            (let oldestPendingFor = time_sub (ke_clock env n 0) (sc_PendingSince r) in
             if oldestPendingFor < kc_ScaleOutAfter cfg then s
             else if cs_lastScaleOut s \<noteq> zero_time \<and>
                     time_sub (ke_clock env n 1) (cs_lastScaleOut s) < kc_ScaleOutCooldown cfg then s
             else
               s\<lparr>cs_lastScaleOut := ke_clock env n 2,
                 cs_scaleOuts := cs_scaleOuts s @
                   [\<lparr>so_PendingExperiments = pq_len (cs_queue s), so_NeedNodes = 1,
                     so_GOOS = sc_GOOS r, so_GOARCH = sc_GOARCH r,
                     so_MemoryLimit = sc_MemoryLimitBytes r,
                     so_OldestPendingFor = oldestPendingFor\<rparr>]\<rparr>))"

definition RunOnce :: "control_env \<Rightarrow> control_config \<Rightarrow> control_state \<Rightarrow> control_state" where
  "RunOnce env cfg s =
     (case pq_pop_batch (int (pq_len (cs_queue s))) (cs_queue s) of (records, q) \<Rightarrow>
        (let s = s\<lparr>cs_queue := q\<rparr> in
         if length records = 0 then s
         else
           (let t = schedule_loop env cfg 0 records
                      \<lparr>tk_state = s, tk_scheduled = 0, tk_noNode = 0, tk_firstBlocked = None\<rparr>
            in if tk_noNode t > 0
               then maybeRequestScaleOut env cfg (length records) (tk_firstBlocked t) (tk_state t)
               else tk_state t)))"

section \<open>The other methods\<close>

definition scheduler_enqueue ::
  "(instant \<times> schedule_record option) list \<Rightarrow> control_state \<Rightarrow> nat \<times> control_state" where
  "scheduler_enqueue records s =
     (case pq_enqueue_many records (cs_queue s) of (added, q) \<Rightarrow> (added, s\<lparr>cs_queue := q\<rparr>))"

definition scheduler_remove :: "string \<Rightarrow> string \<Rightarrow> control_state \<Rightarrow> bool \<times> control_state" where
  "scheduler_remove modelHash experimentID s =
     (case pq_remove modelHash experimentID (cs_queue s) of (removed, q) \<Rightarrow> (removed, s\<lparr>cs_queue := q\<rparr>))"

fun refresh_all :: "sql_env \<Rightarrow> instant \<Rightarrow> string list \<Rightarrow> world \<Rightarrow> world" where
  "refresh_all env now [] w = w"
| "refresh_all env now (batchID # bs) w =
     refresh_all env now bs (snd (refresh_batch_status env now batchID w))"

text \<open>
  The ids of the live nodes go to the database as a list in the order of the map; \<open>arrange\<close>
  is the order in which the second map, of the batches touched, is visited.
\<close>

definition ReconcileLostNodes ::
  "control_env \<Rightarrow> control_config \<Rightarrow> string list \<Rightarrow> (string list \<Rightarrow> string list) \<Rightarrow> int \<Rightarrow>
   control_state \<Rightarrow> control_state" where
  "ReconcileLostNodes env cfg order arrange nowMs s =
     (let activeIDs = filter (\<lambda>nodeID. nodeID \<in> active_node_ids (ke_clock env 0 0) (cs_nodes s)) order in
      case mark_orphaned_experiments_failed (ke_sql env) (ke_clock env 0 1) nowMs activeIDs
             (kc_NodeLostGracePeriod cfg) (cs_world s) of
        (Inl err, w) \<Rightarrow> s\<lparr>cs_world := w\<rparr>
      | (Inr [], w) \<Rightarrow> s\<lparr>cs_world := w\<rparr>
      | (Inr lost, w) \<Rightarrow>
          s\<lparr>cs_world := refresh_all (ke_sql env) (ke_clock env 0 2)
               (arrange (remdups (map oe_BatchID lost))) w\<rparr>)"

section \<open>What a call does to the rows\<close>

text \<open>The experiment has a row that waits.\<close>

definition pending_row :: "string \<Rightarrow> string \<Rightarrow> database \<Rightarrow> bool" where
  "pending_row h e db \<longleftrightarrow>
     (\<exists>x \<in> set (t_experiments db). is_experiment h e x \<and> x_status x = statusPending)"

text \<open>An update of one experiment leaves the others as they are.\<close>

definition touches_only :: "string \<Rightarrow> string \<Rightarrow> database \<Rightarrow> database \<Rightarrow> bool" where
  "touches_only h e db db' \<longleftrightarrow>
     (\<forall>h' e'. (h', e') \<noteq> (h, e) \<longrightarrow> pending_row h' e' db' = pending_row h' e' db)"

lemma touches_only_refl [simp]: "touches_only h e db db"
  by (simp add: touches_only_def)

lemma touches_only_trans [trans]:
  "touches_only h e db db' \<Longrightarrow> touches_only h e db' db'' \<Longrightarrow> touches_only h e db db''"
  by (simp add: touches_only_def)

lemma touches_only_same [simp]:
  "t_experiments db' = t_experiments db \<Longrightarrow> touches_only h e db db'"
  by (simp add: touches_only_def pending_row_def)

lemma pending_row_same:
  "t_experiments db' = t_experiments db \<Longrightarrow> pending_row h e db' = pending_row h e db"
  by (simp add: pending_row_def)

lemma update_result:
  assumes "run_sql env (update_experiments P f) w = (r, w')"
  shows "(isl r \<and> w_db w' = w_db w) \<or>
    t_experiments (w_db w') = map (\<lambda>x. if P x then f x else x) (t_experiments (w_db w))"
  using assms by (auto simp: run_sql_def update_experiments_def Let_def split: verdict.splits)

lemma update_touches_only:
  assumes "run_sql env (update_experiments P f) w = (r, w')"
    "\<And>x. P x \<Longrightarrow> is_experiment h e x" "\<And>x. exp_key (f x) = exp_key x"
  shows "touches_only h e (w_db w) (w_db w')"
proof (cases "isl r \<and> w_db w' = w_db w")
  case False
  with update_result [OF assms(1)] have
    m: "t_experiments (w_db w') = map (\<lambda>x. if P x then f x else x) (t_experiments (w_db w))" by blast
  have "pending_row h' e' (w_db w') = pending_row h' e' (w_db w)" if "(h', e') \<noteq> (h, e)" for h' e'
  proof -
    have "(is_experiment h' e' (if P x then f x else x) \<and> x_status (if P x then f x else x) = statusPending) =
        (is_experiment h' e' x \<and> x_status x = statusPending)" for x
      using assms(2) [of x] assms(3) [of x] that by (auto simp: is_experiment_def exp_key_def)
    then show ?thesis unfolding pending_row_def m set_map by (simp only: bex_simps)
  qed
  then show ?thesis by (simp add: touches_only_def)
qed simp

lemma mark_starting_effect:
  assumes "try_mark_experiment_starting env now h e n w = (r, w')"
  shows "touches_only h e (w_db w) (w_db w') \<and>
    (\<forall>b. r = Inr b \<longrightarrow> \<not> pending_row h e (w_db w') \<and> (b \<longrightarrow> pending_row h e (w_db w)))"
proof -
  let ?P = "\<lambda>x. is_experiment h e x \<and> x_status x = statusPending"
  let ?f = "\<lambda>x. x\<lparr>x_status := statusStarting, x_dispatcher_node_id := nilIfEmpty n,
      x_error_message := None, x_updated_at := now\<rparr>"
  obtain q w1 where sql: "run_sql env (update_experiments ?P ?f) w = (q, w1)" by fastforce
  note eq = assms [unfolded try_mark_experiment_starting_def sql prod.case]
  then have w': "w' = w1" by (cases q) simp_all
  have "touches_only h e (w_db w) (w_db w')"
    unfolding w' by (rule update_touches_only [OF sql]) (simp_all add: exp_key_def)
  moreover have "\<not> pending_row h e (w_db w') \<and> (b \<longrightarrow> pending_row h e (w_db w))" if "r = Inr b" for b
  proof -
    from that eq obtain rows where q: "q = Inr rows" and b: "b \<longleftrightarrow> length rows = 1"
      by (cases q) auto
    from update_answered [OF sql [unfolded q]] have
      m: "t_experiments (w_db w') = map (\<lambda>x. if ?P x then ?f x else x) (t_experiments (w_db w))"
      and rows: "rows = map ?f (filter ?P (t_experiments (w_db w)))" unfolding w' by simp_all
    have "\<not> (is_experiment h e (if ?P x then ?f x else x) \<and>
        x_status (if ?P x then ?f x else x) = statusPending)" for x
      by (auto simp: is_experiment_def)
    then have "\<not> pending_row h e (w_db w')" unfolding pending_row_def m set_map by blast
    moreover have "pending_row h e (w_db w)" if "filter ?P (t_experiments (w_db w)) \<noteq> []"
      using that unfolding pending_row_def filter_empty_conv by blast
    moreover have "filter ?P (t_experiments (w_db w)) \<noteq> []" if b using that b rows by auto
    ultimately show ?thesis by blast
  qed
  ultimately show ?thesis by blast
qed

text \<open>The two ways to give an acquired experiment back.\<close>

lemma mark_pending_effect:
  assumes "mark_experiment_pending env now h e m w = (r, w')"
  shows "touches_only h e (w_db w) (w_db w') \<and>
    (isl r \<longrightarrow> (\<forall>n err. env n \<noteq> DoneUnanswered err) \<longrightarrow> w_db w' = w_db w)"
proof -
  let ?f = "\<lambda>x. x\<lparr>x_status := statusPending, x_dispatcher_node_id := None,
      x_error_message := nilIfEmpty m, x_updated_at := now\<rparr>"
  obtain q w1 where sql: "run_sql env (update_experiments (is_experiment h e) ?f) w = (q, w1)" by fastforce
  from assms [unfolded mark_experiment_pending_def sql prod.case]
  have w': "w' = w1" and r: "isl r = isl q" by (cases q; auto)+
  have "touches_only h e (w_db w) (w_db w')"
    unfolding w' by (rule update_touches_only [OF sql]) (simp_all add: exp_key_def)
  moreover have "isl q \<longrightarrow> (\<forall>n err. env n \<noteq> DoneUnanswered err) \<longrightarrow> w_db w1 = w_db w"
    using sql by (auto simp: run_sql_def update_experiments_def Let_def split: verdict.splits)
  ultimately show ?thesis using r w' by simp
qed

lemma mark_failed_effect:
  assumes "mark_experiment_failed_to_start env now h e n m w = (r, w')"
  shows "touches_only h e (w_db w) (w_db w') \<and>
    (\<not> pending_row h e (w_db w) \<longrightarrow> \<not> pending_row h e (w_db w'))"
proof -
  let ?f = "\<lambda>x. x\<lparr>x_status := statusFailed, x_dispatcher_node_id := nilIfEmpty n,
      x_error_message := nilIfEmpty m, x_updated_at := now\<rparr>"
  obtain q w1 where sql: "run_sql env (update_experiments (is_experiment h e) ?f) w = (q, w1)" by fastforce
  from assms [unfolded mark_experiment_failed_to_start_def sql prod.case]
  have w': "w' = w1" by (cases q) auto
  have "touches_only h e (w_db w) (w_db w')"
    unfolding w' by (rule update_touches_only [OF sql]) (simp_all add: exp_key_def)
  moreover have "\<not> pending_row h e (w_db w')" if "\<not> pending_row h e (w_db w)"
  proof (cases "isl q \<and> w_db w1 = w_db w")
    case False
    with update_result [OF sql] have
      m: "t_experiments (w_db w') = map (\<lambda>x. if is_experiment h e x then ?f x else x) (t_experiments (w_db w))"
      unfolding w' by blast
    have "\<not> (is_experiment h e (if is_experiment h e x then ?f x else x) \<and>
        x_status (if is_experiment h e x then ?f x else x) = statusPending)" for x
      by (auto simp: is_experiment_def)
    then show ?thesis unfolding pending_row_def m set_map by blast
  qed (use that w' in simp)
  ultimately show ?thesis by blast
qed

section \<open>What the tick does\<close>

definition key_pair :: "schedule_record \<Rightarrow> string \<times> string" where
  "key_pair r = (sc_ModelHash r, sc_ExperimentID r)"

definition call_key :: "string \<times> start_request \<Rightarrow> string \<times> string" where
  "call_key c = (sq_ModelHash (snd c), sq_ExperimentId (snd c))"

abbreviation db_of :: "control_state \<Rightarrow> database" where
  "db_of s \<equiv> w_db (cs_world s)"

abbreviation pending_for :: "schedule_record \<Rightarrow> control_state \<Rightarrow> bool" where
  "pending_for r s \<equiv> pending_row (sc_ModelHash r) (sc_ExperimentID r) (db_of s)"

lemma same_key_pair: "key_pair r = key_pair r' \<Longrightarrow> record_key r = record_key r'"
  by (simp add: key_pair_def record_key_def)

lemma refresh_batch_simps [simp]:
  "cs_queue (refresh_batch env now b s) = cs_queue s"
  "cs_startCalls (refresh_batch env now b s) = cs_startCalls s"
  "t_experiments (db_of (refresh_batch env now b s)) = t_experiments (db_of s)"
  by (simp_all add: refresh_batch_def)

lemma release_for_simps [simp]:
  "cs_queue (release_for n r s) = cs_queue s" "cs_startCalls (release_for n r s) = cs_startCalls s"
  "cs_world (release_for n r s) = cs_world s"
  by (simp_all add: release_for_def)

lemma node_succeeded_simps [simp]:
  "cs_queue (node_succeeded n s) = cs_queue s" "cs_startCalls (node_succeeded n s) = cs_startCalls s"
  "cs_world (node_succeeded n s) = cs_world s"
  by (simp_all add: node_succeeded_def)

lemma enqueue_again_simps [simp]:
  "cs_startCalls (enqueue_again now r s) = cs_startCalls s"
  "cs_world (enqueue_again now r s) = cs_world s"
  by (simp_all add: enqueue_again_def)

lemma call_key_of_request [simp]: "call_key (a, start_request_of r) = key_pair r"
  by (simp add: call_key_def key_pair_def start_request_of_def)

text \<open>
  The effect of handling one record. \<open>lossless\<close> says that the database never executes a
  statement without answering.
\<close>

definition lossless :: "sql_env \<Rightarrow> bool" where
  "lossless env \<longleftrightarrow> (\<forall>n err. env n \<noteq> DoneUnanswered err)"

definition one_effect ::
  "bool \<Rightarrow> schedule_record \<Rightarrow> control_state \<Rightarrow> control_state \<Rightarrow> bool" where
  "one_effect sure r s s' \<longleftrightarrow>
     (cs_queue s' = cs_queue s \<and> (sure \<longrightarrow> \<not> pending_for r s') \<or>
      (\<exists>now. cs_queue s' = snd (pq_enqueue now (Some r) (cs_queue s)))) \<and>
     touches_only (sc_ModelHash r) (sc_ExperimentID r) (db_of s) (db_of s') \<and>
     (cs_startCalls s' = cs_startCalls s \<or>
      pending_for r s \<and> (\<exists>a. cs_startCalls s' = cs_startCalls s @ [(a, start_request_of r)]))"

lemma after_outcome_effect:
  assumes "after_outcome env cfg i r nodeID outcome m s = (s', b)" "\<not> pending_for r s"
  shows "(cs_queue s' = cs_queue s \<and> (lossless (ke_sql env) \<longrightarrow> \<not> pending_for r s') \<or>
      (\<exists>now. cs_queue s' = snd (pq_enqueue now (Some r) (cs_queue s)))) \<and>
     touches_only (sc_ModelHash r) (sc_ExperimentID r) (db_of s) (db_of s') \<and>
     cs_startCalls s' = cs_startCalls s"
proof (cases outcome)
  case startOutcomeRetryable
  obtain q w where q: "mark_experiment_pending (ke_sql env) (ke_clock env i 2) (sc_ModelHash r)
      (sc_ExperimentID r) m (cs_world s) = (q, w)" by fastforce
  note eff = mark_pending_effect [OF q, folded lossless_def]
  show ?thesis
  proof (cases q)
    case (Inl err)
    with assms(1) q startOutcomeRetryable have s': "s' = (node_succeeded nodeID (release_for nodeID r s))\<lparr>cs_world := w\<rparr>"
      by (simp add: after_outcome_def)
    show ?thesis unfolding s' using eff Inl assms(2) by simp
  next
    case (Inr u)
    with assms(1) q startOutcomeRetryable have s': "s' = enqueue_again (ke_clock env i 3) r
        ((node_succeeded nodeID (release_for nodeID r s))\<lparr>cs_world := w\<rparr>)"
      by (simp add: after_outcome_def)
    show ?thesis unfolding s' using eff by (auto simp: enqueue_again_def)
  qed
next
  case startOutcomeFatal
  obtain q w where q: "mark_experiment_failed_to_start (ke_sql env) (ke_clock env i 2) (sc_ModelHash r)
      (sc_ExperimentID r) nodeID m (cs_world s) = (q, w)" by fastforce
  note eff = mark_failed_effect [OF q]
  let ?s = "(node_succeeded nodeID (release_for nodeID r s))\<lparr>cs_world := w\<rparr>"
  have "s' = ?s \<or> s' = refresh_batch env (ke_clock env i 3) (sc_BatchID r) ?s"
    using assms(1) q startOutcomeFatal by (cases q) (simp_all add: after_outcome_def)
  then have "cs_queue s' = cs_queue s" "cs_startCalls s' = cs_startCalls s"
    "t_experiments (db_of s') = t_experiments (w_db w)"
    by auto
  with eff assms(2) show ?thesis
    by (simp add: touches_only_def pending_row_def)
qed (use assms in \<open>auto simp: after_outcome_def pending_row_def touches_only_def
    simp del: split_paired_All\<close>)

lemma start_on_node_effect:
  assumes "startExperimentOnNode env i r node s = (out, s')"
  shows "cs_queue s' = cs_queue s \<and> cs_world s' = cs_world s \<and>
    (cs_startCalls s' = cs_startCalls s \<or>
     (\<exists>a. cs_startCalls s' = cs_startCalls s @ [(a, start_request_of r)]))"
  using assms by (auto simp: startExperimentOnNode_def Let_def split: sum.splits)

lemma schedule_one_effect:
  "one_effect (lossless (ke_sql env)) r (tk_state t) (tk_state (schedule_one env cfg i r t))"
proof -
  let ?s = "tk_state t"
  obtain picked nodes where pick: "pick_and_reserve (ke_clock env i 0) (ke_order env i) (sc_GOOS r)
      (sc_GOARCH r) (sc_MemoryLimitBytes r) (cs_nodes ?s) = (picked, nodes)" by fastforce
  show ?thesis
  proof (cases picked)
    case None
    then have "tk_state (schedule_one env cfg i r t) =
        enqueue_again (ke_clock env i 1) r (?s\<lparr>cs_nodes := nodes\<rparr>)"
      using pick by (simp add: schedule_one_def Let_def)
    then show ?thesis by (auto simp: one_effect_def enqueue_again_def)
  next
    case (Some node)
    let ?s1 = "?s\<lparr>cs_nodes := nodes\<rparr>"
    obtain q w where mark: "try_mark_experiment_starting (ke_sql env) (ke_clock env i 1) (sc_ModelHash r)
        (sc_ExperimentID r) (ns_NodeId node) (cs_world ?s) = (q, w)" by fastforce
    note eff = mark_starting_effect [OF mark]
    let ?s2 = "?s1\<lparr>cs_world := w\<rparr>"
    show ?thesis
    proof (cases q)
      case (Inl err)
      then have "tk_state (schedule_one env cfg i r t) =
          enqueue_again (ke_clock env i 2) r (release_for (ns_NodeId node) r ?s2)"
        using pick Some mark by (simp add: schedule_one_def Let_def)
      with eff show ?thesis by (auto simp: one_effect_def enqueue_again_def)
    next
      case (Inr acquired)
      show ?thesis
      proof (cases acquired)
        case False
        then have "tk_state (schedule_one env cfg i r t) = release_for (ns_NodeId node) r ?s2"
          using pick Some mark Inr by (simp add: schedule_one_def Let_def)
        with eff Inr show ?thesis by (simp add: one_effect_def)
      next
        case True
        obtain outcome message s3 where start: "startExperimentOnNode env i r node ?s2 = ((outcome, message), s3)"
          by (metis prod.exhaust)
        obtain s4 b where after: "after_outcome env cfg i r (ns_NodeId node) outcome message s3 = (s4, b)"
          by fastforce
        have s4: "tk_state (schedule_one env cfg i r t) = s4"
          using pick Some mark Inr True start after by (simp add: schedule_one_def Let_def)
        note se = start_on_node_effect [OF start]
        have "\<not> pending_for r s3" using se eff Inr by simp
        note ae = after_outcome_effect [OF after this]
        have "pending_for r ?s" using eff Inr True by blast
        with se ae eff touches_only_trans [of _ _ "db_of ?s" "db_of s3" "db_of s4"]
        show ?thesis unfolding s4 one_effect_def by auto
      qed
    qed
  qed
qed

text \<open>
  The whole loop: the records requeued are appended in order, the dispatchers are called in
  order, only for experiments that waited in the database, and a record that is not
  requeued waits there no longer.
\<close>

lemma subseq_set: "subseq xs ys \<Longrightarrow> set xs \<subseteq> set ys"
  by (induction rule: list_emb.induct) auto

lemma subseq_distinct: "subseq xs ys \<Longrightarrow> distinct ys \<Longrightarrow> distinct xs"
  by (induction rule: list_emb.induct) (auto dest: subseq_set)

lemma disjoint_insert: "X \<subseteq> insert a Y \<Longrightarrow> a \<notin> R \<Longrightarrow> R \<inter> Y = {} \<Longrightarrow> R \<inter> X = {}"
  by blast

lemma schedule_loop_effect:
  assumes "pq_ok (cs_queue (tk_state t))" "distinct (map record_key records)"
    "record_key ` set records \<inter> record_key ` set (pq_items (cs_queue (tk_state t))) = {}"
    "\<forall>r \<in> set records. sc_PendingSince r \<noteq> zero_time"
  shows "\<exists>kept called.
    pq_ok (cs_queue (tk_state (schedule_loop env cfg i records t))) \<and>
    pq_items (cs_queue (tk_state (schedule_loop env cfg i records t))) =
      pq_items (cs_queue (tk_state t)) @ kept \<and> subseq kept records \<and>
    cs_startCalls (tk_state (schedule_loop env cfg i records t)) = cs_startCalls (tk_state t) @ called \<and>
    subseq (map call_key called) (map key_pair records) \<and>
    (\<forall>c \<in> set called. case call_key c of (h, e) \<Rightarrow> pending_row h e (db_of (tk_state t))) \<and>
    (\<forall>h e. (h, e) \<notin> key_pair ` set records \<longrightarrow>
       pending_row h e (db_of (tk_state (schedule_loop env cfg i records t))) =
       pending_row h e (db_of (tk_state t))) \<and>
    (lossless (ke_sql env) \<longrightarrow> (\<forall>r \<in> set records. r \<notin> set kept \<longrightarrow>
       \<not> pending_for r (tk_state (schedule_loop env cfg i records t))))"
  using assms
proof (induction records arbitrary: i t)
  case Nil
  then show ?case by (intro exI [of _ "[]"]) simp
next
  case (Cons r records)
  let ?t = "schedule_one env cfg i r t"
  let ?q = "cs_queue (tk_state t)" and ?q1 = "cs_queue (tk_state ?t)"
  let ?out = "tk_state (schedule_loop env cfg (Suc i) records ?t)"
  note eff = schedule_one_effect [of env r t cfg i, unfolded one_effect_def]
  have new: "record_key r \<notin> pq_index ?q" using Cons.prems(1,3) by (simp add: pq_ok_def)
  have ready: "stamped now r = r" for now using Cons.prems(4) by (simp add: stamped_def)
  have enq: "pq_ok (snd (pq_enqueue now (Some r) ?q)) \<and>
      pq_items (snd (pq_enqueue now (Some r) ?q)) = pq_items ?q @ [r]" for now
    using new ready pq_enqueue_ok [OF Cons.prems(1), of now "Some r"] by (simp add: pq_enqueue_Some)
  obtain kept1 where q1: "pq_ok ?q1" "pq_items ?q1 = pq_items ?q @ kept1" "kept1 = [] \<or> kept1 = [r]"
    and gone: "kept1 = [] \<Longrightarrow> lossless (ke_sql env) \<Longrightarrow> \<not> pending_for r (tk_state ?t)"
  proof (cases "?q1 = ?q \<and> (lossless (ke_sql env) \<longrightarrow> \<not> pending_for r (tk_state ?t))")
    case True
    with Cons.prems(1) that [of "[]"] show ?thesis by simp
  next
    case False
    with eff obtain now where "?q1 = snd (pq_enqueue now (Some r) ?q)" by blast
    with enq that [of "[r]"] show ?thesis by simp
  qed
  obtain called1 where c1: "cs_startCalls (tk_state ?t) = cs_startCalls (tk_state t) @ called1"
    "called1 = [] \<or> map call_key called1 = [key_pair r] \<and> pending_for r (tk_state t)"
  proof (cases "cs_startCalls (tk_state ?t) = cs_startCalls (tk_state t)")
    case True
    with that [of "[]"] show ?thesis by simp
  next
    case False
    with eff obtain a where "cs_startCalls (tk_state ?t) = cs_startCalls (tk_state t) @ [(a, start_request_of r)]"
      "pending_for r (tk_state t)" by blast
    with that [of "[(a, start_request_of r)]"] show ?thesis by simp
  qed
  have other: "pending_row h e (db_of (tk_state ?t)) = pending_row h e (db_of (tk_state t))"
    if "(h, e) \<noteq> key_pair r" for h e
    using eff that by (simp add: touches_only_def key_pair_def)
  have disj: "record_key ` set records \<inter> record_key ` set (pq_items ?q1) = {}"
  proof -
    have "record_key ` set (pq_items ?q1) \<subseteq> insert (record_key r) (record_key ` set (pq_items ?q))"
      using q1(2,3) by auto
    moreover have "record_key r \<notin> record_key ` set records" using Cons.prems(2) by simp
    moreover have "record_key ` set records \<inter> record_key ` set (pq_items ?q) = {}"
      using Cons.prems(3) by auto
    ultimately show ?thesis by (rule disjoint_insert)
  qed
  have fresh: "key_pair r \<notin> key_pair ` set records"
  proof
    assume "key_pair r \<in> key_pair ` set records"
    then obtain x where "x \<in> set records" "key_pair r = key_pair x" by blast
    with same_key_pair [of r x] Cons.prems(2) show False by auto
  qed
  from Cons.IH [OF q1(1) _ disj, of "Suc i"] Cons.prems(2,4) obtain kept called where IH:
    "pq_ok (cs_queue ?out)" "pq_items (cs_queue ?out) = pq_items ?q1 @ kept" "subseq kept records"
    "cs_startCalls ?out = cs_startCalls (tk_state ?t) @ called"
    "subseq (map call_key called) (map key_pair records)"
    "\<forall>c \<in> set called. case call_key c of (h, e) \<Rightarrow> pending_row h e (db_of (tk_state ?t))"
    "\<forall>h e. (h, e) \<notin> key_pair ` set records \<longrightarrow> pending_row h e (db_of ?out) =
       pending_row h e (db_of (tk_state ?t))"
    "lossless (ke_sql env) \<longrightarrow> (\<forall>r \<in> set records. r \<notin> set kept \<longrightarrow> \<not> pending_for r ?out)"
    by auto
  have keys: "call_key c \<in> key_pair ` set records" if "c \<in> set called" for c
  proof -
    have "set (map call_key called) \<subseteq> set (map key_pair records)"
      using IH(5) by (rule subseq_set)
    with that show ?thesis by auto
  qed
  have pend: "case call_key c of (h, e) \<Rightarrow> pending_row h e (db_of (tk_state t))" if "c \<in> set called" for c
  proof -
    obtain h e where he: "call_key c = (h, e)" by fastforce
    have "(h, e) \<noteq> key_pair r" using keys [OF that] fresh he by auto
    from other [OF this] IH(6) that he show ?thesis by auto
  qed
  have mine: "pending_for r ?out = pending_for r (tk_state ?t)"
    using IH(7) fresh by (simp add: key_pair_def)
  show ?case
  proof (intro exI [of _ "kept1 @ kept"] exI [of _ "called1 @ called"] conjI)
    show "pq_ok (cs_queue (tk_state (schedule_loop env cfg i (r # records) t)))" using IH(1) by simp
    show "pq_items (cs_queue (tk_state (schedule_loop env cfg i (r # records) t))) =
        pq_items ?q @ kept1 @ kept" using IH(2) q1(2) by simp
    show "subseq (kept1 @ kept) (r # records)" using q1(3) IH(3) by auto
    show "cs_startCalls (tk_state (schedule_loop env cfg i (r # records) t)) =
        cs_startCalls (tk_state t) @ called1 @ called" using IH(4) c1(1) by simp
    show "subseq (map call_key (called1 @ called)) (map key_pair (r # records))"
      using c1(2) IH(5) by auto
    show "\<forall>c \<in> set (called1 @ called). case call_key c of (h, e) \<Rightarrow> pending_row h e (db_of (tk_state t))"
    proof
      fix c assume "c \<in> set (called1 @ called)"
      then consider "c \<in> set called" | "call_key c = key_pair r" "pending_for r (tk_state t)"
        using c1(2) by (auto simp: map_eq_Cons_conv)
      then show "case call_key c of (h, e) \<Rightarrow> pending_row h e (db_of (tk_state t))"
        by cases (use pend in \<open>simp_all add: key_pair_def\<close>)
    qed
    show "\<forall>h e. (h, e) \<notin> key_pair ` set (r # records) \<longrightarrow>
       pending_row h e (db_of (tk_state (schedule_loop env cfg i (r # records) t))) =
       pending_row h e (db_of (tk_state t))"
      using IH(7) other by auto
    show "lossless (ke_sql env) \<longrightarrow> (\<forall>x \<in> set (r # records). x \<notin> set (kept1 @ kept) \<longrightarrow>
       \<not> pending_for x (tk_state (schedule_loop env cfg i (r # records) t)))"
      using IH(8) mine gone q1(3) by auto
  qed
qed

lemma scale_out_keeps [simp]:
  "cs_queue (maybeRequestScaleOut env cfg n r s) = cs_queue s"
  "cs_world (maybeRequestScaleOut env cfg n r s) = cs_world s"
  "cs_startCalls (maybeRequestScaleOut env cfg n r s) = cs_startCalls s"
  "cs_nodes (maybeRequestScaleOut env cfg n r s) = cs_nodes s"
  by (auto simp: maybeRequestScaleOut_def Let_def split: option.splits)

text \<open>
  C17. A tick loses no experiment: the queue afterwards holds some of the records it held
  before, in the same order, and, unless the database executes a statement without
  answering, an experiment that left the queue is no longer PENDING in the database.
\<close>

theorem tick_loses_no_experiment:
  assumes "pq_ok (cs_queue s)" "\<forall>r \<in> set (pq_items (cs_queue s)). sc_PendingSince r \<noteq> zero_time"
  shows "pq_ok (cs_queue (RunOnce env cfg s)) \<and>
    subseq (pq_items (cs_queue (RunOnce env cfg s))) (pq_items (cs_queue s)) \<and>
    (lossless (ke_sql env) \<longrightarrow> (\<forall>r \<in> set (pq_items (cs_queue s)).
       r \<notin> set (pq_items (cs_queue (RunOnce env cfg s))) \<longrightarrow>
       \<not> pending_row (sc_ModelHash r) (sc_ExperimentID r) (w_db (cs_world (RunOnce env cfg s)))))"
proof -
  obtain records q where pop: "pq_pop_batch (int (pq_len (cs_queue s))) (cs_queue s) = (records, q)" by fastforce
  have rs: "records = pq_items (cs_queue s)" and q: "pq_items q = []" "pq_ok q"
    using pending.pop_all_eq [OF assms(1)] pop by auto
  let ?t = "\<lparr>tk_state = s\<lparr>cs_queue := q\<rparr>, tk_scheduled = 0, tk_noNode = 0, tk_firstBlocked = None\<rparr>"
  have d: "distinct (map record_key records)" using assms(1) rs by (simp add: pq_ok_def)
  have out: "cs_queue (RunOnce env cfg s) = cs_queue (tk_state (schedule_loop env cfg 0 records ?t))"
    "cs_world (RunOnce env cfg s) = cs_world (tk_state (schedule_loop env cfg 0 records ?t))"
    using pop by (cases records; simp add: RunOnce_def Let_def)+
  from schedule_loop_effect [of ?t records env cfg 0] q d assms(2) rs
  show ?thesis unfolding out by auto
qed

text \<open>
  C18. A tick calls the dispatchers only for experiments it has just acquired: the calls are
  for some of the queued experiments, in queue order and so each at most once, and each of
  these was PENDING in the database before the tick.
\<close>

theorem tick_starts_pending_once:
  assumes "pq_ok (cs_queue s)" "\<forall>r \<in> set (pq_items (cs_queue s)). sc_PendingSince r \<noteq> zero_time"
  shows "\<exists>called. cs_startCalls (RunOnce env cfg s) = cs_startCalls s @ called \<and>
    subseq (map call_key called) (map key_pair (pq_items (cs_queue s))) \<and>
    distinct (map call_key called) \<and>
    (\<forall>c \<in> set called. pending_row (fst (call_key c)) (snd (call_key c)) (w_db (cs_world s)))"
proof -
  obtain records q where pop: "pq_pop_batch (int (pq_len (cs_queue s))) (cs_queue s) = (records, q)" by fastforce
  have rs: "records = pq_items (cs_queue s)" and q: "pq_items q = []" "pq_ok q"
    using pending.pop_all_eq [OF assms(1)] pop by auto
  let ?t = "\<lparr>tk_state = s\<lparr>cs_queue := q\<rparr>, tk_scheduled = 0, tk_noNode = 0, tk_firstBlocked = None\<rparr>"
  have d: "distinct (map record_key records)" using assms(1) rs by (simp add: pq_ok_def)
  have out: "cs_startCalls (RunOnce env cfg s) = cs_startCalls (tk_state (schedule_loop env cfg 0 records ?t))"
    using pop by (cases records) (simp_all add: RunOnce_def Let_def)
  from schedule_loop_effect [of ?t records env cfg 0] q d assms(2) rs obtain called where
    c: "cs_startCalls (RunOnce env cfg s) = cs_startCalls s @ called"
    "subseq (map call_key called) (map key_pair (pq_items (cs_queue s)))"
    "\<forall>c \<in> set called. case call_key c of (h, e) \<Rightarrow> pending_row h e (w_db (cs_world s))"
    unfolding out by auto
  have "distinct (map key_pair (pq_items (cs_queue s)))"
  proof -
    have "map record_key (pq_items (cs_queue s)) =
        map (\<lambda>(h, e). queueKey h e) (map key_pair (pq_items (cs_queue s)))"
      by (simp add: record_key_def key_pair_def)
    with assms(1) show ?thesis unfolding pq_ok_def by (metis distinct_map)
  qed
  with c(2) have "distinct (map call_key called)" by (rule subseq_distinct)
  with c show ?thesis by (intro exI [of _ called]) (auto simp: case_prod_beta)
qed

text \<open>
  Scale-out requests of a tick are spaced by the cooldown and only made for a record that
  waits long enough: at most one per tick, none while the last one is younger than the
  cooldown, and it carries what the first blocked record needs.
\<close>

theorem scale_out_cooldown:
  assumes "r = the record" "record \<noteq> None"
    "cs_scaleOuts (maybeRequestScaleOut env cfg n record s) \<noteq> cs_scaleOuts s"
  shows "ke_provisioner env \<and>
    time_sub (ke_clock env n 0) (sc_PendingSince r) \<ge> kc_ScaleOutAfter cfg \<and>
    (cs_lastScaleOut s = zero_time \<or>
     time_sub (ke_clock env n 1) (cs_lastScaleOut s) \<ge> kc_ScaleOutCooldown cfg) \<and>
    cs_lastScaleOut (maybeRequestScaleOut env cfg n record s) = ke_clock env n 2 \<and>
    (\<exists>req. cs_scaleOuts (maybeRequestScaleOut env cfg n record s) = cs_scaleOuts s @ [req] \<and>
       so_GOOS req = sc_GOOS r \<and> so_GOARCH req = sc_GOARCH r \<and>
       so_MemoryLimit req = sc_MemoryLimitBytes r \<and>
       so_PendingExperiments req = length (pq_items (cs_queue s)))"
  using assms
  by (auto simp: maybeRequestScaleOut_def Let_def pq_len_def split: option.splits if_splits)

section \<open>Reservations\<close>

text \<open>Taking a reservation and giving it back, on the books of the node registry.\<close>

abbreviation same_books :: "node_registry \<Rightarrow> node_registry \<Rightarrow> bool" where
  "same_books r r' \<equiv> slots_on r' = slots_on r \<and> memory_on r' = memory_on r \<and> reg_ok r'"

definition booked_once :: "u64 \<Rightarrow> node_registry \<Rightarrow> node_registry \<Rightarrow> bool" where
  "booked_once mem r r' \<longleftrightarrow> reg_ok r' \<and> (\<exists>k. slots_on r' = (slots_on r)(k := slots_on r k + 1) \<and>
     memory_on r' = (memory_on r)(k := memory_on r k + unat mem))"

lemma dom_release [simp]: "dom (reg_nodes (release_reservation k mem r)) = dom (reg_nodes r)"
  by (auto simp: release_reservation_def Let_def dom_def split: option.splits if_splits)

lemma dom_succeeded [simp]: "dom (reg_nodes (mark_node_succeeded k r)) = dom (reg_nodes r)"
  by (auto simp: mark_node_succeeded_def dom_def split: option.splits if_splits)

lemma dom_failed: "dom (reg_nodes (snd (mark_node_failed k m r))) \<subseteq> dom (reg_nodes r)"
  by (auto simp: mark_node_failed_def Let_def dom_def split: option.splits if_splits)

lemma succeeded_same_books: "reg_ok r \<Longrightarrow> same_books r (mark_node_succeeded k r)"
  by (rule node_quiet_books) (auto simp: node_quiet_def intro: node_event.succeeded)

lemma failed_same_books:
  "reg_ok r \<Longrightarrow> dom (reg_nodes r) \<subseteq> dom (reg_nodes (snd (mark_node_failed k m r))) \<Longrightarrow>
   same_books r (snd (mark_node_failed k m r))"
  by (rule node_quiet_books) (auto simp: node_quiet_def intro: node_event.failed)

lemma picked_books:
  assumes "reg_ok r" "distinct order" "pick_and_reserve now order goos goarch mem r = (Some n, r')"
    "dom (reg_nodes r) \<subseteq> dom (reg_nodes r')" "\<forall>k. memory_on r k + unat mem < 2 ^ 64"
  shows "slots_on r' = (slots_on r)(ns_NodeId n := slots_on r (ns_NodeId n) + 1) \<and>
    memory_on r' = (memory_on r)(ns_NodeId n := memory_on r (ns_NodeId n) + unat mem) \<and> reg_ok r'"
proof (rule node_acquired_books [OF assms(1)])
  show "node_acquired r (ns_NodeId n) (unat mem) r'"
    unfolding node_acquired_def using assms
    by (intro exI [of _ now] exI [of _ order] exI [of _ goos] exI [of _ goarch] exI [of _ mem] exI [of _ n])
      simp
qed

lemma released_books:
  assumes "slots_on r' = (slots_on r)(k := slots_on r k + 1)"
    "memory_on r' = (memory_on r)(k := memory_on r k + unat mem)" "reg_ok r'"
  shows "same_books r (release_reservation k mem r')"
  using release_books [of r' k mem] release_reg_ok [of r' k mem] assms by simp

lemma pick_dom:
  assumes "pick_and_reserve now order goos goarch mem r = (p, r')" "distinct order"
  shows "dom (reg_nodes r') \<subseteq> dom (reg_nodes r)"
proof (cases p)
  case None
  with pick_loop_None [of now "trim_space goos" "trim_space goarch" mem order r r'] assms
  show ?thesis by (auto simp: pick_and_reserve_def split: if_splits)
next
  case (Some n)
  with pick_loop_Some [of now "trim_space goos" "trim_space goarch" mem order r n r'] assms
  obtain k rc where "reg_nodes r k = Some rc"
    "\<forall>j. j \<noteq> k \<longrightarrow> reg_nodes r' j = reg_nodes r j \<or> stale now r j \<and> reg_nodes r' j = None"
    by (auto simp: pick_and_reserve_def eligible_def)
  then show ?thesis by (auto simp: dom_def) 
qed

lemma after_outcome_nodes:
  assumes "after_outcome env cfg i r nodeID outcome m s = (s', b)"
  shows "(outcome \<in> {startOutcomeRetryable, startOutcomeFatal} \<and> cs_nodes s' =
      mark_node_succeeded nodeID (release_reservation nodeID (sc_MemoryLimitBytes r) (cs_nodes s))) \<or>
    (cs_queue s' = cs_queue s \<and> (cs_nodes s' = mark_node_succeeded nodeID (cs_nodes s) \<or>
     (\<exists>n. cs_nodes s' = snd (mark_node_failed nodeID n (cs_nodes s)))))"
proof (cases outcome)
  case startOutcomeRetryable
  then show ?thesis using assms
    by (cases "mark_experiment_pending (ke_sql env) (ke_clock env i 2) (sc_ModelHash r)
        (sc_ExperimentID r) m (cs_world s)"; cases "fst (mark_experiment_pending (ke_sql env) (ke_clock env i 2)
        (sc_ModelHash r) (sc_ExperimentID r) m (cs_world s))")
      (auto simp: after_outcome_def node_succeeded_def release_for_def enqueue_again_def)
next
  case startOutcomeFatal
  then show ?thesis using assms
    by (cases "mark_experiment_failed_to_start (ke_sql env) (ke_clock env i 2) (sc_ModelHash r)
        (sc_ExperimentID r) nodeID m (cs_world s)"; cases "fst (mark_experiment_failed_to_start (ke_sql env)
        (ke_clock env i 2) (sc_ModelHash r) (sc_ExperimentID r) nodeID m (cs_world s))")
      (auto simp: after_outcome_def node_succeeded_def release_for_def refresh_batch_def)
qed (use assms in \<open>auto simp: after_outcome_def node_succeeded_def refresh_batch_def\<close>)

text \<open>
  C35. Handling one record books at most one slot with the record's memory limit, and an
  experiment that goes back to the queue leaves no reservation behind: as long as no node is
  forgotten meanwhile and the reserved bytes fit 64 bits, either the books of the registry
  are as before, or one node has exactly this reservation more and the queue is unchanged.
\<close>

theorem requeued_keeps_no_reservation:
  assumes "reg_ok (cs_nodes (tk_state t))" "distinct (ke_order env i)"
    "dom (reg_nodes (cs_nodes (tk_state t))) \<subseteq>
       dom (reg_nodes (cs_nodes (tk_state (schedule_one env cfg i r t))))"
    "\<forall>k. memory_on (cs_nodes (tk_state t)) k + unat (sc_MemoryLimitBytes r) < 2 ^ 64"
  shows "same_books (cs_nodes (tk_state t)) (cs_nodes (tk_state (schedule_one env cfg i r t))) \<or>
    (booked_once (sc_MemoryLimitBytes r) (cs_nodes (tk_state t))
       (cs_nodes (tk_state (schedule_one env cfg i r t))) \<and>
     cs_queue (tk_state (schedule_one env cfg i r t)) = cs_queue (tk_state t))"
proof -
  let ?s = "tk_state t" and ?s' = "tk_state (schedule_one env cfg i r t)"
  obtain picked nodes where pick: "pick_and_reserve (ke_clock env i 0) (ke_order env i) (sc_GOOS r)
      (sc_GOARCH r) (sc_MemoryLimitBytes r) (cs_nodes ?s) = (picked, nodes)" by fastforce
  show ?thesis
  proof (cases picked)
    case None
    then have "cs_nodes ?s' = nodes"
      using pick by (simp add: schedule_one_def Let_def enqueue_again_def)
    moreover have "node_quiet (cs_nodes ?s) nodes"
      using pick None assms(2,3) \<open>cs_nodes ?s' = nodes\<close>
      by (auto simp: node_quiet_def intro: node_event.nothing_picked)
    ultimately show ?thesis using node_quiet_books [OF assms(1)] by simp
  next
    case (Some node)
    let ?k = "ns_NodeId node" and ?m = "sc_MemoryLimitBytes r"
    obtain q w where mark: "try_mark_experiment_starting (ke_sql env) (ke_clock env i 1) (sc_ModelHash r)
        (sc_ExperimentID r) ?k (cs_world ?s) = (q, w)" by fastforce
    let ?s2 = "?s\<lparr>cs_nodes := nodes, cs_world := w\<rparr>"
    have books: "same_books (cs_nodes ?s) (release_reservation ?k ?m nodes)"
      "booked_once ?m (cs_nodes ?s) nodes" if "dom (reg_nodes (cs_nodes ?s)) \<subseteq> dom (reg_nodes nodes)"
      using picked_books [OF assms(1,2) pick [unfolded Some] that assms(4)] released_books
      by (auto simp: booked_once_def)
    show ?thesis
    proof (cases "q = Inr True")
      case False
      then have "cs_nodes ?s' = release_reservation ?k ?m nodes"
        using pick Some mark
        by (cases q) (auto simp: schedule_one_def Let_def enqueue_again_def release_for_def)
      with books(1) assms(3) show ?thesis by simp
    next
      case True
      obtain outcome message s3 where start: "startExperimentOnNode env i r node ?s2 = ((outcome, message), s3)"
        by (metis prod.exhaust)
      obtain s4 b where after: "after_outcome env cfg i r ?k outcome message s3 = (s4, b)" by fastforce
      have s4: "?s' = s4"
        using pick Some mark True start after by (simp add: schedule_one_def Let_def)
      have n3: "cs_nodes s3 = nodes" "cs_queue s3 = cs_queue ?s"
        using start by (auto simp: startExperimentOnNode_def Let_def split: sum.splits)
      from after_outcome_nodes [OF after] consider
        "cs_nodes s4 = mark_node_succeeded ?k (release_reservation ?k ?m nodes)"
        | "cs_queue s4 = cs_queue ?s" "cs_nodes s4 = mark_node_succeeded ?k nodes"
        | n where "cs_queue s4 = cs_queue ?s" "cs_nodes s4 = snd (mark_node_failed ?k n nodes)"
        unfolding n3 by blast
      then show ?thesis
      proof cases
        case 1
        with assms(3) s4 books(1) succeeded_same_books show ?thesis by simp
      next
        case 2
        with assms(3) s4 books(2) succeeded_same_books [of nodes ?k] show ?thesis
          by (auto simp: booked_once_def)
      next
        case 3
        have "dom (reg_nodes (cs_nodes ?s)) \<subseteq> dom (reg_nodes nodes)"
          using assms(3) s4 3 dom_failed [of ?k n nodes] by auto
        moreover have "dom (reg_nodes nodes) \<subseteq> dom (reg_nodes (cs_nodes s4))"
          using assms(2,3) s4 pick_dom [OF pick] by auto
        ultimately show ?thesis
          using s4 3 books(2) failed_same_books [of nodes ?k n] by (auto simp: booked_once_def)
      qed
    qed
  qed
qed

section \<open>A sample tick\<close>

text \<open>Two experiments wait, and there is one node with one slot whose dispatcher accepts.\<close>

definition sample_env :: control_env where
  "sample_env = \<lparr>ke_sql = (\<lambda>_. Done), ke_clock = (\<lambda>i j. 100 + int i), ke_order = (\<lambda>_. [''n1'']),
     ke_dial = (\<lambda>_. None),
     ke_start = (\<lambda>_ _ q. Inr \<lparr>sp_Accepted = True, sp_ModelHash = sq_ModelHash q,
       sp_ExperimentId = sq_ExperimentId q, sp_Status = statusStarting, sp_ErrorCode = [],
       sp_Message = []\<rparr>),
     ke_provisioner = True\<rparr>"

definition sample_config :: control_config where
  "sample_config = \<lparr>kc_ListenAddr = '':8080'', kc_DatabaseURL = ''db'', kc_DefaultGOOS = ''linux'',
     kc_DefaultGOARCH = ''amd64'', kc_NodeTTL = 100, kc_NodeLostGracePeriod = 60,
     kc_NodeLostReconcileInterval = 30, kc_MaxNodeFailures = 3, kc_SchedulerInterval = 1,
     kc_DispatcherRequestTimeout = 10, kc_ScaleOutAfter = 5, kc_ScaleOutCooldown = 30,
     kc_NATSURL = ''nats'', kc_CodegenStream = ''s'', kc_CodegenSubject = ''t'',
     kc_CodegenReplyPrefix = ''r'', kc_CodegenRequestTimeout = 180, kc_EnableReflection = True\<rparr>"

definition waiting :: "string \<Rightarrow> schedule_record" where
  "waiting e = (sample_record ''m'' e)\<lparr>sc_PendingSince := 7, sc_MemoryLimitBytes := 7\<rparr>"

definition sample_nodes :: node_registry where
  "sample_nodes = \<lparr>reg_ttl = 100, reg_nodes = [''n1'' \<mapsto>
     \<lparr>nr_Node = Some \<lparr>ns_NodeId = ''n1'', ns_Address = ''h:1'', ns_RuntimeGoos = ''linux'',
        ns_RuntimeGoarch = ''amd64'', ns_TotalSlots = 1, ns_UsedSlots = 0, ns_TotalMemoryBytes = 1000,
        ns_ReservedMemoryBytes = 0, ns_ActiveExperiments = 0, ns_CachedModels = 0\<rparr>,
      nr_LastSeenAt = 50, nr_ReservedSlots = 0, nr_ReservedMemoryBytes = 0, nr_failureCount = 0\<rparr>]\<rparr>"

definition sample_state :: control_state where
  "sample_state = \<lparr>cs_world = demo_world, cs_nodes = sample_nodes,
     cs_queue = \<lparr>pq_items = [waiting ''e1'', waiting ''e2''],
       pq_index = {record_key (waiting ''e1''), record_key (waiting ''e2'')}\<rparr>,
     cs_lastScaleOut = zero_time, cs_startCalls = [], cs_scaleOuts = []\<rparr>"

lemma sample_ready:
  "pq_ok (cs_queue sample_state)"
  "\<forall>r \<in> set (pq_items (cs_queue sample_state)). sc_PendingSince r \<noteq> zero_time"
  "lossless (ke_sql sample_env)"
  by (simp_all add: sample_state_def pq_ok_def waiting_def sample_record_def record_key_def
    queueKey_def zero_time_def lossless_def sample_env_def)

theorem tick_loses_no_experiment_witness:
  "\<not> pending_row ''m'' ''e1'' (w_db (cs_world (RunOnce sample_env sample_config sample_state))) \<and>
   map sc_ExperimentID (pq_items (cs_queue (RunOnce sample_env sample_config sample_state))) = [''e2'']"
proof -
  have q: "map sc_ExperimentID (pq_items (cs_queue (RunOnce sample_env sample_config sample_state))) = [''e2'']"
    by code_simp
  have "waiting ''e1'' \<notin> set (pq_items (cs_queue (RunOnce sample_env sample_config sample_state)))"
  proof
    assume "waiting ''e1'' \<in> set (pq_items (cs_queue (RunOnce sample_env sample_config sample_state)))"
    then have "sc_ExperimentID (waiting ''e1'') \<in> set [''e2'']" unfolding q [symmetric] by simp
    then show False by (simp add: waiting_def sample_record_def)
  qed
  moreover have "waiting ''e1'' \<in> set (pq_items (cs_queue sample_state))" by (simp add: sample_state_def)
  moreover have "sc_ModelHash (waiting ''e1'') = ''m''" "sc_ExperimentID (waiting ''e1'') = ''e1''"
    by (simp_all add: waiting_def sample_record_def)
  ultimately show ?thesis
    using tick_loses_no_experiment [OF sample_ready(1,2), of sample_env sample_config] sample_ready(3) q
    by metis
qed

theorem tick_starts_pending_once_witness:
  "\<exists>called. cs_startCalls (RunOnce sample_env sample_config sample_state) = called \<and>
     distinct (map call_key called) \<and> map call_key called = [(''m'', ''e1'')]"
proof -
  have "map call_key (cs_startCalls (RunOnce sample_env sample_config sample_state)) = [(''m'', ''e1'')]"
    by code_simp
  moreover have "cs_startCalls sample_state = []" by (simp add: sample_state_def)
  ultimately show ?thesis
    using tick_starts_pending_once [OF sample_ready(1,2), of sample_env sample_config] by auto
qed

theorem scale_out_cooldown_witness:
  "time_sub (ke_clock sample_env 2 0) (sc_PendingSince (waiting ''e2'')) \<ge> 5"
  using scale_out_cooldown [of "waiting ''e2''" "Some (waiting ''e2'')" sample_env sample_config 2 sample_state]
  by (simp add: maybeRequestScaleOut_def sample_env_def sample_config_def sample_state_def waiting_def
    sample_record_def time_sub_def max_duration_def min_duration_def)

theorem requeued_keeps_no_reservation_witness:
  "let t = \<lparr>tk_state = sample_state, tk_scheduled = 0, tk_noNode = 0, tk_firstBlocked = None\<rparr> in
   slots_on (cs_nodes (tk_state (schedule_one sample_env sample_config 0 (waiting ''e1'') t))) ''n1'' = 1 \<and>
   (same_books sample_nodes (cs_nodes (tk_state (schedule_one sample_env sample_config 0 (waiting ''e1'') t))) \<or>
    booked_once 7 sample_nodes (cs_nodes (tk_state (schedule_one sample_env sample_config 0 (waiting ''e1'') t))))"
proof -
  let ?t = "\<lparr>tk_state = sample_state, tk_scheduled = 0, tk_noNode = 0, tk_firstBlocked = None\<rparr>"
  have n: "cs_nodes sample_state = sample_nodes" by (simp add: sample_state_def)
  have "reg_nodes (cs_nodes (tk_state (schedule_one sample_env sample_config 0 (waiting ''e1'') ?t))) ''n1'' \<noteq> None \<and>
      slots_on (cs_nodes (tk_state (schedule_one sample_env sample_config 0 (waiting ''e1'') ?t))) ''n1'' = 1"
    by code_simp
  moreover have "reg_ok sample_nodes" by (simp add: reg_ok_def sample_nodes_def)
  moreover have "\<forall>k. memory_on sample_nodes k + unat (sc_MemoryLimitBytes (waiting ''e1'')) < 2 ^ 64"
    by (simp add: memory_on_def sample_nodes_def waiting_def)
  moreover have "distinct (ke_order sample_env 0)" by (simp add: sample_env_def)
  moreover have "dom (reg_nodes sample_nodes) = {''n1''}" by (simp add: sample_nodes_def)
  moreover have "sc_MemoryLimitBytes (waiting ''e1'') = 7" by (simp add: waiting_def)
  ultimately show ?thesis
    using requeued_keeps_no_reservation [of ?t sample_env 0 sample_config "waiting ''e1''"]
    by (auto simp: n Let_def)
qed

end
