(* ===== verification/Go_Decimal.thy ===== *)
theory Go_Decimal
  imports Go_Prelude
begin

text \<open>
  Decimal numbers as text: what \<open>%d\<close> and \<open>strconv.Itoa\<close> print, what \<open>%06d\<close> prints, and what
  \<open>strconv.ParseUint\<close> and \<open>ParseInt\<close> with base 10 and 64 bits accept.
\<close>

definition digit_char :: "nat \<Rightarrow> char" where
  "digit_char n = char_of (48 + n)"

fun decimal :: "nat \<Rightarrow> string" where
  "decimal n = (if n < 10 then [digit_char n] else decimal (n div 10) @ [digit_char (n mod 10)])"

declare decimal.simps [simp del]

definition itoa :: "int \<Rightarrow> string" where
  "itoa n = (if n < 0 then CHR ''-'' # decimal (nat (- n)) else decimal (nat n))"

text \<open>\<open>%06d\<close> of a number that is not negative.\<close>

definition padded6 :: "nat \<Rightarrow> string" where
  "padded6 n = replicate (6 - length (decimal n)) (CHR ''0'') @ decimal n"

definition decimal_value :: "string \<Rightarrow> nat" where
  "decimal_value s = foldl (\<lambda>n c. 10 * n + digit_val c) 0 s"

lemma digit_char [simp]: "n < 10 \<Longrightarrow> digit_val (digit_char n) = n \<and> is_digit (digit_char n)"
proof -
  assume n: "n < 10"
  then have "of_char (char_of (48 + n) :: char) = (48 + n :: nat)" by simp
  with n show ?thesis by (simp add: digit_char_def digit_val_def is_digit_def)
qed

lemma decimal_value_append [simp]:
  "decimal_value (s @ [c]) = 10 * decimal_value s + digit_val c"
  by (simp add: decimal_value_def)

lemma decimal_value_Nil [simp]: "decimal_value [] = 0"
  by (simp add: decimal_value_def)

lemma decimal_value_zeros [simp]: "decimal_value (replicate k (CHR ''0'') @ s) = decimal_value s"
  by (induction k) (simp_all add: decimal_value_def digit_val_def)

lemma decimal_roundtrip [simp]: "decimal_value (decimal n) = n"
proof (induction n rule: decimal.induct)
  case (1 n)
  show ?case
  proof (cases "n < 10")
    case True
    then show ?thesis by (simp add: decimal.simps [of n] decimal_value_def)
  next
    case False
    then show ?thesis using 1 by (simp add: decimal.simps [of n])
  qed
qed

lemma decimal_digits: "c \<in> set (decimal n) \<Longrightarrow> is_digit c"
proof (induction n arbitrary: c rule: decimal.induct)
  case (1 n)
  then show ?case by (cases "n < 10") (auto simp: decimal.simps [of n])
qed

lemma decimal_not_Nil [simp]: "decimal n \<noteq> []"
  by (subst decimal.simps) simp

lemma padded6_value [simp]: "decimal_value (padded6 n) = n"
  by (simp add: padded6_def)

lemma padded6_inj: "padded6 m = padded6 n \<longleftrightarrow> m = n"
  by (metis padded6_value)

text \<open>\<open>strconv.ParseUint(s, 10, 64)\<close>: digits only, and the value must fit.\<close>

definition decimal_int :: "string \<Rightarrow> int" where
  "decimal_int s = foldl (\<lambda>n c. 10 * n + int (digit_val c)) 0 s"

lemma decimal_int: "decimal_int s = int (decimal_value s)"
proof -
  have "foldl (\<lambda>n c. 10 * n + int (digit_val c)) (int k) s =
      int (foldl (\<lambda>n c. 10 * n + digit_val c) k s)" for k
  proof (induction s arbitrary: k)
    case (Cons c s)
    have eq: "10 * int k + int (digit_val c) = int (10 * k + digit_val c)" by simp
    show ?case unfolding foldl_Cons eq by (rule Cons.IH)
  qed simp
  from this [of 0] show ?thesis
    by (simp add: decimal_int_def decimal_value_def)
qed

definition parse_uint :: "string \<Rightarrow> int option" where
  "parse_uint s =
     (if s = [] \<or> \<not> list_all is_digit s \<or> 2 ^ 64 \<le> decimal_int s then None
      else Some (decimal_int s))"

text \<open>\<open>strconv.ParseInt(s, 10, 64)\<close>: an optional sign, then as above.\<close>

definition parse_int :: "string \<Rightarrow> int option" where
  "parse_int s =
     (let (neg, body) = (case s of
            [] \<Rightarrow> (False, [])
          | c # cs \<Rightarrow> if c = CHR ''-'' then (True, cs) else if c = CHR ''+'' then (False, cs)
                      else (False, s))
      in case parse_uint body of
           None \<Rightarrow> None
         | Some n \<Rightarrow>
             if neg then (if n \<le> 2 ^ 63 then Some (- n) else None)
             else (if n < 2 ^ 63 then Some n else None))"

lemma parse_uint_decimal [simp]:
  "parse_uint (decimal n) = (if n < 2 ^ 64 then Some (int n) else None)"
proof -
  have "list_all is_digit (decimal n)" by (auto simp: list_all_iff decimal_digits)
  then show ?thesis by (simp add: parse_uint_def decimal_int)
qed

end
