(* ===== verification/Control_Server.thy ===== *)
theory Control_Server
  imports Scheduler Go_Decimal
begin

text \<open>
  The control plane's gRPC service (controlplane/server.go and submit.go) and the request to
  the code generator (controlplane/codegen_client.go). A handler is one function on the state
  of the control plane: its answer is an error or a response. The random part of ids, the
  SHA-256 of a model text, the code generator behind NATS and the dispatchers are parameters.
\<close>

section \<open>Requests\<close>

datatype rpc_error =
    InvalidArgument string
  | NotFound string
  | Internal string
  | Plain string  \<comment> \<open>an error without a status code\<close>
  | Panicked  \<comment> \<open>a nil pointer was read\<close>

definition isEmptyStopRule :: "stop_rule option \<Rightarrow> bool" where
  "isEmptyStopRule rule =
     (case rule of
        None \<Rightarrow> True
      | Some r \<Rightarrow> trim_space (sr_Left r) = [] \<and> trim_space (sr_Op r) = [] \<and> trim_space (sr_Right r) = [])"

definition known_ops :: "string list" where
  "known_ops = [''=='', ''!='', ''>'', ''>='', ''<'', ''<='']"

definition validateStopRule :: "stop_rule option \<Rightarrow> string + unit" where
  "validateStopRule rule =
     (case rule of
        None \<Rightarrow> Inl ''empty stop_rule''
      | Some r \<Rightarrow>
          (let left = trim_space (sr_Left r); op = trim_space (sr_Op r); right = trim_space (sr_Right r)
           in if left = [] then Inl ''empty stop_rule.left''
              else if op = [] then Inl ''empty stop_rule.op''
              else if right = [] then Inl ''empty stop_rule.right''
              else if op \<in> set known_ops then Inr ()
              else Inl (msg [''unsupported stop_rule.op '', quoted op])))"

definition validateCommonConfig :: "experiment_common_config option \<Rightarrow> string + unit" where
  "validateCommonConfig common =
     (case common of
        None \<Rightarrow> Inl ''empty common config''
      | Some c \<Rightarrow> if isEmptyStopRule (cc_StopRule c) then Inr () else validateStopRule (cc_StopRule c))"

fun check_set_vars :: "string \<Rightarrow> set_var option list \<Rightarrow> string + unit" where
  "check_set_vars expID [] = Inr ()"
| "check_set_vars expID (v # vs) =
     (case v of
        None \<Rightarrow> Inl (msg [''experiment '', expID, '' has empty set_var''])
      | Some sv \<Rightarrow>
          if trim_space (sv_Name sv) = [] then
            Inl (msg [''experiment '', expID, '' has set_var with empty name''])
          else if trim_space (sv_Value sv) = [] then
            Inl (msg [''experiment '', expID, '' has set_var '', sv_Name sv, '' with empty value''])
          else check_set_vars expID vs)"

definition experiment_id :: "string \<Rightarrow> nat \<Rightarrow> string" where
  "experiment_id batchID i = batchID @ ''-exp-'' @ padded6 (i + 1)"

fun normalize_experiments ::
  "string \<Rightarrow> nat \<Rightarrow> experiment_params option list \<Rightarrow> string + normalized_experiment list" where
  "normalize_experiments batchID i [] = Inr []"
| "normalize_experiments batchID i (experiment # es) =
     (case experiment of
        None \<Rightarrow> Inl (msg [''experiment '', decimal i, '' is empty''])
      | Some e \<Rightarrow>
          bindE (check_set_vars (experiment_id batchID i) (ep_SetVars e)) (\<lambda>_.
          bindE (normalize_experiments batchID (i + 1) es) (\<lambda>rest.
            Inr (\<lparr>ne_ExperimentID = experiment_id batchID i, ne_SetVars = ep_SetVars e\<rparr> # rest))))"

text \<open>\<open>rnd\<close> is \<open>randomHex(16)\<close>.\<close>

definition normalizeSubmitRequest ::
  "string \<Rightarrow> submit_request option \<Rightarrow> string + (string \<times> normalized_experiment list)" where
  "normalizeSubmitRequest rnd req =
     (case req of
        None \<Rightarrow> Inl ''empty request''
      | Some q \<Rightarrow>
          if trim_space (sb_Dsl q) = [] then Inl ''empty dsl''
          else if sb_Common q = None then Inl ''empty common config''
          else
            bindE (validateCommonConfig (sb_Common q)) (\<lambda>_.
              let batchID = trim_space (sb_BatchId q);
                  batchID = (if batchID = [] then ''batch-'' @ rnd else batchID);
                  requestExperiments = (if sb_Experiments q = [] then [Some \<lparr>ep_SetVars = []\<rparr>]
                                        else sb_Experiments q)
              in bindE (normalize_experiments batchID 0 requestExperiments) (\<lambda>experiments.
                   Inr (batchID, experiments))))"

section \<open>Asking the code generator (codegen_client.go)\<close>

text \<open>
  \<open>nats\<close> is what subscribing, publishing and waiting for the reply give, for the task that
  is sent; \<open>replyPrefix\<close> is the setting with a trailing dot removed.
\<close>

definition trim_suffix_dot :: "string \<Rightarrow> string" where
  "trim_suffix_dot s = (if s \<noteq> [] \<and> last s = CHR ''.'' then butlast s else s)"

definition codegenModeBuild :: string where
  "codegenModeBuild = ''build''"

definition BuildModel ::
  "(codegen_task \<Rightarrow> string + codegen_result) \<Rightarrow> string \<Rightarrow> codegen_task \<Rightarrow> string + codegen_result" where
  "BuildModel nats replyPrefix task =
     (if trim_space (ct_RequestID task) = [] then Inl ''empty codegen request_id''
      else if trim_space (ct_ModelHash task) = [] then Inl ''empty model_hash''
      else if trim_space (ct_DSL task) = [] then Inl ''empty dsl''
      else if trim_space (ct_GOOS task) = [] then Inl ''empty goos''
      else if trim_space (ct_GOARCH task) = [] then Inl ''empty goarch''
      else
        (let task = (if ct_Mode task = [] then task\<lparr>ct_Mode := codegenModeBuild\<rparr> else task);
             task = (if ct_ReplySubject task = []
                     then task\<lparr>ct_ReplySubject := replyPrefix @ ''.'' @ ct_RequestID task\<rparr> else task)
         in nats task))"

section \<open>Submitting a batch (submit.go)\<close>

text \<open>
  What lies outside the service. \<open>se_now j\<close> is the \<open>j\<close>-th reading of the clock in a
  handler, \<open>se_stop\<close> what \<open>StopExperiment\<close> on an address gives.
\<close>

record server_env =
  se_sql :: sql_env
  se_now :: "nat \<Rightarrow> instant"
  se_nowMs :: int
  se_random :: "nat \<Rightarrow> string"
  se_hash :: "string \<Rightarrow> string"
  se_nats :: "codegen_task \<Rightarrow> string + codegen_result"
  se_collation :: "string \<Rightarrow> nat"
  se_dial :: "string \<Rightarrow> string option"
  se_stop :: "string \<Rightarrow> string \<Rightarrow> string \<Rightarrow> string + stop_response"

text \<open>The answer is status, error code and message, and the error.\<close>

definition buildModelArtifact ::
  "server_env \<Rightarrow> control_config \<Rightarrow> string \<Rightarrow> string \<Rightarrow> string \<Rightarrow> int \<Rightarrow> world \<Rightarrow>
   ((string \<times> string \<times> string) \<times> string option) \<times> world" where
  "buildModelArtifact env cfg batchID modelHash dsl buildTimeoutSec w =
     (let goos = kc_DefaultGOOS cfg; goarch = kc_DefaultGOARCH cfg; sql = se_sql env;
          failed = (\<lambda>code message w.
            (case update_batch_status sql (se_now env 3) batchID statusFailed code message w of
               (Inl err, w) \<Rightarrow> (((statusFailed, code, message), Some err), w)
             | (Inr _, w) \<Rightarrow> (((statusFailed, code, message), None), w)))
      in case mark_model_artifact_building sql (se_now env 0) modelHash goos goarch w of
           (Inl err, w) \<Rightarrow> (((statusFailed, ''store_artifact_error'', err), Some err), w)
         | (Inr _, w) \<Rightarrow>
             (case update_batch_status sql (se_now env 1) batchID statusBuilding [] [] w of
                (Inl err, w) \<Rightarrow> (((statusFailed, ''update_batch_error'', err), Some err), w)
              | (Inr _, w) \<Rightarrow>
                  (let task = \<lparr>ct_RequestID = ''codegen-'' @ se_random env 1, ct_ReplySubject = [],
                        ct_ModelHash = modelHash, ct_DSL = dsl, ct_Mode = codegenModeBuild,
                        ct_GOOS = goos, ct_GOARCH = goarch, ct_StoreSource = Some True,
                        ct_StoreBinary = Some True, ct_BuildTimeoutSec = buildTimeoutSec\<rparr>
                   in case BuildModel (se_nats env) (trim_suffix_dot (kc_CodegenReplyPrefix cfg)) task of
                        Inl err \<Rightarrow> failed ''codegen_request_error'' err w
                      | Inr result \<Rightarrow>
                          (case save_codegen_result sql (se_now env 2) task (Some result) w of
                             (Inl err, w) \<Rightarrow>
                               (((statusFailed, ''store_artifact_result_error'', err), Some err), w)
                           | (Inr _, w) \<Rightarrow>
                               if \<not> cr_OK result then
                                 failed (if cr_ErrorCode result = [] then ''codegen_error''
                                         else cr_ErrorCode result)
                                   (if cr_Message result = [] then ''codegen task failed''
                                    else cr_Message result) w
                               else if (case cr_Binary result of None \<Rightarrow> True
                                        | Some b \<Rightarrow> cg_Key b = [] \<or> cg_SHA256 b = []) then
                                 failed ''empty_binary_artifact'' ''codegen returned no binary artifact'' w
                               else
                                 (case update_batch_status sql (se_now env 3) batchID statusReady [] [] w of
                                    (Inl err, w) \<Rightarrow> (((statusFailed, ''update_batch_error'', err), Some err), w)
                                  | (Inr _, w) \<Rightarrow> (((statusReady, [], []), None), w))))))"

definition submit_input ::
  "control_config \<Rightarrow> submit_request \<Rightarrow> string \<Rightarrow> string \<Rightarrow> int \<Rightarrow> normalized_experiment list \<Rightarrow>
   create_input" where
  "submit_input cfg q batchID modelHash buildTimeoutSec experiments =
     \<lparr>ci_BatchID = batchID, ci_ModelHash = modelHash, ci_DSL = sb_Dsl q,
      ci_SelectedGOOS = kc_DefaultGOOS cfg, ci_SelectedGOARCH = kc_DefaultGOARCH cfg,
      ci_StoreSource = True, ci_StoreBinary = True, ci_BuildTimeoutSec = buildTimeoutSec,
      ci_Common = the (sb_Common q), ci_Experiments = experiments\<rparr>"

definition effective_timeout :: "submit_request \<Rightarrow> int" where
  "effective_timeout q = (if sb_BuildTimeoutSec q \<le> 0 then 120 else sb_BuildTimeoutSec q)"

text \<open>
  After the batch is stored: reuse a ready artifact or have one built. The log line about a
  reused artifact reads its binary's key.
\<close>

definition provide_artifact ::
  "server_env \<Rightarrow> control_config \<Rightarrow> string \<Rightarrow> string \<Rightarrow> string \<Rightarrow> int \<Rightarrow> world \<Rightarrow>
   (rpc_error + (string \<times> string \<times> string)) \<times> world" where
  "provide_artifact env cfg batchID modelHash dsl buildTimeoutSec w =
     (case get_ready_model_artifact (se_sql env) modelHash (kc_DefaultGOOS cfg) (kc_DefaultGOARCH cfg) w of
        (Inl err, w) \<Rightarrow> (Inl (Internal err), w)
      | (Inr (Some artifact), w) \<Rightarrow>
          (case update_batch_status (se_sql env) (se_now env 5) batchID statusReady [] [] w of
             (Inl err, w) \<Rightarrow> (Inl (Internal err), w)
           | (Inr _, w) \<Rightarrow>
               if mar_Binary artifact = None then (Inl Panicked, w)
               else (Inr (statusReady, [], []), w))
      | (Inr None, w) \<Rightarrow>
          (case buildModelArtifact env cfg batchID modelHash dsl buildTimeoutSec w of
             ((res, Some err), w) \<Rightarrow> (Inl (Internal err), w)
           | ((res, None), w) \<Rightarrow> (Inr res, w)))"

definition enqueue_ready ::
  "server_env \<Rightarrow> string \<Rightarrow> string \<Rightarrow> control_state \<Rightarrow> (rpc_error + unit) \<times> control_state" where
  "enqueue_ready env batchStatus batchID s =
     (if batchStatus = statusReady then
        (case list_schedulable_by_batch (se_sql env) (se_collation env) (se_now env 6) batchID (cs_world s) of
           (Inl err, w) \<Rightarrow> (Inl (Internal err), s\<lparr>cs_world := w\<rparr>)
         | (Inr records, w) \<Rightarrow>
             (Inr (), snd (scheduler_enqueue (map (\<lambda>r. (se_now env 7, Some r)) records)
                            (s\<lparr>cs_world := w\<rparr>))))
      else (Inr (), s))"

definition SubmitExperimentBatch ::
  "server_env \<Rightarrow> control_config \<Rightarrow> submit_request option \<Rightarrow> control_state \<Rightarrow>
   (rpc_error + submit_response) \<times> control_state" where
  "SubmitExperimentBatch env cfg req s =
     (case normalizeSubmitRequest (se_random env 0) req of
        Inl err \<Rightarrow>
          (Inr \<lparr>su_Accepted = False, su_BatchId = (case req of None \<Rightarrow> [] | Some q \<Rightarrow> sb_BatchId q),
                su_ModelHash = [], su_Status = statusFailed, su_SelectedGoos = [],
                su_SelectedGoarch = [], su_ErrorCode = ''bad_request'', su_Message = err,
                su_Experiments = []\<rparr>, s)
      | Inr (batchID, experiments) \<Rightarrow>
          (let q = the req; modelHash = se_hash env (sb_Dsl q); timeout = effective_timeout q
           in case create_experiment_batch (se_sql env) (se_now env 4)
                     (submit_input cfg q batchID modelHash timeout experiments) (cs_world s) of
                (Inl err, w) \<Rightarrow> (Inl (Internal err), s\<lparr>cs_world := w\<rparr>)
              | (Inr _, w) \<Rightarrow>
                  (case provide_artifact env cfg batchID modelHash (sb_Dsl q) timeout w of
                     (Inl err, w) \<Rightarrow> (Inl err, s\<lparr>cs_world := w\<rparr>)
                   | (Inr (batchStatus, errorCode, message), w) \<Rightarrow>
                       (case enqueue_ready env batchStatus batchID (s\<lparr>cs_world := w\<rparr>) of
                          (Inl err, s) \<Rightarrow> (Inl err, s)
                        | (Inr _, s) \<Rightarrow>
                            (Inr \<lparr>su_Accepted = (batchStatus \<noteq> statusFailed), su_BatchId = batchID,
                                  su_ModelHash = modelHash, su_Status = batchStatus,
                                  su_SelectedGoos = kc_DefaultGOOS cfg,
                                  su_SelectedGoarch = kc_DefaultGOARCH cfg, su_ErrorCode = errorCode,
                                  su_Message = message,
                                  su_Experiments = map (\<lambda>e. \<lparr>se_ModelHash = modelHash,
                                    se_ExperimentId = ne_ExperimentID e, se_Status = statusPending\<rparr>)
                                    experiments\<rparr>, s)))))"

section \<open>The other handlers (server.go)\<close>

definition server_get_batch ::
  "server_env \<Rightarrow> string \<Rightarrow> control_state \<Rightarrow> (rpc_error + batch_status) \<times> control_state" where
  "server_get_batch env batchId s =
     (if batchId = [] then (Inl (InvalidArgument ''empty batch_id''), s)
      else case get_experiment_batch (se_sql env) (se_collation env) batchId (cs_world s) of
        (Inl err, w) \<Rightarrow> (Inl (Plain err), s\<lparr>cs_world := w\<rparr>)
      | (Inr None, w) \<Rightarrow> (Inl (NotFound ''experiment batch not found''), s\<lparr>cs_world := w\<rparr>)
      | (Inr (Some batch), w) \<Rightarrow> (Inr batch, s\<lparr>cs_world := w\<rparr>))"

definition server_get_experiment ::
  "server_env \<Rightarrow> string \<Rightarrow> string \<Rightarrow> control_state \<Rightarrow> (rpc_error + experiment_status) \<times> control_state" where
  "server_get_experiment env modelHash experimentId s =
     (if modelHash = [] then (Inl (InvalidArgument ''empty model_hash''), s)
      else if experimentId = [] then (Inl (InvalidArgument ''empty experiment_id''), s)
      else case get_experiment_row (se_sql env) modelHash experimentId (cs_world s) of
        (Inl err, w) \<Rightarrow> (Inl (Plain err), s\<lparr>cs_world := w\<rparr>)
      | (Inr None, w) \<Rightarrow> (Inl (NotFound ''experiment not found''), s\<lparr>cs_world := w\<rparr>)
      | (Inr (Some experiment), w) \<Rightarrow> (Inr experiment, s\<lparr>cs_world := w\<rparr>))"

definition server_list_nodes ::
  "server_env \<Rightarrow> string list \<Rightarrow> string \<Rightarrow> control_state \<Rightarrow> node_status option list \<times> control_state" where
  "server_list_nodes env order status s =
     (case node_list (se_now env 0) order status (cs_nodes s) of
        ((nodes, evicted), r) \<Rightarrow> (nodes, s\<lparr>cs_nodes := r\<rparr>))"

text \<open>\<open>RegisterNode\<close>, \<open>SendHeartbeat\<close> and \<open>ReportExperimentResult\<close> answer a flag and a message.\<close>

definition server_register ::
  "server_env \<Rightarrow> node_status option \<Rightarrow> control_state \<Rightarrow> (bool \<times> string) \<times> control_state" where
  "server_register env node s =
     (case node_register (se_now env 0) node (cs_nodes s) of
        Inl err \<Rightarrow> ((False, err), s)
      | Inr r \<Rightarrow> ((True, ''node registered''), s\<lparr>cs_nodes := r\<rparr>))"

definition server_heartbeat ::
  "server_env \<Rightarrow> node_status option \<Rightarrow> control_state \<Rightarrow> (bool \<times> string) \<times> control_state" where
  "server_heartbeat env node s =
     (case node_heartbeat (se_now env 0) node (cs_nodes s) of
        Inl err \<Rightarrow> ((False, err), s)
      | Inr r \<Rightarrow> ((True, ''heartbeat accepted''), s\<lparr>cs_nodes := r\<rparr>))"

definition ReportExperimentResult ::
  "server_env \<Rightarrow> string \<Rightarrow> experiment_status option \<Rightarrow> control_state \<Rightarrow> (bool \<times> string) \<times> control_state" where
  "ReportExperimentResult env nodeId result s =
     (case result of
        None \<Rightarrow> ((False, ''empty experiment result''), s)
      | Some res \<Rightarrow>
          (case update_experiment_result (se_sql env) (se_now env 0) nodeId (Some res) (cs_world s) of
             ((batchID, found, Some err), w) \<Rightarrow> ((False, err), s\<lparr>cs_world := w\<rparr>)
           | ((batchID, found, None), w) \<Rightarrow>
               if \<not> found then ((False, ''experiment not found''), s\<lparr>cs_world := w\<rparr>)
               else ((True, ''experiment result accepted''),
                 s\<lparr>cs_world := w,
                   cs_nodes := release_reservation nodeId (es_MemoryLimitBytes res) (cs_nodes s)\<rparr>)))"

definition cancel_answer :: "bool \<Rightarrow> cancel_record \<Rightarrow> string \<Rightarrow> string \<Rightarrow> cancel_response" where
  "cancel_answer canceled record status message =
     \<lparr>cn_Canceled = canceled, cn_ModelHash = cx_ModelHash record,
      cn_ExperimentId = cx_ExperimentID record, cn_Status = status, cn_Message = message\<rparr>"

definition cancel_pending ::
  "server_env \<Rightarrow> cancel_record \<Rightarrow> control_state \<Rightarrow> (rpc_error + cancel_response) \<times> control_state" where
  "cancel_pending env record s =
     (case scheduler_remove (cx_ModelHash record) (cx_ExperimentID record) s of
        (removed, s) \<Rightarrow>
          (case mark_pending_experiment_canceled (se_sql env) (se_now env 0) (se_nowMs env)
                  (cx_ModelHash record) (cx_ExperimentID record) (cs_world s) of
             (Inl err, w) \<Rightarrow> (Inl (Plain err), s\<lparr>cs_world := w\<rparr>)
           | (Inr False, w) \<Rightarrow>
               (Inr (cancel_answer False record (cx_Status record) ''experiment is no longer pending''),
                s\<lparr>cs_world := w\<rparr>)
           | (Inr True, w) \<Rightarrow>
               (case refresh_batch_status (se_sql env) (se_now env 1) (cx_BatchID record) w of
                  (Inl err, w) \<Rightarrow> (Inl (Plain err), s\<lparr>cs_world := w\<rparr>)
                | (Inr _, w) \<Rightarrow>
                    (Inr (cancel_answer True record statusCanceled ''pending experiment canceled''),
                     s\<lparr>cs_world := w\<rparr>))))"

definition cancel_active ::
  "server_env \<Rightarrow> cancel_record \<Rightarrow> control_state \<Rightarrow> (rpc_error + cancel_response) \<times> control_state" where
  "cancel_active env record s =
     (let answer = cancel_answer False record (cx_Status record) in
      if cx_DispatcherNodeID record = [] then (Inr (answer ''experiment has no dispatcher node''), s)
      else
        (case node_get (se_now env 0) (cx_DispatcherNodeID record) (cs_nodes s) of
           (None, r) \<Rightarrow> (Inr (answer ''dispatcher node is not available''), s\<lparr>cs_nodes := r\<rparr>)
         | (Some node, r) \<Rightarrow>
             (let s = s\<lparr>cs_nodes := r\<rparr> in
              case new_dispatcher_client (se_dial env) (ns_Address node) of
                Inl err \<Rightarrow> (Inl (Plain err), s)
              | Inr address \<Rightarrow>
                  (case se_stop env address (cx_ModelHash record) (cx_ExperimentID record) of
                     Inl err \<Rightarrow> (Inl (Plain err), s)
                   | Inr resp \<Rightarrow>
                       (let message =
                          (if so_Stopped resp then
                             ''cancellation requested; terminal status will be set when dispatcher reports result''
                           else if so_Message resp = [] then ''dispatcher could not stop experiment''
                           else so_Message resp)
                        in (Inr (answer message), s))))))"

definition CancelExperiment ::
  "server_env \<Rightarrow> string \<Rightarrow> string \<Rightarrow> control_state \<Rightarrow> (rpc_error + cancel_response) \<times> control_state" where
  "CancelExperiment env modelHash experimentId s =
     (if modelHash = [] then (Inl (InvalidArgument ''empty model_hash''), s)
      else if experimentId = [] then (Inl (InvalidArgument ''empty experiment_id''), s)
      else
        (case get_experiment_for_cancel (se_sql env) modelHash experimentId (cs_world s) of
           (Inl err, w) \<Rightarrow> (Inl (Plain err), s\<lparr>cs_world := w\<rparr>)
         | (Inr None, w) \<Rightarrow> (Inl (NotFound ''experiment not found''), s\<lparr>cs_world := w\<rparr>)
         | (Inr (Some record), w) \<Rightarrow>
             (let s = s\<lparr>cs_world := w\<rparr>; status = cx_Status record in
              if status = statusPending then cancel_pending env record s
              else if status = statusStarting \<or> status = statusRunning then cancel_active env record s
              else if status = statusCanceled then
                (Inr (cancel_answer True record statusCanceled ''experiment is already canceled''), s)
              else if status = statusFinished \<or> status = statusFailed then
                (Inr (cancel_answer False record status ''experiment is already terminal''), s)
              else
                (Inr (cancel_answer False record status
                   ''experiment cannot be canceled in current status''), s))))"

section \<open>Experiment ids\<close>

lemma padded6_digits: "c \<in> set (padded6 n) \<Longrightarrow> is_digit c"
proof -
  have "is_digit (CHR ''0'')" by (simp add: is_digit_def)
  then show "c \<in> set (padded6 n) \<Longrightarrow> is_digit c" by (auto simp: padded6_def decimal_digits)
qed

lemma split_at_dash:
  "\<forall>c \<in> set xs. is_digit c \<Longrightarrow> \<forall>c \<in> set ys. is_digit c \<Longrightarrow>
   xs @ CHR ''-'' # as = ys @ CHR ''-'' # bs \<longleftrightarrow> xs = ys \<and> as = bs"
  by (rule append_sep_eq) (auto simp: is_digit_def)

text \<open>An id names its batch and its number: ids of different batches never clash.\<close>

lemma experiment_id_inj:
  "experiment_id b i = experiment_id b' j \<longleftrightarrow> b = b' \<and> i = j"
proof
  assume "experiment_id b i = experiment_id b' j"
  then have "rev (experiment_id b i) = rev (experiment_id b' j)" by simp
  then have "rev (padded6 (i + 1)) @ CHR ''-'' # (''pxe-'' @ rev b) =
      rev (padded6 (j + 1)) @ CHR ''-'' # (''pxe-'' @ rev b')"
    by (simp add: experiment_id_def)
  then have "rev (padded6 (i + 1)) = rev (padded6 (j + 1)) \<and> ''pxe-'' @ rev b = ''pxe-'' @ rev b'"
    by (subst (asm) split_at_dash) (auto simp: padded6_digits)
  then show "b = b' \<and> i = j" by (simp add: padded6_inj)
qed simp

lemma normalize_experiments_Inr:
  "normalize_experiments b i es = Inr xs \<Longrightarrow>
   map ne_ExperimentID xs = map (experiment_id b) [i..<i + length es] \<and>
   map (\<lambda>x. Some (ne_SetVars x)) xs = map (map_option ep_SetVars) es \<and>
   (\<forall>x \<in> set xs. check_set_vars (ne_ExperimentID x) (ne_SetVars x) = Inr ())"
proof (induction es arbitrary: i xs)
  case (Cons e es)
  from Cons.prems obtain p rest where e: "e = Some p" and rest: "normalize_experiments b (i + 1) es = Inr rest"
    and c: "check_set_vars (experiment_id b i) (ep_SetVars p) = Inr ()"
    and xs: "xs = \<lparr>ne_ExperimentID = experiment_id b i, ne_SetVars = ep_SetVars p\<rparr> # rest"
    by (cases e) auto
  from Cons.IH [OF rest] have IH: "map ne_ExperimentID rest = map (experiment_id b) [i + 1..<i + 1 + length es]"
    "map (\<lambda>x. Some (ne_SetVars x)) rest = map (map_option ep_SetVars) es"
    "\<forall>x \<in> set rest. check_set_vars (ne_ExperimentID x) (ne_SetVars x) = Inr ()" by auto
  have "[i..<i + length (e # es)] = i # [i + 1..<i + 1 + length es]"
    by (simp add: upt_rec)
  with IH e c xs show ?case by simp
qed simp

lemma check_set_vars_Inr:
  "check_set_vars x vs = Inr () \<longleftrightarrow>
   (\<forall>v \<in> set vs. \<exists>sv. v = Some sv \<and> trim_space (sv_Name sv) \<noteq> [] \<and> trim_space (sv_Value sv) \<noteq> [])"
  by (induction vs) (auto split: option.splits)

lemma normalized_from:
  assumes "normalizeSubmitRequest rnd req = Inr (b, xs)"
  shows "\<exists>es. es \<noteq> [] \<and> normalize_experiments b 0 es = Inr xs \<and> b \<noteq> [] \<and> length xs = length es"
proof -
  have "\<exists>es. es \<noteq> [] \<and> normalize_experiments b 0 es = Inr xs \<and> b \<noteq> []"
    using assms
    by (intro exI [of _ "if sb_Experiments (the req) = [] then [Some \<lparr>ep_SetVars = []\<rparr>]
        else sb_Experiments (the req)"])
      (auto simp: normalizeSubmitRequest_def Let_def split: option.splits if_splits)
  then obtain es where es: "es \<noteq> []" "normalize_experiments b 0 es = Inr xs" "b \<noteq> []" by blast
  from normalize_experiments_Inr [OF es(2)] have "map ne_ExperimentID xs = map (experiment_id b) [0..<length es]"
    by simp
  then have "length xs = length es" using map_eq_imp_length_eq by fastforce
  with es show ?thesis by blast
qed

text \<open>
  An accepted submission names its experiments well: there is at least one, they are
  numbered from 1 under the batch id, no id occurs twice, also not in any other batch, and
  every variable to set has a name and a value that are not blank.
\<close>

theorem submitted_ids_unique:
  assumes "normalizeSubmitRequest rnd req = Inr (b, xs)"
  shows "b \<noteq> [] \<and> xs \<noteq> [] \<and>
    (\<forall>i < length xs. ne_ExperimentID (xs ! i) = b @ ''-exp-'' @ padded6 (i + 1)) \<and>
    distinct (map ne_ExperimentID xs) \<and>
    (\<forall>rnd' req' b' xs'. normalizeSubmitRequest rnd' req' = Inr (b', xs') \<longrightarrow> b' \<noteq> b \<longrightarrow>
       set (map ne_ExperimentID xs) \<inter> set (map ne_ExperimentID xs') = {}) \<and>
    (\<forall>x \<in> set xs. \<forall>v \<in> set (ne_SetVars x). \<exists>sv. v = Some sv \<and>
       trim_space (sv_Name sv) \<noteq> [] \<and> trim_space (sv_Value sv) \<noteq> [])"
proof -
  from normalized_from [OF assms] obtain es where es: "es \<noteq> []" "normalize_experiments b 0 es = Inr xs" "b \<noteq> []"
    and len: "length xs = length es" by blast
  note n = normalize_experiments_Inr [OF es(2)]
  then have m: "map ne_ExperimentID xs = map (experiment_id b) [0..<length es]" by simp
  have at: "ne_ExperimentID (xs ! i) = b @ ''-exp-'' @ padded6 (i + 1)" if "i < length xs" for i
  proof -
    have "map ne_ExperimentID xs ! i = map (experiment_id b) [0..<length es] ! i" using m by simp
    with that len show ?thesis by (simp add: experiment_id_def)
  qed
  have d: "distinct (map ne_ExperimentID xs)"
    unfolding m by (simp add: distinct_map inj_on_def experiment_id_inj)
  have other: "set (map ne_ExperimentID xs) \<inter> set (map ne_ExperimentID xs') = {}"
    if "normalizeSubmitRequest rnd' req' = Inr (b', xs')" "b' \<noteq> b" for rnd' req' b' xs'
  proof -
    from normalized_from [OF that(1)] obtain es' where "normalize_experiments b' 0 es' = Inr xs'" by blast
    from normalize_experiments_Inr [OF this]
    have "map ne_ExperimentID xs' = map (experiment_id b') [0..<length es']" by simp
    then show ?thesis unfolding m using that(2) by (auto simp: experiment_id_inj)
  qed
  show ?thesis
    using es(1,3) len at d other n by (auto simp: check_set_vars_Inr)
qed

section \<open>From submission to the queue\<close>

text \<open>The batch is stored for this model and platform with this status; a ready binary is stored.\<close>

definition has_batch :: "string \<Rightarrow> string \<Rightarrow> string \<Rightarrow> string \<Rightarrow> string \<Rightarrow> database \<Rightarrow> bool" where
  "has_batch b h goos goarch st db \<longleftrightarrow> (\<exists>x \<in> set (t_batches db). b_batch_id x = b \<and>
     b_model_hash x = h \<and> b_selected_goos x = goos \<and> b_selected_goarch x = goarch \<and> b_status x = st)"

definition has_binary :: "string \<Rightarrow> string \<Rightarrow> string \<Rightarrow> database \<Rightarrow> bool" where
  "has_binary h goos goarch db \<longleftrightarrow> (\<exists>a \<in> set (t_artifacts db). a_model_hash a = h \<and>
     a_goos a = goos \<and> a_goarch a = goarch \<and> artifact_ready a)"

lemma has_binary_same: "t_artifacts db' = t_artifacts db \<Longrightarrow> has_binary h g a db' = has_binary h g a db"
  by (simp add: has_binary_def)

lemma update_batch_status_effect:
  assumes "update_batch_status env now b st code m w = (Inr u, w')"
  shows "t_experiments (w_db w') = t_experiments (w_db w) \<and> t_artifacts (w_db w') = t_artifacts (w_db w) \<and>
    (\<forall>h goos goarch old. has_batch b h goos goarch old (w_db w) \<longrightarrow> has_batch b h goos goarch st (w_db w'))"
proof -
  let ?f = "\<lambda>x. x\<lparr>b_status := st, b_error_code := nilIfEmpty code, b_message := nilIfEmpty m, b_updated_at := now\<rparr>"
  note db = update_batches_answered [OF assms [unfolded update_batch_status_def]]
  have "has_batch b h goos goarch st (w_db w')" if has: "has_batch b h goos goarch old (w_db w)" for h goos goarch old
  proof -
    from has obtain x where x: "x \<in> set (t_batches (w_db w))" "b_batch_id x = b" "b_model_hash x = h"
      "b_selected_goos x = goos" "b_selected_goarch x = goarch" by (auto simp: has_batch_def)
    then have "?f x \<in> set (t_batches (w_db w'))" unfolding db by force
    with x show ?thesis unfolding has_batch_def by (intro bexI [of _ "?f x"]) simp_all
  qed
  with db show ?thesis by simp
qed

lemma save_codegen_effect:
  assumes "save_codegen_result env now task (Some r) w = (Inr u, w')" "cr_OK r"
    "cr_Binary r = Some bin" "cg_Key bin \<noteq> []" "cg_SHA256 bin \<noteq> []"
    "cr_ModelHash r \<in> {[], ct_ModelHash task}" "cr_GOOS r \<in> {[], ct_GOOS task}" "cr_GOARCH r \<in> {[], ct_GOARCH task}"
  shows "t_experiments (w_db w') = t_experiments (w_db w) \<and> t_batches (w_db w') = t_batches (w_db w) \<and>
    has_binary (ct_ModelHash task) (ct_GOOS task) (ct_GOARCH task) (w_db w')"
proof -
  have keys: "(if cr_ModelHash r = [] then ct_ModelHash task else cr_ModelHash r) = ct_ModelHash task"
    "(if cr_GOOS r = [] then ct_GOOS task else cr_GOOS r) = ct_GOOS task"
    "(if cr_GOARCH r = [] then ct_GOARCH task else cr_GOARCH r) = ct_GOARCH task"
    using assms(6-8) by auto
  have bin: "rc_key (ref_columns (cr_Binary r)) \<noteq> None" "rc_sha256 (ref_columns (cr_Binary r)) \<noteq> None"
    using assms(3-5) by (simp_all add: ref_columns_def artifactKey_def artifactSHA256_def nilIfEmpty_def)
  let ?new = "\<lparr>a_model_hash = ct_ModelHash task, a_goos = ct_GOOS task, a_goarch = ct_GOARCH task,
      a_status = artifactStatusReady, a_source = ref_columns (cr_Source r),
      a_binary = ref_columns (cr_Binary r), a_build_log = ref_columns (cr_BuildLog r),
      a_error_code = nilIfEmpty [], a_message = nilIfEmpty [], a_updated_at = now\<rparr>"
  let ?merge = "\<lambda>a. a\<lparr>a_status := artifactStatusReady, a_source := ref_columns (cr_Source r),
      a_binary := ref_columns (cr_Binary r), a_build_log := ref_columns (cr_BuildLog r),
      a_error_code := nilIfEmpty [], a_message := nilIfEmpty [], a_updated_at := now\<rparr>"
  have "run_sql env (upsert_artifact ?new ?merge) w = (Inr u, w')"
    using assms(1,2) by (simp add: save_codegen_result_def Let_def keys)
  note up = run_sql_answered [OF this]
  have ready: "artifact_ready ?new" "artifact_ready (?merge a)" for a
    using bin by (simp_all add: artifact_ready_def)
  show ?thesis
  proof (cases "\<exists>a \<in> set (t_artifacts (w_db w)). a_model_hash a = ct_ModelHash task \<and>
      a_goos a = ct_GOOS task \<and> a_goarch a = ct_GOARCH task")
    case True
    then obtain a where a: "a \<in> set (t_artifacts (w_db w))" "a_model_hash a = ct_ModelHash task"
      "a_goos a = ct_GOOS task" "a_goarch a = ct_GOARCH task" by blast
    have db: "w_db w' = (w_db w)\<lparr>t_artifacts := map (\<lambda>a. if a_model_hash a = ct_ModelHash task \<and>
        a_goos a = ct_GOOS task \<and> a_goarch a = ct_GOARCH task then ?merge a else a) (t_artifacts (w_db w))\<rparr>"
      using up True by (auto simp: upsert_artifact_def Let_def split: if_splits)
    have "?merge a \<in> set (t_artifacts (w_db w'))" unfolding db using a by force
    with a ready(2) have "has_binary (ct_ModelHash task) (ct_GOOS task) (ct_GOARCH task) (w_db w')"
      unfolding has_binary_def by (intro bexI [of _ "?merge a"]) simp_all
    with db show ?thesis by simp
  next
    case False
    have db: "w_db w' = (w_db w)\<lparr>t_artifacts := t_artifacts (w_db w) @ [?new]\<rparr>"
      using up False by (auto simp: upsert_artifact_def Let_def split: if_splits)
    then have "has_binary (ct_ModelHash task) (ct_GOOS task) (ct_GOARCH task) (w_db w')"
      using ready(1) by (simp add: has_binary_def)
    with db show ?thesis by simp
  qed
qed

lemma upsert_effect:
  "upsert_artifact new merge db = Inr (u, db') \<Longrightarrow>
   t_experiments db' = t_experiments db \<and> t_batches db' = t_batches db"
  by (auto simp: upsert_artifact_def Let_def split: if_splits)

lemma mark_building_effect:
  assumes "mark_model_artifact_building env now h goos goarch w = (Inr u, w')"
  shows "t_experiments (w_db w') = t_experiments (w_db w) \<and> t_batches (w_db w') = t_batches (w_db w)"
  using upsert_effect [OF run_sql_answered [OF assms [unfolded mark_model_artifact_building_def]]] .

text \<open>The code generator answers for the model and platform it was asked for, when it was asked
  for a platform.\<close>

definition answers_request :: "(codegen_task \<Rightarrow> string + codegen_result) \<Rightarrow> bool" where
  "answers_request nats \<longleftrightarrow> (\<forall>t r. ct_GOOS t \<noteq> [] \<and> ct_GOARCH t \<noteq> [] \<and> nats t = Inr r \<longrightarrow>
     cr_ModelHash r \<in> {[], ct_ModelHash t} \<and> cr_GOOS r \<in> {[], ct_GOOS t} \<and> cr_GOARCH r \<in> {[], ct_GOARCH t})"

lemma BuildModel_sends:
  "BuildModel nats p task = Inr r \<Longrightarrow> \<exists>t. nats t = Inr r \<and> ct_ModelHash t = ct_ModelHash task \<and>
   ct_GOOS t = ct_GOOS task \<and> ct_GOARCH t = ct_GOARCH task \<and> ct_GOOS t \<noteq> [] \<and> ct_GOARCH t \<noteq> []"
  by (rule exI [of _ "(if ct_Mode task = [] then task\<lparr>ct_Mode := codegenModeBuild\<rparr> else task)
        \<lparr>ct_ReplySubject := if ct_ReplySubject task = [] then p @ ''.'' @ ct_RequestID task else ct_ReplySubject task\<rparr>"])
    (auto simp: BuildModel_def Let_def split: if_splits)

lemma BuildModel_answers:
  "BuildModel nats p task = Inr r \<Longrightarrow> answers_request nats \<Longrightarrow> cr_ModelHash r \<in> {[], ct_ModelHash task} \<and>
   cr_GOOS r \<in> {[], ct_GOOS task} \<and> cr_GOARCH r \<in> {[], ct_GOARCH task}"
  unfolding answers_request_def by (metis BuildModel_sends)

lemma build_ready:
  assumes "buildModelArtifact env cfg b h dsl timeout w = (((st, code, m), None), w')" "st \<noteq> statusFailed"
    "has_batch b h (kc_DefaultGOOS cfg) (kc_DefaultGOARCH cfg) old (w_db w)" "answers_request (se_nats env)"
  shows "st = statusReady \<and> t_experiments (w_db w') = t_experiments (w_db w) \<and>
    has_batch b h (kc_DefaultGOOS cfg) (kc_DefaultGOARCH cfg) statusReady (w_db w') \<and>
    has_binary h (kc_DefaultGOOS cfg) (kc_DefaultGOARCH cfg) (w_db w')"
proof -
  let ?os = "kc_DefaultGOOS cfg" and ?arch = "kc_DefaultGOARCH cfg" and ?sql = "se_sql env"
  note def = assms(1) [unfolded buildModelArtifact_def Let_def]
  obtain r1 w1 where 1: "mark_model_artifact_building ?sql (se_now env 0) h ?os ?arch w = (r1, w1)" by fastforce
  obtain r2 w2 where 2: "update_batch_status ?sql (se_now env 1) b statusBuilding [] [] w1 = (r2, w2)" by fastforce
  let ?task = "\<lparr>ct_RequestID = ''codegen-'' @ se_random env 1, ct_ReplySubject = [],
      ct_ModelHash = h, ct_DSL = dsl, ct_Mode = codegenModeBuild,
      ct_GOOS = ?os, ct_GOARCH = ?arch, ct_StoreSource = Some True,
      ct_StoreBinary = Some True, ct_BuildTimeoutSec = timeout\<rparr>"
  note d1 = def [unfolded 1 prod.case]
  obtain u1 where r1: "r1 = Inr u1" using d1 assms(2) by (cases r1) auto
  note d2 = d1 [unfolded r1 sum.case 2 prod.case]
  obtain u2 where r2: "r2 = Inr u2" using d2 assms(2) by (cases r2) auto
  note d3 = d2 [unfolded r2 sum.case]
  obtain result where result: "BuildModel (se_nats env) (trim_suffix_dot (kc_CodegenReplyPrefix cfg)) ?task = Inr result"
    using d3 assms(2)
    by (cases "BuildModel (se_nats env) (trim_suffix_dot (kc_CodegenReplyPrefix cfg)) ?task")
      (auto split: prod.splits sum.splits)
  obtain r3 w3 where 3: "save_codegen_result ?sql (se_now env 2) ?task (Some result) w2 = (r3, w3)" by fastforce
  note d4 = d3 [unfolded result sum.case 3 prod.case]
  obtain u3 where r3: "r3 = Inr u3" using d4 assms(2) by (cases r3) auto
  note d5 = d4 [unfolded r3 sum.case]
  have ok: "cr_OK result" using d5 assms(2) by (cases "cr_OK result") (auto split: prod.splits sum.splits)
  obtain bin where bin: "cr_Binary result = Some bin" "cg_Key bin \<noteq> []" "cg_SHA256 bin \<noteq> []"
    using d5 assms(2) ok
    by (cases "cr_Binary result") (auto split: prod.splits sum.splits if_splits)
  obtain r4 w4 where 4: "update_batch_status ?sql (se_now env 3) b statusReady [] [] w3 = (r4, w4)" by fastforce
  have d6: "(case r4 of Inl err \<Rightarrow> (((statusFailed, ''update_batch_error'', err), Some err), w4)
      | Inr u \<Rightarrow> (((statusReady, [], []), None), w4)) = (((st, code, m), None), w')"
    using d5 ok bin 4 by (cases r4) simp_all
  obtain u4 where r4: "r4 = Inr u4" using d6 assms(2) by (cases r4) auto
  have fin: "st = statusReady" "w' = w4" using d6 r4 by simp_all
  note law = BuildModel_answers [OF result assms(4)]
  have e3: "t_experiments (w_db w3) = t_experiments (w_db w2) \<and> t_batches (w_db w3) = t_batches (w_db w2) \<and>
      has_binary h ?os ?arch (w_db w3)"
    using save_codegen_effect [OF 3 [unfolded r3] ok bin] law by simp
  note e1 = mark_building_effect [OF 1 [unfolded r1]]
  note e2 = update_batch_status_effect [OF 2 [unfolded r2]]
  note e4 = update_batch_status_effect [OF 4 [unfolded r4]]
  have "has_batch b h ?os ?arch old (w_db w1)" using assms(3) e1 by (simp add: has_batch_def)
  then have "has_batch b h ?os ?arch statusBuilding (w_db w2)" using e2 by blast
  then have "has_batch b h ?os ?arch statusBuilding (w_db w3)" using e3 by (simp add: has_batch_def)
  then have "has_batch b h ?os ?arch statusReady (w_db w4)" using e4 by blast
  moreover have "has_binary h ?os ?arch (w_db w4)" using e3 e4 has_binary_same by blast
  ultimately show ?thesis using fin e1 e2 e3 e4 by simp
qed

lemma provide_ready:
  assumes "provide_artifact env cfg b h dsl timeout w = (Inr (st, code, m), w')" "st \<noteq> statusFailed"
    "has_batch b h (kc_DefaultGOOS cfg) (kc_DefaultGOARCH cfg) old (w_db w)" "answers_request (se_nats env)"
  shows "st = statusReady \<and> t_experiments (w_db w') = t_experiments (w_db w) \<and>
    has_batch b h (kc_DefaultGOOS cfg) (kc_DefaultGOARCH cfg) statusReady (w_db w') \<and>
    has_binary h (kc_DefaultGOOS cfg) (kc_DefaultGOARCH cfg) (w_db w')"
proof -
  let ?os = "kc_DefaultGOOS cfg" and ?arch = "kc_DefaultGOARCH cfg"
  let ?Q = "\<lambda>a. a_model_hash a = h \<and> a_goos a = ?os \<and> a_goarch a = ?arch \<and> artifact_ready a"
  note def = assms(1) [unfolded provide_artifact_def]
  obtain q w0 where q: "run_sql (se_sql env) (\<lambda>db. Inr (filter ?Q (t_artifacts db), db)) w = (q, w0)" by fastforce
  obtain r1 w1 where 1: "get_ready_model_artifact (se_sql env) h ?os ?arch w = (r1, w1)" by fastforce
  obtain found where r1: "r1 = Inr found" using def by (cases r1) (simp_all add: 1)
  note g = 1 [unfolded get_ready_model_artifact_def q prod.case r1]
  then obtain rows where rows: "q = Inr rows" by (cases q) auto
  from run_sql_answered [OF q [unfolded rows]] have db1: "rows = filter ?Q (t_artifacts (w_db w))" "w_db w0 = w_db w"
    by auto
  have w1: "w1 = w0" using g rows by (cases rows) auto
  show ?thesis
  proof (cases found)
    case None
    obtain res err w2 where 2: "buildModelArtifact env cfg b h dsl timeout w1 = ((res, err), w2)"
      by (metis prod.exhaust)
    with def None have "err = None" "res = (st, code, m)" "w' = w2"
      by (cases err; simp add: 1 r1)+
    with build_ready [of env cfg b h dsl timeout w1 st code m w' old] 2 assms(2-4) w1 db1 show ?thesis by simp
  next
    case (Some artifact)
    then have "rows \<noteq> []" using g rows by auto
    then have bin: "has_binary h ?os ?arch (w_db w1)"
      using db1 w1 unfolding has_binary_def by (auto simp: filter_empty_conv)
    obtain r2 w2 where 2: "update_batch_status (se_sql env) (se_now env 5) b statusReady [] [] w1 = (r2, w2)" by fastforce
    obtain u where r2: "r2 = Inr u" using def by (cases r2) (simp_all add: 1 r1 Some 2)
    have fin: "st = statusReady" "w' = w2"
      using def by (cases "mar_Binary artifact"; simp add: 1 r1 Some 2 r2)+
    note e = update_batch_status_effect [OF 2 [unfolded r2]]
    have "has_batch b h ?os ?arch statusReady (w_db w2)" using e assms(3) w1 db1 by auto
    moreover have "has_binary h ?os ?arch (w_db w2)" using bin e has_binary_same by blast
    ultimately show ?thesis using fin e w1 db1 by simp
  qed
qed

lemma list_schedulable_has:
  assumes "list_schedulable_by_batch env coll now b w = (Inr records, w')"
    "x \<in> set (t_experiments (w_db w))" "x_batch_id x = b" "x_status x = statusPending"
    "has_batch b h goos goarch statusReady (w_db w)" "has_binary h goos goarch (w_db w)"
  shows "\<exists>r \<in> set records. sc_ModelHash r = x_model_hash x \<and> sc_ExperimentID r = x_experiment_id x"
proof -
  from assms(5) obtain B where B: "B \<in> set (t_batches (w_db w))" "b_batch_id B = b" "b_model_hash B = h"
    "b_selected_goos B = goos" "b_selected_goarch B = goarch" "b_status B = statusReady"
    by (auto simp: has_batch_def)
  from assms(6) obtain a where a: "a \<in> set (t_artifacts (w_db w))" "a_model_hash a = h" "a_goos a = goos"
    "a_goarch a = goarch" "artifact_ready a" by (auto simp: has_binary_def)
  let ?J = "schedulable_join (\<lambda>e b' a. b_batch_id b' = b \<and> x_status e = statusPending \<and>
      (b_status b' = statusReady \<or> b_status b' = statusRunning) \<and> artifact_ready a) (w_db w)"
  have "(x, B, a) \<in> set ?J"
    using assms(2-4) B a unfolding schedulable_join_def by fastforce
  moreover have "records = map (\<lambda>(e, b, a). schedule_row now e b a)
      (sort_key (\<lambda>(e, b, a). coll (x_experiment_id e)) ?J)"
    using run_sql_answered [OF assms(1) [unfolded list_schedulable_by_batch_def]]
    unfolding sum.inject prod.inject by (elim conjE) (rule sym)
  ultimately have "schedule_row now x B a \<in> set records" by force
  then show ?thesis by (rule bexI [rotated]) (simp add: schedule_row_def)
qed

lemma list_schedulable_same:
  assumes "list_schedulable_by_batch env coll now b w = (Inr records, w')"
  shows "w_db w' = w_db w"
  using run_sql_answered [OF assms [unfolded list_schedulable_by_batch_def]] by simp

lemma enqueue_many_has:
  "set (map record_key rs) \<union> pq_index q \<subseteq> pq_index (snd (pq_enqueue_many (map (\<lambda>r. (now, Some r)) rs) q))"
proof (induction rs arbitrary: q)
  case (Cons r rs)
  have "insert (record_key r) (pq_index q) \<subseteq> pq_index (snd (pq_enqueue now (Some r) q))"
    by (auto simp: pq_enqueue_Some)
  with Cons.IH [of "snd (pq_enqueue now (Some r) q)"] show ?case
    by (auto split: prod.split)
qed simp


section \<open>Cancelling\<close>

lemma mark_canceled_effect:
  assumes "mark_pending_experiment_canceled env now ms h e w = (Inr b, w')" "db_ok (w_db w)"
  shows "(b \<longrightarrow> (\<exists>x \<in> set (t_experiments (w_db w')). is_experiment h e x \<and> x_status x = statusCanceled)) \<and>
    (\<not> b \<longrightarrow> t_experiments (w_db w') = t_experiments (w_db w))"
proof -
  let ?P = "\<lambda>x. is_experiment h e x \<and> x_status x = statusPending"
  let ?f = "\<lambda>x. x\<lparr>x_status := statusCanceled, x_finish_reason := Some ''user_canceled'',
      x_error_message := None, x_finished_at_unix_ms := Some ms, x_updated_at := now\<rparr>"
  obtain q w1 where sql: "run_sql env (update_experiments ?P ?f) w = (q, w1)" by fastforce
  note eq = assms(1) [unfolded mark_pending_experiment_canceled_def sql prod.case]
  then obtain rows where q: "q = Inr rows" and b: "b \<longleftrightarrow> length rows = 1" and w': "w' = w1"
    by (cases q) auto
  from update_answered [OF sql [unfolded q]] have
    m: "t_experiments (w_db w') = map (\<lambda>x. if ?P x then ?f x else x) (t_experiments (w_db w))"
    and rows: "rows = map ?f (filter ?P (t_experiments (w_db w)))" unfolding w' by simp_all
  show ?thesis
  proof (cases "filter ?P (t_experiments (w_db w)) = []")
    case True
    then have "map (\<lambda>x. if ?P x then ?f x else x) (t_experiments (w_db w)) = t_experiments (w_db w)"
      by (intro map_idI) (auto simp: filter_empty_conv)
    with m b rows True show ?thesis by simp
  next
    case False
    then obtain x where x: "x \<in> set (t_experiments (w_db w))" "?P x" by (auto simp: filter_empty_conv)
    have "filter ?P (t_experiments (w_db w)) =
        filter (\<lambda>x. x_status x = statusPending) (filter (is_experiment h e) (t_experiments (w_db w)))"
      by (simp add: conj_commute)
    also have "\<dots> = [x]" using key_unique [OF assms(2) x(1)] x(2) by simp
    finally have b1: b using b rows by simp
    have "?f x \<in> set (t_experiments (w_db w'))" unfolding m using x by force
    with x b1 show ?thesis by (intro conjI impI bexI [of _ "?f x"]) (simp_all add: is_experiment_def)
  qed
qed

lemma get_for_cancel_found:
  assumes "get_experiment_for_cancel env h e w = (Inr (Some rc), w')"
  shows "w_db w' = w_db w \<and> cx_ModelHash rc = h \<and> cx_ExperimentID rc = e \<and>
    (\<exists>x xs. filter (is_experiment h e) (t_experiments (w_db w)) = x # xs \<and> cx_Status rc = x_status x)"
proof -
  obtain q w1 where sql: "run_sql env (\<lambda>db. Inr (filter (is_experiment h e) (t_experiments db), db)) w = (q, w1)"
    by fastforce
  note eq = assms [unfolded get_experiment_for_cancel_def sql prod.case]
  then obtain x xs where q: "q = Inr (x # xs)" and rest: "w' = w1" "cx_ModelHash rc = x_model_hash x"
    "cx_ExperimentID rc = x_experiment_id x" "cx_Status rc = x_status x"
    by (cases q) (auto split: list.splits)
  from run_sql_answered [OF sql [unfolded q]] have f: "filter (is_experiment h e) (t_experiments (w_db w)) = x # xs"
    "w_db w1 = w_db w" by auto
  then have "x \<in> set (filter (is_experiment h e) (t_experiments (w_db w)))" by simp
  then have "is_experiment h e x" by simp
  with f rest show ?thesis by (auto simp: is_experiment_def)
qed

text \<open>
  C20. CancelExperiment tells the truth: when it answers that the experiment is canceled, the
  database holds it as CANCELED; when it answers that it is not, no experiment has changed.
  An experiment that was PENDING is no longer in the scheduler's queue afterwards.
\<close>

theorem cancel_tells_truth:
  assumes "CancelExperiment env h e s = (Inr resp, s')" "db_ok (w_db (cs_world s))" "pq_ok (cs_queue s)"
  shows "(cn_Canceled resp \<longrightarrow> (\<exists>x \<in> set (t_experiments (w_db (cs_world s'))).
       is_experiment h e x \<and> x_status x = statusCanceled)) \<and>
    (\<not> cn_Canceled resp \<longrightarrow> t_experiments (w_db (cs_world s')) = t_experiments (w_db (cs_world s))) \<and>
    (pending_row h e (w_db (cs_world s)) \<longrightarrow> queueKey h e \<notin> pq_index (cs_queue s'))"
proof -
  note def = assms(1) [unfolded CancelExperiment_def]
  let ?db = "w_db (cs_world s)"
  obtain q w1 where 1: "get_experiment_for_cancel (se_sql env) h e (cs_world s) = (q, w1)" by fastforce
  note d1 = def [unfolded 1 prod.case]
  obtain rc where q: "q = Inr (Some rc)"
    using d1 by (cases q) (auto split: if_splits option.splits)
  from get_for_cancel_found [OF 1 [unfolded q]] obtain x xs where found: "w_db w1 = ?db"
    "cx_ModelHash rc = h" "cx_ExperimentID rc = e"
    "filter (is_experiment h e) (t_experiments ?db) = x # xs" "cx_Status rc = x_status x" by blast
  have x: "x \<in> set (t_experiments ?db)" "is_experiment h e x"
  proof -
    have "x \<in> set (filter (is_experiment h e) (t_experiments ?db))" unfolding found(4) by simp
    then show "x \<in> set (t_experiments ?db)" "is_experiment h e x" by simp_all
  qed
  have only: "y = x" if "y \<in> set (t_experiments ?db)" "is_experiment h e y" for y
  proof -
    have "y \<in> set (filter (is_experiment h e) (t_experiments ?db))" using that by simp
    then show ?thesis unfolding key_unique [OF assms(2) x] by simp
  qed
  then have pend: "pending_row h e ?db \<longleftrightarrow> x_status x = statusPending"
    unfolding pending_row_def using x by blast
  let ?s1 = "s\<lparr>cs_world := w1\<rparr>"
  note d2 = d1 [unfolded q sum.case option.case Let_def found(5)]
  show ?thesis
  proof (cases "x_status x = statusPending")
    case True
    have gone: "queueKey h e \<notin> pq_index (snd (pq_remove h e (cs_queue s)))"
      by (simp add: pq_remove_def Let_def)
    let ?s2 = "snd (scheduler_remove h e ?s1)"
    have s2: "cs_world ?s2 = w1" "cs_queue ?s2 = snd (pq_remove h e (cs_queue s))"
      by (simp_all add: scheduler_remove_def split: prod.split)
    obtain r2 w2 where 2: "mark_pending_experiment_canceled (se_sql env) (se_now env 0) (se_nowMs env) h e w1 = (r2, w2)"
      by fastforce
    from d2 True have d3: "cancel_pending env rc ?s1 = (Inr resp, s')" by (simp split: if_splits)
    note d4 = d3 [unfolded cancel_pending_def found(2,3) case_prod_beta s2(1) 2 fst_conv snd_conv]
    obtain b where r2: "r2 = Inr b" using d4 by (cases r2) auto
    note eff = mark_canceled_effect [OF 2 [unfolded r2]] assms(2) found(1)
    show ?thesis
    proof (cases b)
      case False
      then have "s' = ?s2\<lparr>cs_world := w2\<rparr>" "\<not> cn_Canceled resp"
        using d4 r2 by (auto simp: cancel_answer_def)
      with eff False gone s2 show ?thesis by simp
    next
      case True
      obtain r3 w3 where 3: "refresh_batch_status (se_sql env) (se_now env 1) (cx_BatchID rc) w2 = (r3, w3)"
        by fastforce
      have "t_experiments (w_db w3) = t_experiments (w_db w2)"
        using refresh_experiments [of "se_sql env" "se_now env 1" "cx_BatchID rc" w2] unfolding 3 by simp
      moreover have "s' = ?s2\<lparr>cs_world := w3\<rparr>" "cn_Canceled resp"
        using d4 r2 True 3 by (cases r3; auto simp: cancel_answer_def)+
      ultimately show ?thesis using eff True gone s2 by simp
    qed
  next
    case False
    have active: "t_experiments (w_db (cs_world s')) = t_experiments ?db \<and> \<not> cn_Canceled resp"
      if "cancel_active env rc ?s1 = (Inr resp, s')"
      using that found(1)
      by (auto simp: cancel_active_def cancel_answer_def Let_def split: if_splits prod.splits option.splits sum.splits)
    have "t_experiments (w_db (cs_world s')) = t_experiments ?db \<and>
        (cn_Canceled resp \<longrightarrow> x_status x = statusCanceled)"
      using d2 False active found(1) by (auto simp: cancel_answer_def split: if_splits)
    with x pend False show ?thesis by auto
  qed
qed

section \<open>Samples\<close>

definition sample_server :: server_env where
  "sample_server = \<lparr>se_sql = (\<lambda>_. Done), se_now = (\<lambda>j. 10 + int j), se_nowMs = 5,
     se_random = (\<lambda>_. ''00''), se_hash = (\<lambda>_. ''m''),
     se_nats = (\<lambda>t. Inr \<lparr>cr_RequestID = ct_RequestID t, cr_OK = True, cr_ModelHash = ct_ModelHash t,
       cr_Mode = ct_Mode t, cr_GOOS = [], cr_GOARCH = [], cr_Source = None,
       cr_Binary = Some \<lparr>cg_URI = [], cg_Key = ''k'', cg_SHA256 = ''s'', cg_Size = 3, cg_ContentType = []\<rparr>,
       cr_BuildLog = None, cr_Stage = [], cr_ErrorCode = [], cr_Message = []\<rparr>),
     se_collation = length, se_dial = (\<lambda>_. None), se_stop = (\<lambda>_ _ _. Inl ''down'')\<rparr>"

definition sample_submit :: submit_request where
  "sample_submit = \<lparr>sb_BatchId = ''b'', sb_Dsl = ''d'', sb_StoreSource = False, sb_StoreBinary = False,
     sb_BuildTimeoutSec = 0, sb_Common = Some \<lparr>cc_StopRule = None, cc_Metrics = [], cc_MetricStep = Fin 0,
       cc_StoreMetrics = False, cc_MemoryLimitBytes = 7, cc_RunTimeoutMs = 9\<rparr>,
     sb_Experiments = []\<rparr>"

definition fresh_state :: control_state where
  "fresh_state = \<lparr>cs_world = empty_world, cs_nodes = sample_nodes, cs_queue = new_pending_queue,
     cs_lastScaleOut = zero_time, cs_startCalls = [], cs_scaleOuts = []\<rparr>"

theorem submitted_ids_unique_witness:
  "\<exists>xs. normalizeSubmitRequest ''00'' (Some sample_submit) = Inr (''b'', xs) \<and>
     map ne_ExperimentID xs = [''b-exp-000001''] \<and> distinct (map ne_ExperimentID xs)"
proof -
  have n: "normalizeSubmitRequest ''00'' (Some sample_submit) =
      Inr (''b'', [\<lparr>ne_ExperimentID = ''b-exp-000001'', ne_SetVars = []\<rparr>])" by code_simp
  from submitted_ids_unique [OF n] n show ?thesis by auto
qed


theorem cancel_tells_truth_witness:
  "\<exists>resp s'. CancelExperiment sample_server ''m'' ''e1'' sample_state = (Inr resp, s') \<and> cn_Canceled resp \<and>
     (\<exists>x \<in> set (t_experiments (w_db (cs_world s'))). is_experiment ''m'' ''e1'' x \<and> x_status x = statusCanceled)"
proof -
  let ?r = "CancelExperiment sample_server ''m'' ''e1'' sample_state"
  have "map_sum id cn_Canceled (fst ?r) = Inr True" by code_simp
  then obtain resp where resp: "fst ?r = Inr resp" "cn_Canceled resp" by (cases "fst ?r") auto
  then have r: "?r = (Inr resp, snd ?r)" by (metis prod.collapse)
  have "db_ok (w_db (cs_world sample_state))" by code_simp
  from cancel_tells_truth [OF r this sample_ready(1)] resp r show ?thesis by blast
qed

text \<open>
  The reporter of a dispatcher delivers a result at least once: a lost answer makes it send
  the same report again. The second delivery is accepted too and releases the reservation a
  second time, here the one of the experiment that still runs.
\<close>

definition two_running :: control_state where
  "two_running = sample_state\<lparr>cs_nodes := sample_nodes\<lparr>reg_nodes := [''n1'' \<mapsto>
     \<lparr>nr_Node = None, nr_LastSeenAt = 50, nr_ReservedSlots = 2, nr_ReservedMemoryBytes = 14,
      nr_failureCount = 0\<rparr>]\<rparr>\<rparr>"

lemma report_twice_releases_twice:
  "let report = ReportExperimentResult sample_server ''n1'' (Some demo_result);
       once = report two_running; twice = report (snd once)
   in fst (fst once) \<and> slots_on (cs_nodes (snd once)) ''n1'' = 1 \<and>
      fst (fst twice) \<and> slots_on (cs_nodes (snd twice)) ''n1'' = 0"
  by code_simp

text \<open>
  Cancelling takes a waiting experiment out of the queue before it asks the database. If that
  statement fails, the experiment stays PENDING but is queued no longer.
\<close>

lemma failed_cancel_unqueues:
  "let env = sample_server\<lparr>se_sql := (\<lambda>n. if n = w_sent demo_world then Done else NotDone ''down'')\<rparr>;
       r = CancelExperiment env ''m'' ''e1'' sample_state
   in isl (fst r) \<and> list_ex (\<lambda>x. is_experiment ''m'' ''e1'' x \<and> x_status x = statusPending)
        (t_experiments (w_db (cs_world (snd r)))) \<and>
      queueKey ''m'' ''e1'' \<notin> pq_index (cs_queue (snd r))"
  by code_simp

end
