(* ===== verification/Dsl_Scanner.thy ===== *)
theory Dsl_Scanner
  imports Go_Decimal
begin

text \<open>
  The line scanner of the model language (codegen/generator/scanner.go) and its parse errors
  (error.go). A nil word is \<open>None\<close>; a nil slice of bytes is the empty string, since the
  scanner only takes its length.
\<close>

section \<open>Errors\<close>

datatype gen_err =
    ErrUnexpectedEOF | ErrIncorrectHash | ErrIncorrectFormat | ErrInvalidIdentifier
  | ErrDuplicateName | ErrUnknownType | ErrUnknownBlockType | ErrUnknownBlockParam
  | ErrUnknownBlockingPolicy | ErrUnknownReference | ErrInvalidSectionCount

fun gen_err_text :: "gen_err \<Rightarrow> string" where
  "gen_err_text ErrUnexpectedEOF = ''unexpected end of file''"
| "gen_err_text ErrIncorrectHash = ''incorrect hash''"
| "gen_err_text ErrIncorrectFormat = ''incorrect format''"
| "gen_err_text ErrInvalidIdentifier = ''invalid identifier''"
| "gen_err_text ErrDuplicateName = ''duplicate name''"
| "gen_err_text ErrUnknownType = ''unknown type''"
| "gen_err_text ErrUnknownBlockType = ''unknown block type''"
| "gen_err_text ErrUnknownBlockParam = ''unknown block parameter''"
| "gen_err_text ErrUnknownBlockingPolicy = ''unknown blocking policy''"
| "gen_err_text ErrUnknownReference = ''unknown reference''"
| "gen_err_text ErrInvalidSectionCount = ''invalid section count''"

record parse_error =
  pe_Line :: nat
  pe_Err :: gen_err
  pe_Msg :: string

text \<open>\<open>(*ParseErr).Error\<close>.\<close>

definition parse_error_text :: "parse_error \<Rightarrow> string" where
  "parse_error_text e =
     (if pe_Msg e = []
      then msg [''line '', decimal (pe_Line e), '': '', gen_err_text (pe_Err e)]
      else msg [''line '', decimal (pe_Line e), '': '', gen_err_text (pe_Err e), '': '', pe_Msg e])"

text \<open>A parse ends with an error, or with the run-time panic of \<open>make\<close> on a bad capacity.\<close>

datatype parse_fail = ParseErr parse_error | MakePanic

section \<open>The scanner\<close>

record line_scanner =
  sc_data :: string
  sc_line :: string
  sc_lineNum :: nat

type_synonym 'a parser = "line_scanner \<Rightarrow> parse_fail + ('a \<times> line_scanner)"

definition NewLineScanner :: "string \<Rightarrow> line_scanner" where
  "NewLineScanner data = \<lparr>sc_data = data, sc_line = [], sc_lineNum = 0\<rparr>"

definition isSpace :: "char \<Rightarrow> bool" where
  "isSpace c \<longleftrightarrow> c = CHR 0x20 \<or> c = CHR 0x09 \<or> c = CHR 0x0D \<or> c = CHR 0x0A"

definition trimLeftSpaces :: "string \<Rightarrow> string" where
  "trimLeftSpaces b = dropWhile isSpace b"

definition Scan :: "line_scanner \<Rightarrow> bool \<times> line_scanner" where
  "Scan s =
     (if sc_data s = [] then (False, s\<lparr>sc_line := []\<rparr>)
      else case index_byte (CHR 0x0A) (sc_data s) of
             None \<Rightarrow>
               (True, s\<lparr>sc_line := sc_data s, sc_data := [], sc_lineNum := sc_lineNum s + 1\<rparr>)
           | Some i \<Rightarrow>
               (let line = take i (sc_data s) in
                (True, s\<lparr>sc_line := (if line \<noteq> [] \<and> last line = CHR 0x0D then butlast line
                                     else line),
                         sc_data := drop (Suc i) (sc_data s),
                         sc_lineNum := sc_lineNum s + 1\<rparr>)))"

lemma Scan_shrinks: "Scan s = (True, s') \<Longrightarrow> length (sc_data s') < length (sc_data s)"
  by (auto simp: Scan_def Let_def split: if_splits option.splits)

function ScanNoEmpty :: "line_scanner \<Rightarrow> bool \<times> line_scanner" where
  "ScanNoEmpty s =
     (case Scan s of
        (False, s1) \<Rightarrow> (False, s1)
      | (True, s1) \<Rightarrow> if trim_space (sc_line s1) \<noteq> [] then (True, s1) else ScanNoEmpty s1)"
  by pat_completeness auto
termination
  by (relation "measure (\<lambda>s. length (sc_data s))") (auto simp: Scan_shrinks)

declare ScanNoEmpty.simps [simp del]

definition is_word_byte :: "char \<Rightarrow> bool" where
  "is_word_byte c \<longleftrightarrow> c \<noteq> CHR 0x20 \<and> c \<noteq> CHR 0x09"

definition Word :: "line_scanner \<Rightarrow> string option \<times> line_scanner" where
  "Word s =
     (let line = trimLeftSpaces (sc_line s) in
      if line = [] then (None, s\<lparr>sc_line := line\<rparr>)
      else (Some (takeWhile is_word_byte line), s\<lparr>sc_line := dropWhile is_word_byte line\<rparr>))"

definition Line :: "line_scanner \<Rightarrow> string" where
  "Line s = trimLeftSpaces (sc_line s)"

definition parseErr :: "line_scanner \<Rightarrow> gen_err \<Rightarrow> string \<Rightarrow> parse_fail" where
  "parseErr s e m = ParseErr \<lparr>pe_Line = sc_lineNum s, pe_Err = e, pe_Msg = m\<rparr>"

text \<open>\<open>string(token)\<close> of a token that may be nil.\<close>

definition token_text :: "string option \<Rightarrow> string" where
  "token_text w = (case w of None \<Rightarrow> [] | Some t \<Rightarrow> t)"

section \<open>Where a scanner stands\<close>

text \<open>The number of lines of a text: a last line needs no line feed.\<close>

fun line_count :: "string \<Rightarrow> nat" where
  "line_count [] = 0"
| "line_count (c # cs) =
     (if c = CHR 0x0A then Suc (line_count cs)
      else if CHR 0x0A \<in> set cs then line_count cs
      else 1)"

lemma line_count_no_newline: "CHR 0x0A \<notin> set t \<Longrightarrow> t \<noteq> [] \<Longrightarrow> line_count t = 1"
  by (cases t) auto

lemma line_count_line [simp]:
  "CHR 0x0A \<notin> set a \<Longrightarrow> line_count (a @ CHR 0x0A # t) = Suc (line_count t)"
  by (induction a) auto

lemma line_count_drop:
  assumes "index_byte (CHR 0x0A) t = Some i"
  shows "line_count t = Suc (line_count (drop (Suc i) t))"
proof -
  have cut: "cut_byte (CHR 0x0A) t = Some (take i t, drop (Suc i) t)"
    using assms by (simp add: cut_byte_def)
  show ?thesis
    using cut_byte_Some [OF cut] line_count_line by metis
qed

text \<open>
  A scanner over \<open>n\<close> lines: the lines it has read and those in front of it are \<open>n\<close>.
\<close>

definition over :: "nat \<Rightarrow> line_scanner \<Rightarrow> bool" where
  "over n s \<longleftrightarrow> sc_lineNum s + line_count (sc_data s) = n"

lemma over_new: "over (line_count data) (NewLineScanner data)"
  by (simp add: over_def NewLineScanner_def)

lemma over_bound: "over n s \<Longrightarrow> sc_lineNum s \<le> n"
  by (simp add: over_def)

lemma over_Scan [simp]: "over n (snd (Scan s)) \<longleftrightarrow> over n s"
  by (auto simp: over_def Scan_def Let_def index_byte_None line_count_no_newline line_count_drop
      split: option.splits)

lemma over_ScanNoEmpty [simp]: "over n (snd (ScanNoEmpty s)) \<longleftrightarrow> over n s"
proof (induction s rule: ScanNoEmpty.induct)
  case (1 s)
  obtain b s1 where scan: "Scan s = (b, s1)" by (cases "Scan s")
  with over_Scan [of n s] have "over n s1 \<longleftrightarrow> over n s" by simp
  with 1 scan show ?case
    by (cases b) (simp_all add: ScanNoEmpty.simps [of s])
qed

lemma ScanNoEmpty_not_blank: "ScanNoEmpty s = (True, s') \<Longrightarrow> trim_space (sc_line s') \<noteq> []"
proof (induction s rule: ScanNoEmpty.induct)
  case (1 s)
  obtain b s1 where scan: "Scan s = (b, s1)" by (cases "Scan s")
  with 1 show ?case
    by (cases b) (auto simp: ScanNoEmpty.simps [of s] split: if_splits)
qed

lemma ScanNoEmpty_shrinks:
  "ScanNoEmpty s = (True, s') \<Longrightarrow> length (sc_data s') < length (sc_data s)"
proof (induction s rule: ScanNoEmpty.induct)
  case (1 s)
  obtain b s1 where scan: "Scan s = (b, s1)" by (cases "Scan s")
  with 1 show ?case
    using Scan_shrinks [of s s1]
    by (cases b) (fastforce simp: ScanNoEmpty.simps [of s] split: if_splits)+
qed

lemma Word_keeps [simp]:
  "sc_data (snd (Word s)) = sc_data s" "sc_lineNum (snd (Word s)) = sc_lineNum s"
  by (simp_all add: Word_def Let_def)

lemma over_Word [simp]: "over n (snd (Word s)) \<longleftrightarrow> over n s"
  by (simp add: over_def)

text \<open>A word is not empty and holds no space.\<close>

lemma word_start:
  assumes "t = trimLeftSpaces l" and "t \<noteq> []"
  shows "takeWhile is_word_byte t \<noteq> []"
proof -
  have "\<not> isSpace (hd t)"
    using assms hd_dropWhile by (metis trimLeftSpaces_def)
  then have "is_word_byte (hd t)"
    by (simp add: isSpace_def is_word_byte_def)
  with assms(2) show ?thesis
    by (cases t) simp_all
qed

lemma Word_nonempty: "fst (Word s) = Some w \<Longrightarrow> w \<noteq> []"
  using word_start [OF refl, of "sc_line s"]
  by (cases "trimLeftSpaces (sc_line s) = []") (auto simp: Word_def Let_def)

end
