(* ===== verification/Go_Float_Text.thy ===== *)
theory Go_Float_Text
  imports Go_Decimal
begin

text \<open>
  The texts \<open>strconv.ParseFloat(s, 64)\<close> accepts: an optionally signed infinity, NaN, or a
  decimal or hexadecimal number, with underscores between digits, whose value does not round
  to an infinity. Only acceptance is modelled: the program drops the value.
\<close>

definition hex_val :: "char \<Rightarrow> nat" where
  "hex_val c = (if is_digit c then digit_val c else of_char (ascii_lower c) - 87)"

definition skip_sign :: "string \<Rightarrow> string" where
  "skip_sign s = (case s of [] \<Rightarrow> [] | c # cs \<Rightarrow> if c = CHR ''+'' \<or> c = CHR ''-'' then cs else s)"

text \<open>The special values: a sign is allowed in front of an infinity only.\<close>

definition special_float :: "string \<Rightarrow> bool" where
  "special_float s \<longleftrightarrow>
     map ascii_lower (skip_sign s) \<in> {''inf'', ''infinity''} \<or> map ascii_lower s = ''nan''"

text \<open>
  The digits of a mantissa with the number of them behind the point, whether an underscore
  was seen, and the text behind them.
\<close>

fun scan_mantissa :: "bool \<Rightarrow> bool \<Rightarrow> string \<Rightarrow> nat list \<times> nat \<times> bool \<times> string" where
  "scan_mantissa hex sawdot [] = ([], 0, False, [])"
| "scan_mantissa hex sawdot (c # s) =
     (if c = CHR ''_'' then
        (let (ds, k, u, r) = scan_mantissa hex sawdot s in (ds, k, True, r))
      else if c = CHR ''.'' then
        (if sawdot then ([], 0, False, c # s) else scan_mantissa hex True s)
      else if is_digit c \<or> hex \<and> is_hex_digit c then
        (let (ds, k, u, r) = scan_mantissa hex sawdot s
         in (hex_val c # ds, (if sawdot then Suc k else k), u, r))
      else ([], 0, False, c # s))"

text \<open>The digits of an exponent: the value stops growing at 10000.\<close>

fun scan_exponent :: "nat \<Rightarrow> string \<Rightarrow> nat \<times> bool \<times> string" where
  "scan_exponent e [] = (e, False, [])"
| "scan_exponent e (c # s) =
     (if c = CHR ''_'' then (let (e', u, r) = scan_exponent e s in (e', True, r))
      else if is_digit c then scan_exponent (if e < 10000 then e * 10 + digit_val c else e) s
      else (e, False, c # s))"

text \<open>\<open>underscoreOK\<close>: underscores only between digits, or behind a base prefix.\<close>

datatype seen = SawStart | SawDigit | SawUnderscore | SawOther

fun underscores_ok :: "bool \<Rightarrow> seen \<Rightarrow> string \<Rightarrow> bool" where
  "underscores_ok hex saw [] \<longleftrightarrow> saw \<noteq> SawUnderscore"
| "underscores_ok hex saw (c # s) \<longleftrightarrow>
     (if is_digit c \<or> hex \<and> is_hex_digit c then underscores_ok hex SawDigit s
      else if c = CHR ''_'' then saw = SawDigit \<and> underscores_ok hex SawUnderscore s
      else saw \<noteq> SawUnderscore \<and> underscores_ok hex SawOther s)"

definition underscoreOK :: "string \<Rightarrow> bool" where
  "underscoreOK s =
     (let body = skip_sign s in
      if 2 \<le> length body \<and> hd body = CHR ''0'' \<and>
         ascii_lower (body ! 1) \<in> {CHR ''b'', CHR ''o'', CHR ''x''}
      then underscores_ok (ascii_lower (body ! 1) = CHR ''x'') SawDigit (drop 2 body)
      else underscores_ok False SawStart body)"

text \<open>The mantissa, the exponent and its base of a text that is a number as a whole.\<close>

definition read_float :: "string \<Rightarrow> (int \<times> int \<times> int) option" where
  "read_float s =
     (let body = skip_sign s;
          hex = (3 \<le> length body \<and> hd body = CHR ''0'' \<and> ascii_lower (body ! 1) = CHR ''x'');
          (ds, frac, u, rest) = scan_mantissa hex False (if hex then drop 2 body else body);
          base = (if hex then 16 else 10);
          mant = foldl (\<lambda>n d. base * n + int d) 0 ds;
          shift = (if hex then 4 * int frac else int frac);
          radix = (if hex then 2 else 10)
      in if ds = [] then None
         else case rest of
           [] \<Rightarrow> if hex \<or> u \<and> \<not> underscoreOK s then None else Some (mant, - shift, radix)
         | c # r \<Rightarrow>
             if ascii_lower c \<noteq> (if hex then CHR ''p'' else CHR ''e'') then None
             else
               (let digits = skip_sign r in
                if digits = [] \<or> \<not> is_digit (hd digits) then None
                else
                  (let (e, u', rest') = scan_exponent 0 digits;
                       sgn = (if hd r = CHR ''-'' then - int e else int e)
                   in if rest' \<noteq> [] \<or> (u \<or> u') \<and> \<not> underscoreOK s then None
                      else Some (mant, sgn - shift, radix))))"

text \<open>A value at least half a unit above the largest finite \<open>float64\<close> is \<open>ErrRange\<close>.\<close>

definition float_overflow :: "int \<Rightarrow> int \<Rightarrow> int \<Rightarrow> bool" where
  "float_overflow mant e radix \<longleftrightarrow>
     (if mant = 0 then False
      else if 0 \<le> e then 2 ^ 1024 - 2 ^ 970 \<le> mant * radix ^ nat e
      else (2 ^ 1024 - 2 ^ 970) * radix ^ nat (- e) \<le> mant)"

definition float_ok :: "string \<Rightarrow> bool" where
  "float_ok s \<longleftrightarrow>
     special_float s \<or>
     (case read_float s of None \<Rightarrow> False | Some (mant, e, radix) \<Rightarrow> \<not> float_overflow mant e radix)"

lemma float_ok_samples:
  "float_ok ''1_5.5e1''" "float_ok ''+Inf''" "\<not> float_ok ''1__0''" "\<not> float_ok ''+nan''" "\<not> float_ok ''.''"
  by code_simp+

end
