(* ===== verification/Dsl_Model.thy ===== *)
theory Dsl_Model
  imports Dsl_Scanner Go_Float_Text
begin

text \<open>
  The model of a simulation as the code generator keeps it (codegen/generator/model.go), its
  value types and literals, and the words of the language (parser_helper.go). A pointer to a
  description that linking sets is the name of what it points to, \<open>None\<close> for nil; names
  are unique in a model, so a name says which description it is. The \<open>ByName\<close> maps are
  lookups in the lists, which hold the same descriptions.
\<close>

type_synonym expr = string

datatype value_type = ValueFloat64 | ValueInt64 | ValueUint64 | ValueBool

record field_desc =
  fd_Name :: string
  fd_Type :: value_type
  fd_Default :: string

record entity_desc =
  ed_Name :: string
  ed_Fields :: "field_desc list"

record var_desc =
  vd_Name :: string
  vd_Type :: value_type
  vd_Default :: string

record resource_desc =
  rd_Name :: string
  rd_Capacity :: expr
  rd_SeizeNames :: "string list"
  rd_Seizes :: "string list"

datatype blocking_policy = BlockingPolicyError | BlockingPolicyDestroy

datatype queue_discipline = QueueDisciplineFIFO

record create_params =
  cp_EntityName :: string
  cp_Entity :: "string option"
  cp_Interval :: expr
  cp_Immediately :: bool
  cp_Batch :: expr
  cp_BlockingPolicy :: blocking_policy
  cp_NextName :: string
  cp_Next :: "string option"

record queue_params =
  qp_InfiniteCapacity :: bool
  qp_Capacity :: expr
  qp_Discipline :: queue_discipline
  qp_Timeout :: expr
  qp_HasTimeout :: bool
  qp_NextTimeoutName :: string
  qp_NextTimeout :: "string option"
  qp_ExitOnOverflow :: bool
  qp_NextOverflowName :: string
  qp_NextOverflow :: "string option"
  qp_NextName :: string
  qp_Next :: "string option"

record delay_params =
  dp_Duration :: expr
  dp_Capacity :: expr
  dp_HasCapacity :: bool
  dp_WaitQueueNames :: "string list"
  dp_WaitQueues :: "string list"
  dp_NextName :: string
  dp_Next :: "string option"

record seize_params =
  sp_ResourceName :: string
  sp_Resource :: "string option"
  sp_WaitQueueNames :: "string list"
  sp_WaitQueues :: "string list"
  sp_NextName :: string
  sp_Next :: "string option"

record release_params =
  rp_ResourceName :: string
  rp_Resource :: "string option"
  rp_NextName :: string
  rp_Next :: "string option"

record assignment_target =
  at_IsEntityField :: bool
  at_EntityName :: string
  at_FieldName :: string
  at_VarName :: string

record assignment =
  as_Target :: assignment_target
  as_Expr :: expr

record assign_params =
  ap_Assignments :: "assignment list"
  ap_NextName :: string
  ap_Next :: "string option"

record branch_case =
  bc_Condition :: expr
  bc_NextName :: string
  bc_Next :: "string option"

record branch_params =
  bp_Cases :: "branch_case list"
  bp_HasElse :: bool
  bp_ElseName :: string
  bp_Else :: "string option"

datatype block_params =
    CreateParams create_params | QueueParams queue_params | DelayParams delay_params
  | SeizeParams seize_params | ReleaseParams release_params | AssignParams assign_params
  | BranchParams branch_params | TerminateParams

record block_desc =
  bd_Name :: string
  bd_Params :: block_params

record dsl_model =
  m_Hash :: string
  m_Entities :: "entity_desc list"
  m_Vars :: "var_desc list"
  m_Resources :: "resource_desc list"
  m_Blocks :: "block_desc list"

definition NewModel :: dsl_model where
  "NewModel = \<lparr>m_Hash = [], m_Entities = [], m_Vars = [], m_Resources = [], m_Blocks = []\<rparr>"

definition by_name :: "('a \<Rightarrow> string) \<Rightarrow> 'a list \<Rightarrow> string \<Rightarrow> 'a option" where
  "by_name nm xs n = find (\<lambda>x. nm x = n) xs"

definition EntityByName :: "dsl_model \<Rightarrow> string \<Rightarrow> entity_desc option" where
  "EntityByName m = by_name ed_Name (m_Entities m)"

definition FieldByName :: "entity_desc \<Rightarrow> string \<Rightarrow> field_desc option" where
  "FieldByName e = by_name fd_Name (ed_Fields e)"

definition VarByName :: "dsl_model \<Rightarrow> string \<Rightarrow> var_desc option" where
  "VarByName m = by_name vd_Name (m_Vars m)"

definition ResourceByName :: "dsl_model \<Rightarrow> string \<Rightarrow> resource_desc option" where
  "ResourceByName m = by_name rd_Name (m_Resources m)"

definition BlockByName :: "dsl_model \<Rightarrow> string \<Rightarrow> block_desc option" where
  "BlockByName m = by_name bd_Name (m_Blocks m)"

lemmas by_name_defs =
  EntityByName_def FieldByName_def VarByName_def ResourceByName_def BlockByName_def

lemma by_name_None: "by_name nm xs n = None \<longleftrightarrow> n \<notin> nm ` set xs"
  by (auto simp: by_name_def find_None_iff)

lemma by_name_ex: "n \<in> nm ` set xs \<longleftrightarrow> (\<exists>x. by_name nm xs n = Some x)"
  using by_name_None [of nm xs n] by auto

lemma by_name_Some: "by_name nm xs n = Some x \<Longrightarrow> x \<in> set xs \<and> nm x = n"
  by (auto simp: by_name_def find_Some_iff)

lemma by_name_mem:
  "distinct (map nm xs) \<Longrightarrow> x \<in> set xs \<Longrightarrow> by_name nm xs (nm x) = Some x"
  by (induction xs) (auto simp: by_name_def)

text \<open>The names a model has declared: the keys of its four maps.\<close>

definition declared :: "dsl_model \<Rightarrow> string list" where
  "declared m = map ed_Name (m_Entities m) @ map vd_Name (m_Vars m) @
     map rd_Name (m_Resources m) @ map bd_Name (m_Blocks m)"

section \<open>Types and literals\<close>

definition parseType :: "string \<Rightarrow> value_type option" where
  "parseType token =
     (if token = ''float64'' then Some ValueFloat64
      else if token = ''int64'' then Some ValueInt64
      else if token = ''uint64'' then Some ValueUint64
      else if token = ''bool'' then Some ValueBool
      else None)"

fun defaultValueForType :: "value_type \<Rightarrow> string" where
  "defaultValueForType ValueFloat64 = ''0.0''"
| "defaultValueForType ValueInt64 = ''0''"
| "defaultValueForType ValueUint64 = ''0''"
| "defaultValueForType ValueBool = ''false''"

fun isValidLiteralForType :: "string \<Rightarrow> value_type \<Rightarrow> bool" where
  "isValidLiteralForType v ValueFloat64 = float_ok v"
| "isValidLiteralForType v ValueInt64 = (parse_int v \<noteq> None)"
| "isValidLiteralForType v ValueUint64 = (parse_uint v \<noteq> None)"
| "isValidLiteralForType v ValueBool = (v = ''true'' \<or> v = ''false'')"

lemma default_value_valid: "isValidLiteralForType (defaultValueForType t) t"
proof (cases t)
  case ValueFloat64
  have "float_ok ''0.0''" by code_simp
  with ValueFloat64 show ?thesis by simp
next
  case ValueInt64
  have "parse_int ''0'' \<noteq> None" by code_simp
  with ValueInt64 show ?thesis by simp
next
  case ValueUint64
  have "parse_uint ''0'' \<noteq> None" by code_simp
  with ValueUint64 show ?thesis by simp
qed simp

section \<open>Identifiers\<close>

definition isIdentStart :: "char \<Rightarrow> bool" where
  "isIdentStart c \<longleftrightarrow> is_upper c \<or> is_lower c \<or> c = CHR ''_''"

definition isIdentPart :: "char \<Rightarrow> bool" where
  "isIdentPart c \<longleftrightarrow> isIdentStart c \<or> is_digit c"

definition isIdentifier :: "string \<Rightarrow> bool" where
  "isIdentifier data =
     (case data of [] \<Rightarrow> False | c # cs \<Rightarrow> isIdentStart c \<and> list_all isIdentPart cs)"

definition isDSLKeyword :: "string \<Rightarrow> bool" where
  "isDSLKeyword name \<longleftrightarrow>
     name \<in> {''ENTITY'', ''VAR'', ''RESOURCE'', ''BLOCK'', ''CREATE'', ''QUEUE'', ''DELAY'', ''SEIZE'',
             ''RELEASE'', ''ASSIGN'', ''BRANCH'', ''TERMINATE'', ''set'', ''if'', ''else'', ''next''}"

text \<open>The names a declaration may have.\<close>

definition valid_name :: "string \<Rightarrow> bool" where
  "valid_name n \<longleftrightarrow> isIdentifier n \<and> \<not> isDSLKeyword n"

lemma valid_name_nonempty [simp]: "\<not> valid_name []"
  by (simp add: valid_name_def isIdentifier_def)

lemma isIdentifier_chars: "isIdentifier n \<Longrightarrow> c \<in> set n \<Longrightarrow> isIdentPart c"
  by (auto simp: isIdentifier_def isIdentPart_def list_all_iff split: list.splits)

end
