(* ===== verification/Dsl_Validate.thy ===== *)
theory Dsl_Validate
  imports Dsl_Model
begin

text \<open>
  Validation and linking of a parsed model (codegen/generator/validate.go). Linking fills in
  the pointers of every block and resource; the code writes them into the descriptions it
  walks over, here the walk returns the linked descriptions. The lookups of the walk only
  look at names and kinds, which linking leaves alone. A nil pointer that is dereferenced is
  the outcome \<open>NilPanic\<close>.
\<close>

datatype model_fail = ModelErr gen_err string | NilPanic

definition model_error_text :: "gen_err \<Rightarrow> string \<Rightarrow> string" where
  "model_error_text e m = (if m = [] then gen_err_text e else msg [gen_err_text e, '': '', m])"

definition modelErr :: "gen_err \<Rightarrow> string list \<Rightarrow> model_fail" where
  "modelErr e parts = ModelErr e (msg parts)"

section \<open>References\<close>

definition validateRequiredBlocks :: "dsl_model \<Rightarrow> model_fail + unit" where
  "validateRequiredBlocks m =
     (let hasCreate = list_ex (\<lambda>b. case bd_Params b of CreateParams _ \<Rightarrow> True | _ \<Rightarrow> False) (m_Blocks m);
          hasTerminate = list_ex (\<lambda>b. bd_Params b = TerminateParams) (m_Blocks m)
      in if \<not> hasCreate
         then Inl (modelErr ErrUnknownReference [''model must contain at least one CREATE block''])
         else if \<not> hasTerminate
         then Inl (modelErr ErrUnknownReference [''model must contain at least one TERMINATE block''])
         else Inr ())"

fun blockKind :: "block_params \<Rightarrow> string" where
  "blockKind (CreateParams _) = ''CREATE''"
| "blockKind (QueueParams _) = ''QUEUE''"
| "blockKind (DelayParams _) = ''DELAY''"
| "blockKind (SeizeParams _) = ''SEIZE''"
| "blockKind (ReleaseParams _) = ''RELEASE''"
| "blockKind (AssignParams _) = ''ASSIGN''"
| "blockKind (BranchParams _) = ''BRANCH''"
| "blockKind TerminateParams = ''TERMINATE''"

definition requireBlock :: "dsl_model \<Rightarrow> string \<Rightarrow> string \<Rightarrow> string \<Rightarrow> model_fail + block_desc" where
  "requireBlock m ownerName paramName blockName =
     (case BlockByName m blockName of
        None \<Rightarrow> Inl (modelErr ErrUnknownReference
                  [quoted ownerName, '' references unknown block '', quoted blockName,
                   '' in parameter '', quoted paramName])
      | Some b \<Rightarrow> Inr b)"

definition requireQueueBlock ::
  "dsl_model \<Rightarrow> string \<Rightarrow> string \<Rightarrow> string \<Rightarrow> model_fail + block_desc" where
  "requireQueueBlock m ownerName paramName blockName =
     bindE (requireBlock m ownerName paramName blockName) (\<lambda>block.
     case bd_Params block of
       QueueParams _ \<Rightarrow> Inr block
     | other \<Rightarrow> Inl (modelErr ErrIncorrectFormat
         [quoted ownerName, '' parameter '', quoted paramName, '' must reference QUEUE block '',
          quoted blockName, '', got '', blockKind other]))"

definition requireSeizeBlock ::
  "dsl_model \<Rightarrow> string \<Rightarrow> string \<Rightarrow> string \<Rightarrow> model_fail + (block_desc \<times> seize_params)" where
  "requireSeizeBlock m ownerName paramName blockName =
     bindE (requireBlock m ownerName paramName blockName) (\<lambda>block.
     case bd_Params block of
       SeizeParams p \<Rightarrow> Inr (block, p)
     | other \<Rightarrow> Inl (modelErr ErrIncorrectFormat
         [quoted ownerName, '' parameter '', quoted paramName, '' must reference SEIZE block '',
          quoted blockName, '', got '', blockKind other]))"

section \<open>Blocks\<close>

definition validateAndLinkCreate ::
  "dsl_model \<Rightarrow> string \<Rightarrow> create_params \<Rightarrow> model_fail + create_params" where
  "validateAndLinkCreate m name p =
     (case EntityByName m (cp_EntityName p) of
        None \<Rightarrow> Inl (modelErr ErrUnknownReference
                  [''CREATE block '', quoted name, '' references unknown entity '',
                   quoted (cp_EntityName p)])
      | Some entity \<Rightarrow>
          bindE (requireBlock m name ''next'' (cp_NextName p)) (\<lambda>nxt.
          Inr (p\<lparr>cp_Entity := Some (ed_Name entity), cp_Next := Some (bd_Name nxt)\<rparr>)))"

definition validateAndLinkQueue ::
  "dsl_model \<Rightarrow> string \<Rightarrow> queue_params \<Rightarrow> model_fail + queue_params" where
  "validateAndLinkQueue m name p =
     bindE (requireBlock m name ''next'' (qp_NextName p)) (\<lambda>nxt.
     bindE (failE (qp_HasTimeout p \<and> qp_NextTimeoutName p = [])
       (modelErr ErrUnknownReference
          [''QUEUE block '', quoted name, '' has timeout but does not define next_timeout''])) (\<lambda>_.
     bindE (failE (\<not> qp_HasTimeout p \<and> qp_NextTimeoutName p \<noteq> [])
       (modelErr ErrIncorrectFormat
          [''QUEUE block '', quoted name, '' defines next_timeout without timeout''])) (\<lambda>_.
     bindE (if qp_HasTimeout p
            then bindE (requireBlock m name ''next_timeout'' (qp_NextTimeoutName p)) (\<lambda>b.
                 Inr (Some (bd_Name b)))
            else Inr (qp_NextTimeout p)) (\<lambda>nextTimeout.
     bindE (failE (qp_ExitOnOverflow p \<and> qp_NextOverflowName p = [])
       (modelErr ErrUnknownReference
          [''QUEUE block '', quoted name,
           '' has exit_on_overflow=true but does not define next_overflow''])) (\<lambda>_.
     bindE (failE (\<not> qp_ExitOnOverflow p \<and> qp_NextOverflowName p \<noteq> [])
       (modelErr ErrIncorrectFormat
          [''QUEUE block '', quoted name,
           '' defines next_overflow while exit_on_overflow=false''])) (\<lambda>_.
     bindE (if qp_ExitOnOverflow p
            then bindE (requireBlock m name ''next_overflow'' (qp_NextOverflowName p)) (\<lambda>b.
                 Inr (Some (bd_Name b)))
            else Inr (qp_NextOverflow p)) (\<lambda>nextOverflow.
     Inr (p\<lparr>qp_Next := Some (bd_Name nxt), qp_NextTimeout := nextTimeout,
            qp_NextOverflow := nextOverflow\<rparr>))))))))"

definition link_wait_queues :: "dsl_model \<Rightarrow> string \<Rightarrow> string list \<Rightarrow> model_fail + string list" where
  "link_wait_queues m name names =
     traverseE (\<lambda>q. bindE (requireQueueBlock m name ''wait_queue'' q) (\<lambda>b. Inr (bd_Name b))) names"

definition validateAndLinkDelay ::
  "dsl_model \<Rightarrow> string \<Rightarrow> delay_params \<Rightarrow> model_fail + delay_params" where
  "validateAndLinkDelay m name p =
     bindE (requireBlock m name ''next'' (dp_NextName p)) (\<lambda>nxt.
     bindE (link_wait_queues m name (dp_WaitQueueNames p)) (\<lambda>queues.
     Inr (p\<lparr>dp_Next := Some (bd_Name nxt), dp_WaitQueues := queues\<rparr>)))"

definition containsString :: "string list \<Rightarrow> string \<Rightarrow> bool" where
  "containsString values target \<longleftrightarrow> list_ex (\<lambda>v. v = target) values"

definition validateAndLinkSeize ::
  "dsl_model \<Rightarrow> string \<Rightarrow> seize_params \<Rightarrow> model_fail + seize_params" where
  "validateAndLinkSeize m name p =
     (case ResourceByName m (sp_ResourceName p) of
        None \<Rightarrow> Inl (modelErr ErrUnknownReference
                  [''SEIZE block '', quoted name, '' references unknown resource '',
                   quoted (sp_ResourceName p)])
      | Some r \<Rightarrow>
          bindE (requireBlock m name ''next'' (sp_NextName p)) (\<lambda>nxt.
          bindE (link_wait_queues m name (sp_WaitQueueNames p)) (\<lambda>queues.
          if \<not> containsString (rd_SeizeNames r) name
          then Inl (modelErr ErrUnknownReference
                 [''SEIZE block '', quoted name, '' is not listed in resource '', quoted (rd_Name r)])
          else Inr (p\<lparr>sp_Resource := Some (rd_Name r), sp_Next := Some (bd_Name nxt),
                      sp_WaitQueues := queues\<rparr>))))"

definition validateAndLinkRelease ::
  "dsl_model \<Rightarrow> string \<Rightarrow> release_params \<Rightarrow> model_fail + release_params" where
  "validateAndLinkRelease m name p =
     (case ResourceByName m (rp_ResourceName p) of
        None \<Rightarrow> Inl (modelErr ErrUnknownReference
                  [''RELEASE block '', quoted name, '' references unknown resource '',
                   quoted (rp_ResourceName p)])
      | Some r \<Rightarrow>
          bindE (requireBlock m name ''next'' (rp_NextName p)) (\<lambda>nxt.
          Inr (p\<lparr>rp_Resource := Some (rd_Name r), rp_Next := Some (bd_Name nxt)\<rparr>)))"

definition validateAssignmentTarget ::
  "dsl_model \<Rightarrow> string \<Rightarrow> assignment_target \<Rightarrow> model_fail + unit" where
  "validateAssignmentTarget m name t =
     (if at_IsEntityField t then
        (case EntityByName m (at_EntityName t) of
           None \<Rightarrow> Inl (modelErr ErrUnknownReference
                     [''ASSIGN block '', quoted name, '' references unknown entity '',
                      quoted (at_EntityName t)])
         | Some entity \<Rightarrow>
             (case FieldByName entity (at_FieldName t) of
                None \<Rightarrow> Inl (modelErr ErrUnknownReference
                          [''ASSIGN block '', quoted name, '' references unknown field '',
                           quoted (at_EntityName t @ ''.'' @ at_FieldName t)])
              | Some _ \<Rightarrow> Inr ()))
      else
        (case VarByName m (at_VarName t) of
           None \<Rightarrow> Inl (modelErr ErrUnknownReference
                     [''ASSIGN block '', quoted name, '' references unknown variable '',
                      quoted (at_VarName t)])
         | Some _ \<Rightarrow> Inr ()))"

definition validateAndLinkAssign ::
  "dsl_model \<Rightarrow> string \<Rightarrow> assign_params \<Rightarrow> model_fail + assign_params" where
  "validateAndLinkAssign m name p =
     bindE (requireBlock m name ''next'' (ap_NextName p)) (\<lambda>nxt.
     bindE (traverseE (\<lambda>a. validateAssignmentTarget m name (as_Target a)) (ap_Assignments p)) (\<lambda>_.
     Inr (p\<lparr>ap_Next := Some (bd_Name nxt)\<rparr>)))"

definition validateAndLinkBranch ::
  "dsl_model \<Rightarrow> string \<Rightarrow> branch_params \<Rightarrow> model_fail + branch_params" where
  "validateAndLinkBranch m name p =
     bindE (traverseE (\<lambda>c. bindE (requireBlock m name ''if'' (bc_NextName c)) (\<lambda>b.
              Inr (c\<lparr>bc_Next := Some (bd_Name b)\<rparr>))) (bp_Cases p)) (\<lambda>cases.
     bindE (if bp_HasElse p
            then bindE (requireBlock m name ''else'' (bp_ElseName p)) (\<lambda>b. Inr (Some (bd_Name b)))
            else Inr (bp_Else p)) (\<lambda>els.
     Inr (p\<lparr>bp_Cases := cases, bp_Else := els\<rparr>)))"

definition link_params :: "dsl_model \<Rightarrow> string \<Rightarrow> block_params \<Rightarrow> model_fail + block_params" where
  "link_params m name params =
     (case params of
        CreateParams p \<Rightarrow> map_sum id CreateParams (validateAndLinkCreate m name p)
      | QueueParams p \<Rightarrow> map_sum id QueueParams (validateAndLinkQueue m name p)
      | DelayParams p \<Rightarrow> map_sum id DelayParams (validateAndLinkDelay m name p)
      | SeizeParams p \<Rightarrow> map_sum id SeizeParams (validateAndLinkSeize m name p)
      | ReleaseParams p \<Rightarrow> map_sum id ReleaseParams (validateAndLinkRelease m name p)
      | AssignParams p \<Rightarrow> map_sum id AssignParams (validateAndLinkAssign m name p)
      | BranchParams p \<Rightarrow> map_sum id BranchParams (validateAndLinkBranch m name p)
      | TerminateParams \<Rightarrow> Inr TerminateParams)"

definition validateAndLinkBlock :: "dsl_model \<Rightarrow> block_desc \<Rightarrow> model_fail + block_desc" where
  "validateAndLinkBlock m block =
     bindE (link_params m (bd_Name block) (bd_Params block)) (\<lambda>p. Inr (block\<lparr>bd_Params := p\<rparr>))"

definition validateAndLinkResource :: "dsl_model \<Rightarrow> resource_desc \<Rightarrow> model_fail + resource_desc" where
  "validateAndLinkResource m r =
     bindE (traverseE (\<lambda>seizeName.
        bindE (requireSeizeBlock m (rd_Name r) ''seize'' seizeName) (\<lambda>(b, p).
        if sp_ResourceName p \<noteq> rd_Name r
        then Inl (modelErr ErrUnknownReference
               [''resource '', quoted (rd_Name r), '' lists SEIZE block '', quoted (bd_Name b),
                '', but this block references resource '', quoted (sp_ResourceName p)])
        else Inr (bd_Name b))) (rd_SeizeNames r)) (\<lambda>seizes.
     Inr (r\<lparr>rd_Seizes := seizes\<rparr>))"

section \<open>Wait queues\<close>

text \<open>The blocks the search goes on to: an entity passes ASSIGN and BRANCH blocks at once.\<close>

fun successors :: "block_params \<Rightarrow> string option list" where
  "successors (AssignParams p) = [ap_Next p]"
| "successors (BranchParams p) = map bc_Next (bp_Cases p) @ (if bp_HasElse p then [bp_Else p] else [])"
| "successors _ = []"

datatype search = Found | NotFound | NilDeref

text \<open>
  \<open>canReachWaitTargetFrom\<close>, for the blocks of a list one after the other until one reaches
  the target: the loop of a BRANCH. The set of visited blocks is shared by the whole search.
\<close>

function reach_any ::
  "dsl_model \<Rightarrow> string \<Rightarrow> string option list \<Rightarrow> string list \<Rightarrow> search \<times> string list" where
  "reach_any m target [] visited = (NotFound, visited)"
| "reach_any m target (None # ps) visited = (NilDeref, visited)"
| "reach_any m target (Some current # ps) visited =
     (if current = target then (Found, visited)
      else if current \<in> set visited then reach_any m target ps visited
      else case BlockByName m current of
        None \<Rightarrow> (NilDeref, visited)
      | Some b \<Rightarrow>
          (case reach_any m target (successors (bd_Params b)) (current # visited) of
             (r, visited') \<Rightarrow>
               if r = NotFound then reach_any m target ps visited' else (r, visited')))"
  by pat_completeness auto

text \<open>The visited set only grows, so the blocks not visited yet bound the search.\<close>

definition unvisited :: "dsl_model \<Rightarrow> string list \<Rightarrow> string set" where
  "unvisited m visited = bd_Name ` set (m_Blocks m) - set visited"

lemma reach_any_visited:
  "reach_any_dom (m, target, ps, visited) \<Longrightarrow>
     set visited \<subseteq> set (snd (reach_any m target ps visited))"
proof (induction m target ps visited rule: reach_any.pinduct)
  case (3 m target current ps visited)
  show ?case
  proof (cases "current = target \<or> current \<in> set visited \<or> BlockByName m current = None")
    case True
    with 3 show ?thesis
      by (auto simp: reach_any.psimps split: option.splits)
  next
    case False
    then obtain b where b: "BlockByName m current = Some b" by auto
    obtain r visited' where rec:
      "reach_any m target (successors (bd_Params b)) (current # visited) = (r, visited')"
      by (cases "reach_any m target (successors (bd_Params b)) (current # visited)")
    have "set (current # visited) \<subseteq> set visited'"
      using 3(3) [OF _ _ b] False rec by simp
    moreover have "r = NotFound \<Longrightarrow> set visited' \<subseteq> set (snd (reach_any m target ps visited'))"
      using 3(4) [OF _ _ b] False rec by simp
    ultimately show ?thesis
      using 3(1) False b rec by (auto simp: reach_any.psimps)
  qed
qed (simp_all add: reach_any.psimps)

termination reach_any
proof (relation "inv_image (finite_psubset <*lex*> less_than)
    (\<lambda>(m, target, ps, visited). (unvisited m visited, length ps))", goal_cases)
  case (3 m target current ps visited b)
  then have "current \<in> bd_Name ` set (m_Blocks m)"
    by (auto simp: BlockByName_def dest: by_name_Some)
  with 3 show ?case
    by (auto simp: unvisited_def finite_psubset_def)
next
  case (4 m target current ps visited b x visited')
  then have "current \<in> bd_Name ` set (m_Blocks m)"
    by (auto simp: BlockByName_def dest: by_name_Some)
  moreover have "set (current # visited) \<subseteq> set visited'"
    using 4(4-6) reach_any_visited [of m target "successors (bd_Params b)" "current # visited"]
    by (metis snd_conv)
  ultimately show ?case
    using 4(2) by (auto simp: unvisited_def finite_psubset_def)
qed (auto simp: unvisited_def)

definition canReachWaitTarget :: "dsl_model \<Rightarrow> string \<Rightarrow> string \<Rightarrow> search" where
  "canReachWaitTarget m queue target =
     (case BlockByName m queue of
        None \<Rightarrow> NilDeref
      | Some b \<Rightarrow>
          (case bd_Params b of
             QueueParams q \<Rightarrow> fst (reach_any m target [qp_Next q] [])
           | _ \<Rightarrow> NilDeref))"

definition wait_queue_error :: "string \<Rightarrow> string \<Rightarrow> string \<Rightarrow> model_fail" where
  "wait_queue_error queue kind name =
     modelErr ErrIncorrectFormat
       [''QUEUE block '', quoted queue, '' from wait_queue cannot reach '', kind, '' block '', quoted name]"

definition check_wait_queues ::
  "dsl_model \<Rightarrow> string \<Rightarrow> string \<Rightarrow> string list \<Rightarrow> model_fail + unit list" where
  "check_wait_queues m kind name queues =
     traverseE (\<lambda>q. case canReachWaitTarget m q name of
         Found \<Rightarrow> Inr ()
       | NotFound \<Rightarrow> Inl (wait_queue_error q kind name)
       | NilDeref \<Rightarrow> Inl NilPanic) queues"

definition validateWaitQueueReachability :: "dsl_model \<Rightarrow> model_fail + unit list list" where
  "validateWaitQueueReachability m =
     traverseE (\<lambda>block. case bd_Params block of
         DelayParams p \<Rightarrow> check_wait_queues m ''DELAY'' (bd_Name block) (dp_WaitQueues p)
       | SeizeParams p \<Rightarrow> check_wait_queues m ''SEIZE'' (bd_Name block) (sp_WaitQueues p)
       | _ \<Rightarrow> Inr []) (m_Blocks m)"

section \<open>The whole model\<close>

definition ValidateAndLink :: "dsl_model option \<Rightarrow> model_fail + dsl_model" where
  "ValidateAndLink model =
     (case model of
        None \<Rightarrow> Inl (modelErr ErrIncorrectFormat [''model is nil''])
      | Some m \<Rightarrow>
          bindE (validateRequiredBlocks m) (\<lambda>_.
          bindE (traverseE (validateAndLinkBlock m) (m_Blocks m)) (\<lambda>blocks.
          bindE (traverseE (validateAndLinkResource m) (m_Resources m)) (\<lambda>resources.
          let linked = m\<lparr>m_Blocks := blocks, m_Resources := resources\<rparr> in
          bindE (validateWaitQueueReachability linked) (\<lambda>_. Inr linked)))))"

end
