(* ===== verification/Dsl_Parser.thy ===== *)
theory Dsl_Parser
  imports Dsl_Model
begin

text \<open>
  The parser of the model language (codegen/generator/parser.go, parser_helper.go,
  parse_entity.go, parse_var.go, parse_resource.go, parse_block.go). A parser takes the
  scanner and returns an error, or its result with the scanner it leaves behind. The loops
  over the parameters of a declaration share \<open>param_loop\<close>: what a step leaves of its line is
  dropped by the next scan, so a step returns the new parameters only, and the loop ends
  because every scan consumes data.
\<close>

section \<open>Helpers\<close>

definition expectOpeningBrace :: "string \<Rightarrow> unit parser" where
  "expectOpeningBrace expected s =
     (let (openBrace, s1) = Word s in
      if token_text openBrace \<noteq> ''{''
      then Inl (parseErr s1 ErrIncorrectFormat (msg [''expected '', quoted ''{'', '' after '', expected]))
      else
        (let (extra, s2) = Word s1 in
         case extra of
           Some t \<Rightarrow> Inl (parseErr s2 ErrIncorrectFormat
                       (msg [''unexpected token '', quoted t, '' after '', quoted ''{'']))
         | None \<Rightarrow> Inr ((), s2)))"

definition expectNoExtraAfterClosingBrace :: "unit parser" where
  "expectNoExtraAfterClosingBrace s =
     (let (extra, s1) = Word s in
      case extra of
        Some t \<Rightarrow> Inl (parseErr s1 ErrIncorrectFormat
                    (msg [''unexpected token '', quoted t, '' after '', quoted ''}'']))
      | None \<Rightarrow> Inr ((), s1))"

definition expectClosingBrace :: "unit parser" where
  "expectClosingBrace s =
     (let (ok, s1) = ScanNoEmpty s in
      if \<not> ok then Inl (parseErr s1 ErrUnexpectedEOF (msg [''expected '', quoted ''}'']))
      else
        (let (closeBrace, s2) = Word s1 in
         if token_text closeBrace \<noteq> ''}''
         then Inl (parseErr s2 ErrIncorrectFormat
                (msg [''expected '', quoted ''}'', '', got '', quoted (token_text closeBrace)]))
         else expectNoExtraAfterClosingBrace s2))"

definition registerGlobalName :: "dsl_model \<Rightarrow> line_scanner \<Rightarrow> string \<Rightarrow> parse_fail + unit" where
  "registerGlobalName m s name =
     (let dup = parseErr s ErrDuplicateName (msg [''name '', quoted name, '' already declared'']) in
      if EntityByName m name \<noteq> None then Inl dup
      else if VarByName m name \<noteq> None then Inl dup
      else if ResourceByName m name \<noteq> None then Inl dup
      else if BlockByName m name \<noteq> None then Inl dup
      else Inr ())"

text \<open>
  \<open>parseSection\<close>. \<open>add\<close> appends the object to its list of the model, whose lookup is the
  map of the section; on an error the code drops the model.
\<close>

fun parseSection ::
  "'a parser \<Rightarrow> ('a \<Rightarrow> string) \<Rightarrow> ('a \<Rightarrow> dsl_model \<Rightarrow> dsl_model) \<Rightarrow> nat \<Rightarrow> dsl_model \<Rightarrow> dsl_model parser"
where
  "parseSection parse getName add 0 m s =
     bindE (expectClosingBrace s) (\<lambda>(_, s1). Inr (m, s1))"
| "parseSection parse getName add (Suc n) m s =
     bindE (parse s) (\<lambda>(obj, s1).
     bindE (registerGlobalName m s1 (getName obj)) (\<lambda>_.
     parseSection parse getName add n (add obj m) s1))"

definition validateName :: "line_scanner \<Rightarrow> string \<Rightarrow> parse_fail + string" where
  "validateName s token =
     (if \<not> isIdentifier token
      then Inl (parseErr s ErrInvalidIdentifier (msg [''invalid identifier '', quoted token]))
      else if isDSLKeyword token
      then Inl (parseErr s ErrInvalidIdentifier (msg [''reserved DSL keyword '', quoted token]))
      else Inr token)"

definition parseDefaultValue :: "value_type \<Rightarrow> string parser" where
  "parseDefaultValue t s =
     (let (token, s1) = Word s in
      case token of
        None \<Rightarrow> Inr (defaultValueForType t, s1)
      | Some value \<Rightarrow>
          (let (extra, s2) = Word s1 in
           case extra of
             Some x \<Rightarrow> Inl (parseErr s2 ErrIncorrectFormat
                         (msg [''unexpected token '', quoted x, '' after default value'']))
           | None \<Rightarrow>
               if \<not> isValidLiteralForType value t
               then Inl (parseErr s2 ErrIncorrectFormat (msg [''invalid default value '', quoted value]))
               else Inr (value, s2)))"

text \<open>A \<open>typedValueSpec\<close> is a triple of name, type and default.\<close>

definition parseTypedValueSpec ::
  "string \<Rightarrow> string \<Rightarrow> (string \<times> value_type \<times> string) parser" where
  "parseTypedValueSpec firstToken kind s =
     bindE (validateName s firstToken) (\<lambda>name.
     let (typeToken, s1) = Word s in
     case typeToken of
       None \<Rightarrow> Inl (parseErr s1 ErrIncorrectFormat (msg [''expected '', kind, '' type'']))
     | Some tt \<Rightarrow>
         (case parseType tt of
            None \<Rightarrow> Inl (parseErr s1 ErrUnknownType (msg [''unknown '', kind, '' type '', quoted tt]))
          | Some t \<Rightarrow> bindE (parseDefaultValue t s1) (\<lambda>(d, s2). Inr ((name, t, d), s2))))"

section \<open>The loop over parameters\<close>

text \<open>
  \<open>close\<close> is what follows the closing brace, once nothing is left on its line; \<open>step\<close> handles
  one parameter; \<open>eof\<close> is the message when the data ends first.
\<close>

function param_loop ::
  "(line_scanner \<Rightarrow> 'p \<Rightarrow> parse_fail + 'r) \<Rightarrow> (string \<Rightarrow> line_scanner \<Rightarrow> 'p \<Rightarrow> parse_fail + 'p) \<Rightarrow>
   string \<Rightarrow> 'p \<Rightarrow> 'r parser"
where
  "param_loop close step eof p s =
     (case ScanNoEmpty s of
        (False, s1) \<Rightarrow> Inl (parseErr s1 ErrUnexpectedEOF eof)
      | (True, s1) \<Rightarrow>
          (let (w, s2) = Word s1 in
           if token_text w = ''}''
           then bindE (expectNoExtraAfterClosingBrace s2) (\<lambda>(_, s3).
                bindE (close s3 p) (\<lambda>r. Inr (r, s3)))
           else bindE (step (token_text w) s2 p) (\<lambda>p'. param_loop close step eof p' s2)))"
  by pat_completeness auto
termination
proof (relation "measure (\<lambda>(close, step, eof, p, s). length (sc_data s))", goal_cases)
  case (2 close step eof p s x s1 xa w s2 p')
  then have "s2 = snd (Word s1)" by (metis snd_conv)
  with 2 show ?case
    using ScanNoEmpty_shrinks [of s s1] by simp
qed simp

declare param_loop.simps [simp del]

section \<open>Entities, variables and resources\<close>

definition parseEntityField :: "string \<Rightarrow> field_desc parser" where
  "parseEntityField firstToken s =
     bindE (parseTypedValueSpec firstToken ''field'' s) (\<lambda>((name, t, d), s1).
     Inr (\<lparr>fd_Name = name, fd_Type = t, fd_Default = d\<rparr>, s1))"

definition entity_step :: "string \<Rightarrow> line_scanner \<Rightarrow> entity_desc \<Rightarrow> parse_fail + entity_desc" where
  "entity_step word s entity =
     bindE (parseEntityField word s) (\<lambda>(field, s1).
     if fd_Name field = ''id''
     then Inl (parseErr s1 ErrInvalidIdentifier (msg [''field '', quoted ''id'', '' is reserved'']))
     else if FieldByName entity (fd_Name field) \<noteq> None
     then Inl (parseErr s1 ErrDuplicateName
            (msg [''field '', quoted (fd_Name field), '' already declared in entity '',
                  quoted (ed_Name entity)]))
     else Inr (entity\<lparr>ed_Fields := ed_Fields entity @ [field]\<rparr>))"

definition parseEntity :: "entity_desc parser" where
  "parseEntity s =
     (let (ok, s1) = ScanNoEmpty s in
      if \<not> ok then Inl (parseErr s1 ErrUnexpectedEOF ''expected entity declaration'')
      else
        (let (nameToken, s2) = Word s1 in
         bindE (validateName s2 (token_text nameToken)) (\<lambda>name.
         bindE (expectOpeningBrace ''entity name'' s2) (\<lambda>(_, s3).
         param_loop (\<lambda>_ e. Inr e) entity_step
           (msg [''expected '', quoted ''}'', '' after entity declaration''])
           \<lparr>ed_Name = name, ed_Fields = []\<rparr> s3))))"

definition add_entity :: "entity_desc \<Rightarrow> dsl_model \<Rightarrow> dsl_model" where
  "add_entity e m = m\<lparr>m_Entities := m_Entities m @ [e]\<rparr>"

definition parseEntitySection :: "nat \<Rightarrow> dsl_model \<Rightarrow> dsl_model parser" where
  "parseEntitySection = parseSection parseEntity ed_Name add_entity"

definition parseVar :: "var_desc parser" where
  "parseVar s =
     (let (ok, s1) = ScanNoEmpty s in
      if \<not> ok then Inl (parseErr s1 ErrUnexpectedEOF ''expected variable declaration'')
      else
        (let (firstToken, s2) = Word s1 in
         bindE (parseTypedValueSpec (token_text firstToken) ''variable'' s2)
           (\<lambda>((name, t, d), s3). Inr (\<lparr>vd_Name = name, vd_Type = t, vd_Default = d\<rparr>, s3))))"

definition add_var :: "var_desc \<Rightarrow> dsl_model \<Rightarrow> dsl_model" where
  "add_var v m = m\<lparr>m_Vars := m_Vars m @ [v]\<rparr>"

definition parseVarSection :: "nat \<Rightarrow> dsl_model \<Rightarrow> dsl_model parser" where
  "parseVarSection = parseSection parseVar vd_Name add_var"

text \<open>One word, and nothing behind it on the line, as the resource parameters read it.\<close>

definition single_token :: "string \<Rightarrow> string \<Rightarrow> string parser" where
  "single_token missing what s =
     (let (value, s1) = Word s in
      case value of
        None \<Rightarrow> Inl (parseErr s1 ErrIncorrectFormat missing)
      | Some v \<Rightarrow>
          (let (extra, s2) = Word s1 in
           case extra of
             Some t \<Rightarrow> Inl (parseErr s2 ErrIncorrectFormat
                         (msg [''unexpected token '', quoted t, '' after '', what]))
           | None \<Rightarrow> Inr (v, s2)))"

text \<open>The resource with \<open>hasCapacity\<close>.\<close>

definition resource_step ::
  "string \<Rightarrow> line_scanner \<Rightarrow> resource_desc \<times> bool \<Rightarrow> parse_fail + (resource_desc \<times> bool)" where
  "resource_step param s p =
     (let (r, hasCapacity) = p in
      if param = ''capacity'' then
        (if hasCapacity
         then Inl (parseErr s ErrIncorrectFormat
                (msg [''duplicate resource parameter '', quoted ''capacity'']))
         else bindE (single_token ''expected capacity value'' ''capacity value'' s) (\<lambda>(v, _).
              Inr (r\<lparr>rd_Capacity := v\<rparr>, True)))
      else if param = ''seize'' then
        bindE (single_token ''expected SEIZE block name'' ''SEIZE block name'' s) (\<lambda>(v, s1).
        bindE (validateName s1 v) (\<lambda>name.
        Inr (r\<lparr>rd_SeizeNames := rd_SeizeNames r @ [name]\<rparr>, hasCapacity)))
      else Inl (parseErr s ErrUnknownBlockParam
             (msg [''unknown resource parameter '', quoted param])))"

definition resource_close ::
  "line_scanner \<Rightarrow> resource_desc \<times> bool \<Rightarrow> parse_fail + resource_desc" where
  "resource_close s p =
     (let (r, hasCapacity) = p in
      if \<not> hasCapacity
      then Inl (parseErr s ErrIncorrectFormat
             (msg [''missing required resource parameter '', quoted ''capacity'']))
      else if rd_SeizeNames r = []
      then Inl (parseErr s ErrIncorrectFormat
             (msg [''missing required resource parameter '', quoted ''seize'']))
      else Inr r)"

definition parseResource :: "resource_desc parser" where
  "parseResource s =
     (let (ok, s1) = ScanNoEmpty s in
      if \<not> ok then Inl (parseErr s1 ErrUnexpectedEOF ''expected resource declaration'')
      else
        (let (nameTok, s2) = Word s1 in
         bindE (validateName s2 (token_text nameTok)) (\<lambda>name.
         bindE (expectOpeningBrace ''resource name'' s2) (\<lambda>(_, s3).
         param_loop resource_close resource_step
           (msg [''expected '', quoted ''}'', '' after resource declaration''])
           (\<lparr>rd_Name = name, rd_Capacity = [], rd_SeizeNames = [], rd_Seizes = []\<rparr>, False) s3))))"

definition add_resource :: "resource_desc \<Rightarrow> dsl_model \<Rightarrow> dsl_model" where
  "add_resource r m = m\<lparr>m_Resources := m_Resources m @ [r]\<rparr>"

definition parseResourceSection :: "nat \<Rightarrow> dsl_model \<Rightarrow> dsl_model parser" where
  "parseResourceSection = parseSection parseResource rd_Name add_resource"

end
