(* ===== verification/Dsl_Blocks.thy ===== *)
theory Dsl_Blocks
  imports Dsl_Parser
begin

text \<open>
  The block declarations of the model language (codegen/generator/parse_block.go). The flags
  \<open>hasEntity\<close>, \<open>hasNext\<close>, ... of a parser are kept together as the list of the parameter
  names whose flag is set.
\<close>

section \<open>Reading values\<close>

definition readRequiredToken :: "string \<Rightarrow> string parser" where
  "readRequiredToken param s =
     (let (token, s1) = Word s in
      case token of
        None \<Rightarrow> Inl (parseErr s1 ErrIncorrectFormat
                  (msg [''expected value for parameter '', quoted param]))
      | Some t \<Rightarrow>
          (let (extra, s2) = Word s1 in
           case extra of
             Some x \<Rightarrow> Inl (parseErr s2 ErrIncorrectFormat
                         (msg [''unexpected token '', quoted x, '' after parameter '', quoted param]))
           | None \<Rightarrow> Inr (t, s2)))"

definition readRequiredName :: "string \<Rightarrow> string parser" where
  "readRequiredName param s =
     bindE (readRequiredToken param s) (\<lambda>(token, s1).
     bindE (validateName s1 token) (\<lambda>name. Inr (name, s1)))"

definition readRequiredExpr :: "string \<Rightarrow> expr parser" where
  "readRequiredExpr param s =
     (if Line s = []
      then Inl (parseErr s ErrIncorrectFormat
             (msg [''expected expression for parameter '', quoted param]))
      else Inr (Line s, s))"

definition readRequiredBool :: "string \<Rightarrow> bool parser" where
  "readRequiredBool param s =
     bindE (readRequiredToken param s) (\<lambda>(token, s1).
     if token = ''true'' then Inr (True, s1)
     else if token = ''false'' then Inr (False, s1)
     else Inl (parseErr s1 ErrIncorrectFormat
            (msg [''expected bool value for parameter '', quoted param])))"

definition readBlockingPolicy :: "string \<Rightarrow> blocking_policy parser" where
  "readBlockingPolicy param s =
     bindE (readRequiredToken param s) (\<lambda>(token, s1).
     if token = ''error'' then Inr (BlockingPolicyError, s1)
     else if token = ''destroy'' then Inr (BlockingPolicyDestroy, s1)
     else Inl (parseErr s1 ErrUnknownBlockingPolicy
            (msg [''unknown blocking_policy '', quoted token])))"

definition readQueueDiscipline :: "string \<Rightarrow> queue_discipline parser" where
  "readQueueDiscipline param s =
     bindE (readRequiredToken param s) (\<lambda>(token, s1).
     if token = ''fifo'' then Inr (QueueDisciplineFIFO, s1)
     else Inl (parseErr s1 ErrIncorrectFormat (msg [''unknown discipline '', quoted token])))"

text \<open>The value of a parameter that may be given once, and the flags with its own set.\<close>

definition parseUniqueParam ::
  "string list \<Rightarrow> (string \<Rightarrow> 'a parser) \<Rightarrow> string \<Rightarrow> string \<Rightarrow> line_scanner \<Rightarrow>
   parse_fail + ('a \<times> string list)" where
  "parseUniqueParam has read block param s =
     (if param \<in> set has
      then Inl (parseErr s ErrIncorrectFormat
             (msg [''duplicate '', block, '' parameter '', quoted param]))
      else bindE (read param s) (\<lambda>(v, _). Inr (v, param # has)))"

definition missing_param :: "line_scanner \<Rightarrow> string \<Rightarrow> string \<Rightarrow> parse_fail" where
  "missing_param s block param =
     parseErr s ErrIncorrectFormat (msg [''missing required '', block, '' parameter '', quoted param])"

definition unknown_param :: "line_scanner \<Rightarrow> string \<Rightarrow> string \<Rightarrow> parse_fail" where
  "unknown_param s block param =
     parseErr s ErrUnknownBlockParam (msg [''unknown '', block, '' parameter '', quoted param])"

definition after_block :: "string \<Rightarrow> string" where
  "after_block block = msg [''expected '', quoted ''}'', '' after '', block, '' block'']"

section \<open>Blocks\<close>

definition parseTerminateParams :: "block_params parser" where
  "parseTerminateParams s = bindE (expectClosingBrace s) (\<lambda>(_, s1). Inr (TerminateParams, s1))"

definition create_step ::
  "string \<Rightarrow> line_scanner \<Rightarrow> create_params \<times> string list \<Rightarrow> parse_fail + (create_params \<times> string list)"
where
  "create_step param s ph =
     (let (p, has) = ph in
      if param = ''entity'' then
        bindE (parseUniqueParam has readRequiredName ''CREATE'' ''entity'' s) (\<lambda>(v, h). Inr (p\<lparr>cp_EntityName := v\<rparr>, h))
      else if param = ''interval'' then
        bindE (parseUniqueParam has readRequiredExpr ''CREATE'' ''interval'' s) (\<lambda>(v, h). Inr (p\<lparr>cp_Interval := v\<rparr>, h))
      else if param = ''next'' then
        bindE (parseUniqueParam has readRequiredName ''CREATE'' ''next'' s) (\<lambda>(v, h). Inr (p\<lparr>cp_NextName := v\<rparr>, h))
      else if param = ''immediately'' then
        bindE (parseUniqueParam has readRequiredBool ''CREATE'' ''immediately'' s) (\<lambda>(v, h). Inr (p\<lparr>cp_Immediately := v\<rparr>, h))
      else if param = ''batch'' then
        bindE (parseUniqueParam has readRequiredExpr ''CREATE'' ''batch'' s) (\<lambda>(v, h). Inr (p\<lparr>cp_Batch := v\<rparr>, h))
      else if param = ''blocking_policy'' then
        bindE (parseUniqueParam has readBlockingPolicy ''CREATE'' ''blocking_policy'' s) (\<lambda>(v, h). Inr (p\<lparr>cp_BlockingPolicy := v\<rparr>, h))
      else Inl (unknown_param s ''CREATE'' param))"

definition create_close :: "line_scanner \<Rightarrow> create_params \<times> string list \<Rightarrow> parse_fail + create_params" where
  "create_close s ph =
     (let (p, has) = ph in
      if ''entity'' \<notin> set has then Inl (missing_param s ''CREATE'' ''entity'')
      else if ''interval'' \<notin> set has then Inl (missing_param s ''CREATE'' ''interval'')
      else if ''next'' \<notin> set has then Inl (missing_param s ''CREATE'' ''next'')
      else Inr p)"

definition parseCreateParams :: "create_params parser" where
  "parseCreateParams s =
     param_loop create_close create_step (after_block ''CREATE'')
       (\<lparr>cp_EntityName = [], cp_Entity = None, cp_Interval = [], cp_Immediately = False,
         cp_Batch = ''1'', cp_BlockingPolicy = BlockingPolicyError, cp_NextName = [], cp_Next = None\<rparr>, []) s"

definition queue_step ::
  "string \<Rightarrow> line_scanner \<Rightarrow> queue_params \<times> string list \<Rightarrow> parse_fail + (queue_params \<times> string list)"
where
  "queue_step param s ph =
     (let (p, has) = ph in
      if param = ''next'' then
        bindE (parseUniqueParam has readRequiredName ''QUEUE'' ''next'' s) (\<lambda>(v, h). Inr (p\<lparr>qp_NextName := v\<rparr>, h))
      else if param = ''capacity'' then
        (if ''capacity'' \<in> set has
         then Inl (parseErr s ErrIncorrectFormat
                (msg [''duplicate QUEUE parameter '', quoted ''capacity'']))
         else if Line s = []
         then Inl (parseErr s ErrIncorrectFormat
                (msg [''expected expression for parameter '', quoted ''capacity'']))
         else
           (let raw = trim_space (Line s) in
            Inr ((if raw = ''infinity''
                  then p\<lparr>qp_InfiniteCapacity := True, qp_Capacity := []\<rparr>
                  else p\<lparr>qp_Capacity := raw\<rparr>), ''capacity'' # has)))
      else if param = ''discipline'' then
        bindE (parseUniqueParam has readQueueDiscipline ''QUEUE'' ''discipline'' s) (\<lambda>(v, h). Inr (p\<lparr>qp_Discipline := v\<rparr>, h))
      else if param = ''timeout'' then
        bindE (parseUniqueParam has readRequiredExpr ''QUEUE'' ''timeout'' s) (\<lambda>(v, h). Inr (p\<lparr>qp_Timeout := v, qp_HasTimeout := True\<rparr>, h))
      else if param = ''next_timeout'' then
        bindE (parseUniqueParam has readRequiredName ''QUEUE'' ''next_timeout'' s) (\<lambda>(v, h). Inr (p\<lparr>qp_NextTimeoutName := v\<rparr>, h))
      else if param = ''exit_on_overflow'' then
        bindE (parseUniqueParam has readRequiredBool ''QUEUE'' ''exit_on_overflow'' s) (\<lambda>(v, h). Inr (p\<lparr>qp_ExitOnOverflow := v\<rparr>, h))
      else if param = ''next_overflow'' then
        bindE (parseUniqueParam has readRequiredName ''QUEUE'' ''next_overflow'' s) (\<lambda>(v, h). Inr (p\<lparr>qp_NextOverflowName := v\<rparr>, h))
      else Inl (unknown_param s ''QUEUE'' param))"

definition queue_close :: "line_scanner \<Rightarrow> queue_params \<times> string list \<Rightarrow> parse_fail + queue_params" where
  "queue_close s ph =
     (let (p, has) = ph in
      if ''next'' \<notin> set has then Inl (missing_param s ''QUEUE'' ''next'')
      else if ''capacity'' \<notin> set has then Inl (missing_param s ''QUEUE'' ''capacity'')
      else if qp_ExitOnOverflow p \<and> ''next_overflow'' \<notin> set has
      then Inl (missing_param s ''QUEUE'' ''next_overflow'')
      else if qp_ExitOnOverflow p \<and> qp_InfiniteCapacity p
      then Inl (parseErr s ErrIncorrectFormat
             ''QUEUE with capacity infinity cannot use exit_on_overflow or next_overflow'')
      else Inr p)"

definition parseQueueParams :: "queue_params parser" where
  "parseQueueParams s =
     param_loop queue_close queue_step (after_block ''QUEUE'')
       (\<lparr>qp_InfiniteCapacity = False, qp_Capacity = [], qp_Discipline = QueueDisciplineFIFO,
         qp_Timeout = [], qp_HasTimeout = False, qp_NextTimeoutName = [], qp_NextTimeout = None,
         qp_ExitOnOverflow = False, qp_NextOverflowName = [], qp_NextOverflow = None,
         qp_NextName = [], qp_Next = None\<rparr>, []) s"

definition delay_step ::
  "string \<Rightarrow> line_scanner \<Rightarrow> delay_params \<times> string list \<Rightarrow> parse_fail + (delay_params \<times> string list)"
where
  "delay_step param s ph =
     (let (p, has) = ph in
      if param = ''next'' then
        bindE (parseUniqueParam has readRequiredName ''DELAY'' ''next'' s) (\<lambda>(v, h). Inr (p\<lparr>dp_NextName := v\<rparr>, h))
      else if param = ''duration'' then
        bindE (parseUniqueParam has readRequiredExpr ''DELAY'' ''duration'' s) (\<lambda>(v, h). Inr (p\<lparr>dp_Duration := v\<rparr>, h))
      else if param = ''capacity'' then
        bindE (parseUniqueParam has readRequiredExpr ''DELAY'' ''capacity'' s) (\<lambda>(v, h). Inr (p\<lparr>dp_Capacity := v, dp_HasCapacity := True\<rparr>, h))
      else if param = ''wait_queue'' then
        bindE (readRequiredName ''wait_queue'' s) (\<lambda>(name, _).
        Inr (p\<lparr>dp_WaitQueueNames := dp_WaitQueueNames p @ [name]\<rparr>, has))
      else Inl (unknown_param s ''DELAY'' param))"

definition delay_close :: "line_scanner \<Rightarrow> delay_params \<times> string list \<Rightarrow> parse_fail + delay_params" where
  "delay_close s ph =
     (let (p, has) = ph in
      if ''next'' \<notin> set has then Inl (missing_param s ''DELAY'' ''next'')
      else if ''duration'' \<notin> set has then Inl (missing_param s ''DELAY'' ''duration'')
      else Inr p)"

definition parseDelayParams :: "delay_params parser" where
  "parseDelayParams s =
     param_loop delay_close delay_step (after_block ''DELAY'')
       (\<lparr>dp_Duration = [], dp_Capacity = [], dp_HasCapacity = False,
         dp_WaitQueueNames = [], dp_WaitQueues = [], dp_NextName = [], dp_Next = None\<rparr>, []) s"

definition seize_step ::
  "string \<Rightarrow> line_scanner \<Rightarrow> seize_params \<times> string list \<Rightarrow> parse_fail + (seize_params \<times> string list)"
where
  "seize_step param s ph =
     (let (p, has) = ph in
      if param = ''resource'' then
        bindE (parseUniqueParam has readRequiredName ''SEIZE'' ''resource'' s) (\<lambda>(v, h). Inr (p\<lparr>sp_ResourceName := v\<rparr>, h))
      else if param = ''next'' then
        bindE (parseUniqueParam has readRequiredName ''SEIZE'' ''next'' s) (\<lambda>(v, h). Inr (p\<lparr>sp_NextName := v\<rparr>, h))
      else if param = ''wait_queue'' then
        bindE (readRequiredName ''wait_queue'' s) (\<lambda>(name, _).
        Inr (p\<lparr>sp_WaitQueueNames := sp_WaitQueueNames p @ [name]\<rparr>, has))
      else Inl (unknown_param s ''SEIZE'' param))"

definition seize_close :: "line_scanner \<Rightarrow> seize_params \<times> string list \<Rightarrow> parse_fail + seize_params" where
  "seize_close s ph =
     (let (p, has) = ph in
      if ''resource'' \<notin> set has then Inl (missing_param s ''SEIZE'' ''resource'')
      else if ''next'' \<notin> set has then Inl (missing_param s ''SEIZE'' ''next'')
      else Inr p)"

definition parseSeizeParams :: "seize_params parser" where
  "parseSeizeParams s =
     param_loop seize_close seize_step (after_block ''SEIZE'')
       (\<lparr>sp_ResourceName = [], sp_Resource = None, sp_WaitQueueNames = [], sp_WaitQueues = [],
         sp_NextName = [], sp_Next = None\<rparr>, []) s"

definition release_step ::
  "string \<Rightarrow> line_scanner \<Rightarrow> release_params \<times> string list \<Rightarrow> parse_fail + (release_params \<times> string list)"
where
  "release_step param s ph =
     (let (p, has) = ph in
      if param = ''resource'' then
        bindE (parseUniqueParam has readRequiredName ''RELEASE'' ''resource'' s) (\<lambda>(v, h). Inr (p\<lparr>rp_ResourceName := v\<rparr>, h))
      else if param = ''next'' then
        bindE (parseUniqueParam has readRequiredName ''RELEASE'' ''next'' s) (\<lambda>(v, h). Inr (p\<lparr>rp_NextName := v\<rparr>, h))
      else Inl (unknown_param s ''RELEASE'' param))"

definition release_close :: "line_scanner \<Rightarrow> release_params \<times> string list \<Rightarrow> parse_fail + release_params" where
  "release_close s ph =
     (let (p, has) = ph in
      if ''resource'' \<notin> set has then Inl (missing_param s ''RELEASE'' ''resource'')
      else if ''next'' \<notin> set has then Inl (missing_param s ''RELEASE'' ''next'')
      else Inr p)"

definition parseReleaseParams :: "release_params parser" where
  "parseReleaseParams s =
     param_loop release_close release_step (after_block ''RELEASE'')
       (\<lparr>rp_ResourceName = [], rp_Resource = None, rp_NextName = [], rp_Next = None\<rparr>, []) s"

definition parseAssignmentTarget :: "line_scanner \<Rightarrow> string \<Rightarrow> parse_fail + assignment_target" where
  "parseAssignmentTarget s raw =
     (let target = trim_space raw;
          invalid = parseErr s ErrIncorrectFormat (msg [''invalid entity field target '', quoted target])
      in if target = [] then Inl (parseErr s ErrIncorrectFormat ''expected assignment target'')
         else case cut_byte (CHR ''.'') target of
           None \<Rightarrow>
             bindE (validateName s target) (\<lambda>name.
             Inr \<lparr>at_IsEntityField = False, at_EntityName = [], at_FieldName = [],
                  at_VarName = name\<rparr>)
         | Some (l, r) \<Rightarrow>
             if l = [] \<or> r = [] then Inl invalid
             else if CHR ''.'' \<in> set r then Inl invalid
             else
               bindE (validateName s l) (\<lambda>entityName.
               bindE (validateName s r) (\<lambda>fieldName.
               Inr \<lparr>at_IsEntityField = True, at_EntityName = entityName, at_FieldName = fieldName,
                    at_VarName = []\<rparr>)))"

definition parseAssignment :: "line_scanner \<Rightarrow> parse_fail + assignment" where
  "parseAssignment s =
     (if Line s = [] then Inl (parseErr s ErrIncorrectFormat ''expected assignment expression'')
      else case cut_byte (CHR ''='') (Line s) of
        None \<Rightarrow> Inl (parseErr s ErrIncorrectFormat (msg [''expected '', quoted ''='', '' in assignment'']))
      | Some (l, r) \<Rightarrow>
          (let targetRaw = trim_space l; exprRaw = trim_space r in
           if exprRaw = [] then Inl (parseErr s ErrIncorrectFormat ''expected assignment value'')
           else bindE (parseAssignmentTarget s targetRaw) (\<lambda>target.
                Inr \<lparr>as_Target = target, as_Expr = exprRaw\<rparr>)))"

definition assign_step ::
  "string \<Rightarrow> line_scanner \<Rightarrow> assign_params \<times> string list \<Rightarrow> parse_fail + (assign_params \<times> string list)"
where
  "assign_step param s ph =
     (let (p, has) = ph in
      if param = ''set'' then
        bindE (parseAssignment s) (\<lambda>a.
        Inr (p\<lparr>ap_Assignments := ap_Assignments p @ [a]\<rparr>, has))
      else if param = ''next'' then
        bindE (parseUniqueParam has readRequiredName ''ASSIGN'' ''next'' s) (\<lambda>(v, h). Inr (p\<lparr>ap_NextName := v\<rparr>, h))
      else Inl (unknown_param s ''ASSIGN'' param))"

definition assign_close :: "line_scanner \<Rightarrow> assign_params \<times> string list \<Rightarrow> parse_fail + assign_params" where
  "assign_close s ph =
     (let (p, has) = ph in
      if ''next'' \<notin> set has then Inl (missing_param s ''ASSIGN'' ''next'')
      else Inr p)"

definition parseAssignParams :: "assign_params parser" where
  "parseAssignParams s =
     param_loop assign_close assign_step (after_block ''ASSIGN'')
       (\<lparr>ap_Assignments = [], ap_NextName = [], ap_Next = None\<rparr>, []) s"

definition splitColon :: "line_scanner \<Rightarrow> string \<Rightarrow> parse_fail + (string \<times> string)" where
  "splitColon s line =
     (case cut_byte (CHR '':'') line of
        None \<Rightarrow> Inl (parseErr s ErrIncorrectFormat (msg [''expected '', quoted '':'']))
      | Some (l, r) \<Rightarrow>
          (let left = trim_space l; right = trim_space r in
           if right = []
           then Inl (parseErr s ErrIncorrectFormat (msg [''expected block name after '', quoted '':'']))
           else if CHR '':'' \<in> set right
           then Inl (parseErr s ErrIncorrectFormat (msg [''unexpected second '', quoted '':'']))
           else Inr (left, right)))"

definition parseBranchCase :: "line_scanner \<Rightarrow> parse_fail + branch_case" where
  "parseBranchCase s =
     bindE (splitColon s (Line s)) (\<lambda>(conditionRaw, nextRaw).
     if conditionRaw = [] then Inl (parseErr s ErrIncorrectFormat ''expected branch condition'')
     else bindE (validateName s nextRaw) (\<lambda>nextName.
          Inr \<lparr>bc_Condition = conditionRaw, bc_NextName = nextName, bc_Next = None\<rparr>))"

definition parseBranchElse :: "line_scanner \<Rightarrow> parse_fail + string" where
  "parseBranchElse s =
     bindE (splitColon s (Line s)) (\<lambda>(left, nextRaw).
     if left \<noteq> [] then Inl (parseErr s ErrIncorrectFormat ''unexpected condition before else target'')
     else validateName s nextRaw)"

definition branch_step ::
  "string \<Rightarrow> line_scanner \<Rightarrow> branch_params \<Rightarrow> parse_fail + branch_params" where
  "branch_step param s p =
     (if param = ''if'' then
        bindE (parseBranchCase s) (\<lambda>c. Inr (p\<lparr>bp_Cases := bp_Cases p @ [c]\<rparr>))
      else if param = ''else'' then
        (if bp_HasElse p
         then Inl (parseErr s ErrIncorrectFormat (msg [''duplicate BRANCH parameter '', quoted ''else'']))
         else bindE (parseBranchElse s) (\<lambda>nextName.
              Inr (p\<lparr>bp_ElseName := nextName, bp_HasElse := True\<rparr>)))
      else Inl (unknown_param s ''BRANCH'' param))"

definition branch_close :: "line_scanner \<Rightarrow> branch_params \<Rightarrow> parse_fail + branch_params" where
  "branch_close s p =
     (if bp_Cases p = [] \<and> \<not> bp_HasElse p
      then Inl (parseErr s ErrIncorrectFormat ''missing BRANCH cases'')
      else Inr p)"

definition parseBranchParams :: "branch_params parser" where
  "parseBranchParams s =
     param_loop branch_close branch_step (after_block ''BRANCH'')
       \<lparr>bp_Cases = [], bp_HasElse = False, bp_ElseName = [], bp_Else = None\<rparr> s"

section \<open>Block declarations\<close>

definition tagged :: "('a \<Rightarrow> block_params) \<Rightarrow> 'a parser \<Rightarrow> block_params parser" where
  "tagged c p s = bindE (p s) (\<lambda>(x, s1). Inr (c x, s1))"

definition parse_params :: "string \<Rightarrow> block_params parser" where
  "parse_params typ s =
     (if typ = ''CREATE'' then tagged CreateParams parseCreateParams s
      else if typ = ''QUEUE'' then tagged QueueParams parseQueueParams s
      else if typ = ''DELAY'' then tagged DelayParams parseDelayParams s
      else if typ = ''SEIZE'' then tagged SeizeParams parseSeizeParams s
      else if typ = ''RELEASE'' then tagged ReleaseParams parseReleaseParams s
      else if typ = ''TERMINATE'' then parseTerminateParams s
      else if typ = ''ASSIGN'' then tagged AssignParams parseAssignParams s
      else if typ = ''BRANCH'' then tagged BranchParams parseBranchParams s
      else Inl (parseErr s ErrUnknownBlockType (msg [''unknown block type '', quoted typ])))"

definition parseBlock :: "block_desc parser" where
  "parseBlock s =
     (let (ok, s1) = ScanNoEmpty s in
      if \<not> ok then Inl (parseErr s1 ErrUnexpectedEOF ''expected block declaration'')
      else
        (let (typeToken, s2) = Word s1; (nameToken, s3) = Word s2 in
         case nameToken of
           None \<Rightarrow> Inl (parseErr s3 ErrIncorrectFormat ''expected block name'')
         | Some nt \<Rightarrow>
             bindE (validateName s3 nt) (\<lambda>name.
             bindE (expectOpeningBrace ''block name'' s3) (\<lambda>(_, s4).
             bindE (parse_params (token_text typeToken) s4) (\<lambda>(params, s5).
             Inr (\<lparr>bd_Name = name, bd_Params = params\<rparr>, s5))))))"

definition add_block :: "block_desc \<Rightarrow> dsl_model \<Rightarrow> dsl_model" where
  "add_block b m = m\<lparr>m_Blocks := m_Blocks m @ [b]\<rparr>"

definition parseBlockSection :: "nat \<Rightarrow> dsl_model \<Rightarrow> dsl_model parser" where
  "parseBlockSection = parseSection parseBlock bd_Name add_block"

end
