(* ===== verification/Dsl_Parse.thy ===== *)
theory Dsl_Parse
  imports Dsl_Blocks
begin

text \<open>
  The parser's entry point (codegen/generator/parser.go): the hash line, then the four
  sections in order, each with its count. A section count is read as \<open>uint64\<close> and used as
  \<open>int\<close>; \<open>make\<close> panics when the capacity is negative or its bytes exceed the address space
  of the 64-bit platforms (48 bits), which is modelled; running out of memory below that is
  not.
\<close>

definition isHexText :: "string \<Rightarrow> bool" where
  "isHexText data \<longleftrightarrow> data \<noteq> [] \<and> list_all is_hex_digit data"

definition parseHash :: "dsl_model \<Rightarrow> dsl_model parser" where
  "parseHash m s =
     (let (ok, s1) = ScanNoEmpty s in
      if \<not> ok then Inl (parseErr s1 ErrUnexpectedEOF ''expected SHA-256 hash'')
      else
        (let (w, s2) = Word s1; (extra, s3) = Word s2; hash = token_text w in
         if extra \<noteq> None
         then Inl (parseErr s3 ErrIncorrectHash ''expected single SHA-256 hash token'')
         else if length hash \<noteq> 64
         then Inl (parseErr s3 ErrIncorrectHash
                (msg [''expected 64 hex characters, got '', decimal (length hash)]))
         else if \<not> isHexText hash
         then Inl (parseErr s3 ErrIncorrectHash ''expected hexadecimal SHA-256 hash'')
         else Inr (m\<lparr>m_Hash := hash\<rparr>, s3)))"

text \<open>\<open>int(count)\<close> of a \<open>uint64\<close>.\<close>

definition int_of_u64 :: "int \<Rightarrow> int" where
  "int_of_u64 n = (if n < 2 ^ 63 then n else n - 2 ^ 64)"

definition parseSectionHeader :: "string \<Rightarrow> int parser" where
  "parseSectionHeader expectedName s =
     (let (ok, s1) = ScanNoEmpty s in
      if \<not> ok then Inl (parseErr s1 ErrUnexpectedEOF
                     (msg [''expected section '', quoted (expectedName @ '' <count> {'')]))
      else
        (let (name, s2) = Word s1 in
         if token_text name \<noteq> expectedName
         then Inl (parseErr s2 ErrIncorrectFormat
                (msg [''expected '', quoted expectedName, '', got '', quoted (token_text name)]))
         else
           (let (countToken, s3) = Word s2 in
            case countToken of
              None \<Rightarrow> Inl (parseErr s3 ErrIncorrectFormat
                        (msg [''expected count after '', quoted expectedName]))
            | Some ct \<Rightarrow>
                (case parse_uint ct of
                   None \<Rightarrow> Inl (parseErr s3 ErrIncorrectFormat
                             (msg [''expected non-negative count, got '', quoted ct]))
                 | Some count \<Rightarrow>
                     bindE (expectOpeningBrace ''section count'' s3) (\<lambda>(_, s4).
                     Inr (int_of_u64 count, s4))))))"

text \<open>\<open>make([]*T, 0, n)\<close> of a slice of pointers.\<close>

definition make_slice :: "int \<Rightarrow> parse_fail + unit" where
  "make_slice n = (if n < 0 \<or> 2 ^ 48 < 8 * n then Inl MakePanic else Inr ())"

definition count_below :: "int \<Rightarrow> string \<Rightarrow> int \<Rightarrow> line_scanner \<Rightarrow> parse_fail + unit" where
  "count_below limit what n s =
     (if n < limit
      then Inl (parseErr s ErrInvalidSectionCount
             (msg [''expected '', what, '' count >= '', itoa limit, '', got '', itoa n]))
      else Inr ())"

definition Parse :: "string \<Rightarrow> parse_fail + dsl_model" where
  "Parse data =
     bindE (parseHash NewModel (NewLineScanner data)) (\<lambda>(m1, s1).
     bindE (parseSectionHeader ''ENTITY'' s1) (\<lambda>(entityCount, s2).
     bindE (count_below 1 ''entity'' entityCount s2) (\<lambda>_.
     bindE (make_slice entityCount) (\<lambda>_.
     bindE (parseEntitySection (nat entityCount) m1 s2) (\<lambda>(m2, s3).
     bindE (parseSectionHeader ''VAR'' s3) (\<lambda>(varCount, s4).
     bindE (make_slice varCount) (\<lambda>_.
     bindE (parseVarSection (nat varCount) m2 s4) (\<lambda>(m3, s5).
     bindE (parseSectionHeader ''RESOURCE'' s5) (\<lambda>(resourceCount, s6).
     bindE (make_slice resourceCount) (\<lambda>_.
     bindE (parseResourceSection (nat resourceCount) m3 s6) (\<lambda>(m4, s7).
     bindE (parseSectionHeader ''BLOCK'' s7) (\<lambda>(blockCount, s8).
     bindE (count_below 2 ''block'' blockCount s8) (\<lambda>_.
     bindE (make_slice blockCount) (\<lambda>_.
     bindE (parseBlockSection (nat blockCount) m4 s8) (\<lambda>(m5, s9).
     let (more, s10) = ScanNoEmpty s9 in
     if more then Inl (parseErr s10 ErrIncorrectFormat ''expected EOF'')
     else Inr m5)))))))))))))))"

end
