(* ===== verification/Dsl_Parse_Correct.thy ===== *)
theory Dsl_Parse_Correct
  imports Dsl_Parse
begin

text \<open>
  What the parser promises: a model it returns is well formed, and an error it returns names
  a line of the text. Both follow from one contract of the parsing functions, stated for a
  scanner over \<open>n\<close> lines.
\<close>

section \<open>Well-formed models\<close>

definition wf_field :: "field_desc \<Rightarrow> bool" where
  "wf_field f \<longleftrightarrow> valid_name (fd_Name f) \<and> fd_Name f \<noteq> ''id'' \<and>
     isValidLiteralForType (fd_Default f) (fd_Type f)"

definition wf_entity :: "entity_desc \<Rightarrow> bool" where
  "wf_entity e \<longleftrightarrow> valid_name (ed_Name e) \<and> list_all wf_field (ed_Fields e) \<and>
     distinct (map fd_Name (ed_Fields e))"

definition wf_var :: "var_desc \<Rightarrow> bool" where
  "wf_var v \<longleftrightarrow> valid_name (vd_Name v) \<and> isValidLiteralForType (vd_Default v) (vd_Type v)"

definition wf_resource :: "resource_desc \<Rightarrow> bool" where
  "wf_resource r \<longleftrightarrow> valid_name (rd_Name r) \<and> rd_Capacity r \<noteq> [] \<and> rd_SeizeNames r \<noteq> [] \<and>
     list_all valid_name (rd_SeizeNames r) \<and> rd_Seizes r = []"

definition wf_target :: "assignment_target \<Rightarrow> bool" where
  "wf_target t \<longleftrightarrow>
     (if at_IsEntityField t then valid_name (at_EntityName t) \<and> valid_name (at_FieldName t)
      else valid_name (at_VarName t))"

fun wf_params :: "block_params \<Rightarrow> bool" where
  "wf_params (CreateParams p) \<longleftrightarrow>
     valid_name (cp_EntityName p) \<and> cp_Interval p \<noteq> [] \<and> cp_Batch p \<noteq> [] \<and> valid_name (cp_NextName p) \<and>
     cp_Entity p = None \<and> cp_Next p = None"
| "wf_params (QueueParams p) \<longleftrightarrow>
     valid_name (qp_NextName p) \<and> (qp_HasTimeout p \<longleftrightarrow> qp_Timeout p \<noteq> []) \<and>
     (qp_NextTimeoutName p = [] \<or> valid_name (qp_NextTimeoutName p)) \<and>
     (qp_NextOverflowName p = [] \<or> valid_name (qp_NextOverflowName p)) \<and>
     (qp_ExitOnOverflow p \<longrightarrow> qp_NextOverflowName p \<noteq> [] \<and> \<not> qp_InfiniteCapacity p) \<and>
     (qp_InfiniteCapacity p \<longrightarrow> qp_Capacity p = []) \<and>
     qp_Next p = None \<and> qp_NextTimeout p = None \<and> qp_NextOverflow p = None"
| "wf_params (DelayParams p) \<longleftrightarrow>
     valid_name (dp_NextName p) \<and> dp_Duration p \<noteq> [] \<and> (dp_HasCapacity p \<longleftrightarrow> dp_Capacity p \<noteq> []) \<and>
     list_all valid_name (dp_WaitQueueNames p) \<and> dp_WaitQueues p = [] \<and> dp_Next p = None"
| "wf_params (SeizeParams p) \<longleftrightarrow>
     valid_name (sp_ResourceName p) \<and> valid_name (sp_NextName p) \<and>
     list_all valid_name (sp_WaitQueueNames p) \<and> sp_WaitQueues p = [] \<and>
     sp_Resource p = None \<and> sp_Next p = None"
| "wf_params (ReleaseParams p) \<longleftrightarrow>
     valid_name (rp_ResourceName p) \<and> valid_name (rp_NextName p) \<and>
     rp_Resource p = None \<and> rp_Next p = None"
| "wf_params (AssignParams p) \<longleftrightarrow>
     valid_name (ap_NextName p) \<and> ap_Next p = None \<and>
     list_all (\<lambda>a. wf_target (as_Target a) \<and> as_Expr a \<noteq> []) (ap_Assignments p)"
| "wf_params (BranchParams p) \<longleftrightarrow>
     (bp_Cases p \<noteq> [] \<or> bp_HasElse p) \<and> (bp_HasElse p \<longrightarrow> valid_name (bp_ElseName p)) \<and>
     list_all (\<lambda>c. valid_name (bc_NextName c) \<and> bc_Condition c \<noteq> [] \<and> bc_Next c = None) (bp_Cases p) \<and>
     bp_Else p = None"
| "wf_params TerminateParams \<longleftrightarrow> True"

definition wf_block :: "block_desc \<Rightarrow> bool" where
  "wf_block b \<longleftrightarrow> valid_name (bd_Name b) \<and> wf_params (bd_Params b)"

text \<open>The declarations read so far.\<close>

definition wf_decls :: "dsl_model \<Rightarrow> bool" where
  "wf_decls m \<longleftrightarrow> distinct (declared m) \<and> list_all wf_entity (m_Entities m) \<and>
     list_all wf_var (m_Vars m) \<and> list_all wf_resource (m_Resources m) \<and>
     list_all wf_block (m_Blocks m)"

definition wf_model :: "dsl_model \<Rightarrow> bool" where
  "wf_model m \<longleftrightarrow> wf_decls m \<and> length (m_Hash m) = 64 \<and> isHexText (m_Hash m) \<and>
     m_Entities m \<noteq> [] \<and> 2 \<le> length (m_Blocks m)"

section \<open>The contract\<close>

fun within :: "nat \<Rightarrow> parse_fail \<Rightarrow> bool" where
  "within n (ParseErr e) \<longleftrightarrow> pe_Line e \<le> n"
| "within n MakePanic \<longleftrightarrow> True"

definition ends :: "nat \<Rightarrow> ('a \<Rightarrow> bool) \<Rightarrow> parse_fail + 'a \<Rightarrow> bool" where
  "ends n Q r \<longleftrightarrow> (case r of Inl f \<Rightarrow> within n f | Inr v \<Rightarrow> Q v)"

text \<open>The result of a parser: a scanner over the same lines, and a value with a property.\<close>

abbreviation yields :: "nat \<Rightarrow> ('a \<Rightarrow> bool) \<Rightarrow> parse_fail + ('a \<times> line_scanner) \<Rightarrow> bool" where
  "yields n Q \<equiv> ends n (\<lambda>(x, s). over n s \<and> Q x)"

named_theorems parser_intros \<open>the contracts of the parsing functions\<close>

lemma ends_Inr [simp]: "ends n Q (Inr v) \<longleftrightarrow> Q v"
  by (simp add: ends_def)

lemma ends_parseErr [simp]: "over n s \<Longrightarrow> ends n Q (Inl (parseErr s e m))"
  by (simp add: ends_def parseErr_def over_bound)

lemma ends_bind:
  "ends n P r \<Longrightarrow> (\<And>v. P v \<Longrightarrow> ends n Q (f v)) \<Longrightarrow> ends n Q (bindE r f)"
  by (cases r) (simp_all add: ends_def)

lemma ends_bind_eq:
  "ends n P r \<Longrightarrow> (\<And>v. r = Inr v \<Longrightarrow> P v \<Longrightarrow> ends n Q (f v)) \<Longrightarrow> ends n Q (bindE r f)"
  by (cases r) (simp_all add: ends_def)

lemma yields_bind:
  "yields n P r \<Longrightarrow> (\<And>x s. over n s \<Longrightarrow> P x \<Longrightarrow> ends n Q (f (x, s))) \<Longrightarrow> ends n Q (bindE r f)"
  by (rule ends_bind [where P = "\<lambda>(x, s). over n s \<and> P x"]) auto

lemma ends_mono: "ends n P r \<Longrightarrow> (\<And>v. P v \<Longrightarrow> Q v) \<Longrightarrow> ends n Q r"
  by (cases r) (simp_all add: ends_def)

section \<open>The helpers keep the contract\<close>

lemma expectOpeningBrace_ok [parser_intros]:
  "over n s \<Longrightarrow> ends n (\<lambda>(_, s'). over n s') (expectOpeningBrace e s)"
  by (auto simp: expectOpeningBrace_def Let_def split_beta split: option.splits)

lemma expectNoExtra_ok [parser_intros]:
  "over n s \<Longrightarrow> ends n (\<lambda>(_, s'). over n s') (expectNoExtraAfterClosingBrace s)"
  by (auto simp: expectNoExtraAfterClosingBrace_def Let_def split_beta split: option.splits)

lemma expectClosingBrace_ok [parser_intros]:
  "over n s \<Longrightarrow> ends n (\<lambda>(_, s'). over n s') (expectClosingBrace s)"
  by (auto simp: expectClosingBrace_def Let_def split_beta
      intro!: expectNoExtra_ok)

lemma registerGlobalName_ok [parser_intros]:
  "over n s \<Longrightarrow> ends n (\<lambda>_. name \<notin> set (declared m)) (registerGlobalName m s name)"
  by (simp add: registerGlobalName_def Let_def by_name_defs by_name_None declared_def)

lemma validateName_ok [parser_intros]:
  "over n s \<Longrightarrow> ends n valid_name (validateName s t)"
  by (simp add: validateName_def valid_name_def)

lemma parseDefaultValue_ok [parser_intros]:
  "over n s \<Longrightarrow> yields n (\<lambda>d. isValidLiteralForType d t) (parseDefaultValue t s)"
  by (auto simp: parseDefaultValue_def Let_def default_value_valid split_beta
      split: option.splits)

lemma parseTypedValueSpec_ok [parser_intros]:
  assumes "over n s"
  shows "yields n (\<lambda>(name, t, d). valid_name name \<and> isValidLiteralForType d t)
           (parseTypedValueSpec w k s)"
  unfolding parseTypedValueSpec_def
proof (rule ends_bind [OF validateName_ok [OF assms]], goal_cases)
  case (1 name)
  with assms show ?case
    by (auto simp: Let_def split_beta split: option.splits
        intro!: yields_bind [OF parseDefaultValue_ok])
qed

text \<open>A loop over parameters keeps what its steps keep.\<close>

lemma param_loop_ok:
  assumes "over n s" and "I p"
    and step: "\<And>w s p. over n s \<Longrightarrow> I p \<Longrightarrow> ends n I (step w s p)"
    and close: "\<And>s p. over n s \<Longrightarrow> I p \<Longrightarrow> ends n Q (close s p)"
  shows "yields n Q (param_loop close step eof p s)"
  using assms
proof (induction close step eof p s rule: param_loop.induct)
  case (1 close step eof p s)
  obtain b s1 where scan: "ScanNoEmpty s = (b, s1)" by (cases "ScanNoEmpty s")
  obtain w s2 where word: "Word s1 = (w, s2)" by (cases "Word s1")
  have s1: "over n s1" using over_ScanNoEmpty [of n s] "1.prems"(1) scan by simp
  then have s2: "over n s2" using over_Word [of n s1] word by simp
  have closed: "yields n Q (bindE (expectNoExtraAfterClosingBrace s2) (\<lambda>(_, s3).
      bindE (close s3 p) (\<lambda>r. Inr (r, s3))))"
    by (rule ends_bind [OF expectNoExtra_ok [OF s2]])
      (auto intro!: ends_bind [OF "1.prems"(4)] "1.prems"(2))
  have next_param: "yields n Q (bindE (step (token_text w) s2 p) (\<lambda>p'. param_loop close step eof p' s2))"
    if "b" and "token_text w \<noteq> ''}''"
  proof (rule ends_bind_eq [OF "1.prems"(3) [OF s2 "1.prems"(2)]])
    fix p' assume "step (token_text w) s2 p = Inr p'" and "I p'"
    then show "yields n Q (param_loop close step eof p' s2)"
      using "1.IH" scan word that s2 "1.prems"(3,4) by (cases b) auto
  qed
  show ?case
    using closed next_param s1
    by (cases b) (simp_all add: param_loop.simps [of close step eof p s] scan word)
qed

section \<open>Entities, variables and resources\<close>

lemma parseEntityField_ok:
  "over n s \<Longrightarrow> yields n (\<lambda>f. valid_name (fd_Name f) \<and> isValidLiteralForType (fd_Default f) (fd_Type f))
     (parseEntityField w s)"
  unfolding parseEntityField_def
  by (rule yields_bind [OF parseTypedValueSpec_ok]) auto

lemma entity_step_ok:
  assumes "over n s" and "wf_entity e"
  shows "ends n wf_entity (entity_step w s e)"
  unfolding entity_step_def
  by (rule yields_bind [OF parseEntityField_ok [OF assms(1)]])
    (use assms(2) in \<open>simp add: wf_entity_def wf_field_def FieldByName_def by_name_None\<close>)

lemma parseEntity_ok:
  assumes "over n s"
  shows "yields n wf_entity (parseEntity s)"
proof -
  have loop: "yields n wf_entity (param_loop (\<lambda>_ e. Inr e) entity_step eof \<lparr>ed_Name = name, ed_Fields = []\<rparr> s')"
    if "over n s'" and "valid_name name" for eof name s'
    by (rule param_loop_ok [where I = wf_entity])
      (use that in \<open>auto simp: entity_step_ok wf_entity_def\<close>)
  show ?thesis
    using assms
    by (auto simp: parseEntity_def Let_def split_beta
        intro!: ends_bind [OF validateName_ok] ends_bind [OF expectOpeningBrace_ok] loop)
qed

lemma parseVar_ok:
  assumes "over n s"
  shows "yields n wf_var (parseVar s)"
  using assms
  by (auto simp: parseVar_def Let_def wf_var_def split_beta
      intro!: ends_bind [OF parseTypedValueSpec_ok])

lemma single_token_ok:
  "over n s \<Longrightarrow> yields n (\<lambda>v. v \<noteq> []) (single_token m w s)"
  using Word_nonempty [of s]
  by (auto simp: single_token_def Let_def split_beta split: option.splits)

definition resource_inv :: "resource_desc \<times> bool \<Rightarrow> bool" where
  "resource_inv p \<longleftrightarrow> valid_name (rd_Name (fst p)) \<and> list_all valid_name (rd_SeizeNames (fst p)) \<and>
     rd_Seizes (fst p) = [] \<and> (snd p \<longrightarrow> rd_Capacity (fst p) \<noteq> [])"

lemma resource_step_ok:
  "over n s \<Longrightarrow> resource_inv p \<Longrightarrow> ends n resource_inv (resource_step w s p)"
  by (auto simp: resource_step_def resource_inv_def Let_def split_beta
      intro!: ends_bind [OF single_token_ok] ends_bind [OF validateName_ok])

lemma resource_close_ok:
  "over n s \<Longrightarrow> resource_inv p \<Longrightarrow> ends n wf_resource (resource_close s p)"
  by (simp add: resource_close_def resource_inv_def wf_resource_def split_beta)

lemma parseResource_ok:
  assumes "over n s"
  shows "yields n wf_resource (parseResource s)"
proof -
  have loop: "yields n wf_resource (param_loop resource_close resource_step eof
      (\<lparr>rd_Name = name, rd_Capacity = [], rd_SeizeNames = [], rd_Seizes = []\<rparr>, False) s')"
    if "over n s'" and "valid_name name" for eof name s'
    by (rule param_loop_ok [where I = resource_inv])
      (use that in \<open>auto simp: resource_step_ok resource_close_ok resource_inv_def\<close>)
  show ?thesis
    using assms
    by (auto simp: parseResource_def Let_def split_beta
        intro!: ends_bind [OF validateName_ok] ends_bind [OF expectOpeningBrace_ok] loop)
qed

section \<open>Blocks\<close>

lemma readRequiredToken_ok:
  "over n s \<Longrightarrow> yields n (\<lambda>v. v \<noteq> []) (readRequiredToken param s)"
  using Word_nonempty [of s]
  by (auto simp: readRequiredToken_def Let_def split_beta split: option.splits)

lemma readRequiredName_ok:
  "over n s \<Longrightarrow> yields n valid_name (readRequiredName param s)"
  unfolding readRequiredName_def
  by (rule yields_bind [OF readRequiredToken_ok]) (auto intro!: ends_bind [OF validateName_ok])

lemma readRequiredExpr_ok:
  "over n s \<Longrightarrow> yields n (\<lambda>v. v \<noteq> []) (readRequiredExpr param s)"
  by (simp add: readRequiredExpr_def)

lemma readRequiredBool_ok: "over n s \<Longrightarrow> ends n (\<lambda>(_, s'). over n s') (readRequiredBool param s)"
  unfolding readRequiredBool_def
  by (rule yields_bind [OF readRequiredToken_ok]) auto

lemma readBlockingPolicy_ok: "over n s \<Longrightarrow> ends n (\<lambda>(_, s'). over n s') (readBlockingPolicy param s)"
  unfolding readBlockingPolicy_def
  by (rule yields_bind [OF readRequiredToken_ok]) auto

lemma readQueueDiscipline_ok: "over n s \<Longrightarrow> ends n (\<lambda>(_, s'). over n s') (readQueueDiscipline param s)"
  unfolding readQueueDiscipline_def
  by (rule yields_bind [OF readRequiredToken_ok]) auto

lemma parseUniqueParam_ok:
  assumes "over n s" and "yields n P (read param s)"
  shows "ends n (\<lambda>(v, h). P v \<and> h = param # has) (parseUniqueParam has read block param s)"
  using assms by (auto simp: parseUniqueParam_def intro!: ends_bind [OF assms(2)])

lemma unique_bool_ok:
  assumes "over n s" and "ends n (\<lambda>(_, s'). over n s') (read param s)"
  shows "ends n (\<lambda>(v, h). h = param # has) (parseUniqueParam has read block param s)"
  using assms by (auto simp: parseUniqueParam_def intro!: ends_bind [OF assms(2)])

lemmas unique_param_ok =
  ends_bind [OF parseUniqueParam_ok [OF _ readRequiredName_ok]]
  ends_bind [OF parseUniqueParam_ok [OF _ readRequiredExpr_ok]]
  ends_bind [OF unique_bool_ok [OF _ readRequiredBool_ok]]
  ends_bind [OF unique_bool_ok [OF _ readBlockingPolicy_ok]]
  ends_bind [OF unique_bool_ok [OF _ readQueueDiscipline_ok]]

lemma missing_param_ok [simp]: "over n s \<Longrightarrow> ends n Q (Inl (missing_param s b p))"
  by (simp add: missing_param_def)

lemma unknown_param_ok [simp]: "over n s \<Longrightarrow> ends n Q (Inl (unknown_param s b p))"
  by (simp add: unknown_param_def)

lemma ends_cond: "(c \<Longrightarrow> ends n Q a) \<Longrightarrow> (\<not> c \<Longrightarrow> ends n Q b) \<Longrightarrow> ends n Q (if c then a else b)"
  by simp

lemma valid_name_not_Nil: "valid_name v \<Longrightarrow> v \<noteq> []"
  by auto

lemma ends_branch: "ends n Q a \<Longrightarrow> ends n Q b \<Longrightarrow> ends n Q (if c then a else b)"
  by simp

definition create_inv :: "create_params \<times> string list \<Rightarrow> bool" where
  "create_inv ph \<longleftrightarrow> (case ph of (p, has) \<Rightarrow>
     (''entity'' \<in> set has \<longrightarrow> valid_name (cp_EntityName p)) \<and>
     (''interval'' \<in> set has \<longrightarrow> cp_Interval p \<noteq> []) \<and>
     (''next'' \<in> set has \<longrightarrow> valid_name (cp_NextName p)) \<and>
     cp_Batch p \<noteq> [] \<and> cp_Entity p = None \<and> cp_Next p = None)"

lemma create_step_ok:
  "over n s \<Longrightarrow> create_inv p \<Longrightarrow> ends n create_inv (create_step w s p)"
  unfolding create_step_def Let_def split_beta
  by (intro ends_branch unique_param_ok; simp add: create_inv_def split_beta)

lemma create_close_ok:
  "over n s \<Longrightarrow> create_inv p \<Longrightarrow> ends n (\<lambda>v. wf_params (CreateParams v)) (create_close s p)"
  by (simp add: create_close_def create_inv_def Let_def split_beta)

lemma parseCreateParams_ok:
  "over n s \<Longrightarrow> yields n (\<lambda>v. wf_params (CreateParams v)) (parseCreateParams s)"
  unfolding parseCreateParams_def
  by (rule param_loop_ok [OF _ _ create_step_ok create_close_ok]) (simp_all add: create_inv_def)

definition queue_inv :: "queue_params \<times> string list \<Rightarrow> bool" where
  "queue_inv ph \<longleftrightarrow> (case ph of (p, has) \<Rightarrow>
     (''next'' \<in> set has \<longrightarrow> valid_name (qp_NextName p)) \<and>
     (qp_HasTimeout p \<longleftrightarrow> qp_Timeout p \<noteq> []) \<and>
     (qp_NextTimeoutName p = [] \<or> valid_name (qp_NextTimeoutName p)) \<and>
     (qp_NextOverflowName p = [] \<or> valid_name (qp_NextOverflowName p)) \<and>
     (''next_overflow'' \<in> set has \<longrightarrow> qp_NextOverflowName p \<noteq> []) \<and>
     (qp_InfiniteCapacity p \<longrightarrow> ''capacity'' \<in> set has \<and> qp_Capacity p = []) \<and>
     qp_Next p = None \<and>
     qp_NextTimeout p = None \<and>
     qp_NextOverflow p = None)"

lemma queue_step_ok:
  "over n s \<Longrightarrow> queue_inv p \<Longrightarrow> ends n queue_inv (queue_step w s p)"
  unfolding queue_step_def Let_def split_beta
  by (intro ends_cond unique_param_ok; simp add: queue_inv_def split_beta valid_name_not_Nil)

lemma queue_close_ok:
  "over n s \<Longrightarrow> queue_inv p \<Longrightarrow> ends n (\<lambda>v. wf_params (QueueParams v)) (queue_close s p)"
  by (simp add: queue_close_def queue_inv_def Let_def split_beta)

lemma parseQueueParams_ok:
  "over n s \<Longrightarrow> yields n (\<lambda>v. wf_params (QueueParams v)) (parseQueueParams s)"
  unfolding parseQueueParams_def
  by (rule param_loop_ok [OF _ _ queue_step_ok queue_close_ok]) (simp_all add: queue_inv_def)

definition delay_inv :: "delay_params \<times> string list \<Rightarrow> bool" where
  "delay_inv ph \<longleftrightarrow> (case ph of (p, has) \<Rightarrow>
     (''next'' \<in> set has \<longrightarrow> valid_name (dp_NextName p)) \<and>
     (''duration'' \<in> set has \<longrightarrow> dp_Duration p \<noteq> []) \<and>
     (dp_HasCapacity p \<longleftrightarrow> dp_Capacity p \<noteq> []) \<and>
     list_all valid_name (dp_WaitQueueNames p) \<and>
     dp_WaitQueues p = [] \<and>
     dp_Next p = None)"

lemma delay_step_ok:
  "over n s \<Longrightarrow> delay_inv p \<Longrightarrow> ends n delay_inv (delay_step w s p)"
  unfolding delay_step_def Let_def split_beta
  by (intro ends_branch unique_param_ok ends_bind [OF readRequiredName_ok]; simp add: delay_inv_def split_beta)

lemma delay_close_ok:
  "over n s \<Longrightarrow> delay_inv p \<Longrightarrow> ends n (\<lambda>v. wf_params (DelayParams v)) (delay_close s p)"
  by (simp add: delay_close_def delay_inv_def Let_def split_beta)

lemma parseDelayParams_ok:
  "over n s \<Longrightarrow> yields n (\<lambda>v. wf_params (DelayParams v)) (parseDelayParams s)"
  unfolding parseDelayParams_def
  by (rule param_loop_ok [OF _ _ delay_step_ok delay_close_ok]) (simp_all add: delay_inv_def)

definition seize_inv :: "seize_params \<times> string list \<Rightarrow> bool" where
  "seize_inv ph \<longleftrightarrow> (case ph of (p, has) \<Rightarrow>
     (''resource'' \<in> set has \<longrightarrow> valid_name (sp_ResourceName p)) \<and>
     (''next'' \<in> set has \<longrightarrow> valid_name (sp_NextName p)) \<and>
     list_all valid_name (sp_WaitQueueNames p) \<and>
     sp_WaitQueues p = [] \<and>
     sp_Resource p = None \<and>
     sp_Next p = None)"

lemma seize_step_ok:
  "over n s \<Longrightarrow> seize_inv p \<Longrightarrow> ends n seize_inv (seize_step w s p)"
  unfolding seize_step_def Let_def split_beta
  by (intro ends_branch unique_param_ok ends_bind [OF readRequiredName_ok]; simp add: seize_inv_def split_beta)

lemma seize_close_ok:
  "over n s \<Longrightarrow> seize_inv p \<Longrightarrow> ends n (\<lambda>v. wf_params (SeizeParams v)) (seize_close s p)"
  by (simp add: seize_close_def seize_inv_def Let_def split_beta)

lemma parseSeizeParams_ok:
  "over n s \<Longrightarrow> yields n (\<lambda>v. wf_params (SeizeParams v)) (parseSeizeParams s)"
  unfolding parseSeizeParams_def
  by (rule param_loop_ok [OF _ _ seize_step_ok seize_close_ok]) (simp_all add: seize_inv_def)

definition release_inv :: "release_params \<times> string list \<Rightarrow> bool" where
  "release_inv ph \<longleftrightarrow> (case ph of (p, has) \<Rightarrow>
     (''resource'' \<in> set has \<longrightarrow> valid_name (rp_ResourceName p)) \<and>
     (''next'' \<in> set has \<longrightarrow> valid_name (rp_NextName p)) \<and>
     rp_Resource p = None \<and>
     rp_Next p = None)"

lemma release_step_ok:
  "over n s \<Longrightarrow> release_inv p \<Longrightarrow> ends n release_inv (release_step w s p)"
  unfolding release_step_def Let_def split_beta
  by (intro ends_branch unique_param_ok; simp add: release_inv_def split_beta)

lemma release_close_ok:
  "over n s \<Longrightarrow> release_inv p \<Longrightarrow> ends n (\<lambda>v. wf_params (ReleaseParams v)) (release_close s p)"
  by (simp add: release_close_def release_inv_def Let_def split_beta)

lemma parseReleaseParams_ok:
  "over n s \<Longrightarrow> yields n (\<lambda>v. wf_params (ReleaseParams v)) (parseReleaseParams s)"
  unfolding parseReleaseParams_def
  by (rule param_loop_ok [OF _ _ release_step_ok release_close_ok]) (simp_all add: release_inv_def)

lemma parseAssignmentTarget_ok:
  "over n s \<Longrightarrow> ends n wf_target (parseAssignmentTarget s raw)"
  unfolding parseAssignmentTarget_def Let_def
  by (auto simp: wf_target_def split: option.splits intro!: ends_bind [OF validateName_ok])

lemma parseAssignment_ok:
  "over n s \<Longrightarrow> ends n (\<lambda>a. wf_target (as_Target a) \<and> as_Expr a \<noteq> []) (parseAssignment s)"
  unfolding parseAssignment_def Let_def
  by (auto split: option.splits intro!: ends_bind [OF parseAssignmentTarget_ok])

definition assign_inv :: "assign_params \<times> string list \<Rightarrow> bool" where
  "assign_inv ph \<longleftrightarrow> (case ph of (p, has) \<Rightarrow>
     (''next'' \<in> set has \<longrightarrow> valid_name (ap_NextName p)) \<and>
     ap_Next p = None \<and>
     list_all (\<lambda>a. wf_target (as_Target a) \<and> as_Expr a \<noteq> []) (ap_Assignments p))"

lemma assign_step_ok:
  "over n s \<Longrightarrow> assign_inv p \<Longrightarrow> ends n assign_inv (assign_step w s p)"
  unfolding assign_step_def Let_def split_beta
  by (intro ends_branch unique_param_ok ends_bind [OF parseAssignment_ok]; simp add: assign_inv_def split_beta)

lemma assign_close_ok:
  "over n s \<Longrightarrow> assign_inv p \<Longrightarrow> ends n (\<lambda>v. wf_params (AssignParams v)) (assign_close s p)"
  by (simp add: assign_close_def assign_inv_def Let_def split_beta)

lemma parseAssignParams_ok:
  "over n s \<Longrightarrow> yields n (\<lambda>v. wf_params (AssignParams v)) (parseAssignParams s)"
  unfolding parseAssignParams_def
  by (rule param_loop_ok [OF _ _ assign_step_ok assign_close_ok]) (simp_all add: assign_inv_def)

lemma splitColon_ok: "over n s \<Longrightarrow> ends n (\<lambda>_. True) (splitColon s l)"
  by (auto simp: splitColon_def Let_def split: option.splits)

lemma parseBranchCase_ok:
  "over n s \<Longrightarrow> ends n (\<lambda>c. valid_name (bc_NextName c) \<and> bc_Condition c \<noteq> [] \<and> bc_Next c = None)
     (parseBranchCase s)"
  unfolding parseBranchCase_def
  by (rule ends_bind [OF splitColon_ok]) (auto intro!: ends_bind [OF validateName_ok])

lemma parseBranchElse_ok: "over n s \<Longrightarrow> ends n valid_name (parseBranchElse s)"
  unfolding parseBranchElse_def
  by (rule ends_bind [OF splitColon_ok]) (auto intro!: validateName_ok)

definition branch_inv :: "branch_params \<Rightarrow> bool" where
  "branch_inv p \<longleftrightarrow> (bp_HasElse p \<longrightarrow> valid_name (bp_ElseName p)) \<and>
     list_all (\<lambda>c. valid_name (bc_NextName c) \<and> bc_Condition c \<noteq> [] \<and> bc_Next c = None) (bp_Cases p) \<and>
     bp_Else p = None"

lemma branch_step_ok:
  "over n s \<Longrightarrow> branch_inv p \<Longrightarrow> ends n branch_inv (branch_step w s p)"
  unfolding branch_step_def
  by (intro ends_branch ends_bind [OF parseBranchCase_ok] ends_bind [OF parseBranchElse_ok];
      simp add: branch_inv_def)

lemma branch_close_ok:
  "over n s \<Longrightarrow> branch_inv p \<Longrightarrow> ends n (\<lambda>v. wf_params (BranchParams v)) (branch_close s p)"
  by (simp add: branch_close_def branch_inv_def)

lemma parseBranchParams_ok:
  "over n s \<Longrightarrow> yields n (\<lambda>v. wf_params (BranchParams v)) (parseBranchParams s)"
  unfolding parseBranchParams_def
  by (rule param_loop_ok [OF _ _ branch_step_ok branch_close_ok]) (simp_all add: branch_inv_def)

lemma tagged_ok:
  "yields n (\<lambda>v. P (c v)) (p s) \<Longrightarrow> yields n P (tagged c p s)"
  unfolding tagged_def by (erule ends_bind) auto

lemma parseTerminateParams_ok: "over n s \<Longrightarrow> yields n wf_params (parseTerminateParams s)"
  unfolding parseTerminateParams_def by (rule ends_bind [OF expectClosingBrace_ok]) auto

lemma parse_params_ok: "over n s \<Longrightarrow> yields n wf_params (parse_params t s)"
  unfolding parse_params_def
  by (intro ends_branch tagged_ok parseCreateParams_ok parseQueueParams_ok parseDelayParams_ok
      parseSeizeParams_ok parseReleaseParams_ok parseTerminateParams_ok parseAssignParams_ok
      parseBranchParams_ok ends_parseErr)

lemma parseBlock_ok:
  assumes "over n s"
  shows "yields n wf_block (parseBlock s)"
  using assms
  by (auto simp: parseBlock_def Let_def split_beta wf_block_def split: option.splits
      intro!: ends_bind [OF validateName_ok] ends_bind [OF expectOpeningBrace_ok]
        ends_bind [OF parse_params_ok])

section \<open>Sections\<close>

text \<open>
  What \<open>parseSection\<close> relies on: the parser of a declaration keeps the contract, and a
  well-formed declaration with a new name may be added to the model.
\<close>

locale section_parser =
  fixes parse :: "'a parser" and getName :: "'a \<Rightarrow> string"
    and add :: "'a \<Rightarrow> dsl_model \<Rightarrow> dsl_model" and wf :: "'a \<Rightarrow> bool"
  assumes parse_ok: "over n s \<Longrightarrow> yields n wf (parse s)"
    and add_ok: "wf_decls m \<Longrightarrow> wf x \<Longrightarrow> getName x \<notin> set (declared m) \<Longrightarrow> wf_decls (add x m)"
begin

text \<open>A section of \<open>k\<close> adds exactly \<open>k\<close> declarations.\<close>

lemma section_ok:
  assumes "over n s" and "wf_decls m"
  shows "yields n (\<lambda>m'. wf_decls m' \<and> (\<exists>xs. length xs = k \<and> m' = fold add xs m))
           (parseSection parse getName add k m s)"
  using assms
proof (induction k arbitrary: m s)
  case 0
  then show ?case
    by (auto intro!: ends_bind [OF expectClosingBrace_ok])
next
  case (Suc k)
  show ?case
    unfolding parseSection.simps
  proof (rule yields_bind [OF parse_ok [OF Suc.prems(1)]], simp only: split, rule ends_bind)
    fix x s1 assume s1: "over n s1" and x: "wf x"
    show "ends n (\<lambda>_. getName x \<notin> set (declared m)) (registerGlobalName m s1 (getName x))"
      by (rule registerGlobalName_ok [OF s1])
    assume "getName x \<notin> set (declared m)"
    with Suc.prems(2) x have "wf_decls (add x m)" by (rule add_ok)
    from Suc.IH [OF s1 this]
    show "yields n (\<lambda>m'. wf_decls m' \<and> (\<exists>xs. length xs = Suc k \<and> m' = fold add xs m))
        (parseSection parse getName add k (add x m) s1)"
      by (rule ends_mono) (auto intro: exI [where x = "x # _"])
  qed
qed

end

interpretation entity: section_parser parseEntity ed_Name add_entity wf_entity
  by unfold_locales (auto simp: parseEntity_ok wf_decls_def add_entity_def declared_def)

interpretation var: section_parser parseVar vd_Name add_var wf_var
  by unfold_locales (auto simp: parseVar_ok wf_decls_def add_var_def declared_def)

interpretation resource: section_parser parseResource rd_Name add_resource wf_resource
  by unfold_locales (auto simp: parseResource_ok wf_decls_def add_resource_def declared_def)

interpretation block: section_parser parseBlock bd_Name add_block wf_block
  by unfold_locales (auto simp: parseBlock_ok wf_decls_def add_block_def declared_def)

text \<open>What the sections leave of the rest of the model.\<close>

lemma fold_add_entity: "fold add_entity xs m = m\<lparr>m_Entities := m_Entities m @ xs\<rparr>"
  by (induction xs arbitrary: m) (simp_all add: add_entity_def)

lemma fold_add_var: "fold add_var xs m = m\<lparr>m_Vars := m_Vars m @ xs\<rparr>"
  by (induction xs arbitrary: m) (simp_all add: add_var_def)

lemma fold_add_resource: "fold add_resource xs m = m\<lparr>m_Resources := m_Resources m @ xs\<rparr>"
  by (induction xs arbitrary: m) (simp_all add: add_resource_def)

lemma fold_add_block: "fold add_block xs m = m\<lparr>m_Blocks := m_Blocks m @ xs\<rparr>"
  by (induction xs arbitrary: m) (simp_all add: add_block_def)

lemmas section_adds = fold_add_entity fold_add_var fold_add_resource fold_add_block

section \<open>The whole text\<close>

lemma parseHash_ok:
  "over n s \<Longrightarrow> yields n (\<lambda>m. length (m_Hash m) = 64 \<and> isHexText (m_Hash m) \<and> wf_decls m)
     (parseHash NewModel s)"
  by (simp add: parseHash_def Let_def split_beta NewModel_def wf_decls_def declared_def)

lemma parseSectionHeader_ok:
  "over n s \<Longrightarrow> ends n (\<lambda>(_, s'). over n s') (parseSectionHeader name s)"
  by (auto simp: parseSectionHeader_def Let_def split_beta split: option.splits
      intro!: ends_bind [OF expectOpeningBrace_ok])

lemma make_slice_ok: "ends n (\<lambda>_. 0 \<le> c) (make_slice c)"
  by (simp add: make_slice_def ends_def)

lemma count_below_ok: "over n s \<Longrightarrow> ends n (\<lambda>_. limit \<le> c) (count_below limit what c s)"
  by (simp add: count_below_def)

text \<open>
  Each section adds as many declarations as its header says and leaves the hash alone.
\<close>

lemma entities_ok:
  "over n s \<Longrightarrow> wf_decls m \<Longrightarrow>
     yields n (\<lambda>m'. wf_decls m' \<and> m_Hash m' = m_Hash m \<and>
                 length (m_Entities m') = length (m_Entities m) + k)
       (parseEntitySection k m s)"
  unfolding parseEntitySection_def
  by (rule ends_mono [OF entity.section_ok]) (auto simp: section_adds)

lemma vars_ok:
  "over n s \<Longrightarrow> wf_decls m \<Longrightarrow>
     yields n (\<lambda>m'. wf_decls m' \<and> m_Hash m' = m_Hash m \<and> m_Entities m' = m_Entities m)
       (parseVarSection k m s)"
  unfolding parseVarSection_def
  by (rule ends_mono [OF var.section_ok]) (auto simp: section_adds)

lemma resources_ok:
  "over n s \<Longrightarrow> wf_decls m \<Longrightarrow>
     yields n (\<lambda>m'. wf_decls m' \<and> m_Hash m' = m_Hash m \<and> m_Entities m' = m_Entities m)
       (parseResourceSection k m s)"
  unfolding parseResourceSection_def
  by (rule ends_mono [OF resource.section_ok]) (auto simp: section_adds)

lemma blocks_ok:
  "over n s \<Longrightarrow> wf_decls m \<Longrightarrow>
     yields n (\<lambda>m'. wf_decls m' \<and> m_Hash m' = m_Hash m \<and> m_Entities m' = m_Entities m \<and>
                 k \<le> length (m_Blocks m'))
       (parseBlockSection k m s)"
  unfolding parseBlockSection_def
  by (rule ends_mono [OF block.section_ok]) (auto simp: section_adds)

lemma Parse_ends: "ends (line_count data) wf_model (Parse data)"
  unfolding Parse_def
proof (rule yields_bind [OF parseHash_ok [OF over_new]], simp only: split,
    rule ends_bind [OF parseSectionHeader_ok], assumption, simp only: split_beta,
    rule ends_bind [OF count_below_ok], assumption,
    rule ends_bind [OF make_slice_ok],
    rule ends_bind [OF entities_ok], assumption, simp, simp only: split_beta,
    rule ends_bind [OF parseSectionHeader_ok], simp, simp only: split_beta,
    rule ends_bind [OF make_slice_ok],
    rule ends_bind [OF vars_ok], assumption, simp, simp only: split_beta,
    rule ends_bind [OF parseSectionHeader_ok], simp, simp only: split_beta,
    rule ends_bind [OF make_slice_ok],
    rule ends_bind [OF resources_ok], assumption, simp, simp only: split_beta,
    rule ends_bind [OF parseSectionHeader_ok], simp, simp only: split_beta,
    rule ends_bind [OF count_below_ok], assumption,
    rule ends_bind [OF make_slice_ok],
    rule ends_bind [OF blocks_ok], assumption, simp, simp only: split_beta Let_def,
    goal_cases)
  case 1
  then show ?case by (auto simp: wf_model_def)
qed

section \<open>Sample texts\<close>

definition text_of :: "string list \<Rightarrow> string" where
  "text_of ls = concat (map (\<lambda>l. l @ [CHR 0x0A]) ls)"

definition demo_text :: string where
  "demo_text = text_of
    [replicate 64 (CHR ''a''),
     ''ENTITY 1 {'', ''car {'', ''age int64 5'', ''}'', ''}'',
     ''VAR 0 {'', ''}'', ''RESOURCE 0 {'', ''}'',
     ''BLOCK 4 {'',
     ''CREATE src {'', ''entity car'', ''interval 1'', ''next q'', ''}'',
     ''QUEUE q {'', ''capacity infinity'', ''next d'', ''}'',
     ''DELAY d {'', ''duration 2'', ''wait_queue q'', ''next out'', ''}'',
     ''TERMINATE out {'', ''}'', ''}'']"

definition demo_model :: dsl_model where
  "demo_model =
     \<lparr>m_Hash = replicate 64 (CHR ''a''),
      m_Entities = [\<lparr>ed_Name = ''car'',
        ed_Fields = [\<lparr>fd_Name = ''age'', fd_Type = ValueInt64, fd_Default = ''5''\<rparr>]\<rparr>],
      m_Vars = [], m_Resources = [],
      m_Blocks =
        [\<lparr>bd_Name = ''src'', bd_Params = CreateParams
            \<lparr>cp_EntityName = ''car'', cp_Entity = None, cp_Interval = ''1'',
             cp_Immediately = False, cp_Batch = ''1'', cp_BlockingPolicy = BlockingPolicyError,
             cp_NextName = ''q'', cp_Next = None\<rparr>\<rparr>,
         \<lparr>bd_Name = ''q'', bd_Params = QueueParams
            \<lparr>qp_InfiniteCapacity = True, qp_Capacity = [], qp_Discipline = QueueDisciplineFIFO,
             qp_Timeout = [], qp_HasTimeout = False, qp_NextTimeoutName = [],
             qp_NextTimeout = None, qp_ExitOnOverflow = False, qp_NextOverflowName = [],
             qp_NextOverflow = None, qp_NextName = ''d'', qp_Next = None\<rparr>\<rparr>,
         \<lparr>bd_Name = ''d'', bd_Params = DelayParams
            \<lparr>dp_Duration = ''2'', dp_Capacity = [], dp_HasCapacity = False,
             dp_WaitQueueNames = [''q''], dp_WaitQueues = [], dp_NextName = ''out'',
             dp_Next = None\<rparr>\<rparr>,
         \<lparr>bd_Name = ''out'', bd_Params = TerminateParams\<rparr>]\<rparr>"

lemma demo_parses: "Parse demo_text = Inr demo_model"
  by code_simp

text \<open>
  A section count of \<open>2 ^ 63\<close> passes \<open>ParseUint\<close> and turns negative as an \<open>int\<close>: the text
  below makes \<open>make\<close> panic, where every other bad count is an error.
\<close>

definition panic_text :: string where
  "panic_text = text_of
    [replicate 64 (CHR ''a''), ''ENTITY 1 {'', ''car {'', ''}'', ''}'',
     ''VAR 9223372036854775808 {'', ''}'']"

lemma parse_count_panics: "Parse panic_text = Inl MakePanic"
  by code_simp

section \<open>Properties\<close>




definition short_text :: string where
  "short_text = text_of [[], replicate 64 (CHR ''a''), ''ENTITY x {'']"

definition short_error :: parse_error where
  "short_error = \<lparr>pe_Line = 3, pe_Err = ErrIncorrectFormat,
     pe_Msg = msg [''expected non-negative count, got '', quoted ''x'']\<rparr>"

lemma short_text_fails: "Parse short_text = Inl (ParseErr short_error)"
  by code_simp


end
