(* ===== verification/Dsl_Validate_Correct.thy ===== *)
theory Dsl_Validate_Correct
  imports Dsl_Validate Dsl_Parse_Correct
begin

text \<open>
  What validation promises: it accepts a model exactly when the references of the model are
  sound, and returns it with every pointer set to what its name refers to. The search for
  wait targets is reachability through ASSIGN and BRANCH blocks.
\<close>

section \<open>Sound models\<close>

definition has_entity :: "dsl_model \<Rightarrow> string \<Rightarrow> bool" where
  "has_entity m n \<longleftrightarrow> n \<in> ed_Name ` set (m_Entities m)"

definition has_block :: "dsl_model \<Rightarrow> string \<Rightarrow> bool" where
  "has_block m n \<longleftrightarrow> n \<in> bd_Name ` set (m_Blocks m)"

definition is_queue :: "dsl_model \<Rightarrow> string \<Rightarrow> bool" where
  "is_queue m n \<longleftrightarrow> (\<exists>p. \<lparr>bd_Name = n, bd_Params = QueueParams p\<rparr> \<in> set (m_Blocks m))"

definition target_declared :: "dsl_model \<Rightarrow> assignment_target \<Rightarrow> bool" where
  "target_declared m t \<longleftrightarrow>
     (if at_IsEntityField t
      then \<exists>e\<in>set (m_Entities m). ed_Name e = at_EntityName t \<and> at_FieldName t \<in> fd_Name ` set (ed_Fields e)
      else at_VarName t \<in> vd_Name ` set (m_Vars m))"

text \<open>The references of a block named \<open>n\<close>.\<close>

fun refs_sound :: "dsl_model \<Rightarrow> string \<Rightarrow> block_params \<Rightarrow> bool" where
  "refs_sound m n (CreateParams p) \<longleftrightarrow> has_entity m (cp_EntityName p) \<and> has_block m (cp_NextName p)"
| "refs_sound m n (QueueParams p) \<longleftrightarrow>
     has_block m (qp_NextName p) \<and>
     (qp_HasTimeout p \<longleftrightarrow> qp_NextTimeoutName p \<noteq> []) \<and>
     (qp_HasTimeout p \<longrightarrow> has_block m (qp_NextTimeoutName p)) \<and>
     (qp_ExitOnOverflow p \<longleftrightarrow> qp_NextOverflowName p \<noteq> []) \<and>
     (qp_ExitOnOverflow p \<longrightarrow> has_block m (qp_NextOverflowName p))"
| "refs_sound m n (DelayParams p) \<longleftrightarrow>
     has_block m (dp_NextName p) \<and> list_all (is_queue m) (dp_WaitQueueNames p)"
| "refs_sound m n (SeizeParams p) \<longleftrightarrow>
     (\<exists>r\<in>set (m_Resources m). rd_Name r = sp_ResourceName p \<and> n \<in> set (rd_SeizeNames r)) \<and>
     has_block m (sp_NextName p) \<and> list_all (is_queue m) (sp_WaitQueueNames p)"
| "refs_sound m n (ReleaseParams p) \<longleftrightarrow>
     rp_ResourceName p \<in> rd_Name ` set (m_Resources m) \<and> has_block m (rp_NextName p)"
| "refs_sound m n (AssignParams p) \<longleftrightarrow>
     has_block m (ap_NextName p) \<and> list_all (\<lambda>a. target_declared m (as_Target a)) (ap_Assignments p)"
| "refs_sound m n (BranchParams p) \<longleftrightarrow>
     list_all (\<lambda>c. has_block m (bc_NextName c)) (bp_Cases p) \<and>
     (bp_HasElse p \<longrightarrow> has_block m (bp_ElseName p))"
| "refs_sound m n TerminateParams \<longleftrightarrow> True"

definition seizes_sound :: "dsl_model \<Rightarrow> resource_desc \<Rightarrow> bool" where
  "seizes_sound m r \<longleftrightarrow>
     list_all (\<lambda>s. \<exists>p. \<lparr>bd_Name = s, bd_Params = SeizeParams p\<rparr> \<in> set (m_Blocks m) \<and>
                       sp_ResourceName p = rd_Name r) (rd_SeizeNames r)"

text \<open>An entity that enters block \<open>x\<close> may go on to block \<open>y\<close> at once.\<close>

inductive passes :: "dsl_model \<Rightarrow> string \<Rightarrow> string \<Rightarrow> bool" for m where
  passes_assign:
    "\<lparr>bd_Name = x, bd_Params = AssignParams p\<rparr> \<in> set (m_Blocks m) \<Longrightarrow> passes m x (ap_NextName p)"
| passes_case:
    "\<lparr>bd_Name = x, bd_Params = BranchParams p\<rparr> \<in> set (m_Blocks m) \<Longrightarrow> c \<in> set (bp_Cases p) \<Longrightarrow>
     passes m x (bc_NextName c)"
| passes_else:
    "\<lparr>bd_Name = x, bd_Params = BranchParams p\<rparr> \<in> set (m_Blocks m) \<Longrightarrow> bp_HasElse p \<Longrightarrow>
     passes m x (bp_ElseName p)"

inductive_simps passes_iff: "passes m x y"

fun wait_queues :: "block_params \<Rightarrow> string list" where
  "wait_queues (DelayParams p) = dp_WaitQueueNames p"
| "wait_queues (SeizeParams p) = sp_WaitQueueNames p"
| "wait_queues _ = []"

definition waits_sound :: "dsl_model \<Rightarrow> block_desc \<Rightarrow> bool" where
  "waits_sound m b \<longleftrightarrow>
     (\<forall>q p. q \<in> set (wait_queues (bd_Params b)) \<longrightarrow>
        \<lparr>bd_Name = q, bd_Params = QueueParams p\<rparr> \<in> set (m_Blocks m) \<longrightarrow>
        (passes m)\<^sup>*\<^sup>* (qp_NextName p) (bd_Name b))"

definition sound_model :: "dsl_model \<Rightarrow> bool" where
  "sound_model m \<longleftrightarrow>
     (\<exists>b\<in>set (m_Blocks m). \<exists>p. bd_Params b = CreateParams p) \<and>
     (\<exists>b\<in>set (m_Blocks m). bd_Params b = TerminateParams) \<and>
     (\<forall>b\<in>set (m_Blocks m). refs_sound m (bd_Name b) (bd_Params b)) \<and>
     (\<forall>r\<in>set (m_Resources m). seizes_sound m r) \<and>
     (\<forall>b\<in>set (m_Blocks m). waits_sound m b)"

text \<open>The model with its pointers set.\<close>

fun linked_params :: "block_params \<Rightarrow> block_params" where
  "linked_params (CreateParams p) =
     CreateParams (p\<lparr>cp_Entity := Some (cp_EntityName p), cp_Next := Some (cp_NextName p)\<rparr>)"
| "linked_params (QueueParams p) =
     QueueParams (p\<lparr>qp_Next := Some (qp_NextName p),
       qp_NextTimeout := (if qp_HasTimeout p then Some (qp_NextTimeoutName p) else qp_NextTimeout p),
       qp_NextOverflow := (if qp_ExitOnOverflow p then Some (qp_NextOverflowName p)
                           else qp_NextOverflow p)\<rparr>)"
| "linked_params (DelayParams p) =
     DelayParams (p\<lparr>dp_Next := Some (dp_NextName p), dp_WaitQueues := dp_WaitQueueNames p\<rparr>)"
| "linked_params (SeizeParams p) =
     SeizeParams (p\<lparr>sp_Resource := Some (sp_ResourceName p), sp_Next := Some (sp_NextName p),
       sp_WaitQueues := sp_WaitQueueNames p\<rparr>)"
| "linked_params (ReleaseParams p) =
     ReleaseParams (p\<lparr>rp_Resource := Some (rp_ResourceName p), rp_Next := Some (rp_NextName p)\<rparr>)"
| "linked_params (AssignParams p) = AssignParams (p\<lparr>ap_Next := Some (ap_NextName p)\<rparr>)"
| "linked_params (BranchParams p) =
     BranchParams (p\<lparr>bp_Cases := map (\<lambda>c. c\<lparr>bc_Next := Some (bc_NextName c)\<rparr>) (bp_Cases p),
       bp_Else := (if bp_HasElse p then Some (bp_ElseName p) else bp_Else p)\<rparr>)"
| "linked_params TerminateParams = TerminateParams"

definition linked_block :: "block_desc \<Rightarrow> block_desc" where
  "linked_block b = b\<lparr>bd_Params := linked_params (bd_Params b)\<rparr>"

definition linked_model :: "dsl_model \<Rightarrow> dsl_model" where
  "linked_model m = m\<lparr>m_Blocks := map linked_block (m_Blocks m),
     m_Resources := map (\<lambda>r. r\<lparr>rd_Seizes := rd_SeizeNames r\<rparr>) (m_Resources m)\<rparr>"

section \<open>References\<close>

lemma traverseE_iff:
  assumes "\<And>x y. x \<in> set xs \<Longrightarrow> f x = Inr y \<longleftrightarrow> P x \<and> y = g x"
  shows "traverseE f xs = Inr ys \<longleftrightarrow> list_all P xs \<and> ys = map g xs"
  using assms by (induction xs arbitrary: ys) auto

lemma map_sum_Inr: "map_sum f g r = Inr y \<longleftrightarrow> (\<exists>x. r = Inr x \<and> y = g x)"
  by (cases r) auto

lemma block_named:
  assumes "distinct (declared m)"
  shows "BlockByName m n = Some b \<longleftrightarrow> b \<in> set (m_Blocks m) \<and> bd_Name b = n"
  using assms by_name_mem [of bd_Name "m_Blocks m" b]
  by (auto simp: BlockByName_def declared_def dest: by_name_Some)

lemma resource_named:
  assumes "distinct (declared m)"
  shows "ResourceByName m n = Some r \<longleftrightarrow> r \<in> set (m_Resources m) \<and> rd_Name r = n"
  using assms by_name_mem [of rd_Name "m_Resources m" r]
  by (auto simp: ResourceByName_def declared_def dest: by_name_Some)

lemma entity_named:
  assumes "distinct (declared m)"
  shows "EntityByName m n = Some e \<longleftrightarrow> e \<in> set (m_Entities m) \<and> ed_Name e = n"
  using assms by_name_mem [of ed_Name "m_Entities m" e]
  by (auto simp: EntityByName_def declared_def dest: by_name_Some)

text \<open>Lookups, by whether the name is declared.\<close>

lemma has_block_lookup: "has_block m n \<longleftrightarrow> (\<exists>b. BlockByName m n = Some b)"
  unfolding has_block_def BlockByName_def by (rule by_name_ex)

lemma has_entity_lookup: "has_entity m n \<longleftrightarrow> (\<exists>e. EntityByName m n = Some e)"
  unfolding has_entity_def EntityByName_def by (rule by_name_ex)

lemma block_found: "BlockByName m n = Some b \<Longrightarrow> b \<in> set (m_Blocks m) \<and> bd_Name b = n"
  by (auto simp: BlockByName_def dest: by_name_Some)

lemma entity_found: "EntityByName m n = Some e \<Longrightarrow> e \<in> set (m_Entities m) \<and> ed_Name e = n"
  by (auto simp: EntityByName_def dest: by_name_Some)

lemma requireBlock_Inr [simp]: "requireBlock m o' p n = Inr b \<longleftrightarrow> BlockByName m n = Some b"
  by (auto simp: requireBlock_def split: option.splits)

text \<open>A required block is a declared name, and the pointer to it is that name.\<close>

lemma block_pointer:
  "(\<exists>b. BlockByName m n = Some b \<and> x = Some (bd_Name b)) \<longleftrightarrow> has_block m n \<and> x = Some n"
  unfolding has_block_lookup using block_found by blast

lemma block_pointer_if:
  "(if c then bindE (requireBlock m o' p n) (\<lambda>b. Inr (Some (bd_Name b))) else Inr y) = Inr x \<longleftrightarrow>
     (c \<longrightarrow> has_block m n) \<and> x = (if c then Some n else y)"
  using block_pointer [of m n x] by auto

lemma create_iff:
  "validateAndLinkCreate m n p = Inr p' \<longleftrightarrow>
     refs_sound m n (CreateParams p) \<and> CreateParams p' = linked_params (CreateParams p)"
  using block_found [of m "cp_NextName p"] entity_found [of m "cp_EntityName p"]
  by (auto simp: validateAndLinkCreate_def has_block_lookup has_entity_lookup split: option.splits)

lemma queue_iff:
  "validateAndLinkQueue m n p = Inr p' \<longleftrightarrow>
     refs_sound m n (QueueParams p) \<and> QueueParams p' = linked_params (QueueParams p)"
  using block_found [of m "qp_NextName p"]
  by (auto simp: validateAndLinkQueue_def block_pointer_if has_block_lookup [of m "qp_NextName p"])

lemma is_queue_lookup:
  assumes "distinct (declared m)"
  shows "is_queue m n \<longleftrightarrow> (\<exists>b q. BlockByName m n = Some b \<and> bd_Params b = QueueParams q)"
proof
  assume "is_queue m n"
  then obtain q where "\<lparr>bd_Name = n, bd_Params = QueueParams q\<rparr> \<in> set (m_Blocks m)"
    by (auto simp: is_queue_def)
  then have "BlockByName m n = Some \<lparr>bd_Name = n, bd_Params = QueueParams q\<rparr>"
    by (simp add: block_named [OF assms])
  then show "\<exists>b q. BlockByName m n = Some b \<and> bd_Params b = QueueParams q" by auto
next
  assume "\<exists>b q. BlockByName m n = Some b \<and> bd_Params b = QueueParams q"
  then obtain b q where b: "b \<in> set (m_Blocks m)" "bd_Name b = n" "bd_Params b = QueueParams q"
    using block_found by blast
  then have "b = \<lparr>bd_Name = n, bd_Params = QueueParams q\<rparr>" by simp
  with b(1) show "is_queue m n" by (auto simp: is_queue_def)
qed

lemma require_queue:
  "requireQueueBlock m o' p n = Inr b \<longleftrightarrow>
     BlockByName m n = Some b \<and> (\<exists>q. bd_Params b = QueueParams q)"
proof (cases "BlockByName m n")
  case None
  then show ?thesis by (auto simp: requireQueueBlock_def)
next
  case (Some b')
  then have "requireBlock m o' p n = Inr b'" by simp
  with Some show ?thesis
    by (cases "bd_Params b'") (auto simp: requireQueueBlock_def simp del: requireBlock_Inr)
qed

lemma require_seize:
  "requireSeizeBlock m o' p n = Inr (b, s) \<longleftrightarrow>
     BlockByName m n = Some b \<and> bd_Params b = SeizeParams s"
proof (cases "BlockByName m n")
  case None
  then show ?thesis by (auto simp: requireSeizeBlock_def)
next
  case (Some b')
  then have "requireBlock m o' p n = Inr b'" by simp
  with Some show ?thesis
    by (cases "bd_Params b'") (auto simp: requireSeizeBlock_def simp del: requireBlock_Inr)
qed

lemma link_wait_queues_iff:
  assumes "distinct (declared m)"
  shows "link_wait_queues m n qs = Inr ys \<longleftrightarrow> list_all (is_queue m) qs \<and> ys = qs"
proof -
  have "bindE (requireQueueBlock m n ''wait_queue'' q) (\<lambda>b. Inr (bd_Name b)) = Inr y \<longleftrightarrow>
      is_queue m q \<and> y = q" for q y
    using block_found [of m q] by (auto simp: require_queue is_queue_lookup [OF assms])
  then have "link_wait_queues m n qs = Inr ys \<longleftrightarrow> list_all (is_queue m) qs \<and> ys = map (\<lambda>q. q) qs"
    unfolding link_wait_queues_def by (intro traverseE_iff)
  then show ?thesis by simp
qed

lemma delay_iff:
  assumes "distinct (declared m)"
  shows "validateAndLinkDelay m n p = Inr p' \<longleftrightarrow>
     refs_sound m n (DelayParams p) \<and> DelayParams p' = linked_params (DelayParams p)"
  using block_found [of m "dp_NextName p"]
  by (auto simp: validateAndLinkDelay_def has_block_lookup link_wait_queues_iff [OF assms])

lemma seize_iff:
  assumes "distinct (declared m)"
  shows "validateAndLinkSeize m n p = Inr p' \<longleftrightarrow>
     refs_sound m n (SeizeParams p) \<and> SeizeParams p' = linked_params (SeizeParams p)"
proof (cases "ResourceByName m (sp_ResourceName p)")
  case None
  then have "\<forall>r\<in>set (m_Resources m). rd_Name r \<noteq> sp_ResourceName p"
    by (simp add: ResourceByName_def by_name_def find_None_iff)
  with None show ?thesis by (auto simp: validateAndLinkSeize_def)
next
  case (Some r)
  have only: "r' = r" if "r' \<in> set (m_Resources m)" and "rd_Name r' = sp_ResourceName p" for r'
    using that Some resource_named [OF assms, of "sp_ResourceName p" r'] by simp
  have r: "r \<in> set (m_Resources m)" "rd_Name r = sp_ResourceName p"
    using Some resource_named [OF assms] by simp_all
  have "containsString (rd_SeizeNames r) n \<longleftrightarrow>
      (\<exists>r\<in>set (m_Resources m). rd_Name r = sp_ResourceName p \<and> n \<in> set (rd_SeizeNames r))"
    unfolding containsString_def list_ex_iff using only r by blast
  then show ?thesis
    using Some r(2) block_found [of m "sp_NextName p"]
    by (auto simp: validateAndLinkSeize_def has_block_lookup link_wait_queues_iff [OF assms])
qed

lemma release_iff:
  "validateAndLinkRelease m n p = Inr p' \<longleftrightarrow>
     refs_sound m n (ReleaseParams p) \<and> ReleaseParams p' = linked_params (ReleaseParams p)"
  using block_found [of m "rp_NextName p"]
    by_name_Some [of rd_Name "m_Resources m" "rp_ResourceName p"]
  by (auto simp: validateAndLinkRelease_def has_block_lookup by_name_ex ResourceByName_def
      split: option.splits)

lemma target_iff:
  assumes "distinct (declared m)"
  shows "validateAssignmentTarget m n t = Inr u \<longleftrightarrow> target_declared m t"
proof (cases "at_IsEntityField t")
  case False
  then show ?thesis
    by (auto simp: validateAssignmentTarget_def target_declared_def VarByName_def by_name_ex
        split: option.splits)
next
  case True
  show ?thesis
  proof (cases "EntityByName m (at_EntityName t)")
    case None
    then have "\<forall>e\<in>set (m_Entities m). ed_Name e \<noteq> at_EntityName t"
      by (simp add: EntityByName_def by_name_def find_None_iff)
    with True None show ?thesis
      by (auto simp: validateAssignmentTarget_def target_declared_def)
  next
    case (Some e)
    have only: "e' = e" if "e' \<in> set (m_Entities m)" and "ed_Name e' = at_EntityName t" for e'
      using that Some entity_named [OF assms, of "at_EntityName t" e'] by simp
    have e: "e \<in> set (m_Entities m)" "ed_Name e = at_EntityName t"
      using Some entity_named [OF assms] by simp_all
    have "(\<exists>e\<in>set (m_Entities m). ed_Name e = at_EntityName t \<and>
        at_FieldName t \<in> fd_Name ` set (ed_Fields e)) \<longleftrightarrow> at_FieldName t \<in> fd_Name ` set (ed_Fields e)"
      using only e by blast
    with True Some show ?thesis
      by (simp add: validateAssignmentTarget_def target_declared_def FieldByName_def by_name_ex
          split: option.splits)
  qed
qed

lemma assign_iff:
  assumes "distinct (declared m)"
  shows "validateAndLinkAssign m n p = Inr p' \<longleftrightarrow>
     refs_sound m n (AssignParams p) \<and> AssignParams p' = linked_params (AssignParams p)"
proof -
  have "traverseE (\<lambda>a. validateAssignmentTarget m n (as_Target a)) (ap_Assignments p) = Inr us \<longleftrightarrow>
      list_all (\<lambda>a. target_declared m (as_Target a)) (ap_Assignments p) \<and>
      us = map (\<lambda>_. ()) (ap_Assignments p)" for us
    by (rule traverseE_iff) (simp add: target_iff [OF assms])
  then show ?thesis
    using block_found [of m "ap_NextName p"]
    by (auto simp: validateAndLinkAssign_def has_block_lookup)
qed

lemma branch_iff:
  "validateAndLinkBranch m n p = Inr p' \<longleftrightarrow>
     refs_sound m n (BranchParams p) \<and> BranchParams p' = linked_params (BranchParams p)"
proof -
  have "bindE (requireBlock m n ''if'' (bc_NextName c)) (\<lambda>b. Inr (c\<lparr>bc_Next := Some (bd_Name b)\<rparr>)) = Inr y
      \<longleftrightarrow> has_block m (bc_NextName c) \<and> y = c\<lparr>bc_Next := Some (bc_NextName c)\<rparr>" for c y
    using block_found [of m "bc_NextName c"] by (auto simp: has_block_lookup)
  then have "traverseE (\<lambda>c. bindE (requireBlock m n ''if'' (bc_NextName c))
        (\<lambda>b. Inr (c\<lparr>bc_Next := Some (bd_Name b)\<rparr>))) (bp_Cases p) = Inr cs \<longleftrightarrow>
      list_all (\<lambda>c. has_block m (bc_NextName c)) (bp_Cases p) \<and>
      cs = map (\<lambda>c. c\<lparr>bc_Next := Some (bc_NextName c)\<rparr>) (bp_Cases p)" for cs
    by (intro traverseE_iff)
  then show ?thesis
    by (auto simp: validateAndLinkBranch_def block_pointer_if)
qed

lemma block_iff:
  assumes "distinct (declared m)"
  shows "validateAndLinkBlock m b = Inr b' \<longleftrightarrow>
     refs_sound m (bd_Name b) (bd_Params b) \<and> b' = linked_block b"
proof -
  have "link_params m (bd_Name b) (bd_Params b) = Inr p' \<longleftrightarrow>
      refs_sound m (bd_Name b) (bd_Params b) \<and> p' = linked_params (bd_Params b)" for p'
    by (cases "bd_Params b")
      (auto simp: link_params_def map_sum_Inr create_iff queue_iff delay_iff [OF assms]
        seize_iff [OF assms] release_iff assign_iff [OF assms] branch_iff
        simp del: refs_sound.simps(1-7))
  then show ?thesis
    by (auto simp: validateAndLinkBlock_def linked_block_def)
qed

lemma seize_listed:
  assumes "distinct (declared m)"
  shows "(\<exists>p. \<lparr>bd_Name = n, bd_Params = SeizeParams p\<rparr> \<in> set (m_Blocks m) \<and> Q p) \<longleftrightarrow>
    (\<exists>b p. BlockByName m n = Some b \<and> bd_Params b = SeizeParams p \<and> Q p)"
proof
  assume "\<exists>p. \<lparr>bd_Name = n, bd_Params = SeizeParams p\<rparr> \<in> set (m_Blocks m) \<and> Q p"
  then obtain p where "BlockByName m n = Some \<lparr>bd_Name = n, bd_Params = SeizeParams p\<rparr>" "Q p"
    by (auto simp: block_named [OF assms])
  then show "\<exists>b p. BlockByName m n = Some b \<and> bd_Params b = SeizeParams p \<and> Q p" by auto
next
  assume "\<exists>b p. BlockByName m n = Some b \<and> bd_Params b = SeizeParams p \<and> Q p"
  then obtain b p where b: "b \<in> set (m_Blocks m)" "bd_Name b = n" "bd_Params b = SeizeParams p" "Q p"
    using block_found by blast
  then have "b = \<lparr>bd_Name = n, bd_Params = SeizeParams p\<rparr>" by simp
  with b show "\<exists>p. \<lparr>bd_Name = n, bd_Params = SeizeParams p\<rparr> \<in> set (m_Blocks m) \<and> Q p" by auto
qed

lemma resource_iff:
  assumes "distinct (declared m)"
  shows "validateAndLinkResource m r = Inr r' \<longleftrightarrow>
     seizes_sound m r \<and> r' = r\<lparr>rd_Seizes := rd_SeizeNames r\<rparr>"
proof -
  let ?f = "\<lambda>s. bindE (requireSeizeBlock m (rd_Name r) ''seize'' s) (\<lambda>(b, p).
        if sp_ResourceName p \<noteq> rd_Name r
        then Inl (modelErr ErrUnknownReference
               [''resource '', quoted (rd_Name r), '' lists SEIZE block '', quoted (bd_Name b),
                '', but this block references resource '', quoted (sp_ResourceName p)])
        else Inr (bd_Name b))"
  have "?f s = Inr y \<longleftrightarrow> (\<exists>p. \<lparr>bd_Name = s, bd_Params = SeizeParams p\<rparr> \<in> set (m_Blocks m) \<and>
      sp_ResourceName p = rd_Name r) \<and> y = s" for s y
    unfolding seize_listed [OF assms] using block_found [of m s]
    by (auto simp: require_seize split: if_splits)
  then have "traverseE ?f (rd_SeizeNames r) = Inr ys \<longleftrightarrow>
      list_all (\<lambda>s. \<exists>p. \<lparr>bd_Name = s, bd_Params = SeizeParams p\<rparr> \<in> set (m_Blocks m) \<and>
        sp_ResourceName p = rd_Name r) (rd_SeizeNames r) \<and> ys = map (\<lambda>s. s) (rd_SeizeNames r)" for ys
    by (intro traverseE_iff)
  then show ?thesis
    by (auto simp: validateAndLinkResource_def seizes_sound_def)
qed

section \<open>The search for wait targets\<close>

text \<open>An edge of the search, over pointers.\<close>

definition goes :: "dsl_model \<Rightarrow> string \<Rightarrow> string \<Rightarrow> bool" where
  "goes m x y \<longleftrightarrow> (\<exists>b. BlockByName m x = Some b \<and> Some y \<in> set (successors (bd_Params b)))"

text \<open>Every pointer the search may follow is set to a block of the model.\<close>

definition resolved :: "dsl_model \<Rightarrow> string option list \<Rightarrow> bool" where
  "resolved m ps \<longleftrightarrow> (\<forall>p\<in>set ps. \<exists>x. p = Some x \<and> has_block m x)"

definition search_linked :: "dsl_model \<Rightarrow> bool" where
  "search_linked m \<longleftrightarrow> (\<forall>b\<in>set (m_Blocks m). resolved m (successors (bd_Params b)))"

definition search_ok ::
  "dsl_model \<Rightarrow> string \<Rightarrow> string option list \<Rightarrow> string list \<Rightarrow> search \<times> string list \<Rightarrow> bool" where
  "search_ok m target ps visited res \<longleftrightarrow>
     (case fst res of
        Found \<Rightarrow> \<exists>x. Some x \<in> set ps \<and> (goes m)\<^sup>*\<^sup>* x target
      | NotFound \<Rightarrow>
          set visited \<subseteq> set (snd res) \<and> (target \<notin> set visited \<longrightarrow> target \<notin> set (snd res)) \<and>
          (\<forall>x. Some x \<in> set ps \<longrightarrow> x \<in> set (snd res)) \<and>
          (\<forall>x y. x \<in> set (snd res) - set visited \<longrightarrow> goes m x y \<longrightarrow> y \<in> set (snd res))
      | NilDeref \<Rightarrow> False)"

lemma reach_any_ok:
  "search_linked m \<Longrightarrow> resolved m ps \<Longrightarrow>
     search_ok m target ps visited (reach_any m target ps visited)"
proof (induction m target ps visited rule: reach_any.induct)
  case (3 m target current ps visited)
  from 3(5) obtain b where b: "BlockByName m current = Some b"
    by (auto simp: resolved_def has_block_lookup)
  have ps: "resolved m ps" using 3(5) by (simp add: resolved_def)
  have succ: "resolved m (successors (bd_Params b))"
    using 3(4) block_found [OF b] by (simp add: search_linked_def)
  show ?case
  proof (cases "current = target")
    case True
    then show ?thesis by (auto simp: search_ok_def)
  next
    case not_target: False
    show ?thesis
    proof (cases "current \<in> set visited")
      case True
      with 3(1) [OF not_target True 3(4) ps] not_target show ?thesis
        by (auto simp: search_ok_def split: search.splits)
    next
      case new: False
      obtain r visited' where rec:
        "reach_any m target (successors (bd_Params b)) (current # visited) = (r, visited')"
        by (cases "reach_any m target (successors (bd_Params b)) (current # visited)")
      have first: "search_ok m target (successors (bd_Params b)) (current # visited) (r, visited')"
        using 3(2) [OF not_target new b 3(4) succ] rec by simp
      show ?thesis
      proof (cases r)
        case Found
        with first obtain x where "Some x \<in> set (successors (bd_Params b))" "(goes m)\<^sup>*\<^sup>* x target"
          by (auto simp: search_ok_def)
        then have "(goes m)\<^sup>*\<^sup>* current target"
          using b by (auto simp: goes_def intro: converse_rtranclp_into_rtranclp)
        then show ?thesis
          using not_target new b rec Found by (auto simp: search_ok_def)
      next
        case NilDeref
        with first show ?thesis by (simp add: search_ok_def)
      next
        case NotFound
        have second: "search_ok m target ps visited' (reach_any m target ps visited')"
          using 3(3) [OF not_target new b rec [symmetric] NotFound 3(4) ps] by simp
        have closed: "y \<in> set visited'" if "goes m current y" for y
          using that first b NotFound by (auto simp: search_ok_def goes_def)
        obtain r2 visited2 where rest: "reach_any m target ps visited' = (r2, visited2)"
          by (cases "reach_any m target ps visited'")
        have eq: "reach_any m target (Some current # ps) visited = (r2, visited2)"
          using not_target new b rec NotFound rest by simp
        show ?thesis
        proof (cases r2)
          case Found
          with second rest eq show ?thesis by (auto simp: search_ok_def)
        next
          case NilDeref
          with second rest show ?thesis by (simp add: search_ok_def)
        next
          case r2: NotFound
          note first' = first [unfolded search_ok_def NotFound fst_conv snd_conv search.case]
          note second' = second [unfolded search_ok_def rest r2 fst_conv snd_conv search.case]
          have new_closed: "y \<in> set visited2" if "x \<in> set visited2 - set visited" and "goes m x y" for x y
          proof (cases "x \<in> set visited'")
            case False
            with second' that show ?thesis by blast
          next
            case True
            with first' that closed have "y \<in> set visited'" by (cases "x = current") auto
            with second' show ?thesis by blast
          qed
          have vis: "set visited \<subseteq> set visited2" and cur: "current \<in> set visited2"
            using first' second' by auto
          have tgt: "target \<notin> set visited2" if "target \<notin> set visited"
            using that first' second' not_target by simp
          have listed: "x \<in> set visited2" if "Some x \<in> set (Some current # ps)" for x
            using that cur second' by auto
          show ?thesis
            unfolding search_ok_def eq r2 fst_conv snd_conv search.case
            using vis tgt listed new_closed by blast
        qed
      qed
    qed
  qed
qed (auto simp: search_ok_def resolved_def)

text \<open>From nothing visited, the search finds the target exactly when it is reachable.\<close>

lemma closed_reaches:
  assumes "(goes m)\<^sup>*\<^sup>* x y" and "x \<in> S" and "\<And>u v. u \<in> S \<Longrightarrow> goes m u v \<Longrightarrow> v \<in> S"
  shows "y \<in> S"
  using assms by (induction rule: rtranclp_induct) auto

lemma search_exact:
  assumes "search_linked m" and "has_block m x"
  shows "fst (reach_any m target [Some x] []) = (if (goes m)\<^sup>*\<^sup>* x target then Found else NotFound)"
proof -
  obtain r visited where res: "reach_any m target [Some x] [] = (r, visited)"
    by (cases "reach_any m target [Some x] []")
  have ok: "search_ok m target [Some x] [] (r, visited)"
    using reach_any_ok [OF assms(1), of "[Some x]" target "[]"] assms(2) res by (simp add: resolved_def)
  have "target \<in> set visited" if "(goes m)\<^sup>*\<^sup>* x target" and "r = NotFound"
    by (rule closed_reaches [OF that(1)]) (use ok that(2) in \<open>auto simp: search_ok_def\<close>)
  with ok res show ?thesis
    by (cases r) (auto simp: search_ok_def)
qed

section \<open>The linked model\<close>

lemma linked_block_name [simp]: "bd_Name (linked_block b) = bd_Name b"
  by (simp add: linked_block_def)

lemma linked_block_params [simp]: "bd_Params (linked_block b) = linked_params (bd_Params b)"
  by (simp add: linked_block_def)

lemma linked_model_blocks [simp]: "m_Blocks (linked_model m) = map linked_block (m_Blocks m)"
  by (simp add: linked_model_def)

lemma by_name_map:
  "(\<And>x. nm (f x) = nm x) \<Longrightarrow> by_name nm (map f xs) n = map_option f (by_name nm xs n)"
  by (induction xs) (auto simp: by_name_def)

lemma block_of_linked: "BlockByName (linked_model m) n = map_option linked_block (BlockByName m n)"
  by (simp add: BlockByName_def linked_model_def by_name_map)

lemma has_block_linked [simp]: "has_block (linked_model m) n = has_block m n"
  by (simp add: has_block_def linked_model_def image_image)

lemma goes_linked:
  assumes "distinct (declared m)"
  shows "goes (linked_model m) x y \<longleftrightarrow> passes m x y"
proof -
  have "goes (linked_model m) x y \<longleftrightarrow>
      (\<exists>b\<in>set (m_Blocks m). bd_Name b = x \<and> Some y \<in> set (successors (linked_params (bd_Params b))))"
    by (auto simp: goes_def block_of_linked block_named [OF assms] linked_block_def)
  also have "\<dots> \<longleftrightarrow>
      (\<exists>ps. \<lparr>bd_Name = x, bd_Params = ps\<rparr> \<in> set (m_Blocks m) \<and> Some y \<in> set (successors (linked_params ps)))"
    by (metis block_desc.surjective old.unit.exhaust block_desc.select_convs(1,2))
  also have "\<dots> \<longleftrightarrow> passes m x y"
  proof
    assume "\<exists>ps. \<lparr>bd_Name = x, bd_Params = ps\<rparr> \<in> set (m_Blocks m) \<and>
      Some y \<in> set (successors (linked_params ps))"
    then obtain ps where "\<lparr>bd_Name = x, bd_Params = ps\<rparr> \<in> set (m_Blocks m)"
      and "Some y \<in> set (successors (linked_params ps))" by blast
    then show "passes m x y"
      by (cases ps) (auto intro: passes.intros split: if_splits)
  next
    assume "passes m x y"
    then show "\<exists>ps. \<lparr>bd_Name = x, bd_Params = ps\<rparr> \<in> set (m_Blocks m) \<and>
      Some y \<in> set (successors (linked_params ps))"
    proof cases
      case (passes_assign p)
      then show ?thesis by (intro exI [where x = "AssignParams p"]) simp
    next
      case (passes_case p c)
      then show ?thesis by (intro exI [where x = "BranchParams p"]) auto
    next
      case (passes_else p)
      then show ?thesis by (intro exI [where x = "BranchParams p"]) auto
    qed
  qed
  finally show ?thesis .
qed

lemma search_linked_model:
  assumes "\<forall>b\<in>set (m_Blocks m). refs_sound m (bd_Name b) (bd_Params b)"
  shows "search_linked (linked_model m)"
proof -
  have "resolved (linked_model m) (successors (linked_params (bd_Params b)))"
    if "b \<in> set (m_Blocks m)" for b
    using assms that
    by (cases "bd_Params b") (fastforce simp: resolved_def list_all_iff split: if_splits)+
  then show ?thesis
    by (auto simp: search_linked_def linked_model_def linked_block_def)
qed

lemma canReach_iff:
  assumes "distinct (declared m)"
    and refs: "\<forall>b\<in>set (m_Blocks m). refs_sound m (bd_Name b) (bd_Params b)"
    and q: "\<lparr>bd_Name = q, bd_Params = QueueParams p\<rparr> \<in> set (m_Blocks m)"
  shows "canReachWaitTarget (linked_model m) q target =
    (if (passes m)\<^sup>*\<^sup>* (qp_NextName p) target then Found else NotFound)"
proof -
  have "BlockByName m q = Some \<lparr>bd_Name = q, bd_Params = QueueParams p\<rparr>"
    using q by (simp add: block_named [OF assms(1)])
  moreover have "has_block (linked_model m) (qp_NextName p)"
    using refs q by fastforce
  moreover have "goes (linked_model m) = passes m"
    by (intro ext) (rule goes_linked [OF assms(1)])
  ultimately show ?thesis
    using search_exact [OF search_linked_model [OF refs]]
    by (simp add: canReachWaitTarget_def block_of_linked linked_block_def)
qed

lemma traverseE_total: "(\<exists>ys. traverseE f xs = Inr ys) \<longleftrightarrow> (\<forall>x\<in>set xs. \<exists>y. f x = Inr y)"
  by (induction xs) auto

lemma traverseE_Inl: "traverseE f xs = Inl e \<Longrightarrow> \<exists>x\<in>set xs. f x = Inl e"
  by (induction xs) (auto simp: bindE_eq_Inl)

lemma is_queue_obtain:
  assumes "is_queue m q"
  obtains p where "\<lparr>bd_Name = q, bd_Params = QueueParams p\<rparr> \<in> set (m_Blocks m)"
  using assms by (auto simp: is_queue_def)

lemma queue_unique:
  assumes "distinct (declared m)"
    and "\<lparr>bd_Name = q, bd_Params = QueueParams p\<rparr> \<in> set (m_Blocks m)"
    and "\<lparr>bd_Name = q, bd_Params = QueueParams p'\<rparr> \<in> set (m_Blocks m)"
  shows "p = p'"
  using block_named [OF assms(1), of q "\<lparr>bd_Name = q, bd_Params = QueueParams p\<rparr>"]
    block_named [OF assms(1), of q "\<lparr>bd_Name = q, bd_Params = QueueParams p'\<rparr>"] assms(2,3) by simp

lemma waits_iff:
  assumes "distinct (declared m)"
    and "\<forall>b\<in>set (m_Blocks m). refs_sound m (bd_Name b) (bd_Params b)"
    and queues: "\<forall>q\<in>set qs. is_queue m q"
  shows "(\<exists>us. check_wait_queues (linked_model m) kind n qs = Inr us) \<longleftrightarrow>
    (\<forall>q p. q \<in> set qs \<longrightarrow> \<lparr>bd_Name = q, bd_Params = QueueParams p\<rparr> \<in> set (m_Blocks m) \<longrightarrow>
      (passes m)\<^sup>*\<^sup>* (qp_NextName p) n)"
proof -
  have one: "(\<exists>u. (case canReachWaitTarget (linked_model m) q n of
         Found \<Rightarrow> Inr ()
       | NotFound \<Rightarrow> Inl (wait_queue_error q kind n)
       | NilDeref \<Rightarrow> Inl NilPanic) = Inr u) \<longleftrightarrow>
      (\<forall>p. \<lparr>bd_Name = q, bd_Params = QueueParams p\<rparr> \<in> set (m_Blocks m) \<longrightarrow>
        (passes m)\<^sup>*\<^sup>* (qp_NextName p) n)" if "q \<in> set qs" for q
  proof -
    from that queues obtain p where p: "\<lparr>bd_Name = q, bd_Params = QueueParams p\<rparr> \<in> set (m_Blocks m)"
      by (auto elim: is_queue_obtain)
    then have only: "(\<forall>p. \<lparr>bd_Name = q, bd_Params = QueueParams p\<rparr> \<in> set (m_Blocks m) \<longrightarrow>
        (passes m)\<^sup>*\<^sup>* (qp_NextName p) n) \<longleftrightarrow> (passes m)\<^sup>*\<^sup>* (qp_NextName p) n"
      using queue_unique [OF assms(1) p] by blast
    show ?thesis
      unfolding only canReach_iff [OF assms(1,2) p] by simp
  qed
  show ?thesis
    unfolding check_wait_queues_def traverseE_total using one by blast
qed

text \<open>The queues a sound block waits for are queues, and linking lists the same queues.\<close>

lemma refs_sound_queues: "refs_sound m n ps \<Longrightarrow> \<forall>q\<in>set (wait_queues ps). is_queue m q"
  by (cases ps) (auto simp: list_all_iff)

lemma wait_check_iff:
  assumes "distinct (declared m)"
    and refs: "\<forall>b\<in>set (m_Blocks m). refs_sound m (bd_Name b) (bd_Params b)"
  shows "(\<exists>us. validateWaitQueueReachability (linked_model m) = Inr us) \<longleftrightarrow>
    (\<forall>b\<in>set (m_Blocks m). waits_sound m b)"
proof -
  have "(\<exists>us. (case linked_params (bd_Params b) of
         DelayParams p \<Rightarrow> check_wait_queues (linked_model m) ''DELAY'' (bd_Name b) (dp_WaitQueues p)
       | SeizeParams p \<Rightarrow> check_wait_queues (linked_model m) ''SEIZE'' (bd_Name b) (sp_WaitQueues p)
       | _ \<Rightarrow> Inr []) = Inr us) \<longleftrightarrow> waits_sound m b" if b: "b \<in> set (m_Blocks m)" for b
  proof -
    have queues: "\<forall>q\<in>set (wait_queues (bd_Params b)). is_queue m q"
      using refs b by (blast intro: refs_sound_queues [THEN bspec])
    have "(\<exists>us. check_wait_queues (linked_model m) kind (bd_Name b) (wait_queues (bd_Params b)) = Inr us)
        \<longleftrightarrow> waits_sound m b" for kind
      unfolding waits_sound_def by (rule waits_iff [OF assms queues])
    then show ?thesis
      by (cases "bd_Params b") (simp_all add: waits_sound_def)
  qed
  then show ?thesis
    unfolding validateWaitQueueReachability_def traverseE_total linked_model_blocks
    by (simp add: linked_block_name linked_block_params cong: block_params.case_cong)
qed

lemma required_iff:
  "validateRequiredBlocks m = Inr u \<longleftrightarrow>
     (\<exists>b\<in>set (m_Blocks m). \<exists>p. bd_Params b = CreateParams p) \<and>
     (\<exists>b\<in>set (m_Blocks m). bd_Params b = TerminateParams)"
proof -
  have "(case ps of CreateParams _ \<Rightarrow> True | _ \<Rightarrow> False) \<longleftrightarrow> (\<exists>p. ps = CreateParams p)" for ps
    by (cases ps) auto
  then show ?thesis
    by (auto simp: validateRequiredBlocks_def list_ex_iff Let_def)
qed

lemma validate_iff:
  assumes "distinct (declared m)"
  shows "ValidateAndLink (Some m) = Inr m' \<longleftrightarrow> sound_model m \<and> m' = linked_model m"
proof -
  have blocks: "traverseE (validateAndLinkBlock m) (m_Blocks m) = Inr bs \<longleftrightarrow>
      list_all (\<lambda>b. refs_sound m (bd_Name b) (bd_Params b)) (m_Blocks m) \<and>
      bs = map linked_block (m_Blocks m)" for bs
    by (rule traverseE_iff) (rule block_iff [OF assms])
  have resources: "traverseE (validateAndLinkResource m) (m_Resources m) = Inr rs \<longleftrightarrow>
      list_all (seizes_sound m) (m_Resources m) \<and>
      rs = map (\<lambda>r. r\<lparr>rd_Seizes := rd_SeizeNames r\<rparr>) (m_Resources m)" for rs
    by (rule traverseE_iff) (rule resource_iff [OF assms])
  have "ValidateAndLink (Some m) = Inr m' \<longleftrightarrow>
      (\<exists>u. validateRequiredBlocks m = Inr u) \<and>
      (\<forall>b\<in>set (m_Blocks m). refs_sound m (bd_Name b) (bd_Params b)) \<and>
      (\<forall>r\<in>set (m_Resources m). seizes_sound m r) \<and>
      (\<exists>us. validateWaitQueueReachability (linked_model m) = Inr us) \<and> m' = linked_model m"
    by (auto simp: ValidateAndLink_def Let_def blocks resources list_all_iff linked_model_def)
  also have "\<dots> \<longleftrightarrow> sound_model m \<and> m' = linked_model m"
    using wait_check_iff [OF assms] by (auto simp: required_iff sound_model_def)
  finally show ?thesis .
qed

section \<open>No nil pointer is followed\<close>

definition clean :: "model_fail + 'a \<Rightarrow> bool" where
  "clean r \<longleftrightarrow> r \<noteq> Inl NilPanic"

lemma clean_Inr [simp]: "clean (Inr x)"
  by (simp add: clean_def)

lemma clean_modelErr [simp]: "clean (Inl (modelErr e m))"
  by (simp add: clean_def modelErr_def)

lemma clean_bind: "clean r \<Longrightarrow> (\<And>x. r = Inr x \<Longrightarrow> clean (f x)) \<Longrightarrow> clean (bindE r f)"
  by (cases r) (simp_all add: clean_def)

lemma clean_failE [simp]: "clean (failE c (modelErr e m))"
  by (simp add: failE_def)

lemma clean_traverse: "(\<And>x. x \<in> set xs \<Longrightarrow> clean (f x)) \<Longrightarrow> clean (traverseE f xs)"
  by (auto simp: clean_def dest: traverseE_Inl)

lemma clean_map_sum [simp]: "clean (map_sum id f r) \<longleftrightarrow> clean r"
  by (cases r) (simp_all add: clean_def)

lemma clean_requireBlock [simp]: "clean (requireBlock m o' p n)"
  by (simp add: requireBlock_def split: option.splits)

lemma clean_requireQueue [simp]: "clean (requireQueueBlock m o' p n)"
  unfolding requireQueueBlock_def by (rule clean_bind) (simp_all split: block_params.split)

lemma clean_requireSeize [simp]: "clean (requireSeizeBlock m o' p n)"
  unfolding requireSeizeBlock_def by (rule clean_bind) (simp_all split: block_params.split)

lemma clean_if [simp]: "clean (if c then a else b) \<longleftrightarrow> (c \<longrightarrow> clean a) \<and> (\<not> c \<longrightarrow> clean b)"
  by simp

lemma clean_link: "clean (link_params m n ps)"
  by (cases ps)
    (auto simp: link_params_def validateAndLinkCreate_def validateAndLinkQueue_def
      validateAndLinkDelay_def validateAndLinkSeize_def validateAndLinkRelease_def
      validateAndLinkAssign_def validateAndLinkBranch_def link_wait_queues_def
      validateAssignmentTarget_def
      intro!: clean_bind clean_traverse split: option.split)

lemma clean_block: "clean (validateAndLinkBlock m b)"
  unfolding validateAndLinkBlock_def by (rule clean_bind [OF clean_link]) simp

lemma clean_resource: "clean (validateAndLinkResource m r)"
  unfolding validateAndLinkResource_def
  by (auto intro!: clean_bind clean_traverse)

lemma clean_required: "clean (validateRequiredBlocks m)"
  by (simp add: validateRequiredBlocks_def Let_def)

lemma clean_waits:
  assumes "distinct (declared m)"
    and refs: "\<forall>b\<in>set (m_Blocks m). refs_sound m (bd_Name b) (bd_Params b)"
  shows "clean (validateWaitQueueReachability (linked_model m))"
  unfolding validateWaitQueueReachability_def linked_model_blocks
proof (rule clean_traverse)
  have checked: "clean (check_wait_queues (linked_model m) kind n qs)"
    if "\<forall>q\<in>set qs. is_queue m q" for kind n qs
    unfolding check_wait_queues_def
  proof (rule clean_traverse)
    fix q assume "q \<in> set qs"
    with that obtain p where "\<lparr>bd_Name = q, bd_Params = QueueParams p\<rparr> \<in> set (m_Blocks m)"
      by (auto elim: is_queue_obtain)
    from canReach_iff [OF assms this] show "clean (case canReachWaitTarget (linked_model m) q n of
         Found \<Rightarrow> Inr ()
       | NotFound \<Rightarrow> Inl (wait_queue_error q kind n)
       | NilDeref \<Rightarrow> Inl NilPanic)"
      by (simp add: wait_queue_error_def)
  qed
  fix b assume "b \<in> set (map linked_block (m_Blocks m))"
  then obtain b0 where b0: "b0 \<in> set (m_Blocks m)" "b = linked_block b0" by auto
  with refs have "\<forall>q\<in>set (wait_queues (bd_Params b0)). is_queue m q"
    by (blast intro: refs_sound_queues [THEN bspec])
  then show "clean (case bd_Params b of
         DelayParams p \<Rightarrow> check_wait_queues (linked_model m) ''DELAY'' (bd_Name b) (dp_WaitQueues p)
       | SeizeParams p \<Rightarrow> check_wait_queues (linked_model m) ''SEIZE'' (bd_Name b) (sp_WaitQueues p)
       | _ \<Rightarrow> Inr [])"
    unfolding b0(2) linked_block_params linked_block_name
    by (cases "bd_Params b0") (simp_all add: checked)
qed

text \<open>The search starts only once every block is linked.\<close>

lemma validate_clean:
  assumes "distinct (declared m)"
  shows "clean (ValidateAndLink (Some m))"
  unfolding ValidateAndLink_def option.case Let_def
proof (intro clean_bind clean_required clean_traverse clean_block clean_resource clean_Inr)
  fix bs rs
  assume bs: "traverseE (validateAndLinkBlock m) (m_Blocks m) = Inr bs"
    and rs: "traverseE (validateAndLinkResource m) (m_Resources m) = Inr rs"
  have refs: "\<forall>b\<in>set (m_Blocks m). refs_sound m (bd_Name b) (bd_Params b)"
    and "bs = map linked_block (m_Blocks m)"
    using bs traverseE_iff [of "m_Blocks m" "validateAndLinkBlock m"
      "\<lambda>b. refs_sound m (bd_Name b) (bd_Params b)" linked_block, OF block_iff [OF assms]]
    by (simp_all add: list_all_iff)
  moreover have "rs = map (\<lambda>r. r\<lparr>rd_Seizes := rd_SeizeNames r\<rparr>) (m_Resources m)"
    using rs traverseE_iff [of "m_Resources m" "validateAndLinkResource m"
      "seizes_sound m" "\<lambda>r. r\<lparr>rd_Seizes := rd_SeizeNames r\<rparr>", OF resource_iff [OF assms]] by simp
  ultimately show "clean (validateWaitQueueReachability (m\<lparr>m_Blocks := bs, m_Resources := rs\<rparr>))"
    using clean_waits [OF assms refs] by (simp add: linked_model_def)
qed

section \<open>Properties\<close>

lemma parsed_distinct: "Parse data = Inr m \<Longrightarrow> distinct (declared m)"
  using Parse_ends [of data] by (simp add: wf_model_def wf_decls_def)

text \<open>C38. Validation accepts a parsed model exactly when it is sound: it has a CREATE and a
  TERMINATE block, every reference is to a declared thing of the right kind, resources and
  SEIZE blocks name each other, and from every wait queue an entity can reach the waiting
  block through ASSIGN and BRANCH blocks. The result is the model with every pointer set to
  what its name refers to.\<close>

theorem validation_exact:
  assumes "Parse data = Inr m"
  shows "ValidateAndLink (Some m) = Inr m' \<longleftrightarrow> sound_model m \<and> m' = linked_model m"
  by (rule validate_iff [OF parsed_distinct [OF assms]])

lemma demo_validates: "ValidateAndLink (Some demo_model) = Inr (linked_model demo_model)"
  by code_simp

theorem validation_exact_witness: "sound_model demo_model"
  using validation_exact [OF demo_parses, of "linked_model demo_model"] demo_validates by simp

text \<open>Validation of a parsed model never dereferences a nil pointer.\<close>

theorem validation_never_panics:
  assumes "Parse data = Inr m"
  shows "ValidateAndLink (Some m) \<noteq> Inl NilPanic"
  using validate_clean [OF parsed_distinct [OF assms]] by (simp add: clean_def)

theorem validation_never_panics_witness: "ValidateAndLink (Some demo_model) \<noteq> Inl NilPanic"
  by (rule validation_never_panics [OF demo_parses])

text \<open>The search for a wait target ends on every graph of blocks, cycles included, and
  finds the target exactly when it can be reached from the block after the queue.\<close>

theorem wait_search_exact:
  assumes "search_linked m" and "has_block m x"
  shows "fst (reach_any m target [Some x] []) = (if (goes m)\<^sup>*\<^sup>* x target then Found else NotFound)"
  by (rule search_exact [OF assms])

text \<open>Two ASSIGN blocks that lead to each other.\<close>

definition loop_model :: dsl_model where
  "loop_model = \<lparr>m_Hash = [], m_Entities = [], m_Vars = [], m_Resources = [], m_Blocks =
     [\<lparr>bd_Name = ''a'', bd_Params = AssignParams \<lparr>ap_Assignments = [], ap_NextName = ''b'',
        ap_Next = Some ''b''\<rparr>\<rparr>,
      \<lparr>bd_Name = ''b'', bd_Params = AssignParams \<lparr>ap_Assignments = [], ap_NextName = ''a'',
        ap_Next = Some ''a''\<rparr>\<rparr>,
      \<lparr>bd_Name = ''c'', bd_Params = TerminateParams\<rparr>]\<rparr>"

theorem wait_search_exact_witness: "\<not> (goes loop_model)\<^sup>*\<^sup>* ''a'' ''c''"
proof -
  have "fst (reach_any loop_model ''c'' [Some ''a''] []) = NotFound" by code_simp
  moreover have "search_linked loop_model"
    by (simp add: search_linked_def resolved_def loop_model_def has_block_def)
  moreover have "has_block loop_model ''a''" by (simp add: has_block_def loop_model_def)
  ultimately show ?thesis
    using wait_search_exact [of loop_model "''a''" "''c''"] by (auto split: if_splits)
qed

end
