(* ===== verification/Dsl_Expr.thy ===== *)
theory Dsl_Expr
  imports Dsl_Model
begin

text \<open>
  The expression translator of the code generator (codegen/generator/emit_expr.go), with the
  Go names of declared things (emit_name.go) and the metrics of blocks and resources
  (emit_transport.go). The emitter's \<open>err\<close> field is threaded through; an error is kept as its
  format with the arguments, not yet formatted. Positions are indices into the text, as in
  the code, and every access is guarded by the length.
\<close>

section \<open>Go names\<close>

definition entityTypeName :: "string \<Rightarrow> string" where
  "entityTypeName n = ''entityType_'' @ n"

definition entityPoolName :: "string \<Rightarrow> string" where
  "entityPoolName n = ''pool_entity_'' @ n"

definition entityFieldName :: "string \<Rightarrow> string" where
  "entityFieldName n = ''field_'' @ n"

definition varGoName :: "string \<Rightarrow> string" where
  "varGoName n = ''var_'' @ n"

definition resourceGoName :: "string \<Rightarrow> string" where
  "resourceGoName n = ''resource_'' @ n"

fun blockKindName :: "block_params \<Rightarrow> string" where
  "blockKindName (CreateParams _) = ''CREATE''"
| "blockKindName (QueueParams _) = ''QUEUE''"
| "blockKindName (DelayParams _) = ''DELAY''"
| "blockKindName (SeizeParams _) = ''SEIZE''"
| "blockKindName (ReleaseParams _) = ''RELEASE''"
| "blockKindName (AssignParams _) = ''ASSIGN''"
| "blockKindName (BranchParams _) = ''BRANCH''"
| "blockKindName TerminateParams = ''TERMINATE''"

definition blockGoName :: "block_desc \<Rightarrow> string" where
  "blockGoName b = ''block_'' @ blockKindName (bd_Params b) @ ''_'' @ bd_Name b"

fun transportBlockMetricFields :: "block_params \<Rightarrow> string list" where
  "transportBlockMetricFields (CreateParams _) = [''createdN'', ''exitN'', ''dropN'']"
| "transportBlockMetricFields (QueueParams _) =
     [''enterN'', ''exitN'', ''dropN'', ''timeoutN'', ''len'', ''maxLen'']"
| "transportBlockMetricFields (DelayParams _) = [''enterN'', ''exitN'', ''busy'', ''maxBusy'']"
| "transportBlockMetricFields (SeizeParams _) = [''enterN'', ''exitN'']"
| "transportBlockMetricFields (ReleaseParams _) = [''enterN'', ''exitN'']"
| "transportBlockMetricFields (AssignParams _) = [''enterN'', ''exitN'']"
| "transportBlockMetricFields (BranchParams _) = [''enterN'', ''exitN'']"
| "transportBlockMetricFields TerminateParams = [''enterN'']"

definition transportResourceMetricFields :: "string list" where
  "transportResourceMetricFields = [''capacity'', ''busy'', ''maxBusy'', ''seizeN'', ''releaseN'']"

definition hasMetricField :: "string list \<Rightarrow> string \<Rightarrow> bool" where
  "hasMetricField names field \<longleftrightarrow> list_ex (\<lambda>c. c = field) names"

section \<open>Data\<close>

record emitted_expr =
  ee_Go :: string
  ee_Type :: value_type
  ee_Entity :: "string option"

record expr_mode =
  em_Context :: string
  em_AllowEntityField :: bool
  em_HasExpected :: bool
  em_Expected :: value_type
  em_AllowEmpty :: bool

record expr_operand =
  eo_Type :: value_type
  eo_UntypedNum :: bool
  eo_FloatLiteral :: bool

record resolved_name =
  rn_Go :: string
  rn_Type :: value_type
  rn_Entity :: "string option"

record expr_flags =
  ef_hasArithmetic :: bool
  ef_hasComparison :: bool
  ef_hasBoolOp :: bool

record emit_error =
  er_Context :: string
  er_Raw :: string
  er_Format :: string
  er_Args :: "string list"

type_synonym err = "emit_error option"

text \<open>\<open>exprFail\<close>: only the first error is kept.\<close>

definition exprFail :: "expr_mode \<Rightarrow> string \<Rightarrow> string \<Rightarrow> string list \<Rightarrow> err \<Rightarrow> err" where
  "exprFail mode raw fmt args err =
     (case err of
        Some e \<Rightarrow> Some e
      | None \<Rightarrow>
          Some \<lparr>er_Context = (if em_Context mode = [] then ''expression'' else em_Context mode),
                er_Raw = raw, er_Format = fmt, er_Args = args\<rparr>)"

fun valueTypeName :: "value_type \<Rightarrow> string" where
  "valueTypeName ValueFloat64 = ''float64''"
| "valueTypeName ValueInt64 = ''int64''"
| "valueTypeName ValueUint64 = ''uint64''"
| "valueTypeName ValueBool = ''bool''"

definition exprZeroValue :: "expr_mode \<Rightarrow> string" where
  "exprZeroValue mode =
     (if em_HasExpected mode then
        (case em_Expected mode of
           ValueFloat64 \<Rightarrow> ''0.0''
         | ValueBool \<Rightarrow> ''false''
         | _ \<Rightarrow> ''0'')
      else ''0'')"

text \<open>\<open>emittedExpr{Go: exprZeroValue(mode)}\<close>: the other fields have their zero values.\<close>

definition zero_expr :: "expr_mode \<Rightarrow> emitted_expr" where
  "zero_expr mode = \<lparr>ee_Go = exprZeroValue mode, ee_Type = ValueFloat64, ee_Entity = None\<rparr>"

definition isNumericValueType :: "value_type \<Rightarrow> bool" where
  "isNumericValueType t \<longleftrightarrow> t = ValueFloat64 \<or> t = ValueInt64 \<or> t = ValueUint64"

definition exprTypesCompatible :: "value_type \<Rightarrow> value_type \<Rightarrow> bool" where
  "exprTypesCompatible actual expected \<longleftrightarrow> actual = expected"

definition castValueType :: "string \<Rightarrow> value_type option" where
  "castValueType name =
     (if name = ''float64'' then Some ValueFloat64
      else if name = ''int64'' then Some ValueInt64
      else if name = ''uint64'' then Some ValueUint64
      else None)"

definition distributionFunc :: "string \<Rightarrow> (string \<times> nat) option" where
  "distributionFunc name =
     (if name = ''uniform'' then Some (''rng.Uniform'', 2)
      else if name = ''triangular'' then Some (''rng.Triangular'', 3)
      else if name = ''exponential'' then Some (''rng.Exponential'', 1)
      else if name = ''normal'' then Some (''rng.Normal'', 2)
      else None)"

section \<open>Scanning\<close>

definition nextNonSpace :: "string \<Rightarrow> nat \<Rightarrow> nat" where
  "nextNonSpace raw pos = pos + length (takeWhile isSpace (drop pos raw))"

definition isOperatorChar :: "char \<Rightarrow> bool" where
  "isOperatorChar c \<longleftrightarrow> c \<in> set ''+-*/><!=&|''"

definition isArithmeticOperator :: "string \<Rightarrow> bool" where
  "isArithmeticOperator op \<longleftrightarrow> op \<in> {''+'', ''-'', ''*'', ''/''}"

definition isComparisonOperator :: "string \<Rightarrow> bool" where
  "isComparisonOperator op \<longleftrightarrow> op \<in> {''=='', ''!='', ''>'', ''>='', ''<'', ''<=''}"

text \<open>The operator that starts at \<open>pos\<close>, which is inside the text.\<close>

definition readExprOperator :: "string \<Rightarrow> nat \<Rightarrow> string option" where
  "readExprOperator raw pos =
     (let two = take 2 (drop pos raw); one = raw ! pos in
      if pos + 2 \<le> length raw \<and> two \<in> {''&&'', ''||'', ''=='', ''!='', ''>='', ''<=''} then Some two
      else if one \<in> set ''+-*/><!'' then Some [one]
      else None)"

definition validateExprOperatorSpacing :: "string \<Rightarrow> nat \<Rightarrow> nat \<Rightarrow> bool" where
  "validateExprOperatorSpacing raw pos n \<longleftrightarrow>
     \<not> (pos > 0 \<and> \<not> isSpace (raw ! (pos - 1)) \<and> raw ! (pos - 1) \<noteq> CHR ''('' \<and> raw ! (pos - 1) \<noteq> CHR '','') \<and>
     pos + n < length raw \<and>
     (isSpace (raw ! (pos + n)) \<or> raw ! (pos + n) = CHR ''('')"

text \<open>The name at \<open>start\<close> with the position behind it.\<close>

definition readExprName ::
  "string \<Rightarrow> nat \<Rightarrow> expr_mode \<Rightarrow> err \<Rightarrow> (string \<times> nat) option \<times> err" where
  "readExprName raw start mode err =
     (if length raw \<le> start \<or> \<not> isIdentStart (raw ! start)
      then (None, exprFail mode raw ''expected identifier'' [] err)
      else
        (let i = start + 1 + length (takeWhile isIdentPart (drop (start + 1) raw)) in
         if i < length raw \<and> raw ! i = CHR ''.'' then
           (if length raw \<le> i + 1 \<or> \<not> isIdentStart (raw ! (i + 1))
            then (None, exprFail mode raw ''expected identifier after dot'' [] err)
            else
              (let j = i + 2 + length (takeWhile isIdentPart (drop (i + 2) raw)) in
               if j < length raw \<and> raw ! j = CHR ''.''
               then (None, exprFail mode raw ''qualified name must contain exactly one dot'' [] err)
               else (Some (take (j - start) (drop start raw), j), err)))
         else (Some (take (i - start) (drop start raw), i), err)))"

definition readExprNumber ::
  "string \<Rightarrow> nat \<Rightarrow> expr_mode \<Rightarrow> err \<Rightarrow> (string \<times> nat \<times> expr_operand) option \<times> err" where
  "readExprNumber raw start mode err =
     (let i = start + length (takeWhile is_digit (drop start raw)) in
      if i < length raw \<and> raw ! i = CHR ''.'' then
        (if length raw \<le> i + 1 \<or> \<not> is_digit (raw ! (i + 1))
         then (None, exprFail mode raw ''expected digit after decimal point'' [] err)
         else
           (let j = i + 1 + length (takeWhile is_digit (drop (i + 1) raw)) in
            (Some (take (j - start) (drop start raw), j,
               \<lparr>eo_Type = ValueFloat64, eo_UntypedNum = True, eo_FloatLiteral = True\<rparr>), err)))
      else (Some (take (i - start) (drop start raw), i,
              \<lparr>eo_Type = ValueInt64, eo_UntypedNum = True, eo_FloatLiteral = False\<rparr>), err))"

fun paren_loop :: "nat \<Rightarrow> nat \<Rightarrow> string \<Rightarrow> nat option" where
  "paren_loop i depth [] = None"
| "paren_loop i depth (c # cs) =
     (if c = CHR ''('' then paren_loop (i + 1) (depth + 1) cs
      else if c = CHR '')'' then
        (if depth - 1 = 0 then Some i else paren_loop (i + 1) (depth - 1) cs)
      else paren_loop (i + 1) depth cs)"

definition findMatchingParen :: "string \<Rightarrow> nat \<Rightarrow> nat option" where
  "findMatchingParen raw openIdx =
     (if length raw \<le> openIdx \<or> raw ! openIdx \<noteq> CHR ''('' then None
      else paren_loop openIdx 0 (drop openIdx raw))"

fun count_args :: "nat \<Rightarrow> nat \<Rightarrow> string \<Rightarrow> nat option" where
  "count_args count depth [] = Some count"
| "count_args count depth (c # cs) =
     (if c = CHR ''('' then count_args count (depth + 1) cs
      else if c = CHR '')'' then
        (if depth = 0 then None else count_args count (depth - 1) cs)
      else if c = CHR '','' \<and> depth = 0 then count_args (count + 1) depth cs
      else count_args count depth cs)"

definition validateExprArgCount :: "string \<Rightarrow> nat \<Rightarrow> bool" where
  "validateExprArgCount raw expected \<longleftrightarrow>
     (let t = trim_space raw in
      if expected = 0 then t = []
      else t \<noteq> [] \<and> count_args 1 0 t = Some expected)"

section \<open>Names\<close>

definition unresolved :: "value_type \<Rightarrow> resolved_name" where
  "unresolved t = \<lparr>rn_Go = ''0'', rn_Type = t, rn_Entity = None\<rparr>"

definition resolve_qualified ::
  "dsl_model \<Rightarrow> string \<Rightarrow> string \<Rightarrow> string \<Rightarrow> string \<Rightarrow> expr_mode \<Rightarrow> err \<Rightarrow> resolved_name \<times> err" where
  "resolve_qualified m raw name left right mode err =
     (if left = ''Simulation'' \<and> right = ''clock''
      then (\<lparr>rn_Go = ''clock'', rn_Type = ValueFloat64, rn_Entity = None\<rparr>, err)
      else case EntityByName m left of
        Some entity \<Rightarrow>
          (if \<not> em_AllowEntityField mode
           then (unresolved ValueInt64,
                 exprFail mode raw ''entity field %q is not allowed here'' [name] err)
           else case FieldByName entity right of
             None \<Rightarrow> (unresolved ValueInt64, exprFail mode raw ''unknown entity field %q'' [name] err)
           | Some field \<Rightarrow>
               (\<lparr>rn_Go = entityPoolName (ed_Name entity) @ ''.Entities[ref.Idx].'' @ entityFieldName (fd_Name field),
                 rn_Type = fd_Type field, rn_Entity = Some (ed_Name entity)\<rparr>, err))
      | None \<Rightarrow>
          (case BlockByName m left of
             Some block \<Rightarrow>
               (if \<not> hasMetricField (transportBlockMetricFields (bd_Params block)) right
                then (unresolved ValueInt64, exprFail mode raw ''unknown block metric %q'' [name] err)
                else (\<lparr>rn_Go = blockGoName block @ ''.'' @ right, rn_Type = ValueUint64,
                       rn_Entity = None\<rparr>, err))
           | None \<Rightarrow>
               (case ResourceByName m left of
                  Some resource \<Rightarrow>
                    (if \<not> hasMetricField transportResourceMetricFields right
                     then (unresolved ValueInt64, exprFail mode raw ''unknown resource metric %q'' [name] err)
                     else (\<lparr>rn_Go = resourceGoName (rd_Name resource) @ ''.'' @ right,
                            rn_Type = ValueUint64, rn_Entity = None\<rparr>, err))
                | None \<Rightarrow> (unresolved ValueInt64,
                           exprFail mode raw ''unknown qualified name %q'' [name] err))))"

definition resolveExprName ::
  "dsl_model \<Rightarrow> string \<Rightarrow> string \<Rightarrow> expr_mode \<Rightarrow> err \<Rightarrow> resolved_name \<times> err" where
  "resolveExprName m raw name mode err =
     (if name = ''true'' \<or> name = ''false''
      then (\<lparr>rn_Go = name, rn_Type = ValueBool, rn_Entity = None\<rparr>, err)
      else case VarByName m name of
        Some v \<Rightarrow> (\<lparr>rn_Go = varGoName (vd_Name v), rn_Type = vd_Type v, rn_Entity = None\<rparr>, err)
      | None \<Rightarrow>
          if distributionFunc name \<noteq> None
          then (unresolved ValueFloat64,
                exprFail mode raw ''distribution %q must be called as a function'' [name] err)
          else if castValueType name \<noteq> None
          then (unresolved ValueInt64, exprFail mode raw ''cast %q must be called as a function'' [name] err)
          else case split_byte (CHR ''.'') name of
            [left, right] \<Rightarrow> resolve_qualified m raw name left right mode err
          | _ \<Rightarrow>
              if name = ''clock''
              then (unresolved ValueFloat64, exprFail mode raw ''use Simulation.clock instead of clock'' [] err)
              else (unresolved ValueInt64, exprFail mode raw ''unknown identifier %q'' [name] err))"

definition mergeExprEntity ::
  "string \<Rightarrow> expr_mode \<Rightarrow> string option \<Rightarrow> string option \<Rightarrow> err \<Rightarrow> string option \<times> err" where
  "mergeExprEntity raw mode current nxt err =
     (case nxt of
        None \<Rightarrow> (current, err)
      | Some n \<Rightarrow>
          (case current of
             None \<Rightarrow> (nxt, err)
           | Some c \<Rightarrow>
               if c \<noteq> n
               then (current, exprFail mode raw
                       ''expression references fields of multiple entity types: %q and %q'' [c, n] err)
               else (current, err)))"

section \<open>Types\<close>

text \<open>
  The loop of \<open>inferExprType\<close> over the operands: whether a bool and a float literal were
  seen, and the type of the typed numbers; \<open>Inl\<close> is an error with its arguments.
\<close>

fun infer_loop ::
  "bool \<Rightarrow> bool \<Rightarrow> value_type option \<Rightarrow> expr_operand list \<Rightarrow>
   (string \<times> string list) + (bool \<times> bool \<times> value_type option)" where
  "infer_loop hasBool hasFloat concrete [] = Inr (hasBool, hasFloat, concrete)"
| "infer_loop hasBool hasFloat concrete (x # xs) =
     (if eo_Type x = ValueBool then infer_loop True hasFloat concrete xs
      else
        (let hasFloat' = (eo_FloatLiteral x \<or> hasFloat) in
         if eo_UntypedNum x then infer_loop hasBool hasFloat' concrete xs
         else if \<not> isNumericValueType (eo_Type x)
         then Inl (''unsupported operand type %s'', [valueTypeName (eo_Type x)])
         else case concrete of
           None \<Rightarrow> infer_loop hasBool hasFloat' (Some (eo_Type x)) xs
         | Some t \<Rightarrow>
             if t \<noteq> eo_Type x then Inl (''mixed numeric types require explicit cast'', [])
             else infer_loop hasBool hasFloat' concrete xs))"

text \<open>The type, or \<open>None\<close> (not ok) with the error.\<close>

definition inferExprType ::
  "string \<Rightarrow> expr_mode \<Rightarrow> expr_operand list \<Rightarrow> expr_flags \<Rightarrow> err \<Rightarrow> value_type option \<times> err" where
  "inferExprType raw mode operands flags err =
     (if operands = []
      then (None, exprFail mode raw ''expression does not contain operands'' [] err)
      else if ef_hasComparison flags \<or> ef_hasBoolOp flags then (Some ValueBool, err)
      else case infer_loop False False None operands of
        Inl (fmt, args) \<Rightarrow> (None, exprFail mode raw fmt args err)
      | Inr (hasBool, hasFloatLiteral, concrete) \<Rightarrow>
          if hasBool then
            (if length operands = 1 then (Some ValueBool, err)
             else (None, exprFail mode raw ''bool operand cannot be used as numeric expression'' [] err))
          else if em_HasExpected mode \<and> isNumericValueType (em_Expected mode) then
            (if hasFloatLiteral \<and> em_Expected mode \<noteq> ValueFloat64
             then (None, exprFail mode raw ''float literal cannot be used as %s without explicit cast''
                     [valueTypeName (em_Expected mode)] err)
             else case concrete of
               Some t \<Rightarrow>
                 if t \<noteq> em_Expected mode
                 then (None, exprFail mode raw ''expected %s, got %s. Use explicit cast''
                         [valueTypeName (em_Expected mode), valueTypeName t] err)
                 else (Some (em_Expected mode), err)
             | None \<Rightarrow> (Some (em_Expected mode), err))
          else case concrete of
            Some t \<Rightarrow> (Some t, err)
          | None \<Rightarrow> (Some (if hasFloatLiteral then ValueFloat64 else ValueInt64), err))"

section \<open>Progress\<close>

lemma readExprName_progress:
  "readExprName raw i mode err = (Some (name, nxt), err') \<Longrightarrow> i < nxt \<and> i < length raw"
  by (auto simp: readExprName_def Let_def split: if_splits)

lemma takeWhile_start: "i < length raw \<Longrightarrow> P (raw ! i) \<Longrightarrow> 0 < length (takeWhile P (drop i raw))"
  by (simp add: Cons_nth_drop_Suc [symmetric])

lemma readExprNumber_progress:
  assumes "readExprNumber raw i mode err = (Some (n, nxt, operand), err')"
    and "i < length raw" and "is_digit (raw ! i)"
  shows "i < nxt"
  using assms(1) takeWhile_start [OF assms(2), of is_digit, OF assms(3)]
  by (auto simp: readExprNumber_def Let_def split: if_splits)

lemma readExprOperator_size: "readExprOperator raw i = Some op \<Longrightarrow> 0 < length op"
  by (auto simp: readExprOperator_def Let_def split: if_splits)

lemma operator_progress:
  assumes "readExprOperator raw i = Some op" and "\<not> length raw \<le> i"
  shows "length raw - (i + length op) < length raw - i"
  using readExprOperator_size [OF assms(1)] assms(2) by linarith

lemma trimmed_shorter: "length (trim_space s) \<noteq> length s \<Longrightarrow> length (trim_space s) < length s"
  using length_trim_space [of s] by simp

lemma paren_loop_bound: "paren_loop i d s = Some j \<Longrightarrow> i \<le> j \<and> j < i + length s"
proof (induction i d s rule: paren_loop.induct)
  case (2 i depth c cs)
  then show ?case by (fastforce split: if_splits)
qed simp

lemma findMatchingParen_bound:
  assumes "findMatchingParen raw openIdx = Some j"
  shows "openIdx \<le> j \<and> j < length raw"
proof -
  from assms have "openIdx < length raw" and "paren_loop openIdx 0 (drop openIdx raw) = Some j"
    by (auto simp: findMatchingParen_def split: if_splits)
  with paren_loop_bound [of openIdx 0 "drop openIdx raw" j] show ?thesis by simp
qed

text \<open>What stands between the parentheses of a call.\<close>

definition inner_text :: "string \<Rightarrow> nat \<Rightarrow> nat \<Rightarrow> string" where
  "inner_text raw openIdx closeIdx = take (closeIdx - (openIdx + 1)) (drop (openIdx + 1) raw)"

lemma inner_text_shorter:
  "findMatchingParen raw openIdx = Some j \<Longrightarrow> length (inner_text raw openIdx j) < length raw"
  using findMatchingParen_bound [of raw openIdx j] by (auto simp: inner_text_def min_def)

lemma call_progress:
  assumes "findMatchingParen raw (nextNonSpace raw nxt) = Some j"
  shows "nxt \<le> j \<and> j < length raw"
  using findMatchingParen_bound [OF assms] by (simp add: nextNonSpace_def)

section \<open>Translation\<close>

definition call_mode :: "expr_mode \<Rightarrow> string \<Rightarrow> bool \<Rightarrow> expr_mode" where
  "call_mode mode what allowEmpty =
     \<lparr>em_Context = em_Context mode @ what, em_AllowEntityField = em_AllowEntityField mode,
      em_HasExpected = False, em_Expected = ValueFloat64, em_AllowEmpty = allowEmpty\<rparr>"

definition operator_flags :: "string \<Rightarrow> expr_flags \<Rightarrow> expr_flags" where
  "operator_flags op flags =
     (if isArithmeticOperator op then flags\<lparr>ef_hasArithmetic := True\<rparr>
      else if isComparisonOperator op then flags\<lparr>ef_hasComparison := True\<rparr>
      else if op \<in> {''&&'', ''||'', ''!''} then flags\<lparr>ef_hasBoolOp := True\<rparr>
      else flags)"

definition typed_operand :: "value_type \<Rightarrow> expr_operand" where
  "typed_operand t = \<lparr>eo_Type = t, eo_UntypedNum = False, eo_FloatLiteral = False\<rparr>"

definition no_flags :: expr_flags where
  "no_flags = \<lparr>ef_hasArithmetic = False, ef_hasComparison = False, ef_hasBoolOp = False\<rparr>"

text \<open>
  \<open>translateExpr\<close>, the loop of \<open>translateExprRaw\<close> at position \<open>i\<close>, and \<open>translateExprCall\<close>
  once the closing parenthesis is found, whose result is \<open>None\<close> when it is not ok. The argument of a call is shorter than the text
  around it, and every turn of the loop moves forward.
\<close>

function (sequential)
  translateExpr :: "dsl_model \<Rightarrow> expr \<Rightarrow> expr_mode \<Rightarrow> err \<Rightarrow> emitted_expr \<times> err"
and translate_loop :: "dsl_model \<Rightarrow> string \<Rightarrow> expr_mode \<Rightarrow> nat \<Rightarrow> string \<Rightarrow> expr_operand list \<Rightarrow>
      expr_flags \<Rightarrow> string option \<Rightarrow> err \<Rightarrow> emitted_expr \<times> err"
and translateExprCall :: "dsl_model \<Rightarrow> string \<Rightarrow> string \<Rightarrow> string \<Rightarrow> expr_mode \<Rightarrow> err \<Rightarrow>
      emitted_expr option \<times> err"
where
  "translateExpr m expr mode err =
     (let raw = trim_space expr in
      if raw = [] then
        (if em_AllowEmpty mode
         then (\<lparr>ee_Go = [], ee_Type = em_Expected mode, ee_Entity = None\<rparr>, err)
         else (zero_expr mode, exprFail mode raw ''empty expression'' [] err))
      else
        (case translate_loop m raw mode 0 [] [] no_flags None err of
           (result, err') \<Rightarrow>
             if em_HasExpected mode \<and> \<not> exprTypesCompatible (ee_Type result) (em_Expected mode)
             then ((zero_expr mode)\<lparr>ee_Type := em_Expected mode\<rparr>,
                   exprFail mode raw
                     ''expected %s, got %s. Use explicit cast if this conversion is intentional''
                     [valueTypeName (em_Expected mode), valueTypeName (ee_Type result)] err')
             else (result, err')))"
| "translate_loop m raw mode i out operands flags entity err =
     (if length raw \<le> i then
        (case inferExprType raw mode operands flags err of
           (None, err') \<Rightarrow> (zero_expr mode, err')
         | (Some t, err') \<Rightarrow> (\<lparr>ee_Go = out, ee_Type = t, ee_Entity = entity\<rparr>, err'))
      else if isIdentStart (raw ! i) then
        (case readExprName raw i mode err of
           (None, err') \<Rightarrow> (zero_expr mode, err')
         | (Some (name, nxt), err') \<Rightarrow>
             (let openIdx = nextNonSpace raw nxt in
              if openIdx < length raw \<and> raw ! openIdx = CHR ''('' then
                (case findMatchingParen raw openIdx of
                   None \<Rightarrow> (zero_expr mode, exprFail mode raw ''unclosed function call %q'' [name] err')
                 | Some closeIdx \<Rightarrow>
                     (case translateExprCall m raw name (inner_text raw openIdx closeIdx) mode err' of
                        (None, err'') \<Rightarrow> (zero_expr mode, err'')
                      | (Some call, err'') \<Rightarrow>
                          (case mergeExprEntity raw mode entity (ee_Entity call) err'' of
                             (entity', err3) \<Rightarrow>
                               translate_loop m raw mode (closeIdx + 1) (out @ ee_Go call)
                                 (operands @ [typed_operand (ee_Type call)]) flags entity' err3)))
              else
                (case resolveExprName m raw name mode err' of
                   (resolved, err'') \<Rightarrow>
                     (case mergeExprEntity raw mode entity (rn_Entity resolved) err'' of
                        (entity', err3) \<Rightarrow>
                          translate_loop m raw mode nxt (out @ rn_Go resolved)
                            (operands @ [typed_operand (rn_Type resolved)]) flags entity' err3))))
      else if is_digit (raw ! i) then
        (case readExprNumber raw i mode err of
           (None, err') \<Rightarrow> (zero_expr mode, err')
         | (Some (number, nxt, operand), err') \<Rightarrow>
             translate_loop m raw mode nxt (out @ number) (operands @ [operand]) flags entity err')
      else
        (case readExprOperator raw i of
           Some op \<Rightarrow>
             if \<not> validateExprOperatorSpacing raw i (length op)
             then (zero_expr mode,
                   exprFail mode raw ''operator %q must be separated by spaces'' [op] err)
             else translate_loop m raw mode (i + length op) (out @ op) operands
                    (operator_flags op flags) entity err
         | None \<Rightarrow>
             if isOperatorChar (raw ! i)
             then (zero_expr mode,
                   exprFail mode raw ''unknown or incomplete operator near %q'' [[raw ! i]] err)
             else translate_loop m raw mode (i + 1) (out @ [raw ! i]) operands flags entity err))"
| "translateExprCall m raw name innerRaw mode err =
     (case castValueType name of
        Some targetType \<Rightarrow>
          if \<not> validateExprArgCount innerRaw 1
          then (None, exprFail mode raw ''cast %q expects exactly one argument'' [name] err)
          else
            (case translateExpr m innerRaw (call_mode mode ('' argument of '' @ name) False) err of
               (arg, err') \<Rightarrow>
                 (Some \<lparr>ee_Go = name @ ''('' @ ee_Go arg @ '')'', ee_Type = targetType,
                        ee_Entity = ee_Entity arg\<rparr>, err'))
      | None \<Rightarrow>
          (case distributionFunc name of
             Some (goName, argCount) \<Rightarrow>
               if \<not> validateExprArgCount innerRaw argCount
               then (None, exprFail mode raw ''distribution %q expects %d arguments''
                       [name, decimal argCount] err)
               else
                 (case translateExpr m innerRaw
                         (call_mode mode ('' arguments of '' @ name) (argCount = 0)) err of
                    (args, err') \<Rightarrow>
                      (Some \<lparr>ee_Go = goName @ ''('' @ ee_Go args @ '')'', ee_Type = ValueFloat64,
                             ee_Entity = ee_Entity args\<rparr>, err'))
           | None \<Rightarrow> (None, exprFail mode raw ''unknown function %q'' [name] err)))"
  by pat_completeness auto

termination
proof (relation "inv_image (less_than <*lex*> less_than <*lex*> less_than)
    (case_sum (\<lambda>(m, expr, mode, err). (length expr, 2, 0))
      (case_sum (\<lambda>(m, raw, mode, i, out, operands, flags, entity, err). (length raw, 1, length raw - i))
        (\<lambda>(m, raw, name, inner, mode, err). (length inner, 3, 0))))", goal_cases)
qed (auto dest!: readExprName_progress [OF sym] readExprNumber_progress [OF sym] call_progress
      simp: inner_text_shorter operator_progress trimmed_shorter)

declare translateExpr.simps [simp del] translate_loop.simps [simp del] translateExprCall.simps [simp del]

definition emitNoEntityTypedExpr ::
  "dsl_model \<Rightarrow> expr \<Rightarrow> value_type \<Rightarrow> string \<Rightarrow> err \<Rightarrow> string \<times> err" where
  "emitNoEntityTypedExpr m e expected context err =
     (case translateExpr m e \<lparr>em_Context = context, em_AllowEntityField = False,
        em_HasExpected = True, em_Expected = expected, em_AllowEmpty = False\<rparr> err of
        (result, err') \<Rightarrow> (ee_Go result, err'))"

definition emitRuntimeTypedExpr ::
  "dsl_model \<Rightarrow> expr \<Rightarrow> value_type \<Rightarrow> string \<Rightarrow> err \<Rightarrow> string \<times> string option \<times> err" where
  "emitRuntimeTypedExpr m e expected context err =
     (case translateExpr m e \<lparr>em_Context = context, em_AllowEntityField = True,
        em_HasExpected = True, em_Expected = expected, em_AllowEmpty = False\<rparr> err of
        (result, err') \<Rightarrow> (ee_Go result, ee_Entity result, err'))"

end
