(* ===== verification/Dsl_Expr_Correct.thy ===== *)
theory Dsl_Expr_Correct
  imports Dsl_Expr
begin

text \<open>
  What the expression translator promises: an accepted expression is its own text with every
  name replaced by what it refers to, it has the expected type, and it uses fields of
  entities only where they are allowed.
\<close>

section \<open>Errors stay\<close>

lemma exprFail_not_None [simp]: "exprFail mode raw f a e \<noteq> None"
  by (simp add: exprFail_def split: option.splits)

lemma exprFail_Some [simp]: "exprFail mode raw f a (Some e) = Some e"
  by (simp add: exprFail_def)

text \<open>A step that ends without error started without one.\<close>

lemma readExprName_err: "readExprName raw i mode err = (r, None) \<Longrightarrow> err = None \<and> r \<noteq> None"
  by (auto simp: readExprName_def Let_def exprFail_def split: if_splits option.splits)

lemma readExprNumber_err: "readExprNumber raw i mode err = (r, None) \<Longrightarrow> err = None \<and> r \<noteq> None"
  by (auto simp: readExprNumber_def Let_def exprFail_def split: if_splits option.splits)

lemma resolve_qualified_err:
  "resolve_qualified m raw name l r mode err = (res, None) \<Longrightarrow> err = None"
  by (auto simp: resolve_qualified_def split: if_splits option.splits)

lemma resolveExprName_err: "resolveExprName m raw name mode err = (res, None) \<Longrightarrow> err = None"
  by (auto simp: resolveExprName_def split: if_splits option.splits list.splits
      dest: resolve_qualified_err)

lemma mergeExprEntity_err: "mergeExprEntity raw mode c n err = (e, None) \<Longrightarrow> err = None"
  by (auto simp: mergeExprEntity_def split: if_splits option.splits)

lemma inferExprType_err: "inferExprType raw mode ops fl err = (t, None) \<Longrightarrow> err = None \<and> t \<noteq> None"
  by (auto simp: inferExprType_def split: if_splits option.splits sum.splits)

section \<open>The translation relation\<close>

text \<open>
  What a name stands for: its Go text, its type, and the entity whose field it is. Fields of
  entities are only names where they are allowed.
\<close>

inductive refers ::
  "dsl_model \<Rightarrow> bool \<Rightarrow> string \<Rightarrow> string \<Rightarrow> value_type \<Rightarrow> string option \<Rightarrow> bool" for m allow
where
  refers_bool: "n = ''true'' \<or> n = ''false'' \<Longrightarrow> refers m allow n n ValueBool None"
| refers_var: "VarByName m n = Some v \<Longrightarrow> refers m allow n (varGoName (vd_Name v)) (vd_Type v) None"
| refers_clock: "refers m allow ''Simulation.clock'' ''clock'' ValueFloat64 None"
| refers_field:
    "allow \<Longrightarrow> EntityByName m l = Some e \<Longrightarrow> FieldByName e r = Some f \<Longrightarrow>
     refers m allow (l @ ''.'' @ r)
       (entityPoolName (ed_Name e) @ ''.Entities[ref.Idx].'' @ entityFieldName (fd_Name f))
       (fd_Type f) (Some (ed_Name e))"
| refers_block:
    "BlockByName m l = Some b \<Longrightarrow> r \<in> set (transportBlockMetricFields (bd_Params b)) \<Longrightarrow>
     refers m allow (l @ ''.'' @ r) (blockGoName b @ ''.'' @ r) ValueUint64 None"
| refers_resource:
    "ResourceByName m l = Some res \<Longrightarrow> r \<in> set transportResourceMetricFields \<Longrightarrow>
     refers m allow (l @ ''.'' @ r) (resourceGoName (rd_Name res) @ ''.'' @ r) ValueUint64 None"

text \<open>What is called: a cast keeps its name, a distribution is a method of the generator.\<close>

definition callee :: "string \<Rightarrow> string \<Rightarrow> bool" where
  "callee n g \<longleftrightarrow> castValueType n \<noteq> None \<and> g = n \<or> (\<exists>k. distributionFunc n = Some (g, k))"

definition is_number :: "string \<Rightarrow> bool" where
  "is_number n \<longleftrightarrow> (\<exists>a b. a \<noteq> [] \<and> list_all is_digit a \<and> list_all is_digit b \<and>
     (n = a \<or> b \<noteq> [] \<and> n = a @ ''.'' @ b))"

definition is_operator :: "string \<Rightarrow> bool" where
  "is_operator op \<longleftrightarrow> isArithmeticOperator op \<or> isComparisonOperator op \<or> op \<in> {''&&'', ''||'', ''!''}"

text \<open>Both parts of an expression may use fields, if they are fields of one entity.\<close>

definition merged :: "string option \<Rightarrow> string option \<Rightarrow> string option \<Rightarrow> bool" where
  "merged a b c \<longleftrightarrow> a = None \<and> c = b \<or> b = None \<and> c = a \<or> a = b \<and> c = a"

text \<open>The text so far, its Go text, and the entity whose fields it uses.\<close>

inductive translates :: "dsl_model \<Rightarrow> bool \<Rightarrow> string \<Rightarrow> string \<Rightarrow> string option \<Rightarrow> bool" for m allow
where
  nothing: "translates m allow [] [] None"
| a_name:
    "translates m allow raw go e \<Longrightarrow> refers m allow n g t e' \<Longrightarrow> merged e e' e'' \<Longrightarrow>
     translates m allow (raw @ n) (go @ g) e''"
| a_number:
    "translates m allow raw go e \<Longrightarrow> is_number n \<Longrightarrow> translates m allow (raw @ n) (go @ n) e"
| an_operator:
    "translates m allow raw go e \<Longrightarrow> is_operator op \<Longrightarrow> translates m allow (raw @ op) (go @ op) e"
| other:
    "translates m allow raw go e \<Longrightarrow> \<not> isIdentStart c \<Longrightarrow> \<not> is_digit c \<Longrightarrow> \<not> isOperatorChar c \<Longrightarrow>
     translates m allow (raw @ [c]) (go @ [c]) e"
| a_call:
    "translates m allow raw go e \<Longrightarrow> callee n g \<Longrightarrow> list_all isSpace gap \<Longrightarrow>
     translates m allow (trim_space inner) args e' \<Longrightarrow> merged e e' e'' \<Longrightarrow>
     translates m allow (raw @ n @ gap @ ''('' @ inner @ '')'') (go @ g @ ''('' @ args @ '')'') e''"

text \<open>Without fields no entity is used.\<close>

lemma refers_no_field: "refers m False n g t e \<Longrightarrow> e = None"
  by (cases rule: refers.cases) auto

lemma translates_no_field: "translates m False raw go e \<Longrightarrow> e = None"
proof (induction rule: translates.induct)
  case (a_name raw go e n g t e' e'')
  then show ?case using refers_no_field [of m n g t e'] by (auto simp: merged_def)
qed (auto simp: merged_def)

section \<open>The steps follow the relation\<close>

lemma take_token: "i \<le> j \<Longrightarrow> take j raw = take i raw @ take (j - i) (drop i raw)"
  by (simp add: take_add [symmetric])

lemma take_across:
  assumes "i + k < length raw"
  shows "take (k + 1 + l) (drop i raw) =
    take k (drop i raw) @ [raw ! (i + k)] @ take l (drop (i + k + 1) raw)"
proof -
  have "take (k + 1 + l) (drop i raw) = take k (drop i raw) @ take (1 + l) (drop k (drop i raw))"
    using take_add [of k "1 + l" "drop i raw"] by (simp add: add.assoc)
  also have "drop k (drop i raw) = raw ! (i + k) # drop (i + k + 1) raw"
    using Cons_nth_drop_Suc [OF assms] by (simp add: add.commute)
  finally show ?thesis by simp
qed

lemma readExprName_token:
  assumes "readExprName raw i mode err = (Some (name, nxt), err')"
  shows "take nxt raw = take i raw @ name \<and> i < nxt"
proof -
  have nxt: "i < nxt" using readExprName_progress [OF assms] by simp
  have "name = take (nxt - i) (drop i raw)"
    using assms by (auto simp: readExprName_def Let_def split: if_splits)
  with nxt take_token [of i nxt raw] show ?thesis by simp
qed

lemma resolve_qualified_refers:
  assumes "resolve_qualified m raw n l r mode err = (res, None)" and "n = l @ ''.'' @ r"
  shows "refers m (em_AllowEntityField mode) n (rn_Go res) (rn_Type res) (rn_Entity res)"
  using assms
  by (auto simp: resolve_qualified_def hasMetricField_def list_ex_iff split: if_splits option.splits
      intro: refers_clock refers_field [simplified] refers_block [simplified] refers_resource [simplified])

lemma split_two: "split_byte c n = [l, r] \<Longrightarrow> n = l @ [c] @ r"
  using split_byte_join [of c n] by simp

lemma resolveExprName_refers:
  assumes "resolveExprName m raw n mode err = (res, None)"
  shows "refers m (em_AllowEntityField mode) n (rn_Go res) (rn_Type res) (rn_Entity res)"
proof (cases "VarByName m n")
  case (Some v)
  with assms show ?thesis
    by (auto simp: resolveExprName_def split: if_splits intro: refers_bool refers_var)
next
  case None
  show ?thesis
  proof (cases "n = ''true'' \<or> n = ''false''")
    case True
    with assms show ?thesis by (auto simp: resolveExprName_def intro: refers_bool)
  next
    case False
    with None assms obtain l r where lr: "split_byte (CHR ''.'') n = [l, r]"
      and "resolve_qualified m raw n l r mode err = (res, None)"
      by (auto simp: resolveExprName_def split: if_splits list.splits)
    then show ?thesis
      using resolve_qualified_refers [of m raw n l r mode err res] split_two [OF lr] by simp
  qed
qed

lemma mergeExprEntity_merged: "mergeExprEntity raw mode a b err = (c, None) \<Longrightarrow> merged a b c"
  by (auto simp: mergeExprEntity_def merged_def split: option.splits if_splits)

lemma readExprNumber_token:
  assumes "readExprNumber raw i mode err = (Some (n, nxt, operand), err')"
    and "i < length raw" and "is_digit (raw ! i)"
  shows "take nxt raw = take i raw @ n \<and> is_number n"
proof -
  have nxt: "i < nxt" using readExprNumber_progress [OF assms] .
  have "n = take (nxt - i) (drop i raw)"
    using assms(1) by (auto simp: readExprNumber_def Let_def split: if_splits)
  moreover have "is_number n"
  proof -
    define a where "a = takeWhile is_digit (drop i raw)"
    define b where "b = takeWhile is_digit (drop (i + length a + 1) raw)"
    have a: "a \<noteq> []" "list_all is_digit a"
      using takeWhile_start [OF assms(2), of is_digit, OF assms(3)]
      by (auto simp: a_def list_all_iff dest: set_takeWhileD)
    have b: "list_all is_digit b"
      by (auto simp: b_def list_all_iff dest: set_takeWhileD)
    have a_take: "take (length a) (drop i raw) = a"
      by (simp add: a_def takeWhile_eq_take [symmetric])
    show ?thesis
    proof (cases "i + length a < length raw \<and> raw ! (i + length a) = CHR ''.''")
      case False
      then have "n = take (length a) (drop i raw)"
        using assms(1) by (auto simp: readExprNumber_def Let_def a_def split: if_splits)
      with a a_take show ?thesis
        unfolding is_number_def by (intro exI [where x = a] exI [where x = "[]"]) simp
    next
      case True
      then have digit: "i + length a + 1 < length raw" "is_digit (raw ! (i + length a + 1))"
        and n: "n = take (length a + 1 + length b) (drop i raw)"
        using assms(1) by (auto simp: readExprNumber_def Let_def a_def b_def split: if_splits)
      have "b \<noteq> []"
        using takeWhile_start [OF digit(1), of is_digit, OF digit(2)] by (simp add: b_def)
      moreover have "take (length b) (drop (i + length a + 1) raw) = b"
        by (simp add: b_def takeWhile_eq_take [symmetric])
      then have "n = a @ ''.'' @ b"
        using True a_take take_across [of i "length a" raw "length b"] unfolding n by simp
      ultimately show ?thesis
        using a b unfolding is_number_def by blast
    qed
  qed
  ultimately show ?thesis using nxt take_token [of i nxt raw] by simp
qed

lemma readExprOperator_token:
  assumes "readExprOperator raw i = Some op" and "i < length raw"
  shows "take (i + length op) raw = take i raw @ op \<and> is_operator op"
proof -
  have "op = take (length op) (drop i raw)"
  proof (cases "i + 2 \<le> length raw \<and> take 2 (drop i raw) \<in> {''&&'', ''||'', ''=='', ''!='', ''>='', ''<=''}")
    case True
    with assms(1) have "op = take 2 (drop i raw)" by (simp add: readExprOperator_def)
    moreover have "length op = 2" using True calculation by auto
    ultimately show ?thesis by simp
  next
    case False
    with assms(1) have "op = [raw ! i]" by (auto simp: readExprOperator_def Let_def split: if_splits)
    with assms(2) show ?thesis by (simp add: Cons_nth_drop_Suc [symmetric])
  qed
  moreover have "is_operator op"
    using assms(1)
    by (auto simp: readExprOperator_def Let_def is_operator_def isArithmeticOperator_def
        isComparisonOperator_def split: if_splits)
  ultimately show ?thesis
    using take_token [of i "i + length op" raw] by simp
qed

lemma paren_loop_close: "paren_loop i d s = Some j \<Longrightarrow> i \<le> j \<and> s ! (j - i) = CHR '')''"
proof (induction i d s rule: paren_loop.induct)
  case (2 i depth c cs)
  have later: "i \<le> j \<and> (c # cs) ! (j - i) = CHR '')''"
    if "i + 1 \<le> j \<and> cs ! (j - (i + 1)) = CHR '')''"
  proof -
    have "j - i = Suc (j - (i + 1))" using that by (metis Suc_diff_le add.commute diff_Suc_Suc plus_1_eq_Suc)
    with that show ?thesis by simp
  qed
  from 2 show ?case
    using later by (auto split: if_splits simp del: nth_Cons_Suc)
qed simp

lemma findMatchingParen_close:
  assumes "findMatchingParen raw k = Some j"
  shows "k < length raw \<and> raw ! k = CHR ''('' \<and> k < j \<and> j < length raw \<and> raw ! j = CHR '')''"
proof -
  have k: "k < length raw" "raw ! k = CHR ''(''" and loop: "paren_loop k 0 (drop k raw) = Some j"
    using assms by (auto simp: findMatchingParen_def split: if_splits)
  have j: "k \<le> j" "raw ! j = CHR '')''"
    using paren_loop_close [OF loop] k by auto
  with k have "k \<noteq> j" by auto
  with j k findMatchingParen_bound [OF assms] show ?thesis by auto
qed

text \<open>The text of a call: its name, space, and the argument in parentheses.\<close>

lemma call_text:
  assumes "take nxt raw = pre @ name"
    and "findMatchingParen raw (nextNonSpace raw nxt) = Some j"
  shows "take (j + 1) raw = pre @ name @ takeWhile isSpace (drop nxt raw) @ ''('' @
    inner_text raw (nextNonSpace raw nxt) j @ '')''"
proof -
  let ?k = "nextNonSpace raw nxt"
  let ?gap = "takeWhile isSpace (drop nxt raw)"
  note paren = findMatchingParen_close [OF assms(2)]
  have k: "?k = nxt + length ?gap" by (simp add: nextNonSpace_def)
  have "take ?k raw = take nxt raw @ take (length ?gap) (drop nxt raw)"
    unfolding k by (rule take_add)
  then have upto: "take ?k raw = pre @ name @ ?gap"
    using assms(1) by (simp add: takeWhile_eq_take [symmetric])
  have "j + 1 = ?k + (1 + (j - (?k + 1)) + 1)" using paren by simp
  then have "take (j + 1) raw = take ?k raw @ take (1 + (j - (?k + 1)) + 1) (drop ?k raw)"
    by (metis take_add)
  also have "drop ?k raw = CHR ''('' # drop (?k + 1) raw"
    using Cons_nth_drop_Suc [of ?k raw] paren by simp
  also have "take (1 + (j - (?k + 1)) + 1) (CHR ''('' # drop (?k + 1) raw) =
      CHR ''('' # take (j - (?k + 1) + 1) (drop (?k + 1) raw)"
    by simp
  also have "take (j - (?k + 1) + 1) (drop (?k + 1) raw) = inner_text raw ?k j @ '')''"
    using take_across [of "?k + 1" "j - (?k + 1)" raw 0] paren by (simp add: inner_text_def)
  finally show ?thesis using upto by simp
qed

section \<open>Soundness\<close>

abbreviation sound_expr :: "dsl_model \<Rightarrow> expr_mode \<Rightarrow> string \<Rightarrow> emitted_expr \<Rightarrow> bool" where
  "sound_expr m mode raw res \<equiv>
     translates m (em_AllowEntityField mode) raw (ee_Go res) (ee_Entity res)"

lemma call_mode_allow [simp]: "em_AllowEntityField (call_mode mode w b) = em_AllowEntityField mode"
  by (simp add: call_mode_def)

lemma translation_sound:
  "translateExpr m e mode err = (res, None) \<Longrightarrow> err = None \<and> sound_expr m mode (trim_space e) res"
  "translate_loop m raw mode i out ops fl ent err = (res2, None) \<Longrightarrow>
     err = None \<and>
     (translates m (em_AllowEntityField mode) (take i raw) out ent \<longrightarrow> sound_expr m mode raw res2)"
  "translateExprCall m raw name inner mode err = (res3, None) \<Longrightarrow>
     err = None \<and>
     (\<exists>c g args. res3 = Some c \<and> callee name g \<and> ee_Go c = g @ ''('' @ args @ '')'' \<and>
        translates m (em_AllowEntityField mode) (trim_space inner) args (ee_Entity c))"
proof (induction m e mode err and m raw mode i out ops fl ent err and m raw name inner mode err
    arbitrary: res and res2 and res3
    rule: translateExpr_translate_loop_translateExprCall.induct)
  case (1 m e mode err)
  show ?case
  proof (cases "trim_space e = []")
    case True
    with 1(2) show ?thesis
      by (auto simp: translateExpr.simps split: if_splits intro: translates.nothing)
  next
    case False
    obtain r err' where loop: "translate_loop m (trim_space e) mode 0 [] [] no_flags None err = (r, err')"
      by (cases "translate_loop m (trim_space e) mode 0 [] [] no_flags None err")
    with False 1(2) have "res = r" "err' = None"
      by (auto simp: translateExpr.simps split: if_splits)
    with 1(1) [OF refl False, of r] loop show ?thesis
      by (simp add: translates.nothing)
  qed
next
  case (2 m raw mode i out ops fl ent err)
  note IH_call = 2(1) and IH_after_call = 2(2) and IH_name = 2(3) and IH_number = 2(4)
    and IH_other = 2(5) and IH_operator = 2(6)
  note step = 2(7) [unfolded translate_loop.simps [of m raw mode i out ops fl ent err]]
  let ?tr = "translates m (em_AllowEntityField mode)"
  show ?case
  proof (cases "length raw \<le> i")
    case True
    with step show ?thesis
      by (auto split: prod.splits option.splits dest!: inferExprType_err)
  next
    case inside: False
    note step1 = step [unfolded if_not_P [OF inside]]
    show ?thesis
    proof (cases "isIdentStart (raw ! i)")
      case ident: True
      obtain r err1 where name: "readExprName raw i mode err = (r, err1)"
        by (cases "readExprName raw i mode err")
      show ?thesis
      proof (cases r)
        case None
        with step1 ident name show ?thesis by (auto dest: readExprName_err)
      next
        case (Some rn)
        obtain n nxt where rn: "rn = (n, nxt)" by (cases rn)
        note name' = name [unfolded Some rn]
        note tok = readExprName_token [OF name']
        let ?k = "nextNonSpace raw nxt"
        show ?thesis
        proof (cases "?k < length raw \<and> raw ! ?k = CHR ''(''")
          case call: True
          note step2 = step1 [unfolded if_P [OF ident] name' Let_def option.case prod.case if_P [OF call]]
          obtain j where j: "findMatchingParen raw ?k = Some j"
            using step2 by (cases "findMatchingParen raw ?k") auto
          obtain cr err2 where cr: "translateExprCall m raw n (inner_text raw ?k j) mode err1 = (cr, err2)"
            by (cases "translateExprCall m raw n (inner_text raw ?k j) mode err1")
          note call_ok = IH_call [OF inside ident name' [symmetric] refl refl refl call j]
          show ?thesis
          proof (cases cr)
            case None
            with step2 j cr call_ok [of None] show ?thesis by auto
          next
            case (Some c)
            obtain ent' err3 where mrg: "mergeExprEntity raw mode ent (ee_Entity c) err2 = (ent', err3)"
              by (cases "mergeExprEntity raw mode ent (ee_Entity c) err2")
            have rest: "translate_loop m raw mode (j + 1) (out @ ee_Go c)
                (ops @ [typed_operand (ee_Type c)]) fl ent' err3 = (res2, None)"
              using step2 j cr Some mrg by simp
            have later: "err3 = None \<and> (?tr (take (j + 1) raw) (out @ ee_Go c) ent' \<longrightarrow> sound_expr m mode raw res2)"
              by (rule IH_after_call [OF inside ident name' [symmetric] refl refl refl call j
                    cr [symmetric] Some mrg [symmetric] rest])
            then have "err2 = None" and m: "merged ent (ee_Entity c) ent'"
              using mrg mergeExprEntity_err mergeExprEntity_merged by blast+
            with call_ok [of cr] cr Some obtain g args where "err1 = None" and g: "callee n g"
              and go: "ee_Go c = g @ ''('' @ args @ '')''"
              and args: "?tr (trim_space (inner_text raw ?k j)) args (ee_Entity c)"
              by auto
            have "?tr (take (j + 1) raw) (out @ ee_Go c) ent'" if pre: "?tr (take i raw) out ent"
            proof -
              have "take (j + 1) raw = take i raw @ n @ takeWhile isSpace (drop nxt raw) @ ''('' @
                  inner_text raw ?k j @ '')''"
                by (rule call_text [OF conjunct1 [OF tok] j])
              moreover have "list_all isSpace (takeWhile isSpace (drop nxt raw))"
                by (auto simp: list_all_iff dest: set_takeWhileD)
              ultimately show ?thesis
                unfolding go using translates.a_call [OF pre g _ args m] by metis
            qed
            with later name' \<open>err1 = None\<close> show ?thesis
              by (auto dest: readExprName_err)
          qed
        next
          case no_call: False
          note step2 = step1 [unfolded if_P [OF ident] name' Let_def option.case prod.case if_not_P [OF no_call]]
          obtain res err2 where res: "resolveExprName m raw n mode err1 = (res, err2)"
            by (cases "resolveExprName m raw n mode err1")
          obtain ent' err3 where mrg: "mergeExprEntity raw mode ent (rn_Entity res) err2 = (ent', err3)"
            by (cases "mergeExprEntity raw mode ent (rn_Entity res) err2")
          have rest: "translate_loop m raw mode nxt (out @ rn_Go res)
              (ops @ [typed_operand (rn_Type res)]) fl ent' err3 = (res2, None)"
            using step2 res mrg by simp
          have later: "err3 = None \<and> (?tr (take nxt raw) (out @ rn_Go res) ent' \<longrightarrow> sound_expr m mode raw res2)"
            by (rule IH_name [OF inside ident name' [symmetric] refl refl refl no_call
                  res [symmetric] mrg [symmetric] rest])
          then have "err2 = None" and m: "merged ent (rn_Entity res) ent'"
            using mrg mergeExprEntity_err mergeExprEntity_merged by blast+
          then have ref: "refers m (em_AllowEntityField mode) n (rn_Go res) (rn_Type res) (rn_Entity res)"
            and "err1 = None"
            using res resolveExprName_refers resolveExprName_err by blast+
          have "?tr (take nxt raw) (out @ rn_Go res) ent'" if pre: "?tr (take i raw) out ent"
            using translates.a_name [OF pre ref m] tok by simp
          with later name' \<open>err1 = None\<close> show ?thesis
            by (auto dest: readExprName_err)
        qed
      qed
    next
      case no_ident: False
      show ?thesis
      proof (cases "is_digit (raw ! i)")
        case digit: True
        obtain r err1 where num: "readExprNumber raw i mode err = (r, err1)"
          by (cases "readExprNumber raw i mode err")
        show ?thesis
        proof (cases r)
          case None
          with step1 no_ident digit num show ?thesis by (auto dest: readExprNumber_err)
        next
          case (Some q)
          obtain n nxt operand where q: "q = (n, nxt, operand)" by (cases q)
          note num' = num [unfolded Some q]
          have rest: "translate_loop m raw mode nxt (out @ n) (ops @ [operand]) fl ent err1 = (res2, None)"
            using step1 no_ident digit num' by simp
          have later: "err1 = None \<and> (?tr (take nxt raw) (out @ n) ent \<longrightarrow> sound_expr m mode raw res2)"
            by (rule IH_number [OF inside no_ident digit num' [symmetric] refl refl refl rest])
          have "take nxt raw = take i raw @ n \<and> is_number n"
            by (rule readExprNumber_token [OF num' _ digit]) (use inside in simp)
          with later num' show ?thesis
            by (auto dest: readExprNumber_err intro: translates.a_number)
        qed
      next
        case no_digit: False
        note step2 = step1 [unfolded if_not_P [OF no_ident] if_not_P [OF no_digit]]
        show ?thesis
        proof (cases "readExprOperator raw i")
          case None
          then have op: "\<not> isOperatorChar (raw ! i)"
            and rest: "translate_loop m raw mode (i + 1) (out @ [raw ! i]) ops fl ent err = (res2, None)"
            using step2 by (auto split: if_splits)
          have later: "err = None \<and> (?tr (take (i + 1) raw) (out @ [raw ! i]) ent \<longrightarrow> sound_expr m mode raw res2)"
            by (rule IH_other [OF inside no_ident no_digit None op rest])
          have "?tr (take (i + 1) raw) (out @ [raw ! i]) ent" if pre: "?tr (take i raw) out ent"
            using translates.other [OF pre no_ident no_digit op] inside
            by (simp add: take_Suc_conv_app_nth)
          with later show ?thesis by blast
        next
          case (Some op)
          then have space: "\<not> \<not> validateExprOperatorSpacing raw i (length op)"
            and rest: "translate_loop m raw mode (i + length op) (out @ op) ops (operator_flags op fl) ent err
              = (res2, None)"
            using step2 by (auto split: if_splits)
          have later: "err = None \<and> (?tr (take (i + length op) raw) (out @ op) ent \<longrightarrow> sound_expr m mode raw res2)"
            by (rule IH_operator [OF inside no_ident no_digit Some space rest])
          have "take (i + length op) raw = take i raw @ op \<and> is_operator op"
            by (rule readExprOperator_token [OF Some]) (use inside in simp)
          with later show ?thesis
            by (auto intro: translates.an_operator)
        qed
      qed
    qed
  qed
next
  case (3 m raw name inner mode err)
  show ?case
  proof (cases "castValueType name")
    case (Some t)
    obtain r err' where arg: "translateExpr m inner (call_mode mode ('' argument of '' @ name) False) err = (r, err')"
      by (cases "translateExpr m inner (call_mode mode ('' argument of '' @ name) False) err")
    show ?thesis
    proof (cases "validateExprArgCount inner 1")
      case False
      with Some 3(3) show ?thesis by (simp add: translateExprCall.simps)
    next
      case True
      with Some 3(3) arg have "err' = None" and c: "res3 = Some \<lparr>ee_Go = name @ ''('' @ ee_Go r @ '')'',
          ee_Type = t, ee_Entity = ee_Entity r\<rparr>"
        by (auto simp: translateExprCall.simps)
      with 3(2) [OF Some, of r] True arg have "err = None \<and>
          translates m (em_AllowEntityField mode) (trim_space inner) (ee_Go r) (ee_Entity r)" by simp
      with Some c show ?thesis by (auto simp: callee_def)
    qed
  next
    case None
    note cast = None
    show ?thesis
    proof (cases "distributionFunc name")
      case None
      with cast 3(3) show ?thesis by (simp add: translateExprCall.simps)
    next
      case (Some gk)
      obtain g k where gk: "gk = (g, k)" by (cases gk)
      obtain r err' where arg: "translateExpr m inner (call_mode mode ('' arguments of '' @ name) (k = 0)) err = (r, err')"
        by (cases "translateExpr m inner (call_mode mode ('' arguments of '' @ name) (k = 0)) err")
      show ?thesis
      proof (cases "validateExprArgCount inner k")
        case False
        with cast Some gk 3(3) show ?thesis by (simp add: translateExprCall.simps)
      next
        case True
        with cast Some gk 3(3) arg have "err' = None" and c: "res3 = Some \<lparr>ee_Go = g @ ''('' @ ee_Go r @ '')'',
            ee_Type = ValueFloat64, ee_Entity = ee_Entity r\<rparr>"
          by (auto simp: translateExprCall.simps)
        with 3(1) [OF cast Some gk [symmetric], of r] True arg have "err = None \<and>
            translates m (em_AllowEntityField mode) (trim_space inner) (ee_Go r) (ee_Entity r)" by simp
        with Some gk c show ?thesis by (auto simp: callee_def)
      qed
    qed
  qed
qed

section \<open>Types\<close>

text \<open>
  The typing rule of an expression with the given operands: comparisons and boolean operators
  give a bool; a bool stands alone; otherwise all typed numbers have one type, which is the
  expected one when a number is expected, and untyped literals adapt.
\<close>

definition type_rule :: "expr_mode \<Rightarrow> expr_operand list \<Rightarrow> expr_flags \<Rightarrow> value_type \<Rightarrow> bool" where
  "type_rule mode ops flags t \<longleftrightarrow> ops \<noteq> [] \<and>
     (if ef_hasComparison flags \<or> ef_hasBoolOp flags then t = ValueBool
      else if \<exists>x\<in>set ops. eo_Type x = ValueBool then length ops = 1 \<and> t = ValueBool
      else (\<forall>x\<in>set ops. \<not> eo_UntypedNum x \<longrightarrow> eo_Type x = t) \<and>
        (if em_HasExpected mode \<and> em_Expected mode \<noteq> ValueBool
         then t = em_Expected mode \<and> (t \<noteq> ValueFloat64 \<longrightarrow> (\<forall>x\<in>set ops. \<not> eo_FloatLiteral x))
         else (\<forall>x\<in>set ops. eo_UntypedNum x) \<longrightarrow>
                t = (if \<exists>x\<in>set ops. eo_FloatLiteral x then ValueFloat64 else ValueInt64)))"

lemma numeric_iff: "isNumericValueType t \<longleftrightarrow> t \<noteq> ValueBool"
  by (cases t) (simp_all add: isNumericValueType_def)

lemma infer_loop_numbers:
  "\<forall>x\<in>set ops. eo_Type x \<noteq> ValueBool \<Longrightarrow>
   infer_loop hb hf c ops = Inr (hb', hf', c') \<longleftrightarrow>
     hb' = hb \<and> hf' = (hf \<or> (\<exists>x\<in>set ops. eo_FloatLiteral x)) \<and>
     (\<forall>x\<in>set ops. \<not> eo_UntypedNum x \<longrightarrow> c' = Some (eo_Type x)) \<and>
     (c \<noteq> None \<longrightarrow> c' = c) \<and> ((\<forall>x\<in>set ops. eo_UntypedNum x) \<longrightarrow> c' = c)"
proof (induction hb hf c ops rule: infer_loop.induct)
  case (2 hb hf c x xs)
  then show ?case
    by (cases "eo_UntypedNum x"; cases c) (auto simp: numeric_iff)
qed auto

lemma infer_loop_bool:
  "infer_loop hb hf c ops = Inr (hb', hf', c') \<Longrightarrow> hb' \<longleftrightarrow> hb \<or> (\<exists>x\<in>set ops. eo_Type x = ValueBool)"
proof (induction hb hf c ops rule: infer_loop.induct)
  case (2 hb hf c x xs)
  then show ?case
    by (cases "eo_UntypedNum x"; cases c) (auto simp: numeric_iff split: if_splits)
qed auto

lemma infer_exact:
  "inferExprType raw mode ops flags None = (Some t, None) \<longleftrightarrow> type_rule mode ops flags t"
proof (cases "ops = [] \<or> ef_hasComparison flags \<or> ef_hasBoolOp flags")
  case True
  then show ?thesis by (auto simp: inferExprType_def type_rule_def)
next
  case plain: False
  show ?thesis
  proof (cases "\<exists>x\<in>set ops. eo_Type x = ValueBool")
    case True
    show ?thesis
    proof (cases "length ops = 1")
      case one: True
      then obtain x where "ops = [x]" by (cases ops) auto
      with True plain show ?thesis by (auto simp: inferExprType_def type_rule_def)
    next
      case False
      have "inferExprType raw mode ops flags None \<noteq> (Some t, None)"
      proof (cases "infer_loop False False None ops")
        case (Inr r)
        then have "fst r" using infer_loop_bool [of False False None ops "fst r" "fst (snd r)" "snd (snd r)"] True
          by simp
        with Inr plain False show ?thesis by (auto simp: inferExprType_def split: prod.splits)
      qed (use plain in \<open>auto simp: inferExprType_def\<close>)
      with plain True False show ?thesis by (auto simp: type_rule_def)
    qed
  next
    case False
    then have numbers: "\<forall>x\<in>set ops. eo_Type x \<noteq> ValueBool" by blast
    show ?thesis
    proof (cases "infer_loop False False None ops")
      case (Inl e)
      have "\<not> type_rule mode ops flags t"
      proof
        assume rule: "type_rule mode ops flags t"
        define c where "c = (if \<forall>x\<in>set ops. eo_UntypedNum x then None else Some t)"
        have "\<forall>x\<in>set ops. \<not> eo_UntypedNum x \<longrightarrow> eo_Type x = t"
          using rule plain numbers by (simp add: type_rule_def)
        then have "infer_loop False False None ops = Inr (False, \<exists>x\<in>set ops. eo_FloatLiteral x, c)"
          unfolding infer_loop_numbers [OF numbers] by (auto simp: c_def)
        with Inl show False by simp
      qed
      with Inl plain show ?thesis by (auto simp: inferExprType_def split: prod.splits)
    next
      case (Inr r)
      obtain hb hf c where r: "r = (hb, hf, c)" by (cases r)
      note loop = Inr [unfolded r infer_loop_numbers [OF numbers]]
      show ?thesis
        using loop plain False Inr r numbers
        by (cases c) (auto simp: inferExprType_def type_rule_def numeric_iff)
    qed
  qed
qed

section \<open>Properties\<close>

text \<open>C39. An accepted expression is translated name by name: its Go text is its own text with
  every name replaced by the variable, field, metric, cast or distribution it refers to and
  nothing else changed but the space in front of an argument list. It has the expected type,
  the fields it uses belong to one entity, which is returned, and it uses none where fields
  are not allowed.\<close>

theorem accepted_expression_translates:
  assumes "translateExpr m e mode None = (res, None)" and "em_HasExpected mode"
  shows "translates m (em_AllowEntityField mode) (trim_space e) (ee_Go res) (ee_Entity res) \<and>
    ee_Type res = em_Expected mode \<and> (\<not> em_AllowEntityField mode \<longrightarrow> ee_Entity res = None)"
proof -
  have tr: "translates m (em_AllowEntityField mode) (trim_space e) (ee_Go res) (ee_Entity res)"
    using translation_sound(1) [OF assms(1)] by simp
  moreover have "ee_Type res = em_Expected mode"
    using assms
    by (auto simp: translateExpr.simps exprTypesCompatible_def Let_def split: if_splits prod.splits)
  moreover have "\<not> em_AllowEntityField mode \<Longrightarrow> ee_Entity res = None"
    using tr translates_no_field by simp
  ultimately show ?thesis by blast
qed

definition sample_model :: dsl_model where
  "sample_model = \<lparr>m_Hash = [],
     m_Entities = [\<lparr>ed_Name = ''car'',
       ed_Fields = [\<lparr>fd_Name = ''age'', fd_Type = ValueInt64, fd_Default = ''0''\<rparr>]\<rparr>],
     m_Vars = [\<lparr>vd_Name = ''rate'', vd_Type = ValueFloat64, vd_Default = ''2''\<rparr>],
     m_Resources = [], m_Blocks = []\<rparr>"

definition sample_mode :: expr_mode where
  "sample_mode = \<lparr>em_Context = ''DELAY d duration'', em_AllowEntityField = True,
     em_HasExpected = True, em_Expected = ValueFloat64, em_AllowEmpty = False\<rparr>"

definition sample_expr :: expr where
  "sample_expr = ''rate * float64 (car.age) + uniform(0, 1)''"

definition sample_go :: emitted_expr where
  "sample_go = \<lparr>ee_Go = ''var_rate * float64(pool_entity_car.Entities[ref.Idx].field_age) + rng.Uniform(0, 1)'',
     ee_Type = ValueFloat64, ee_Entity = Some ''car''\<rparr>"

lemma sample_translates: "translateExpr sample_model sample_expr sample_mode None = (sample_go, None)"
  by code_simp

theorem accepted_expression_translates_witness:
  "translates sample_model True (trim_space sample_expr) (ee_Go sample_go) (Some ''car'')"
  using accepted_expression_translates [OF sample_translates]
  by (simp add: sample_mode_def sample_go_def)

text \<open>C40. The inferred type is exactly the one of the typing rule: comparisons and boolean
  operators give a bool, a bool stands alone, typed numbers are never mixed, and literals
  adapt to the expected type, a fractional one to \<open>float64\<close> only.\<close>

theorem inferred_type_exact:
  "inferExprType raw mode ops flags None = (Some t, None) \<longleftrightarrow> type_rule mode ops flags t"
  by (rule infer_exact)

text \<open>
  With a comparison the operands are not looked at: the text below is accepted, and its Go
  text does not compile.
\<close>

lemma comparison_unchecked:
  "emitRuntimeTypedExpr sample_model ''rate == true'' ValueBool [] None = (''var_rate == true'', None, None)"
  by code_simp

text \<open>Parentheses that belong to no call, and bytes that are no token, are copied.\<close>

lemma parentheses_unchecked:
  "emitRuntimeTypedExpr sample_model ''1) ; (2'' ValueInt64 [] None = (''1) ; (2'', None, None)"
  by code_simp

end
