(* ===== verification/Go_Float_Arith.thy ===== *)
theory Go_Float_Arith
  imports Go_Float Go_Float_Text
begin

text \<open>
  The arithmetic of Go's \<open>float64\<close> that the simulators use: results are rounded to the nearest
  value of 53 significant bits, ties to even, with subnormals below and infinities above. The
  sign of a zero is not kept, so a division by a zero is one by \<open>+0\<close>.
\<close>

section \<open>Rounding\<close>

definition round_even :: "rat \<Rightarrow> int" where
  "round_even x =
     (let f = \<lfloor>x\<rfloor>; d = x - of_int f in
      if d < 1 / 2 then f else if 1 / 2 < d then f + 1 else if even f then f else f + 1)"

text \<open>\<open>bits.Len\<close> of a positive integer.\<close>

function bit_len :: "int \<Rightarrow> int" where
  "bit_len n = (if n \<le> 0 then 0 else 1 + bit_len (n div 2))"
  by auto
termination by (relation "measure nat") auto

declare bit_len.simps [simp del]

text \<open>The binary exponent of a positive number.\<close>

definition bin_exp :: "rat \<Rightarrow> int" where
  "bin_exp r =
     (let (a, b) = quotient_of r;
          e = bit_len a - bit_len b
      in if 2 powi e \<le> r then e else e - 1)"

text \<open>The unit in the last place of a positive number.\<close>

definition ulp_of :: "rat \<Rightarrow> rat" where
  "ulp_of r = 2 powi (max (bin_exp r - 52) (- 1074))"

definition round_mag :: "rat \<Rightarrow> rat" where
  "round_mag r = of_int (round_even (r / ulp_of r)) * ulp_of r"

definition f64_round :: "rat \<Rightarrow> f64" where
  "f64_round r =
     (if r = 0 then Fin 0
      else if 0 < r then (if 2 ^ 1024 \<le> round_mag r then PInf else Fin (round_mag r))
      else (if 2 ^ 1024 \<le> round_mag (- r) then NInf else Fin (- round_mag (- r))))"

section \<open>Operations\<close>

fun f64_add :: "f64 \<Rightarrow> f64 \<Rightarrow> f64" where
  "f64_add (Fin a) (Fin b) = f64_round (a + b)"
| "f64_add NaN y = NaN"
| "f64_add x NaN = NaN"
| "f64_add PInf NInf = NaN"
| "f64_add NInf PInf = NaN"
| "f64_add PInf y = PInf"
| "f64_add NInf y = NInf"
| "f64_add x PInf = PInf"
| "f64_add x NInf = NInf"

fun f64_div :: "f64 \<Rightarrow> f64 \<Rightarrow> f64" where
  "f64_div (Fin a) (Fin b) =
     (if b = 0 then (if a = 0 then NaN else if 0 < a then PInf else NInf) else f64_round (a / b))"
| "f64_div NaN y = NaN"
| "f64_div x NaN = NaN"
| "f64_div (Fin a) y = Fin 0"
| "f64_div PInf (Fin b) = (if 0 \<le> b then PInf else NInf)"
| "f64_div NInf (Fin b) = (if 0 \<le> b then NInf else PInf)"
| "f64_div x y = NaN"

definition f64_of_u64 :: "u64 \<Rightarrow> f64" where
  "f64_of_u64 w = f64_round (of_nat (unat w))"

definition f64_le :: "f64 \<Rightarrow> f64 \<Rightarrow> bool" where
  "f64_le a b = f64_ge b a"

definition f64_neg :: "f64 \<Rightarrow> f64" where
  "f64_neg x = (case x of Fin a \<Rightarrow> Fin (- a) | PInf \<Rightarrow> NInf | NInf \<Rightarrow> PInf | NaN \<Rightarrow> NaN)"

text \<open>\<open>strconv.ParseFloat(s, 64)\<close>; an error is \<open>None\<close>.\<close>

definition ParseFloat :: "string \<Rightarrow> f64 option" where
  "ParseFloat s =
     (if \<not> float_ok s then None
      else
        (let negative = (s \<noteq> [] \<and> hd s = CHR ''-'');
             sgn = (\<lambda>x. if negative then f64_neg x else x)
         in if special_float s then Some (if map ascii_lower s = ''nan'' then NaN else sgn PInf)
            else map_option (\<lambda>(mant, e, radix). sgn (f64_round (of_int mant * (of_int radix powi e))))
                   (read_float s)))"

lemma ParseFloat_ok: "ParseFloat s \<noteq> None \<longleftrightarrow> float_ok s"
  by (auto simp: ParseFloat_def Let_def float_ok_def split: option.splits)

section \<open>The rounding is monotone and keeps what is representable\<close>

lemma round_even_mono: "x \<le> y \<Longrightarrow> round_even x \<le> round_even y"
proof -
  assume le: "x \<le> y"
  have fl: "\<lfloor>x\<rfloor> \<le> \<lfloor>y\<rfloor>" using le by (rule floor_mono)
  show ?thesis
  proof (cases "\<lfloor>x\<rfloor> = \<lfloor>y\<rfloor>")
    case True
    with le show ?thesis by (auto simp: round_even_def Let_def)
  next
    case False
    with fl have "\<lfloor>x\<rfloor> + 1 \<le> \<lfloor>y\<rfloor>" by simp
    then show ?thesis by (auto simp: round_even_def Let_def)
  qed
qed

lemma round_even_of_int [simp]: "round_even (of_int n) = n"
  by (simp add: round_even_def)

lemma powi_nat: "(2 :: rat) powi (int n) = 2 ^ n"
  by simp

lemma powi_nonneg: "0 \<le> e \<Longrightarrow> (2 :: rat) powi e = 2 ^ nat e"
  using powi_nat [of "nat e"] by simp

lemma powi_two_pos [simp]: "0 < (2 :: rat) powi e"
  by (simp add: zero_less_power_int)

lemma powi_two_mono: "a \<le> b \<Longrightarrow> (2 :: rat) powi a \<le> 2 powi b"
  by (rule power_int_increasing) auto

lemma powi_two_strict: "(2 :: rat) powi a < 2 powi b \<longleftrightarrow> a < b"
  by (metis linorder_not_le order_less_irrefl order_less_le_trans power_int_strict_increasing powi_two_mono one_less_numeral_iff semiring_norm(76))

lemma powi_two_diff: "(2 :: rat) powi (a - b) = 2 powi a / 2 powi b"
  by (simp add: power_int_diff)

lemma powi_two_add: "(2 :: rat) powi (a + b) = 2 powi a * 2 powi b"
  by (simp add: power_int_add)

lemma bit_len_bounds:
  "0 < a \<Longrightarrow> 2 powi (bit_len a - 1) \<le> (of_int a :: rat) \<and> (of_int a :: rat) < 2 powi bit_len a"
proof (induction a rule: bit_len.induct)
  case (1 a)
  show ?case
  proof (cases "a = 1")
    case True
    have "bit_len 1 = 1" by (simp add: bit_len.simps [of 1] bit_len.simps [of 0])
    then show ?thesis by (simp add: True)
  next
    case False
    with 1 have IH: "2 powi (bit_len (a div 2) - 1) \<le> (of_int (a div 2) :: rat)"
      "(of_int (a div 2) :: rat) < 2 powi bit_len (a div 2)" by simp_all
    have len: "bit_len a = bit_len (a div 2) + 1" using 1 by (subst bit_len.simps) simp
    have "0 < bit_len (a div 2)"
    proof (rule ccontr)
      assume "\<not> 0 < bit_len (a div 2)"
      then have "(2 :: rat) powi bit_len (a div 2) \<le> 2 powi 0" by (intro powi_two_mono) simp
      with IH(2) have "(of_int (a div 2) :: rat) < 1" by simp
      with 1 False show False by simp
    qed
    then have pow: "(2 :: rat) powi bit_len (a div 2) = of_int (2 ^ nat (bit_len (a div 2)))"
      by (subst powi_nonneg) simp_all
    have "2 * (2 powi (bit_len (a div 2) - 1)) \<le> (of_int (2 * (a div 2)) :: rat)" using IH(1) by simp
    also have "\<dots> \<le> of_int a" by (simp only: of_int_le_iff)
    finally have low: "2 powi bit_len (a div 2) \<le> (of_int a :: rat)"
      using powi_two_add [of 1 "bit_len (a div 2) - 1"] by simp
    have "a div 2 + 1 \<le> 2 ^ nat (bit_len (a div 2))" using IH(2) unfolding pow of_int_less_iff by simp
    then have "a < 2 * 2 ^ nat (bit_len (a div 2))" by linarith
    then have "(of_int a :: rat) < of_int (2 * 2 ^ nat (bit_len (a div 2)))" by (simp only: of_int_less_iff)
    then have "(of_int a :: rat) < 2 * 2 powi bit_len (a div 2)" by (simp add: pow)
    with low show ?thesis by (simp add: len powi_two_add)
  qed
qed

lemma bin_exp_bounds:
  assumes "0 < r"
  shows "2 powi (bin_exp r) \<le> r \<and> r < 2 powi (bin_exp r + 1)"
proof -
  obtain a b where ab: "quotient_of r = (a, b)" by force
  have r: "r = of_int a / of_int b" and b: "0 < b"
    using quotient_of_div [OF ab] quotient_of_denom_pos [OF ab] by simp_all
  have a: "0 < a" using assms r b by (simp add: zero_less_divide_iff)
  define m n where "m = bit_len a" and "n = bit_len b"
  have A: "2 powi (m - 1) \<le> (of_int a :: rat)" "(of_int a :: rat) < 2 powi m"
    and B: "2 powi (n - 1) \<le> (of_int b :: rat)" "(of_int b :: rat) < 2 powi n"
    using bit_len_bounds [OF a] bit_len_bounds [OF b] by (simp_all add: m_def n_def)
  have bp: "(0 :: rat) < of_int b" using b by simp
  have low: "2 powi (m - n - 1) \<le> r"
  proof -
    have "2 powi (m - n - 1) * of_int b \<le> 2 powi (m - n - 1) * (2 :: rat) powi n"
      using B(2) by (simp add: mult_left_mono)
    also have "\<dots> = 2 powi (m - 1)" by (subst powi_two_add [symmetric]) simp
    also have "\<dots> \<le> of_int a" by (rule A(1))
    finally show ?thesis using bp r by (simp add: pos_le_divide_eq)
  qed
  have high: "r < 2 powi (m - n + 1)"
  proof -
    have "(of_int a :: rat) < 2 powi m" by (rule A(2))
    also have "(2 :: rat) powi m = 2 powi (m - n + 1) * 2 powi (n - 1)"
      by (subst powi_two_add [symmetric]) simp
    also have "\<dots> \<le> 2 powi (m - n + 1) * of_int b"
      using B(1) by (intro mult_left_mono) (auto simp: less_imp_le)
    finally show ?thesis using bp r by (simp add: pos_divide_less_eq)
  qed
  have "bin_exp r = (if 2 powi (m - n) \<le> r then m - n else m - n - 1)"
    by (simp add: bin_exp_def ab m_def n_def)
  with low high show ?thesis by auto
qed

lemma bin_exp_mono: "0 < r \<Longrightarrow> r \<le> s \<Longrightarrow> bin_exp r \<le> bin_exp s"
  using bin_exp_bounds [of r] bin_exp_bounds [of s] powi_two_strict [of "bin_exp r" "bin_exp s + 1"]
  by linarith

lemma ulp_pos [simp]: "0 < ulp_of r" "0 \<le> ulp_of r" "ulp_of r \<noteq> 0"
  using powi_two_pos [of "max (bin_exp r - 52) (- 1074)"]
  by (simp_all only: ulp_of_def less_imp_le less_imp_neq not_sym)

lemma ulp_multiple:
  "bin_exp r \<le> e \<Longrightarrow> - 1074 \<le> e \<Longrightarrow> \<exists>n. 2 powi (e + 1) = of_int n * ulp_of r"
proof -
  assume e: "bin_exp r \<le> e" "- 1074 \<le> e"
  define k where "k = max (bin_exp r - 52) (- 1074)"
  have "(2 :: rat) powi (e + 1) = 2 powi (e + 1 - k) * 2 powi k"
    by (subst powi_two_add [symmetric]) simp
  moreover have "(2 :: rat) powi (e + 1 - k) = 2 ^ nat (e + 1 - k)"
    using e by (intro powi_nonneg) (simp add: k_def)
  ultimately show ?thesis by (intro exI [of _ "2 ^ nat (e + 1 - k)"]) (simp add: ulp_of_def k_def)
qed

lemma round_mag_fix: "r = of_int n * ulp_of r \<Longrightarrow> round_mag r = r"
  by (metis nonzero_mult_div_cancel_right round_even_of_int round_mag_def ulp_pos(3))

text \<open>A bound that is a multiple of the unit of a number is a bound of the rounded number.\<close>

lemma round_mag_le: "r \<le> of_int n * ulp_of r \<Longrightarrow> round_mag r \<le> of_int n * ulp_of r"
  using round_even_mono [of "r / ulp_of r" "of_int n"]
  by (simp add: round_mag_def pos_divide_le_eq)

lemma round_mag_ge: "of_int n * ulp_of r \<le> r \<Longrightarrow> of_int n * ulp_of r \<le> round_mag r"
  using round_even_mono [of "of_int n" "r / ulp_of r"]
  by (simp add: round_mag_def pos_le_divide_eq)

lemma round_mag_mono:
  assumes "0 < r" "r \<le> s"
  shows "round_mag r \<le> round_mag s"
proof (cases "ulp_of r = ulp_of s")
  case True
  with assms show ?thesis
    by (simp add: round_mag_def round_even_mono divide_right_mono mult_right_mono)
next
  case False
  have le: "bin_exp r \<le> bin_exp s" using assms by (rule bin_exp_mono)
  with False have "bin_exp r \<noteq> bin_exp s" and big: "- 1022 < bin_exp s"
    by (auto simp: ulp_of_def max_def split: if_splits)
  with le have lt: "bin_exp r + 1 \<le> bin_exp s" by simp
  define e where "e = max (bin_exp r) (- 1074)"
  obtain n where n: "(2 :: rat) powi (e + 1) = of_int n * ulp_of r"
    using ulp_multiple [of r e] by (auto simp: e_def)
  have up: "r \<le> 2 powi (e + 1)"
    using bin_exp_bounds [of r] assms powi_two_mono [of "bin_exp r + 1" "e + 1"]
    by (simp add: e_def)
  have es: "e + 1 \<le> bin_exp s" using lt big by (simp add: e_def)
  have "round_mag r \<le> 2 powi (e + 1)" using up n round_mag_le [of r n] by simp
  also have "\<dots> \<le> 2 powi (bin_exp s)" using es by (rule powi_two_mono)
  also have "\<dots> \<le> round_mag s"
  proof -
    define k where "k = max (bin_exp s - 52) (- 1074)"
    have "(2 :: rat) powi (bin_exp s) = 2 powi (bin_exp s - k) * 2 powi k"
      by (subst powi_two_add [symmetric]) simp
    moreover have "(2 :: rat) powi (bin_exp s - k) = 2 ^ nat (bin_exp s - k)"
      using big by (intro powi_nonneg) (simp add: k_def)
    ultimately have "(2 :: rat) powi (bin_exp s) = of_int (2 ^ nat (bin_exp s - k)) * ulp_of s"
      by (simp add: ulp_of_def k_def)
    with bin_exp_bounds [of s] assms round_mag_ge [of "2 ^ nat (bin_exp s - k)" s]
    show ?thesis by simp
  qed
  finally show ?thesis .
qed

lemma round_mag_nonneg: "0 < r \<Longrightarrow> 0 \<le> round_mag r"
  using round_mag_ge [of 0 r] by simp

text \<open>For evaluation: the overflow test on the exponent.\<close>

lemma overflow_bin_exp: "0 \<le> m \<Longrightarrow> 2 ^ 1024 \<le> m \<longleftrightarrow> m \<noteq> 0 \<and> 1024 \<le> bin_exp m"
proof (cases "m = 0")
  case False
  assume "0 \<le> m"
  with False have b: "2 powi (bin_exp m) \<le> m" "m < 2 powi (bin_exp m + 1)"
    using bin_exp_bounds [of m] by simp_all
  have p: "(2 :: rat) ^ 1024 = 2 powi 1024" by simp
  show ?thesis
  proof
    assume "2 ^ 1024 \<le> m"
    with b(2) p have "(2 :: rat) powi 1024 < 2 powi (bin_exp m + 1)" by linarith
    with False show "m \<noteq> 0 \<and> 1024 \<le> bin_exp m" unfolding powi_two_strict by simp
  next
    assume "m \<noteq> 0 \<and> 1024 \<le> bin_exp m"
    then have "(2 :: rat) powi 1024 \<le> 2 powi (bin_exp m)" by (intro powi_two_mono) simp
    with b(1) p show "2 ^ 1024 \<le> m" by linarith
  qed
qed simp

lemma f64_round_code [code]:
  "f64_round r =
     (if r = 0 then Fin 0
      else let m = round_mag \<bar>r\<bar> in
        if m \<noteq> 0 \<and> 1024 \<le> bin_exp m then (if 0 < r then PInf else NInf)
        else Fin (if 0 < r then m else - m))"
  using overflow_bin_exp [of "round_mag r"] overflow_bin_exp [of "round_mag (- r)"]
    round_mag_nonneg [of r] round_mag_nonneg [of "- r"]
  by (auto simp: f64_round_def Let_def)

text \<open>A multiple of a unit with at most 53 bits is a multiple of its own unit.\<close>

lemma own_multiple:
  assumes "0 < n" "n < 2 ^ 53" "- 1074 \<le> k" "v = of_int n * 2 powi k"
  shows "\<exists>m. v = of_int m * ulp_of v"
proof -
  have v: "0 < v" using assms by simp
  have "v < 2 powi (k + 53)"
  proof -
    have "(of_int n :: rat) < of_int (2 ^ 53)" using assms(2) by (simp only: of_int_less_iff)
    then have "v < 2 ^ 53 * 2 powi k" using assms(4) by (simp add: mult_strict_right_mono)
    then show ?thesis by (simp add: powi_two_add mult.commute)
  qed
  then have "bin_exp v < k + 53"
    using bin_exp_bounds [OF v] powi_two_strict [of "bin_exp v" "k + 53"] by linarith
  define l where "l = max (bin_exp v - 52) (- 1074)"
  have "l \<le> k" using \<open>bin_exp v < k + 53\<close> assms(3) by (simp add: l_def)
  have "(2 :: rat) powi k = 2 powi (k - l) * 2 powi l"
    by (subst powi_two_add [symmetric]) simp
  moreover have "(2 :: rat) powi (k - l) = 2 ^ nat (k - l)"
    using \<open>l \<le> k\<close> by (intro powi_nonneg) simp
  ultimately have "v = of_int (n * 2 ^ nat (k - l)) * ulp_of v"
    using assms(4) by (simp add: ulp_of_def l_def)
  then show ?thesis by blast
qed

lemma round_mag_multiple:
  assumes "0 < r" "round_mag r \<noteq> 0"
  shows "\<exists>m. round_mag r = of_int m * ulp_of (round_mag r)"
proof -
  define k where "k = max (bin_exp r - 52) (- 1074)"
  define n where "n = round_even (r / ulp_of r)"
  have u: "ulp_of r = 2 powi k" by (simp add: ulp_of_def k_def)
  have v: "round_mag r = of_int n * 2 powi k" by (simp add: round_mag_def n_def u)
  have "0 \<le> n" using round_even_mono [of 0 "r / ulp_of r"] round_even_of_int [of 0] assms(1)
    by (simp add: n_def)
  with assms(2) v have n0: "0 < n" by (cases "n = 0") auto
  have "bin_exp r + 1 \<le> k + 53" by (simp add: k_def)
  from powi_two_mono [OF this] bin_exp_bounds [OF assms(1)] have "r \<le> 2 powi (k + 53)"
    by linarith
  then have "r / ulp_of r \<le> of_int (2 ^ 53)"
    by (simp add: u pos_divide_le_eq powi_two_add mult.commute)
  from round_even_mono [OF this] have n53: "n \<le> 2 ^ 53"
    by (simp only: round_even_of_int n_def)
  show ?thesis
  proof (cases "n = 2 ^ 53")
    case False
    with n53 n0 v show ?thesis by (intro own_multiple [of n k]) (simp_all add: k_def)
  next
    case True
    have "round_mag r = of_int (2 ^ 52) * 2 powi (k + 1)"
      using v True by (simp add: powi_two_add)
    then show ?thesis by (intro own_multiple [of "2 ^ 52" "k + 1"]) (simp_all add: k_def)
  qed
qed

lemma round_mag_idem: "0 < r \<Longrightarrow> round_mag r \<noteq> 0 \<Longrightarrow> round_mag (round_mag r) = round_mag r"
  using round_mag_multiple [of r] round_mag_fix by blast

text \<open>The values a \<open>float64\<close> can hold.\<close>

definition f64_rep :: "f64 \<Rightarrow> bool" where
  "f64_rep x \<longleftrightarrow> (case x of Fin r \<Rightarrow> f64_round r = Fin r | _ \<Rightarrow> True)"

lemma f64_rep_round [simp]: "f64_rep (f64_round r)"
proof -
  have "f64_rep (f64_round s)" if "0 < s" for s
    using that round_mag_nonneg [OF that] round_mag_idem [OF that]
    by (cases "round_mag s = 0") (auto simp: f64_rep_def f64_round_def)
  moreover have "f64_rep (f64_round s)" if "s < 0" for s
  proof -
    from that have "0 < - s" by simp
    with round_mag_nonneg [OF this] round_mag_idem [OF this] that show ?thesis
      by (cases "round_mag (- s) = 0") (auto simp: f64_rep_def f64_round_def)
  qed
  moreover have "f64_rep (f64_round 0)" by (simp add: f64_rep_def f64_round_def)
  ultimately show ?thesis by (cases "r = 0"; cases "0 < r") auto
qed

lemma f64_rep_simps [simp]: "f64_rep PInf" "f64_rep NInf" "f64_rep NaN" "f64_rep (Fin 0)"
  by (simp_all add: f64_rep_def f64_round_def)

lemma f64_rep_add [simp]: "f64_rep (f64_add x y)"
  by (cases x; cases y) simp_all

section \<open>Times\<close>

text \<open>A point of model time: neither NaN nor negative.\<close>

definition f64_time :: "f64 \<Rightarrow> bool" where
  "f64_time x \<longleftrightarrow> f64_ge x (Fin 0)"

lemma f64_time_simps [simp]:
  "f64_time (Fin a) \<longleftrightarrow> 0 \<le> a" "f64_time PInf" "\<not> f64_time NInf" "\<not> f64_time NaN"
  by (auto simp: f64_time_def f64_ge_def)

lemma f64_time_round: "0 \<le> r \<Longrightarrow> f64_time (f64_round r)"
  using round_mag_nonneg [of r] by (auto simp: f64_round_def)

lemma f64_time_add: "f64_time x \<Longrightarrow> f64_time d \<Longrightarrow> f64_time (f64_add x d)"
  by (cases x; cases d) (auto intro: f64_time_round)

lemma f64_round_rep_mono: "0 \<le> a \<Longrightarrow> a \<le> b \<Longrightarrow> f64_rep (Fin a) \<Longrightarrow> f64_ge (f64_round b) (Fin a)"
  using round_mag_mono [of a b] f64_time_round [of b]
  by (cases "a = 0") (auto simp: f64_time_def f64_rep_def f64_round_def f64_ge_def split: if_splits)

text \<open>Adding a duration never goes back in time.\<close>

lemma f64_add_later:
  "f64_time x \<Longrightarrow> f64_rep x \<Longrightarrow> f64_time d \<Longrightarrow> f64_ge (f64_add x d) x"
proof (cases x; cases d)
  fix a b
  assume "f64_time x" "f64_rep x" "f64_time d" "x = Fin a" "d = Fin b"
  then show ?thesis using f64_round_rep_mono [of a "a + b"] by simp
qed (auto simp: f64_ge_def)

lemma f64_div_time: "f64_time x \<Longrightarrow> 0 < b \<Longrightarrow> f64_time (f64_div x (Fin b))"
  by (cases x) (auto intro: f64_time_round)

lemma f64_time_not_nan: "f64_time x \<Longrightarrow> x \<noteq> NaN"
  by auto

lemma f64_ge_refl: "x \<noteq> NaN \<Longrightarrow> f64_ge x x"
  by (simp add: f64_ge_rank)

lemma f64_ge_trans: "f64_ge a b \<Longrightarrow> f64_ge b c \<Longrightarrow> f64_ge a c"
  by (cases a; cases b; cases c) (auto simp: f64_ge_def)

text \<open>Numbers of 53 bits are kept as they are.\<close>

lemma f64_round_int [simp]:
  assumes "0 \<le> n" "n < 2 ^ 53"
  shows "f64_round (of_int n) = Fin (of_int n)"
proof (cases "n = 0")
  case True
  then show ?thesis by (simp add: f64_round_def)
next
  case False
  obtain m where "(of_int n :: rat) = of_int m * ulp_of (of_int n)"
    using own_multiple [of n 0 "of_int n"] assms False by auto
  then have eq: "round_mag (of_int n) = of_int n" by (rule round_mag_fix)
  have "(of_int n :: rat) < of_int (2 ^ 53)" using assms(2) by (simp only: of_int_less_iff)
  also have "\<dots> \<le> (2 ^ 1024 :: rat)" by simp
  finally have "\<not> 2 ^ 1024 \<le> (of_int n :: rat)" by (rule less_le_not_le [THEN iffD1, THEN conjunct2])
  with eq assms(1) False show ?thesis by (simp add: f64_round_def)
qed

lemma f64_round_numeral:
  "(numeral k :: int) < 2 ^ 53 \<Longrightarrow> f64_round (numeral k) = Fin (numeral k)"
  using f64_round_int [of "numeral k"] by simp

lemma f64_round_one [simp]: "f64_round 1 = Fin 1"
  using f64_round_int [of 1] by simp

end
