(* ===== verification/Go_Float_Print.thy ===== *)
theory Go_Float_Print
  imports Go_Float_Arith
begin

text \<open>
  \<open>strconv.FormatFloat(x, 'f', -1, 64)\<close>: the shortest decimal that reads back as the value,
  without an exponent. At most 17 digits are needed for a \<open>float64\<close>.
\<close>

function dec_len :: "int \<Rightarrow> int" where
  "dec_len n = (if n < 10 then 1 else 1 + dec_len (n div 10))"
  by auto
termination by (relation "measure nat") auto

function decimal_z :: "int \<Rightarrow> string" where
  "decimal_z n =
     (if n < 10 then [char_of (48 + n)] else decimal_z (n div 10) @ [char_of (48 + n mod 10)])"
  by auto
termination by (relation "measure nat") auto

declare dec_len.simps [simp del] decimal_z.simps [simp del]

definition dec_exp :: "rat \<Rightarrow> int" where
  "dec_exp r =
     (let (a, b) = quotient_of r;
          e = dec_len a - dec_len b
      in if 10 powi e \<le> r then e else e - 1)"

text \<open>With \<open>n\<close> digits: the nearer of the two neighbours, or the one that reads back.\<close>

definition digits_for :: "rat \<Rightarrow> nat \<Rightarrow> (int \<times> int) option" where
  "digits_for r n =
     (let k = dec_exp r - int n + 1;
          x = r / (10 powi k);
          lo = \<lfloor>x\<rfloor>; hi = lo + 1;
          reads = (\<lambda>m. f64_round (of_int m * (10 powi k)) = Fin r)
      in if reads lo \<and> reads hi then Some (round_even x, k)
         else if reads lo then Some (lo, k)
         else if reads hi then Some (hi, k)
         else None)"

fun shortest_from :: "rat \<Rightarrow> nat \<Rightarrow> nat \<Rightarrow> int \<times> int" where
  "shortest_from r n 0 = (round_even (r / (10 powi (dec_exp r - int n + 1))), dec_exp r - int n + 1)"
| "shortest_from r n (Suc m) =
     (case digits_for r n of Some d \<Rightarrow> d | None \<Rightarrow> shortest_from r (Suc n) m)"

text \<open>The digits \<open>m\<close> times ten to the \<open>k\<close>, with a point only where it is needed.\<close>

definition print_digits :: "int \<Rightarrow> int \<Rightarrow> string" where
  "print_digits m k =
     (if 0 \<le> k then decimal_z m @ replicate (nat k) (CHR ''0'')
      else
        (let d = nat (- k); ds = decimal_z m;
             padded = replicate (Suc d - length ds) (CHR ''0'') @ ds;
             whole = take (length padded - d) padded;
             frac = rev (dropWhile (\<lambda>c. c = CHR ''0'') (rev (drop (length padded - d) padded)))
         in if frac = [] then whole else whole @ ''.'' @ frac))"

definition format_mag :: "rat \<Rightarrow> string" where
  "format_mag r = (let (m, k) = shortest_from r 1 16 in print_digits m k)"

definition FormatFloat :: "f64 \<Rightarrow> string" where
  "FormatFloat x =
     (case x of
        NaN \<Rightarrow> ''NaN'' | PInf \<Rightarrow> ''+Inf'' | NInf \<Rightarrow> ''-Inf''
      | Fin r \<Rightarrow> if r = 0 then ''0'' else if 0 < r then format_mag r else CHR ''-'' # format_mag (- r))"

end
