(* ===== verification/Sim_Queue.thy ===== *)
theory Sim_Queue
  imports Entity_Pool
begin

text \<open>
  The queue of a generated simulator: the functions that emitQueuePushFunction,
  emitQueueTopFunction, emitQueueDeleteFunction and emitQueueGetFunction of
  codegen/generator/emit_block.go print for every QUEUE block. An entry that leaves by a
  timeout is only marked; marked entries are dropped when they come to the front. An entry is
  known by its ticket, the number of pushes before its own. The pair of a null reference and
  \<open>false\<close> that the functions return is \<open>None\<close>.
\<close>

record entity_ref =
  ref_Type :: "8 word"
  ref_Idx :: u32

record queue_slot =
  qs_ref :: entity_ref
  qs_valid :: bool

record sim_queue =
  sq_arr :: "queue_slot list"
  sq_total :: u64
  sq_enterN :: u64
  sq_exitN :: u64
  sq_dropN :: u64
  sq_timeoutN :: u64
  sq_len :: u64
  sq_maxLen :: u64

definition ref_of :: "u32 \<Rightarrow> entity_ref" where
  "ref_of i = \<lparr>ref_Type = 1, ref_Idx = i\<rparr>"

definition empty_queue :: sim_queue where
  "empty_queue = \<lparr>sq_arr = [], sq_total = 0, sq_enterN = 0, sq_exitN = 0, sq_dropN = 0,
     sq_timeoutN = 0, sq_len = 0, sq_maxLen = 0\<rparr>"

section \<open>Operations\<close>

definition queue_push :: "entity_ref \<Rightarrow> sim_queue \<Rightarrow> u64 \<times> sim_queue" where
  "queue_push r q =
     (let idx = sq_total q;
          q1 = q\<lparr>sq_total := sq_total q + 1, sq_arr := sq_arr q @ [\<lparr>qs_ref = r, qs_valid = True\<rparr>],
                 sq_len := sq_len q + 1\<rparr>;
          q2 = (if sq_len q1 > sq_maxLen q1 then q1\<lparr>sq_maxLen := sq_len q1\<rparr> else q1)
      in (idx, q2))"

text \<open>\<open>for len(arr) > 0 && !arr[0].valid { arr = arr[1:] }\<close>\<close>

definition drop_invalid :: "sim_queue \<Rightarrow> sim_queue" where
  "drop_invalid q = q\<lparr>sq_arr := dropWhile (\<lambda>s. \<not> qs_valid s) (sq_arr q)\<rparr>"

definition queue_top :: "sim_queue \<Rightarrow> entity_ref option \<times> sim_queue" where
  "queue_top q =
     (let q1 = drop_invalid q in
      case sq_arr q1 of
        [] \<Rightarrow> (None, q1)
      | s # _ \<Rightarrow> if sq_len q1 = 0 then (None, q1) else (Some (qs_ref s), q1))"

definition queue_delete :: "sim_queue \<Rightarrow> sim_queue" where
  "queue_delete q =
     (let q1 = drop_invalid q in
      case sq_arr q1 of
        [] \<Rightarrow> q1
      | _ # rest \<Rightarrow>
          (let q2 = q1\<lparr>sq_arr := rest\<rparr> in
           if sq_len q2 > 0 then q2\<lparr>sq_len := sq_len q2 - 1\<rparr> else q2))"

definition queue_get :: "u64 \<Rightarrow> sim_queue \<Rightarrow> entity_ref option \<times> sim_queue" where
  "queue_get idx q =
     (let deleted = sq_total q - word_of_nat (length (sq_arr q)) in
      if idx < deleted then (None, q)
      else
        (let pos = idx - deleted in
         if word_of_nat (length (sq_arr q)) \<le> pos then (None, q)
         else
           (let slot = sq_arr q ! unat pos in
            if \<not> qs_valid slot then (None, q)
            else
              (let q1 = q\<lparr>sq_arr := (sq_arr q)[unat pos := slot\<lparr>qs_valid := False\<rparr>]\<rparr> in
               (Some (qs_ref slot),
                if sq_len q1 > 0 then q1\<lparr>sq_len := sq_len q1 - 1\<rparr> else q1)))))"

section \<open>Tickets\<close>

text \<open>The tickets and references of the valid slots, from ticket \<open>k\<close> on.\<close>

fun waiting_from :: "nat \<Rightarrow> queue_slot list \<Rightarrow> (nat \<times> entity_ref) list" where
  "waiting_from k [] = []"
| "waiting_from k (s # ss) =
     (if qs_valid s then (k, qs_ref s) # waiting_from (Suc k) ss else waiting_from (Suc k) ss)"

definition first_ticket :: "sim_queue \<Rightarrow> nat" where
  "first_ticket q = unat (sq_total q) - length (sq_arr q)"

definition waiting :: "sim_queue \<Rightarrow> (nat \<times> entity_ref) list" where
  "waiting q = waiting_from (first_ticket q) (sq_arr q)"

definition queue_inv :: "sim_queue \<Rightarrow> bool" where
  "queue_inv q \<longleftrightarrow> length (sq_arr q) \<le> unat (sq_total q) \<and>
     unat (sq_len q) = length (waiting q) \<and> sq_len q \<le> sq_maxLen q"

lemma waiting_from_append:
  "waiting_from k (xs @ ys) = waiting_from k xs @ waiting_from (k + length xs) ys"
  by (induction xs arbitrary: k) auto

lemma waiting_from_length: "length (waiting_from k xs) \<le> length xs"
  by (induction xs arbitrary: k) (auto intro: le_SucI)

lemma waiting_from_bounds: "(t, r) \<in> set (waiting_from k xs) \<Longrightarrow> k \<le> t \<and> t < k + length xs"
  by (induction xs arbitrary: k) (fastforce split: if_splits)+

lemma waiting_from_sorted: "sorted_wrt (<) (map fst (waiting_from k xs))"
proof (induction xs arbitrary: k)
  case (Cons s ss)
  have "k < t" if "t \<in> fst ` set (waiting_from (Suc k) ss)" for t
    using that waiting_from_bounds [of t _ "Suc k" ss] by force
  with Cons show ?case by auto
qed simp

lemma waiting_from_dropWhile:
  "waiting_from (k + (length xs - length (dropWhile (\<lambda>s. \<not> qs_valid s) xs))) (dropWhile (\<lambda>s. \<not> qs_valid s) xs) =
   waiting_from k xs"
proof (induction xs arbitrary: k)
  case (Cons s ss)
  have "length (dropWhile (\<lambda>s. \<not> qs_valid s) ss) \<le> length ss"
    by (rule length_dropWhile_le)
  then have eq: "k + (Suc (length ss) - length (dropWhile (\<lambda>s. \<not> qs_valid s) ss)) =
      Suc k + (length ss - length (dropWhile (\<lambda>s. \<not> qs_valid s) ss))" by simp
  show ?case
    using Cons [of "Suc k"] unfolding eq by (simp add: Suc_diff_le eq)
qed simp

text \<open>The ticket of position \<open>i\<close>: marking its slot removes it from the waiting list.\<close>

lemma waiting_from_mark:
  "i < length xs \<Longrightarrow>
   waiting_from k (xs[i := (xs ! i)\<lparr>qs_valid := False\<rparr>]) =
     filter (\<lambda>p. fst p \<noteq> k + i) (waiting_from k xs)"
proof (induction xs arbitrary: k i)
  case (Cons s ss)
  show ?case
  proof (cases i)
    case 0
    have "filter (\<lambda>p. fst p \<noteq> k) (waiting_from (Suc k) ss) = waiting_from (Suc k) ss"
      using waiting_from_bounds [of _ _ "Suc k" ss] by (fastforce intro: filter_True)
    with 0 show ?thesis by simp
  next
    case (Suc j)
    with Cons show ?thesis by simp
  qed
qed simp

lemma waiting_from_position:
  "i < length xs \<Longrightarrow> qs_valid (xs ! i) \<longleftrightarrow> k + i \<in> fst ` set (waiting_from k xs)"
proof (induction xs arbitrary: k i)
  case (Cons s ss)
  show ?case
  proof (cases i)
    case 0
    have "k \<notin> fst ` set (waiting_from (Suc k) ss)"
      using waiting_from_bounds [of k _ "Suc k" ss] by fastforce
    with 0 show ?thesis by auto
  next
    case (Suc j)
    with Cons.IH [of j "Suc k"] Cons.prems show ?thesis by auto
  qed
qed simp

lemma waiting_from_ref:
  "i < length xs \<Longrightarrow> qs_valid (xs ! i) \<Longrightarrow> (k + i, qs_ref (xs ! i)) \<in> set (waiting_from k xs)"
proof (induction xs arbitrary: k i)
  case (Cons s ss)
  then show ?case by (cases i) (fastforce dest: Cons.IH [of _ "Suc k"])+
qed simp

section \<open>The operations on the waiting list\<close>

lemmas queue_defs = queue_inv_def waiting_def first_ticket_def

lemma queue_inv_empty: "queue_inv empty_queue \<and> waiting empty_queue = []"
  by (simp add: queue_defs empty_queue_def)

lemma waiting_tickets: "(t, r) \<in> set (waiting q) \<Longrightarrow> queue_inv q \<Longrightarrow> t < unat (sq_total q)"
  using waiting_from_bounds [of t r "first_ticket q" "sq_arr q"]
  by (simp add: queue_defs)

lemma waiting_sorted: "sorted_wrt (<) (map fst (waiting q))"
  by (simp add: waiting_def waiting_from_sorted)

lemma waiting_distinct: "distinct (map fst (waiting q))"
  using waiting_sorted strict_sorted_iff by blast

lemma unat_Suc_u64: "unat (w :: u64) < 2 ^ 64 - 1 \<Longrightarrow> unat (w + 1) = Suc (unat w)"
  by (simp add: unat_word_ariths)

lemma queue_push_waiting:
  assumes inv: "queue_inv q" and room: "unat (sq_total q) < 2 ^ 64 - 1"
    and push: "queue_push r q = (idx, q')"
  shows "queue_inv q' \<and> waiting q' = waiting q @ [(unat (sq_total q), r)] \<and> idx = sq_total q \<and>
    sq_total q' = sq_total q + 1"
proof -
  have len: "unat (sq_len q) < 2 ^ 64 - 1"
    using inv room waiting_from_length [of "first_ticket q" "sq_arr q"] by (simp add: queue_defs)
  have arr: "length (sq_arr q) \<le> unat (sq_total q)" using inv by (simp add: queue_inv_def)
  have fields: "sq_arr q' = sq_arr q @ [\<lparr>qs_ref = r, qs_valid = True\<rparr>]" "sq_total q' = sq_total q + 1"
    "sq_len q' = sq_len q + 1" "sq_maxLen q' = max (sq_maxLen q) (sq_len q + 1)" "idx = sq_total q"
    using push by (auto simp: queue_push_def Let_def max_def)
  have ft: "first_ticket q' = first_ticket q"
    using unat_Suc_u64 [OF room] arr by (simp add: first_ticket_def fields)
  have w: "waiting q' = waiting q @ [(unat (sq_total q), r)]"
    using arr by (simp add: waiting_def ft fields waiting_from_append) (simp add: first_ticket_def)
  moreover have "queue_inv q'"
    using inv arr unat_Suc_u64 [OF room] unat_Suc_u64 [OF len] w
    by (simp add: queue_inv_def fields)
  ultimately show ?thesis using fields by simp
qed

lemma drop_invalid_fields [simp]:
  "sq_total (drop_invalid q) = sq_total q" "sq_len (drop_invalid q) = sq_len q"
  "sq_maxLen (drop_invalid q) = sq_maxLen q"
  by (simp_all add: drop_invalid_def)

lemma drop_invalid_waiting:
  assumes "queue_inv q"
  shows "queue_inv (drop_invalid q) \<and> waiting (drop_invalid q) = waiting q"
proof -
  let ?d = "dropWhile (\<lambda>s. \<not> qs_valid s) (sq_arr q)"
  have le: "length ?d \<le> length (sq_arr q)" by (rule length_dropWhile_le)
  have "waiting (drop_invalid q) = waiting q"
    using waiting_from_dropWhile [of "first_ticket q" "sq_arr q"] assms le
    by (simp add: waiting_def first_ticket_def drop_invalid_def queue_inv_def)
  with assms le show ?thesis by (simp add: queue_inv_def drop_invalid_def)
qed

text \<open>The front slot of a queue without marked slots at the front is the first that waits.\<close>

lemma drop_invalid_front:
  "sq_arr (drop_invalid q) = s # ss \<Longrightarrow> qs_valid s"
  by (auto simp: drop_invalid_def dropWhile_eq_Cons_conv)

lemma waiting_front:
  assumes "queue_inv q" "sq_arr (drop_invalid q) = s # ss"
  shows "waiting q = (first_ticket (drop_invalid q), qs_ref s) #
    waiting_from (Suc (first_ticket (drop_invalid q))) ss"
  using drop_invalid_waiting [OF assms(1)] drop_invalid_front [OF assms(2)] assms(2)
  by (simp add: waiting_def)

lemma waiting_none: "queue_inv q \<Longrightarrow> sq_arr (drop_invalid q) = [] \<Longrightarrow> waiting q = []"
  using drop_invalid_waiting [of q] by (simp add: waiting_def)

lemma queue_top_waiting:
  assumes "queue_inv q" "queue_top q = (r, q')"
  shows "queue_inv q' \<and> waiting q' = waiting q \<and> sq_total q' = sq_total q \<and>
    r = (if waiting q = [] then None else Some (snd (hd (waiting q))))"
proof (cases "sq_arr (drop_invalid q)")
  case Nil
  then have "r = None \<and> q' = drop_invalid q"
    using assms(2) by (simp add: queue_top_def Let_def)
  with Nil waiting_none [OF assms(1)] drop_invalid_waiting [OF assms(1)] show ?thesis by simp
next
  case (Cons s ss)
  note w = waiting_front [OF assms(1) Cons]
  have "sq_len q \<noteq> 0"
    using assms(1) w by (auto simp: queue_inv_def)
  then have "r = Some (qs_ref s) \<and> q' = drop_invalid q"
    using assms(2) Cons by (simp add: queue_top_def Let_def)
  with w drop_invalid_waiting [OF assms(1)] show ?thesis by simp
qed

lemma unat_pred_u64: "0 < (w :: u64) \<Longrightarrow> unat (w - 1) = unat w - 1"
  by (rule unat_minus_one) auto

lemma queue_delete_waiting:
  assumes "queue_inv q"
  shows "queue_inv (queue_delete q) \<and> waiting (queue_delete q) = tl (waiting q) \<and>
    sq_total (queue_delete q) = sq_total q"
proof (cases "sq_arr (drop_invalid q)")
  case Nil
  then have "queue_delete q = drop_invalid q" by (simp add: queue_delete_def Let_def)
  with Nil waiting_none [OF assms] drop_invalid_waiting [OF assms] show ?thesis by simp
next
  case (Cons s ss)
  note w = waiting_front [OF assms Cons]
  let ?d = "drop_invalid q"
  have inv: "queue_inv ?d" and wd: "waiting ?d = waiting q"
    using drop_invalid_waiting [OF assms] by simp_all
  have n: "unat (sq_len q) = Suc (length (waiting_from (Suc (first_ticket ?d)) ss))"
    using assms w by (simp add: queue_inv_def)
  then have len: "0 < sq_len q" by (simp add: word_gt_0) (metis nat.distinct(1) unat_0)
  have eq: "queue_delete q = ?d\<lparr>sq_arr := ss, sq_len := sq_len q - 1\<rparr>"
    using len by (simp add: queue_delete_def Cons Let_def)
  have arr: "Suc (length ss) \<le> unat (sq_total q)"
    using inv Cons by (simp add: queue_inv_def)
  have ft: "first_ticket (queue_delete q) = Suc (first_ticket ?d)"
    using arr Cons by (simp add: eq first_ticket_def)
  have wt: "waiting (queue_delete q) = tl (waiting q)"
    unfolding waiting_def ft by (simp add: eq w [unfolded waiting_def])
  have "sq_len q - 1 \<le> sq_len q" using len by (simp add: word_le_nat_alt unat_pred_u64)
  also have "sq_len q \<le> sq_maxLen q" using assms by (simp add: queue_inv_def)
  finally have mx: "sq_len q - 1 \<le> sq_maxLen q" .
  have "unat (sq_len q - 1) = length (waiting (queue_delete q))"
    using len n by (simp add: unat_pred_u64 wt w)
  with arr mx have "queue_inv (queue_delete q)"
    unfolding queue_inv_def by (simp add: eq)
  with wt show ?thesis by (simp add: eq)
qed

lemma unat_length_u64: "n < 2 ^ 64 \<Longrightarrow> unat (word_of_nat n :: u64) = n"
  by (simp add: unsigned_of_nat take_bit_nat_eq_self)

lemma map_of_absent: "k \<notin> fst ` set xs \<Longrightarrow> map_of xs k = None \<and> filter (\<lambda>p. fst p \<noteq> k) xs = xs"
  by (auto simp: map_of_eq_None_iff filter_id_conv)

lemma filter_ticket_length:
  "distinct (map fst xs) \<Longrightarrow> (k, r) \<in> set xs \<Longrightarrow> Suc (length (filter (\<lambda>p. fst p \<noteq> k) xs)) = length xs"
proof (induction xs)
  case (Cons x xs)
  show ?case
  proof (cases "fst x = k")
    case True
    with Cons.prems map_of_absent [of k xs] show ?thesis by simp
  next
    case False
    with Cons show ?thesis by auto
  qed
qed simp

lemma queue_get_waiting:
  assumes inv: "queue_inv q" and get: "queue_get idx q = (r, q')"
  shows "queue_inv q' \<and> waiting q' = filter (\<lambda>p. fst p \<noteq> unat idx) (waiting q) \<and>
    r = map_of (waiting q) (unat idx) \<and> sq_total q' = sq_total q"
proof -
  let ?n = "length (sq_arr q)" and ?k = "first_ticket q"
  define deleted where "deleted = sq_total q - word_of_nat ?n"
  have n: "?n \<le> unat (sq_total q)" using inv by (simp add: queue_inv_def)
  then have nw: "unat (word_of_nat ?n :: u64) = ?n"
    using unsigned_less [of "sq_total q", where ?'a = nat] by (intro unat_length_u64) simp
  have del: "unat deleted = ?k"
    using n nw by (simp add: deleted_def first_ticket_def unat_sub word_le_nat_alt)
  have def: "queue_get idx q =
     (if idx < deleted then (None, q)
      else if word_of_nat ?n \<le> idx - deleted then (None, q)
      else if \<not> qs_valid (sq_arr q ! unat (idx - deleted)) then (None, q)
      else (Some (qs_ref (sq_arr q ! unat (idx - deleted))),
        (let q1 = q\<lparr>sq_arr := (sq_arr q)[unat (idx - deleted) :=
           (sq_arr q ! unat (idx - deleted))\<lparr>qs_valid := False\<rparr>]\<rparr>
         in if sq_len q1 > 0 then q1\<lparr>sq_len := sq_len q1 - 1\<rparr> else q1)))"
    by (simp add: queue_get_def deleted_def Let_def)
  have absent: "r = None \<and> q' = q \<Longrightarrow> unat idx \<notin> fst ` set (waiting q) \<Longrightarrow> ?thesis"
    using inv map_of_absent [of "unat idx" "waiting q"] by simp
  have range: "?k \<le> t \<and> t < ?k + ?n" if "t \<in> fst ` set (waiting q)" for t
    using that waiting_from_bounds [of t _ ?k "sq_arr q"] by (auto simp: waiting_def)
  show ?thesis
  proof (cases "idx < deleted")
    case True
    then show ?thesis
      using get del range [of "unat idx"] by (intro absent) (auto simp: def word_less_nat_alt)
  next
    case lo: False
    define i where "i = unat (idx - deleted)"
    have idx: "unat idx = ?k + i"
      using lo del by (simp add: i_def unat_sub word_le_nat_alt word_less_nat_alt)
    show ?thesis
    proof (cases "i < ?n")
      case False
      then have "word_of_nat ?n \<le> idx - deleted"
        using nw by (simp add: word_le_nat_alt i_def)
      with lo False show ?thesis
        using get idx range [of "unat idx"] by (intro absent) (auto simp: def)
    next
      case True
      then have hi: "\<not> word_of_nat ?n \<le> idx - deleted"
        using nw by (simp add: word_le_nat_alt i_def)
      note pos = waiting_from_position [OF True, of ?k, folded waiting_def idx]
      show ?thesis
      proof (cases "qs_valid (sq_arr q ! i)")
        case False
        with lo hi get pos show ?thesis
          by (intro absent) (auto simp: def i_def)
      next
        case valid: True
        have mem: "(unat idx, qs_ref (sq_arr q ! i)) \<in> set (waiting q)"
          using waiting_from_ref [OF True valid, of ?k] by (simp add: waiting_def idx)
        have len: "unat (sq_len q) = length (waiting q)" using inv by (simp add: queue_inv_def)
        with mem have "0 < unat (sq_len q)" by (auto intro: length_pos_if_in_set)
        then have pos0: "0 < sq_len q" by (simp add: word_less_nat_alt)
        have eq: "r = Some (qs_ref (sq_arr q ! i))"
          "q' = q\<lparr>sq_arr := (sq_arr q)[i := (sq_arr q ! i)\<lparr>qs_valid := False\<rparr>], sq_len := sq_len q - 1\<rparr>"
          using get lo hi valid pos0 by (simp_all add: def i_def Let_def)
        have ft: "first_ticket q' = ?k" by (simp add: eq first_ticket_def)
        have w: "waiting q' = filter (\<lambda>p. fst p \<noteq> unat idx) (waiting q)"
          unfolding waiting_def ft
          using waiting_from_mark [OF True, of ?k] by (simp add: eq idx)
        have "sq_len q - 1 \<le> sq_len q" using pos0 by (simp add: word_le_nat_alt unat_pred_u64)
        also have "sq_len q \<le> sq_maxLen q" using inv by (simp add: queue_inv_def)
        finally have mx: "sq_len q - 1 \<le> sq_maxLen q" .
        have "unat (sq_len q - 1) = length (waiting q')"
          using pos0 len filter_ticket_length [OF waiting_distinct mem]
          by (simp add: unat_pred_u64 w)
        with mx n have "queue_inv q'" unfolding queue_inv_def by (simp add: eq)
        with w eq mem waiting_distinct show ?thesis by (simp add: map_of_is_SomeI)
      qed
    qed
  qed
qed

section \<open>The contract of a queue with timeouts\<close>

text \<open>What happens to a queue: an entry comes, the front one is served, a timer fires.\<close>

datatype 'r queue_op = Offer 'r | Serve | TimeOut u64

fun queue_run ::
  "('r \<Rightarrow> 'q \<Rightarrow> u64 \<times> 'q) \<Rightarrow> ('q \<Rightarrow> 'r option \<times> 'q) \<Rightarrow> ('q \<Rightarrow> 'q) \<Rightarrow>
   (u64 \<Rightarrow> 'q \<Rightarrow> 'r option \<times> 'q) \<Rightarrow> 'r queue_op list \<Rightarrow> 'q \<Rightarrow> 'r option list \<times> 'q" where
  "queue_run push front delete get [] q = ([], q)"
| "queue_run push front delete get (Offer r # ops) q =
     queue_run push front delete get ops (snd (push r q))"
| "queue_run push front delete get (Serve # ops) q =
     (let (r, q1) = front q;
          (outs, q2) = queue_run push front delete get ops (if r = None then q1 else delete q1)
      in (r # outs, q2))"
| "queue_run push front delete get (TimeOut idx # ops) q =
     (let (r, q1) = get idx q; (outs, q2) = queue_run push front delete get ops q1 in (r # outs, q2))"

text \<open>The same on a plain line of numbered entries; \<open>k\<close> is the next number.\<close>

fun line_run :: "'r queue_op list \<Rightarrow> nat \<Rightarrow> (nat \<times> 'r) list \<Rightarrow> 'r option list \<times> (nat \<times> 'r) list" where
  "line_run [] k l = ([], l)"
| "line_run (Offer r # ops) k l = line_run ops (Suc k) (l @ [(k, r)])"
| "line_run (Serve # ops) k l =
     (let (outs, l') = line_run ops k (tl l)
      in ((if l = [] then None else Some (snd (hd l))) # outs, l'))"
| "line_run (TimeOut idx # ops) k l =
     (let (outs, l') = line_run ops k (filter (\<lambda>p. fst p \<noteq> unat idx) l)
      in (map_of l (unat idx) # outs, l'))"

locale ticket_queue =
  fixes new :: 'q
    and push :: "'r \<Rightarrow> 'q \<Rightarrow> u64 \<times> 'q"
    and front :: "'q \<Rightarrow> 'r option \<times> 'q"
    and delete :: "'q \<Rightarrow> 'q"
    and get :: "u64 \<Rightarrow> 'q \<Rightarrow> 'r option \<times> 'q"
    and invar :: "'q \<Rightarrow> bool"
    and line :: "'q \<Rightarrow> (nat \<times> 'r) list"
    and pushed :: "'q \<Rightarrow> nat"
  assumes new_queue: "invar new \<and> line new = [] \<and> pushed new = 0"
    and push_queue: "invar q \<Longrightarrow> pushed q < 2 ^ 64 - 1 \<Longrightarrow> push r q = (idx, q') \<Longrightarrow>
      invar q' \<and> line q' = line q @ [(pushed q, r)] \<and> pushed q' = Suc (pushed q)"
    and front_queue: "invar q \<Longrightarrow> front q = (x, q') \<Longrightarrow>
      invar q' \<and> line q' = line q \<and> pushed q' = pushed q \<and>
      x = (if line q = [] then None else Some (snd (hd (line q))))"
    and delete_queue: "invar q \<Longrightarrow>
      invar (delete q) \<and> line (delete q) = tl (line q) \<and> pushed (delete q) = pushed q"
    and get_queue: "invar q \<Longrightarrow> get idx q = (x, q') \<Longrightarrow>
      invar q' \<and> line q' = filter (\<lambda>p. fst p \<noteq> unat idx) (line q) \<and> pushed q' = pushed q \<and>
      x = map_of (line q) (unat idx)"
begin

lemma run_refines_from:
  "invar q \<Longrightarrow> pushed q + length ops < 2 ^ 64 \<Longrightarrow> queue_run push front delete get ops q = (outs, q') \<Longrightarrow>
   line_run ops (pushed q) (line q) = (outs, line q') \<and> invar q'"
proof (induction ops arbitrary: q outs q')
  case Nil
  then show ?case by simp
next
  case (Cons opn ops)
  show ?case
  proof (cases opn)
    case (Offer r)
    obtain idx q1 where q1: "push r q = (idx, q1)" by force
    have "pushed q < 2 ^ 64 - 1" using Cons.prems(2) by simp
    from push_queue [OF Cons.prems(1) this q1] Cons.IH [of q1 outs q'] Cons.prems q1 Offer
    show ?thesis by simp
  next
    case Serve
    obtain r q1 where q1: "front q = (r, q1)" by force
    define q2 where "q2 = (if r = None then q1 else delete q1)"
    obtain os q3 where q3: "queue_run push front delete get ops q2 = (os, q3)" by force
    note t = front_queue [OF Cons.prems(1) q1]
    have q2: "invar q2 \<and> line q2 = tl (line q) \<and> pushed q2 = pushed q"
      using t delete_queue [of q1] by (auto simp: q2_def split: if_splits)
    with Cons.IH [of q2 os q3] Cons.prems(2) q3 have
      "line_run ops (pushed q) (tl (line q)) = (os, line q3) \<and> invar q3" by simp
    moreover have "outs = r # os \<and> q' = q3"
      using Cons.prems(3) by (simp add: Serve q1 q3 flip: q2_def)
    ultimately show ?thesis using t by (simp add: Serve)
  next
    case (TimeOut idx)
    obtain r q1 where q1: "get idx q = (r, q1)" by force
    obtain os q3 where q3: "queue_run push front delete get ops q1 = (os, q3)" by force
    from get_queue [OF Cons.prems(1) q1] Cons.IH [of q1 os q3] Cons.prems q1 q3 TimeOut
    show ?thesis by simp
  qed
qed

lemma run_refines:
  "length ops < 2 ^ 64 \<Longrightarrow> queue_run push front delete get ops new = (outs, q') \<Longrightarrow>
   line_run ops 0 [] = (outs, line q')"
  using run_refines_from [of new ops outs q'] new_queue by simp

end

interpretation timeout_queue: ticket_queue empty_queue queue_push queue_top queue_delete queue_get
  queue_inv waiting "\<lambda>q. unat (sq_total q)"
proof (unfold_locales, goal_cases)
  case 1
  then show ?case using queue_inv_empty by (simp add: empty_queue_def)
next
  case (2 q r idx q')
  then show ?case using queue_push_waiting [OF 2] unat_Suc_u64 [of "sq_total q"] by simp
next
  case (3 q x q')
  then show ?case using queue_top_waiting [OF 3] by simp
next
  case (4 q)
  then show ?case using queue_delete_waiting [OF 4] by simp
next
  case (5 q idx x q')
  then show ?case using queue_get_waiting [OF 5] by simp
qed

text \<open>
  C34. A queue of a generated simulator is a first-in first-out line: for every sequence of
  arrivals, services and timeouts, shorter than 2^64, the marking of timed-out slots answers
  exactly what a plain line of numbered entries answers, which drops a timed-out entry at
  once; a timer of an entry that already left finds nothing.
\<close>

theorem queue_is_fifo_line:
  assumes "length ops < 2 ^ 64"
    and "queue_run queue_push queue_top queue_delete queue_get ops empty_queue = (outs, q)"
  shows "line_run ops 0 [] = (outs, waiting q)"
  using assms by (rule timeout_queue.run_refines)

theorem queue_is_fifo_line_witness:
  "line_run [Offer (ref_of 7), Offer (ref_of 8), Offer (ref_of 9), TimeOut 1, Serve, TimeOut 0, Serve, Serve] 0 [] =
     ([Some (ref_of 8), Some (ref_of 7), None, Some (ref_of 9), None], [])"
proof -
  let ?ops = "[Offer (ref_of 7), Offer (ref_of 8), Offer (ref_of 9), TimeOut 1, Serve, TimeOut 0, Serve, Serve]"
  have run: "queue_run queue_push queue_top queue_delete queue_get ?ops empty_queue =
      ([Some (ref_of 8), Some (ref_of 7), None, Some (ref_of 9), None],
       \<lparr>sq_arr = [], sq_total = 3, sq_enterN = 0, sq_exitN = 0, sq_dropN = 0, sq_timeoutN = 0,
        sq_len = 0, sq_maxLen = 3\<rparr>)"
    by code_simp
  show ?thesis using queue_is_fifo_line [OF _ run] by (simp add: waiting_def)
qed

end
