(* ===== verification/Sim_Mm1.thy ===== *)
theory Sim_Mm1
  imports Go_Float_Print Event_Queue Entity_Pool Sim_Queue
begin

text \<open>
  The simulator that the generator prints for the M/M/1 model
  (codegen/example/mm1/main.go): orders are created with exponential distances, wait in a
  queue for one server, are served for an exponential time and leave. The global variables of
  the program are the fields of a record. A scheduled closure is a value of \<open>handler\<close> with
  what the closure captured. A panic is \<open>None\<close>. The random source is the sequence of the
  values that \<open>ExpFloat64\<close> is going to return.
\<close>

datatype handler = Arrival | Completion entity_ref

record struct_block_CREATE =
  cb_createdN :: u64
  cb_exitN :: u64
  cb_dropN :: u64

record struct_block_DELAY =
  db_enterN :: u64
  db_exitN :: u64
  db_busy :: u64
  db_maxBusy :: u64

record struct_block_TERMINATE =
  tb_enterN :: u64

record mm1 =
  eventQueue :: "handler event_queue"
  clock :: f64
  stop :: bool
  reasonStop :: string
  rng :: "nat \<Rightarrow> f64"
  pool_entity_Order :: "unit pool"
  var_arrivalRate :: f64
  var_serviceRate :: f64
  block_CREATE_Source :: struct_block_CREATE
  block_QUEUE_WaitQueue :: sim_queue
  block_DELAY_ServiceDelay :: struct_block_DELAY
  block_TERMINATE_Sink :: struct_block_TERMINATE

abbreviation upd_source :: "(struct_block_CREATE \<Rightarrow> struct_block_CREATE) \<Rightarrow> mm1 \<Rightarrow> mm1" where
  "upd_source f s \<equiv> s\<lparr>block_CREATE_Source := f (block_CREATE_Source s)\<rparr>"

abbreviation upd_queue :: "(sim_queue \<Rightarrow> sim_queue) \<Rightarrow> mm1 \<Rightarrow> mm1" where
  "upd_queue f s \<equiv> s\<lparr>block_QUEUE_WaitQueue := f (block_QUEUE_WaitQueue s)\<rparr>"

abbreviation upd_delay :: "(struct_block_DELAY \<Rightarrow> struct_block_DELAY) \<Rightarrow> mm1 \<Rightarrow> mm1" where
  "upd_delay f s \<equiv> s\<lparr>block_DELAY_ServiceDelay := f (block_DELAY_ServiceDelay s)\<rparr>"

abbreviation upd_sink :: "(struct_block_TERMINATE \<Rightarrow> struct_block_TERMINATE) \<Rightarrow> mm1 \<Rightarrow> mm1" where
  "upd_sink f s \<equiv> s\<lparr>block_TERMINATE_Sink := f (block_TERMINATE_Sink s)\<rparr>"

definition entityType_Order :: "8 word" where
  "entityType_Order = 1"

section \<open>Start, schedule, free\<close>

text \<open>The rates keep their values, which the protocol may have set before.\<close>

definition initModel :: "(nat \<Rightarrow> f64) \<Rightarrow> mm1 \<Rightarrow> mm1" where
  "initModel source s = s\<lparr>
     eventQueue := new_event_queue 1000,
     clock := Fin 0, stop := False, reasonStop := [],
     rng := source,
     pool_entity_Order := new_pool 10,
     block_CREATE_Source := \<lparr>cb_createdN = 0, cb_exitN = 0, cb_dropN = 0\<rparr>,
     block_QUEUE_WaitQueue := empty_queue,
     block_DELAY_ServiceDelay := \<lparr>db_enterN = 0, db_exitN = 0, db_busy = 0, db_maxBusy = 0\<rparr>,
     block_TERMINATE_Sink := \<lparr>tb_enterN = 0\<rparr>\<rparr>"

text \<open>\<open>rand.Exponential\<close>: the next standard exponential value over the rate.\<close>

definition Exponential :: "f64 \<Rightarrow> mm1 \<Rightarrow> f64 \<times> mm1" where
  "Exponential lambda s = (f64_div (rng s 0) lambda, s\<lparr>rng := (\<lambda>n. rng s (Suc n))\<rparr>)"

definition Schedule :: "f64 \<Rightarrow> handler \<Rightarrow> mm1 \<Rightarrow> mm1" where
  "Schedule time h s =
     s\<lparr>eventQueue := eq_push (eventQueue s) \<lparr>Time = f64_add (clock s) time, Handler = Some h\<rparr>\<rparr>"

definition freeEntity :: "entity_ref \<Rightarrow> mm1 \<Rightarrow> mm1 option" where
  "freeEntity ref s =
     (if ref_Type ref = entityType_Order
      then map_option (\<lambda>p. s\<lparr>pool_entity_Order := p\<rparr>) (pool_free () (pool_entity_Order s) (ref_Idx ref))
      else Some (s\<lparr>stop := True, reasonStop := ''unknown entity type''\<rparr>))"

section \<open>Blocks\<close>

definition func_block_TERMINATE_Sink :: "entity_ref \<Rightarrow> mm1 \<Rightarrow> (bool \<times> mm1) option" where
  "func_block_TERMINATE_Sink ref s =
     map_option (Pair True) (freeEntity ref (upd_sink (\<lambda>b. b\<lparr>tb_enterN := tb_enterN b + 1\<rparr>) s))"

definition func_block_DELAY_ServiceDelay :: "entity_ref \<Rightarrow> mm1 \<Rightarrow> bool \<times> mm1" where
  "func_block_DELAY_ServiceDelay ref s =
     (let capacity = (1 :: u64) in
      if capacity \<le> db_busy (block_DELAY_ServiceDelay s) then (False, s)
      else
        (let (duration, s1) = Exponential (var_serviceRate s) s;
             s2 = upd_delay (\<lambda>b. b\<lparr>db_enterN := db_enterN b + 1, db_busy := db_busy b + 1\<rparr>) s1;
             s3 = upd_delay (\<lambda>b. if db_maxBusy b < db_busy b then b\<lparr>db_maxBusy := db_busy b\<rparr> else b) s2
         in (True, Schedule duration (Completion ref) s3)))"

definition func_queue_push_WaitQueue :: "entity_ref \<Rightarrow> mm1 \<Rightarrow> u64 \<times> mm1" where
  "func_queue_push_WaitQueue ref s =
     (let (idx, q) = queue_push ref (block_QUEUE_WaitQueue s) in (idx, s\<lparr>block_QUEUE_WaitQueue := q\<rparr>))"

definition func_queue_top_WaitQueue :: "mm1 \<Rightarrow> entity_ref option \<times> mm1" where
  "func_queue_top_WaitQueue s =
     (let (r, q) = queue_top (block_QUEUE_WaitQueue s) in (r, s\<lparr>block_QUEUE_WaitQueue := q\<rparr>))"

definition func_queue_delete_WaitQueue :: "mm1 \<Rightarrow> mm1" where
  "func_queue_delete_WaitQueue s = upd_queue queue_delete s"

text \<open>The model has no timeouts: the function is printed but never called.\<close>

definition func_queue_get_WaitQueue :: "u64 \<Rightarrow> mm1 \<Rightarrow> entity_ref option \<times> mm1" where
  "func_queue_get_WaitQueue idx s =
     (let (r, q) = queue_get idx (block_QUEUE_WaitQueue s) in (r, s\<lparr>block_QUEUE_WaitQueue := q\<rparr>))"

definition func_queue_try_advance_WaitQueue :: "mm1 \<Rightarrow> bool \<times> mm1" where
  "func_queue_try_advance_WaitQueue s =
     (case func_queue_top_WaitQueue s of
        (None, s1) \<Rightarrow> (False, s1)
      | (Some ref, s1) \<Rightarrow>
          (case func_block_DELAY_ServiceDelay ref s1 of
             (False, s2) \<Rightarrow> (False, s2)
           | (True, s2) \<Rightarrow>
               (True, upd_queue (\<lambda>q. q\<lparr>sq_exitN := sq_exitN q + 1\<rparr>) (func_queue_delete_WaitQueue s2))))"

definition func_block_QUEUE_WaitQueue :: "entity_ref \<Rightarrow> mm1 \<Rightarrow> bool \<times> mm1" where
  "func_block_QUEUE_WaitQueue ref s =
     (let s1 = upd_queue (\<lambda>q. q\<lparr>sq_enterN := sq_enterN q + 1\<rparr>) s;
          s2 = snd (func_queue_push_WaitQueue ref s1);
          s3 = snd (func_queue_try_advance_WaitQueue s2)
      in (True, s3))"

definition func_block_CREATE_Source :: "mm1 \<Rightarrow> mm1" where
  "func_block_CREATE_Source s =
     (let (time, s1) = Exponential (var_arrivalRate s) s in Schedule time Arrival s1)"

section \<open>Handlers\<close>

text \<open>The loop over a batch; the flag says that the closure returned inside it.\<close>

fun create_batch :: "nat \<Rightarrow> mm1 \<Rightarrow> (bool \<times> mm1) option" where
  "create_batch 0 s = Some (False, s)"
| "create_batch (Suc n) s =
     (let (newEntity, p) = pool_alloc () (pool_entity_Order s);
          ref = \<lparr>ref_Type = entityType_Order, ref_Idx = newEntity\<rparr>;
          s1 = upd_source (\<lambda>b. b\<lparr>cb_createdN := cb_createdN b + 1\<rparr>) (s\<lparr>pool_entity_Order := p\<rparr>);
          (ok, s2) = func_block_QUEUE_WaitQueue ref s1
      in if ok then create_batch n (upd_source (\<lambda>b. b\<lparr>cb_exitN := cb_exitN b + 1\<rparr>) s2)
         else if stop s2 then Some (True, s2)
         else
           (case freeEntity ref (upd_source (\<lambda>b. b\<lparr>cb_dropN := cb_dropN b + 1\<rparr>) s2) of
              None \<Rightarrow> None
            | Some s3 \<Rightarrow> create_batch n s3))"

definition on_arrival :: "mm1 \<Rightarrow> mm1 option" where
  "on_arrival s =
     (let batch = 1 in
      case create_batch batch s of
        None \<Rightarrow> None
      | Some (returned, s1) \<Rightarrow>
          if returned then Some s1
          else if \<not> stop s1 then Some (func_block_CREATE_Source s1)
          else Some s1)"

text \<open>The reason of a completion that fails is a Russian sentence in the program.\<close>

definition on_completion :: "entity_ref \<Rightarrow> mm1 \<Rightarrow> mm1 option" where
  "on_completion ref s =
     (case func_block_TERMINATE_Sink ref s of
        None \<Rightarrow> None
      | Some (ok, s1) \<Rightarrow>
          if ok then
            (let s2 = upd_delay (\<lambda>b. b\<lparr>db_exitN := db_exitN b + 1\<rparr>) s1;
                 s3 = upd_delay (\<lambda>b. if 0 < db_busy b then b\<lparr>db_busy := db_busy b - 1\<rparr> else b) s2
             in Some (snd (func_queue_try_advance_WaitQueue s3)))
          else if stop s1 then Some s1
          else Some (s1\<lparr>stop := True,
             reasonStop := ''ServiceDelay: the order could not leave the block''\<rparr>))"

definition run_handler :: "handler \<Rightarrow> mm1 \<Rightarrow> mm1 option" where
  "run_handler h s = (case h of Arrival \<Rightarrow> on_arrival s | Completion ref \<Rightarrow> on_completion ref s)"

definition startCreateBlocks :: "mm1 \<Rightarrow> mm1" where
  "startCreateBlocks s = func_block_CREATE_Source s"

end
