(* ===== verification/Sim_Protocol.thy ===== *)
theory Sim_Protocol
  imports Go_Float_Arith Go_Float_Print "HOL-Library.While_Combinator"
begin

text \<open>
  What the protocol sides of all simulators have in common and what does not depend on their
  state: numbers as text, the operators of a stop rule, and the loop that moves the time of the
  next report.
\<close>

definition FormatUint :: "u64 \<Rightarrow> string" where
  "FormatUint w = decimal_z (uint w)"

definition compare_op :: "string \<Rightarrow> (f64 \<Rightarrow> f64 \<Rightarrow> bool) option" where
  "compare_op opn =
     (if opn = ''=='' then Some f64_eq
      else if opn = ''!='' then Some (\<lambda>a b. \<not> f64_eq a b)
      else if opn = ''>'' then Some (\<lambda>a b. f64_lt b a)
      else if opn = ''>='' then Some f64_ge
      else if opn = ''<'' then Some f64_lt
      else if opn = ''<='' then Some f64_le
      else None)"

text \<open>\<open>for nextMetricAt <= clock { nextMetricAt += metricStep }\<close>; \<open>None\<close> is a loop without end.\<close>

definition advance_metric :: "f64 \<Rightarrow> f64 \<Rightarrow> f64 \<Rightarrow> f64 option" where
  "advance_metric now step next = while_option (\<lambda>n. f64_le n now) (\<lambda>n. f64_add n step) next"

end
