(* ===== verification/Sim_Mm1_Run.thy ===== *)
theory Sim_Mm1_Run
  imports Sim_Mm1 Sim_Protocol
begin

text \<open>
  The protocol side of the M/M/1 simulator and its main loop (codegen/example/mm1/main.go):
  the commands before START, the metrics, the stop rule and \<open>run\<close>. A closure that reads the
  model is a function on its state. Standard input is the list of its lines with the error
  that ended it, if any.
\<close>

record metricFunc =
  mf_name :: string
  mf_value :: "mm1 \<Rightarrow> string"

record proto =
  protoOut :: "string list option"
  metrics :: "metricFunc list"
  metricStep :: f64
  hasMetricStep :: bool
  nextMetricAt :: f64
  stopRule :: "(mm1 \<Rightarrow> bool) option"

definition modelHash :: string where
  "modelHash = ''7407517515cf1d2019ab9458a0c6c032d5e39bbab2310ee0b63f2f3bdff17d86''"

section \<open>Lines\<close>

definition sendLine :: "string \<Rightarrow> proto \<Rightarrow> proto" where
  "sendLine line p = (case protoOut p of None \<Rightarrow> p | Some out \<Rightarrow> p\<lparr>protoOut := Some (out @ [line])\<rparr>)"

definition sendErr :: "string \<Rightarrow> string \<Rightarrow> proto \<Rightarrow> proto" where
  "sendErr code message p =
     sendLine (''ERR '' @ code @ '' '' @ map (\<lambda>c. if c = CHR 0x0A then CHR '' '' else c) message) p"

section \<open>Names\<close>

definition setVar :: "string \<Rightarrow> string \<Rightarrow> mm1 \<Rightarrow> proto \<Rightarrow> bool \<times> mm1 \<times> proto" where
  "setVar name raw s p =
     (if name = ''arrivalRate'' then
        (case ParseFloat raw of
           None \<Rightarrow> (False, s, sendErr ''bad_set_value'' (name @ ''='' @ raw) p)
         | Some v \<Rightarrow> (True, s\<lparr>var_arrivalRate := v\<rparr>, p))
      else if name = ''serviceRate'' then
        (case ParseFloat raw of
           None \<Rightarrow> (False, s, sendErr ''bad_set_value'' (name @ ''='' @ raw) p)
         | Some v \<Rightarrow> (True, s\<lparr>var_serviceRate := v\<rparr>, p))
      else (False, s, sendErr ''unknown_set_target'' name p))"

definition resolveMetric :: "string \<Rightarrow> metricFunc option" where
  "resolveMetric name =
     (if name = ''Simulation.clock'' then Some \<lparr>mf_name = name, mf_value = (\<lambda>s. FormatFloat (clock s))\<rparr>
      else if name = ''arrivalRate'' then Some \<lparr>mf_name = name, mf_value = (\<lambda>s. FormatFloat (var_arrivalRate s))\<rparr>
      else if name = ''serviceRate'' then Some \<lparr>mf_name = name, mf_value = (\<lambda>s. FormatFloat (var_serviceRate s))\<rparr>
      else if name = ''Source.createdN'' then Some \<lparr>mf_name = name, mf_value = (\<lambda>s. FormatUint (cb_createdN (block_CREATE_Source s)))\<rparr>
      else if name = ''Source.exitN'' then Some \<lparr>mf_name = name, mf_value = (\<lambda>s. FormatUint (cb_exitN (block_CREATE_Source s)))\<rparr>
      else if name = ''Source.dropN'' then Some \<lparr>mf_name = name, mf_value = (\<lambda>s. FormatUint (cb_dropN (block_CREATE_Source s)))\<rparr>
      else if name = ''WaitQueue.enterN'' then Some \<lparr>mf_name = name, mf_value = (\<lambda>s. FormatUint (sq_enterN (block_QUEUE_WaitQueue s)))\<rparr>
      else if name = ''WaitQueue.exitN'' then Some \<lparr>mf_name = name, mf_value = (\<lambda>s. FormatUint (sq_exitN (block_QUEUE_WaitQueue s)))\<rparr>
      else if name = ''WaitQueue.dropN'' then Some \<lparr>mf_name = name, mf_value = (\<lambda>s. FormatUint (sq_dropN (block_QUEUE_WaitQueue s)))\<rparr>
      else if name = ''WaitQueue.timeoutN'' then Some \<lparr>mf_name = name, mf_value = (\<lambda>s. FormatUint (sq_timeoutN (block_QUEUE_WaitQueue s)))\<rparr>
      else if name = ''WaitQueue.len'' then Some \<lparr>mf_name = name, mf_value = (\<lambda>s. FormatUint (sq_len (block_QUEUE_WaitQueue s)))\<rparr>
      else if name = ''WaitQueue.maxLen'' then Some \<lparr>mf_name = name, mf_value = (\<lambda>s. FormatUint (sq_maxLen (block_QUEUE_WaitQueue s)))\<rparr>
      else if name = ''ServiceDelay.enterN'' then Some \<lparr>mf_name = name, mf_value = (\<lambda>s. FormatUint (db_enterN (block_DELAY_ServiceDelay s)))\<rparr>
      else if name = ''ServiceDelay.exitN'' then Some \<lparr>mf_name = name, mf_value = (\<lambda>s. FormatUint (db_exitN (block_DELAY_ServiceDelay s)))\<rparr>
      else if name = ''ServiceDelay.busy'' then Some \<lparr>mf_name = name, mf_value = (\<lambda>s. FormatUint (db_busy (block_DELAY_ServiceDelay s)))\<rparr>
      else if name = ''ServiceDelay.maxBusy'' then Some \<lparr>mf_name = name, mf_value = (\<lambda>s. FormatUint (db_maxBusy (block_DELAY_ServiceDelay s)))\<rparr>
      else if name = ''Sink.enterN'' then Some \<lparr>mf_name = name, mf_value = (\<lambda>s. FormatUint (tb_enterN (block_TERMINATE_Sink s)))\<rparr>
      else None)"

definition resolveNumericOperand :: "string \<Rightarrow> (mm1 \<Rightarrow> f64) option" where
  "resolveNumericOperand name =
     (if name = ''Simulation.clock'' then Some clock
      else if name = ''arrivalRate'' then Some var_arrivalRate
      else if name = ''serviceRate'' then Some var_serviceRate
      else if name = ''Source.createdN'' then Some (\<lambda>s. f64_of_u64 (cb_createdN (block_CREATE_Source s)))
      else if name = ''Source.exitN'' then Some (\<lambda>s. f64_of_u64 (cb_exitN (block_CREATE_Source s)))
      else if name = ''Source.dropN'' then Some (\<lambda>s. f64_of_u64 (cb_dropN (block_CREATE_Source s)))
      else if name = ''WaitQueue.enterN'' then Some (\<lambda>s. f64_of_u64 (sq_enterN (block_QUEUE_WaitQueue s)))
      else if name = ''WaitQueue.exitN'' then Some (\<lambda>s. f64_of_u64 (sq_exitN (block_QUEUE_WaitQueue s)))
      else if name = ''WaitQueue.dropN'' then Some (\<lambda>s. f64_of_u64 (sq_dropN (block_QUEUE_WaitQueue s)))
      else if name = ''WaitQueue.timeoutN'' then Some (\<lambda>s. f64_of_u64 (sq_timeoutN (block_QUEUE_WaitQueue s)))
      else if name = ''WaitQueue.len'' then Some (\<lambda>s. f64_of_u64 (sq_len (block_QUEUE_WaitQueue s)))
      else if name = ''WaitQueue.maxLen'' then Some (\<lambda>s. f64_of_u64 (sq_maxLen (block_QUEUE_WaitQueue s)))
      else if name = ''ServiceDelay.enterN'' then Some (\<lambda>s. f64_of_u64 (db_enterN (block_DELAY_ServiceDelay s)))
      else if name = ''ServiceDelay.exitN'' then Some (\<lambda>s. f64_of_u64 (db_exitN (block_DELAY_ServiceDelay s)))
      else if name = ''ServiceDelay.busy'' then Some (\<lambda>s. f64_of_u64 (db_busy (block_DELAY_ServiceDelay s)))
      else if name = ''ServiceDelay.maxBusy'' then Some (\<lambda>s. f64_of_u64 (db_maxBusy (block_DELAY_ServiceDelay s)))
      else if name = ''Sink.enterN'' then Some (\<lambda>s. f64_of_u64 (tb_enterN (block_TERMINATE_Sink s)))
      else map_option (\<lambda>v _. v) (ParseFloat name))"

definition configureStopRule :: "string \<Rightarrow> string \<Rightarrow> string \<Rightarrow> proto \<Rightarrow> bool \<times> proto" where
  "configureStopRule leftName opn rightName p =
     (case resolveNumericOperand leftName of
        None \<Rightarrow> (False, sendErr ''bad_rule_left'' leftName p)
      | Some left \<Rightarrow>
          (case resolveNumericOperand rightName of
             None \<Rightarrow> (False, sendErr ''bad_rule_right'' rightName p)
           | Some right \<Rightarrow>
               (case compare_op opn of
                  None \<Rightarrow> (False, sendErr ''bad_rule_op'' opn p)
                | Some f \<Rightarrow> (True, p\<lparr>stopRule := Some (\<lambda>s. f (left s) (right s))\<rparr>))))"

section \<open>Commands\<close>

text \<open>The names of a METRIC command; \<open>Inl\<close> is the first unknown one.\<close>

fun resolve_metrics :: "string list \<Rightarrow> string + metricFunc list" where
  "resolve_metrics [] = Inr []"
| "resolve_metrics (part # parts) =
     (let name = trim_space part in
      if name = [] then resolve_metrics parts
      else
        (case resolveMetric name of
           None \<Rightarrow> Inl name
         | Some metric \<Rightarrow> map_sum id (Cons metric) (resolve_metrics parts)))"

definition metric_command :: "string \<Rightarrow> proto \<Rightarrow> proto" where
  "metric_command line p =
     (let raw = trim_space (trim_prefix ''METRIC'' line) in
      if raw = [] then p\<lparr>metrics := []\<rparr>
      else
        (case resolve_metrics (split_byte (CHR '';'') raw) of
           Inl name \<Rightarrow> sendErr ''unknown_metric'' name p
         | Inr ms \<Rightarrow> p\<lparr>metrics := ms\<rparr>))"

definition metric_step_command :: "string list \<Rightarrow> proto \<Rightarrow> proto" where
  "metric_step_command fs p =
     (if length fs \<noteq> 2 then sendErr ''bad_metric_step'' ''expected METRIC_STEP <model_time_step>'' p
      else
        (case ParseFloat (fs ! 1) of
           None \<Rightarrow> sendErr ''bad_metric_step'' (fs ! 1) p
         | Some v \<Rightarrow>
             if f64_le v (Fin 0) then sendErr ''bad_metric_step'' (fs ! 1) p
             else p\<lparr>metricStep := v, hasMetricStep := True, nextMetricAt := v\<rparr>))"

definition set_command :: "string list \<Rightarrow> mm1 \<Rightarrow> proto \<Rightarrow> mm1 \<times> proto" where
  "set_command fs s p =
     (if length fs = 3 then snd (setVar (fs ! 1) (fs ! 2) s p)
      else if length fs = 4 \<and> fs ! 2 = ''='' then snd (setVar (fs ! 1) (fs ! 3) s p)
      else (s, sendErr ''bad_set'' ''expected SET <var_name> <value> or SET <var_name> = <value>'' p))"

definition handleCommand :: "string \<Rightarrow> mm1 \<Rightarrow> proto \<Rightarrow> bool \<times> mm1 \<times> proto" where
  "handleCommand line s p =
     (let fs = string_fields line in
      if fs = [] then (False, s, p)
      else if hd fs = ''RULE'' then
        (if length fs \<noteq> 5 \<or> fs ! 1 \<noteq> ''STOP''
         then (False, s, sendErr ''bad_rule'' ''expected RULE STOP <left> <op> <right>'' p)
         else (False, s, snd (configureStopRule (fs ! 2) (fs ! 3) (fs ! 4) p)))
      else if hd fs = ''METRIC'' then (False, s, metric_command line p)
      else if hd fs = ''METRIC_STEP'' then (False, s, metric_step_command fs p)
      else if hd fs = ''START'' then
        (if length fs \<noteq> 1 then (False, s, sendErr ''bad_start'' ''START does not accept arguments'' p)
         else (True, s, sendLine ''READY'' p))
      else if hd fs = ''SET'' then (False, set_command fs s p)
      else (False, s, sendErr ''unknown_command'' (hd fs) p))"

fun read_commands :: "string list \<Rightarrow> string option \<Rightarrow> mm1 \<Rightarrow> proto \<Rightarrow> bool \<times> mm1 \<times> proto" where
  "read_commands [] err s p =
     (case err of None \<Rightarrow> (False, s, p) | Some e \<Rightarrow> (False, s, sendErr ''read_error'' e p))"
| "read_commands (l # ls) err s p =
     (let line = trim_space l in
      if line = [] then read_commands ls err s p
      else
        (case handleCommand line s p of
           (True, s1, p1) \<Rightarrow> (True, s1, p1)
         | (False, s1, p1) \<Rightarrow> read_commands ls err s1 p1))"

definition configureExperiment :: "string list \<Rightarrow> string option \<Rightarrow> mm1 \<Rightarrow> proto \<Rightarrow> bool \<times> mm1 \<times> proto" where
  "configureExperiment input err s p =
     read_commands input err s (sendLine (''HELLO '' @ modelHash) (p\<lparr>protoOut := Some []\<rparr>))"

section \<open>Statistics\<close>

definition sendStat :: "mm1 \<Rightarrow> proto \<Rightarrow> proto" where
  "sendStat s p =
     (if metrics p = [] then p
      else sendLine (''STAT '' @ join_with '';'' (map (\<lambda>m. mf_name m @ ''='' @ mf_value m s) (metrics p))) p)"

definition maybeSendMetricStep :: "mm1 \<Rightarrow> proto \<Rightarrow> proto option" where
  "maybeSendMetricStep s p =
     (if \<not> hasMetricStep p \<or> metrics p = [] then Some p
      else if f64_lt (clock s) (nextMetricAt p) then Some p
      else
        (let p1 = sendStat s p in
         map_option (\<lambda>n. p1\<lparr>nextMetricAt := n\<rparr>) (advance_metric (clock s) (metricStep p1) (nextMetricAt p1))))"

section \<open>The main loop\<close>

datatype outcome = Running | Ended | Crashed | Hangs

text \<open>One turn of the loop in \<open>run\<close>: pop, test, handle, report, test the stop rule.\<close>

definition loop_turn :: "mm1 \<times> proto \<Rightarrow> outcome \<times> mm1 \<times> proto" where
  "loop_turn sp =
     (let (s, p) = sp; (e, q) = eq_pop (eventQueue s); s1 = s\<lparr>eventQueue := q\<rparr> in
      if f64_eq (Time e) (Fin (- 1)) \<or> stop s1 then (Ended, s1, p)
      else
        (let s2 = s1\<lparr>clock := Time e\<rparr> in
         case Handler e of
           None \<Rightarrow> (Crashed, s2, p)
         | Some h \<Rightarrow>
             (case run_handler h s2 of
                None \<Rightarrow> (Crashed, s2, p)
              | Some s3 \<Rightarrow>
                  (case maybeSendMetricStep s3 p of
                     None \<Rightarrow> (Hangs, s3, p)
                   | Some p1 \<Rightarrow>
                       if stop s3 then (Ended, s3, p1)
                       else
                         (case stopRule p1 of
                            None \<Rightarrow> (Running, s3, p1)
                          | Some rule \<Rightarrow>
                              if rule s3 then (Ended, s3\<lparr>stop := True, reasonStop := ''stop_rule''\<rparr>, p1)
                              else (Running, s3, p1))))))"

fun loop_turns :: "nat \<Rightarrow> mm1 \<times> proto \<Rightarrow> outcome \<times> mm1 \<times> proto" where
  "loop_turns 0 sp = (Running, sp)"
| "loop_turns (Suc n) sp =
     (case loop_turn sp of
        (Running, sp1) \<Rightarrow> loop_turns n sp1
      | (out, sp1) \<Rightarrow> (out, sp1))"

definition finish_run :: "mm1 \<times> proto \<Rightarrow> mm1 \<times> proto" where
  "finish_run sp =
     (let (s, p) = sp;
          s1 = (if reasonStop s = [] then s\<lparr>reasonStop := ''empty_event_queue''\<rparr> else s)
      in (s1, sendLine (''END '' @ reasonStop s1) (sendStat s1 p)))"

text \<open>\<open>run\<close> with at most \<open>n\<close> turns of its loop.\<close>

definition run :: "nat \<Rightarrow> mm1 \<times> proto \<Rightarrow> outcome \<times> mm1 \<times> proto" where
  "run n sp =
     (case loop_turns n sp of (Ended, sp1) \<Rightarrow> (Ended, finish_run sp1) | (out, sp1) \<Rightarrow> (out, sp1))"

text \<open>The process: \<open>None\<close> when no START came.\<close>

definition main_mm1 ::
  "nat \<Rightarrow> (nat \<Rightarrow> f64) \<Rightarrow> string list \<Rightarrow> string option \<Rightarrow> mm1 \<Rightarrow> proto \<Rightarrow>
   (outcome \<times> mm1 \<times> proto) option \<times> proto" where
  "main_mm1 n source input err s p =
     (case configureExperiment input err s p of
        (False, s1, p1) \<Rightarrow> (None, p1)
      | (True, s1, p1) \<Rightarrow>
          (let res = run n (startCreateBlocks (initModel source s1), p1) in (Some res, snd (snd res))))"

text \<open>The globals when the process starts; the blocks are not allocated yet.\<close>

definition globals :: mm1 where
  "globals = initModel (\<lambda>_. Fin 1) \<lparr>eventQueue = [], clock = Fin 0, stop = False, reasonStop = [],
     rng = (\<lambda>_. Fin 1), pool_entity_Order = new_pool 0, var_arrivalRate = Fin 1, var_serviceRate = Fin (5 / 4),
     block_CREATE_Source = \<lparr>cb_createdN = 0, cb_exitN = 0, cb_dropN = 0\<rparr>, block_QUEUE_WaitQueue = empty_queue,
     block_DELAY_ServiceDelay = \<lparr>db_enterN = 0, db_exitN = 0, db_busy = 0, db_maxBusy = 0\<rparr>,
     block_TERMINATE_Sink = \<lparr>tb_enterN = 0\<rparr>\<rparr>"

definition proto_globals :: proto where
  "proto_globals = \<lparr>protoOut = None, metrics = [], metricStep = Fin 0, hasMetricStep = False,
     nextMetricAt = Fin 0, stopRule = None\<rparr>"

end
