(* ===== verification/Mm1_Spec.thy ===== *)
theory Mm1_Spec
  imports Go_Float_Arith Sim_Queue
begin

text \<open>
  The M/M/1 system as a queueing theorist writes it down, which the generated simulator has to
  implement: one clock for the next arrival, one for the order in service, a line of waiting
  orders. Durations come from one sequence of standard exponential values, divided by the rate
  of the event they are drawn for, in \<open>float64\<close> arithmetic. When both events have the same
  time, either may come first.
\<close>

record mm1_system =
  now :: f64
  next_arrival :: f64
  in_service :: "(f64 \<times> entity_ref) option"
  waiting_line :: "entity_ref list"
  created :: nat
  departed :: nat
  draws :: "nat \<Rightarrow> f64"

definition draw :: "nat \<Rightarrow> rat \<Rightarrow> mm1_system \<Rightarrow> f64 \<Rightarrow> f64" where
  "draw i rate m t = f64_add t (f64_div (draws m i) (Fin rate))"

definition drop_draws :: "nat \<Rightarrow> (nat \<Rightarrow> f64) \<Rightarrow> nat \<Rightarrow> f64" where
  "drop_draws k g = (\<lambda>i. g (i + k))"

definition mm1_initial :: "rat \<Rightarrow> (nat \<Rightarrow> f64) \<Rightarrow> mm1_system" where
  "mm1_initial la g =
     \<lparr>now = Fin 0, next_arrival = f64_add (Fin 0) (f64_div (g 0) (Fin la)), in_service = None,
      waiting_line = [], created = 0, departed = 0, draws = drop_draws 1 g\<rparr>"

text \<open>The orders that are in the system, the one in service first.\<close>

definition orders :: "mm1_system \<Rightarrow> entity_ref list" where
  "orders m = (case in_service m of None \<Rightarrow> [] | Some (d, r) \<Rightarrow> [r]) @ waiting_line m"

inductive mm1_step :: "rat \<Rightarrow> rat \<Rightarrow> mm1_system \<Rightarrow> mm1_system \<Rightarrow> bool" for la mu where
  arrive_idle:
    "in_service m = None \<Longrightarrow> t = next_arrival m \<Longrightarrow> r \<notin> set (orders m) \<Longrightarrow>
     mm1_step la mu m (m\<lparr>now := t, in_service := Some (draw 0 mu m t, r), next_arrival := draw 1 la m t,
       created := created m + 1, draws := drop_draws 2 (draws m)\<rparr>)"
| arrive_busy:
    "in_service m = Some (d, r0) \<Longrightarrow> t = next_arrival m \<Longrightarrow> f64_le t d \<Longrightarrow> r \<notin> set (orders m) \<Longrightarrow>
     mm1_step la mu m (m\<lparr>now := t, waiting_line := waiting_line m @ [r], next_arrival := draw 0 la m t,
       created := created m + 1, draws := drop_draws 1 (draws m)\<rparr>)"
| depart_last:
    "in_service m = Some (d, r0) \<Longrightarrow> f64_le d (next_arrival m) \<Longrightarrow> waiting_line m = [] \<Longrightarrow>
     mm1_step la mu m (m\<lparr>now := d, in_service := None, departed := departed m + 1\<rparr>)"
| depart_next:
    "in_service m = Some (d, r0) \<Longrightarrow> f64_le d (next_arrival m) \<Longrightarrow> waiting_line m = r # rs \<Longrightarrow>
     mm1_step la mu m (m\<lparr>now := d, in_service := Some (draw 0 mu m d, r), waiting_line := rs,
       departed := departed m + 1, draws := drop_draws 1 (draws m)\<rparr>)"

inductive_cases mm1_stepE: "mm1_step la mu m m'"

section \<open>What always holds\<close>

definition draws_ok :: "(nat \<Rightarrow> f64) \<Rightarrow> bool" where
  "draws_ok g \<longleftrightarrow> (\<forall>n. f64_time (g n))"

text \<open>
  No waiting order while the server is free, no order twice, nothing lost, and no event lies
  in the past.
\<close>

definition mm1_ok :: "mm1_system \<Rightarrow> bool" where
  "mm1_ok m \<longleftrightarrow>
     (in_service m = None \<longrightarrow> waiting_line m = []) \<and> distinct (orders m) \<and>
     created m = departed m + length (orders m) \<and> draws_ok (draws m) \<and>
     f64_time (now m) \<and> f64_rep (next_arrival m) \<and> f64_ge (next_arrival m) (now m) \<and>
     (\<forall>d r. in_service m = Some (d, r) \<longrightarrow> f64_rep d \<and> f64_ge d (now m))"

lemma draws_ok_drop: "draws_ok g \<Longrightarrow> draws_ok (drop_draws k g)"
  by (simp add: draws_ok_def drop_draws_def)

lemma f64_time_later: "f64_time x \<Longrightarrow> f64_ge y x \<Longrightarrow> f64_time y"
  unfolding f64_time_def using f64_ge_trans by blast

lemma draw_ok:
  assumes "draws_ok (draws m)" "0 < rate" "f64_time t" "f64_rep t"
  shows "f64_rep (draw i rate m t)" "f64_ge (draw i rate m t) t"
  using assms by (auto simp: draw_def draws_ok_def intro!: f64_add_later f64_div_time)

lemma mm1_initial_ok:
  assumes "draws_ok g" "0 < la"
  shows "mm1_ok (mm1_initial la g)"
proof -
  have "f64_ge (f64_add (Fin 0) (f64_div (g 0) (Fin la))) (Fin 0)"
    using assms by (intro f64_add_later f64_div_time) (simp_all add: draws_ok_def)
  with assms show ?thesis
    by (simp add: mm1_ok_def mm1_initial_def orders_def draws_ok_drop)
qed

lemma mm1_step_ok:
  assumes ok: "mm1_ok m" and rates: "0 < la" "0 < mu" and step: "mm1_step la mu m m'"
  shows "mm1_ok m' \<and> f64_ge (now m') (now m)"
proof -
  have now: "f64_time (now m)" "f64_ge (next_arrival m) (now m)" "f64_rep (next_arrival m)"
    and dr: "draws_ok (draws m)"
    and dist: "distinct (orders m)" and cnt: "created m = departed m + length (orders m)"
    using ok by (simp_all add: mm1_ok_def)
  have na: "f64_time (next_arrival m)" using now by (blast intro: f64_time_later)
  from step show ?thesis
  proof (cases rule: mm1_step.cases)
    case (arrive_idle t r)
    with ok now na dr dist cnt rates show ?thesis
      by (auto simp: mm1_ok_def orders_def draws_ok_drop draw_ok)
  next
    case (arrive_busy d r0 t r)
    with ok now na dr dist cnt rates show ?thesis
      by (auto simp: mm1_ok_def orders_def draws_ok_drop draw_ok f64_le_def)
  next
    case (depart_last d r0)
    with ok have d: "f64_rep d" "f64_ge d (now m)" by (auto simp: mm1_ok_def)
    with now have "f64_time d" by (blast intro: f64_time_later)
    with depart_last d ok now na dr dist cnt show ?thesis
      by (auto simp: mm1_ok_def orders_def f64_le_def)
  next
    case (depart_next d r0 r rs)
    with ok have d: "f64_rep d" "f64_ge d (now m)" by (auto simp: mm1_ok_def)
    with now have "f64_time d" by (blast intro: f64_time_later)
    with depart_next d ok now na dr dist cnt rates show ?thesis
      by (auto simp: mm1_ok_def orders_def draws_ok_drop draw_ok f64_le_def)
  qed
qed

lemma mm1_steps_ok:
  "(mm1_step la mu ^^ k) m m' \<Longrightarrow> mm1_ok m \<Longrightarrow> 0 < la \<Longrightarrow> 0 < mu \<Longrightarrow> mm1_ok m'"
  by (induction k arbitrary: m') (auto dest: mm1_step_ok)

lemma mm1_step_created: "mm1_step la mu m m' \<Longrightarrow> created m' \<le> created m + 1"
  by (auto elim: mm1_stepE)

end
