(* ===== verification/Sim_Mm1_Correct.thy ===== *)
theory Sim_Mm1_Correct
  imports Sim_Mm1_Run Mm1_Spec
begin

text \<open>
  The generated M/M/1 simulator implements the M/M/1 system: a simulation between the turns of
  its main loop and the steps of \<open>mm1_step\<close>. The simulator's counters, its entity pool, its
  queue with slots and tickets and its heap of closures all represent the one line of orders.
\<close>

section \<open>The state that represents a system\<close>

definition arrival_event :: "mm1_system \<Rightarrow> handler event" where
  "arrival_event m = \<lparr>Time = next_arrival m, Handler = Some Arrival\<rparr>"

definition completion_events :: "mm1_system \<Rightarrow> handler event multiset" where
  "completion_events m =
     (case in_service m of None \<Rightarrow> {#} | Some (d, r) \<Rightarrow> {#\<lparr>Time = d, Handler = Some (Completion r)\<rparr>#})"

definition events_are :: "handler event multiset \<Rightarrow> handler event_queue \<Rightarrow> bool" where
  "events_are M q \<longleftrightarrow> mset q = M \<and> is_heap q"

definition in_use :: "mm1_system \<Rightarrow> nat" where
  "in_use m = (case in_service m of None \<Rightarrow> 0 | Some _ \<Rightarrow> 1)"

definition queue_counts :: "sim_queue \<Rightarrow> u64 \<times> u64 \<times> u64 \<times> u64" where
  "queue_counts q = (sq_enterN q, sq_exitN q, sq_dropN q, sq_timeoutN q)"

definition pool_holds :: "unit pool \<Rightarrow> mm1_system \<Rightarrow> bool" where
  "pool_holds p m \<longleftrightarrow> pool_ok p \<and> pool_live p = ref_Idx ` set (orders m) \<and>
     length (Entities p) \<le> created m \<and> (\<forall>r \<in> set (orders m). ref_Type r = entityType_Order)"

definition counts_are :: "mm1 \<Rightarrow> mm1_system \<Rightarrow> bool" where
  "counts_are s m \<longleftrightarrow>
     block_CREATE_Source s = \<lparr>cb_createdN = word_of_nat (created m), cb_exitN = word_of_nat (created m), cb_dropN = 0\<rparr> \<and>
     queue_counts (block_QUEUE_WaitQueue s) =
       (word_of_nat (created m), word_of_nat (departed m) + word_of_nat (in_use m), 0, 0) \<and>
     unat (sq_total (block_QUEUE_WaitQueue s)) = created m \<and>
     block_DELAY_ServiceDelay s =
       \<lparr>db_enterN = word_of_nat (departed m) + word_of_nat (in_use m), db_exitN = word_of_nat (departed m),
        db_busy = word_of_nat (in_use m), db_maxBusy = (if created m = 0 then 0 else 1)\<rparr> \<and>
     block_TERMINATE_Sink s = \<lparr>tb_enterN = word_of_nat (departed m)\<rparr>"

definition settled :: "rat \<Rightarrow> rat \<Rightarrow> mm1 \<Rightarrow> mm1_system \<Rightarrow> bool" where
  "settled la mu s m \<longleftrightarrow>
     clock s = now m \<and> rng s = draws m \<and> var_arrivalRate s = Fin la \<and> var_serviceRate s = Fin mu \<and>
     \<not> stop s \<and> reasonStop s = [] \<and>
     queue_inv (block_QUEUE_WaitQueue s) \<and> map snd (waiting (block_QUEUE_WaitQueue s)) = waiting_line m \<and>
     pool_holds (pool_entity_Order s) m \<and> counts_are s m"

definition models :: "rat \<Rightarrow> rat \<Rightarrow> mm1 \<Rightarrow> mm1_system \<Rightarrow> bool" where
  "models la mu s m \<longleftrightarrow>
     events_are (add_mset (arrival_event m) (completion_events m)) (eventQueue s) \<and> settled la mu s m"

section \<open>The parts of a step\<close>

lemma events_push:
  assumes "events_are M q" "\<forall>e \<in># M. Time e \<noteq> NaN" "Time e \<noteq> NaN"
  shows "events_are (add_mset e M) (eq_push q e)"
  using assms eq_push_heap [of q e]
  by (auto simp: events_are_def mset_eq_push timely_def)

lemma queue_inv_counters [simp]:
  "queue_inv (q\<lparr>sq_enterN := x\<rparr>) = queue_inv q" "queue_inv (q\<lparr>sq_exitN := x\<rparr>) = queue_inv q"
  "waiting (q\<lparr>sq_enterN := x\<rparr>) = waiting q" "waiting (q\<lparr>sq_exitN := x\<rparr>) = waiting q"
  by (simp_all add: queue_inv_def waiting_def first_ticket_def)

lemma queue_op_counts:
  "queue_counts (snd (queue_push r q)) = queue_counts q"
  "queue_counts (snd (queue_top q)) = queue_counts q"
  "queue_counts (queue_delete q) = queue_counts q"
  by (auto simp: queue_counts_def queue_push_def queue_top_def queue_delete_def drop_invalid_def Let_def
      split: list.splits)

lemma delay_busy: "1 \<le> db_busy (block_DELAY_ServiceDelay s) \<Longrightarrow> func_block_DELAY_ServiceDelay r s = (False, s)"
  by (simp add: func_block_DELAY_ServiceDelay_def)

definition serve :: "entity_ref \<Rightarrow> mm1 \<Rightarrow> mm1" where
  "serve r s = Schedule (f64_div (rng s 0) (var_serviceRate s)) (Completion r)
     (s\<lparr>rng := drop_draws 1 (rng s), block_DELAY_ServiceDelay := (block_DELAY_ServiceDelay s)
        \<lparr>db_enterN := db_enterN (block_DELAY_ServiceDelay s) + 1, db_busy := 1,
         db_maxBusy := max (db_maxBusy (block_DELAY_ServiceDelay s)) 1\<rparr>\<rparr>)"

lemma max_one_u64: "max (w :: u64) 1 = (if w < 1 then 1 else w)"
  by (metis linorder_not_less max.absorb1 max.absorb2 less_imp_le)

lemma delay_free:
  "db_busy (block_DELAY_ServiceDelay s) = 0 \<Longrightarrow> func_block_DELAY_ServiceDelay r s = (True, serve r s)"
  by (cases "db_maxBusy (block_DELAY_ServiceDelay s) < 1")
    (simp_all add: func_block_DELAY_ServiceDelay_def serve_def Exponential_def drop_draws_def max_one_u64 Let_def)

text \<open>Advancing the queue when nobody waits, when the server is busy, and when it is free.\<close>

lemma advance_cases:
  assumes inv: "queue_inv (block_QUEUE_WaitQueue s)"
  shows "\<exists>q. queue_inv q \<and> queue_counts q = queue_counts (block_QUEUE_WaitQueue s) \<and>
    sq_total q = sq_total (block_QUEUE_WaitQueue s) \<and>
    (let w = waiting (block_QUEUE_WaitQueue s) in
     if w = [] \<or> 1 \<le> db_busy (block_DELAY_ServiceDelay s)
     then waiting q = w \<and> func_queue_try_advance_WaitQueue s = (False, s\<lparr>block_QUEUE_WaitQueue := q\<rparr>)
     else waiting q = tl w \<and> func_queue_try_advance_WaitQueue s =
       (True, serve (snd (hd w)) (s\<lparr>block_QUEUE_WaitQueue := q\<lparr>sq_exitN := sq_exitN q + 1\<rparr>\<rparr>)))"
proof -
  let ?w = "waiting (block_QUEUE_WaitQueue s)"
  obtain x q where top: "queue_top (block_QUEUE_WaitQueue s) = (x, q)" by force
  note t = queue_top_waiting [OF inv top]
  have c: "queue_counts q = queue_counts (block_QUEUE_WaitQueue s)"
    using queue_op_counts(2) [of "block_QUEUE_WaitQueue s"] by (simp add: top)
  show ?thesis
  proof (cases "?w = [] \<or> 1 \<le> db_busy (block_DELAY_ServiceDelay s)")
    case True
    then have "func_queue_try_advance_WaitQueue s = (False, s\<lparr>block_QUEUE_WaitQueue := q\<rparr>)"
      using t by (auto simp: func_queue_try_advance_WaitQueue_def func_queue_top_WaitQueue_def top delay_busy)
    with True t c show ?thesis by (intro exI [of _ q]) simp
  next
    case False
    then have free: "db_busy (block_DELAY_ServiceDelay s) = 0"
      by (simp add: word_le_nat_alt) (metis not_less_eq_eq le_zero_eq unat_eq_zero One_nat_def)
    have "func_queue_try_advance_WaitQueue s = (True, serve (snd (hd ?w))
        (s\<lparr>block_QUEUE_WaitQueue := (queue_delete q)\<lparr>sq_exitN := sq_exitN (queue_delete q) + 1\<rparr>\<rparr>))"
      using False t free
      by (simp add: func_queue_try_advance_WaitQueue_def func_queue_top_WaitQueue_def top delay_free
          func_queue_delete_WaitQueue_def serve_def Schedule_def)
    with False t c queue_delete_waiting [of q] queue_op_counts(3) [of q] show ?thesis
      by (intro exI [of _ "queue_delete q"]) simp
  qed
qed

lemma source_schedules:
  "func_block_CREATE_Source s =
     Schedule (f64_div (rng s 0) (var_arrivalRate s)) Arrival (s\<lparr>rng := drop_draws 1 (rng s)\<rparr>)"
  by (simp add: func_block_CREATE_Source_def Exponential_def drop_draws_def)

text \<open>A new order gets a handle that no order in the system has.\<close>

lemma pool_holds_alloc:
  assumes "pool_holds p m" "created m < 2 ^ 32" "pool_alloc () p = (i, p')"
    "orders m' = orders m @ [\<lparr>ref_Type = entityType_Order, ref_Idx = i\<rparr>]" "created m' = created m + 1"
  shows "pool_holds p' m' \<and> \<lparr>ref_Type = entityType_Order, ref_Idx = i\<rparr> \<notin> set (orders m)"
proof -
  have "pool_room p" using assms(1,2) by (auto simp: pool_holds_def pool_room_def)
  from pool_alloc_live [OF _ this assms(3)] assms have
    "i \<notin> pool_live p \<and> pool_live p' = insert i (pool_live p) \<and> pool_ok p'" by (simp add: pool_holds_def)
  moreover have "length (Entities p') \<le> Suc (length (Entities p))"
    using assms(3) by (cases rule: pool_alloc_cases) simp_all
  ultimately show ?thesis using assms by (force simp: pool_holds_def)
qed

lemma pool_holds_free:
  assumes "pool_holds p m" "orders m = r # orders m'" "distinct (orders m)" "created m' = created m"
  shows "\<exists>p'. pool_free () p (ref_Idx r) = Some p' \<and> pool_holds p' m'"
proof -
  have other: "ref_Idx r \<noteq> ref_Idx r'" if "r' \<in> set (orders m')" for r'
  proof
    assume "ref_Idx r = ref_Idx r'"
    moreover have "ref_Type r = ref_Type r'" using assms that by (simp add: pool_holds_def)
    ultimately have "r = r'" by simp
    with assms that show False by simp
  qed
  obtain p' where p': "pool_free () p (ref_Idx r) = Some p'" "pool_live p' = pool_live p - {ref_Idx r}" "pool_ok p'"
    using pool_free_live [of p "ref_Idx r" "()"] assms by (auto simp: pool_holds_def)
  have "length (Entities p') = length (Entities p)"
    using p'(1) by (auto simp: pool_free_def split: if_splits)
  with p' other assms show ?thesis by (force simp: pool_holds_def)
qed

section \<open>The handlers\<close>

lemma on_arrival_eq:
  assumes "pool_alloc () (pool_entity_Order s) = (i, p')"
    and "ref = \<lparr>ref_Type = entityType_Order, ref_Idx = i\<rparr>"
    and "queue_push ref ((block_QUEUE_WaitQueue s)\<lparr>sq_enterN := sq_enterN (block_QUEUE_WaitQueue s) + 1\<rparr>) = (idx, q2)"
    and "func_queue_try_advance_WaitQueue (s\<lparr>pool_entity_Order := p',
      block_CREATE_Source := (block_CREATE_Source s)\<lparr>cb_createdN := cb_createdN (block_CREATE_Source s) + 1\<rparr>,
      block_QUEUE_WaitQueue := q2\<rparr>) = (b, s3)"
    and "\<not> stop s3"
  shows "on_arrival s = Some (func_block_CREATE_Source (s3\<lparr>block_CREATE_Source :=
    (block_CREATE_Source s3)\<lparr>cb_exitN := cb_exitN (block_CREATE_Source s3) + 1\<rparr>\<rparr>))"
  using assms
  by (simp add: on_arrival_def func_block_QUEUE_WaitQueue_def func_queue_push_WaitQueue_def Let_def)

lemma on_completion_eq:
  assumes "ref_Type r = entityType_Order" "pool_free () (pool_entity_Order s) (ref_Idx r) = Some p'"
    and "block_DELAY_ServiceDelay s = \<lparr>db_enterN = n, db_exitN = x, db_busy = 1, db_maxBusy = mb\<rparr>"
  shows "on_completion r s = Some (snd (func_queue_try_advance_WaitQueue (s\<lparr>
    block_TERMINATE_Sink := (block_TERMINATE_Sink s)\<lparr>tb_enterN := tb_enterN (block_TERMINATE_Sink s) + 1\<rparr>,
    pool_entity_Order := p',
    block_DELAY_ServiceDelay := \<lparr>db_enterN = n, db_exitN = x + 1, db_busy = 0, db_maxBusy = mb\<rparr>\<rparr>)))"
  using assms
  by (simp add: on_completion_def func_block_TERMINATE_Sink_def freeEntity_def Let_def)

lemma completion_not_nan: "mm1_ok m \<Longrightarrow> e \<in># completion_events m \<Longrightarrow> Time e \<noteq> NaN"
  using f64_time_later [of "now m"] f64_time_not_nan
  by (fastforce simp: mm1_ok_def completion_events_def split: option.splits)

lemma draw_not_nan:
  "draws_ok g \<Longrightarrow> 0 < rate \<Longrightarrow> f64_time t \<Longrightarrow> f64_add t (f64_div (g i) (Fin rate)) \<noteq> NaN"
  by (intro f64_time_not_nan f64_time_add f64_div_time) (simp_all add: draws_ok_def)

lemmas state_simps = settled_def counts_are_def orders_def in_use_def serve_def Schedule_def source_schedules
  completion_events_def arrival_event_def draw_def drop_draws_def

lemma arrival_turn:
  assumes st: "settled la mu s (m\<lparr>now := next_arrival m\<rparr>)"
    and ev: "events_are (completion_events m) (eventQueue s)"
    and ok: "mm1_ok m" and rates: "0 < la" "0 < mu" and room: "created m < 2 ^ 32"
    and first: "\<And>d r. in_service m = Some (d, r) \<Longrightarrow> f64_le (next_arrival m) d"
  shows "\<exists>s' m'. on_arrival s = Some s' \<and> mm1_step la mu m m' \<and> models la mu s' m'"
proof -
  let ?q = "block_QUEUE_WaitQueue s" and ?t = "next_arrival m"
  have t: "f64_time ?t" and dr: "draws_ok (draws m)"
    using ok f64_time_later by (auto simp: mm1_ok_def)
  obtain i p' where al: "pool_alloc () (pool_entity_Order s) = (i, p')" by force
  define ref where "ref = \<lparr>ref_Type = entityType_Order, ref_Idx = i\<rparr>"
  obtain idx q2 where push: "queue_push ref (?q\<lparr>sq_enterN := sq_enterN ?q + 1\<rparr>) = (idx, q2)" by force
  have inv: "queue_inv ?q" and tot: "unat (sq_total ?q) = created m"
    using st by (simp_all add: settled_def counts_are_def)
  have lt: "unat (sq_total ?q) < 2 ^ 64 - 1" using room tot by simp
  have q2: "queue_inv q2" "waiting q2 = waiting ?q @ [(unat (sq_total ?q), ref)]"
    "unat (sq_total q2) = created m + 1"
    using queue_push_waiting [OF _ _ push] inv lt unat_Suc_u64 [OF lt] tot by simp_all
  have qc: "queue_counts q2 = (case queue_counts ?q of (e, x) \<Rightarrow> (e + 1, x))"
    using queue_op_counts(1) [of ref "?q\<lparr>sq_enterN := sq_enterN ?q + 1\<rparr>"]
    by (simp add: push queue_counts_def)
  let ?s2 = "s\<lparr>pool_entity_Order := p',
      block_CREATE_Source := (block_CREATE_Source s)\<lparr>cb_createdN := cb_createdN (block_CREATE_Source s) + 1\<rparr>,
      block_QUEUE_WaitQueue := q2\<rparr>"
  note adv = advance_cases [of ?s2]
  show ?thesis
  proof (cases "in_service m")
    case None
    let ?m = "m\<lparr>now := ?t, in_service := Some (draw 0 mu m ?t, ref), next_arrival := draw 1 la m ?t,
       created := created m + 1, draws := drop_draws 2 (draws m)\<rparr>"
    have wl: "waiting_line m = []" "waiting ?q = []"
      using ok None st by (auto simp: mm1_ok_def settled_def)
    have pool: "pool_holds p' ?m \<and> ref \<notin> set (orders m)"
      using st room al wl None pool_holds_alloc [of "pool_entity_Order s" m i p' ?m, folded ref_def]
      by (simp add: settled_def pool_holds_def orders_def)
    have free: "db_busy (block_DELAY_ServiceDelay s) = 0"
      using st None by (simp add: settled_def counts_are_def in_use_def)
    obtain q where q: "queue_inv q" "queue_counts q = queue_counts q2" "sq_total q = sq_total q2" "waiting q = []"
      and advq: "func_queue_try_advance_WaitQueue ?s2 =
        (True, serve ref (?s2\<lparr>block_QUEUE_WaitQueue := q\<lparr>sq_exitN := sq_exitN q + 1\<rparr>\<rparr>))"
      using adv q2 wl free by auto
    let ?s' = "func_block_CREATE_Source ((serve ref (?s2\<lparr>block_QUEUE_WaitQueue := q\<lparr>sq_exitN := sq_exitN q + 1\<rparr>\<rparr>))
      \<lparr>block_CREATE_Source := \<lparr>cb_createdN = word_of_nat (created m) + 1, cb_exitN = word_of_nat (created m) + 1,
        cb_dropN = 0\<rparr>\<rparr>)"
    have run: "on_arrival s = Some ?s'"
      using on_arrival_eq [OF al ref_def push advq] st
      by (simp add: settled_def counts_are_def serve_def Schedule_def)
    have step: "mm1_step la mu m ?m"
      using pool None by (intro arrive_idle) simp_all
    have events: "events_are (add_mset (arrival_event ?m) (completion_events ?m)) (eventQueue ?s')"
    proof -
      let ?c = "\<lparr>Time = draw 0 mu m ?t, Handler = Some (Completion ref)\<rparr>"
      let ?a = "\<lparr>Time = draw 1 la m ?t, Handler = Some Arrival\<rparr>"
      have "events_are {#?c#} (eq_push (eventQueue s) ?c)"
        using ev None draw_not_nan [OF dr rates(2) t, of 0]
        by (intro events_push [of "{#}"]) (auto simp: completion_events_def draw_def)
      then have "events_are {#?a, ?c#} (eq_push (eq_push (eventQueue s) ?c) ?a)"
        using draw_not_nan [OF dr rates(2) t, of 0] draw_not_nan [OF dr rates(1) t, of 1]
        by (intro events_push [of "{#?c#}"]) (auto simp: draw_def)
      then show ?thesis
        using st by (simp add: settled_def state_simps)
    qed
    have "settled la mu ?s' ?m"
      using st q qc q2 pool None
      by (simp add: state_simps queue_counts_def wl fun_eq_iff add.commute max_one_u64)
    with events run step show ?thesis unfolding models_def by blast
  next
    case (Some dr0)
    obtain d r0 where sv: "in_service m = Some (d, r0)" using Some by (cases dr0) auto
    let ?m = "m\<lparr>now := ?t, waiting_line := waiting_line m @ [ref], next_arrival := draw 0 la m ?t,
       created := created m + 1, draws := drop_draws 1 (draws m)\<rparr>"
    have pool: "pool_holds p' ?m \<and> ref \<notin> set (orders m)"
      using st room al sv pool_holds_alloc [of "pool_entity_Order s" m i p' ?m, folded ref_def]
      by (simp add: settled_def pool_holds_def orders_def)
    have busy: "db_busy (block_DELAY_ServiceDelay s) = 1"
      using st sv by (simp add: settled_def counts_are_def in_use_def)
    obtain q where q: "queue_inv q" "queue_counts q = queue_counts q2" "sq_total q = sq_total q2" "waiting q = waiting q2"
      and advq: "func_queue_try_advance_WaitQueue ?s2 = (False, ?s2\<lparr>block_QUEUE_WaitQueue := q\<rparr>)"
      using adv q2 busy by auto
    let ?s' = "func_block_CREATE_Source (?s2\<lparr>block_QUEUE_WaitQueue := q,
      block_CREATE_Source := \<lparr>cb_createdN = word_of_nat (created m) + 1, cb_exitN = word_of_nat (created m) + 1,
        cb_dropN = 0\<rparr>\<rparr>)"
    have run: "on_arrival s = Some ?s'"
      using on_arrival_eq [OF al ref_def push advq] st
      by (simp add: settled_def counts_are_def)
    have step: "mm1_step la mu m ?m"
      using pool sv first by (intro arrive_busy) auto
    have "created m \<noteq> 0"
      using ok sv by (simp add: mm1_ok_def orders_def)
    have "events_are (add_mset (arrival_event ?m) (completion_events ?m)) (eventQueue ?s')"
      using events_push [OF ev] completion_not_nan [OF ok] draw_not_nan [OF dr rates(1) t, of 0] st sv
      by (simp add: settled_def state_simps)
    moreover have "settled la mu ?s' ?m"
      using st q qc q2 pool sv \<open>created m \<noteq> 0\<close>
      by (simp add: state_simps queue_counts_def fun_eq_iff add.commute)
    ultimately show ?thesis using run step unfolding models_def by blast
  qed
qed

lemma completion_turn:
  assumes sv: "in_service m = Some (d, r0)" and st: "settled la mu s (m\<lparr>now := d\<rparr>)"
    and ev: "events_are {#arrival_event m#} (eventQueue s)"
    and ok: "mm1_ok m" and rates: "0 < la" "0 < mu"
    and first: "f64_le d (next_arrival m)"
  shows "\<exists>s' m'. on_completion r0 s = Some s' \<and> mm1_step la mu m m' \<and> models la mu s' m'"
proof -
  let ?q = "block_QUEUE_WaitQueue s"
  have d: "f64_time d" and dr: "draws_ok (draws m)" and na: "next_arrival m \<noteq> NaN"
    using ok sv f64_time_later f64_time_not_nan by (auto simp: mm1_ok_def)
  have c0: "created m \<noteq> 0" and dist: "distinct (orders m)"
    using ok sv by (simp_all add: mm1_ok_def orders_def)
  have inv: "queue_inv ?q" and wl: "map snd (waiting ?q) = waiting_line m"
    using st by (simp_all add: settled_def)
  have ty: "ref_Type r0 = entityType_Order"
    using st sv by (simp add: settled_def pool_holds_def orders_def)
  have ord: "orders m = r0 # waiting_line m" using sv by (simp add: orders_def)
  have hold: "pool_holds (pool_entity_Order s) m"
    using st by (simp add: settled_def pool_holds_def orders_def)
  have after: "\<exists>p'. pool_free () (pool_entity_Order s) (ref_Idx r0) = Some p' \<and> pool_holds p' m'"
    if "orders m' = waiting_line m" "created m' = created m" for m'
    using pool_holds_free [OF hold, of r0 m'] that ord dist by simp
  have delay: "block_DELAY_ServiceDelay s = \<lparr>db_enterN = word_of_nat (departed m) + 1,
      db_exitN = word_of_nat (departed m), db_busy = 1, db_maxBusy = 1\<rparr>"
    using st sv c0 by (simp add: settled_def counts_are_def in_use_def)
  obtain p' where free: "pool_free () (pool_entity_Order s) (ref_Idx r0) = Some p'"
    using after [of "m\<lparr>in_service := None\<rparr>"] by (auto simp: orders_def)
  let ?s1 = "s\<lparr>block_TERMINATE_Sink := (block_TERMINATE_Sink s)\<lparr>tb_enterN := tb_enterN (block_TERMINATE_Sink s) + 1\<rparr>,
    pool_entity_Order := p',
    block_DELAY_ServiceDelay := \<lparr>db_enterN = word_of_nat (departed m) + 1, db_exitN = word_of_nat (departed m) + 1,
      db_busy = 0, db_maxBusy = 1\<rparr>\<rparr>"
  note run = on_completion_eq [OF ty free delay]
  note adv = advance_cases [of ?s1]
  show ?thesis
  proof (cases "waiting_line m")
    case Nil
    let ?m = "m\<lparr>now := d, in_service := None, departed := departed m + 1\<rparr>"
    obtain q where q: "queue_inv q" "queue_counts q = queue_counts ?q" "sq_total q = sq_total ?q" "waiting q = []"
      and advq: "func_queue_try_advance_WaitQueue ?s1 = (False, ?s1\<lparr>block_QUEUE_WaitQueue := q\<rparr>)"
      using adv inv wl Nil by auto
    have pool: "pool_holds p' ?m" using after [of ?m] free Nil by (simp add: orders_def)
    have step: "mm1_step la mu m ?m" using sv first Nil by (rule depart_last)
    have "models la mu (?s1\<lparr>block_QUEUE_WaitQueue := q\<rparr>) ?m"
      using st q pool ev Nil sv c0
      by (simp add: models_def state_simps queue_counts_def add.commute)
    with run step show ?thesis by (auto simp: advq)
  next
    case (Cons r rs)
    let ?m = "m\<lparr>now := d, in_service := Some (draw 0 mu m d, r), waiting_line := rs,
       departed := departed m + 1, draws := drop_draws 1 (draws m)\<rparr>"
    obtain t w where w: "waiting ?q = (t, r) # w" "map snd w = rs" using wl Cons by auto
    obtain q where q: "queue_inv q" "queue_counts q = queue_counts ?q" "sq_total q = sq_total ?q" "waiting q = w"
      and advq: "func_queue_try_advance_WaitQueue ?s1 =
        (True, serve r (?s1\<lparr>block_QUEUE_WaitQueue := q\<lparr>sq_exitN := sq_exitN q + 1\<rparr>\<rparr>))"
      using adv inv w by auto
    have pool: "pool_holds p' ?m" using after [of ?m] free Cons by (simp add: orders_def)
    have step: "mm1_step la mu m ?m" using sv first Cons by (rule depart_next)
    have "events_are {#\<lparr>Time = draw 0 mu m d, Handler = Some (Completion r)\<rparr>, arrival_event m#}
        (eq_push (eventQueue s) \<lparr>Time = draw 0 mu m d, Handler = Some (Completion r)\<rparr>)"
      using na draw_not_nan [OF dr rates(2) d, of 0]
      by (intro events_push [OF ev]) (auto simp: arrival_event_def draw_def)
    then have "events_are (add_mset (arrival_event ?m) (completion_events ?m))
        (eventQueue (serve r (?s1\<lparr>block_QUEUE_WaitQueue := q\<lparr>sq_exitN := sq_exitN q + 1\<rparr>\<rparr>)))"
      using st by (simp add: settled_def state_simps add_mset_commute)
    moreover have "settled la mu (serve r (?s1\<lparr>block_QUEUE_WaitQueue := q\<lparr>sq_exitN := sq_exitN q + 1\<rparr>\<rparr>)) ?m"
      using st q w pool sv c0
      by (simp add: state_simps queue_counts_def add.commute fun_eq_iff)
    ultimately have "models la mu (serve r (?s1\<lparr>block_QUEUE_WaitQueue := q\<lparr>sq_exitN := sq_exitN q + 1\<rparr>\<rparr>)) ?m"
      by (simp add: models_def)
    with run step show ?thesis by (auto simp: advq)
  qed
qed

section \<open>The main loop\<close>

lemma settled_pop: "settled la mu s m \<Longrightarrow> settled la mu (s\<lparr>eventQueue := q, clock := t\<rparr>) (m\<lparr>now := t\<rparr>)"
  by (simp add: settled_def counts_are_def pool_holds_def orders_def in_use_def)

lemma time_not_sentinel: "f64_time t \<Longrightarrow> \<not> f64_eq t (Fin (- 1))"
  by (cases t) auto

lemma model_turn:
  assumes mod: "models la mu s m" and ok: "mm1_ok m" and rates: "0 < la" "0 < mu"
    and room: "created m < 2 ^ 32"
  obtains e q h s' m' where "eq_pop (eventQueue s) = (e, q)" "\<not> f64_eq (Time e) (Fin (- 1))"
    "Handler e = Some h" "run_handler h (s\<lparr>eventQueue := q, clock := Time e\<rparr>) = Some s'"
    "mm1_step la mu m m'" "models la mu s' m'"
proof -
  have ev: "mset (eventQueue s) = add_mset (arrival_event m) (completion_events m)"
    and heap: "is_heap (eventQueue s)" and st: "settled la mu s m"
    using mod by (simp_all add: models_def events_are_def)
  obtain e q where pop: "eq_pop (eventQueue s) = (e, q)" by force
  have ne: "eventQueue s \<noteq> []" using ev by auto
  have na: "f64_time (next_arrival m)" using ok f64_time_later by (auto simp: mm1_ok_def)
  have times: "f64_time (Time x)" if "x \<in># completion_events m" for x
    using that ok f64_time_later by (fastforce simp: mm1_ok_def completion_events_def split: option.splits)
  have tm: "timely (eventQueue s)"
    using ev na times f64_time_not_nan unfolding timely_def set_mset_mset [symmetric] ev
    by (auto simp: arrival_event_def)
  have rest: "add_mset e (mset q) = add_mset (arrival_event m) (completion_events m)"
    using mset_eq_pop [OF ne pop] ev by metis
  have least: "f64_ge (Time x) (Time e)" if "x \<in># add_mset (arrival_event m) (completion_events m)" for x
    using eq_pop_least [OF tm heap ne pop, of x] that ev by (metis set_mset_mset)
  have hq: "is_heap q" using eq_pop_heap [OF tm heap ne pop] by simp
  have et: "f64_time (Time e)"
    using rest na times by (metis arrival_event_def event.select_convs(1) insert_iff set_mset_add_mset_insert union_single_eq_member)
  show ?thesis
  proof (cases "e = arrival_event m")
    case True
    then have "events_are (completion_events m) q" using rest hq by (simp add: events_are_def)
    moreover have "f64_le (next_arrival m) d" if "in_service m = Some (d, r)" for d r
      using least [of "\<lparr>Time = d, Handler = Some (Completion r)\<rparr>"] that True
      by (simp add: f64_le_def arrival_event_def completion_events_def)
    ultimately show ?thesis
      using arrival_turn [OF _ _ ok rates room, of "s\<lparr>eventQueue := q, clock := Time e\<rparr>"]
        settled_pop [OF st, where q = q and t = "next_arrival m"] pop et True
      by (fastforce simp: arrival_event_def run_handler_def dest: time_not_sentinel intro: that)
  next
    case False
    then obtain d r where sv: "in_service m = Some (d, r)" and e: "e = \<lparr>Time = d, Handler = Some (Completion r)\<rparr>"
      and q: "mset q = {#arrival_event m#}"
      using rest by (auto simp: completion_events_def add_eq_conv_ex split: option.splits)
    then have "events_are {#arrival_event m#} q" using hq by (simp add: events_are_def)
    moreover have "f64_le d (next_arrival m)"
      using least [of "arrival_event m"] e by (simp add: f64_le_def arrival_event_def)
    ultimately show ?thesis
      using completion_turn [OF sv _ _ ok rates, of "s\<lparr>eventQueue := q, clock := Time e\<rparr>"]
        settled_pop [OF st, where q = q and t = d] pop et e
      by (fastforce simp: run_handler_def dest: time_not_sentinel intro: that)
  qed
qed

text \<open>A state of the process after some turns: it goes on, hangs in a report, or was stopped.\<close>

definition represents :: "rat \<Rightarrow> rat \<Rightarrow> outcome \<Rightarrow> mm1 \<Rightarrow> proto \<Rightarrow> mm1_system \<Rightarrow> bool" where
  "represents la mu out s p m \<longleftrightarrow>
     (out = Running \<or> out = Hangs) \<and> models la mu s m \<or>
     out = Ended \<and> (\<exists>s1 rule. models la mu s1 m \<and> stopRule p = Some rule \<and> rule s1 \<and>
       s = s1\<lparr>stop := True, reasonStop := ''stop_rule''\<rparr>)"

lemma sendStat_rule [simp]: "stopRule (sendStat s p) = stopRule p"
  by (simp add: sendStat_def sendLine_def split: option.splits)

lemma metric_step_rule: "maybeSendMetricStep s p = Some p1 \<Longrightarrow> stopRule p1 = stopRule p"
  by (auto simp: maybeSendMetricStep_def Let_def split: if_splits)

lemma loop_turn_represents:
  assumes mod: "models la mu s m" and ok: "mm1_ok m" and rates: "0 < la" "0 < mu"
    and room: "created m < 2 ^ 32" and turn: "loop_turn (s, p) = (out, s', p')"
  shows "\<exists>m'. mm1_step la mu m m' \<and> represents la mu out s' p' m' \<and> stopRule p' = stopRule p"
proof -
  have stop: "\<not> stop s" using mod by (simp add: models_def settled_def)
  from model_turn [OF mod ok rates room] obtain e q h s1 m' where
    pop: "eq_pop (eventQueue s) = (e, q)" "\<not> f64_eq (Time e) (Fin (- 1))" "Handler e = Some h"
    "run_handler h (s\<lparr>eventQueue := q, clock := Time e\<rparr>) = Some s1"
    and step: "mm1_step la mu m m'" and mod': "models la mu s1 m'" by blast
  have "\<not> stop s1" using mod' by (simp add: models_def settled_def)
  with turn pop stop mod' metric_step_rule [of s1 p] have
    "represents la mu out s' p' m' \<and> stopRule p' = stopRule p"
    by (auto simp: loop_turn_def Let_def represents_def split: option.splits if_splits)
  with step show ?thesis by blast
qed

lemma loop_turns_represents:
  "models la mu s m \<Longrightarrow> mm1_ok m \<Longrightarrow> 0 < la \<Longrightarrow> 0 < mu \<Longrightarrow> created m + n \<le> 2 ^ 32 \<Longrightarrow>
   loop_turns n (s, p) = (out, s', p') \<Longrightarrow>
   \<exists>k m'. k \<le> n \<and> (out = Running \<longrightarrow> k = n) \<and> (mm1_step la mu ^^ k) m m' \<and>
     represents la mu out s' p' m' \<and> stopRule p' = stopRule p"
proof (induction n arbitrary: s m p)
  case 0
  then have "represents la mu out s' p' m" "stopRule p' = stopRule p" by (auto simp: represents_def)
  then show ?case by (intro exI [of _ 0] exI [of _ m]) simp
next
  case (Suc n)
  obtain out1 s1 p1 where turn: "loop_turn (s, p) = (out1, s1, p1)" by (cases "loop_turn (s, p)") auto
  have "created m < 2 ^ 32" using Suc.prems(5) by simp
  from loop_turn_represents [OF Suc.prems(1,2,3,4) this turn] obtain m1 where
    step: "mm1_step la mu m m1" and rep: "represents la mu out1 s1 p1 m1" and rule: "stopRule p1 = stopRule p"
    by blast
  show ?case
  proof (cases "out1 = Running")
    case True
    have ok1: "mm1_ok m1" using mm1_step_ok [OF Suc.prems(2,3,4) step] by simp
    have mod1: "models la mu s1 m1" using rep True by (simp add: represents_def)
    have "created m1 + n \<le> 2 ^ 32" using mm1_step_created [OF step] Suc.prems(5) by simp
    moreover have "loop_turns n (s1, p1) = (out, s', p')" using Suc.prems(6) turn True by simp
    ultimately obtain k m' where "k \<le> n" "out = Running \<longrightarrow> k = n" "(mm1_step la mu ^^ k) m1 m'"
      "represents la mu out s' p' m'" "stopRule p' = stopRule p1"
      using Suc.IH [OF mod1 ok1 Suc.prems(3,4), of p1] by blast
    moreover have "(mm1_step la mu ^^ Suc k) m m'"
      using step calculation(3) by (rule relpowp_Suc_I2)
    ultimately show ?thesis using rule by (intro exI [of _ "Suc k"] exI [of _ m']) (simp del: relpowp.simps)
  next
    case False
    then have "out1 = out \<and> s1 = s' \<and> p1 = p'"
      using Suc.prems(6) turn by (cases out1) simp_all
    with False step rep rule show ?thesis
      by (intro exI [of _ 1] exI [of _ m1]) auto
  qed
qed

lemma start_models:
  assumes "var_arrivalRate s = Fin la" "var_serviceRate s = Fin mu" "0 < la" "draws_ok g"
  shows "models la mu (startCreateBlocks (initModel g s)) (mm1_initial la g)"
proof -
  have "f64_time (f64_add (Fin 0) (f64_div (g 0) (Fin la)))"
    using assms by (intro f64_time_add f64_div_time) (simp_all add: draws_ok_def)
  then have "f64_add (Fin 0) (f64_div (g 0) (Fin la)) \<noteq> NaN" by (rule f64_time_not_nan)
  with events_push [of "{#}" "new_event_queue 1000"] have
    "events_are {#\<lparr>Time = f64_add (Fin 0) (f64_div (g 0) (Fin la)), Handler = Some Arrival\<rparr>#}
      (eq_push (new_event_queue 1000) \<lparr>Time = f64_add (Fin 0) (f64_div (g 0) (Fin la)), Handler = Some Arrival\<rparr>)"
    by (auto simp: events_are_def new_event_queue_def is_heap_def)
  with assms pool_new_ok [of 10] queue_inv_empty show ?thesis
    by (simp add: models_def state_simps startCreateBlocks_def initModel_def mm1_initial_def
        pool_holds_def new_pool_def queue_counts_def fun_eq_iff) (simp add: empty_queue_def)
qed

text \<open>
  C3. The generated M/M/1 simulator implements the M/M/1 system. With positive rates, as many
  turns of its main loop as there are 32-bit entity numbers never panic: after them the clock, the
  queue, the server, the scheduled events, the entity pool and the counters represent a state
  that the M/M/1 system reaches by the same steps, in the same \<open>float64\<close> arithmetic; and the
  loop ends only because the stop rule of the experiment held.
\<close>

theorem mm1_simulator_correct:
  assumes "var_arrivalRate s0 = Fin la" "0 < la" "var_serviceRate s0 = Fin mu" "0 < mu" "draws_ok g"
    and "n \<le> 2 ^ 32"
    and "loop_turns n (startCreateBlocks (initModel g s0), p) = (out, s, p')"
  shows "\<exists>k m. k \<le> n \<and> (out = Running \<longrightarrow> k = n) \<and>
    (mm1_step la mu ^^ k) (mm1_initial la g) m \<and> represents la mu out s p' m"
proof -
  have "created (mm1_initial la g) + n \<le> 2 ^ 32" using assms(6) by (simp add: mm1_initial_def)
  from loop_turns_represents [OF start_models [OF assms(1,3,2,5)] mm1_initial_ok [OF assms(5,2)]
      assms(2,4) this assms(7)]
  show ?thesis by blast
qed

definition settings :: "rat \<Rightarrow> rat \<Rightarrow> mm1" where
  "settings la mu = globals\<lparr>var_arrivalRate := Fin la, var_serviceRate := Fin mu\<rparr>"

theorem mm1_simulator_correct_witness:
  "\<exists>k m out s p'. loop_turns 1000 (startCreateBlocks (initModel (\<lambda>n. Fin 1) (settings 1 2)), proto_globals) = (out, s, p') \<and>
     k \<le> 1000 \<and> (mm1_step 1 2 ^^ k) (mm1_initial 1 (\<lambda>n. Fin 1)) m \<and> represents 1 2 out s p' m"
proof -
  obtain out s p' where run:
    "loop_turns 1000 (startCreateBlocks (initModel (\<lambda>n. Fin 1) (settings 1 2)), proto_globals) = (out, s, p')"
    by (cases "loop_turns 1000 (startCreateBlocks (initModel (\<lambda>n. Fin 1) (settings 1 2)), proto_globals)") auto
  have "var_arrivalRate (settings 1 2) = Fin 1" "var_serviceRate (settings 1 2) = Fin 2" "draws_ok (\<lambda>n. Fin 1)"
    by (simp_all add: settings_def draws_ok_def)
  from mm1_simulator_correct [OF this(1) _ this(2) _ this(3) _ run] run show ?thesis by auto
qed

section \<open>What the metrics say\<close>

lemma models_time:
  "models la mu s m \<Longrightarrow> unat (sq_len (block_QUEUE_WaitQueue s)) = length (waiting_line m)"
  unfolding models_def settled_def queue_inv_def by (metis length_map)

lemma unat_small_u64: "n \<le> 2 ^ 32 \<Longrightarrow> unat (word_of_nat n :: u64) = n"
  by (rule unat_length_u64) simp

lemma created_steps: "(mm1_step la mu ^^ k) m m' \<Longrightarrow> created m' \<le> created m + k"
  by (induction k arbitrary: m') (auto dest!: mm1_step_created, fastforce dest!: mm1_step_created)

lemma orders_card:
  "settled la mu s m \<Longrightarrow> distinct (orders m) \<Longrightarrow> card (pool_live (pool_entity_Order s)) = length (orders m)"
proof -
  assume st: "settled la mu s m" and d: "distinct (orders m)"
  have "inj_on ref_Idx (set (orders m))"
    using st by (auto simp: settled_def pool_holds_def inj_on_def)
  with st d show ?thesis by (simp add: settled_def pool_holds_def card_image distinct_card)
qed

text \<open>
  The metrics of the M/M/1 simulator balance after every turn of its loop, also the last
  one: no order is dropped, every created order is waiting, in service or gone, the server takes
  one order at a time and is never free while an order waits, and the live entities of the pool
  are exactly the orders in the system.
\<close>

theorem mm1_metrics_balance:
  assumes "var_arrivalRate s0 = Fin la" "0 < la" "var_serviceRate s0 = Fin mu" "0 < mu" "draws_ok g"
    and "n \<le> 2 ^ 32"
    and "loop_turns n (startCreateBlocks (initModel g s0), p) = (out, s, p')"
  shows "let src = block_CREATE_Source s; q = block_QUEUE_WaitQueue s; d = block_DELAY_ServiceDelay s in
    out \<noteq> Crashed \<and> cb_dropN src = 0 \<and> cb_exitN src = cb_createdN src \<and> sq_enterN q = cb_createdN src \<and>
    unat (cb_createdN src) = unat (tb_enterN (block_TERMINATE_Sink s)) + unat (db_busy d) + unat (sq_len q) \<and>
    db_exitN d = tb_enterN (block_TERMINATE_Sink s) \<and> db_enterN d = sq_exitN q \<and>
    db_busy d \<le> 1 \<and> (0 < sq_len q \<longrightarrow> db_busy d = 1) \<and>
    card (pool_live (pool_entity_Order s)) = unat (db_busy d) + unat (sq_len q)"
proof -
  have room: "created (mm1_initial la g) + n \<le> 2 ^ 32" using assms(6) by (simp add: mm1_initial_def)
  note init = mm1_initial_ok [OF assms(5,2)]
  from loop_turns_represents [OF start_models [OF assms(1,3,2,5)] init assms(2,4) room assms(7)]
  obtain k m where k: "k \<le> n" "(mm1_step la mu ^^ k) (mm1_initial la g) m" and rep: "represents la mu out s p' m"
    by blast
  have ok: "mm1_ok m" using mm1_steps_ok [OF k(2) init assms(2,4)] .
  have c: "created m \<le> 2 ^ 32" using created_steps [OF k(2)] k(1) assms(6) by (simp add: mm1_initial_def)
  obtain s1 where mod: "models la mu s1 m" and s: "s = s1 \<or> s = s1\<lparr>stop := True, reasonStop := ''stop_rule''\<rparr>"
    and out: "out \<noteq> Crashed"
    using rep by (auto simp: represents_def)
  have cnt: "created m = departed m + in_use m + length (waiting_line m)" "in_use m \<le> 1"
      "in_use m = 0 \<Longrightarrow> waiting_line m = []" "length (orders m) = in_use m + length (waiting_line m)"
    using ok by (auto simp: mm1_ok_def orders_def in_use_def split: option.splits)
  have dep: "departed m \<le> 2 ^ 32" using c cnt(1) by linarith
  have st: "settled la mu s1 m" and len: "unat (sq_len (block_QUEUE_WaitQueue s1)) = length (waiting_line m)"
    using mod models_time [OF mod] by (simp_all add: models_def)
  have card: "card (pool_live (pool_entity_Order s1)) = in_use m + length (waiting_line m)"
    using orders_card [OF st] ok cnt(4) by (simp add: mm1_ok_def)
  have busy: "unat (word_of_nat (in_use m) :: u64) = in_use m" using cnt(2) by (intro unat_small_u64) simp
  then have "(word_of_nat (in_use m) :: u64) \<le> 1" using cnt(2) by (simp add: word_le_nat_alt)
  moreover have "0 < sq_len (block_QUEUE_WaitQueue s1) \<longrightarrow> (word_of_nat (in_use m) :: u64) = 1"
    using len cnt(2,3) by (cases "in_use m = 0") (auto simp: word_less_nat_alt le_Suc_eq)
  ultimately show ?thesis
    using s out st card len cnt(1) busy unat_small_u64 [OF c] unat_small_u64 [OF dep]
    by (auto simp: settled_def counts_are_def queue_counts_def Let_def)
qed

theorem mm1_metrics_balance_witness:
  "\<exists>out s p'. loop_turns 7 (startCreateBlocks (initModel (\<lambda>n. Fin 1) (settings 1 2)), proto_globals) = (out, s, p') \<and>
     out \<noteq> Crashed \<and> (0 < sq_len (block_QUEUE_WaitQueue s) \<longrightarrow> db_busy (block_DELAY_ServiceDelay s) = 1)"
proof -
  obtain out s p' where run:
    "loop_turns 7 (startCreateBlocks (initModel (\<lambda>n. Fin 1) (settings 1 2)), proto_globals) = (out, s, p')"
    by (cases "loop_turns 7 (startCreateBlocks (initModel (\<lambda>n. Fin 1) (settings 1 2)), proto_globals)") auto
  have "var_arrivalRate (settings 1 2) = Fin 1" "var_serviceRate (settings 1 2) = Fin 2" "draws_ok (\<lambda>n. Fin 1)"
    by (simp_all add: settings_def draws_ok_def)
  from mm1_metrics_balance [OF this(1) _ this(2) _ this(3) _ run] run show ?thesis by (auto simp: Let_def)
qed

end
