(* ===== verification/Sim_Texts.thy ===== *)
theory Sim_Texts
  imports Dispatcher_Protocol Sim_Protocol
begin

text \<open>
  What simulators print and dispatchers read: a printed number or word has no spaces and no
  separators, and neither has an identifier of the model language.
\<close>

section \<open>Printed numbers\<close>

definition number_char :: "char \<Rightarrow> bool" where
  "number_char c \<longleftrightarrow> is_digit c \<or> c \<in> set ''.-+INanf''"

lemma inert_alt: "inert c \<longleftrightarrow> c \<notin> set (concat space_encodings)"
  by (auto simp: inert_def)

lemma inert_digit: "is_digit c \<Longrightarrow> inert c \<and> c \<noteq> CHR '';''"
proof -
  assume d: "is_digit c"
  have "\<forall>x \<in> set (CHR '';'' # concat space_encodings). \<not> is_digit x" by code_simp
  with d show ?thesis by (auto simp: inert_alt simp del: set_concat)
qed

lemma number_char_inert: "number_char c \<Longrightarrow> inert c \<and> c \<noteq> CHR '';''"
proof -
  have "\<forall>x \<in> set ''.-+INanf''. x \<notin> set (concat space_encodings) \<and> x \<noteq> CHR '';''" by code_simp
  then show "number_char c \<Longrightarrow> inert c \<and> c \<noteq> CHR '';''"
    using inert_digit by (auto simp: number_char_def inert_alt simp del: set_concat)
qed

lemma inert_tidy: "\<forall>c \<in> set s. inert c \<Longrightarrow> tidy s"
proof (induction s)
  case Nil
  then show ?case by (simp add: tidy_def)
next
  case (Cons c s)
  then show ?case using tidy_inert [of c "[]" s] by (simp add: tidy_def)
qed

definition number_text :: "string \<Rightarrow> bool" where
  "number_text s \<longleftrightarrow> (\<forall>c \<in> set s. number_char c)"

lemma number_text_tidy: "number_text s \<Longrightarrow> tidy s \<and> CHR '';'' \<notin> set s"
  using number_char_inert by (auto simp: number_text_def intro!: inert_tidy)

lemma number_text_append [simp]: "number_text (s @ t) \<longleftrightarrow> number_text s \<and> number_text t"
  by (auto simp: number_text_def)

lemma digit_number: "0 \<le> k \<Longrightarrow> k \<le> 9 \<Longrightarrow> number_char (char_of (48 + k :: int))"
proof -
  have "\<forall>i \<in> set [0..9]. number_char (char_of (48 + i :: int))" by code_simp
  then show "0 \<le> k \<Longrightarrow> k \<le> 9 \<Longrightarrow> number_char (char_of (48 + k :: int))" by simp
qed

lemma decimal_z_number: "0 \<le> n \<Longrightarrow> number_text (decimal_z n)"
proof (induction n rule: decimal_z.induct)
  case (1 n)
  show ?case
  proof (cases "n < 10")
    case True
    with 1(2) digit_number [of n] show ?thesis
      by (subst decimal_z.simps) (simp add: number_text_def)
  next
    case False
    with 1 digit_number [of "n mod 10"] show ?thesis
      by (subst decimal_z.simps) (simp add: number_text_def)
  qed
qed

lemma zero_number: "number_char (CHR ''0'')" "number_char (CHR ''.'')" "number_char (CHR ''-'')"
  by code_simp+

lemma number_text_sub: "number_text s \<Longrightarrow> set t \<subseteq> set s \<Longrightarrow> number_text t"
  by (auto simp: number_text_def)

lemma number_text_zeros: "number_text (replicate n (CHR ''0''))" "number_text ''.''"
  using zero_number by (simp_all add: number_text_def)

lemma set_drop_trailing: "set (rev (dropWhile f (rev (drop n s)))) \<subseteq> set s"
  using set_drop_subset [of n s] set_dropWhileD [of _ f "rev (drop n s)"] by auto

lemma print_digits_number: "0 \<le> m \<Longrightarrow> number_text (print_digits m k)"
proof -
  assume "0 \<le> m"
  then have d: "number_text (decimal_z m)" by (rule decimal_z_number)
  define padded where "padded = replicate (Suc (nat (- k)) - length (decimal_z m)) (CHR ''0'') @ decimal_z m"
  have p: "number_text padded" using d number_text_zeros(1) unfolding padded_def number_text_append by blast
  have whole: "number_text (take (length padded - nat (- k)) padded)"
    using set_take_subset by (rule number_text_sub [OF p])
  have frac: "number_text (rev (dropWhile (\<lambda>c. c = CHR ''0'') (rev (drop (length padded - nat (- k)) padded))))"
    using set_drop_trailing by (rule number_text_sub [OF p])
  show ?thesis
  proof (cases "0 \<le> k")
    case True
    with d number_text_zeros(1) show ?thesis by (simp add: print_digits_def)
  next
    case False
    then show ?thesis
      using whole frac zero_number(2) number_text_append [of "''.''"]
      unfolding print_digits_def Let_def padded_def [symmetric] by (simp add: number_text_def ball_Un)
  qed
qed

lemma ten_powi_pos: "0 < (10 :: rat) powi k"
  by (simp add: zero_less_power_int)

lemma round_even_nonneg: "0 \<le> x \<Longrightarrow> 0 \<le> round_even x"
  using round_even_mono [of 0 x] round_even_of_int [of 0] by simp

lemma digits_for_nonneg: "0 < r \<Longrightarrow> digits_for r n = Some (m, k) \<Longrightarrow> 0 \<le> m"
  using ten_powi_pos [of "dec_exp r - int n + 1"]
  by (auto simp: digits_for_def Let_def round_even_nonneg split: if_splits)

lemma shortest_nonneg: "0 < r \<Longrightarrow> shortest_from r n f = (m, k) \<Longrightarrow> 0 \<le> m"
proof (induction r n f rule: shortest_from.induct)
  case (1 r n)
  then show ?case using ten_powi_pos [of "dec_exp r - int n + 1"] by (auto intro!: round_even_nonneg)
next
  case (2 r n f)
  then show ?case by (auto split: option.splits dest: digits_for_nonneg)
qed

lemma format_mag_number: "0 < r \<Longrightarrow> number_text (format_mag r)"
  using shortest_nonneg [of r 1 16] print_digits_number
  by (auto simp: format_mag_def split: prod.splits)

lemma FormatFloat_number: "number_text (FormatFloat x)"
proof (cases x)
  case (Fin r)
  have "number_text ''0''" by code_simp
  with Fin format_mag_number [of r] format_mag_number [of "- r"] zero_number(3) show ?thesis
    by (auto simp: FormatFloat_def number_text_def)
qed (simp_all add: FormatFloat_def number_text_def number_char_def)

lemma FormatUint_number: "number_text (FormatUint w)"
  by (simp add: FormatUint_def decimal_z_number)

lemma good_name: "\<forall>c \<in> set s. inert c \<and> c \<noteq> CHR ''='' \<and> c \<noteq> CHR '';'' \<Longrightarrow> s \<noteq> [] \<Longrightarrow> number_text v \<Longrightarrow>
   good_metric (s, v)"
  using inert_tidy [of s] number_text_tidy [of v] by (auto simp: good_metric_def)

end
