(* ===== verification/Sim_Experiment.thy ===== *)
theory Sim_Experiment
  imports Model_Process Sim_Mm1_Correct Sim_Texts
begin

text \<open>
  A dispatcher that runs the generated M/M/1 simulator: the lines the simulator prints are the
  lines the dispatcher reads. Nothing is assumed of either side but the code.
\<close>

section \<open>Metrics\<close>

definition metric_names :: "string list" where
  "metric_names =
     [''Simulation.clock'', ''arrivalRate'', ''serviceRate'', ''Source.createdN'', ''Source.exitN'',
      ''Source.dropN'', ''WaitQueue.enterN'', ''WaitQueue.exitN'', ''WaitQueue.dropN'', ''WaitQueue.timeoutN'',
      ''WaitQueue.len'', ''WaitQueue.maxLen'', ''ServiceDelay.enterN'', ''ServiceDelay.exitN'',
      ''ServiceDelay.busy'', ''ServiceDelay.maxBusy'', ''Sink.enterN'']"

lemma metric_names_good:
  "n \<in> set metric_names \<Longrightarrow> n \<noteq> [] \<and> (\<forall>c \<in> set n. inert c \<and> c \<noteq> CHR ''='' \<and> c \<noteq> CHR '';'')"
proof -
  have "\<forall>n \<in> set metric_names. n \<noteq> [] \<and>
      (\<forall>c \<in> set n. c \<notin> set (concat space_encodings) \<and> c \<noteq> CHR ''='' \<and> c \<noteq> CHR '';'')"
    by code_simp
  then show "n \<in> set metric_names \<Longrightarrow> n \<noteq> [] \<and> (\<forall>c \<in> set n. inert c \<and> c \<noteq> CHR ''='' \<and> c \<noteq> CHR '';'')"
    by (simp only: inert_alt) blast
qed

lemma ifSomeE:
  "(if b then Some x else y) = Some z \<Longrightarrow> (b \<Longrightarrow> z = x \<Longrightarrow> R) \<Longrightarrow> (\<not> b \<Longrightarrow> y = Some z \<Longrightarrow> R) \<Longrightarrow> R"
  by (auto split: if_splits)

lemma resolveMetric_sound:
  assumes "resolveMetric name = Some mf"
  shows "mf_name mf = name \<and> name \<in> set metric_names \<and> number_text (mf_value mf s)"
  using assms FormatFloat_number FormatUint_number unfolding resolveMetric_def
  by (elim ifSomeE) (simp_all add: metric_names_def)

definition metrics_ok :: "proto \<Rightarrow> bool" where
  "metrics_ok p \<longleftrightarrow> (\<forall>mf \<in> set (metrics p). resolveMetric (mf_name mf) = Some mf)"

definition metric_values :: "metricFunc list \<Rightarrow> mm1 \<Rightarrow> (string \<times> string) list" where
  "metric_values ms s = map (\<lambda>mf. (mf_name mf, mf_value mf s)) ms"

definition stat_text :: "metricFunc list \<Rightarrow> mm1 \<Rightarrow> string" where
  "stat_text ms s = ''STAT '' @ join_with '';'' (map metric_text (metric_values ms s))"

lemma metric_values_good: "metrics_ok p \<Longrightarrow> \<forall>q \<in> set (metric_values (metrics p) s). good_metric q"
proof -
  assume ok: "metrics_ok p"
  have "good_metric (mf_name mf, mf_value mf s)" if mf: "mf \<in> set (metrics p)" for mf
  proof -
    have "resolveMetric (mf_name mf) = Some mf" using ok mf by (simp add: metrics_ok_def)
    from resolveMetric_sound [OF this, of s] metric_names_good show ?thesis
      by (intro good_name) auto
  qed
  then show ?thesis by (auto simp: metric_values_def)
qed

lemma stat_text_parses:
  "metrics_ok p \<Longrightarrow> parseStatLine (stat_text (metrics p) s) = Inr (map_of (rev (metric_values (metrics p) s)))"
  unfolding stat_text_def by (rule parse_stat_line [OF metric_values_good])

text \<open>A name that was asked for has the value it resolves to.\<close>

lemma map_of_values:
  "metrics_ok p \<Longrightarrow> map_of (rev (metric_values (metrics p) s)) =
     (\<lambda>name. if name \<in> mf_name ` set (metrics p) then map_option (\<lambda>mf. mf_value mf s) (resolveMetric name) else None)"
proof
  fix name
  assume ok: "metrics_ok p"
  let ?ps = "rev (metric_values (metrics p) s)"
  show "map_of ?ps name =
     (if name \<in> mf_name ` set (metrics p) then map_option (\<lambda>mf. mf_value mf s) (resolveMetric name) else None)"
  proof (cases "map_of ?ps name")
    case None
    then have "name \<notin> fst ` set ?ps" by (simp only: map_of_eq_None_iff) simp
    then have "name \<notin> mf_name ` set (metrics p)" by (auto simp: metric_values_def image_iff)
    with None show ?thesis by simp
  next
    case (Some v)
    then have "(name, v) \<in> set ?ps" by (rule map_of_SomeD)
    then obtain mf where "mf \<in> set (metrics p)" "name = mf_name mf" "v = mf_value mf s"
      by (auto simp: metric_values_def)
    with ok Some show ?thesis by (auto simp: metrics_ok_def)
  qed
qed

lemma sendLine_keeps [simp]:
  "metrics (sendLine l p) = metrics p" "metrics (sendErr c e p) = metrics p"
  "metrics (sendStat s p) = metrics p"
  by (simp_all add: sendLine_def sendErr_def sendStat_def split: option.splits)

lemma resolve_metrics_ok:
  "resolve_metrics parts = Inr ms \<Longrightarrow> mf \<in> set ms \<Longrightarrow> resolveMetric (mf_name mf) = Some mf"
proof (induction parts arbitrary: ms)
  case (Cons part parts)
  show ?case
  proof (cases "trim_space part = []")
    case True
    with Cons show ?thesis by simp
  next
    case False
    with Cons.prems(1) obtain m rest where m: "resolveMetric (trim_space part) = Some m"
      "resolve_metrics parts = Inr rest" "ms = m # rest"
      by (cases "resolveMetric (trim_space part)"; cases "resolve_metrics parts") (auto simp: Let_def)
    have "mf_name m = trim_space part" using resolveMetric_sound [OF m(1)] by simp
    with m Cons show ?thesis by auto
  qed
qed simp

lemma handleCommand_metrics:
  "metrics_ok p \<Longrightarrow> handleCommand line s p = (b, s', p') \<Longrightarrow> metrics_ok p'"
  using resolve_metrics_ok
  by (auto simp: handleCommand_def metric_command_def metric_step_command_def set_command_def setVar_def
      configureStopRule_def metrics_ok_def Let_def split: if_splits option.splits sum.splits)

lemma read_commands_metrics:
  "metrics_ok p \<Longrightarrow> read_commands input err s p = (b, s', p') \<Longrightarrow> metrics_ok p'"
proof (induction input err s p rule: read_commands.induct)
  case (1 err s p)
  then show ?case by (auto simp: metrics_ok_def split: option.splits)
next
  case (2 l ls err s p)
  then show ?case
    by (auto simp: Let_def split: if_splits prod.splits bool.splits dest: handleCommand_metrics)
qed

lemma configured_metrics:
  "configureExperiment input err s proto_globals = (b, s', p') \<Longrightarrow> metrics_ok p'"
  unfolding configureExperiment_def
  by (erule read_commands_metrics [rotated]) (simp add: metrics_ok_def proto_globals_def)

section \<open>What the simulator prints\<close>

definition stat_lines :: "metricFunc list \<Rightarrow> string list \<Rightarrow> bool" where
  "stat_lines ms ls \<longleftrightarrow> (\<forall>l \<in> set ls. ms \<noteq> [] \<and> (\<exists>s. l = stat_text ms s))"

definition prints :: "proto \<Rightarrow> proto \<Rightarrow> bool" where
  "prints p p' \<longleftrightarrow> metrics p' = metrics p \<and>
     (\<forall>out. protoOut p = Some out \<longrightarrow> (\<exists>ls. protoOut p' = Some (out @ ls) \<and> stat_lines (metrics p) ls))"

lemma prints_refl: "prints p p"
  by (simp add: prints_def stat_lines_def)

lemma prints_trans: "prints p q \<Longrightarrow> prints q r \<Longrightarrow> prints p r"
  by (fastforce simp: prints_def stat_lines_def)

lemma sendStat_text: "sendStat s p = (if metrics p = [] then p else sendLine (stat_text (metrics p) s) p)"
  by (simp add: sendStat_def stat_text_def metric_values_def metric_text_def comp_def)

lemma sendStat_prints: "prints p (sendStat s p)"
  by (auto simp: sendStat_text prints_def stat_lines_def sendLine_def split: option.split)

lemma metric_step_prints: "maybeSendMetricStep s p = Some p' \<Longrightarrow> prints p p'"
  using sendStat_prints [of p s]
  by (auto simp: maybeSendMetricStep_def Let_def prints_refl split: if_splits) (simp add: prints_def)

lemma loop_turn_prints: "loop_turn (s, p) = (out, s', p') \<Longrightarrow> prints p p'"
  using metric_step_prints
  by (auto simp: loop_turn_def Let_def prints_refl split: if_splits option.splits prod.splits)

lemma loop_turns_prints: "loop_turns n (s, p) = (out, s', p') \<Longrightarrow> prints p p'"
proof (induction n arbitrary: s p)
  case 0
  then show ?case by (simp add: prints_refl)
next
  case (Suc n)
  obtain o1 s1 p1 where t: "loop_turn (s, p) = (o1, s1, p1)" by (cases "loop_turn (s, p)") auto
  from Suc.prems t have "o1 = Running \<and> loop_turns n (s1, p1) = (out, s', p') \<or> p1 = p'"
    by (cases o1) auto
  with Suc.IH [of s1 p1] loop_turn_prints [OF t] show ?case by (blast intro: prints_trans)
qed

lemma run_Ended:
  assumes "run n (s0, p0) = (Ended, s, p)" and "protoOut p0 = Some out"
  obtains s1 p1 ls where "loop_turns n (s0, p0) = (Ended, s1, p1)" "s = fst (finish_run (s1, p1))"
    "protoOut p = Some (out @ ls @ (if metrics p0 = [] then [] else [stat_text (metrics p0) s]) @ [''END '' @ reasonStop s])"
    "stat_lines (metrics p0) ls"
proof -
  obtain o1 s1 p1 where t: "loop_turns n (s0, p0) = (o1, s1, p1)" by (cases "loop_turns n (s0, p0)") auto
  with assms(1) have o: "o1 = Ended" and fin: "finish_run (s1, p1) = (s, p)"
    by (cases o1; simp add: run_def)+
  obtain ls where ls: "protoOut p1 = Some (out @ ls)" "stat_lines (metrics p0) ls" "metrics p1 = metrics p0"
    using loop_turns_prints [OF t] assms(2) by (auto simp: prints_def)
  have "protoOut p = Some (out @ ls @ (if metrics p0 = [] then [] else [stat_text (metrics p0) s]) @ [''END '' @ reasonStop s])"
    using fin ls by (auto simp: finish_run_def Let_def sendStat_text sendLine_def)
  with t o fin ls show ?thesis by (intro that [of s1 p1 ls]) simp_all
qed

section \<open>What the dispatcher reads\<close>

lemma blank_then_solid:
  assumes "space_at_rev v = 0" "v \<noteq> []"
  shows "space_at_rev (v @ CHR 0x20 # s) = 0"
  unfolding space_at_rev_0
proof (intro ballI notI)
  fix e assume e: "e \<in> set space_encodings" "is_prefix (rev e) (v @ CHR 0x20 # s)"
  from encodings_cases [OF e(1)] have "is_prefix (rev e) v"
  proof
    assume "e = [CHR 0x20]"
    with e(2) assms(2) show ?thesis by (cases v) auto
  qed (use is_prefix_before [OF e(2)] in auto)
  with assms(1) e(1) show False by (simp add: space_at_rev_0)
qed

lemma tidy_words: "tidy a \<Longrightarrow> a \<noteq> [] \<Longrightarrow> tidy b \<Longrightarrow> b \<noteq> [] \<Longrightarrow> tidy (a @ CHR 0x20 # b)"
  using solid_then_blank [of a b] blank_then_solid [of "rev b" "rev a"] by (simp add: tidy_def)

lemma stat_text_line:
  assumes "metrics_ok p" "metrics p \<noteq> []"
  shows "trim_space (stat_text (metrics p) s) = stat_text (metrics p) s"
proof -
  let ?raw = "join_with '';'' (map metric_text (metric_values (metrics p) s))"
  have "tidy ?raw"
    using metric_values_good [OF assms(1), of s] metric_text_tidy by (intro join_tidy) auto
  moreover have "?raw \<noteq> []"
    using assms(2) by (cases "metrics p" rule: remdups_adj.cases) (auto simp: metric_values_def metric_text_def)
  moreover have "tidy ''STAT''" by code_simp
  ultimately have "tidy (''STAT'' @ CHR 0x20 # ?raw)" by (intro tidy_words) simp_all
  then show ?thesis by (intro trim_tidy) (simp add: stat_text_def)
qed

lemma stat_lines_ok:
  assumes "metrics_ok p" "stat_lines (metrics p) ls" "mc_Trace cfg \<noteq> None \<Longrightarrow> \<forall>i. me_RowErr env i = None"
  shows "stats_ok env cfg k ls"
  unfolding stats_ok_def
proof (intro allI impI conjI)
  fix i assume i: "i < length ls"
  then obtain s where l: "ls ! i = stat_text (metrics p) s"
    using assms(2) nth_mem [OF i] unfolding stat_lines_def by blast
  show "is_prefix ''STAT '' (ls ! i)" unfolding l stat_text_def by (rule is_prefix_append)
  show "\<exists>m. parseStatLine (ls ! i) = Inr m" unfolding l stat_text_parses [OF assms(1)] by blast
  show "me_RowErr env (k + i) = None" if "mc_Trace cfg \<noteq> None" using assms(3) [OF that] by blast
qed

lemma nonblank_clean: "\<forall>l \<in> set ls. trim_space l = l \<and> l \<noteq> [] \<Longrightarrow> nonblank ls = ls"
  by (induction ls) auto

lemma protocol_words:
  "trim_space (''HELLO '' @ modelHash) = ''HELLO '' @ modelHash" "parseHello (''HELLO '' @ modelHash) = Inr modelHash"
  "trim_space ''READY'' = ''READY''" "trim_space ''END stop_rule'' = ''END stop_rule''"
  "trim_space (trim_prefix ''END'' ''END stop_rule'') = ''stop_rule''" "\<not> equal_fold ''stop_rule'' ''error''"
  by code_simp+

text \<open>The environment lets the run happen: no system call fails and nobody cancels it.\<close>

definition calm :: "model_env \<Rightarrow> model_run_config \<Rightarrow> bool" where
  "calm env cfg \<longleftrightarrow> launched env cfg \<and> told env cfg \<and> me_Ctx env = CtxLive \<and> me_WaitErr env = None \<and>
     me_OOMKilled env = False \<and> (mc_Trace cfg \<noteq> None \<longrightarrow> (\<forall>i. me_RowErr env i = None))"

lemma after_wait_reason:
  assumes "mr_ErrorMessage (ss_Result s) = []" "ends_well env cg fin"
  shows "mr_FinishReason (ss_Result (after_wait env cg True (with_reason fin s))) = trim_space (trim_prefix ''END'' fin)"
proof -
  define s1 where "s1 = snd (waitProcess env (with_reason fin s))"
  have w: "waitProcess env (with_reason fin s) = (None, s1)"
    using assms(2) by (simp add: s1_def prod_eq_iff ends_well_def)
  have 1: "mr_FinishReason (ss_Result s1) = trim_space (trim_prefix ''END'' fin)"
    using assms by (simp add: s1_def, simp add: with_reason_def)
  show ?thesis
    using 1 w assms(2) by (auto simp: after_wait_def ends_well_def finishRunResult_def Let_def)
qed

section \<open>An experiment from end to end\<close>

text \<open>
  C2. An experiment with the generated M/M/1 simulator, from the configuration a dispatcher
  writes to the result it reports. When the simulator takes the configuration without a
  complaint and its loop ends, the dispatcher that reads what it printed reports FINISHED with
  the reason stop_rule, and every requested metric has, in the final metrics, its value in the
  state in which the simulator stopped, which represents a state of the M/M/1 system.
\<close>

theorem mm1_experiment_reported:
  assumes conf: "configureExperiment (config_lines env cfg) None globals proto_globals = (True, s1, p1)"
      "protoOut p1 = Some [''HELLO '' @ modelHash, ''READY'']" "mc_ModelHash cfg = modelHash"
    and rates: "var_arrivalRate s1 = Fin la" "0 < la" "var_serviceRate s1 = Fin mu" "0 < mu" "draws_ok g"
    and ends: "n \<le> 2 ^ 32" "run n (startCreateBlocks (initModel g s1), p1) = (Ended, s, p)"
    and env: "calm env cfg" "protoOut p = Some (me_Stdout env)"
  shows "let res = ss_Result (run_model_process env cfg) in
    mr_Status res = statusFinished \<and> mr_FinishReason res = ''stop_rule'' \<and>
    mr_FinalMetrics res = (\<lambda>name. if name \<in> mf_name ` set (metrics p1)
      then map_option (\<lambda>mf. mf_value mf s) (resolveMetric name) else None) \<and>
    (\<exists>k m. k \<le> n \<and> (mm1_step la mu ^^ k) (mm1_initial la g) m \<and>
       models la mu (s\<lparr>stop := False, reasonStop := []\<rparr>) m)"
proof -
  note ok = configured_metrics [OF conf(1)]
  from run_Ended [OF ends(2) conf(2)] obtain s2 p2 ls where
    turns: "loop_turns n (startCreateBlocks (initModel g s1), p1) = (Ended, s2, p2)"
    and s: "s = fst (finish_run (s2, p2))" and ls: "stat_lines (metrics p1) ls"
    and out: "protoOut p = Some ([''HELLO '' @ modelHash, ''READY''] @ ls @
      (if metrics p1 = [] then [] else [stat_text (metrics p1) s]) @ [''END '' @ reasonStop s])" by metis
  have room: "created (mm1_initial la g) + n \<le> 2 ^ 32" using ends(1) by (simp add: mm1_initial_def)
  from loop_turns_represents [OF start_models [OF rates(1,3,2,5)] mm1_initial_ok [OF rates(5,2)] rates(2,4) room turns]
  obtain k m s3 where k: "k \<le> n" "(mm1_step la mu ^^ k) (mm1_initial la g) m"
    and s3: "models la mu s3 m" "s2 = s3\<lparr>stop := True, reasonStop := ''stop_rule''\<rparr>"
    by (auto simp: represents_def)
  have s2: "s = s2" "reasonStop s = ''stop_rule''" using s s3(2) by (simp_all add: finish_run_def Let_def)
  have "s3\<lparr>stop := False, reasonStop := []\<rparr> = s3" using s3(1) by (simp add: models_def settled_def)
  then have mod: "models la mu (s\<lparr>stop := False, reasonStop := []\<rparr>) m" using s2(1) s3 by simp
  define stats where "stats = ls @ (if metrics p1 = [] then [] else [stat_text (metrics p1) s])"
  have st: "stat_lines (metrics p1) stats" using ls by (auto simp: stats_def stat_lines_def)
  have stop_line: "''END '' @ reasonStop s = ''END stop_rule''" by (simp add: s2(2))
  have lines: "me_Stdout env = (''HELLO '' @ modelHash) # ''READY'' # stats @ ''END stop_rule'' # []"
    using out env(2) unfolding stop_line by (simp add: stats_def)
  have clean: "trim_space l = l \<and> l \<noteq> []" if mem: "l \<in> set stats" for l
  proof -
    obtain x where "metrics p1 \<noteq> []" "l = stat_text (metrics p1) x"
      using st mem unfolding stat_lines_def by blast
    with stat_text_line [OF ok] show ?thesis by (simp add: stat_text_def)
  qed
  have nb: "nonblank (me_Stdout env) = (''HELLO '' @ modelHash) # ''READY'' # stats @ ''END stop_rule'' # []"
    unfolding lines by (rule nonblank_clean) (auto simp: clean protocol_words simp del: append.simps)
  have calm: "launched env cfg" "told env cfg" "ends_well env (with_cgroup cfg) ''END stop_rule''"
    "mc_Trace cfg \<noteq> None \<Longrightarrow> \<forall>i. me_RowErr env i = None"
    using env(1) by (simp_all add: calm_def ends_well_def protocol_words)
  let ?s = "after_stats cfg stats ((started_session env cfg)\<lparr>ss_Sent := config_lines env cfg\<rparr>)"
  have hello: "parseHello (''HELLO '' @ modelHash) = Inr (mc_ModelHash cfg)" by (simp only: protocol_words conf(3))
  have run: "run_model_process env cfg = after_wait env (with_cgroup cfg) True (with_reason ''END stop_rule'' ?s)"
    using stat_lines_ok [OF ok st calm(4)]
    by (intro run_talked [OF calm(1,2) nb hello]) simp_all
  have no_error: "mr_ErrorMessage (ss_Result ?s) = []"
    by (simp add: after_stats_def started_session_def)
  have final: "mr_FinalMetrics (ss_Result (run_model_process env cfg)) = map_of (rev (metric_values (metrics p1) s))"
  proof (cases "metrics p1 = []")
    case True
    with ls have "stats = []" by (auto simp: stats_def stat_lines_def)
    with True show ?thesis
      by (simp add: run keeps metric_values_def) (simp add: with_reason_def started_session_def)
  next
    case False
    then have "stats \<noteq> []" "stat_value (last stats) = map_of (rev (metric_values (metrics p1) s))"
      by (simp_all add: stats_def stat_value_def stat_text_parses [OF ok])
    then show ?thesis
      by (simp add: run keeps) (simp add: with_reason_def after_stats_def)
  qed
  have "mr_Status (ss_Result (run_model_process env cfg)) = statusFinished"
    unfolding run by (rule after_wait_Ended [OF no_error, THEN iffD2]) (rule calm(3))
  moreover have "mr_FinishReason (ss_Result (run_model_process env cfg)) = ''stop_rule''"
    unfolding run after_wait_reason [OF no_error calm(3)] by (rule protocol_words)
  ultimately show ?thesis
    using k mod unfolding final map_of_values [OF ok] Let_def by blast
qed

section \<open>A small experiment\<close>

definition demo_config :: model_run_config where
  "demo_config = sample_config\<lparr>mc_ModelHash := modelHash,
     mc_SetVars := [\<lparr>sv_Name = ''serviceRate'', sv_Value = ''2''\<rparr>],
     mc_StopRule := Some \<lparr>sr_Left = ''Source.createdN'', sr_Op = ''>='', sr_Right = ''1''\<rparr>,
     mc_Metrics := [''Source.createdN''], mc_Trace := None\<rparr>"

definition demo_lines :: "string list" where
  "demo_lines = [''SET serviceRate 2'', ''RULE STOP Source.createdN >= 1'', ''METRIC Source.createdN'', ''START'']"

lemma demo_lines: "config_lines env demo_config = demo_lines"
  by (simp add: config_lines_def demo_config_def sample_config_def demo_lines_def)

definition demo_proto :: proto where
  "demo_proto = \<lparr>protoOut = Some [''HELLO '' @ modelHash, ''READY''],
     metrics = [\<lparr>mf_name = ''Source.createdN'', mf_value = (\<lambda>s. FormatUint (cb_createdN (block_CREATE_Source s)))\<rparr>],
     metricStep = Fin 0, hasMetricStep = False, nextMetricAt = Fin 0,
     stopRule = Some (\<lambda>s. f64_ge (f64_of_u64 (cb_createdN (block_CREATE_Source s))) (Fin 1))\<rparr>"

lemma demo_texts:
  "trim_space ''SET serviceRate 2'' = ''SET serviceRate 2''"
  "trim_space ''RULE STOP Source.createdN >= 1'' = ''RULE STOP Source.createdN >= 1''"
  "trim_space ''METRIC Source.createdN'' = ''METRIC Source.createdN''"
  "trim_space ''START'' = ''START''" "trim_space '' Source.createdN'' = ''Source.createdN''"
  "trim_space ''Source.createdN'' = ''Source.createdN''"
  "string_fields ''SET serviceRate 2'' = [''SET'', ''serviceRate'', ''2'']"
  "string_fields ''RULE STOP Source.createdN >= 1'' = [''RULE'', ''STOP'', ''Source.createdN'', ''>='', ''1'']"
  "string_fields ''METRIC Source.createdN'' = [''METRIC'', ''Source.createdN'']"
  "string_fields ''START'' = [''START'']" "split_byte (CHR '';'') ''Source.createdN'' = [''Source.createdN'']"
  "ParseFloat ''1'' = Some (Fin 1)" "ParseFloat ''2'' = Some (Fin 2)"
  by code_simp+

lemma demo_names:
  "resolveNumericOperand ''Source.createdN'' = Some (\<lambda>s. f64_of_u64 (cb_createdN (block_CREATE_Source s)))"
  "resolveNumericOperand ''1'' = Some (\<lambda>_. Fin 1)" "compare_op ''>='' = Some f64_ge"
  "resolveMetric ''Source.createdN'' =
     Some \<lparr>mf_name = ''Source.createdN'', mf_value = (\<lambda>s. FormatUint (cb_createdN (block_CREATE_Source s)))\<rparr>"
  by (simp_all add: resolveNumericOperand_def resolveMetric_def compare_op_def demo_texts)

lemma demo_configured:
  "configureExperiment demo_lines None globals proto_globals = (True, globals\<lparr>var_serviceRate := Fin 2\<rparr>, demo_proto)"
  by (simp add: configureExperiment_def demo_lines_def handleCommand_def demo_texts set_command_def setVar_def
      configureStopRule_def demo_names metric_command_def trim_prefix_def sendLine_def demo_proto_def
      proto_globals_def Let_def)

lemma loop_turn_outcome:
  "loop_turn (s, p) = (out, s', p') \<Longrightarrow> \<not> hasMetricStep p \<Longrightarrow> stopRule p = Some rule \<Longrightarrow> out \<noteq> Crashed \<Longrightarrow>
   out = Ended \<or> out = Running \<and> \<not> rule s'"
  by (auto simp: loop_turn_def maybeSendMetricStep_def Let_def split: if_splits option.splits prod.splits)

text \<open>The first arrival ends the experiment.\<close>

lemma demo_ends:
  "fst (run 1 (startCreateBlocks (initModel (\<lambda>_. Fin 1) (globals\<lparr>var_serviceRate := Fin 2\<rparr>)), demo_proto)) = Ended"
proof -
  let ?s0 = "globals\<lparr>var_serviceRate := Fin 2\<rparr>" and ?g = "\<lambda>_ :: nat. Fin 1"
  have r: "var_arrivalRate ?s0 = Fin 1" "var_serviceRate ?s0 = Fin 2" "(0 :: rat) < 1" "(0 :: rat) < 2" "draws_ok ?g"
    by (simp_all add: globals_def initModel_def draws_ok_def)
  note init = mm1_initial_ok [OF r(5,3)]
  obtain out s p where turn: "loop_turn (startCreateBlocks (initModel ?g ?s0), demo_proto) = (out, s, p)"
    by (cases "loop_turn (startCreateBlocks (initModel ?g ?s0), demo_proto)") auto
  have room: "created (mm1_initial 1 ?g) < 2 ^ 32" by (simp add: mm1_initial_def)
  obtain m where step: "mm1_step 1 2 (mm1_initial 1 ?g) m" and rep: "represents 1 2 out s p m"
    using loop_turn_represents [OF start_models [OF r(1,2,3,5)] init r(3,4) room turn] by blast
  have "created m = 1" using step by (auto simp: mm1_initial_def elim: mm1_stepE)
  then have "out = Running \<Longrightarrow> cb_createdN (block_CREATE_Source s) = 1"
    using rep by (auto simp: represents_def models_def settled_def counts_are_def)
  moreover have "f64_ge (f64_of_u64 1) (Fin 1)" by (simp add: f64_of_u64_def f64_ge_def)
  ultimately have "out = Ended"
    using loop_turn_outcome [OF turn] rep by (auto simp: demo_proto_def represents_def)
  then show ?thesis by (simp add: run_def turn)
qed

theorem mm1_experiment_reported_witness:
  "\<exists>env s. let res = ss_Result (run_model_process env demo_config) in
     mr_Status res = statusFinished \<and> mr_FinishReason res = ''stop_rule'' \<and>
     mr_FinalMetrics res ''Source.createdN'' = Some (FormatUint (cb_createdN (block_CREATE_Source s))) \<and>
     (\<exists>k m. k \<le> 1 \<and> (mm1_step 1 2 ^^ k) (mm1_initial 1 (\<lambda>_. Fin 1)) m \<and>
        models 1 2 (s\<lparr>stop := False, reasonStop := []\<rparr>) m)"
proof -
  let ?s1 = "globals\<lparr>var_serviceRate := Fin 2\<rparr>" and ?g = "\<lambda>_ :: nat. Fin 1"
  obtain s p where run: "run 1 (startCreateBlocks (initModel ?g ?s1), demo_proto) = (Ended, s, p)"
    using demo_ends by (cases "run 1 (startCreateBlocks (initModel ?g ?s1), demo_proto)") auto
  have "protoOut demo_proto = Some [''HELLO '' @ modelHash, ''READY'']" by (simp add: demo_proto_def)
  from run_Ended [OF run this] obtain out where out: "protoOut p = Some out" by metis
  let ?env = "sample_env\<lparr>me_Stdout := out\<rparr>"
  have conf: "configureExperiment (config_lines ?env demo_config) None globals proto_globals = (True, ?s1, demo_proto)"
    by (simp add: demo_lines demo_configured)
  have calm: "calm ?env demo_config"
    by (simp add: calm_def launched_def told_def sample_env_def demo_config_def sample_config_def with_cgroup_def)
  have r: "var_arrivalRate ?s1 = Fin 1" "var_serviceRate ?s1 = Fin 2" "(0 :: rat) < 1" "(0 :: rat) < 2" "draws_ok ?g"
    "mc_ModelHash demo_config = modelHash" "protoOut demo_proto = Some [''HELLO '' @ modelHash, ''READY'']"
    "(1 :: nat) \<le> 2 ^ 32"
    by (simp_all add: globals_def initModel_def draws_ok_def demo_config_def demo_proto_def)
  have "protoOut p = Some (me_Stdout ?env)" using out by simp
  from mm1_experiment_reported [OF conf r(7,6,1,3,2,4,5,8) run calm this] show ?thesis
    by (intro exI [of _ ?env] exI [of _ s]) (simp add: Let_def demo_proto_def demo_names)
qed

end
