(* ===== verification/Sim_Blocks.thy ===== *)
theory Sim_Blocks
  imports Go_Float_Arith Event_Queue Entity_Pool Sim_Queue
begin

text \<open>
  What the block functions do that the generator prints for a linked model
  (codegen/generator/emit_block.go, emitter.go, emit_runtime.go). A model is the list of its
  blocks; every printed function of a block is a function of the block's parameters and of
  the state, the global variables of the printed program. The expressions of the model are
  functions of the state, too: they give a value and the random source that is left, or panic.
  A call of another block's function is a parameter of each of them; \<open>enter\<close> ties the knot,
  with a bound on the depth of the calls.
\<close>

section \<open>State and model\<close>

datatype sim_value = VInt64 "64 word" | VUint64 u64 | VFloat64 f64 | VBool bool

datatype sim_handler =
    CreateNow string
  | DelayOver string entity_ref
  | TimeoutOver string u64

record resource_state =
  rs_busy :: u64
  rs_capacity :: u64
  rs_maxBusy :: u64
  rs_seizeN :: u64
  rs_releaseN :: u64

record delay_state =
  ds_enterN :: u64
  ds_exitN :: u64
  ds_busy :: u64
  ds_maxBusy :: u64

record flow_counts =
  fc_enterN :: u64
  fc_exitN :: u64

record create_counts =
  cc_createdN :: u64
  cc_exitN :: u64
  cc_dropN :: u64

record 'g gstate =
  gs_events :: "sim_handler event_queue"
  gs_clock :: f64
  gs_stop :: bool
  gs_reason :: string
  gs_rng :: 'g
  gs_pools :: "8 word \<Rightarrow> sim_value list pool"
  gs_vars :: "string \<Rightarrow> sim_value"
  gs_resources :: "string \<Rightarrow> resource_state"
  gs_queues :: "string \<Rightarrow> sim_queue"
  gs_delays :: "string \<Rightarrow> delay_state"
  gs_counts :: "string \<Rightarrow> flow_counts"
  gs_creates :: "string \<Rightarrow> create_counts"

type_synonym ('g, 'v) sim_expr = "entity_ref \<Rightarrow> 'g gstate \<Rightarrow> ('v \<times> 'g) option"

text \<open>The entity type that an expression with fields is for, with its name.\<close>

type_synonym entity_guard = "8 word \<times> string"

record 'g create_code =
  ct_interval :: "('g, f64) sim_expr"
  ct_immediately :: bool
  ct_batch :: "('g, u64) sim_expr"
  ct_entity :: "8 word"
  ct_defaults :: "sim_value list"
  ct_destroy :: bool
  ct_next :: string

record 'g queue_code =
  qc_capacity :: "('g, u64) sim_expr option"
  qc_overflow :: "string option"
  qc_timeout :: "('g, f64) sim_expr option"
  qc_guard :: "entity_guard option"
  qc_next_timeout :: string
  qc_next :: string

record 'g delay_code =
  dc_capacity :: "('g, u64) sim_expr option"
  dc_duration :: "('g, f64) sim_expr"
  dc_guard :: "entity_guard option"
  dc_next :: string
  dc_wake :: "string list"

datatype assign_target = TVar string | TField nat

record 'g assign_code =
  ac_target :: assign_target
  ac_guard :: "entity_guard option"
  ac_value :: "('g, sim_value) sim_expr"

record 'g case_code =
  kc_guard :: "entity_guard option"
  kc_condition :: "('g, bool) sim_expr"
  kc_next :: string

datatype 'g block_code =
    CreateCode "'g create_code"
  | QueueCode "'g queue_code"
  | DelayCode "'g delay_code"
  | SeizeCode (seize_resource: string) (seize_next: string)
  | ReleaseCode (release_resource: string) (release_next: string) (release_wake: "string list")
  | AssignCode "'g assign_code list" (assign_next: string)
  | BranchCode "'g case_code list" (branch_else: "string option")
  | TerminateCode

text \<open>The blocks in the order of the model, and the entity types with their zero values.\<close>

record 'g code_model =
  cm_blocks :: "(string \<times> 'g block_code) list"
  cm_zero :: "8 word \<Rightarrow> sim_value list option"

definition block_of :: "'g code_model \<Rightarrow> string \<Rightarrow> 'g block_code option" where
  "block_of m b = map_of (cm_blocks m) b"

section \<open>Outcomes\<close>

text \<open>A call returns, panics, or goes deeper than the bound.\<close>

datatype 'a run = Ret 'a | Fault | Deep

definition bindR :: "'a run \<Rightarrow> ('a \<Rightarrow> 'b run) \<Rightarrow> 'b run" where
  "bindR r f = (case r of Ret x \<Rightarrow> f x | Fault \<Rightarrow> Fault | Deep \<Rightarrow> Deep)"

lemma bindR_simps [simp]: "bindR (Ret x) f = f x" "bindR Fault f = Fault" "bindR Deep f = Deep"
  by (simp_all add: bindR_def)

lemma bindR_eq_Ret [simp]: "bindR r f = Ret y \<longleftrightarrow> (\<exists>x. r = Ret x \<and> f x = Ret y)"
  by (cases r) simp_all

lemma bindR_eq_Deep [simp]: "bindR r f = Deep \<longleftrightarrow> r = Deep \<or> (\<exists>x. r = Ret x \<and> f x = Deep)"
  by (cases r) simp_all

definition evalE :: "('g, 'v) sim_expr \<Rightarrow> entity_ref \<Rightarrow> 'g gstate \<Rightarrow> ('v \<times> 'g gstate) run" where
  "evalE e ref s = (case e ref s of None \<Rightarrow> Fault | Some (v, g) \<Rightarrow> Ret (v, s\<lparr>gs_rng := g\<rparr>))"

lemma evalE_Ret: "evalE e ref s = Ret (v, s') \<longleftrightarrow> (\<exists>g. e ref s = Some (v, g) \<and> s' = s\<lparr>gs_rng := g\<rparr>)"
  by (auto simp: evalE_def split: option.splits)

lemma bind_evalE:
  "bindR (evalE e ref s) f = Ret y \<longleftrightarrow> (\<exists>v g. e ref s = Some (v, g) \<and> f (v, s\<lparr>gs_rng := g\<rparr>) = Ret y)"
  by (auto simp: evalE_def split: option.splits)

lemma evalE_Deep [simp]: "evalE e ref s \<noteq> Deep"
  by (simp add: evalE_def split: option.splits)

text \<open>The reference an expression sees where the program has none.\<close>

definition no_ref :: entity_ref where
  "no_ref = \<lparr>ref_Type = 0, ref_Idx = NullIdx\<rparr>"

section \<open>Schedule, free, queues\<close>

definition sim_schedule :: "f64 \<Rightarrow> sim_handler \<Rightarrow> 'g gstate \<Rightarrow> 'g gstate" where
  "sim_schedule time h s =
     s\<lparr>gs_events := eq_push (gs_events s) \<lparr>Time = f64_add (gs_clock s) time, Handler = Some h\<rparr>\<rparr>"

definition sim_halt :: "string \<Rightarrow> 'g gstate \<Rightarrow> 'g gstate" where
  "sim_halt reason s = s\<lparr>gs_stop := True, gs_reason := reason\<rparr>"

definition sim_free :: "'g code_model \<Rightarrow> entity_ref \<Rightarrow> 'g gstate \<Rightarrow> 'g gstate run" where
  "sim_free m ref s =
     (case cm_zero m (ref_Type ref) of
        None \<Rightarrow> Ret (sim_halt ''unknown entity type'' s)
      | Some zero \<Rightarrow>
          (case pool_free zero (gs_pools s (ref_Type ref)) (ref_Idx ref) of
             None \<Rightarrow> Fault
           | Some p \<Rightarrow> Ret (s\<lparr>gs_pools := (gs_pools s)(ref_Type ref := p)\<rparr>)))"

definition on_queue :: "string \<Rightarrow> (sim_queue \<Rightarrow> sim_queue) \<Rightarrow> 'g gstate \<Rightarrow> 'g gstate" where
  "on_queue q f s = s\<lparr>gs_queues := (gs_queues s)(q := f (gs_queues s q))\<rparr>"

definition on_delay :: "string \<Rightarrow> (delay_state \<Rightarrow> delay_state) \<Rightarrow> 'g gstate \<Rightarrow> 'g gstate" where
  "on_delay b f s = s\<lparr>gs_delays := (gs_delays s)(b := f (gs_delays s b))\<rparr>"

definition on_resource :: "string \<Rightarrow> (resource_state \<Rightarrow> resource_state) \<Rightarrow> 'g gstate \<Rightarrow> 'g gstate" where
  "on_resource r f s = s\<lparr>gs_resources := (gs_resources s)(r := f (gs_resources s r))\<rparr>"

definition on_create :: "string \<Rightarrow> (create_counts \<Rightarrow> create_counts) \<Rightarrow> 'g gstate \<Rightarrow> 'g gstate" where
  "on_create b f s = s\<lparr>gs_creates := (gs_creates s)(b := f (gs_creates s b))\<rparr>"

text \<open>\<open>block.enterN++; block.exitN++\<close>\<close>

definition passed :: "string \<Rightarrow> 'g gstate \<Rightarrow> 'g gstate" where
  "passed b s = s\<lparr>gs_counts := (gs_counts s)(b := (gs_counts s b)
     \<lparr>fc_enterN := fc_enterN (gs_counts s b) + 1, fc_exitN := fc_exitN (gs_counts s b) + 1\<rparr>)\<rparr>"

type_synonym 'g call = "string \<Rightarrow> entity_ref \<Rightarrow> 'g gstate \<Rightarrow> (bool \<times> 'g gstate) run"

definition try_advance :: "'g code_model \<Rightarrow> 'g call \<Rightarrow> string \<Rightarrow> 'g gstate \<Rightarrow> (bool \<times> 'g gstate) run" where
  "try_advance m call q s =
     (case block_of m q of
        Some (QueueCode c) \<Rightarrow>
          (case queue_top (gs_queues s q) of
             (None, q1) \<Rightarrow> Ret (False, on_queue q (\<lambda>_. q1) s)
           | (Some ref, q1) \<Rightarrow>
               bindR (call (qc_next c) ref (on_queue q (\<lambda>_. q1) s)) (\<lambda>(ok, s2).
                 if \<not> ok then Ret (False, s2)
                 else Ret (True, on_queue q (\<lambda>x. x\<lparr>sq_exitN := sq_exitN x + 1\<rparr>) (on_queue q queue_delete s2))))
      | _ \<Rightarrow> Fault)"

text \<open>The wait queues are tried in order until one can advance.\<close>

fun wake_queues :: "'g code_model \<Rightarrow> 'g call \<Rightarrow> string list \<Rightarrow> 'g gstate \<Rightarrow> 'g gstate run" where
  "wake_queues m call [] s = Ret s"
| "wake_queues m call (q # qs) s =
     bindR (try_advance m call q s) (\<lambda>(ok, s1). if ok then Ret s1 else wake_queues m call qs s1)"

definition guard_ok :: "entity_guard option \<Rightarrow> entity_ref \<Rightarrow> bool" where
  "guard_ok g ref = (case g of None \<Rightarrow> True | Some (t, _) \<Rightarrow> ref_Type ref = t)"

definition guard_name :: "entity_guard option \<Rightarrow> string" where
  "guard_name g = (case g of None \<Rightarrow> [] | Some (_, name) \<Rightarrow> name)"

text \<open>
  The reasons of a stop, as bytes: an entity could not leave the block, or the block after a
  timeout, and a free resource is released.
\<close>

definition could_not_leave :: string where
  "could_not_leave = map char_of ([208, 183, 208, 176, 209, 143, 208, 178, 208, 186, 208, 176, 32, 208, 189, 208, 181, 32, 209, 129, 208, 188, 208, 190, 208, 179, 208, 187, 208, 176, 32, 208, 191, 208, 190, 208, 186, 208, 184, 208, 189, 209, 131, 209, 130, 209, 140, 32] :: nat list)"

definition block_stuck :: "string \<Rightarrow> string" where
  "block_stuck b = b @ '': '' @ could_not_leave @ map char_of ([208, 177, 208, 187, 208, 190, 208, 186] :: nat list)"

definition timeout_stuck :: "string \<Rightarrow> string" where
  "timeout_stuck b = b @ '': '' @ could_not_leave @ ''next_timeout''"

definition resource_free :: "string \<Rightarrow> string \<Rightarrow> string" where
  "resource_free b r = b @ '': '' @ map char_of ([208, 191, 208, 190, 208, 191, 209, 139, 209, 130, 208, 186, 208, 176, 32, 208, 190, 209, 129, 208, 178, 208, 190, 208, 177, 208, 190, 208, 180, 208, 184, 209, 130, 209, 140, 32, 208, 191, 209, 131, 209, 129, 209, 130, 208, 190, 208, 185, 32, 209, 128, 208, 181, 209, 129, 209, 131, 209, 128, 209, 129, 32] :: nat list) @ r"

section \<open>Blocks\<close>

definition queue_store :: "'g code_model \<Rightarrow> 'g call \<Rightarrow> string \<Rightarrow> 'g queue_code \<Rightarrow> entity_ref \<Rightarrow> 'g gstate \<Rightarrow>
    (bool \<times> 'g gstate) run" where
  "queue_store m call b c ref s =
     (let s0 = on_queue b (\<lambda>q. q\<lparr>sq_enterN := sq_enterN q + 1\<rparr>) s;
          finish = (\<lambda>s. bindR (try_advance m call b s) (\<lambda>(_, s). Ret (True, s)))
      in case qc_timeout c of
           None \<Rightarrow> finish (on_queue b (\<lambda>q. snd (queue_push ref q)) s0)
         | Some timeout \<Rightarrow>
             if \<not> guard_ok (qc_guard c) ref
             then Ret (False, sim_halt (b @ '': timeout expression expects entity '' @ guard_name (qc_guard c)) s0)
             else bindR (evalE timeout ref s0) (\<lambda>(t, s1).
               let idx = fst (queue_push ref (gs_queues s1 b));
                   s2 = on_queue b (\<lambda>q. snd (queue_push ref q)) s1
               in finish (sim_schedule t (TimeoutOver b idx) s2)))"

definition queue_main :: "'g code_model \<Rightarrow> 'g call \<Rightarrow> string \<Rightarrow> 'g queue_code \<Rightarrow> entity_ref \<Rightarrow> 'g gstate \<Rightarrow>
    (bool \<times> 'g gstate) run" where
  "queue_main m call b c ref s =
     (case qc_capacity c of
        None \<Rightarrow> queue_store m call b c ref s
      | Some capacity \<Rightarrow>
          bindR (evalE capacity no_ref s) (\<lambda>(n, s).
            if n \<le> sq_len (gs_queues s b) then
              (case qc_overflow c of
                 None \<Rightarrow> Ret (False, s)
               | Some nxt \<Rightarrow>
                   call nxt ref (on_queue b (\<lambda>q. q\<lparr>sq_enterN := sq_enterN q + 1, sq_dropN := sq_dropN q + 1\<rparr>) s))
            else queue_store m call b c ref s))"

definition delay_start :: "string \<Rightarrow> 'g delay_code \<Rightarrow> entity_ref \<Rightarrow> 'g gstate \<Rightarrow> (bool \<times> 'g gstate) run" where
  "delay_start b c ref s =
     (if \<not> guard_ok (dc_guard c) ref
      then Ret (False, sim_halt (b @ '': duration expression expects entity '' @ guard_name (dc_guard c)) s)
      else bindR (evalE (dc_duration c) ref s) (\<lambda>(t, s).
        let s1 = on_delay b (\<lambda>d. d\<lparr>ds_enterN := ds_enterN d + 1, ds_busy := ds_busy d + 1\<rparr>) s;
            s2 = on_delay b (\<lambda>d. if ds_maxBusy d < ds_busy d then d\<lparr>ds_maxBusy := ds_busy d\<rparr> else d) s1
        in Ret (True, sim_schedule t (DelayOver b ref) s2)))"

definition delay_main :: "string \<Rightarrow> 'g delay_code \<Rightarrow> entity_ref \<Rightarrow> 'g gstate \<Rightarrow> (bool \<times> 'g gstate) run" where
  "delay_main b c ref s =
     (case dc_capacity c of
        None \<Rightarrow> delay_start b c ref s
      | Some capacity \<Rightarrow>
          bindR (evalE capacity no_ref s) (\<lambda>(n, s).
            if n \<le> ds_busy (gs_delays s b) then Ret (False, s) else delay_start b c ref s))"

definition terminate_main :: "'g code_model \<Rightarrow> string \<Rightarrow> entity_ref \<Rightarrow> 'g gstate \<Rightarrow> (bool \<times> 'g gstate) run" where
  "terminate_main m b ref s =
     bindR (sim_free m ref (s\<lparr>gs_counts := (gs_counts s)(b := (gs_counts s b)
         \<lparr>fc_enterN := fc_enterN (gs_counts s b) + 1\<rparr>)\<rparr>)) (\<lambda>s. Ret (True, s))"

definition seize_main :: "'g call \<Rightarrow> string \<Rightarrow> string \<Rightarrow> string \<Rightarrow> entity_ref \<Rightarrow> 'g gstate \<Rightarrow>
    (bool \<times> 'g gstate) run" where
  "seize_main call b r nxt ref s =
     (let old = gs_resources s r in
      if rs_capacity old \<le> rs_busy old then Ret (False, s)
      else
        (let busy = rs_busy old + 1;
             s1 = on_resource r (\<lambda>x. x\<lparr>rs_busy := busy, rs_maxBusy := max (rs_maxBusy x) busy\<rparr>) s
         in bindR (call nxt ref s1) (\<lambda>(ok, s2).
              if ok then Ret (True, on_resource r (\<lambda>x. x\<lparr>rs_seizeN := rs_seizeN x + 1\<rparr>) (passed b s2))
              else Ret (False, on_resource r (\<lambda>x. x\<lparr>rs_busy := rs_busy old, rs_maxBusy := rs_maxBusy old\<rparr>) s2))))"

definition release_main :: "'g code_model \<Rightarrow> 'g call \<Rightarrow> string \<Rightarrow> string \<Rightarrow> string \<Rightarrow> string list \<Rightarrow> entity_ref \<Rightarrow>
    'g gstate \<Rightarrow> (bool \<times> 'g gstate) run" where
  "release_main m call b r nxt wake ref s =
     (let old = gs_resources s r in
      if rs_busy old = 0 then Ret (False, sim_halt (resource_free b r) s)
      else
        bindR (call nxt ref (on_resource r (\<lambda>x. x\<lparr>rs_busy := rs_busy x - 1\<rparr>) s)) (\<lambda>(ok, s2).
          if ok then
            bindR (wake_queues m call wake (on_resource r (\<lambda>x. x\<lparr>rs_releaseN := rs_releaseN x + 1\<rparr>) (passed b s2)))
              (\<lambda>s. Ret (True, s))
          else Ret (False, on_resource r (\<lambda>x. x\<lparr>rs_busy := rs_busy old\<rparr>) s2)))"

text \<open>The value of an assignment target, and the write to it; a bad index panics.\<close>

definition read_target :: "assign_target \<Rightarrow> entity_ref \<Rightarrow> 'g gstate \<Rightarrow> sim_value option" where
  "read_target t ref s =
     (case t of
        TVar v \<Rightarrow> Some (gs_vars s v)
      | TField i \<Rightarrow>
          (case pool_get (gs_pools s (ref_Type ref)) (ref_Idx ref) of
             None \<Rightarrow> None
           | Some vs \<Rightarrow> if i < length vs then Some (vs ! i) else None))"

definition set_field :: "nat \<Rightarrow> sim_value \<Rightarrow> entity_ref \<Rightarrow> 'g gstate \<Rightarrow> 'g gstate" where
  "set_field i v ref s =
     (let p = gs_pools s (ref_Type ref); k = unat (ref_Idx ref) in
      s\<lparr>gs_pools := (gs_pools s)(ref_Type ref := p\<lparr>Entities := (Entities p)[k := (Entities p ! k)[i := v]]\<rparr>)\<rparr>)"

definition write_target :: "assign_target \<Rightarrow> sim_value \<Rightarrow> entity_ref \<Rightarrow> 'g gstate \<Rightarrow> 'g gstate" where
  "write_target t v ref s =
     (case t of TVar x \<Rightarrow> s\<lparr>gs_vars := (gs_vars s)(x := v)\<rparr> | TField i \<Rightarrow> set_field i v ref s)"

text \<open>The assignments in order; the log has what has to be restored, the last change first.\<close>

fun assign_all :: "'g assign_code list \<Rightarrow> entity_ref \<Rightarrow> (assign_target \<times> sim_value) list \<Rightarrow> 'g gstate \<Rightarrow>
    ((assign_target \<times> sim_value) list \<times> 'g gstate) run" where
  "assign_all [] ref undo s = Ret (undo, s)"
| "assign_all (a # as) ref undo s =
     (if \<not> guard_ok (ac_guard a) ref then assign_all as ref undo s
      else
        (case read_target (ac_target a) ref s of
           None \<Rightarrow> Fault
         | Some old \<Rightarrow>
             bindR (evalE (ac_value a) ref s) (\<lambda>(v, s1).
               assign_all as ref ((ac_target a, old) # undo) (write_target (ac_target a) v ref s1))))"

fun restore_all :: "(assign_target \<times> sim_value) list \<Rightarrow> entity_ref \<Rightarrow> 'g gstate \<Rightarrow> 'g gstate" where
  "restore_all [] ref s = s"
| "restore_all ((t, old) # undo) ref s = restore_all undo ref (write_target t old ref s)"

definition assign_main :: "'g call \<Rightarrow> string \<Rightarrow> 'g assign_code list \<Rightarrow> string \<Rightarrow> entity_ref \<Rightarrow> 'g gstate \<Rightarrow>
    (bool \<times> 'g gstate) run" where
  "assign_main call b as nxt ref s =
     bindR (assign_all as ref [] s) (\<lambda>(undo, s1).
       bindR (call nxt ref s1) (\<lambda>(ok, s2).
         if ok then Ret (True, passed b s2) else Ret (False, restore_all undo ref s2)))"

definition branch_next :: "'g call \<Rightarrow> string \<Rightarrow> string \<Rightarrow> entity_ref \<Rightarrow> 'g gstate \<Rightarrow> (bool \<times> 'g gstate) run" where
  "branch_next call b nxt ref s =
     bindR (call nxt ref s) (\<lambda>(ok, s1). if ok then Ret (True, passed b s1) else Ret (False, s1))"

fun branch_main :: "'g call \<Rightarrow> string \<Rightarrow> 'g case_code list \<Rightarrow> string option \<Rightarrow> entity_ref \<Rightarrow> 'g gstate \<Rightarrow>
    (bool \<times> 'g gstate) run" where
  "branch_main call b [] els ref s =
     (case els of
        None \<Rightarrow> Ret (False, sim_halt (b @ '': no branch condition matched'') s)
      | Some nxt \<Rightarrow> branch_next call b nxt ref s)"
| "branch_main call b (k # ks) els ref s =
     (if \<not> guard_ok (kc_guard k) ref then branch_main call b ks els ref s
      else bindR (evalE (kc_condition k) ref s) (\<lambda>(yes, s1).
        if yes then branch_next call b (kc_next k) ref s1 else branch_main call b ks els ref s1))"

section \<open>Calls\<close>

text \<open>The function of a block, given the functions it calls. A CREATE has no such function.\<close>

definition block_step :: "'g code_model \<Rightarrow> 'g call \<Rightarrow> 'g call" where
  "block_step m call b ref s =
     (case block_of m b of
        Some (QueueCode c) \<Rightarrow> queue_main m call b c ref s
      | Some (DelayCode c) \<Rightarrow> delay_main b c ref s
      | Some (SeizeCode r nxt) \<Rightarrow> seize_main call b r nxt ref s
      | Some (ReleaseCode r nxt wake) \<Rightarrow> release_main m call b r nxt wake ref s
      | Some (AssignCode as nxt) \<Rightarrow> assign_main call b as nxt ref s
      | Some (BranchCode ks els) \<Rightarrow> branch_main call b ks els ref s
      | Some TerminateCode \<Rightarrow> terminate_main m b ref s
      | _ \<Rightarrow> Fault)"

fun enter :: "'g code_model \<Rightarrow> nat \<Rightarrow> 'g call" where
  "enter m 0 b ref s = Deep"
| "enter m (Suc n) b ref s = block_step m (enter m n) b ref s"

section \<open>Event handlers\<close>

text \<open>The body of a CREATE; the flag says that its function returned inside the loop.\<close>

fun create_loop :: "'g code_model \<Rightarrow> 'g call \<Rightarrow> string \<Rightarrow> 'g create_code \<Rightarrow> nat \<Rightarrow> 'g gstate \<Rightarrow>
    (bool \<times> 'g gstate) run" where
  "create_loop m call b c 0 s = Ret (False, s)"
| "create_loop m call b c (Suc n) s =
     (let t = ct_entity c;
          (i, p) = pool_alloc [] (gs_pools s t);
          p1 = p\<lparr>Entities := (Entities p)[unat i := ct_defaults c]\<rparr>;
          ref = \<lparr>ref_Type = t, ref_Idx = i\<rparr>;
          s1 = on_create b (\<lambda>x. x\<lparr>cc_createdN := cc_createdN x + 1\<rparr>) (s\<lparr>gs_pools := (gs_pools s)(t := p1)\<rparr>)
      in bindR (call (ct_next c) ref s1) (\<lambda>(ok, s2).
           if ok then create_loop m call b c n (on_create b (\<lambda>x. x\<lparr>cc_exitN := cc_exitN x + 1\<rparr>) s2)
           else if gs_stop s2 then Ret (True, s2)
           else if ct_destroy c then
             bindR (sim_free m ref (on_create b (\<lambda>x. x\<lparr>cc_dropN := cc_dropN x + 1\<rparr>) s2))
               (create_loop m call b c n)
           else Ret (True, sim_halt (block_stuck b) s2)))"

definition create_body :: "'g code_model \<Rightarrow> 'g call \<Rightarrow> string \<Rightarrow> 'g create_code \<Rightarrow> 'g gstate \<Rightarrow>
    (bool \<times> 'g gstate) run" where
  "create_body m call b c s =
     bindR (evalE (ct_batch c) no_ref s) (\<lambda>(n, s). create_loop m call b c (unat n) s)"

definition schedule_create :: "string \<Rightarrow> 'g create_code \<Rightarrow> 'g gstate \<Rightarrow> 'g gstate run" where
  "schedule_create b c s =
     bindR (evalE (ct_interval c) no_ref s) (\<lambda>(t, s). Ret (sim_schedule t (CreateNow b) s))"

text \<open>The function of a CREATE, which either creates at once or waits first.\<close>

definition create_main :: "'g code_model \<Rightarrow> 'g call \<Rightarrow> string \<Rightarrow> 'g create_code \<Rightarrow> 'g gstate \<Rightarrow> 'g gstate run" where
  "create_main m call b c s =
     (if ct_immediately c then
        bindR (create_body m call b c s) (\<lambda>(returned, s1).
          if returned \<or> gs_stop s1 then Ret s1 else schedule_create b c s1)
      else schedule_create b c s)"

definition on_create_event :: "'g code_model \<Rightarrow> 'g call \<Rightarrow> string \<Rightarrow> 'g create_code \<Rightarrow> 'g gstate \<Rightarrow> 'g gstate run" where
  "on_create_event m call b c s =
     (if ct_immediately c then create_main m call b c s
      else bindR (create_body m call b c s) (\<lambda>(returned, s1).
        if returned \<or> gs_stop s1 then Ret s1 else create_main m call b c s1))"

definition on_delay_event :: "'g code_model \<Rightarrow> 'g call \<Rightarrow> string \<Rightarrow> 'g delay_code \<Rightarrow> entity_ref \<Rightarrow> 'g gstate \<Rightarrow>
    'g gstate run" where
  "on_delay_event m call b c ref s =
     bindR (call (dc_next c) ref s) (\<lambda>(ok, s1).
       if ok then
         (let s2 = on_delay b (\<lambda>d. d\<lparr>ds_exitN := ds_exitN d + 1\<rparr>) s1;
              s3 = on_delay b (\<lambda>d. if 0 < ds_busy d then d\<lparr>ds_busy := ds_busy d - 1\<rparr> else d) s2
          in wake_queues m call (dc_wake c) s3)
       else if gs_stop s1 then Ret s1
       else Ret (sim_halt (block_stuck b) s1))"

definition on_timeout_event :: "'g code_model \<Rightarrow> 'g call \<Rightarrow> string \<Rightarrow> 'g queue_code \<Rightarrow> u64 \<Rightarrow> 'g gstate \<Rightarrow>
    'g gstate run" where
  "on_timeout_event m call b c idx s =
     (case queue_get idx (gs_queues s b) of
        (None, q) \<Rightarrow> Ret (on_queue b (\<lambda>_. q) s)
      | (Some ref, q) \<Rightarrow>
          bindR (call (qc_next_timeout c) ref
              (on_queue b (\<lambda>x. x\<lparr>sq_timeoutN := sq_timeoutN x + 1\<rparr>) (on_queue b (\<lambda>_. q) s))) (\<lambda>(ok, s1).
            if ok \<or> gs_stop s1 then Ret s1
            else Ret (sim_halt (timeout_stuck b) s1)))"

definition sim_handle :: "'g code_model \<Rightarrow> 'g call \<Rightarrow> sim_handler \<Rightarrow> 'g gstate \<Rightarrow> 'g gstate run" where
  "sim_handle m call h s =
     (case h of
        CreateNow b \<Rightarrow> (case block_of m b of Some (CreateCode c) \<Rightarrow> on_create_event m call b c s | _ \<Rightarrow> Fault)
      | DelayOver b ref \<Rightarrow> (case block_of m b of Some (DelayCode c) \<Rightarrow> on_delay_event m call b c ref s | _ \<Rightarrow> Fault)
      | TimeoutOver b idx \<Rightarrow>
          (case block_of m b of Some (QueueCode c) \<Rightarrow> on_timeout_event m call b c idx s | _ \<Rightarrow> Fault))"

text \<open>\<open>startCreateBlocks\<close>, and one turn of the loop in \<open>run\<close> up to the report.\<close>

fun start_blocks :: "'g code_model \<Rightarrow> 'g call \<Rightarrow> (string \<times> 'g block_code) list \<Rightarrow> 'g gstate \<Rightarrow> 'g gstate run" where
  "start_blocks m call [] s = Ret s"
| "start_blocks m call ((b, code) # bs) s =
     (case code of
        CreateCode c \<Rightarrow> bindR (create_main m call b c s) (start_blocks m call bs)
      | _ \<Rightarrow> start_blocks m call bs s)"

definition sim_turn :: "'g code_model \<Rightarrow> 'g call \<Rightarrow> 'g gstate \<Rightarrow> 'g gstate option run" where
  "sim_turn m call s =
     (case eq_pop (gs_events s) of (e, q) \<Rightarrow>
        let s1 = s\<lparr>gs_events := q\<rparr> in
        if f64_eq (Time e) (Fin (- 1)) \<or> gs_stop s1 then Ret None
        else
          (case Handler e of
             None \<Rightarrow> Fault
           | Some h \<Rightarrow> bindR (sim_handle m call h (s1\<lparr>gs_clock := Time e\<rparr>)) (\<lambda>s2. Ret (Some s2))))"

definition sim_init :: "'g code_model \<Rightarrow> 'g \<Rightarrow> (string \<Rightarrow> u64) \<Rightarrow> (string \<Rightarrow> sim_value) \<Rightarrow> 'g gstate" where
  "sim_init m rng capacity vars =
     \<lparr>gs_events = new_event_queue 1000, gs_clock = Fin 0, gs_stop = False, gs_reason = [], gs_rng = rng,
      gs_pools = (\<lambda>_. new_pool 10), gs_vars = vars,
      gs_resources = (\<lambda>r. \<lparr>rs_busy = 0, rs_capacity = capacity r, rs_maxBusy = 0, rs_seizeN = 0, rs_releaseN = 0\<rparr>),
      gs_queues = (\<lambda>_. empty_queue),
      gs_delays = (\<lambda>_. \<lparr>ds_enterN = 0, ds_exitN = 0, ds_busy = 0, ds_maxBusy = 0\<rparr>),
      gs_counts = (\<lambda>_. \<lparr>fc_enterN = 0, fc_exitN = 0\<rparr>),
      gs_creates = (\<lambda>_. \<lparr>cc_createdN = 0, cc_exitN = 0, cc_dropN = 0\<rparr>)\<rparr>"

end
