(* ===== verification/Sim_Refusal.thy ===== *)
theory Sim_Refusal
  imports Sim_Blocks
begin

text \<open>
  Refusals: a printed block function that answers \<open>false\<close> has left the simulation as it was,
  so that the entity can stay where it is. Assignments and resources are rolled back.
\<close>

section \<open>What a refusal may change\<close>

text \<open>The parts of a queue that a refused entry does not touch.\<close>

definition queue_core :: "sim_queue \<Rightarrow> queue_slot list \<times> u64 \<times> u64 \<times> u64 \<times> u64 \<times> u64" where
  "queue_core q = (sq_arr q, sq_total q, sq_exitN q, sq_timeoutN q, sq_len q, sq_maxLen q)"

text \<open>
  Events, clock, entities, variables, resources, delays and the counters of the blocks are the
  same, queues up to the counts of entries and drops; the random source may have moved on and
  the run may have been stopped.
\<close>

definition untouched :: "'g gstate \<Rightarrow> 'g gstate \<Rightarrow> bool" where
  "untouched s t \<longleftrightarrow>
     gs_events t = gs_events s \<and> gs_clock t = gs_clock s \<and> gs_pools t = gs_pools s \<and> gs_vars t = gs_vars s \<and>
     gs_resources t = gs_resources s \<and> (\<forall>q. queue_core (gs_queues t q) = queue_core (gs_queues s q)) \<and>
     gs_delays t = gs_delays s \<and> gs_counts t = gs_counts s \<and> gs_creates t = gs_creates s \<and>
     (gs_stop s \<longrightarrow> gs_stop t)"

lemma untouched_refl: "untouched s s"
  by (simp add: untouched_def)

lemma untouched_trans: "untouched s t \<Longrightarrow> untouched t u \<Longrightarrow> untouched s u"
  by (simp add: untouched_def)

lemma untouched_rng [simp]: "untouched s (t\<lparr>gs_rng := g\<rparr>) = untouched s t" "untouched (s\<lparr>gs_rng := g\<rparr>) t = untouched s t"
  by (simp_all add: untouched_def)

lemma untouched_halt [simp]: "untouched s t \<Longrightarrow> untouched s (sim_halt r t)"
  by (simp add: untouched_def sim_halt_def)

lemma untouched_entry: "untouched s (on_queue b (\<lambda>q. q\<lparr>sq_enterN := x q, sq_dropN := y q\<rparr>) s)"
  "untouched s (on_queue b (\<lambda>q. q\<lparr>sq_enterN := x q\<rparr>) s)"
  by (simp_all add: untouched_def on_queue_def queue_core_def)

section \<open>Assignments\<close>

definition data :: "'g gstate \<Rightarrow> (string \<Rightarrow> sim_value) \<times> (8 word \<Rightarrow> sim_value list pool)" where
  "data s = (gs_vars s, gs_pools s)"

lemma data_write: "data s = data t \<Longrightarrow> data (write_target x v ref s) = data (write_target x v ref t)"
  by (cases x) (simp_all add: data_def write_target_def set_field_def Let_def)

lemma data_restore: "data s = data t \<Longrightarrow> data (restore_all undo ref s) = data (restore_all undo ref t)"
  by (induction undo ref s arbitrary: t rule: restore_all.induct) (auto intro: data_write)

lemma data_rng [simp]: "data (s\<lparr>gs_rng := g\<rparr>) = data s"
  by (simp add: data_def)

lemma write_back:
  assumes "read_target x ref s = Some old"
  shows "data (write_target x old ref (write_target x v ref s)) = data s"
proof (cases x)
  case (TVar y)
  with assms show ?thesis by (auto simp: data_def write_target_def read_target_def)
next
  case (TField i)
  let ?p = "gs_pools s (ref_Type ref)" and ?k = "unat (ref_Idx ref)"
  have k: "?k < length (Entities ?p)" and i: "i < length (Entities ?p ! ?k)" and old: "old = Entities ?p ! ?k ! i"
    using assms TField by (auto simp: read_target_def pool_get_def split: if_splits)
  have "(Entities ?p)[?k := (Entities ?p ! ?k)[i := v], ?k := (Entities ?p ! ?k)[i := v, i := old]] = Entities ?p"
    using k i old by (simp add: list_update_id)
  then show ?thesis
    using k TField by (simp add: data_def write_target_def set_field_def Let_def)
qed

lemma assign_all_Cons:
  "guard_ok (ac_guard a) ref \<Longrightarrow>
   assign_all (a # as) ref undo0 s = Ret r \<longleftrightarrow>
     (\<exists>old v g. read_target (ac_target a) ref s = Some old \<and> ac_value a ref s = Some (v, g) \<and>
        assign_all as ref ((ac_target a, old) # undo0) (write_target (ac_target a) v ref (s\<lparr>gs_rng := g\<rparr>)) = Ret r)"
  by (cases "read_target (ac_target a) ref s") (simp_all add: bind_evalE del: bindR_eq_Ret)

lemma assign_all_undo:
  "assign_all as ref undo0 s = Ret (undo, s1) \<Longrightarrow> data (restore_all undo ref s1) = data (restore_all undo0 ref s)"
proof (induction as arbitrary: undo0 s)
  case Nil
  then show ?case by simp
next
  case (Cons a as)
  show ?case
  proof (cases "guard_ok (ac_guard a) ref")
    case False
    with Cons show ?thesis by simp
  next
    case True
    from Cons.prems [unfolded assign_all_Cons [OF True]] obtain old v g where
      r: "read_target (ac_target a) ref s = Some old"
      and rest: "assign_all as ref ((ac_target a, old) # undo0) (write_target (ac_target a) v ref (s\<lparr>gs_rng := g\<rparr>)) = Ret (undo, s1)"
      by blast
    have r': "read_target (ac_target a) ref (s\<lparr>gs_rng := g\<rparr>) = Some old"
      using r by (cases "ac_target a") (simp_all add: read_target_def)
    have "data (restore_all undo ref s1) =
        data (restore_all ((ac_target a, old) # undo0) ref (write_target (ac_target a) v ref (s\<lparr>gs_rng := g\<rparr>)))"
      using rest by (rule Cons.IH)
    also have "\<dots> = data (restore_all undo0 ref (s\<lparr>gs_rng := g\<rparr>))"
      unfolding restore_all.simps using write_back [OF r'] by (rule data_restore)
    also have "\<dots> = data (restore_all undo0 ref s)" by (rule data_restore) simp
    finally show ?thesis .
  qed
qed

text \<open>The rest of the state is left alone.\<close>

definition other :: "'g gstate \<Rightarrow> 'g gstate \<Rightarrow> bool" where
  "other s t \<longleftrightarrow>
     gs_events t = gs_events s \<and> gs_clock t = gs_clock s \<and> gs_resources t = gs_resources s \<and>
     gs_queues t = gs_queues s \<and> gs_delays t = gs_delays s \<and> gs_counts t = gs_counts s \<and> gs_creates t = gs_creates s \<and>
     gs_stop t = gs_stop s"

lemma other_refl: "other s s"
  by (simp add: other_def)

lemma other_write: "other s t \<Longrightarrow> other s (write_target x v ref t)"
  by (cases x) (simp_all add: other_def write_target_def set_field_def Let_def)

lemma other_restore: "other s t \<Longrightarrow> other s (restore_all undo ref t)"
  by (induction undo ref t rule: restore_all.induct) (auto intro: other_write)

lemma assign_all_other: "assign_all as ref undo0 s = Ret (undo, s1) \<Longrightarrow> other t s \<Longrightarrow> other t s1"
proof (induction as arbitrary: undo0 s)
  case (Cons a as)
  show ?case
  proof (cases "guard_ok (ac_guard a) ref")
    case False
    with Cons show ?thesis by simp
  next
    case True
    from Cons.prems(1) [unfolded assign_all_Cons [OF True]] obtain old v g where
      rest: "assign_all as ref ((ac_target a, old) # undo0) (write_target (ac_target a) v ref (s\<lparr>gs_rng := g\<rparr>)) = Ret (undo, s1)"
      by blast
    have "other t (write_target (ac_target a) v ref (s\<lparr>gs_rng := g\<rparr>))"
      using Cons.prems(2) by (intro other_write) (simp add: other_def)
    with rest show ?thesis by (rule Cons.IH)
  qed
qed simp

section \<open>Refusals\<close>

definition refuses_cleanly :: "'g call \<Rightarrow> bool" where
  "refuses_cleanly call \<longleftrightarrow> (\<forall>b ref s s'. call b ref s = Ret (False, s') \<longrightarrow> untouched s s')"

lemma queue_store_refuses:
  assumes "queue_store m call b c ref s = Ret (False, s')"
  shows "untouched s s'"
proof (cases "qc_timeout c")
  case None
  with assms show ?thesis by (simp add: queue_store_def Let_def split_beta)
next
  case (Some timeout)
  with assms have "s' = sim_halt (b @ '': timeout expression expects entity '' @ guard_name (qc_guard c))
      (on_queue b (\<lambda>q. q\<lparr>sq_enterN := sq_enterN q + 1\<rparr>) s)"
    by (cases "guard_ok (qc_guard c) ref") (auto simp: queue_store_def Let_def split_beta)
  then show ?thesis by (simp add: untouched_entry)
qed

lemma queue_refuses:
  assumes call: "refuses_cleanly call" and run: "queue_main m call b c ref s = Ret (False, s')"
  shows "untouched s s'"
proof (cases "qc_capacity c")
  case None
  with run have "queue_store m call b c ref s = Ret (False, s')" by (simp add: queue_main_def)
  then show ?thesis by (rule queue_store_refuses)
next
  case (Some capacity)
  obtain n g where inner: "(if n \<le> sq_len (gs_queues s b) then
      (case qc_overflow c of
         None \<Rightarrow> Ret (False, s\<lparr>gs_rng := g\<rparr>)
       | Some nxt \<Rightarrow>
           call nxt ref (on_queue b (\<lambda>q. q\<lparr>sq_enterN := sq_enterN q + 1, sq_dropN := sq_dropN q + 1\<rparr>) (s\<lparr>gs_rng := g\<rparr>)))
      else queue_store m call b c ref (s\<lparr>gs_rng := g\<rparr>)) = Ret (False, s')"
    using run Some by (auto simp: queue_main_def bind_evalE simp del: bindR_eq_Ret)
  show ?thesis
  proof (cases "n \<le> sq_len (gs_queues s b)")
    case False
    with inner have "queue_store m call b c ref (s\<lparr>gs_rng := g\<rparr>) = Ret (False, s')" by simp
    from queue_store_refuses [OF this] show ?thesis by simp
  next
    case True
    show ?thesis
    proof (cases "qc_overflow c")
      case None
      with inner True have "s' = s\<lparr>gs_rng := g\<rparr>" by simp
      then show ?thesis by (simp add: untouched_refl)
    next
      case (Some nxt)
      with inner True have "call nxt ref (on_queue b (\<lambda>q. q\<lparr>sq_enterN := sq_enterN q + 1,
          sq_dropN := sq_dropN q + 1\<rparr>) (s\<lparr>gs_rng := g\<rparr>)) = Ret (False, s')" by simp
      with call have "untouched (on_queue b (\<lambda>q. q\<lparr>sq_enterN := sq_enterN q + 1,
          sq_dropN := sq_dropN q + 1\<rparr>) (s\<lparr>gs_rng := g\<rparr>)) s'"
        unfolding refuses_cleanly_def by blast
      with untouched_entry(1) have "untouched (s\<lparr>gs_rng := g\<rparr>) s'" by (rule untouched_trans)
      then show ?thesis by simp
    qed
  qed
qed

lemma resource_undo: "untouched (on_resource r f s) t \<Longrightarrow> g (f (gs_resources s r)) = gs_resources s r \<Longrightarrow>
   untouched s (on_resource r g t)"
  by (auto simp: untouched_def on_resource_def fun_eq_iff)

lemma seize_refuses:
  assumes call: "refuses_cleanly call" and run: "seize_main call b r nxt ref s = Ret (False, s')"
  shows "untouched s s'"
proof (cases "rs_capacity (gs_resources s r) \<le> rs_busy (gs_resources s r)")
  case True
  with run show ?thesis by (simp add: seize_main_def untouched_refl)
next
  case False
  let ?old = "gs_resources s r"
  let ?f = "\<lambda>x. x\<lparr>rs_busy := rs_busy ?old + 1, rs_maxBusy := max (rs_maxBusy x) (rs_busy ?old + 1)\<rparr>"
  let ?g = "\<lambda>x. x\<lparr>rs_busy := rs_busy ?old, rs_maxBusy := rs_maxBusy ?old\<rparr>"
  obtain ok s2 where c: "call nxt ref (on_resource r ?f s) = Ret (ok, s2)"
    and out: "(if ok then Ret (True, on_resource r (\<lambda>x. x\<lparr>rs_seizeN := rs_seizeN x + 1\<rparr>) (passed b s2))
      else Ret (False, on_resource r ?g s2)) = Ret (False, s')"
    using run False by (auto simp: seize_main_def Let_def)
  then have ok: "\<not> ok" and s': "s' = on_resource r ?g s2" by (simp_all split: if_splits)
  have "untouched (on_resource r ?f s) s2" using call c ok unfolding refuses_cleanly_def by auto
  then show ?thesis unfolding s' by (rule resource_undo) simp
qed

lemma release_refuses:
  assumes call: "refuses_cleanly call" and run: "release_main m call b r nxt wake ref s = Ret (False, s')"
  shows "untouched s s'"
proof (cases "rs_busy (gs_resources s r) = 0")
  case True
  with run show ?thesis by (auto simp: release_main_def untouched_refl)
next
  case False
  let ?old = "gs_resources s r"
  let ?f = "\<lambda>x. x\<lparr>rs_busy := rs_busy x - 1\<rparr>" and ?g = "\<lambda>x. x\<lparr>rs_busy := rs_busy ?old\<rparr>"
  obtain s2 where c: "call nxt ref (on_resource r ?f s) = Ret (False, s2)" and s': "s' = on_resource r ?g s2"
    using run False by (auto simp: release_main_def Let_def split: if_splits)
  have "untouched (on_resource r ?f s) s2" using call c unfolding refuses_cleanly_def by blast
  then show ?thesis unfolding s' by (rule resource_undo) simp
qed

lemma assign_refuses:
  assumes call: "refuses_cleanly call" and run: "assign_main call b as nxt ref s = Ret (False, s')"
  shows "untouched s s'"
proof -
  obtain undo s1 s2 where a: "assign_all as ref [] s = Ret (undo, s1)" and c: "call nxt ref s1 = Ret (False, s2)"
    and s': "s' = restore_all undo ref s2"
    using run by (auto simp: assign_main_def split: if_splits)
  have u: "untouched s1 s2" using call c by (auto simp: refuses_cleanly_def)
  have "data s' = data s"
    using data_restore [of s2 s1 undo ref] assign_all_undo [OF a] u by (simp add: s' data_def untouched_def)
  moreover have "other s2 s'" unfolding s' by (rule other_restore) (rule other_refl)
  moreover have "other s s1" using a other_refl by (rule assign_all_other)
  ultimately show ?thesis using u by (auto simp: untouched_def data_def other_def)
qed

lemma branch_refuses:
  assumes call: "refuses_cleanly call"
  shows "branch_main call b ks els ref s = Ret (False, s') \<Longrightarrow> untouched s s'"
proof (induction ks arbitrary: s)
  case Nil
  with call show ?case
    by (auto simp: branch_next_def refuses_cleanly_def untouched_refl split: option.splits if_splits)
next
  case (Cons k ks)
  have "untouched t s'" if "branch_next call b (kc_next k) ref t = Ret (False, s')" for t
    using that call by (auto simp: branch_next_def refuses_cleanly_def split: if_splits)
  note nxt = this
  show ?case
  proof (cases "guard_ok (kc_guard k) ref")
    case False
    with Cons show ?thesis by simp
  next
    case True
    with Cons.prems obtain yes g where
      "(if yes then branch_next call b (kc_next k) ref (s\<lparr>gs_rng := g\<rparr>)
        else branch_main call b ks els ref (s\<lparr>gs_rng := g\<rparr>)) = Ret (False, s')"
      by (auto simp: bind_evalE simp del: bindR_eq_Ret)
    with Cons.IH [of "s\<lparr>gs_rng := g\<rparr>"] nxt [of "s\<lparr>gs_rng := g\<rparr>"] show ?thesis by (cases yes) simp_all
  qed
qed

lemma block_refuses:
  assumes call: "refuses_cleanly call"
  shows "refuses_cleanly (block_step m call)"
  unfolding refuses_cleanly_def
proof (intro allI impI)
  fix b ref s s'
  assume run: "block_step m call b ref s = Ret (False, s')"
  then obtain code where code: "block_of m b = Some code"
    by (auto simp: block_step_def split: option.splits)
  show "untouched s s'"
  proof (cases code)
    case (QueueCode c)
    with run code queue_refuses [OF call] show ?thesis by (simp add: block_step_def)
  next
    case (DelayCode c)
    with run code show ?thesis
      by (auto simp: block_step_def delay_main_def delay_start_def bind_evalE untouched_refl Let_def
          simp del: bindR_eq_Ret split: option.splits if_splits)
  next
    case (SeizeCode r nxt)
    then have "seize_main call b r nxt ref s = Ret (False, s')"
      using run code by (simp add: block_step_def)
    with call show ?thesis by (rule seize_refuses)
  next
    case (ReleaseCode r nxt wake)
    then have "release_main m call b r nxt wake ref s = Ret (False, s')"
      using run code by (simp add: block_step_def)
    with call show ?thesis by (rule release_refuses)
  next
    case (AssignCode as nxt)
    with run code assign_refuses [OF call] show ?thesis by (simp add: block_step_def)
  next
    case (BranchCode ks els)
    with run code branch_refuses [OF call] show ?thesis by (simp add: block_step_def)
  next
    case TerminateCode
    with run code show ?thesis by (auto simp: block_step_def terminate_main_def)
  qed (use run code in \<open>simp_all add: block_step_def\<close>)
qed

lemma enter_refuses: "refuses_cleanly (enter m n)"
proof (induction n)
  case 0
  then show ?case by (simp add: refuses_cleanly_def)
next
  case (Suc n)
  have "enter m (Suc n) = block_step m (enter m n)" by (intro ext) simp
  with block_refuses [OF Suc] show ?case by simp
qed

text \<open>
  C30. A block that refuses an entity has done nothing: whatever blocks the entity passed on
  the way to the refusal, assignments are undone, resources have the units they had, no queue,
  delay or event has been changed, and only the counts of entries and drops of queues, the
  random source and the stop of the run can differ.
\<close>

theorem refusal_is_transactional:
  assumes "enter m n b ref s = Ret (False, s')"
  shows "gs_vars s' = gs_vars s \<and> gs_pools s' = gs_pools s \<and> gs_resources s' = gs_resources s \<and>
    gs_events s' = gs_events s \<and> gs_clock s' = gs_clock s \<and> gs_delays s' = gs_delays s \<and>
    gs_counts s' = gs_counts s \<and> gs_creates s' = gs_creates s \<and> (gs_stop s \<longrightarrow> gs_stop s') \<and>
    (\<forall>q. queue_core (gs_queues s' q) = queue_core (gs_queues s q))"
  using enter_refuses [of m n] assms unfolding refuses_cleanly_def untouched_def by blast

end
