(* ===== verification/Sim_Frame.thy ===== *)
theory Sim_Frame
  imports Sim_Refusal
begin

text \<open>
  Frame conditions of the printed functions of a model: a relation between states that every
  elementary change satisfies holds between the states before and after any function of the
  program, however deep its calls go.
\<close>

section \<open>Calls\<close>

lemma bind_pair: "bindR r (\<lambda>(a, s). f a s) = Ret y \<longleftrightarrow> (\<exists>a s. r = Ret (a, s) \<and> f a s = Ret y)"
  by auto

text \<open>The events that a block may schedule, and after which times.\<close>

definition schedules :: "string \<Rightarrow> 'g block_code \<Rightarrow> f64 \<Rightarrow> sim_handler \<Rightarrow> bool" where
  "schedules b code x h = (case code of
       CreateCode c \<Rightarrow> h = CreateNow b \<and> (\<exists>ref s g. ct_interval c ref s = Some (x, g))
     | QueueCode c \<Rightarrow> (\<exists>i. h = TimeoutOver b i) \<and> (\<exists>e ref s g. qc_timeout c = Some e \<and> e ref s = Some (x, g))
     | DelayCode c \<Rightarrow> (\<exists>r. h = DelayOver b r) \<and> (\<exists>ref s g. dc_duration c ref s = Some (x, g))
     | _ \<Rightarrow> False)"

lemma block_in_model: "block_of m b = Some code \<Longrightarrow> (b, code) \<in> set (cm_blocks m)"
  by (simp add: block_of_def map_of_SomeD)

locale frame_rule =
  fixes m :: "'g code_model" and F :: "'g gstate \<Rightarrow> 'g gstate \<Rightarrow> bool"
  assumes F_refl: "F s s"
    and F_trans: "F s t \<Longrightarrow> F t u \<Longrightarrow> F s u"
    and F_rng: "F s (s\<lparr>gs_rng := g\<rparr>)"
    and F_halt: "F s (sim_halt r s)"
    and F_queue: "F s (on_queue b f s)"
    and F_delay: "F s (on_delay b df s)"
    and F_resource: "F s (on_resource b rf s)"
    and F_counts: "F s (s\<lparr>gs_counts := c\<rparr>)"
    and F_write: "F s (write_target trg v ref s)"
    and F_schedule: "(b, code) \<in> set (cm_blocks m) \<Longrightarrow> schedules b code x h \<Longrightarrow> F s (sim_schedule x h s)"
    and F_free: "sim_free m ref s = Ret s' \<Longrightarrow> F s s'"
begin

definition framed :: "'g call \<Rightarrow> bool" where
  "framed call \<longleftrightarrow> (\<forall>b ref s ok s'. call b ref s = Ret (ok, s') \<longrightarrow> F s s')"

lemma framedD: "framed call \<Longrightarrow> call b ref s = Ret (ok, s') \<Longrightarrow> F s s'"
  by (simp add: framed_def)

text \<open>The state after an elementary change of a state that is already related.\<close>

lemmas F_steps = F_trans [OF _ F_rng] F_trans [OF _ F_halt] F_trans [OF _ F_queue] F_trans [OF _ F_delay]
  F_trans [OF _ F_resource] F_trans [OF _ F_counts] F_trans [OF _ F_write]

lemma F_scheduled: "F s t \<Longrightarrow> (b, code) \<in> set (cm_blocks m) \<Longrightarrow> schedules b code x h \<Longrightarrow> F s (sim_schedule x h t)"
  by (blast intro: F_trans F_schedule)

lemma F_passed: "F s t \<Longrightarrow> F s (passed b t)"
  unfolding passed_def by (rule F_trans [OF _ F_counts])

lemma F_eval: "evalE e ref t = Ret (v, t') \<Longrightarrow> F s t \<Longrightarrow> F s t'"
  by (auto simp: evalE_Ret intro: F_steps)

lemma F_call: "framed call \<Longrightarrow> call b ref t = Ret (ok, t') \<Longrightarrow> F s t \<Longrightarrow> F s t'"
  by (blast intro: F_trans framedD)

lemma F_advance:
  assumes call: "framed call" and run: "try_advance m call q t = Ret (ok, t')" and t: "F s t"
  shows "F s t'"
proof (cases "block_of m q")
  case None
  with run show ?thesis by (simp add: try_advance_def)
next
  case (Some code)
  then obtain c where c: "block_of m q = Some (QueueCode c)"
    using run by (cases code) (simp_all add: try_advance_def)
  obtain r q1 where top: "queue_top (gs_queues t q) = (r, q1)" by (cases "queue_top (gs_queues t q)")
  show ?thesis
  proof (cases r)
    case None
    with run c top t show ?thesis by (auto simp: try_advance_def intro: F_steps)
  next
    case (Some ref)
    obtain ok2 t2 where c2: "call (qc_next c) ref (on_queue q (\<lambda>_. q1) t) = Ret (ok2, t2)"
      and out: "(if \<not> ok2 then Ret (False, t2)
        else Ret (True, on_queue q (\<lambda>x. x\<lparr>sq_exitN := sq_exitN x + 1\<rparr>) (on_queue q queue_delete t2))) = Ret (ok, t')"
      using run c top Some unfolding try_advance_def by (simp add: bind_pair del: bindR_eq_Ret) blast
    have "F s t2" using call c2 by (rule F_call) (intro F_steps t)
    with out show ?thesis by (auto intro: F_steps split: if_splits)
  qed
qed

lemma F_wake: "framed call \<Longrightarrow> wake_queues m call qs t = Ret t' \<Longrightarrow> F s t \<Longrightarrow> F s t'"
proof (induction qs arbitrary: t)
  case (Cons q qs)
  obtain ok t1 where a: "try_advance m call q t = Ret (ok, t1)"
    and rest: "(if ok then Ret t1 else wake_queues m call qs t1) = Ret t'"
    using Cons.prems(2) by (simp add: bind_pair del: bindR_eq_Ret) blast
  have "F s t1" using Cons.prems(1) a Cons.prems(3) by (rule F_advance)
  with rest Cons show ?case by (simp split: if_splits)
qed simp

lemma F_assign: "assign_all as ref undo0 t = Ret (undo, t') \<Longrightarrow> F s t \<Longrightarrow> F s t'"
proof (induction as arbitrary: undo0 t)
  case (Cons a as)
  show ?case
  proof (cases "guard_ok (ac_guard a) ref")
    case False
    with Cons show ?thesis by simp
  next
    case True
    from Cons.prems(1) [unfolded assign_all_Cons [OF True]] obtain old v g where
      rest: "assign_all as ref ((ac_target a, old) # undo0) (write_target (ac_target a) v ref (t\<lparr>gs_rng := g\<rparr>)) = Ret (undo, t')"
      by blast
    have "F s (write_target (ac_target a) v ref (t\<lparr>gs_rng := g\<rparr>))" using Cons.prems(2) by (intro F_steps)
    with rest show ?thesis by (rule Cons.IH)
  qed
qed simp

lemma F_restore: "F s t \<Longrightarrow> F s (restore_all undo ref t)"
  by (induction undo ref t rule: restore_all.induct) (auto intro: F_steps)

lemma F_branch_next: "framed call \<Longrightarrow> branch_next call b y ref t = Ret (ok, t') \<Longrightarrow> F s t \<Longrightarrow> F s t'"
  unfolding branch_next_def by (auto simp: bind_pair simp del: bindR_eq_Ret intro: F_call F_passed split: if_splits)

lemma F_branch: "framed call \<Longrightarrow> branch_main call b ks els ref t = Ret (ok, t') \<Longrightarrow> F s t \<Longrightarrow> F s t'"
proof (induction ks arbitrary: t)
  case Nil
  then show ?case by (cases els) (auto intro: F_branch_next F_steps)
next
  case (Cons k ks)
  show ?case
  proof (cases "guard_ok (kc_guard k) ref")
    case False
    with Cons show ?thesis by simp
  next
    case True
    obtain yes t1 where e: "evalE (kc_condition k) ref t = Ret (yes, t1)"
      and rest: "(if yes then branch_next call b (kc_next k) ref t1 else branch_main call b ks els ref t1) = Ret (ok, t')"
      using Cons.prems(2) True by (simp add: bind_pair del: bindR_eq_Ret) blast
    have "F s t1" using e Cons.prems(3) by (rule F_eval)
    with rest Cons.IH Cons.prems(1) show ?thesis by (cases yes) (auto intro: F_branch_next)
  qed
qed

lemma F_store:
  assumes call: "framed call" and b: "(b, QueueCode c) \<in> set (cm_blocks m)" and run: "queue_store m call b c ref t = Ret (ok, t')" and t: "F s t"
  shows "F s t'"
proof -
  let ?t0 = "on_queue b (\<lambda>q. q\<lparr>sq_enterN := sq_enterN q + 1\<rparr>) t"
  have t0: "F s ?t0" by (intro F_steps t)
  show ?thesis
  proof (cases "qc_timeout c")
    case None
    then obtain ok2 where "try_advance m call b (on_queue b (\<lambda>q. snd (queue_push ref q)) ?t0) = Ret (ok2, t')"
      using run by (auto simp: queue_store_def Let_def)
    with call show ?thesis by (rule F_advance) (intro F_steps t0)
  next
    case (Some timeout)
    show ?thesis
    proof (cases "guard_ok (qc_guard c) ref")
      case False
      with run Some have "t' = sim_halt (b @ '': timeout expression expects entity '' @ guard_name (qc_guard c)) ?t0"
        by (simp add: queue_store_def Let_def)
      with t0 show ?thesis by (auto intro: F_steps)
    next
      case True
      obtain v t1 ok2 where e: "evalE timeout ref ?t0 = Ret (v, t1)"
        and a: "try_advance m call b (sim_schedule v (TimeoutOver b (fst (queue_push ref (gs_queues t1 b))))
          (on_queue b (\<lambda>q. snd (queue_push ref q)) t1)) = Ret (ok2, t')"
        using run Some True unfolding queue_store_def Let_def by (auto simp: bind_pair simp del: bindR_eq_Ret)
      have "F s t1" using e t0 by (rule F_eval)
      then have t2: "F s (on_queue b (\<lambda>q. snd (queue_push ref q)) t1)" by (rule F_steps)
      have "schedules b (QueueCode c) v (TimeoutOver b (fst (queue_push ref (gs_queues t1 b))))" using e Some by (auto simp: schedules_def evalE_Ret)
      with t2 b have "F s (sim_schedule v (TimeoutOver b (fst (queue_push ref (gs_queues t1 b))))
          (on_queue b (\<lambda>q. snd (queue_push ref q)) t1))" by (rule F_scheduled)
      with call a show ?thesis by (rule F_advance)
    qed
  qed
qed

lemma F_queue_main:
  assumes call: "framed call" and b: "(b, QueueCode c) \<in> set (cm_blocks m)" and run: "queue_main m call b c ref t = Ret (ok, t')" and t: "F s t"
  shows "F s t'"
proof (cases "qc_capacity c")
  case None
  with run have "queue_store m call b c ref t = Ret (ok, t')" by (simp add: queue_main_def)
  with call b show ?thesis using t by (rule F_store)
next
  case (Some capacity)
  obtain n t0 where e: "evalE capacity no_ref t = Ret (n, t0)" and inner: "(if n \<le> sq_len (gs_queues t0 b) then
      (case qc_overflow c of
         None \<Rightarrow> Ret (False, t0)
       | Some nxt \<Rightarrow>
           call nxt ref (on_queue b (\<lambda>q. q\<lparr>sq_enterN := sq_enterN q + 1, sq_dropN := sq_dropN q + 1\<rparr>) t0))
      else queue_store m call b c ref t0) = Ret (ok, t')"
    using run Some unfolding queue_main_def by (simp add: bind_pair del: bindR_eq_Ret) blast
  have t0: "F s t0" using e t by (rule F_eval)
  show ?thesis
  proof (cases "n \<le> sq_len (gs_queues t0 b)")
    case False
    with inner have "queue_store m call b c ref t0 = Ret (ok, t')" by simp
    with call b show ?thesis using t0 by (rule F_store)
  next
    case True
    show ?thesis
    proof (cases "qc_overflow c")
      case None
      with True inner t0 show ?thesis by simp
    next
      case (Some nxt)
      with True inner have "call nxt ref (on_queue b (\<lambda>q. q\<lparr>sq_enterN := sq_enterN q + 1, sq_dropN := sq_dropN q + 1\<rparr>) t0) = Ret (ok, t')"
        by simp
      with call show ?thesis by (rule F_call) (intro F_steps t0)
    qed
  qed
qed

lemma F_delay_start:
  assumes b: "(b, DelayCode c) \<in> set (cm_blocks m)" and run: "delay_start b c ref t = Ret (ok, t')" and t: "F s t"
  shows "F s t'"
proof (cases "guard_ok (dc_guard c) ref")
  case True
  obtain v t1 where e: "evalE (dc_duration c) ref t = Ret (v, t1)"
    and t': "t' = sim_schedule v (DelayOver b ref)
      (on_delay b (\<lambda>d. if ds_maxBusy d < ds_busy d then d\<lparr>ds_maxBusy := ds_busy d\<rparr> else d)
        (on_delay b (\<lambda>d. d\<lparr>ds_enterN := ds_enterN d + 1, ds_busy := ds_busy d + 1\<rparr>) t1))"
    using run True unfolding delay_start_def Let_def by (simp add: bind_pair del: bindR_eq_Ret) blast
  have t1: "F s t1" using e t by (rule F_eval)
  have "schedules b (DelayCode c) v (DelayOver b ref)" using e by (auto simp: schedules_def evalE_Ret)
  with b show ?thesis unfolding t' by (intro F_scheduled F_steps t1)
qed (use run t in \<open>auto simp: delay_start_def intro: F_steps\<close>)

lemma F_delay_main:
  assumes b: "(b, DelayCode c) \<in> set (cm_blocks m)" and run: "delay_main b c ref t = Ret (ok, t')" and t: "F s t"
  shows "F s t'"
proof (cases "dc_capacity c")
  case None
  with run have "delay_start b c ref t = Ret (ok, t')" by (simp add: delay_main_def)
  with b show ?thesis using t by (rule F_delay_start)
next
  case (Some capacity)
  obtain n t0 where e: "evalE capacity no_ref t = Ret (n, t0)"
    and inner: "(if n \<le> ds_busy (gs_delays t0 b) then Ret (False, t0) else delay_start b c ref t0) = Ret (ok, t')"
    using run Some unfolding delay_main_def by (simp add: bind_pair del: bindR_eq_Ret) blast
  have "F s t0" using e t by (rule F_eval)
  with inner F_delay_start [OF b] show ?thesis by (auto split: if_splits)
qed

lemma F_seize:
  assumes call: "framed call" and run: "seize_main call b r nxt ref t = Ret (ok, t')" and t: "F s t"
  shows "F s t'"
proof (cases "rs_capacity (gs_resources t r) \<le> rs_busy (gs_resources t r)")
  case True
  with run t show ?thesis by (simp add: seize_main_def)
next
  case False
  obtain f g ok2 t1 where c: "call nxt ref (on_resource r f t) = Ret (ok2, t1)"
    and t': "t' = (if ok2 then on_resource r (\<lambda>x. x\<lparr>rs_seizeN := rs_seizeN x + 1\<rparr>) (passed b t1) else on_resource r g t1)"
    using run False unfolding seize_main_def Let_def
    by (auto simp: bind_pair simp del: bindR_eq_Ret split: if_splits)
  have "F s t1" using call c by (rule F_call) (intro F_steps t)
  then have "F s (on_resource r f' t1)" "F s (on_resource r f' (passed b t1))" for f'
    by (blast intro: F_trans F_resource F_passed)+
  then show ?thesis by (simp add: t')
qed

lemma F_release:
  assumes call: "framed call" and run: "release_main m call b r nxt wake ref t = Ret (ok, t')" and t: "F s t"
  shows "F s t'"
proof (cases "rs_busy (gs_resources t r) = 0")
  case True
  with run t show ?thesis by (auto simp: release_main_def intro: F_steps)
next
  case False
  obtain ok2 t1 where c: "call nxt ref (on_resource r (\<lambda>x. x\<lparr>rs_busy := rs_busy x - 1\<rparr>) t) = Ret (ok2, t1)"
    and out: "(if ok2 then bindR (wake_queues m call wake
          (on_resource r (\<lambda>x. x\<lparr>rs_releaseN := rs_releaseN x + 1\<rparr>) (passed b t1))) (\<lambda>s. Ret (True, s))
        else Ret (False, on_resource r (\<lambda>x. x\<lparr>rs_busy := rs_busy (gs_resources t r)\<rparr>) t1)) = Ret (ok, t')"
    using run False unfolding release_main_def Let_def by (simp add: bind_pair del: bindR_eq_Ret) blast
  have t1: "F s t1" using call c by (rule F_call) (intro F_steps t)
  show ?thesis
  proof (cases ok2)
    case True
    with out have "wake_queues m call wake (on_resource r (\<lambda>x. x\<lparr>rs_releaseN := rs_releaseN x + 1\<rparr>) (passed b t1)) = Ret t'"
      by simp
    with call show ?thesis by (rule F_wake) (intro F_steps F_passed t1)
  next
    case False
    with out t1 show ?thesis by (auto intro: F_steps)
  qed
qed

lemma F_assign_main:
  assumes call: "framed call" and run: "assign_main call b as nxt ref t = Ret (ok, t')" and t: "F s t"
  shows "F s t'"
proof -
  obtain undo t0 ok2 t1 where a: "assign_all as ref [] t = Ret (undo, t0)" and c: "call nxt ref t0 = Ret (ok2, t1)"
    and t': "t' = (if ok2 then passed b t1 else restore_all undo ref t1)"
    using run unfolding assign_main_def by (auto simp: bind_pair simp del: bindR_eq_Ret split: if_splits)
  have "F s t0" using a t by (rule F_assign)
  with call c have "F s t1" by (rule F_call)
  then show ?thesis by (simp add: t' F_passed F_restore)
qed

lemma F_terminate: "terminate_main m b ref t = Ret (ok, t') \<Longrightarrow> F s t \<Longrightarrow> F s t'"
  unfolding terminate_main_def by (auto dest!: F_free intro: F_trans [OF F_trans [OF _ F_counts]])

lemma F_block:
  assumes call: "framed call"
  shows "framed (block_step m call)"
  unfolding framed_def
proof (intro allI impI)
  fix b ref s ok s'
  assume run: "block_step m call b ref s = Ret (ok, s')"
  then obtain code where code: "block_of m b = Some code" by (cases "block_of m b") (auto simp: block_step_def)
  show "F s s'"
    using run code block_in_model [OF code] F_refl [of s] call
    by (cases code) (auto simp: block_step_def intro: F_queue_main F_delay_main F_seize F_release F_assign_main F_branch F_terminate)
qed

lemma F_enter: "framed (enter m n)"
proof (induction n)
  case 0
  then show ?case by (simp add: framed_def)
next
  case (Suc n)
  have "enter m (Suc n) = block_step m (enter m n)" by (intro ext) simp
  with F_block [OF Suc] show ?case by simp
qed

end

section \<open>Handlers\<close>

locale handler_frame = frame_rule +
  assumes F_create: "F s (on_create b cf s)"
    and F_alloc: "pool_alloc z (gs_pools s t) = (i, p) \<Longrightarrow>
      F s (s\<lparr>gs_pools := (gs_pools s)(t := p\<lparr>Entities := (Entities p)[k := vs]\<rparr>)\<rparr>)"
begin

lemma F_free_after: "sim_free m ref t = Ret t' \<Longrightarrow> F s t \<Longrightarrow> F s t'"
  by (blast intro: F_trans F_free)

lemma F_create_loop:
  assumes call: "framed call"
  shows "create_loop m call b c n t = Ret (r, t') \<Longrightarrow> F s t \<Longrightarrow> F s t'"
proof (induction n arbitrary: t)
  case (Suc n)
  obtain i p where al: "pool_alloc [] (gs_pools t (ct_entity c)) = (i, p)" by (cases "pool_alloc [] (gs_pools t (ct_entity c))")
  let ?ref = "\<lparr>ref_Type = ct_entity c, ref_Idx = i\<rparr>"
  let ?t1 = "on_create b (\<lambda>x. x\<lparr>cc_createdN := cc_createdN x + 1\<rparr>)
    (t\<lparr>gs_pools := (gs_pools t)(ct_entity c := p\<lparr>Entities := (Entities p)[unat i := ct_defaults c]\<rparr>)\<rparr>)"
  obtain ok t2 where c: "call (ct_next c) ?ref ?t1 = Ret (ok, t2)"
    and out: "(if ok then create_loop m call b c n (on_create b (\<lambda>x. x\<lparr>cc_exitN := cc_exitN x + 1\<rparr>) t2)
       else if gs_stop t2 then Ret (True, t2)
       else if ct_destroy c then
         bindR (sim_free m ?ref (on_create b (\<lambda>x. x\<lparr>cc_dropN := cc_dropN x + 1\<rparr>) t2)) (create_loop m call b c n)
       else Ret (True, sim_halt (block_stuck b) t2)) = Ret (r, t')"
    using Suc.prems(1) al by (simp add: bind_pair Let_def del: bindR_eq_Ret) blast
  have "F s ?t1" using Suc.prems(2) F_alloc [OF al] by (blast intro: F_trans F_create)
  with call c have t2: "F s t2" by (rule F_call)
  have created: "F s (on_create b f t2)" for f using t2 F_create by (rule F_trans)
  show ?case
  proof (cases "ok \<or> gs_stop t2 \<or> \<not> ct_destroy c")
    case True
    with out t2 created Suc.IH show ?thesis by (auto intro: F_steps split: if_splits)
  next
    case False
    with out obtain t3 where "sim_free m ?ref (on_create b (\<lambda>x. x\<lparr>cc_dropN := cc_dropN x + 1\<rparr>) t2) = Ret t3"
      and rest: "create_loop m call b c n t3 = Ret (r, t')" by auto
    from this(1) have "F s t3" using created by (rule F_free_after)
    with rest show ?thesis by (rule Suc.IH)
  qed
qed simp

lemma F_create_body: "framed call \<Longrightarrow> create_body m call b c t = Ret (r, t') \<Longrightarrow> F s t \<Longrightarrow> F s t'"
  unfolding create_body_def by (auto simp: bind_pair simp del: bindR_eq_Ret intro: F_create_loop F_eval)

lemma F_schedule_create:
  assumes "(b, CreateCode c) \<in> set (cm_blocks m)" "schedule_create b c t = Ret t'" "F s t"
  shows "F s t'"
proof -
  obtain v t1 where e: "evalE (ct_interval c) no_ref t = Ret (v, t1)" and t': "t' = sim_schedule v (CreateNow b) t1"
    using assms(2) unfolding schedule_create_def by auto
  have "F s t1" using e assms(3) by (rule F_eval)
  moreover have "schedules b (CreateCode c) v (CreateNow b)" using e by (auto simp: schedules_def evalE_Ret)
  ultimately show ?thesis using assms(1) unfolding t' by (intro F_scheduled)
qed

lemma F_create_main:
  assumes "framed call" "(b, CreateCode c) \<in> set (cm_blocks m)" "create_main m call b c t = Ret t'" "F s t"
  shows "F s t'"
  using assms unfolding create_main_def
  by (auto simp: bind_pair simp del: bindR_eq_Ret intro: F_create_body F_schedule_create split: if_splits)

lemma F_on_create:
  assumes "framed call" "(b, CreateCode c) \<in> set (cm_blocks m)" "on_create_event m call b c t = Ret t'" "F s t"
  shows "F s t'"
  using assms unfolding on_create_event_def
  by (auto simp: bind_pair simp del: bindR_eq_Ret intro: F_create_body F_create_main split: if_splits)

lemma F_on_delay:
  assumes call: "framed call" and run: "on_delay_event m call b c ref t = Ret t'" and t: "F s t"
  shows "F s t'"
proof -
  obtain ok t1 where c1: "call (dc_next c) ref t = Ret (ok, t1)"
    and out: "(if ok then wake_queues m call (dc_wake c)
         (on_delay b (\<lambda>d. if 0 < ds_busy d then d\<lparr>ds_busy := ds_busy d - 1\<rparr> else d)
           (on_delay b (\<lambda>d. d\<lparr>ds_exitN := ds_exitN d + 1\<rparr>) t1))
       else if gs_stop t1 then Ret t1
       else Ret (sim_halt (block_stuck b) t1)) = Ret t'"
    using run unfolding on_delay_event_def Let_def by (simp add: bind_pair del: bindR_eq_Ret) blast
  have t1: "F s t1" using call c1 t by (rule F_call)
  have "F s (on_delay b g (on_delay b f t1))" for f g by (intro F_steps t1)
  with F_wake [OF call] out t1 show ?thesis by (auto intro: F_steps split: if_splits)
qed

lemma F_on_timeout:
  assumes call: "framed call" and run: "on_timeout_event m call b c i t = Ret t'" and t: "F s t"
  shows "F s t'"
proof -
  obtain r q where g: "queue_get i (gs_queues t b) = (r, q)" by (cases "queue_get i (gs_queues t b)")
  show ?thesis
  proof (cases r)
    case None
    with run g t show ?thesis by (auto simp: on_timeout_event_def intro: F_steps)
  next
    case (Some ref)
    obtain ok t1 where c1: "call (qc_next_timeout c) ref
          (on_queue b (\<lambda>x. x\<lparr>sq_timeoutN := sq_timeoutN x + 1\<rparr>) (on_queue b (\<lambda>_. q) t)) = Ret (ok, t1)"
      and out: "(if ok \<or> gs_stop t1 then Ret t1
        else Ret (sim_halt (timeout_stuck b) t1)) = Ret t'"
      using run g Some unfolding on_timeout_event_def by (simp add: bind_pair del: bindR_eq_Ret) blast
    have "F s t1" using call c1 by (rule F_call) (intro F_steps t)
    with out show ?thesis by (auto intro: F_steps split: if_splits)
  qed
qed

text \<open>The handler of every event keeps the frame, and so does the start of the CREATE blocks.\<close>

lemma handle_frame:
  assumes "sim_handle m (enter m n) h s = Ret s'"
  shows "F s s'"
  using assms F_enter [of n] F_refl [of s]
  by (auto simp: sim_handle_def intro: F_on_create block_in_model F_on_delay F_on_timeout
      split: sim_handler.splits option.splits block_code.splits)

lemma start_frame:
  "start_blocks m (enter m n) bs t = Ret t' \<Longrightarrow> set bs \<subseteq> set (cm_blocks m) \<Longrightarrow> F s t \<Longrightarrow> F s t'"
proof (induction bs arbitrary: t)
  case (Cons p bs)
  obtain b code where p: "p = (b, code)" by (cases p)
  show ?case
  proof (cases code)
    case (CreateCode c)
    then obtain t1 where c: "create_main m (enter m n) b c t = Ret t1" and rest: "start_blocks m (enter m n) bs t1 = Ret t'"
      using Cons.prems(1) p by auto
    have "(b, CreateCode c) \<in> set (cm_blocks m)" using Cons.prems(2) p CreateCode by simp
    with F_enter have "F s t1" using c Cons.prems(3) by (rule F_create_main)
    with rest show ?thesis using Cons.prems(2) by (intro Cons.IH) simp_all
  qed (use Cons p in auto)
qed simp

end

section \<open>Frames\<close>

text \<open>The stop of the run is for good.\<close>

interpretation stops: handler_frame m "\<lambda>s t. gs_stop s \<longrightarrow> gs_stop t"
  by unfold_locales (auto simp: sim_halt_def on_queue_def on_delay_def on_resource_def on_create_def sim_schedule_def
      write_target_def set_field_def Let_def sim_free_def split: assign_target.splits option.splits)

text \<open>Pools do not shrink.\<close>

definition pools_grow :: "'g gstate \<Rightarrow> 'g gstate \<Rightarrow> bool" where
  "pools_grow s t \<longleftrightarrow> (\<forall>x. length (Entities (gs_pools s x)) \<le> length (Entities (gs_pools t x)))"

interpretation pools: handler_frame m pools_grow
proof (unfold_locales, goal_cases)
  case (11 ref s s')
  then show ?case
    by (auto simp: pools_grow_def sim_free_def sim_halt_def pool_free_def split: option.splits if_splits)
next
  case (13 z s t i p k vs)
  then show ?case by (auto simp: pools_grow_def elim: pool_alloc_cases)
qed (auto simp: pools_grow_def sim_halt_def on_queue_def on_delay_def on_resource_def on_create_def sim_schedule_def
      write_target_def set_field_def Let_def intro: order_trans split: assign_target.splits)

end
