(* ===== verification/Sim_Places.thy ===== *)
theory Sim_Places
  imports Sim_Frame "HOL-Library.Multiset"
begin

text \<open>
  Where the entities of a generated simulator are: live in a pool, and waiting in a queue or in
  the event that ends a delay. A change of the state is \<open>moved\<close> when it neither loses an entity
  nor has one in two places, and when the counters of the blocks account for it.
\<close>

section \<open>Places\<close>

definition vrefs :: "sim_queue \<Rightarrow> entity_ref list" where
  "vrefs q = map qs_ref (filter qs_valid (sq_arr q))"

definition delay_refs :: "sim_handler event \<Rightarrow> entity_ref multiset" where
  "delay_refs e = (case Handler e of Some (DelayOver b ref) \<Rightarrow> {#ref#} | _ \<Rightarrow> {#})"

definition refs_at :: "string \<Rightarrow> sim_handler event \<Rightarrow> entity_ref multiset" where
  "refs_at b e = (case Handler e of Some (DelayOver c ref) \<Rightarrow> if c = b then {#ref#} else {#} | _ \<Rightarrow> {#})"

definition delayed :: "'g gstate \<Rightarrow> entity_ref multiset" where
  "delayed s = (\<Sum>e\<in>#mset (gs_events s). delay_refs e)"

definition delayed_at :: "string \<Rightarrow> 'g gstate \<Rightarrow> entity_ref multiset" where
  "delayed_at b s = (\<Sum>e\<in>#mset (gs_events s). refs_at b e)"

text \<open>The entities in the queues below a rank, and in the delays.\<close>

definition below :: "'g code_model \<Rightarrow> (string \<Rightarrow> nat) \<Rightarrow> nat \<Rightarrow> string set" where
  "below m rank k = {q. (\<exists>c. block_of m q = Some (QueueCode c)) \<and> rank q < k}"

definition places :: "'g code_model \<Rightarrow> (string \<Rightarrow> nat) \<Rightarrow> nat \<Rightarrow> 'g gstate \<Rightarrow> entity_ref multiset" where
  "places m rank k s = (\<Sum>q\<in>below m rank k. mset (vrefs (gs_queues s q))) + delayed s"

definition live_refs :: "'g gstate \<Rightarrow> entity_ref set" where
  "live_refs s = {ref. ref_Idx ref \<in> pool_live (gs_pools s (ref_Type ref))}"

definition live :: "'g gstate \<Rightarrow> entity_ref multiset" where
  "live s = mset_set (live_refs s)"

definition sane :: "'g code_model \<Rightarrow> 'g gstate \<Rightarrow> bool" where
  "sane m s \<longleftrightarrow> (\<forall>t. pool_ok (gs_pools s t)) \<and> (\<forall>t. pool_live (gs_pools s t) \<noteq> {} \<longrightarrow> cm_zero m t \<noteq> None)"

section \<open>Counters\<close>

text \<open>What the statistics of a CREATE or a TERMINATE say about the number of entities.\<close>

definition block_flow :: "'g gstate \<Rightarrow> string \<times> 'g block_code \<Rightarrow> u64" where
  "block_flow s p = (case snd p of
       CreateCode _ \<Rightarrow> cc_createdN (gs_creates s (fst p)) - cc_dropN (gs_creates s (fst p))
     | TerminateCode \<Rightarrow> - fc_enterN (gs_counts s (fst p))
     | _ \<Rightarrow> 0)"

definition flow :: "'g code_model \<Rightarrow> 'g gstate \<Rightarrow> u64" where
  "flow m s = (\<Sum>p\<leftarrow>cm_blocks m. block_flow s p)"

definition queue_slack :: "'g gstate \<Rightarrow> string \<Rightarrow> u64" where
  "queue_slack s q = sq_len (gs_queues s q) - of_nat (length (vrefs (gs_queues s q)))"

definition delay_slack :: "'g gstate \<Rightarrow> string \<Rightarrow> u64" where
  "delay_slack s b = ds_busy (gs_delays s b) - of_nat (size (delayed_at b s))"

definition flow_slack :: "'g code_model \<Rightarrow> 'g gstate \<Rightarrow> u64" where
  "flow_slack m s = flow m s - of_nat (size (live s))"

definition books_agree :: "'g code_model \<Rightarrow> 'g gstate \<Rightarrow> 'g gstate \<Rightarrow> bool" where
  "books_agree m s s' \<longleftrightarrow> queue_slack s' = queue_slack s \<and> delay_slack s' = delay_slack s \<and> flow_slack m s' = flow_slack m s"

section \<open>Moves\<close>

definition kept_above :: "(string \<Rightarrow> nat) \<Rightarrow> nat \<Rightarrow> 'g gstate \<Rightarrow> 'g gstate \<Rightarrow> bool" where
  "kept_above rank k s s' \<longleftrightarrow>
     (\<forall>q. k \<le> rank q \<longrightarrow> vrefs (gs_queues s' q) = vrefs (gs_queues s q) \<and> sq_len (gs_queues s' q) = sq_len (gs_queues s q))"

text \<open>\<open>M\<close> are the entities that come from outside, and that are in a place or freed now.\<close>

definition moved :: "'g code_model \<Rightarrow> (string \<Rightarrow> nat) \<Rightarrow> nat \<Rightarrow> entity_ref multiset \<Rightarrow> 'g gstate \<Rightarrow> 'g gstate \<Rightarrow> bool" where
  "moved m rank k M s s' \<longleftrightarrow>
     sane m s' \<and> kept_above rank k s s' \<and>
     places m rank k s' + live s = places m rank k s + M + live s' \<and>
     books_agree m s s' \<and> (gs_stop s \<longrightarrow> gs_stop s') \<and> (\<forall>t. length (Entities (gs_pools s t)) \<le> length (Entities (gs_pools s' t)))"

lemma mset_balance:
  fixes A :: "'a multiset"
  assumes "B + A = C + M + D" "E + D = B + N + F"
  shows "E + A = C + (M + N) + F"
proof (rule multiset_eqI)
  fix x
  show "count (E + A) x = count (C + (M + N) + F) x"
    using arg_cong [OF assms(1), of "\<lambda>Y. count Y x"] arg_cong [OF assms(2), of "\<lambda>Y. count Y x"] by simp
qed

lemma moved_trans:
  assumes 1: "moved m rank k M s s1" and 2: "moved m rank k N s1 s2"
  shows "moved m rank k (M + N) s s2"
  unfolding moved_def
proof (intro conjI)
  show "sane m s2" using 2 by (simp add: moved_def)
  show "kept_above rank k s s2" using 1 2 by (simp add: moved_def kept_above_def)
  show "places m rank k s2 + live s = places m rank k s + (M + N) + live s2"
    using 1 2 unfolding moved_def by (elim conjE) (rule mset_balance)
  show "books_agree m s s2" using 1 2 by (simp add: moved_def books_agree_def)
  show "gs_stop s \<longrightarrow> gs_stop s2" using 1 2 by (simp add: moved_def)
  show "\<forall>t. length (Entities (gs_pools s t)) \<le> length (Entities (gs_pools s2 t))"
    using 1 2 unfolding moved_def by (meson order_trans)
qed

lemma moved_fits:
  assumes "moved m rank k M s s1" "places m rank k s + (M + N) \<subseteq># live s"
  shows "places m rank k s1 + N \<subseteq># live s1"
proof (rule mset_subset_eqI)
  fix x
  have "places m rank k s1 + live s = places m rank k s + M + live s1" using assms(1) by (simp add: moved_def)
  from arg_cong [OF this, of "\<lambda>Y. count Y x"] mset_subset_eq_count [OF assms(2), of x]
  show "count (places m rank k s1 + N) x \<le> count (live s1) x" by simp
qed

lemma moved_sane: "moved m rank k M s s' \<Longrightarrow> sane m s'"
  by (simp add: moved_def)

section \<open>Queues\<close>

lemma vrefs_drop [simp]: "vrefs (drop_invalid q) = vrefs q"
proof -
  have "filter qs_valid (dropWhile (\<lambda>s. \<not> qs_valid s) xs) = filter qs_valid xs" for xs :: "queue_slot list"
    by (induction xs) auto
  then show ?thesis by (simp add: vrefs_def drop_invalid_def)
qed

lemma drop_invalid_cases: "sq_arr (drop_invalid q) = x # xs \<Longrightarrow> vrefs q = qs_ref x # map qs_ref (filter qs_valid xs)"
  using vrefs_drop [of q] drop_invalid_front [of q x xs] by (simp add: vrefs_def)

lemma vrefs_push: "vrefs (snd (queue_push r q)) = vrefs q @ [r] \<and> sq_len (snd (queue_push r q)) = sq_len q + 1"
  by (simp add: queue_push_def Let_def vrefs_def)

lemma vrefs_top: "queue_top q = (r, q1) \<Longrightarrow> vrefs q1 = vrefs q \<and> sq_len q1 = sq_len q"
  by (auto simp: queue_top_def Let_def split: list.splits if_splits)

lemma vrefs_top_Some: "queue_top q = (Some r, q1) \<Longrightarrow> (\<exists>rs. vrefs q = r # rs) \<and> sq_len q \<noteq> 0"
  by (auto simp: queue_top_def Let_def dest: drop_invalid_cases split: list.splits if_splits)

lemma vrefs_delete:
  assumes "vrefs q = r # rs" "sq_len q \<noteq> 0"
  shows "vrefs (queue_delete q) = rs \<and> sq_len (queue_delete q) = sq_len q - 1"
proof (cases "sq_arr (drop_invalid q)")
  case Nil
  with assms(1) vrefs_drop [of q] show ?thesis by (simp add: vrefs_def)
next
  case (Cons x xs)
  have "0 < sq_len q" using assms(2) by (simp add: word_gt_0)
  with Cons drop_invalid_cases [OF Cons] assms show ?thesis
    by (simp add: queue_delete_def Let_def vrefs_def)
qed

lemma filter_unmark:
  assumes "i < length xs" "qs_valid (xs ! i)"
  shows "mset (map qs_ref (filter qs_valid xs)) =
    add_mset (qs_ref (xs ! i)) (mset (map qs_ref (filter qs_valid (xs[i := (xs ! i)\<lparr>qs_valid := False\<rparr>]))))"
proof -
  have "xs = take i xs @ xs ! i # drop (Suc i) xs" using assms(1) by (rule id_take_nth_drop)
  then have "map qs_ref (filter qs_valid xs) = map qs_ref (filter qs_valid (take i xs @ xs ! i # drop (Suc i) xs))" by simp
  with assms show ?thesis by (simp add: upd_conv_take_nth_drop)
qed

lemma vrefs_get_None: "queue_get i q = (None, q1) \<Longrightarrow> q1 = q"
  by (auto simp: queue_get_def Let_def split: if_splits)

lemma queue_get_position:
  assumes "queue_get i q = (Some r, q1)"
  obtains k where "k < length (sq_arr q)" "qs_valid (sq_arr q ! k)" "r = qs_ref (sq_arr q ! k)"
    "sq_arr q1 = (sq_arr q)[k := (sq_arr q ! k)\<lparr>qs_valid := False\<rparr>]"
    "sq_len q1 = (if 0 < sq_len q then sq_len q - 1 else sq_len q)"
proof -
  let ?pos = "i - (sq_total q - word_of_nat (length (sq_arr q)))"
  have pos: "?pos < word_of_nat (length (sq_arr q))" and v: "qs_valid (sq_arr q ! unat ?pos)"
    using assms by (auto simp: queue_get_def Let_def not_le split: if_splits)
  have "unat ?pos < unat (word_of_nat (length (sq_arr q)) :: u64)" using pos by (simp add: word_less_nat_alt)
  also have "\<dots> \<le> length (sq_arr q)" by (simp add: unsigned_of_nat take_bit_eq_mod)
  finally have "unat ?pos < length (sq_arr q)" .
  then show thesis
    using assms pos v by (intro that [of "unat ?pos"]) (auto simp: queue_get_def Let_def split: if_splits)
qed

lemma vrefs_get_Some:
  assumes "queue_get i q = (Some r, q1)"
  shows "mset (vrefs q) = add_mset r (mset (vrefs q1)) \<and>
    sq_len q1 = (if 0 < sq_len q then sq_len q - 1 else sq_len q)"
  using assms by (rule queue_get_position) (simp add: vrefs_def filter_unmark del: mset_map mset_filter)

section \<open>Sums\<close>

lemma finite_live [simp]: "finite (live_refs s)"
proof -
  have "(UNIV :: entity_ref set) = range (\<lambda>(t, i). \<lparr>ref_Type = t, ref_Idx = i\<rparr>)"
  proof (rule sym, rule surjI)
    show "(case (ref_Type r, ref_Idx r) of (t, i) \<Rightarrow> \<lparr>ref_Type = t, ref_Idx = i\<rparr>) = r" for r :: entity_ref by simp
  qed
  then have "finite (UNIV :: entity_ref set)" by (metis finite finite_imageI)
  then show ?thesis by (rule finite_subset [rotated]) simp
qed

lemma finite_below [simp]: "finite (below m rank k)"
proof -
  have "below m rank k \<subseteq> fst ` set (cm_blocks m)"
    by (force simp: below_def block_of_def dest: map_of_SomeD)
  then show ?thesis by (rule finite_subset) simp
qed

lemma live_cong: "(\<And>t. pool_live (gs_pools s' t) = pool_live (gs_pools s t)) \<Longrightarrow> live s' = live s"
  by (simp add: live_def live_refs_def)

lemma refs_at_le: "refs_at b e \<subseteq># delay_refs e"
  by (simp add: refs_at_def delay_refs_def split: option.split sim_handler.split)

lemma delayed_at_le: "delayed_at b s \<subseteq># delayed s"
proof -
  have "(\<Sum>e\<in>#E. refs_at b e) \<subseteq># (\<Sum>e\<in>#E. delay_refs e)" for E
    by (induction E) (auto intro: subset_mset.add_mono refs_at_le)
  then show ?thesis by (simp add: delayed_at_def delayed_def)
qed

lemma delayed_schedule:
  "delayed (sim_schedule t h s) = delayed s + (case h of DelayOver b ref \<Rightarrow> {#ref#} | _ \<Rightarrow> {#})"
  "delayed_at c (sim_schedule t h s) =
     delayed_at c s + (case h of DelayOver b ref \<Rightarrow> if b = c then {#ref#} else {#} | _ \<Rightarrow> {#})"
  by (simp_all add: delayed_def delayed_at_def sim_schedule_def mset_eq_push delay_refs_def refs_at_def
      split: sim_handler.split)

lemma places_queue:
  assumes "b \<in> below m rank k" "delayed s' = delayed s" "\<And>q. q \<noteq> b \<Longrightarrow> vrefs (gs_queues s' q) = vrefs (gs_queues s q)"
  shows "places m rank k s' + mset (vrefs (gs_queues s b)) = places m rank k s + mset (vrefs (gs_queues s' b))"
proof -
  have "(\<Sum>q\<in>below m rank k - {b}. mset (vrefs (gs_queues s' q))) = (\<Sum>q\<in>below m rank k - {b}. mset (vrefs (gs_queues s q)))"
    using assms(3) by (intro sum.cong) auto
  with assms show ?thesis
    unfolding places_def by (simp add: sum.remove [OF finite_below assms(1)])
qed

lemma places_upto:
  assumes "j \<le> k"
  shows "places m rank k s = places m rank j s + (\<Sum>q\<in>below m rank k - below m rank j. mset (vrefs (gs_queues s q)))"
proof -
  have u: "below m rank k = below m rank j \<union> (below m rank k - below m rank j)"
    using assms by (auto simp: below_def)
  have "(\<Sum>q\<in>below m rank k. f q) =
      (\<Sum>q\<in>below m rank j. f q) + (\<Sum>q\<in>below m rank k - below m rank j. f q)" for f :: "string \<Rightarrow> entity_ref multiset"
    using sum.union_disjoint [of "below m rank j" "below m rank k - below m rank j" f] u by simp
  then show ?thesis unfolding places_def by simp
qed

text \<open>The part of the places that a call below rank \<open>j\<close> cannot see does not change.\<close>

lemma places_split:
  assumes "j \<le> k" "kept_above rank j s s'"
  shows "places m rank k s' + places m rank j s = places m rank k s + places m rank j s'"
proof -
  have "(\<Sum>q\<in>below m rank k - below m rank j. mset (vrefs (gs_queues s' q))) =
      (\<Sum>q\<in>below m rank k - below m rank j. mset (vrefs (gs_queues s q)))"
    using assms(2) by (intro sum.cong) (auto simp: below_def kept_above_def)
  then show ?thesis unfolding places_upto [OF assms(1)] by simp
qed

lemma moved_lift:
  assumes mv: "moved m rank j M s s'" and jk: "j \<le> k"
  shows "moved m rank k M s s'"
proof -
  have above: "kept_above rank j s s'" using mv by (simp add: moved_def)
  have "places m rank k s' + live s = places m rank k s + M + live s'"
  proof (rule multiset_eqI)
    fix x
    have "places m rank j s' + live s = places m rank j s + M + live s'" using mv by (simp add: moved_def)
    from arg_cong [OF this, of "\<lambda>Y. count Y x"] arg_cong [OF places_split [OF jk above], of "\<lambda>Y. count Y x" m]
    show "count (places m rank k s' + live s) x = count (places m rank k s + M + live s') x" by simp
  qed
  moreover have "kept_above rank k s s'" using above jk by (simp add: kept_above_def)
  ultimately show ?thesis using mv by (simp add: moved_def)
qed

lemma places_mono: "j \<le> k \<Longrightarrow> places m rank j s \<subseteq># places m rank k s"
  by (simp add: places_upto)

section \<open>Steps that move nothing\<close>

definition distinct_blocks :: "'g code_model \<Rightarrow> bool" where
  "distinct_blocks m \<longleftrightarrow> distinct (map fst (cm_blocks m))"

lemma block_of_iff: "distinct_blocks m \<Longrightarrow> block_of m b = Some c \<longleftrightarrow> (b, c) \<in> set (cm_blocks m)"
  by (simp add: distinct_blocks_def block_of_def)

definition unmoved :: "'g code_model \<Rightarrow> 'g gstate \<Rightarrow> 'g gstate \<Rightarrow> bool" where
  "unmoved m s s' \<longleftrightarrow>
     (\<forall>q. vrefs (gs_queues s' q) = vrefs (gs_queues s q) \<and> sq_len (gs_queues s' q) = sq_len (gs_queues s q)) \<and>
     delayed s' = delayed s \<and> (\<forall>b. delayed_at b s' = delayed_at b s) \<and>
     (\<forall>t. FreeList (gs_pools s' t) = FreeList (gs_pools s t) \<and>
        length (Entities (gs_pools s' t)) = length (Entities (gs_pools s t))) \<and>
     (\<forall>b. ds_busy (gs_delays s' b) = ds_busy (gs_delays s b)) \<and> (gs_stop s \<longrightarrow> gs_stop s') \<and>
     (\<forall>b. cc_createdN (gs_creates s' b) = cc_createdN (gs_creates s b) \<and> cc_dropN (gs_creates s' b) = cc_dropN (gs_creates s b)) \<and>
     (\<forall>b. block_of m b = Some TerminateCode \<longrightarrow> fc_enterN (gs_counts s' b) = fc_enterN (gs_counts s b))"

lemma unmoved_trans: "unmoved m s t \<Longrightarrow> unmoved m t u \<Longrightarrow> unmoved m s u"
  by (simp add: unmoved_def)

lemma unmoved_refl [simp]: "unmoved m s s"
  by (simp add: unmoved_def)

lemma pool_live_cong: "FreeList p = FreeList q \<Longrightarrow> length (Entities p) = length (Entities q) \<Longrightarrow> pool_live p = pool_live q"
  by (simp add: pool_live_def)

lemma flow_cong:
  assumes "distinct_blocks m"
    and "\<And>b c. block_of m b = Some (CreateCode c) \<Longrightarrow>
      cc_createdN (gs_creates s' b) - cc_dropN (gs_creates s' b) = cc_createdN (gs_creates s b) - cc_dropN (gs_creates s b)"
    and "\<And>b. block_of m b = Some TerminateCode \<Longrightarrow> fc_enterN (gs_counts s' b) = fc_enterN (gs_counts s b)"
  shows "flow m s' = flow m s"
  unfolding flow_def
proof (intro arg_cong [where f = sum_list] map_cong refl)
  fix p
  assume p: "p \<in> set (cm_blocks m)"
  obtain b code where [simp]: "p = (b, code)" by (cases p)
  have "block_of m b = Some code" using p assms(1) by (simp add: block_of_iff)
  then show "block_flow s' p = block_flow s p" using assms(2,3) by (cases code) (simp_all add: block_flow_def)
qed

lemma unmoved_moved:
  assumes m: "distinct_blocks m" and s: "sane m s" and u: "unmoved m s s'"
  shows "moved m rank k {#} s s'"
proof -
  have lv: "pool_live (gs_pools s' t) = pool_live (gs_pools s t)" for t
    using u by (intro pool_live_cong) (simp_all add: unmoved_def)
  have live: "live s' = live s" using lv by (rule live_cong)
  have "pool_ok (gs_pools s' t) = pool_ok (gs_pools s t)" for t using u by (simp add: unmoved_def pool_ok_def)
  then have "sane m s'" using s by (simp add: sane_def lv)
  moreover have "flow m s' = flow m s" using m u by (intro flow_cong) (simp_all add: unmoved_def)
  moreover have "places m rank k s' = places m rank k s" using u by (simp add: places_def unmoved_def)
  ultimately show ?thesis
    using u live by (simp add: moved_def kept_above_def books_agree_def unmoved_def
        fun_eq_iff queue_slack_def delay_slack_def flow_slack_def)
qed

lemma unmoved_simps [simp]:
  "unmoved m s (t\<lparr>gs_rng := g\<rparr>) = unmoved m s t"
  "unmoved m s t \<Longrightarrow> unmoved m s (sim_halt r t)"
  "unmoved m s (on_resource x f t) = unmoved m s t"
  "unmoved m s (t\<lparr>gs_vars := vs\<rparr>) = unmoved m s t"
  "unmoved m s (t\<lparr>gs_clock := c\<rparr>) = unmoved m s t"
  by (simp_all add: unmoved_def sim_halt_def on_resource_def delayed_def delayed_at_def)

lemma unmoved_passed: "block_of m b \<noteq> Some TerminateCode \<Longrightarrow> unmoved m s (passed b t) = unmoved m s t"
  by (auto simp: unmoved_def passed_def delayed_def delayed_at_def)

lemma unmoved_queue:
  "(\<And>q. vrefs (f q) = vrefs q \<and> sq_len (f q) = sq_len q) \<Longrightarrow> unmoved m s (on_queue b f t) = unmoved m s t"
  by (auto simp: unmoved_def on_queue_def delayed_def delayed_at_def fun_upd_def)

lemma unmoved_counter [simp]:
  "unmoved m s (on_queue b (\<lambda>q. q\<lparr>sq_enterN := x q\<rparr>) t) = unmoved m s t"
  "unmoved m s (on_queue b (\<lambda>q. q\<lparr>sq_enterN := x q, sq_dropN := y q\<rparr>) t) = unmoved m s t"
  "unmoved m s (on_queue b (\<lambda>q. q\<lparr>sq_exitN := x q\<rparr>) t) = unmoved m s t"
  "unmoved m s (on_queue b (\<lambda>q. q\<lparr>sq_timeoutN := x q\<rparr>) t) = unmoved m s t"
  by (simp_all add: unmoved_queue vrefs_def)

lemma unmoved_queue_top:
  assumes "queue_top (gs_queues t b) = (r, q1)"
  shows "unmoved m s (on_queue b (\<lambda>_. q1) t) = unmoved m s t"
proof -
  have "vrefs (((gs_queues t)(b := q1)) q) = vrefs (gs_queues t q)"
    "sq_len (((gs_queues t)(b := q1)) q) = sq_len (gs_queues t q)" for q
    using vrefs_top [OF assms] by simp_all
  then show ?thesis by (simp add: unmoved_def on_queue_def delayed_def delayed_at_def del: fun_upd_apply)
qed

lemma unmoved_write: "unmoved m s (write_target x v ref t) = unmoved m s t"
  by (cases x) (auto simp: unmoved_def write_target_def set_field_def Let_def delayed_def delayed_at_def)

lemma unmoved_assign: "assign_all as ref undo0 t = Ret (undo, t1) \<Longrightarrow> unmoved m s t1 = unmoved m s t"
proof (induction as arbitrary: undo0 t)
  case (Cons a as)
  show ?case
  proof (cases "guard_ok (ac_guard a) ref")
    case False
    with Cons show ?thesis by simp
  next
    case True
    from Cons.prems [unfolded assign_all_Cons [OF True]] obtain old v g where
      rest: "assign_all as ref ((ac_target a, old) # undo0) (write_target (ac_target a) v ref (t\<lparr>gs_rng := g\<rparr>)) = Ret (undo, t1)"
      by blast
    from Cons.IH [OF rest] show ?thesis by (simp add: unmoved_write)
  qed
qed simp

lemma untouched_unmoved: "untouched s s' \<Longrightarrow> unmoved m s s'"
  by (auto simp: untouched_def unmoved_def queue_core_def vrefs_def delayed_def delayed_at_def)

lemma unmoved_schedule [simp]:
  "unmoved m s (sim_schedule x (CreateNow b) t) = unmoved m s t"
  "unmoved m s (sim_schedule x (TimeoutOver b i) t) = unmoved m s t"
  by (simp_all add: unmoved_def delayed_schedule) (simp_all add: sim_schedule_def)

end
