(* ===== verification/Sim_Conserve.thy ===== *)
theory Sim_Conserve
  imports Sim_Places
begin

text \<open>
  Generated simulators keep their entities: a call of a block's function puts the entity it is
  given in one place or frees it, and nothing else appears or disappears.
\<close>

section \<open>Elementary moves\<close>

lemma moved_refl: "distinct_blocks m \<Longrightarrow> sane m s \<Longrightarrow> moved m rank k {#} s s"
  by (rule unmoved_moved [OF _ _ unmoved_refl])

lemma flow_only: "gs_creates s' = gs_creates s \<Longrightarrow> gs_counts s' = gs_counts s \<Longrightarrow> flow m s' = flow m s"
proof -
  assume "gs_creates s' = gs_creates s" "gs_counts s' = gs_counts s"
  then have "block_flow s' p = block_flow s p" for p by (cases "snd p") (simp_all add: block_flow_def)
  then show ?thesis by (simp add: flow_def)
qed

lemma mset_swap_out:
  fixes A :: "'a multiset"
  assumes "T + V = P + W" "P + A = B + M + C" "M + W = N + V"
  shows "T + A = B + N + C"
proof (rule multiset_eqI)
  fix x
  show "count (T + A) x = count (B + N + C) x"
    using arg_cong [OF assms(1), of "\<lambda>Y. count Y x"] arg_cong [OF assms(2), of "\<lambda>Y. count Y x"]
      arg_cong [OF assms(3), of "\<lambda>Y. count Y x"] by simp
qed

lemma moved_queue:
  assumes mv: "moved m rank k M s s1" and b: "b \<in> below m rank k"
    and len: "sq_len (f (gs_queues s1 b)) - of_nat (length (vrefs (f (gs_queues s1 b)))) = queue_slack s1 b"
    and bal: "M + mset (vrefs (f (gs_queues s1 b))) = N + mset (vrefs (gs_queues s1 b))"
  shows "moved m rank k N s (on_queue b f s1)"
proof -
  define t where "t = on_queue b f s1"
  have q: "gs_queues t = (gs_queues s1)(b := f (gs_queues s1 b))" and p: "gs_pools t = gs_pools s1"
    and d: "delayed t = delayed s1" "\<And>c. delayed_at c t = delayed_at c s1" "gs_delays t = gs_delays s1"
    and l: "live t = live s1"
    by (simp_all add: t_def on_queue_def delayed_def delayed_at_def live_def live_refs_def)
  have fl: "flow m t = flow m s1" by (rule flow_only) (simp_all add: t_def on_queue_def)
  have "places m rank k t + mset (vrefs (gs_queues s1 b)) = places m rank k s1 + mset (vrefs (f (gs_queues s1 b)))"
    using places_queue [OF b, of t s1] d q by simp
  moreover have "places m rank k s1 + live s = places m rank k s + M + live s1" using mv by (simp add: moved_def)
  ultimately have "places m rank k t + live s = places m rank k s + N + live s1" using bal by (rule mset_swap_out)
  moreover have "queue_slack t = queue_slack s1"
  proof
    show "queue_slack t c = queue_slack s1 c" for c
      using len by (cases "c = b") (simp_all add: queue_slack_def q)
  qed
  then have "books_agree m s1 t"
    by (simp add: books_agree_def delay_slack_def [abs_def] flow_slack_def d fl l)
  moreover have "rank b < k" using b by (simp add: below_def)
  then have "kept_above rank k s t" using mv by (auto simp: moved_def kept_above_def q)
  moreover have "sane m t" using mv by (simp add: moved_def sane_def p)
  moreover have "gs_stop t = gs_stop s1" by (simp add: t_def on_queue_def)
  ultimately show ?thesis using mv by (simp add: moved_def p l books_agree_def flip: t_def)
qed

text \<open>A move whose start has been prepared from another state.\<close>

lemma moved_start:
  assumes mv: "moved m rank k M s1 s2" and above: "kept_above rank k s s1" and books: "books_agree m s s1"
    and stop: "gs_stop s \<Longrightarrow> gs_stop s1"
    and len: "\<And>t. length (Entities (gs_pools s t)) \<le> length (Entities (gs_pools s1 t))"
    and bal: "places m rank k s + N + live s1 = places m rank k s1 + M + live s"
  shows "moved m rank k N s s2"
proof -
  have "places m rank k s2 + live s = places m rank k s + N + live s2"
  proof (rule multiset_eqI)
    fix x
    have "places m rank k s2 + live s1 = places m rank k s1 + M + live s2" using mv by (simp add: moved_def)
    from arg_cong [OF this, of "\<lambda>Y. count Y x"] arg_cong [OF bal, of "\<lambda>Y. count Y x"]
    show "count (places m rank k s2 + live s) x = count (places m rank k s + N + live s2) x" by simp
  qed
  moreover have "length (Entities (gs_pools s t)) \<le> length (Entities (gs_pools s2 t))" for t
    using len [of t] mv unfolding moved_def by (meson order_trans)
  ultimately show ?thesis using mv above books stop by (simp add: moved_def kept_above_def books_agree_def)
qed

lemma moved_push:
  assumes "distinct_blocks m" "sane m s" "b \<in> below m rank k"
  shows "moved m rank k {#ref#} s (on_queue b (\<lambda>q. snd (queue_push ref q)) s)"
  using moved_refl [OF assms(1,2)] assms(3)
  by (rule moved_queue) (simp_all add: vrefs_push queue_slack_def)

lemma moved_delay:
  assumes m: "distinct_blocks m" and s: "sane m s" and f: "\<And>d. ds_busy (f d) = ds_busy d + 1"
  shows "moved m rank k {#ref#} s (sim_schedule t (DelayOver b ref) (on_delay b f s))"
proof -
  define s0 where "s0 = on_delay b f s"
  define s1 where "s1 = sim_schedule t (DelayOver b ref) s0"
  have "delayed s0 = delayed s" "\<And>c. delayed_at c s0 = delayed_at c s"
    by (simp_all add: s0_def delayed_def delayed_at_def on_delay_def)
  then have d: "delayed s1 = delayed s + {#ref#}"
    "\<And>c. delayed_at c s1 = delayed_at c s + (if b = c then {#ref#} else {#})"
    by (simp_all add: s1_def delayed_schedule)
  have q: "gs_queues s1 = gs_queues s" and p: "gs_pools s1 = gs_pools s"
    and dl: "gs_delays s1 = (gs_delays s)(b := f (gs_delays s b))" and l: "live s1 = live s"
    by (simp_all add: s1_def s0_def sim_schedule_def on_delay_def live_def live_refs_def)
  have fl: "flow m s1 = flow m s" by (rule flow_only) (simp_all add: s1_def s0_def sim_schedule_def on_delay_def)
  have "delay_slack s1 = delay_slack s"
  proof
    show "delay_slack s1 c = delay_slack s c" for c by (cases "c = b") (simp_all add: delay_slack_def dl d f)
  qed
  then have "books_agree m s s1" by (simp add: books_agree_def queue_slack_def [abs_def] q flow_slack_def fl l)
  moreover have "gs_stop s1 = gs_stop s" by (simp add: s1_def s0_def sim_schedule_def on_delay_def)
  ultimately show ?thesis using s by (simp add: moved_def sane_def kept_above_def q p l d places_def flip: s0_def s1_def)
qed

lemma sum_list_upd:
  assumes "distinct (map fst xs)" "(b, c) \<in> set xs" "\<And>p. p \<in> set xs \<Longrightarrow> fst p \<noteq> b \<Longrightarrow> g p = f p"
  shows "(\<Sum>p\<leftarrow>xs. g p) = (\<Sum>p\<leftarrow>xs. f p) + (g (b, c) - f (b, c) :: u64)"
  using assms
proof (induction xs)
  case (Cons p xs)
  show ?case
  proof (cases "fst p = b")
    case True
    then have fresh: "b \<notin> fst ` set xs" using Cons.prems(1) by simp
    then have "(b, c) \<notin> set xs" by (metis fst_conv image_eqI)
    then have p: "p = (b, c)" using Cons.prems(2) by simp
    have "map g xs = map f xs"
    proof (rule map_cong)
      fix x
      assume "x \<in> set xs"
      with fresh show "g x = f x" using Cons.prems(3) by (metis image_eqI list.set_intros(2))
    qed simp
    then show ?thesis by (simp add: p del: map_eq_conv)
  next
    case False
    then have "g p = f p" "(b, c) \<in> set xs" using Cons.prems by auto
    with Cons.IH Cons.prems show ?thesis by simp
  qed
qed simp

lemma flow_at:
  assumes "distinct_blocks m" "block_of m b = Some c" "\<And>a. a \<noteq> b \<Longrightarrow> gs_creates s' a = gs_creates s a"
    "\<And>a. a \<noteq> b \<Longrightarrow> gs_counts s' a = gs_counts s a"
  shows "flow m s' = flow m s + (block_flow s' (b, c) - block_flow s (b, c))"
proof -
  have "(b, c) \<in> set (cm_blocks m)" using assms(1,2) by (simp add: block_of_iff)
  moreover have "block_flow s' p = block_flow s p" if "fst p \<noteq> b" for p
    using assms(3,4) that by (cases p) (simp add: block_flow_def split: block_code.split)
  ultimately show ?thesis using assms(1) unfolding flow_def distinct_blocks_def by (intro sum_list_upd) auto
qed

lemma live_insert: "live_refs s' = insert ref (live_refs s) \<Longrightarrow> ref \<notin> live_refs s \<Longrightarrow> live s' = live s + {#ref#}"
  by (simp add: live_def)

lemma live_remove: "live_refs s' = live_refs s - {ref} \<Longrightarrow> ref \<in> live_refs s \<Longrightarrow> live s = live s' + {#ref#}"
  by (simp add: live_def mset_set_Diff)

lemma sim_free_live:
  assumes s: "sane m s" and ref: "ref \<in> live_refs s" and run: "sim_free m ref s = Ret s'"
  shows "sane m s' \<and> live s = live s' + {#ref#} \<and> gs_queues s' = gs_queues s \<and> gs_events s' = gs_events s \<and>
    gs_delays s' = gs_delays s \<and> gs_creates s' = gs_creates s \<and> gs_counts s' = gs_counts s \<and> gs_stop s' = gs_stop s \<and>
    (\<forall>t. length (Entities (gs_pools s' t)) = length (Entities (gs_pools s t)))"
proof -
  let ?p = "gs_pools s (ref_Type ref)"
  have lv: "ref_Idx ref \<in> pool_live ?p" and ok: "pool_ok ?p" using s ref by (auto simp: live_refs_def sane_def)
  then obtain zero where zero: "cm_zero m (ref_Type ref) = Some zero" using s by (auto simp: sane_def)
  obtain p' where p': "pool_free zero ?p (ref_Idx ref) = Some p'" "pool_live p' = pool_live ?p - {ref_Idx ref}" "pool_ok p'"
    using pool_free_live [OF ok lv] by blast
  then have s': "s' = s\<lparr>gs_pools := (gs_pools s)(ref_Type ref := p')\<rparr>" using run zero by (simp add: sim_free_def)
  have "length (Entities p') = length (Entities ?p)" using p'(1) by (auto simp: pool_free_def split: if_splits)
  moreover have "sane m s'" using s p' by (auto simp: sane_def s')
  moreover have "live_refs s' = live_refs s - {ref}"
  proof (rule set_eqI)
    fix r
    show "r \<in> live_refs s' \<longleftrightarrow> r \<in> live_refs s - {ref}"
      using p'(2) by (cases r, cases ref) (simp add: live_refs_def s')
  qed
  then have "live s = live s' + {#ref#}" using ref by (rule live_remove)
  ultimately show ?thesis by (simp add: s')
qed

lemma moved_free:
  assumes s: "sane m s" and ref: "ref \<in># live s" and run: "sim_free m ref s1 = Ret s'"
    and same: "gs_pools s1 = gs_pools s" "gs_queues s1 = gs_queues s" "gs_events s1 = gs_events s" "gs_delays s1 = gs_delays s"
      "gs_stop s1 = gs_stop s"
    and flow: "flow m s1 = flow m s - 1"
  shows "moved m rank k {#ref#} s s'"
proof -
  have l: "live_refs s1 = live_refs s" "live s1 = live s" by (simp_all add: live_refs_def live_def same)
  have "sane m s1" using s by (simp add: sane_def same)
  moreover have "ref \<in> live_refs s1" using ref by (simp add: live_def l)
  ultimately have f: "sane m s'" "live s = live s' + {#ref#}" "gs_queues s' = gs_queues s" "gs_events s' = gs_events s"
    "gs_delays s' = gs_delays s" "gs_stop s' = gs_stop s" "gs_creates s' = gs_creates s1" "gs_counts s' = gs_counts s1"
    "\<And>t. length (Entities (gs_pools s' t)) = length (Entities (gs_pools s t))"
    using sim_free_live [OF _ _ run] by (auto simp: same l)
  have "flow m s' = flow m s - 1" using flow_only [of s' s1 m] f flow by simp
  moreover have "of_nat (size (live s)) = of_nat (size (live s')) + (1 :: u64)" using f(2) by simp
  ultimately have "flow_slack m s' = flow_slack m s" by (simp add: flow_slack_def)
  then show ?thesis using f by (simp add: moved_def kept_above_def books_agree_def queue_slack_def [abs_def]
        delay_slack_def [abs_def] delayed_at_def delayed_def places_def)
qed

section \<open>Calls\<close>

text \<open>The blocks that the function of a block may enter before it returns.\<close>

definition calls_of :: "'g block_code \<Rightarrow> string list" where
  "calls_of code = (case code of
       QueueCode c \<Rightarrow> qc_next c # (case qc_overflow c of None \<Rightarrow> [] | Some b \<Rightarrow> [b])
     | SeizeCode _ nxt \<Rightarrow> [nxt]
     | ReleaseCode _ nxt wake \<Rightarrow> nxt # wake
     | AssignCode _ nxt \<Rightarrow> [nxt]
     | BranchCode ks els \<Rightarrow> map kc_next ks @ (case els of None \<Rightarrow> [] | Some b \<Rightarrow> [b])
     | _ \<Rightarrow> [])"

definition ranked :: "'g code_model \<Rightarrow> (string \<Rightarrow> nat) \<Rightarrow> bool" where
  "ranked m rank \<longleftrightarrow> (\<forall>(b, code) \<in> set (cm_blocks m). \<forall>x \<in> set (calls_of code). rank x < rank b)"

lemma ranked_call:
  assumes "ranked m rank" "block_of m b = Some code" "x \<in> set (calls_of code)"
  shows "rank x < rank b"
proof -
  have "(b, code) \<in> set (cm_blocks m)" using assms(2) by (auto simp: block_of_def dest: map_of_SomeD)
  with assms(1,3) show ?thesis by (auto simp: ranked_def)
qed

lemma block_below: "block_of m b = Some (QueueCode c) \<Longrightarrow> rank b < k \<Longrightarrow> b \<in> below m rank k"
  by (simp add: below_def)

text \<open>What a call promises for a waiting or moving entity.\<close>

definition carries :: "'g code_model \<Rightarrow> (string \<Rightarrow> nat) \<Rightarrow> 'g call \<Rightarrow> bool" where
  "carries m rank call \<longleftrightarrow>
     (\<forall>b ref s ok s' k. call b ref s = Ret (ok, s') \<longrightarrow> rank b < k \<longrightarrow> sane m s \<longrightarrow>
        places m rank k s + {#ref#} \<subseteq># live s \<longrightarrow> moved m rank k (if ok then {#ref#} else {#}) s s')"

lemma carriesD:
  "carries m rank call \<Longrightarrow> call b ref s = Ret (ok, s') \<Longrightarrow> rank b < k \<Longrightarrow> sane m s \<Longrightarrow>
   places m rank k s + {#ref#} \<subseteq># live s \<Longrightarrow> moved m rank k (if ok then {#ref#} else {#}) s s'"
  by (simp add: carries_def)

lemma places_with_queue:
  assumes "q \<in> below m rank k"
  shows "places m rank (rank q) s + mset (vrefs (gs_queues s q)) \<subseteq># places m rank k s"
proof -
  have "rank q \<le> k" and q: "q \<in> below m rank k - below m rank (rank q)" using assms by (auto simp: below_def)
  then show ?thesis
    using sum.remove [OF _ q, of "\<lambda>q. mset (vrefs (gs_queues s q))"] by (simp add: places_upto)
qed

lemma moved_unmoved:
  "distinct_blocks m \<Longrightarrow> moved m rank k M s t \<Longrightarrow> unmoved m t u \<Longrightarrow> moved m rank k M s u"
  using moved_trans [of m rank k M s t "{#}" u] unmoved_moved [of m t u] by (simp add: moved_sane)

lemma try_advance_moved:
  assumes m: "distinct_blocks m" "ranked m rank" and call: "carries m rank call"
    and run: "try_advance m call q s = Ret (ok, s')" and q: "rank q < k"
    and s: "sane m s" "places m rank k s \<subseteq># live s"
  shows "moved m rank k {#} s s'"
proof -
  obtain c where c: "block_of m q = Some (QueueCode c)"
    using run unfolding try_advance_def
    by (cases "block_of m q") (simp, rename_tac code, case_tac code, simp_all)
  have b: "q \<in> below m rank k" using c q by (rule block_below)
  obtain r q1 where top: "queue_top (gs_queues s q) = (r, q1)" by (cases "queue_top (gs_queues s q)")
  define s1 where "s1 = on_queue q (\<lambda>_. q1) s"
  have u1: "unmoved m s s1" using unmoved_queue_top [OF top, of m s] by (simp add: s1_def unmoved_refl)
  have mv1: "moved m rank k {#} s s1" using m(1) s(1) u1 by (rule unmoved_moved)
  show ?thesis
  proof (cases r)
    case None
    with run c top mv1 show ?thesis by (simp add: try_advance_def s1_def)
  next
    case (Some ref)
    obtain ok2 s2 where c2: "call (qc_next c) ref s1 = Ret (ok2, s2)"
      and out: "(if \<not> ok2 then Ret (False, s2)
        else Ret (True, on_queue q (\<lambda>x. x\<lparr>sq_exitN := sq_exitN x + 1\<rparr>) (on_queue q queue_delete s2))) = Ret (ok, s')"
      using run c top Some unfolding s1_def try_advance_def by (simp add: bind_pair del: bindR_eq_Ret) blast
    obtain rs where "vrefs (gs_queues s q) = ref # rs" "sq_len (gs_queues s q) \<noteq> 0"
      using vrefs_top_Some [of "gs_queues s q" ref q1] top Some by blast
    then have rs: "vrefs (gs_queues s1 q) = ref # rs" and len: "sq_len (gs_queues s1 q) \<noteq> 0"
      using vrefs_top [OF top] by (simp_all add: s1_def on_queue_def)
    have "places m rank (rank q) s1 + {#ref#} \<subseteq># places m rank (rank q) s1 + mset (vrefs (gs_queues s1 q))"
      by (simp add: rs)
    also have "\<dots> \<subseteq># places m rank k s1" using b by (rule places_with_queue)
    also have "\<dots> \<subseteq># live s1" using moved_fits [OF mv1, of "{#}"] s(2) by simp
    finally have fit: "places m rank (rank q) s1 + {#ref#} \<subseteq># live s1" .
    have "rank (qc_next c) < rank q" using m(2) c by (rule ranked_call) (simp add: calls_of_def)
    from carriesD [OF call c2 this moved_sane [OF mv1] fit]
    have mv2: "moved m rank (rank q) (if ok2 then {#ref#} else {#}) s1 s2" .
    then have lift2: "moved m rank k (if ok2 then {#ref#} else {#}) s1 s2" by (rule moved_lift) (simp add: q less_imp_le)
    show ?thesis
    proof (cases ok2)
      case False
      have "moved m rank k ({#} + {#}) s s2" using mv1 lift2 False by (intro moved_trans) simp_all
      with out False show ?thesis by simp
    next
      case True
      have q2: "vrefs (gs_queues s2 q) = ref # rs" "sq_len (gs_queues s2 q) \<noteq> 0"
        using mv2 rs len by (simp_all add: moved_def kept_above_def)
      have "moved m rank k {#} s1 (on_queue q queue_delete s2)"
        using lift2 b vrefs_delete [OF q2] by (intro moved_queue [where M = "{#ref#}"]) (simp_all add: True q2 queue_slack_def)
      with mv1 have "moved m rank k ({#} + {#}) s (on_queue q queue_delete s2)" by (rule moved_trans)
      then have "moved m rank k ({#} + {#}) s (on_queue q (\<lambda>x. x\<lparr>sq_exitN := sq_exitN x + 1\<rparr>) (on_queue q queue_delete s2))"
        by (rule moved_unmoved [OF m(1)]) (simp add: unmoved_refl)
      with out True show ?thesis by simp
    qed
  qed
qed

section \<open>Blocks\<close>

lemma moved_fits0: "moved m rank k {#} s s1 \<Longrightarrow> places m rank k s + N \<subseteq># live s \<Longrightarrow> places m rank k s1 + N \<subseteq># live s1"
  using moved_fits [of m rank k "{#}" s s1 N] by simp

lemma call_after:
  assumes m: "distinct_blocks m" and call: "carries m rank call" and u: "unmoved m s s0"
    and run: "call x ref s0 = Ret (True, s1)" and x: "rank x < k"
    and s: "sane m s" "places m rank k s + {#ref#} \<subseteq># live s"
  shows "moved m rank k {#ref#} s s1"
proof -
  have mv0: "moved m rank k {#} s s0" using m s(1) u by (rule unmoved_moved)
  have "places m rank k s0 + {#ref#} \<subseteq># live s0" using mv0 s(2) by (rule moved_fits0)
  from carriesD [OF call run x moved_sane [OF mv0] this] have "moved m rank k {#ref#} s0 s1" by simp
  with mv0 have "moved m rank k ({#} + {#ref#}) s s1" by (rule moved_trans)
  then show ?thesis by simp
qed

lemma wake_moved:
  assumes m: "distinct_blocks m" "ranked m rank" and call: "carries m rank call"
  shows "wake_queues m call qs s = Ret s' \<Longrightarrow> \<forall>q \<in> set qs. rank q < k \<Longrightarrow> sane m s \<Longrightarrow>
    places m rank k s \<subseteq># live s \<Longrightarrow> moved m rank k {#} s s'"
proof (induction qs arbitrary: s)
  case Nil
  with m(1) show ?case by (simp add: moved_refl)
next
  case (Cons q qs)
  obtain ok s1 where t: "try_advance m call q s = Ret (ok, s1)"
    and rest: "(if ok then Ret s1 else wake_queues m call qs s1) = Ret s'"
    using Cons.prems(1) by (simp add: bind_pair del: bindR_eq_Ret) blast
  have "rank q < k" using Cons.prems(2) by simp
  with m call t have mv: "moved m rank k {#} s s1" using Cons.prems(3,4) by (rule try_advance_moved)
  show ?case
  proof (cases ok)
    case True
    with mv rest show ?thesis by simp
  next
    case False
    have "places m rank k s1 \<subseteq># live s1" using moved_fits [OF mv, of "{#}"] Cons.prems(4) by simp
    with False rest Cons have "moved m rank k {#} s1 s'" by (simp add: moved_sane [OF mv])
    with mv have "moved m rank k ({#} + {#}) s s'" by (rule moved_trans)
    then show ?thesis by simp
  qed
qed

lemma store_moved:
  assumes m: "distinct_blocks m" "ranked m rank" and call: "carries m rank call"
    and b: "block_of m b = Some (QueueCode c)" "rank b < k" and run: "queue_store m call b c ref s = Ret (True, s')"
    and s: "sane m s" "places m rank k s + {#ref#} \<subseteq># live s"
  shows "moved m rank k {#ref#} s s'"
proof -
  let ?s0 = "on_queue b (\<lambda>q. q\<lparr>sq_enterN := sq_enterN q + 1\<rparr>) s"
  have below: "b \<in> below m rank k" using b by (rule block_below)
  have stored: "moved m rank k {#ref#} s t"
    if u: "unmoved m s s1" and t: "t = on_queue b (\<lambda>q. snd (queue_push ref q)) s1" for s1 t
  proof -
    have mv: "moved m rank k {#} s s1" using m(1) s(1) u by (rule unmoved_moved)
    have "moved m rank k {#ref#} s1 t" unfolding t using m(1) moved_sane [OF mv] below by (rule moved_push)
    with mv have "moved m rank k ({#} + {#ref#}) s t" by (rule moved_trans)
    then show ?thesis by simp
  qed
  have finish: ?thesis if mv: "moved m rank k {#ref#} s t" and run: "try_advance m call b t = Ret (ok, s')" for t ok
  proof -
    have "places m rank k t \<subseteq># live t" using moved_fits [OF mv, of "{#}"] s(2) by simp
    with m call run b(2) moved_sane [OF mv] have "moved m rank k {#} t s'" by (rule try_advance_moved)
    with mv have "moved m rank k ({#ref#} + {#}) s s'" by (rule moved_trans)
    then show ?thesis by simp
  qed
  show ?thesis
  proof (cases "qc_timeout c")
    case None
    then obtain ok where "try_advance m call b (on_queue b (\<lambda>q. snd (queue_push ref q)) ?s0) = Ret (ok, s')"
      using run by (auto simp: queue_store_def Let_def)
    with stored [of ?s0] show ?thesis by (intro finish) (simp_all add: unmoved_refl)
  next
    case (Some timeout)
    then have g: "guard_ok (qc_guard c) ref" using run by (auto simp: queue_store_def Let_def split: if_splits)
    obtain v g ok where "try_advance m call b (sim_schedule v (TimeoutOver b (fst (queue_push ref (gs_queues (?s0\<lparr>gs_rng := g\<rparr>) b))))
          (on_queue b (\<lambda>q. snd (queue_push ref q)) (?s0\<lparr>gs_rng := g\<rparr>))) = Ret (ok, s')"
      using run Some g unfolding queue_store_def Let_def by (auto simp: evalE_Ret bind_pair simp del: bindR_eq_Ret)
    then show ?thesis
      by (rule finish [rotated]) (rule moved_unmoved [OF m(1) stored [of "?s0\<lparr>gs_rng := g\<rparr>", OF _ refl]], simp_all)
  qed
qed

lemma queue_moved:
  assumes m: "distinct_blocks m" "ranked m rank" and call: "carries m rank call"
    and b: "block_of m b = Some (QueueCode c)" "rank b < k" and run: "queue_main m call b c ref s = Ret (True, s')"
    and s: "sane m s" "places m rank k s + {#ref#} \<subseteq># live s"
  shows "moved m rank k {#ref#} s s'"
proof (cases "qc_capacity c")
  case None
  with run have "queue_store m call b c ref s = Ret (True, s')" by (simp add: queue_main_def)
  with m call b show ?thesis using s by (rule store_moved)
next
  case (Some capacity)
  obtain n s0 where e: "evalE capacity no_ref s = Ret (n, s0)" and inner: "(if n \<le> sq_len (gs_queues s0 b) then
      (case qc_overflow c of
         None \<Rightarrow> Ret (False, s0)
       | Some nxt \<Rightarrow>
           call nxt ref (on_queue b (\<lambda>q. q\<lparr>sq_enterN := sq_enterN q + 1, sq_dropN := sq_dropN q + 1\<rparr>) s0))
      else queue_store m call b c ref s0) = Ret (True, s')"
    using run Some unfolding queue_main_def by (simp add: bind_pair del: bindR_eq_Ret) blast
  have u: "unmoved m s s0" using e by (auto simp: evalE_Ret)
  show ?thesis
  proof (cases "n \<le> sq_len (gs_queues s0 b)")
    case True
    then obtain nxt where o: "qc_overflow c = Some nxt"
      and c: "call nxt ref (on_queue b (\<lambda>q. q\<lparr>sq_enterN := sq_enterN q + 1, sq_dropN := sq_dropN q + 1\<rparr>) s0) = Ret (True, s')"
      using inner by (auto split: option.splits)
    have "rank nxt < k" using ranked_call [OF m(2) b(1), of nxt] o b(2) by (simp add: calls_of_def)
    with m(1) call _ c show ?thesis using s by (rule call_after) (simp add: u)
  next
    case False
    have mv: "moved m rank k {#} s s0" using m(1) s(1) u by (rule unmoved_moved)
    have "queue_store m call b c ref s0 = Ret (True, s')" using False inner by simp
    from m call b this have "moved m rank k {#ref#} s0 s'"
      using moved_sane [OF mv] moved_fits0 [OF mv s(2)] by (rule store_moved)
    with mv have "moved m rank k ({#} + {#ref#}) s s'" by (rule moved_trans)
    then show ?thesis by simp
  qed
qed

lemma on_delay_twice: "on_delay b g (on_delay b f s) = on_delay b (\<lambda>d. g (f d)) s"
  by (simp add: on_delay_def)

lemma delay_moved:
  assumes m: "distinct_blocks m" and run: "delay_main b c ref s = Ret (True, s')" and s: "sane m s"
  shows "moved m rank k {#ref#} s s'"
proof -
  have start: "moved m rank k {#ref#} s s'" if u: "unmoved m s s0" and run: "delay_start b c ref s0 = Ret (True, s')" for s0
  proof -
    have g: "guard_ok (dc_guard c) ref" using run by (auto simp: delay_start_def split: if_splits)
    obtain t s1 where e: "evalE (dc_duration c) ref s0 = Ret (t, s1)"
      and s': "s' = sim_schedule t (DelayOver b ref)
        (on_delay b (\<lambda>d. if ds_maxBusy d < ds_busy d then d\<lparr>ds_maxBusy := ds_busy d\<rparr> else d)
          (on_delay b (\<lambda>d. d\<lparr>ds_enterN := ds_enterN d + 1, ds_busy := ds_busy d + 1\<rparr>) s1))"
      using run g unfolding delay_start_def Let_def by (simp add: bind_pair del: bindR_eq_Ret) blast
    have "unmoved m s s1" using u e by (auto simp: evalE_Ret)
    with m s have mv: "moved m rank k {#} s s1" by (rule unmoved_moved)
    have "moved m rank k {#ref#} s1 s'"
      unfolding s' on_delay_twice using m moved_sane [OF mv] by (rule moved_delay) simp
    with mv have "moved m rank k ({#} + {#ref#}) s s'" by (rule moved_trans)
    then show ?thesis by simp
  qed
  show ?thesis
  proof (cases "dc_capacity c")
    case None
    with run show ?thesis by (intro start [OF unmoved_refl]) (simp add: delay_main_def)
  next
    case (Some capacity)
    obtain n s0 where e: "evalE capacity no_ref s = Ret (n, s0)"
      and inner: "(if n \<le> ds_busy (gs_delays s0 b) then Ret (False, s0) else delay_start b c ref s0) = Ret (True, s')"
      using run Some unfolding delay_main_def by (simp add: bind_pair del: bindR_eq_Ret) blast
    have "unmoved m s s0" using e by (auto simp: evalE_Ret)
    then show ?thesis by (rule start) (use inner in \<open>simp split: if_splits\<close>)
  qed
qed

lemma terminate_moved:
  assumes m: "distinct_blocks m" and b: "block_of m b = Some TerminateCode" and run: "terminate_main m b ref s = Ret (True, s')"
    and s: "sane m s" "places m rank k s + {#ref#} \<subseteq># live s"
  shows "moved m rank k {#ref#} s s'"
proof -
  define s0 where "s0 = s\<lparr>gs_counts := (gs_counts s)(b := (gs_counts s b)\<lparr>fc_enterN := fc_enterN (gs_counts s b) + 1\<rparr>)\<rparr>"
  have free: "sim_free m ref s0 = Ret s'" using run by (simp add: terminate_main_def s0_def)
  have "flow m s0 = flow m s + (block_flow s0 (b, TerminateCode) - block_flow s (b, TerminateCode))"
    using m b by (rule flow_at) (simp_all add: s0_def)
  then have flow: "flow m s0 = flow m s - 1" by (simp add: block_flow_def s0_def)
  have "ref \<in># live s" using s(2) by (meson mset_subset_eqD mset_subset_eq_add_right multi_member_last)
  with s(1) show ?thesis using free by (rule moved_free) (simp_all add: s0_def flow [unfolded s0_def])
qed

lemma seize_moved:
  assumes m: "distinct_blocks m" and call: "carries m rank call" and b: "block_of m b = Some (SeizeCode r nxt)"
    and x: "rank nxt < k" and run: "seize_main call b r nxt ref s = Ret (True, s')"
    and s: "sane m s" "places m rank k s + {#ref#} \<subseteq># live s"
  shows "moved m rank k {#ref#} s s'"
proof -
  obtain f s1 where c: "call nxt ref (on_resource r f s) = Ret (True, s1)"
    and s': "s' = on_resource r (\<lambda>x. x\<lparr>rs_seizeN := rs_seizeN x + 1\<rparr>) (passed b s1)"
    using run unfolding seize_main_def Let_def by (auto simp: bind_pair simp del: bindR_eq_Ret split: if_splits)
  have "moved m rank k {#ref#} s s1" using m call _ c x s by (rule call_after) simp
  with m show ?thesis by (rule moved_unmoved) (simp add: s' unmoved_passed b)
qed

lemma release_moved:
  assumes m: "distinct_blocks m" "ranked m rank" and call: "carries m rank call"
    and b: "block_of m b = Some (ReleaseCode r nxt wake)" "rank b < k"
    and run: "release_main m call b r nxt wake ref s = Ret (True, s')"
    and s: "sane m s" "places m rank k s + {#ref#} \<subseteq># live s"
  shows "moved m rank k {#ref#} s s'"
proof -
  obtain f s1 s2 where c: "call nxt ref (on_resource r f s) = Ret (True, s1)"
    and s2: "s2 = on_resource r (\<lambda>x. x\<lparr>rs_releaseN := rs_releaseN x + 1\<rparr>) (passed b s1)"
    and w: "wake_queues m call wake s2 = Ret s'"
    using run unfolding release_main_def Let_def
    by (cases "rs_busy (gs_resources s r) = 0") (auto simp: bind_pair simp del: bindR_eq_Ret split: if_splits, auto)
  have x: "rank x < k" if "x \<in> set (nxt # wake)" for x
    using ranked_call [OF m(2) b(1), of x] that b(2) by (simp add: calls_of_def)
  have "moved m rank k {#ref#} s s1" by (rule call_after [OF m(1) call _ c _ s]) (simp_all add: x)
  with m(1) have mv: "moved m rank k {#ref#} s s2" by (rule moved_unmoved) (simp add: s2 unmoved_passed b)
  have "places m rank k s2 \<subseteq># live s2" using moved_fits [OF mv, of "{#}"] s(2) by simp
  with wake_moved [OF m call w] x moved_sane [OF mv] have "moved m rank k {#} s2 s'" by simp
  with mv have "moved m rank k ({#ref#} + {#}) s s'" by (rule moved_trans)
  then show ?thesis by simp
qed

lemma assign_moved:
  assumes m: "distinct_blocks m" and call: "carries m rank call" and b: "block_of m b = Some (AssignCode as nxt)"
    and x: "rank nxt < k" and run: "assign_main call b as nxt ref s = Ret (True, s')"
    and s: "sane m s" "places m rank k s + {#ref#} \<subseteq># live s"
  shows "moved m rank k {#ref#} s s'"
proof -
  obtain undo s0 s1 where a: "assign_all as ref [] s = Ret (undo, s0)" and c: "call nxt ref s0 = Ret (True, s1)"
    and s': "s' = passed b s1"
    using run unfolding assign_main_def by (auto simp: bind_pair simp del: bindR_eq_Ret split: if_splits)
  have "unmoved m s s0" using unmoved_assign [OF a, of m s] by simp
  with m call have "moved m rank k {#ref#} s s1" using c x s by (rule call_after)
  with m show ?thesis by (rule moved_unmoved) (simp add: s' unmoved_passed b)
qed

lemma branch_moved:
  assumes m: "distinct_blocks m" and call: "carries m rank call" and b: "block_of m b \<noteq> Some TerminateCode"
    and x: "\<forall>k' \<in> set ks. rank (kc_next k') < k" "\<forall>e. els = Some e \<longrightarrow> rank e < k"
    and s: "sane m s" "places m rank k s + {#ref#} \<subseteq># live s"
  shows "branch_main call b ks els ref s0 = Ret (True, s') \<Longrightarrow> unmoved m s s0 \<Longrightarrow> moved m rank k {#ref#} s s'"
  using x(1)
proof (induction ks arbitrary: s0)
  have nxt: "moved m rank k {#ref#} s s'" if run: "branch_next call b y ref t = Ret (True, s')"
    and u: "unmoved m s t" and y: "rank y < k" for y t
  proof -
    obtain s1 where c: "call y ref t = Ret (True, s1)" and s': "s' = passed b s1"
      using run unfolding branch_next_def by (auto simp: bind_pair simp del: bindR_eq_Ret split: if_splits)
    have "moved m rank k {#ref#} s s1" using m call u c y s by (rule call_after)
    with m show ?thesis by (rule moved_unmoved) (simp add: s' unmoved_passed b)
  qed
  {
    case Nil
    with nxt x(2) show ?case by (cases els) auto
  next
    case (Cons k' ks)
    show ?case
    proof (cases "guard_ok (kc_guard k') ref")
      case False
      with Cons show ?thesis by simp
    next
      case True
      obtain yes s1 where e: "evalE (kc_condition k') ref s0 = Ret (yes, s1)"
        and rest: "(if yes then branch_next call b (kc_next k') ref s1 else branch_main call b ks els ref s1) = Ret (True, s')"
        using Cons.prems(1) True by (simp add: bind_pair del: bindR_eq_Ret) blast
      have "unmoved m s s1" using e Cons.prems(2) by (auto simp: evalE_Ret)
      with rest Cons nxt show ?thesis by (cases yes) simp_all
    qed
  }
qed

lemma block_carries:
  assumes m: "distinct_blocks m" "ranked m rank" and call: "carries m rank call" and clean: "refuses_cleanly call"
  shows "carries m rank (block_step m call)"
  unfolding carries_def
proof (intro allI impI)
  fix b ref s ok s' k
  assume run: "block_step m call b ref s = Ret (ok, s')" and k: "rank b < k" and s: "sane m s"
    and fit: "places m rank k s + {#ref#} \<subseteq># live s"
  have refused: "moved m rank k {#} s s'" if "\<not> ok"
  proof -
    have "untouched s s'" using block_refuses [OF clean] run that by (auto simp: refuses_cleanly_def)
    then show ?thesis using m(1) s by (intro unmoved_moved untouched_unmoved)
  qed
  have passed: "moved m rank k {#ref#} s s'" if ok
  proof -
    obtain code where code: "block_of m b = Some code" using run by (cases "block_of m b") (auto simp: block_step_def)
    have low: "rank x < k" if "x \<in> set (calls_of code)" for x
      using ranked_call [OF m(2) code that] k by simp
    show ?thesis
    proof (cases code)
      case (QueueCode c)
      with m call code k s fit run \<open>ok\<close> show ?thesis by (intro queue_moved) (simp_all add: block_step_def)
    next
      case (DelayCode c)
      with m code s run \<open>ok\<close> show ?thesis by (intro delay_moved) (simp_all add: block_step_def)
    next
      case (SeizeCode r nxt)
      with m call code low s fit run \<open>ok\<close> show ?thesis
        by (intro seize_moved [where nxt = nxt]) (simp_all add: block_step_def calls_of_def)
    next
      case (ReleaseCode r nxt wake)
      with m call code k s fit run \<open>ok\<close> show ?thesis by (intro release_moved) (simp_all add: block_step_def)
    next
      case (AssignCode as nxt)
      with m call code low s fit run \<open>ok\<close> show ?thesis
        by (intro assign_moved [where nxt = nxt]) (simp_all add: block_step_def calls_of_def)
    next
      case (BranchCode ks els)
      with m(1) call show ?thesis
        using code low s fit run \<open>ok\<close>
        by (intro branch_moved [where ks = ks and els = els and ?s0.0 = s]) (simp_all add: block_step_def calls_of_def)
    next
      case TerminateCode
      with m code s fit run \<open>ok\<close> show ?thesis by (intro terminate_moved) (simp_all add: block_step_def)
    next
      case (CreateCode c)
      with run code show ?thesis by (simp add: block_step_def)
    qed
  qed
  show "moved m rank k (if ok then {#ref#} else {#}) s s'" using refused passed by (cases ok) simp_all
qed

lemma enter_carries:
  assumes "distinct_blocks m" "ranked m rank"
  shows "carries m rank (enter m n)"
proof (induction n)
  case 0
  then show ?case by (simp add: carries_def)
next
  case (Suc n)
  have "enter m (Suc n) = block_step m (enter m n)" by (intro ext) simp
  with block_carries [OF assms Suc enter_refuses] show ?case by simp
qed

section \<open>Depth\<close>

text \<open>A call into a block of rank below the bound returns or panics.\<close>

definition settles :: "(string \<Rightarrow> nat) \<Rightarrow> nat \<Rightarrow> 'g call \<Rightarrow> bool" where
  "settles rank n call \<longleftrightarrow> (\<forall>b ref s. rank b < n \<longrightarrow> call b ref s \<noteq> Deep)"

lemma bindR_settles: "r \<noteq> Deep \<Longrightarrow> (\<And>x. r = Ret x \<Longrightarrow> f x \<noteq> Deep) \<Longrightarrow> bindR r f \<noteq> Deep"
  by auto

lemma advance_settles:
  assumes m: "ranked m rank" and call: "settles rank n call" and q: "rank q \<le> n"
  shows "try_advance m call q s \<noteq> Deep"
proof (cases "block_of m q")
  case (Some code)
  show ?thesis
  proof (cases code)
    case (QueueCode c)
    obtain r q1 where top: "queue_top (gs_queues s q) = (r, q1)" by (cases "queue_top (gs_queues s q)")
    have "rank (qc_next c) < rank q" using m Some by (rule ranked_call) (simp add: QueueCode calls_of_def)
    then have "call (qc_next c) ref t \<noteq> Deep" for ref t using call q by (simp add: settles_def)
    then show ?thesis using Some QueueCode top by (cases r) (simp_all add: try_advance_def split_beta)
  qed (use Some in \<open>simp_all add: try_advance_def\<close>)
qed (simp add: try_advance_def)

lemma wake_settles:
  assumes "ranked m rank" "settles rank n call" "\<forall>q \<in> set qs. rank q \<le> n"
  shows "wake_queues m call qs s \<noteq> Deep"
  using assms(3)
proof (induction qs arbitrary: s)
  case (Cons q qs)
  have "rank q \<le> n" using Cons.prems by simp
  with assms(1,2) have "try_advance m call q s \<noteq> Deep" by (rule advance_settles)
  with Cons show ?case by (simp add: split_beta)
qed simp

lemma assign_settles: "assign_all as ref undo s \<noteq> Deep"
proof (induction as arbitrary: undo s)
  case (Cons a as)
  then show ?case by (cases "read_target (ac_target a) ref s") (simp_all add: split_beta)
qed simp

lemma branch_settles:
  assumes "settles rank n call" "\<forall>k \<in> set ks. rank (kc_next k) < n" "\<forall>e. els = Some e \<longrightarrow> rank e < n"
  shows "branch_main call b ks els ref s \<noteq> Deep"
  using assms(2)
proof (induction ks arbitrary: s)
  case Nil
  with assms show ?case by (cases els) (simp_all add: branch_next_def settles_def split_beta)
next
  case (Cons k ks)
  have "branch_next call b (kc_next k) ref t \<noteq> Deep" for t
    using assms(1) Cons.prems by (simp add: branch_next_def settles_def split_beta)
  with Cons show ?case by (simp add: split_beta)
qed

lemma delay_settles: "delay_main b c ref s \<noteq> Deep"
  by (cases "dc_capacity c") (simp_all add: delay_main_def delay_start_def split_beta Let_def)

lemma store_settles:
  assumes "ranked m rank" "settles rank n call" "rank b \<le> n"
  shows "queue_store m call b c ref s \<noteq> Deep"
  using advance_settles [OF assms] by (cases "qc_timeout c") (simp_all add: queue_store_def Let_def split_beta)

lemma block_settles:
  assumes m: "ranked m rank" and call: "settles rank n call"
  shows "settles rank (Suc n) (block_step m call)"
  unfolding settles_def
proof (intro allI impI)
  fix b ref and s :: "'a gstate"
  assume b: "rank b < Suc n"
  show "block_step m call b ref s \<noteq> Deep"
  proof (cases "block_of m b")
    case None
    then show ?thesis by (simp add: block_step_def)
  next
    case (Some code)
    have low: "rank x < n" if "x \<in> set (calls_of code)" for x
      using ranked_call [OF m Some that] b by simp
    show ?thesis
    proof (cases code)
      case (QueueCode c)
      have "rank b \<le> n" using b by simp
      with m call have "queue_store m call b c ref t \<noteq> Deep" for t by (rule store_settles)
      moreover have "call y ref t \<noteq> Deep" if "qc_overflow c = Some y" for y t
        using call low [of y] that by (simp add: settles_def QueueCode calls_of_def)
      ultimately show ?thesis
        using Some QueueCode
        by (cases "qc_capacity c"; cases "qc_overflow c") (simp_all add: block_step_def queue_main_def split_beta)
    next
      case (DelayCode c)
      with Some delay_settles show ?thesis by (simp add: block_step_def)
    next
      case (SeizeCode r nxt)
      with Some call low show ?thesis
        by (simp add: block_step_def seize_main_def Let_def split_beta settles_def calls_of_def)
    next
      case (ReleaseCode r nxt wake)
      have "wake_queues m call wake t \<noteq> Deep" for t
        using m call low ReleaseCode by (intro wake_settles) (auto simp: calls_of_def intro: less_imp_le)
      with Some call low ReleaseCode show ?thesis
        by (simp add: block_step_def release_main_def Let_def split_beta settles_def calls_of_def)
    next
      case (AssignCode as nxt)
      with Some call low show ?thesis
        by (simp add: block_step_def assign_main_def split_beta settles_def calls_of_def assign_settles)
    next
      case (BranchCode ks els)
      with Some call low show ?thesis
        by (simp add: block_step_def calls_of_def) (intro branch_settles, auto)
    next
      case TerminateCode
      with Some show ?thesis
        by (simp add: block_step_def terminate_main_def sim_free_def split: option.split)
    next
      case (CreateCode c)
      with Some show ?thesis by (simp add: block_step_def)
    qed
  qed
qed

lemma enter_settles:
  assumes "ranked m rank"
  shows "settles rank n (enter m n)"
proof (induction n)
  case 0
  then show ?case by (simp add: settles_def)
next
  case (Suc n)
  have "enter m (Suc n) = block_step m (enter m n)" by (intro ext) simp
  with block_settles [OF assms Suc] show ?case by simp
qed

end
