(* ===== verification/Sim_Entities.thy ===== *)
theory Sim_Entities
  imports Sim_Conserve
begin

text \<open>
  The entities of a running simulator: events, CREATE blocks and the run as a whole. The run is
  an inductive relation: the CREATE blocks start, then one event after the other is handled.
\<close>

section \<open>Well built models and good states\<close>

text \<open>
  Blocks have their own names, what CREATE blocks make has a pool, and blocks that enter each
  other without a lapse of time have decreasing ranks below \<open>k\<close>.
\<close>

definition well_built :: "'g code_model \<Rightarrow> (string \<Rightarrow> nat) \<Rightarrow> nat \<Rightarrow> bool" where
  "well_built m rank k \<longleftrightarrow> distinct_blocks m \<and> ranked m rank \<and> (\<forall>b. rank b < k) \<and>
     (\<forall>(b, code) \<in> set (cm_blocks m). case code of CreateCode c \<Rightarrow> cm_zero m (ct_entity c) \<noteq> None | _ \<Rightarrow> True)"

definition fits :: "'g code_model \<Rightarrow> (string \<Rightarrow> nat) \<Rightarrow> nat \<Rightarrow> 'g gstate \<Rightarrow> bool" where
  "fits m rank k s \<longleftrightarrow> sane m s \<and> places m rank k s \<subseteq># live s"

definition good :: "'g code_model \<Rightarrow> (string \<Rightarrow> nat) \<Rightarrow> nat \<Rightarrow> 'g gstate \<Rightarrow> bool" where
  "good m rank k s \<longleftrightarrow> fits m rank k s \<and>
     (\<not> gs_stop s \<longrightarrow> places m rank k s = live s \<and> queue_slack s = (\<lambda>_. 0) \<and> delay_slack s = (\<lambda>_. 0) \<and> flow_slack m s = 0)"

definition roomy :: "'g gstate \<Rightarrow> bool" where
  "roomy s \<longleftrightarrow> (\<forall>t. length (Entities (gs_pools s t)) \<le> 2 ^ 32)"

lemma roomy_grow: "pools_grow s t \<Longrightarrow> roomy t \<Longrightarrow> roomy s"
  unfolding pools_grow_def roomy_def by (meson order_trans)

lemma fits_moved: "fits m rank k s \<Longrightarrow> moved m rank k {#} s s' \<Longrightarrow> fits m rank k s'"
  using moved_fits0 [of m rank k s s' "{#}"] by (simp add: fits_def moved_sane)

lemma good_moved:
  assumes "good m rank k s" "moved m rank k {#} s s'"
  shows "good m rank k s'"
proof -
  have "fits m rank k s'" using assms by (auto simp: good_def intro: fits_moved)
  moreover have "places m rank k s' + live s = places m rank k s + {#} + live s'" using assms(2) by (simp add: moved_def)
  then have "places m rank k s = live s \<Longrightarrow> places m rank k s' = live s'" by simp
  ultimately show ?thesis using assms by (auto simp: good_def moved_def books_agree_def)
qed

lemma good_stopped: "fits m rank k s \<Longrightarrow> gs_stop s \<Longrightarrow> good m rank k s"
  by (simp add: good_def)

lemma halt_stops [simp]: "gs_stop (sim_halt r s)"
  by (simp add: sim_halt_def)

lemma fits_halt: "fits m rank k s \<Longrightarrow> good m rank k (sim_halt r s)"
  by (rule good_stopped) (simp_all add: fits_def sane_def places_def live_def live_refs_def delayed_def sim_halt_def)

lemma moved_of_unmoved: "good m rank k s \<Longrightarrow> well_built m rank k \<Longrightarrow> unmoved m s s' \<Longrightarrow> moved m rank k {#} s s'"
  by (rule unmoved_moved) (simp_all add: good_def fits_def well_built_def)

lemma good_unmoved: "good m rank k s \<Longrightarrow> well_built m rank k \<Longrightarrow> unmoved m s s' \<Longrightarrow> good m rank k s'"
  by (blast intro: good_moved moved_of_unmoved)

section \<open>Calls from handlers\<close>

lemma enter_moved:
  assumes "well_built m rank k" "enter m n b ref s = Ret (ok, s')" "sane m s" "places m rank k s + {#ref#} \<subseteq># live s"
  shows "moved m rank k (if ok then {#ref#} else {#}) s s'"
  using carriesD [OF enter_carries assms(2) _ assms(3,4)] assms(1) by (simp add: well_built_def)

lemma wake_good:
  assumes m: "well_built m rank k" and run: "wake_queues m (enter m n) qs s = Ret s'" and s: "good m rank k s"
  shows "good m rank k s'"
proof -
  have "moved m rank k {#} s s'"
    using m s by (intro wake_moved [OF _ _ enter_carries run]) (auto simp: well_built_def good_def fits_def)
  with s show ?thesis by (rule good_moved)
qed

section \<open>CREATE\<close>

lemma alloc_live:
  assumes s: "sane m s" and room: "pool_room (gs_pools s t)" and al: "pool_alloc [] (gs_pools s t) = (i, p)"
    and z: "cm_zero m t \<noteq> None" and s1: "s1 = s\<lparr>gs_pools := (gs_pools s)(t := p\<lparr>Entities := (Entities p)[k := vs]\<rparr>)\<rparr>"
  shows "sane m s1 \<and> live s1 = live s + {#\<lparr>ref_Type = t, ref_Idx = i\<rparr>#}"
proof -
  have ok: "pool_ok (gs_pools s t)" using s by (simp add: sane_def)
  from pool_alloc_live [OF ok room al]
  have i: "i \<notin> pool_live (gs_pools s t)" "pool_live p = insert i (pool_live (gs_pools s t))" "pool_ok p" by simp_all
  have p': "pool_live (p\<lparr>Entities := (Entities p)[k := vs]\<rparr>) = pool_live p" "pool_ok (p\<lparr>Entities := (Entities p)[k := vs]\<rparr>)"
    using i(3) by (simp_all add: pool_live_def pool_ok_def)
  have "live_refs s1 = insert \<lparr>ref_Type = t, ref_Idx = i\<rparr> (live_refs s)"
  proof (rule set_eqI)
    fix r
    show "r \<in> live_refs s1 \<longleftrightarrow> r \<in> insert \<lparr>ref_Type = t, ref_Idx = i\<rparr> (live_refs s)"
      using p'(1) i(2) by (cases r) (auto simp: live_refs_def s1)
  qed
  then have "live s1 = live s + {#\<lparr>ref_Type = t, ref_Idx = i\<rparr>#}" using i(1) by (intro live_insert) (simp_all add: live_refs_def)
  moreover have "sane m s1" using s p' z by (auto simp: sane_def s1)
  ultimately show ?thesis by simp
qed

lemma creation:
  fixes c :: "'g create_code"
  assumes m: "well_built m rank k" and b: "block_of m b = Some (CreateCode c)" and s: "sane m s"
    and room: "pool_room (gs_pools s (ct_entity c))" and al: "pool_alloc [] (gs_pools s (ct_entity c)) = (i, p)"
    and s1: "s1 = on_create b (\<lambda>x. x\<lparr>cc_createdN := cc_createdN x + 1\<rparr>)
      (s\<lparr>gs_pools := (gs_pools s)(ct_entity c := p\<lparr>Entities := (Entities p)[unat i := ct_defaults c]\<rparr>)\<rparr>)"
    and mv: "moved m rank k {#\<lparr>ref_Type = ct_entity c, ref_Idx = i\<rparr>#} s1 s2"
  shows "moved m rank k {#} s s2"
proof (rule moved_start [OF mv])
  let ?ref = "\<lparr>ref_Type = ct_entity c, ref_Idx = i\<rparr>"
  let ?s0 = "s\<lparr>gs_pools := (gs_pools s)(ct_entity c := p\<lparr>Entities := (Entities p)[unat i := ct_defaults c]\<rparr>)\<rparr>"
  have z: "cm_zero m (ct_entity c) \<noteq> None"
    using m block_in_model [OF b] by (auto simp: well_built_def)
  have l0: "live ?s0 = live s + {#?ref#}" using alloc_live [OF s room al z refl] by blast
  have l: "live s1 = live s + {#?ref#}" unfolding l0 [symmetric] s1 by (simp add: live_def live_refs_def on_create_def)
  have same: "gs_queues s1 = gs_queues s" "gs_events s1 = gs_events s" "gs_delays s1 = gs_delays s" "gs_stop s1 = gs_stop s"
    by (simp_all add: s1 on_create_def)
  have "flow m s1 = flow m s + (block_flow s1 (b, CreateCode c) - block_flow s (b, CreateCode c))"
    using m b by (intro flow_at) (simp_all add: well_built_def s1 on_create_def)
  then have "flow m s1 = flow m s + 1" by (simp add: block_flow_def s1 on_create_def)
  then show "books_agree m s s1"
    by (simp add: books_agree_def flow_slack_def l queue_slack_def [abs_def] delay_slack_def [abs_def] same delayed_at_def)
  show "kept_above rank k s s1" by (simp add: kept_above_def same)
  show "gs_stop s \<Longrightarrow> gs_stop s1" by (simp add: same)
  show "length (Entities (gs_pools s t)) \<le> length (Entities (gs_pools s1 t))" for t
    using al by (auto simp: s1 on_create_def elim: pool_alloc_cases)
  show "places m rank k s + {#} + live s1 = places m rank k s1 + {#?ref#} + live s"
    by (simp add: l places_def same delayed_def)
qed

lemma create_unmoved:
  "unmoved m s t \<Longrightarrow> unmoved m s (on_create b (\<lambda>x. x\<lparr>cc_exitN := y x\<rparr>) t)"
  by (auto simp: unmoved_def on_create_def delayed_def delayed_at_def)

lemma create_loop_good:
  fixes c :: "'g create_code"
  assumes m: "well_built m rank k" and b: "block_of m b = Some (CreateCode c)"
  shows "create_loop m (enter m d) b c n s = Ret (r, s') \<Longrightarrow> good m rank k s \<Longrightarrow> roomy s' \<Longrightarrow>
    good m rank k s' \<and> (r \<longrightarrow> gs_stop s')"
proof (induction n arbitrary: s)
  case (Suc n)
  obtain i p where al: "pool_alloc [] (gs_pools s (ct_entity c)) = (i, p)" by (cases "pool_alloc [] (gs_pools s (ct_entity c))")
  define ref where "ref = \<lparr>ref_Type = ct_entity c, ref_Idx = i\<rparr>"
  define s0 where "s0 = s\<lparr>gs_pools := (gs_pools s)(ct_entity c := p\<lparr>Entities := (Entities p)[unat i := ct_defaults c]\<rparr>)\<rparr>"
  define s1 where "s1 = on_create b (\<lambda>x. x\<lparr>cc_createdN := cc_createdN x + 1\<rparr>) s0"
  obtain ok s2 where c: "enter m d (ct_next c) ref s1 = Ret (ok, s2)"
    and out: "(if ok then create_loop m (enter m d) b c n (on_create b (\<lambda>x. x\<lparr>cc_exitN := cc_exitN x + 1\<rparr>) s2)
       else if gs_stop s2 then Ret (True, s2)
       else if ct_destroy c then
         bindR (sim_free m ref (on_create b (\<lambda>x. x\<lparr>cc_dropN := cc_dropN x + 1\<rparr>) s2)) (create_loop m (enter m d) b c n)
       else Ret (True, sim_halt (block_stuck b) s2)) = Ret (r, s')"
    using Suc.prems(1) al unfolding s0_def s1_def ref_def by (simp add: bind_pair Let_def del: bindR_eq_Ret) blast
  have s: "sane m s" "places m rank k s \<subseteq># live s" using Suc.prems(2) by (simp_all add: good_def fits_def)
  have grow: "pools_grow s1 s'"
  proof -
    have g: "pools_grow s1 s2" using pools.F_enter c by (rule pools.framedD)
    have made: "pools_grow s1 (on_create b f s2)" for f using g pools.F_create by (rule pools.F_trans)
    show ?thesis
    proof (cases "ok \<or> gs_stop s2 \<or> \<not> ct_destroy c")
      case True
      with out g made show ?thesis
        by (auto split: if_splits intro: pools.F_create_loop [OF pools.F_enter] pools.F_steps)
    next
      case False
      with out obtain t where "sim_free m ref (on_create b (\<lambda>x. x\<lparr>cc_dropN := cc_dropN x + 1\<rparr>) s2) = Ret t"
        and rest: "create_loop m (enter m d) b c n t = Ret (r, s')" by auto
      from this(1) have "pools_grow s1 t" using made by (rule pools.F_free_after)
      with pools.F_enter rest show ?thesis by (rule pools.F_create_loop)
    qed
  qed
  have "length (Entities (gs_pools s1 (ct_entity c))) \<le> 2 ^ 32"
    using roomy_grow [OF grow Suc.prems(3)] by (simp add: roomy_def)
  then have room: "pool_room (gs_pools s (ct_entity c))"
    using al by (auto simp: pool_room_def s1_def s0_def on_create_def elim!: pool_alloc_cases)
  have z: "cm_zero m (ct_entity c) \<noteq> None" using m block_in_model [OF b] by (auto simp: well_built_def)
  have s0: "sane m s0" "live s0 = live s + {#ref#}"
    using alloc_live [OF s(1) room al z, of s0 "unat i"] by (simp_all add: s0_def ref_def)
  have s1: "sane m s1" "live s1 = live s + {#ref#}" "places m rank k s1 = places m rank k s"
    using s0 by (simp_all add: s1_def on_create_def sane_def live_def live_refs_def) (simp add: s0_def places_def delayed_def)
  then have fit: "places m rank k s1 + {#ref#} \<subseteq># live s1" using s(2) by simp
  note moved = enter_moved [OF m c s1(1) fit]
  have created: "moved m rank k {#} s t" if "moved m rank k {#ref#} s1 t" for t
    by (rule creation [OF m b s(1) room al _ that [unfolded ref_def]]) (simp add: s1_def s0_def)
  show ?case
  proof (cases ok)
    case True
    then have "good m rank k s2" using moved created Suc.prems(2) by (auto intro: good_moved)
    then have "good m rank k (on_create b (\<lambda>x. x\<lparr>cc_exitN := cc_exitN x + 1\<rparr>) s2)"
      using m by (rule good_unmoved) (intro create_unmoved unmoved_refl)
    with True out Suc show ?thesis by auto
  next
    case False
    with moved have mv: "moved m rank k {#} s1 s2" by simp
    have "places m rank k s1 \<subseteq># live s1" using fit by (meson mset_subset_eq_add_left subset_mset.order_trans)
    with s1(1) have "fits m rank k s1" by (simp add: fits_def)
    then have fits: "fits m rank k s2" using mv by (rule fits_moved)
    show ?thesis
    proof (cases "gs_stop s2 \<or> \<not> ct_destroy c")
      case True
      with False out have "(gs_stop s2 \<and> s' = s2) \<or> (\<exists>reason. s' = sim_halt reason s2)" by (auto split: if_splits)
      with fits show ?thesis by (auto intro: good_stopped fits_halt)
    next
      case destroy: False
      define s3 where "s3 = on_create b (\<lambda>x. x\<lparr>cc_dropN := cc_dropN x + 1\<rparr>) s2"
      obtain s4 where free: "sim_free m ref s3 = Ret s4" and rest: "create_loop m (enter m d) b c n s4 = Ret (r, s')"
        using False destroy out by (auto simp: s3_def)
      have "flow m s3 = flow m s2 + (block_flow s3 (b, CreateCode c) - block_flow s2 (b, CreateCode c))"
        using m b by (intro flow_at) (simp_all add: well_built_def s3_def on_create_def)
      then have "flow m s3 = flow m s2 - 1" by (simp add: block_flow_def s3_def on_create_def)
      moreover have "ref \<in># live s2"
        using moved_fits0 [OF mv fit] by (meson mset_subset_eqD mset_subset_eq_add_right multi_member_last)
      ultimately have "moved m rank k {#ref#} s2 s4"
        using free fits by (intro moved_free [where ?s1.0 = s3]) (simp_all add: fits_def s3_def on_create_def)
      with mv have "moved m rank k ({#} + {#ref#}) s1 s4" by (rule moved_trans)
      then have "good m rank k s4" using created Suc.prems(2) by (auto intro: good_moved)
      with rest show ?thesis using Suc.prems(3) by (rule Suc.IH)
    qed
  qed
qed simp

lemma create_body_good:
  assumes "well_built m rank k" "block_of m b = Some (CreateCode c)" "create_body m (enter m d) b c s = Ret (r, s')"
    "good m rank k s" "roomy s'"
  shows "good m rank k s' \<and> (r \<longrightarrow> gs_stop s')"
proof -
  obtain n t where e: "evalE (ct_batch c) no_ref s = Ret (n, t)" and run: "create_loop m (enter m d) b c (unat n) t = Ret (r, s')"
    using assms(3) unfolding create_body_def by (simp add: bind_pair del: bindR_eq_Ret) blast
  have "unmoved m s t" using e by (auto simp: evalE_Ret)
  with assms(4,1) have "good m rank k t" by (rule good_unmoved)
  with run show ?thesis using assms(5) by (rule create_loop_good [OF assms(1,2)])
qed

lemma schedule_create_cases:
  assumes "schedule_create b c s = Ret s'"
  obtains v g where "s' = sim_schedule v (CreateNow b) (s\<lparr>gs_rng := g\<rparr>)"
  using assms by (cases "ct_interval c no_ref s") (auto simp: schedule_create_def evalE_def)

lemma schedule_create_good:
  assumes "well_built m rank k" "schedule_create b c s = Ret s'" "good m rank k s"
  shows "good m rank k s'"
  using assms(2)
proof (rule schedule_create_cases)
  fix v g
  assume "s' = sim_schedule v (CreateNow b) (s\<lparr>gs_rng := g\<rparr>)"
  then have "unmoved m s s'" by simp
  with assms(3,1) show ?thesis by (rule good_unmoved)
qed

lemma schedule_create_pools: "schedule_create b c s = Ret s' \<Longrightarrow> gs_pools s' = gs_pools s"
  by (erule schedule_create_cases) (simp add: sim_schedule_def)

lemma create_main_good:
  assumes m: "well_built m rank k" "block_of m b = Some (CreateCode c)" and run: "create_main m (enter m d) b c s = Ret s'"
    and s: "good m rank k s" and room: "roomy s'"
  shows "good m rank k s'"
proof (cases "ct_immediately c")
  case False
  with run m(1) s show ?thesis by (auto simp: create_main_def intro: schedule_create_good)
next
  case True
  then obtain r s1 where body: "create_body m (enter m d) b c s = Ret (r, s1)"
    and out: "(if r \<or> gs_stop s1 then Ret s1 else schedule_create b c s1) = Ret s'"
    using run unfolding create_main_def by (simp add: bind_pair del: bindR_eq_Ret) blast
  have "roomy s1" using out room schedule_create_pools [of b c s1 s'] by (auto simp: roomy_def split: if_splits)
  with m body s have "good m rank k s1" by (blast dest: create_body_good)
  with out m(1) show ?thesis by (auto intro: schedule_create_good split: if_splits)
qed

lemma on_create_good:
  assumes m: "well_built m rank k" "block_of m b = Some (CreateCode c)" and run: "on_create_event m (enter m d) b c s = Ret s'"
    and s: "good m rank k s" and room: "roomy s'"
  shows "good m rank k s'"
proof (cases "ct_immediately c")
  case True
  with run have "create_main m (enter m d) b c s = Ret s'" by (simp add: on_create_event_def)
  with m show ?thesis using s room by (rule create_main_good)
next
  case False
  then obtain r s1 where body: "create_body m (enter m d) b c s = Ret (r, s1)"
    and out: "(if r \<or> gs_stop s1 then Ret s1 else create_main m (enter m d) b c s1) = Ret s'"
    using run unfolding on_create_event_def by (simp add: bind_pair del: bindR_eq_Ret) blast
  have "pools_grow s1 s'"
    using out pools.F_create_main [OF pools.F_enter block_in_model [OF m(2)] _ pools.F_refl] pools.F_refl
    by (metis run.inject)
  then have "roomy s1" using room by (rule roomy_grow)
  with m body s have "good m rank k s1" by (blast dest: create_body_good)
  with out m room show ?thesis by (auto intro: create_main_good split: if_splits)
qed

section \<open>Delays and timeouts\<close>

lemma pair_code:
  fixes a b x y :: nat
  assumes eq: "a * 4294967296 + x = b * 4294967296 + y" and "x < 4294967296" "y < 4294967296"
  shows "a = b \<and> x = y"
proof -
  have "a = (a * 4294967296 + x) div 4294967296" using assms(2) by simp
  also have "\<dots> = b" unfolding eq using assms(3) by simp
  finally show ?thesis using eq by simp
qed

lemma live_few: "size (live s) \<le> 2 ^ 40"
proof -
  let ?f = "\<lambda>r :: entity_ref. unat (ref_Type r) * 2 ^ 32 + unat (ref_Idx r)"
  have "inj_on ?f (live_refs s)"
  proof (rule inj_onI)
    fix r q
    assume eq: "?f r = ?f q"
    have "unat (ref_Idx r) < 2 ^ 32" "unat (ref_Idx q) < 2 ^ 32"
      using unsigned_less [where 'a = nat, of "ref_Idx r"] unsigned_less [where 'a = nat, of "ref_Idx q"] by simp_all
    with eq have "unat (ref_Type r) = unat (ref_Type q) \<and> unat (ref_Idx r) = unat (ref_Idx q)"
      by (intro pair_code) simp_all
    then show "r = q" by (cases r, cases q) (simp add: word_unat_eq_iff)
  qed
  moreover have "?f r < 2 ^ 40" for r
    using unsigned_less [where 'a = nat, of "ref_Idx r"] unsigned_less [where 'a = nat, of "ref_Type r"] by simp
  then have "?f ` live_refs s \<subseteq> {..<2 ^ 40}" by auto
  ultimately have "card (live_refs s) \<le> card {..<2 ^ 40 :: nat}" by (intro card_inj_on_le) auto
  then show ?thesis by (simp add: live_def)
qed

lemma fits_size: "fits m rank k s \<Longrightarrow> size (places m rank k s) \<le> 2 ^ 40"
  unfolding fits_def by (meson live_few order_trans size_mset_mono)

lemma small_nonzero: "n \<le> 2 ^ 40 \<Longrightarrow> of_nat n + (1 :: u64) \<noteq> 0"
proof -
  assume "n \<le> 2 ^ 40"
  then have "unat (of_nat (Suc n) :: u64) = Suc n"
    by (simp add: unsigned_of_nat take_bit_nat_eq_self del: of_nat_Suc)
  then have "(of_nat (Suc n) :: u64) \<noteq> 0" by (metis nat.distinct(1) unat_0)
  then show ?thesis by (simp add: add.commute)
qed

lemma delay_over_good:
  assumes m: "well_built m rank k" and run: "on_delay_event m (enter m d) b c ref s = Ret s'"
    and s: "sane m s" "places m rank k s + {#ref#} = live s" "queue_slack s = (\<lambda>_. 0)"
      "delay_slack s = (\<lambda>_. 0)(b := 1)" "flow_slack m s = 0"
  shows "good m rank k s'"
proof -
  obtain ok s1 where c1: "enter m d (dc_next c) ref s = Ret (ok, s1)"
    and out: "(if ok then wake_queues m (enter m d) (dc_wake c)
         (on_delay b (\<lambda>x. if 0 < ds_busy x then x\<lparr>ds_busy := ds_busy x - 1\<rparr> else x)
           (on_delay b (\<lambda>x. x\<lparr>ds_exitN := ds_exitN x + 1\<rparr>) s1))
       else if gs_stop s1 then Ret s1
       else Ret (sim_halt (block_stuck b) s1)) = Ret s'"
    using run unfolding on_delay_event_def Let_def by (simp add: bind_pair del: bindR_eq_Ret) blast
  have mv: "moved m rank k (if ok then {#ref#} else {#}) s s1" using enter_moved [OF m c1 s(1)] s(2) by simp
  show ?thesis
  proof (cases ok)
    case False
    have "fits m rank k s" using s(1) by (simp add: fits_def flip: s(2))
    then have "fits m rank k s1" by (rule fits_moved) (use mv False in simp)
    then show ?thesis using out False by (auto intro: good_stopped fits_halt split: if_splits)
  next
    case True
    have "places m rank k s1 + live s = places m rank k s + {#ref#} + live s1" using mv True by (simp add: moved_def)
    then have all: "places m rank k s1 = live s1" using s(2) by (metis add.commute add_left_cancel)
    have sl: "queue_slack s1 = (\<lambda>_. 0)" "delay_slack s1 = (\<lambda>_. 0)(b := 1)" "flow_slack m s1 = 0"
      using mv s by (simp_all add: moved_def books_agree_def)
    have fits: "fits m rank k s1" using moved_sane [OF mv] by (simp add: fits_def all)
    define s2 where "s2 = on_delay b (\<lambda>x. if 0 < ds_busy x then x\<lparr>ds_busy := ds_busy x - 1\<rparr> else x)
      (on_delay b (\<lambda>x. x\<lparr>ds_exitN := ds_exitN x + 1\<rparr>) s1)"
    have "size (delayed_at b s1) \<le> size (places m rank k s1)"
      using size_mset_mono [OF delayed_at_le [of b s1]] by (simp add: places_def)
    then have "size (delayed_at b s1) \<le> 2 ^ 40" using fits_size [OF fits] by simp
    moreover have "ds_busy (gs_delays s1 b) = of_nat (size (delayed_at b s1)) + 1"
      using fun_cong [OF sl(2), of b] by (simp add: delay_slack_def diff_eq_eq add.commute)
    ultimately have busy: "ds_busy (gs_delays s1 b) \<noteq> 0" by (simp add: small_nonzero)
    have same: "gs_pools s2 = gs_pools s1" "gs_queues s2 = gs_queues s1" "gs_events s2 = gs_events s1"
      "gs_creates s2 = gs_creates s1" "gs_counts s2 = gs_counts s1" "gs_stop s2 = gs_stop s1"
      by (simp_all add: s2_def on_delay_def)
    have at: "delayed_at x s2 = delayed_at x s1" for x by (simp add: delayed_at_def same)
    have "delay_slack s2 = (\<lambda>_. 0)"
    proof
      show "delay_slack s2 x = 0" for x
        using fun_cong [OF sl(2), of x] busy
        by (cases "x = b") (simp_all add: delay_slack_def at, simp_all add: s2_def on_delay_def word_gt_0 diff_eq_eq add.commute)
    qed
    moreover have "flow_slack m s2 = flow_slack m s1"
      using flow_only [of s2 s1 m] by (simp add: flow_slack_def same live_def live_refs_def)
    ultimately have "good m rank k s2"
      using fits sl all by (simp add: good_def fits_def sane_def places_def live_def live_refs_def delayed_def
          queue_slack_def [abs_def] same)
    with m True out show ?thesis by (auto simp: s2_def intro: wake_good)
  qed
qed

lemma queue_few:
  assumes "fits m rank k s" "block_of m b = Some (QueueCode c)" "rank b < k"
  shows "length (vrefs (gs_queues s b)) \<le> 2 ^ 40"
proof -
  have "mset (vrefs (gs_queues s b)) \<subseteq># places m rank k s"
    using places_with_queue [OF block_below [where rank = rank, OF assms(2,3)], of s]
    by (meson mset_subset_eq_add_right subset_mset.order_trans)
  from size_mset_mono [OF this] fits_size [OF assms(1)] show ?thesis by simp
qed

lemma timeout_good:
  assumes m: "well_built m rank k" and b: "block_of m b = Some (QueueCode c)"
    and run: "on_timeout_event m (enter m d) b c i s = Ret s'" and s: "good m rank k s" "\<not> gs_stop s"
  shows "good m rank k s'"
proof -
  obtain r q where g: "queue_get i (gs_queues s b) = (r, q)" by (cases "queue_get i (gs_queues s b)")
  show ?thesis
  proof (cases r)
    case None
    then have "q = gs_queues s b" using g by (simp add: vrefs_get_None)
    with run g None s(1) show ?thesis by (simp add: on_timeout_event_def on_queue_def)
  next
    case (Some ref)
    define s1 where "s1 = on_queue b (\<lambda>x. x\<lparr>sq_timeoutN := sq_timeoutN x + 1\<rparr>) (on_queue b (\<lambda>_. q) s)"
    obtain ok s2 where c1: "enter m d (qc_next_timeout c) ref s1 = Ret (ok, s2)"
      and out: "(if ok \<or> gs_stop s2 then Ret s2
        else Ret (sim_halt (timeout_stuck b) s2)) = Ret s'"
      using run g Some unfolding on_timeout_event_def s1_def by (simp add: bind_pair del: bindR_eq_Ret) blast
    have bk: "rank b < k" using m by (simp add: well_built_def)
    have below: "b \<in> below m rank k" using b bk by (rule block_below)
    have same: "gs_pools s1 = gs_pools s" "gs_events s1 = gs_events s" "gs_delays s1 = gs_delays s" "gs_stop s1 = gs_stop s"
      "gs_creates s1 = gs_creates s" "gs_counts s1 = gs_counts s" "live s1 = live s" "delayed s1 = delayed s"
      by (simp_all add: s1_def on_queue_def live_def live_refs_def delayed_def)
    have q1: "gs_queues s1 = (gs_queues s)(b := q\<lparr>sq_timeoutN := sq_timeoutN q + 1\<rparr>)" by (simp add: s1_def on_queue_def)
    have v: "mset (vrefs (gs_queues s b)) = add_mset ref (mset (vrefs (gs_queues s1 b)))"
      and len: "sq_len (gs_queues s1 b) = (if 0 < sq_len (gs_queues s b) then sq_len (gs_queues s b) - 1 else sq_len (gs_queues s b))"
      using vrefs_get_Some [of i "gs_queues s b" ref q] g Some by (simp_all add: q1 vrefs_def)
    have size: "length (vrefs (gs_queues s b)) = Suc (length (vrefs (gs_queues s1 b)))"
      using arg_cong [OF v, of size] by simp
    have fits: "fits m rank k s" and all: "places m rank k s = live s" and sl: "queue_slack s = (\<lambda>_. 0)"
      "delay_slack s = (\<lambda>_. 0)" "flow_slack m s = 0" using s by (simp_all add: good_def)
    have "sq_len (gs_queues s b) = of_nat (length (vrefs (gs_queues s1 b))) + 1"
      using fun_cong [OF sl(1), of b] by (simp add: queue_slack_def size add.commute)
    moreover have "length (vrefs (gs_queues s1 b)) \<le> 2 ^ 40" using queue_few [OF fits b bk] size by simp
    ultimately have "queue_slack s1 b = 0" by (simp add: queue_slack_def len small_nonzero word_gt_0)
    then have "queue_slack s1 = queue_slack s" using sl(1) by (auto simp: fun_eq_iff queue_slack_def q1 split: if_splits)
    then have books: "books_agree m s s1"
      using flow_only [of s1 s m] by (simp add: books_agree_def same flow_slack_def delay_slack_def [abs_def] delayed_at_def)
    have "places m rank k s1 + mset (vrefs (gs_queues s b)) = places m rank k s + mset (vrefs (gs_queues s1 b))"
      by (rule places_queue [OF below same(8)]) (simp add: q1)
    then have p1: "places m rank k s1 + {#ref#} = places m rank k s" by (simp add: v)
    have sane: "sane m s1" using fits by (simp add: fits_def sane_def same)
    have mv: "moved m rank k (if ok then {#ref#} else {#}) s1 s2" using enter_moved [OF m c1 sane] p1 by (simp add: all same)
    show ?thesis
    proof (cases ok)
      case False
      have "places m rank k s1 \<subseteq># live s1" by (metis mset_subset_eq_add_left all p1 same(7))
      with sane have "fits m rank k s1" by (simp add: fits_def)
      then have "fits m rank k s2" by (rule fits_moved) (use mv False in simp)
      then show ?thesis using out False by (auto intro: good_stopped fits_halt split: if_splits)
    next
      case True
      have "kept_above rank k s s1" using bk by (auto simp: kept_above_def q1)
      moreover have "moved m rank k {#ref#} s1 s2" using mv True by simp
      ultimately have "moved m rank k {#} s s2"
        using books by (rule_tac moved_start [where M = "{#ref#}" and ?s1.0 = s1]) (simp_all add: same flip: p1)
      with s(1) have "good m rank k s2" by (rule good_moved)
      with out True show ?thesis by simp
    qed
  qed
qed

section \<open>Runs\<close>

text \<open>The states of a run before every turn of the loop.\<close>

inductive sim_reach :: "'g code_model \<Rightarrow> nat \<Rightarrow> 'g gstate \<Rightarrow> 'g gstate \<Rightarrow> bool" for m d s0 where
  start: "start_blocks m (enter m d) (cm_blocks m) s0 = Ret s \<Longrightarrow> sim_reach m d s0 s"
| turn: "sim_reach m d s0 s \<Longrightarrow> sim_turn m (enter m d) s = Ret (Some s') \<Longrightarrow> sim_reach m d s0 s'"

lemma turn_cases:
  assumes "sim_turn m call s = Ret (Some s')"
  obtains e q h where "eq_pop (gs_events s) = (e, q)" "gs_events s \<noteq> []" "\<not> gs_stop s" "Handler e = Some h"
    "sim_handle m call h (s\<lparr>gs_events := q, gs_clock := Time e\<rparr>) = Ret s'"
proof -
  obtain e q where pop: "eq_pop (gs_events s) = (e, q)" by (cases "eq_pop (gs_events s)")
  have "gs_events s \<noteq> []" using assms by (auto simp: sim_turn_def eq_pop_def Let_def)
  with pop assms that show thesis
    by (cases "Handler e") (auto simp: sim_turn_def Let_def split: if_splits)
qed

lemma start_good:
  assumes m: "well_built m rank k"
  shows "start_blocks m (enter m d) bs s = Ret s' \<Longrightarrow> set bs \<subseteq> set (cm_blocks m) \<Longrightarrow> good m rank k s \<Longrightarrow> roomy s' \<Longrightarrow>
    good m rank k s'"
proof (induction bs arbitrary: s)
  case (Cons p bs)
  obtain b code where p: "p = (b, code)" by (cases p)
  show ?case
  proof (cases code)
    case (CreateCode c)
    then obtain s1 where c1: "create_main m (enter m d) b c s = Ret s1" and rest: "start_blocks m (enter m d) bs s1 = Ret s'"
      using Cons.prems(1) p by auto
    have "block_of m b = Some (CreateCode c)"
      using m Cons.prems(2) p CreateCode by (auto simp: block_of_iff well_built_def)
    moreover have "roomy s1"
      using pools.start_frame [OF rest _ pools.F_refl] Cons.prems(2,4) by (auto intro: roomy_grow)
    ultimately have "good m rank k s1" using m c1 Cons.prems(3) by (blast intro: create_main_good)
    with rest Cons show ?thesis by simp
  qed (use Cons p in auto)
qed simp

lemma turn_good:
  assumes m: "well_built m rank k" and run: "sim_turn m (enter m d) s = Ret (Some s')" and s: "good m rank k s" and room: "roomy s'"
  shows "good m rank k s'"
  using run
proof (rule turn_cases)
  fix e q h
  assume pop: "eq_pop (gs_events s) = (e, q)" and ne: "gs_events s \<noteq> []" and go: "\<not> gs_stop s" and h: "Handler e = Some h"
    and handle: "sim_handle m (enter m d) h (s\<lparr>gs_events := q, gs_clock := Time e\<rparr>) = Ret s'"
  define s1 where "s1 = s\<lparr>gs_events := q, gs_clock := Time e\<rparr>"
  have events: "add_mset e (mset (gs_events s1)) = mset (gs_events s)" using conjunct2 [OF mset_eq_pop [OF ne pop]] by (simp add: s1_def)
  have d: "delayed s = delayed s1 + delay_refs e" "delayed_at b s = delayed_at b s1 + refs_at b e" for b
    by (simp_all add: delayed_def delayed_at_def flip: events)
  have same: "gs_pools s1 = gs_pools s" "gs_queues s1 = gs_queues s" "gs_delays s1 = gs_delays s" "gs_stop s1 = gs_stop s"
    "gs_creates s1 = gs_creates s" "gs_counts s1 = gs_counts s" by (simp_all add: s1_def)
  have quiet: "good m rank k s1" if "delay_refs e = {#}" "\<And>b. refs_at b e = {#}"
    using s m by (rule good_unmoved) (simp add: unmoved_def same d that)
  show ?thesis
  proof (cases h)
    case (CreateNow b)
    then obtain c where "block_of m b = Some (CreateCode c)" "on_create_event m (enter m d) b c s1 = Ret s'"
      using handle by (auto simp: sim_handle_def s1_def split: option.splits block_code.splits)
    moreover have "good m rank k s1" using h CreateNow by (intro quiet) (simp_all add: delay_refs_def refs_at_def)
    ultimately show ?thesis using m room by (blast intro: on_create_good)
  next
    case (TimeoutOver b i)
    then obtain c where "block_of m b = Some (QueueCode c)" "on_timeout_event m (enter m d) b c i s1 = Ret s'"
      using handle by (auto simp: sim_handle_def s1_def split: option.splits block_code.splits)
    moreover have "good m rank k s1" using h TimeoutOver by (intro quiet) (simp_all add: delay_refs_def refs_at_def)
    ultimately show ?thesis using m go same(4) by (blast intro: timeout_good)
  next
    case (DelayOver b ref)
    then obtain c where c: "on_delay_event m (enter m d) b c ref s1 = Ret s'"
      using handle by (auto simp: sim_handle_def s1_def split: option.splits block_code.splits)
    have dr: "delay_refs e = {#ref#}" "\<And>x. refs_at x e = (if b = x then {#ref#} else {#})"
      using h DelayOver by (simp_all add: delay_refs_def refs_at_def)
    have live: "live s1 = live s" by (simp add: live_def live_refs_def same)
    have "sane m s1" using s by (simp add: good_def fits_def sane_def same)
    moreover have "places m rank k s1 + {#ref#} = live s1"
      using s go d(1) dr(1) by (simp add: good_def places_def same live)
    moreover have "queue_slack s1 = (\<lambda>_. 0)" using s go by (simp add: good_def queue_slack_def [abs_def] same)
    moreover have "delay_slack s1 = (\<lambda>_. 0)(b := 1)"
    proof
      have "delay_slack s x = 0" for x using s go by (simp add: good_def)
      then show "delay_slack s1 x = ((\<lambda>_. 0)(b := 1)) x" for x
        using d(2) [of x] dr(2) [of x] by (cases "x = b") (simp_all add: delay_slack_def same diff_eq_eq add.commute)
    qed
    moreover have "flow_slack m s1 = 0" using s go flow_only [of s1 s m] by (simp add: good_def flow_slack_def live same)
    ultimately show ?thesis by (rule delay_over_good [OF m c])
  qed
qed

lemma init_good:
  assumes "well_built m rank k"
  shows "good m rank k (sim_init m rng capacity vars)"
proof -
  let ?s = "sim_init m rng capacity vars"
  have e: "vrefs empty_queue = []" "sq_len empty_queue = 0" by (simp_all add: vrefs_def empty_queue_def)
  have l: "live ?s = {#}" by (simp add: live_def live_refs_def sim_init_def pool_new_ok)
  have d: "delayed ?s = {#}" "delayed_at b ?s = {#}" for b
    by (simp_all add: delayed_def delayed_at_def sim_init_def new_event_queue_def)
  have "block_flow ?s p = 0" for p by (cases "snd p") (simp_all add: block_flow_def sim_init_def)
  then have f: "flow m ?s = 0" by (simp add: flow_def)
  have q: "gs_queues ?s = (\<lambda>_. empty_queue)" "ds_busy (gs_delays ?s b) = 0" for b by (simp_all add: sim_init_def)
  have "sane m ?s" by (simp add: sane_def sim_init_def pool_new_ok)
  then have "fits m rank k ?s" by (simp add: fits_def places_def d q e)
  moreover have "places m rank k ?s = live ?s" by (simp add: places_def d q e l)
  moreover have "queue_slack ?s = (\<lambda>_. 0)" by (rule ext) (simp add: queue_slack_def q e)
  moreover have "delay_slack ?s = (\<lambda>_. 0)" by (rule ext) (simp add: delay_slack_def d q)
  moreover have "flow_slack m ?s = 0" by (simp add: flow_slack_def f l)
  ultimately show ?thesis by (simp add: good_def)
qed

lemma reach_good:
  assumes m: "well_built m rank k" and run: "sim_reach m d (sim_init m rng capacity vars) s" and room: "roomy s"
  shows "good m rank k s"
  using run room
proof (induction rule: sim_reach.induct)
  case (start s)
  from start_good [OF m start.hyps subset_refl init_good [OF m] start.prems] show ?case .
next
  case (turn s s')
  have "pools_grow s s'"
    using turn.hyps(2)
  proof (rule turn_cases)
    fix e q h
    assume "sim_handle m (enter m d) h (s\<lparr>gs_events := q, gs_clock := Time e\<rparr>) = Ret s'"
    then have "pools_grow (s\<lparr>gs_events := q, gs_clock := Time e\<rparr>) s'" by (rule pools.handle_frame)
    then show ?thesis by (simp add: pools_grow_def)
  qed
  then have "roomy s" using turn.prems by (rule roomy_grow)
  from turn_good [OF m turn.hyps(2) turn.IH [OF this] turn.prems] show ?case .
qed

end
