(* ===== verification/Sim_Statistics.thy ===== *)
theory Sim_Statistics
  imports Sim_Entities
begin

text \<open>
  What a running simulator keeps: every entity is in exactly one place, the statistics of the
  blocks add up, and every turn of the loop ends.
\<close>

section \<open>Owners of events\<close>

definition owned_event :: "'g code_model \<Rightarrow> sim_handler event \<Rightarrow> bool" where
  "owned_event m e = (case Handler e of
       None \<Rightarrow> False
     | Some (CreateNow b) \<Rightarrow> (\<exists>c. block_of m b = Some (CreateCode c))
     | Some (DelayOver b _) \<Rightarrow> (\<exists>c. block_of m b = Some (DelayCode c))
     | Some (TimeoutOver b _) \<Rightarrow> (\<exists>c. block_of m b = Some (QueueCode c) \<and> qc_timeout c \<noteq> None))"

definition owned :: "'g code_model \<Rightarrow> 'g gstate \<Rightarrow> bool" where
  "owned m s \<longleftrightarrow> (\<forall>e \<in> set (gs_events s). owned_event m e)"

definition keeps_owners :: "'g code_model \<Rightarrow> 'g gstate \<Rightarrow> 'g gstate \<Rightarrow> bool" where
  "keeps_owners m s t \<longleftrightarrow> (distinct_blocks m \<longrightarrow> owned m s \<longrightarrow> owned m t)"

lemma set_eq_push: "set (eq_push q e) = insert e (set q)"
  using mset_eq_push [of q e] by (metis set_mset_add_mset_insert set_mset_mset add_mset_add_single)

interpretation owners: handler_frame m "keeps_owners m"
proof (unfold_locales, goal_cases)
  case (10 b code x h s)
  then show ?case
    by (auto simp: keeps_owners_def owned_def sim_schedule_def set_eq_push owned_event_def schedules_def
        simp flip: block_of_iff split: block_code.splits)
next
  case (11 ref s s')
  then show ?case
    by (auto simp: keeps_owners_def owned_def sim_free_def sim_halt_def split: option.splits)
qed (auto simp: keeps_owners_def owned_def sim_halt_def on_queue_def on_delay_def on_resource_def on_create_def
      write_target_def set_field_def Let_def split: assign_target.splits)

lemma reach_owned:
  assumes m: "distinct_blocks m" and run: "sim_reach m d (sim_init m rng capacity vars) s"
  shows "owned m s"
  using run
proof (induction rule: sim_reach.induct)
  case (start s)
  have "keeps_owners m (sim_init m rng capacity vars) s"
    by (rule owners.start_frame [OF start.hyps subset_refl owners.F_refl])
  with m show ?case by (simp add: keeps_owners_def owned_def sim_init_def new_event_queue_def)
next
  case (turn s s')
  from turn.hyps(2) show ?case
  proof (rule turn_cases)
    fix e q h
    assume pop: "eq_pop (gs_events s) = (e, q)" "gs_events s \<noteq> []"
      and handle: "sim_handle m (enter m d) h (s\<lparr>gs_events := q, gs_clock := Time e\<rparr>) = Ret s'"
    have "keeps_owners m (s\<lparr>gs_events := q, gs_clock := Time e\<rparr>) s'" using handle by (rule owners.handle_frame)
    moreover have "set q \<subseteq> set (gs_events s)"
      using conjunct2 [OF mset_eq_pop [OF pop(2,1)]] by (metis set_mset_add_mset_insert set_mset_mset subset_insertI)
    ultimately show ?thesis using m turn.IH by (auto simp: keeps_owners_def owned_def)
  qed
qed

section \<open>Sums over the blocks\<close>

text \<open>All entities that wait in a queue of the model or for the end of a delay.\<close>

definition whereabouts :: "'g code_model \<Rightarrow> 'g gstate \<Rightarrow> entity_ref multiset" where
  "whereabouts m s =
     (\<Sum>(b, code)\<leftarrow>cm_blocks m. case code of QueueCode _ \<Rightarrow> mset (vrefs (gs_queues s b)) | DelayCode _ \<Rightarrow> delayed_at b s | _ \<Rightarrow> {#})"

text \<open>The numbers that the blocks report for it.\<close>

definition block_load :: "'g gstate \<Rightarrow> string \<times> 'g block_code \<Rightarrow> u64" where
  "block_load s p = (case snd p of
       QueueCode _ \<Rightarrow> sq_len (gs_queues s (fst p)) | DelayCode _ \<Rightarrow> ds_busy (gs_delays s (fst p)) | _ \<Rightarrow> 0)"

lemma sum_list_blocks:
  assumes "distinct_blocks m"
  shows "(\<Sum>p\<leftarrow>cm_blocks m. f p) = (\<Sum>p\<in>set (cm_blocks m). f p)"
  using assms by (intro sum_list_distinct_conv_sum_set) (simp add: distinct_blocks_def distinct_map)

lemma delayed_sum:
  assumes m: "distinct_blocks m" and s: "owned m s"
  shows "delayed s = (\<Sum>(b, code)\<leftarrow>cm_blocks m. case code of DelayCode _ \<Rightarrow> delayed_at b s | _ \<Rightarrow> {#})"
proof -
  have one: "(\<Sum>(b, code)\<leftarrow>cm_blocks m. case code of DelayCode _ \<Rightarrow> refs_at b e | _ \<Rightarrow> {#}) = delay_refs e" if "owned_event m e" for e
  proof (cases "\<exists>b ref. Handler e = Some (DelayOver b ref)")
    case True
    then obtain b ref where h: "Handler e = Some (DelayOver b ref)" by blast
    with that obtain c where bo: "block_of m b = Some (DelayCode c)" by (auto simp: owned_event_def)
    then have c: "(b, DelayCode c) \<in> set (cm_blocks m)" by (rule block_in_model)
    have "(case p of (x, code) \<Rightarrow> case code of DelayCode _ \<Rightarrow> refs_at x e | _ \<Rightarrow> {#}) =
        (if p = (b, DelayCode c) then {#ref#} else {#})" if p: "p \<in> set (cm_blocks m)" for p
    proof -
      obtain x code where [simp]: "p = (x, code)" by (cases p)
      have "block_of m x = Some code" using p m by (simp add: block_of_iff)
      then show ?thesis using bo h by (cases "x = b") (auto simp: refs_at_def split: block_code.split)
    qed
    then show ?thesis
      unfolding sum_list_blocks [OF m] using c h by (simp add: delay_refs_def cong: sum.cong)
  next
    case False
    then have "refs_at b e = {#}" "delay_refs e = {#}" for b
      by (auto simp: refs_at_def delay_refs_def split: option.split sim_handler.split)
    then have "(\<lambda>(b, code :: 'a block_code). case code of DelayCode _ \<Rightarrow> refs_at b e | _ \<Rightarrow> {#}) = (\<lambda>_. {#})"
      by (auto split: block_code.split)
    with \<open>delay_refs e = {#}\<close> show ?thesis by (simp only: sum_list_0)
  qed
  have "(\<Sum>e\<in>#E. delay_refs e) = (\<Sum>(b, code)\<leftarrow>cm_blocks m. case code of DelayCode _ \<Rightarrow> (\<Sum>e\<in>#E. refs_at b e) | _ \<Rightarrow> {#})"
    if "\<forall>e \<in># E. owned_event m e" for E
    using that
  proof (induction E)
    case empty
    have "(\<lambda>(b :: string, code :: 'a block_code). case code of DelayCode _ \<Rightarrow> {#} | _ \<Rightarrow> {#}) =
        (\<lambda>_. {#} :: entity_ref multiset)"
      by (auto split: block_code.split)
    then show ?case by (simp only: image_mset_empty sum_mset.empty sum_list_0)
  next
    case (add e E)
    have "(\<Sum>p\<leftarrow>cm_blocks m. f p) + (\<Sum>p\<leftarrow>cm_blocks m. g p) = (\<Sum>p\<leftarrow>cm_blocks m. f p + g p)"
      for f g :: "string \<times> 'a block_code \<Rightarrow> entity_ref multiset" by (simp add: sum_list_addf)
    note sums = this
    show ?case
      using add one [of e, symmetric]
      by (simp add: sums split_def, intro arg_cong [where f = sum_list] map_cong refl) (simp split: block_code.split)
  qed
  from this [of "mset (gs_events s)"] s show ?thesis unfolding delayed_def delayed_at_def owned_def by simp
qed

lemma queues_sum:
  assumes m: "well_built m rank k"
  shows "(\<Sum>q\<in>below m rank k. V q) = (\<Sum>(b, code)\<leftarrow>cm_blocks m. case code of QueueCode _ \<Rightarrow> V b | _ \<Rightarrow> ({#} :: entity_ref multiset))"
proof -
  let ?Q = "{p \<in> set (cm_blocks m). \<exists>c. snd p = QueueCode c}"
  have d: "distinct_blocks m" using m by (simp add: well_built_def)
  have inj: "inj_on fst ?Q"
    using d by (auto simp: inj_on_def distinct_blocks_def dest: eq_key_imp_eq_value)
  have below: "below m rank k = fst ` ?Q"
  proof
    show "below m rank k \<subseteq> fst ` ?Q" by (force simp: below_def dest: block_in_model)
    show "fst ` ?Q \<subseteq> below m rank k" using m d by (auto simp: below_def well_built_def block_of_iff)
  qed
  have "(\<Sum>p\<in>set (cm_blocks m). case p of (b, code) \<Rightarrow> case code of QueueCode _ \<Rightarrow> V b | _ \<Rightarrow> {#}) =
      (\<Sum>p\<in>?Q. case p of (b, code) \<Rightarrow> case code of QueueCode _ \<Rightarrow> V b | _ \<Rightarrow> {#})"
    by (intro sum.mono_neutral_right) (auto split: block_code.splits)
  also have "\<dots> = (\<Sum>p\<in>?Q. V (fst p))" by (intro sum.cong) auto
  also have "\<dots> = (\<Sum>q\<in>below m rank k. V q)" unfolding below sum.reindex [OF inj] by simp
  finally show ?thesis unfolding sum_list_blocks [OF d] by simp
qed

lemma places_whereabouts:
  assumes m: "well_built m rank k" and s: "owned m s"
  shows "places m rank k s = whereabouts m s"
proof -
  have d: "distinct_blocks m" using m by (simp add: well_built_def)
  have "whereabouts m s =
      (\<Sum>p\<leftarrow>cm_blocks m. (case p of (b, code) \<Rightarrow> case code of QueueCode _ \<Rightarrow> mset (vrefs (gs_queues s b)) | _ \<Rightarrow> {#}) +
        (case p of (b, code) \<Rightarrow> case code of DelayCode _ \<Rightarrow> delayed_at b s | _ \<Rightarrow> {#}))"
    unfolding whereabouts_def by (intro arg_cong [where f = sum_list] map_cong refl) (auto split: block_code.split)
  also have "\<dots> = places m rank k s"
    unfolding sum_list_addf places_def queues_sum [OF m] delayed_sum [OF d s] ..
  finally show ?thesis ..
qed

lemma of_nat_size_sum:
  fixes f :: "'a \<Rightarrow> 'b multiset"
  shows "of_nat (size (\<Sum>p\<leftarrow>ps. f p)) = (\<Sum>p\<leftarrow>ps. of_nat (size (f p)) :: u64)"
  by (induction ps) simp_all

lemma good_flow:
  assumes m: "well_built m rank k" and s: "good m rank k s" "owned m s" "\<not> gs_stop s"
  shows "flow m s = (\<Sum>p\<leftarrow>cm_blocks m. block_load s p)"
proof -
  have sl: "queue_slack s b = 0" "delay_slack s b = 0" "flow_slack m s = 0" and all: "places m rank k s = live s" for b
    using s by (simp_all add: good_def)
  have "flow m s = of_nat (size (whereabouts m s))"
    using sl(3) places_whereabouts [OF m s(2)] by (simp add: flow_slack_def flip: all)
  also have "\<dots> = (\<Sum>p\<leftarrow>cm_blocks m. block_load s p)"
    unfolding whereabouts_def of_nat_size_sum
  proof (intro arg_cong [where f = sum_list] map_cong refl)
    fix p :: "string \<times> 'a block_code"
    show "of_nat (size (case p of (b, code) \<Rightarrow> case code of QueueCode _ \<Rightarrow> mset (vrefs (gs_queues s b)) | DelayCode _ \<Rightarrow> delayed_at b s | _ \<Rightarrow> {#})) =
        block_load s p"
      using sl by (cases p) (simp add: block_load_def queue_slack_def delay_slack_def split: block_code.split)
  qed
  finally show ?thesis .
qed

section \<open>Turns end\<close>

lemma create_loop_settles: "(\<And>b ref s. call b ref s \<noteq> Deep) \<Longrightarrow> create_loop m call b c n s \<noteq> Deep"
proof (induction n arbitrary: s)
  case (Suc n)
  obtain i p where "pool_alloc [] (gs_pools s (ct_entity c)) = (i, p)" by (cases "pool_alloc [] (gs_pools s (ct_entity c))")
  moreover have "sim_free m ref t \<noteq> Deep" for ref t by (simp add: sim_free_def split: option.split)
  ultimately show ?case using Suc by (simp add: Let_def split_beta)
qed simp

lemma create_settles:
  assumes "\<And>b ref s. call b ref s \<noteq> Deep"
  shows "create_main m call b c s \<noteq> Deep" "on_create_event m call b c s \<noteq> Deep"
proof -
  have s: "schedule_create b c t \<noteq> Deep" and b: "create_body m call b c t \<noteq> Deep" for t
    using create_loop_settles [OF assms] by (simp_all add: schedule_create_def create_body_def split_beta)
  show main: "create_main m call b c s \<noteq> Deep" for s by (simp add: create_main_def split_beta s b)
  show "on_create_event m call b c s \<noteq> Deep" by (simp add: on_create_event_def split_beta main b)
qed

lemma timeout_settles:
  assumes "\<And>b ref s. call b ref s \<noteq> Deep"
  shows "on_timeout_event m call b c i s \<noteq> Deep"
  using assms by (cases "queue_get i (gs_queues s b)"; cases "fst (queue_get i (gs_queues s b))")
    (simp_all add: on_timeout_event_def split_beta)

lemma handle_settles:
  assumes m: "well_built m rank k" and d: "k \<le> d"
  shows "sim_handle m (enter m d) h s \<noteq> Deep"
proof -
  have r: "ranked m rank" "rank b < d" for b
    using m d order.strict_trans2 unfolding well_built_def by blast+
  have call: "enter m d b ref s \<noteq> Deep" for b ref s using enter_settles [OF r(1), of d] r(2) by (simp add: settles_def)
  have wake: "wake_queues m (enter m d) qs s \<noteq> Deep" for qs s
    using wake_settles [OF r(1) enter_settles [OF r(1)]] r(2) by (simp add: less_imp_le)
  have "on_delay_event m (enter m d) b c ref s \<noteq> Deep" for b c ref
    using call wake by (simp add: on_delay_event_def Let_def split_beta)
  with create_settles [OF call] timeout_settles [OF call] show ?thesis
    by (simp add: sim_handle_def split: sim_handler.split option.split block_code.split)
qed

lemma start_settles: "(\<And>b ref s. call b ref s \<noteq> Deep) \<Longrightarrow> start_blocks m call bs s \<noteq> Deep"
proof (induction bs arbitrary: s)
  case (Cons p bs)
  obtain b code where p: "p = (b, code)" by (cases p)
  have "create_main m call b c t \<noteq> Deep" for c t using Cons.prems by (rule create_settles)
  with Cons p show ?case by (simp split: block_code.split)
qed simp

text \<open>A deeper bound changes nothing.\<close>

definition agree :: "(string \<Rightarrow> nat) \<Rightarrow> nat \<Rightarrow> 'g call \<Rightarrow> 'g call \<Rightarrow> bool" where
  "agree rank n f g \<longleftrightarrow> (\<forall>b. rank b < n \<longrightarrow> f b = g b)"

lemma advance_agree:
  assumes m: "ranked m rank" and fg: "agree rank n f g" and q: "rank q \<le> n"
  shows "try_advance m f q s = try_advance m g q s"
proof (cases "block_of m q")
  case (Some code)
  have "f (qc_next c) = g (qc_next c)" if "code = QueueCode c" for c
  proof -
    have "rank (qc_next c) < rank q" using m Some by (rule ranked_call) (simp add: that calls_of_def)
    with fg q show ?thesis by (simp add: agree_def)
  qed
  with Some show ?thesis by (cases code) (simp_all add: try_advance_def cong: option.case_cong)
qed (simp add: try_advance_def)

lemma wake_agree:
  assumes "ranked m rank" "agree rank n f g" "\<forall>q \<in> set qs. rank q \<le> n"
  shows "wake_queues m f qs s = wake_queues m g qs s"
  using assms(3)
proof (induction qs arbitrary: s)
  case (Cons q qs)
  have "try_advance m f q s = try_advance m g q s" by (rule advance_agree [OF assms(1,2)]) (simp add: Cons.prems)
  moreover have "wake_queues m f qs = wake_queues m g qs" using Cons by (intro ext) simp
  ultimately show ?case by (simp cong: if_cong)
qed simp

lemma branch_agree:
  assumes "\<forall>k \<in> set ks. f (kc_next k) = g (kc_next k)" "\<forall>e. els = Some e \<longrightarrow> f e = g e"
  shows "branch_main f b ks els ref s = branch_main g b ks els ref s"
  using assms(1)
proof (induction ks arbitrary: s)
  case Nil
  with assms(2) show ?case by (simp add: branch_next_def split: option.split)
next
  case (Cons k ks)
  have "branch_main f b ks els ref = branch_main g b ks els ref" using Cons by (intro ext) simp
  with Cons.prems show ?case by (simp add: branch_next_def cong: if_cong)
qed

lemma block_agree:
  assumes m: "ranked m rank" and fg: "agree rank n f g"
  shows "agree rank (Suc n) (block_step m f) (block_step m g)"
  unfolding agree_def
proof (intro allI impI ext)
  fix b ref s
  assume b: "rank b < Suc n"
  show "block_step m f b ref s = block_step m g b ref s"
  proof (cases "block_of m b")
    case (Some code)
    have low: "f x = g x" "rank x \<le> n" if "x \<in> set (calls_of code)" for x
      using ranked_call [OF m Some that] b fg by (simp_all add: agree_def)
    have store: "queue_store m f b c ref t = queue_store m g b c ref t" for c t
    proof -
      have "try_advance m f b = try_advance m g b" using b by (intro ext advance_agree [OF m fg]) simp
      then show ?thesis by (simp add: queue_store_def)
    qed
    have wake: "wake_queues m f qs t = wake_queues m g qs t" if "set qs \<subseteq> set (calls_of code)" for qs t
      using low(2) that by (intro wake_agree [OF m fg]) auto
    show ?thesis
    proof (cases code)
      case (QueueCode c)
      with Some store low show ?thesis
        by (cases "qc_overflow c") (simp_all add: block_step_def queue_main_def calls_of_def cong: if_cong option.case_cong)
    next
      case (ReleaseCode r nxt qs)
      with wake [of qs] have "wake_queues m f qs = wake_queues m g qs" by (intro ext) (auto simp: calls_of_def)
      with Some ReleaseCode low show ?thesis by (simp add: block_step_def release_main_def calls_of_def Let_def cong: if_cong)
    next
      case (BranchCode ks els)
      with Some low show ?thesis by (simp add: block_step_def calls_of_def) (rule branch_agree, auto)
    qed (use Some low in \<open>simp_all add: block_step_def seize_main_def assign_main_def calls_of_def Let_def\<close>)
  qed (simp add: block_step_def)
qed

lemma enter_agree:
  assumes m: "ranked m rank"
  shows "n \<le> d \<Longrightarrow> agree rank n (enter m n) (enter m d)"
proof (induction n arbitrary: d)
  case 0
  then show ?case by (simp add: agree_def)
next
  case (Suc n)
  then obtain e where d: "d = Suc e" "n \<le> e" by (cases d) auto
  have "enter m (Suc x) = block_step m (enter m x)" for x by (intro ext) simp
  with block_agree [OF m Suc.IH [OF d(2)]] d(1) show ?case by simp
qed

section \<open>Properties\<close>



text \<open>
  C31. In a model whose zero-time calls have decreasing ranks, the start of the CREATE blocks
  and every turn of the loop end, whatever the state is: no chain of calls is deeper than the
  number of ranks, and a larger bound on the depth gives the same functions.
\<close>

theorem turns_end:
  assumes "well_built m rank k" "k \<le> d"
  shows "start_blocks m (enter m d) (cm_blocks m) s \<noteq> Deep \<and> sim_turn m (enter m d) t \<noteq> Deep \<and>
    enter m d = enter m k"
proof -
  have r: "ranked m rank" "rank b < k" "rank b < d" for b
    using assms order.strict_trans2 unfolding well_built_def by blast+
  have "enter m d b ref s \<noteq> Deep" for b ref s using enter_settles [OF r(1), of d] r(3) by (simp add: settles_def)
  moreover have "sim_turn m (enter m d) t \<noteq> Deep"
    using handle_settles [OF assms]
    by (cases "eq_pop (gs_events t)"; cases "Handler (fst (eq_pop (gs_events t)))") (simp_all add: sim_turn_def Let_def)
  moreover have "enter m d = enter m k"
    using enter_agree [OF r(1) assms(2)] r(2) by (intro ext) (simp add: agree_def)
  ultimately show ?thesis by (simp add: start_settles)
qed

end
