(* ===== verification/Sim_Office.thy ===== *)
theory Sim_Office
  imports Sim_Statistics
begin

text \<open>
  An example: one entity after the other is created, waits for a clerk, is marked, and is served
  for a time of 3. The first turn is worked out, and the properties of generated simulators
  are applied to it.
\<close>

section \<open>The model\<close>

definition always :: "'v \<Rightarrow> (unit, 'v) sim_expr" where
  "always v = (\<lambda>_ _. Some (v, ()))"

definition office :: "unit code_model" where
  "office = \<lparr>cm_blocks =
     [(''src'', CreateCode \<lparr>ct_interval = always (Fin 5), ct_immediately = True, ct_batch = always 1, ct_entity = 1,
         ct_defaults = [VInt64 0], ct_destroy = False, ct_next = ''line''\<rparr>),
      (''line'', QueueCode \<lparr>qc_capacity = Some (always 10), qc_overflow = None, qc_timeout = None, qc_guard = None,
         qc_next_timeout = [], qc_next = ''take''\<rparr>),
      (''take'', SeizeCode ''clerk'' ''mark''),
      (''mark'', AssignCode [\<lparr>ac_target = TField 0, ac_guard = Some (1, ''Client''), ac_value = always (VInt64 1)\<rparr>] ''serve''),
      (''serve'', DelayCode \<lparr>dc_capacity = Some (always 1), dc_duration = always (Fin 3), dc_guard = None, dc_next = ''give'', dc_wake = []\<rparr>),
      (''give'', ReleaseCode ''clerk'' ''leave'' [''line'']),
      (''leave'', TerminateCode)],
     cm_zero = [1 \<mapsto> [VInt64 0]]\<rparr>"

definition office_rank :: "string \<Rightarrow> nat" where
  "office_rank = (\<lambda>_. 0)(''line'' := 3, ''take'' := 2, ''mark'' := 1, ''give'' := 4)"

definition office_init :: "unit gstate" where
  "office_init = sim_init office () (\<lambda>_. 1) (\<lambda>_. VInt64 0)"

lemma office_built: "well_built office office_rank 5"
  by (simp add: well_built_def distinct_blocks_def ranked_def office_def office_rank_def calls_of_def)

lemma office_blocks:
  "block_of office ''line'' = Some (QueueCode \<lparr>qc_capacity = Some (always 10), qc_overflow = None, qc_timeout = None,
     qc_guard = None, qc_next_timeout = [], qc_next = ''take''\<rparr>)"
  "block_of office ''take'' = Some (SeizeCode ''clerk'' ''mark'')"
  "block_of office ''mark'' = Some (AssignCode [\<lparr>ac_target = TField 0, ac_guard = Some (1, ''Client''), ac_value = always (VInt64 1)\<rparr>] ''serve'')"
  "block_of office ''serve'' = Some (DelayCode \<lparr>dc_capacity = Some (always 1), dc_duration = always (Fin 3), dc_guard = None,
     dc_next = ''give'', dc_wake = []\<rparr>)"
  by (simp_all add: block_of_def office_def)

lemma evalE_always: "evalE (always v) ref s = Ret (v, s)"
  by (simp add: evalE_def always_def)

definition served :: "entity_ref \<Rightarrow> unit gstate \<Rightarrow> unit gstate" where
  "served ref s = sim_schedule (Fin 3) (DelayOver ''serve'' ref)
     (on_delay ''serve'' (\<lambda>d. if ds_maxBusy d < ds_busy d then d\<lparr>ds_maxBusy := ds_busy d\<rparr> else d)
       (on_delay ''serve'' (\<lambda>d. d\<lparr>ds_enterN := ds_enterN d + 1, ds_busy := ds_busy d + 1\<rparr>) s))"

lemma enter_serve:
  "enter office (Suc n) ''serve'' ref s =
     (if 1 \<le> ds_busy (gs_delays s ''serve'') then Ret (False, s) else Ret (True, served ref s))"
  by (simp add: block_step_def office_blocks delay_main_def delay_start_def evalE_always guard_ok_def served_def Let_def)

lemma enter_mark:
  assumes "ref_Type ref = 1" "pool_get (gs_pools s 1) (ref_Idx ref) = Some [v]"
  shows "enter office (Suc (Suc n)) ''mark'' ref s =
    (if 1 \<le> ds_busy (gs_delays s ''serve'')
     then Ret (False, write_target (TField 0) v ref (write_target (TField 0) (VInt64 1) ref s))
     else Ret (True, passed ''mark'' (served ref (write_target (TField 0) (VInt64 1) ref s))))"
proof -
  have "gs_delays (write_target (TField 0) (VInt64 1) ref s) = gs_delays s"
    by (simp add: write_target_def set_field_def Let_def)
  with assms enter_serve [of n ref "write_target (TField 0) (VInt64 1) ref s"] show ?thesis
    by (simp del: enter.simps add: enter.simps(2) [of office "Suc n"] block_step_def office_blocks assign_main_def guard_ok_def read_target_def evalE_always)
qed


lemma enter_take:
  assumes "ref_Type ref = 1" "pool_get (gs_pools s 1) (ref_Idx ref) = Some [v]" "rs_busy (gs_resources s ''clerk'') = 0"
    "rs_capacity (gs_resources s ''clerk'') = 1" "ds_busy (gs_delays s ''serve'') = 0"
  shows "enter office (Suc (Suc (Suc n))) ''take'' ref s =
    Ret (True, on_resource ''clerk'' (\<lambda>x. x\<lparr>rs_seizeN := rs_seizeN x + 1\<rparr>) (passed ''take'' (passed ''mark'' (served ref
      (write_target (TField 0) (VInt64 1) ref
        (on_resource ''clerk'' (\<lambda>x. x\<lparr>rs_busy := 1, rs_maxBusy := max (rs_maxBusy x) 1\<rparr>) s))))))"
proof -
  let ?s = "on_resource ''clerk'' (\<lambda>x. x\<lparr>rs_busy := 1, rs_maxBusy := max (rs_maxBusy x) 1\<rparr>) s"
  have "gs_pools ?s = gs_pools s" "gs_delays ?s = gs_delays s" by (simp_all add: on_resource_def)
  with assms enter_mark [of ref ?s v n] show ?thesis
    by (simp del: enter.simps add: enter.simps(2) [of office "Suc (Suc n)"] block_step_def office_blocks seize_main_def Let_def)
qed

section \<open>The start\<close>

definition first :: entity_ref where
  "first = \<lparr>ref_Type = 1, ref_Idx = 0\<rparr>"

definition arrived :: "unit gstate" where
  "arrived = on_queue ''line'' (\<lambda>q. snd (queue_push first q)) (on_queue ''line'' (\<lambda>q. q\<lparr>sq_enterN := sq_enterN q + 1\<rparr>)
     (on_create ''src'' (\<lambda>x. x\<lparr>cc_createdN := cc_createdN x + 1\<rparr>)
       (office_init\<lparr>gs_pools := (gs_pools office_init)(1 := \<lparr>Entities = [[VInt64 0]], FreeList = []\<rparr>)\<rparr>)))"

definition taken :: "unit gstate" where
  "taken = on_resource ''clerk'' (\<lambda>x. x\<lparr>rs_seizeN := rs_seizeN x + 1\<rparr>) (passed ''take'' (passed ''mark'' (served first
      (write_target (TField 0) (VInt64 1) first
        (on_resource ''clerk'' (\<lambda>x. x\<lparr>rs_busy := 1, rs_maxBusy := max (rs_maxBusy x) 1\<rparr>) arrived)))))"

lemma advance_line:
  "try_advance office (enter office 3) ''line'' arrived =
     Ret (True, on_queue ''line'' (\<lambda>x. x\<lparr>sq_exitN := sq_exitN x + 1\<rparr>) (on_queue ''line'' queue_delete taken))"
proof -
  have q: "queue_top (gs_queues arrived ''line'') = (Some first, gs_queues arrived ''line'')"
    by (simp add: arrived_def on_queue_def on_create_def office_init_def sim_init_def empty_queue_def queue_push_def
        queue_top_def drop_invalid_def Let_def)
  have "on_queue ''line'' (\<lambda>_. gs_queues arrived ''line'') arrived = arrived" by (simp add: on_queue_def)
  moreover have "enter office 3 ''take'' first arrived = Ret (True, taken)"
  proof -
    have "enter office (Suc (Suc (Suc 0))) ''take'' first arrived = Ret (True, taken)"
      unfolding taken_def
      by (rule enter_take [where v = "VInt64 0"])
        (simp_all add: first_def pool_get_def arrived_def on_queue_def on_create_def office_init_def sim_init_def)
    then show ?thesis by (simp only: numeral_3_eq_3)
  qed
  ultimately show ?thesis using q by (simp add: try_advance_def office_blocks)
qed

definition office_start :: "unit gstate" where
  "office_start = sim_schedule (Fin 5) (CreateNow ''src'') (on_create ''src'' (\<lambda>x. x\<lparr>cc_exitN := cc_exitN x + 1\<rparr>)
     (on_queue ''line'' (\<lambda>x. x\<lparr>sq_exitN := sq_exitN x + 1\<rparr>) (on_queue ''line'' queue_delete taken)))"

lemma enter_line:
  fixes s :: "unit gstate"
  defines "s \<equiv> on_create ''src'' (\<lambda>x. x\<lparr>cc_createdN := cc_createdN x + 1\<rparr>)
    (office_init\<lparr>gs_pools := (gs_pools office_init)(1 := \<lparr>Entities = [[VInt64 0]], FreeList = []\<rparr>)\<rparr>)"
  shows "enter office 4 ''line'' first s =
     Ret (True, on_queue ''line'' (\<lambda>x. x\<lparr>sq_exitN := sq_exitN x + 1\<rparr>) (on_queue ''line'' queue_delete taken))"
proof -
  have four: "(4 :: nat) = Suc 3" by simp
  have "gs_queues s ''line'' = empty_queue" by (simp add: s_def on_create_def office_init_def sim_init_def)
  moreover have "arrived = on_queue ''line'' (\<lambda>q. snd (queue_push first q)) (on_queue ''line'' (\<lambda>q. q\<lparr>sq_enterN := sq_enterN q + 1\<rparr>) s)"
    by (simp add: arrived_def s_def)
  moreover have "enter office 4 ''line'' first s = block_step office (enter office 3) ''line'' first s"
    unfolding four by (rule enter.simps)
  ultimately show ?thesis using advance_line
    by (simp del: enter.simps add: block_step_def office_blocks queue_main_def queue_store_def evalE_always empty_queue_def Let_def)
qed

lemma office_starts: "start_blocks office (enter office 4) (cm_blocks office) office_init = Ret office_start"
proof -
  let ?src = "\<lparr>ct_interval = always (Fin 5), ct_immediately = True, ct_batch = always 1, ct_entity = 1,
         ct_defaults = [VInt64 0], ct_destroy = False, ct_next = ''line''\<rparr> :: unit create_code"
  have alloc: "pool_alloc [] (gs_pools office_init 1) = (0, \<lparr>Entities = [[]], FreeList = []\<rparr>)"
    by (simp add: office_init_def sim_init_def new_pool_def pool_alloc_def Let_def)
  have stop: "gs_stop office_start = False"
    by (simp add: office_start_def taken_def arrived_def served_def on_queue_def on_delay_def on_create_def on_resource_def
        passed_def write_target_def set_field_def sim_schedule_def office_init_def sim_init_def Let_def)
  have "create_loop office (enter office 4) ''src'' ?src (Suc 0) office_init =
      Ret (False, on_create ''src'' (\<lambda>x. x\<lparr>cc_exitN := cc_exitN x + 1\<rparr>)
     (on_queue ''line'' (\<lambda>x. x\<lparr>sq_exitN := sq_exitN x + 1\<rparr>) (on_queue ''line'' queue_delete taken)))"
    using enter_line alloc by (simp add: Let_def flip: first_def)
  then have "create_main office (enter office 4) ''src'' ?src office_init = Ret office_start"
    using stop by (simp add: create_main_def create_body_def evalE_always schedule_create_def office_start_def sim_schedule_def)
  then show ?thesis by (simp add: office_def [THEN arg_cong, of cm_blocks])
qed

lemmas office_steps = office_start_def taken_def arrived_def served_def on_queue_def on_delay_def on_create_def on_resource_def
  passed_def write_target_def set_field_def sim_schedule_def office_init_def sim_init_def

lemma office_open: "\<not> gs_stop office_start" "roomy office_start"
  by (simp_all add: office_steps first_def roomy_def Let_def new_pool_def)

lemma office_reached: "sim_reach office 4 (sim_init office () (\<lambda>_. 1) (\<lambda>_. VInt64 0)) office_start"
  by (rule sim_reach.start) (rule office_starts [unfolded office_init_def])

section \<open>The properties at the example\<close>

theorem refusal_is_transactional_witness:
  "\<exists>s'. enter office 2 ''mark'' first office_start = Ret (False, s') \<and> gs_pools s' = gs_pools office_start"
proof -
  have "ref_Type first = 1" "pool_get (gs_pools office_start 1) (ref_Idx first) = Some [VInt64 1]"
    "1 \<le> ds_busy (gs_delays office_start ''serve'')"
    by (simp_all add: office_steps first_def pool_get_def Let_def new_pool_def)
  then obtain s' where r: "enter office 2 ''mark'' first office_start = Ret (False, s')"
    using enter_mark [of first office_start "VInt64 1" 0] by (simp only: numeral_2_eq_2 if_True)
  then show ?thesis using refusal_is_transactional [OF r] by blast
qed



theorem turns_end_witness: "sim_turn office (enter office 5) office_start \<noteq> Deep"
  using turns_end [OF office_built order_refl] by blast

end
