(* ===== verification/Sim_Clock.thy ===== *)
theory Sim_Clock
  imports Sim_Office
begin

text \<open>
  Time in generated simulators. The clock follows the events and does not go back, as long as
  the expressions for intervals, durations and timeouts give times; and a model that frees a
  resource in no time for the queue that the entity has just left never ends its turn.
\<close>

section \<open>The clock\<close>

text \<open>The times of the model are not negative and not NaN.\<close>

definition timed :: "'g code_model \<Rightarrow> bool" where
  "timed m \<longleftrightarrow> (\<forall>(b, code) \<in> set (cm_blocks m). \<forall>x h. schedules b code x h \<longrightarrow> f64_time x)"

definition on_time :: "'g gstate \<Rightarrow> bool" where
  "on_time s \<longleftrightarrow> f64_time (gs_clock s) \<and> f64_rep (gs_clock s) \<and> is_heap (gs_events s) \<and>
     (\<forall>e \<in> set (gs_events s). f64_time (Time e) \<and> f64_rep (Time e) \<and> f64_ge (Time e) (gs_clock s))"

definition keeps_time :: "'g code_model \<Rightarrow> 'g gstate \<Rightarrow> 'g gstate \<Rightarrow> bool" where
  "keeps_time m s t \<longleftrightarrow> gs_clock t = gs_clock s \<and> (timed m \<longrightarrow> on_time s \<longrightarrow> on_time t)"

lemma on_time_timely: "on_time s \<Longrightarrow> timely (gs_events s)"
  by (auto simp: on_time_def timely_def intro: f64_time_not_nan)

lemma schedule_on_time:
  assumes "on_time s" "f64_time x"
  shows "on_time (sim_schedule x h s)"
proof -
  let ?e = "\<lparr>Time = f64_add (gs_clock s) x, Handler = Some h\<rparr>"
  have t: "f64_time (Time ?e)" using assms by (simp add: on_time_def f64_time_add)
  then have "is_heap (eq_push (gs_events s) ?e)"
    using eq_push_heap [OF on_time_timely [OF assms(1)] _ f64_time_not_nan [OF t]] assms(1) by (simp add: on_time_def)
  moreover have "f64_ge (Time ?e) (gs_clock s)" using assms by (simp add: on_time_def f64_add_later)
  ultimately show ?thesis using assms t by (auto simp: on_time_def sim_schedule_def set_eq_push)
qed

lemma keeps_time_same: "gs_clock t = gs_clock s \<Longrightarrow> gs_events t = gs_events s \<Longrightarrow> keeps_time m s t"
  by (simp add: keeps_time_def on_time_def)

interpretation clock: handler_frame m "keeps_time m"
proof (unfold_locales, goal_cases)
  case 2
  then show ?case by (simp add: keeps_time_def)
next
  case (9 s x v ref)
  show ?case
    by (rule keeps_time_same) (cases x; simp add: write_target_def set_field_def Let_def)+
next
  case (10 b code x h s)
  then have "timed m \<Longrightarrow> f64_time x" unfolding timed_def by blast
  then show ?case unfolding keeps_time_def by (simp add: schedule_on_time) (simp add: sim_schedule_def)
next
  case (11 ref s s')
  then show ?case
    by (auto simp: sim_free_def sim_halt_def split: option.splits intro: keeps_time_same)
qed (rule keeps_time_same; simp add: sim_halt_def on_queue_def on_delay_def on_resource_def on_create_def)+

lemma init_on_time: "on_time (sim_init m rng capacity vars)"
  by (simp add: on_time_def sim_init_def new_event_queue_def is_heap_def)

lemma turn_on_time:
  assumes m: "timed m" and s: "on_time s" and run: "sim_turn m (enter m d) s = Ret (Some s')"
  shows "on_time s' \<and> f64_ge (gs_clock s') (gs_clock s) \<and> (\<forall>e \<in> set (gs_events s). f64_ge (Time e) (gs_clock s'))"
  using run
proof (rule turn_cases)
  fix e q h
  assume pop: "eq_pop (gs_events s) = (e, q)" and ne: "gs_events s \<noteq> []"
    and handle: "sim_handle m (enter m d) h (s\<lparr>gs_events := q, gs_clock := Time e\<rparr>) = Ret s'"
  let ?s1 = "s\<lparr>gs_events := q, gs_clock := Time e\<rparr>"
  have ms: "add_mset e (mset q) = mset (gs_events s)" using mset_eq_pop [OF ne pop] by blast
  then have sub: "insert e (set q) = set (gs_events s)" by (metis set_mset_add_mset_insert set_mset_mset)
  have heap: "timely (gs_events s)" "is_heap (gs_events s)" using s by (auto simp: on_time_timely) (simp add: on_time_def)
  have least: "f64_ge (Time e') (Time e)" if "e' \<in> set (gs_events s)" for e'
    using heap ne pop that by (rule eq_pop_least)
  have "on_time ?s1"
    using s sub least eq_pop_heap [OF heap ne pop] by (auto simp: on_time_def)
  moreover have "keeps_time m ?s1 s'" using handle by (rule clock.handle_frame)
  ultimately have "on_time s'" "gs_clock s' = Time e" using m by (auto simp: keeps_time_def)
  then show ?thesis using s sub least by (auto simp: on_time_def)
qed

lemma reach_on_time:
  assumes m: "timed m" and run: "sim_reach m d (sim_init m rng capacity vars) s"
  shows "on_time s"
  using run
proof (induction rule: sim_reach.induct)
  case (start s)
  have "keeps_time m (sim_init m rng capacity vars) s"
    by (rule clock.start_frame [OF start.hyps subset_refl clock.F_refl])
  with m init_on_time [of m rng capacity vars] show ?case by (simp add: keeps_time_def)
next
  case (turn s s')
  with turn_on_time [OF m] show ?case by blast
qed

text \<open>
  C32. When the expressions of a model give times, the clock of its simulator never goes back:
  every turn moves it to the earliest of all events that wait, and no event that waits after a
  turn lies in the past.
\<close>

theorem clock_goes_forward:
  assumes "timed m" "sim_reach m d (sim_init m rng capacity vars) s" "sim_turn m (enter m d) s = Ret (Some s')"
  shows "f64_ge (gs_clock s') (gs_clock s) \<and> (\<forall>e \<in> set (gs_events s). f64_ge (Time e) (gs_clock s')) \<and>
    (\<forall>e \<in> set (gs_events s'). f64_ge (Time e) (gs_clock s'))"
  using turn_on_time [OF assms(1) reach_on_time [OF assms(1,2)] assms(3)] by (auto simp: on_time_def)

section \<open>A turn without end\<close>

lemma free_not_last: "x < y \<Longrightarrow> x + 1 \<noteq> (0 :: u64)"
  by (metis add_eq_0_iff2 word_order.extremum_strict)

lemma top_again:
  assumes "queue_top q = (Some ref, q1)"
  shows "queue_top q1 = (Some ref, q1)"
proof -
  have "q1 = drop_invalid q" using assms by (auto simp: queue_top_def Let_def split: list.splits if_splits)
  moreover have "drop_invalid (drop_invalid q) = drop_invalid q" by (simp add: drop_invalid_def)
  ultimately have "queue_top q1 = queue_top q" by (simp add: queue_top_def)
  with assms show ?thesis by simp
qed

lemma reentry:
  assumes c: "block_of m q = Some (QueueCode c)" and a: "block_of m (qc_next c) = Some (SeizeCode r b)"
    and b: "block_of m b = Some (ReleaseCode r t (q # ws))" and t: "block_of m t = Some TerminateCode"
  shows "queue_top (gs_queues s q) = (Some ref, q1) \<Longrightarrow> rs_busy (gs_resources s r) < rs_capacity (gs_resources s r) \<Longrightarrow>
    cm_zero m (ref_Type ref) \<noteq> None \<Longrightarrow> unat (ref_Idx ref) < length (Entities (gs_pools s (ref_Type ref))) \<Longrightarrow>
    try_advance m (enter m n) q s = Deep"
proof (induction n arbitrary: s q1 rule: less_induct)
  case (less n)
  obtain z where z: "cm_zero m (ref_Type ref) = Some z" using less.prems(3) by blast
  define s1 where "s1 = on_queue q (\<lambda>_. q1) s"
  define busy where "busy = rs_busy (gs_resources s r) + 1"
  define s2 where "s2 = on_resource r (\<lambda>x. x\<lparr>rs_busy := busy, rs_maxBusy := max (rs_maxBusy x) busy\<rparr>) s1"
  define s3 where "s3 = on_resource r (\<lambda>x. x\<lparr>rs_busy := rs_busy x - 1\<rparr>) s2"
  have r1: "gs_resources s1 r = gs_resources s r" by (simp add: s1_def on_queue_def)
  have r2: "rs_busy (gs_resources s2 r) = busy" "busy \<noteq> 0"
    using free_not_last [OF less.prems(2)] by (simp_all add: s2_def on_resource_def busy_def)
  have advance: "try_advance m (enter m n) q s = Deep" if "enter m n (qc_next c) ref s1 = Deep"
    using that c less.prems(1) by (simp add: try_advance_def s1_def)
  have seize: "enter m (Suc k) (qc_next c) ref s1 = Deep" if "enter m k b ref s2 = Deep" for k
    using that a less.prems(2) by (simp add: block_step_def seize_main_def Let_def r1 not_le flip: s2_def busy_def)
  have release: "enter m (Suc k) b ref s2 = Deep"
    if "enter m k t ref s3 = Deep \<or> (\<exists>u. enter m k t ref s3 = Ret (True, u) \<and>
      try_advance m (enter m k) q (on_resource r (\<lambda>x. x\<lparr>rs_releaseN := rs_releaseN x + 1\<rparr>) (passed b u)) = Deep)" for k
    using that b r2 by (auto simp: block_step_def release_main_def Let_def simp flip: s3_def)
  consider "n = 0" | "n = 1" | "n = 2" | k where "n = Suc (Suc (Suc k))"
    by (metis One_nat_def Suc_1 not0_implies_Suc)
  then show ?case
  proof cases
    case 1
    then show ?thesis by (intro advance) simp
  next
    case 2
    have "enter m (Suc 0) (qc_next c) ref s1 = Deep" by (rule seize) simp
    with 2 show ?thesis by (intro advance) simp
  next
    case 3
    have "enter m (Suc (Suc 0)) (qc_next c) ref s1 = Deep" by (intro seize release disjI1) simp
    with 3 show ?thesis by (intro advance) (simp add: numeral_2_eq_2)
  next
    case (4 k)
    define s4 where "s4 = s3\<lparr>gs_counts := (gs_counts s3)(t := (gs_counts s3 t)\<lparr>fc_enterN := fc_enterN (gs_counts s3 t) + 1\<rparr>)\<rparr>"
    have pools: "gs_pools s4 = gs_pools s" by (simp add: s4_def s3_def s2_def s1_def on_queue_def on_resource_def)
    obtain p where p: "pool_free z (gs_pools s (ref_Type ref)) (ref_Idx ref) = Some p"
      and len: "length (Entities p) = length (Entities (gs_pools s (ref_Type ref)))"
      using less.prems(4) by (simp add: pool_free_def)
    define s5 where "s5 = s4\<lparr>gs_pools := (gs_pools s4)(ref_Type ref := p)\<rparr>"
    have "enter m (Suc k) t ref s3 = Ret (True, s5)"
      using t z p by (simp add: block_step_def terminate_main_def sim_free_def pools s5_def flip: s4_def)
    moreover have "try_advance m (enter m (Suc k)) q (on_resource r (\<lambda>x. x\<lparr>rs_releaseN := rs_releaseN x + 1\<rparr>) (passed b s5)) = Deep"
    proof (rule less.IH [of "Suc k" _ q1])
      let ?s = "on_resource r (\<lambda>x. x\<lparr>rs_releaseN := rs_releaseN x + 1\<rparr>) (passed b s5)"
      have q: "gs_queues ?s q = q1"
        by (simp add: s5_def s4_def s3_def s2_def s1_def on_queue_def on_resource_def passed_def)
      show "queue_top (gs_queues ?s q) = (Some ref, q1)" using top_again [OF less.prems(1)] by (simp add: q)
      show "rs_busy (gs_resources ?s r) < rs_capacity (gs_resources ?s r)"
        using less.prems(2) by (simp add: s5_def s4_def s3_def s2_def s1_def busy_def on_queue_def on_resource_def passed_def)
      show "unat (ref_Idx ref) < length (Entities (gs_pools ?s (ref_Type ref)))"
        using less.prems(4) len by (simp add: s5_def on_resource_def passed_def)
    qed (use 4 less.prems(3) in simp_all)
    ultimately have "enter m (Suc (Suc (Suc k))) (qc_next c) ref s1 = Deep" by (intro seize release disjI2) blast
    with 4 show ?thesis by (intro advance) simp
  qed
qed

text \<open>
  C33. If the entity at the head of a queue passes a SEIZE straight into the RELEASE of the same
  resource, which tries that queue first, then advancing the queue never returns: every depth of
  calls is exceeded, because the head is deleted only after its call has returned.
\<close>

theorem release_reenters_its_queue:
  assumes "block_of m q = Some (QueueCode c)" "block_of m (qc_next c) = Some (SeizeCode r b)"
    "block_of m b = Some (ReleaseCode r t (q # ws))" "block_of m t = Some TerminateCode"
    "queue_top (gs_queues s q) = (Some ref, q1)" "rs_busy (gs_resources s r) < rs_capacity (gs_resources s r)"
    "cm_zero m (ref_Type ref) \<noteq> None" "unat (ref_Idx ref) < length (Entities (gs_pools s (ref_Type ref)))"
  shows "\<forall>n. try_advance m (enter m n) q s = Deep"
  using reentry [OF assms] by blast

section \<open>Examples\<close>

text \<open>A model whose entities leave at once.\<close>

definition gate :: "unit code_model" where
  "gate = \<lparr>cm_blocks =
     [(''src'', CreateCode \<lparr>ct_interval = always (Fin 5), ct_immediately = False, ct_batch = always 1, ct_entity = 1,
         ct_defaults = [], ct_destroy = False, ct_next = ''leave''\<rparr>),
      (''leave'', TerminateCode)],
     cm_zero = [1 \<mapsto> []]\<rparr>"

definition gate_init :: "unit gstate" where
  "gate_init = sim_init gate () (\<lambda>_. 0) (\<lambda>_. VInt64 0)"

definition gate_start :: "unit gstate" where
  "gate_start = sim_schedule (Fin 5) (CreateNow ''src'') gate_init"

lemma gate_starts: "start_blocks gate (enter gate 1) (cm_blocks gate) gate_init = Ret gate_start"
  by (simp add: gate_def create_main_def schedule_create_def evalE_always gate_start_def)

lemma gate_timed: "timed gate"
  by (auto simp: timed_def gate_def schedules_def always_def)

lemma gate_turn: "\<exists>s. sim_turn gate (enter gate 1) gate_start = Ret (Some s)"
proof -
  let ?s = "gate_start\<lparr>gs_events := [], gs_clock := Fin 5\<rparr>"
  let ?src = "\<lparr>ct_interval = always (Fin 5), ct_immediately = False, ct_batch = always 1, ct_entity = 1,
         ct_defaults = [], ct_destroy = False, ct_next = ''leave''\<rparr> :: unit create_code"
  have blocks: "block_of gate ''src'' = Some (CreateCode ?src)" "block_of gate ''leave'' = Some TerminateCode" "cm_zero gate 1 = Some []"
    by (simp_all add: gate_def block_of_def)
  have leave: "enter gate (Suc 0) ''leave'' ref s = terminate_main gate ''leave'' ref s" for ref s
    using blocks by (simp add: block_step_def)
  have pop: "eq_pop (gs_events gate_start) = (\<lparr>Time = Fin 5, Handler = Some (CreateNow ''src'')\<rparr>, [])"
    by (simp add: gate_start_def gate_init_def sim_init_def sim_schedule_def new_event_queue_def eq_push_def sift_up.simps eq_pop_def f64_round_numeral Let_def)
  have "\<exists>s. sim_handle gate (enter gate 1) (CreateNow ''src'') ?s = Ret s"
    by (simp add: sim_handle_def blocks on_create_event_def create_body_def evalE_always leave terminate_main_def sim_free_def
        create_main_def schedule_create_def gate_start_def gate_init_def sim_init_def sim_schedule_def
        pool_alloc_def new_pool_def pool_free_def on_create_def Let_def del: enter.simps)
  moreover have "\<not> gs_stop gate_start" by (simp add: gate_start_def gate_init_def sim_init_def sim_schedule_def)
  ultimately show ?thesis by (auto simp: sim_turn_def pop Let_def simp del: enter.simps)
qed

theorem clock_goes_forward_witness:
  "\<exists>s. sim_turn gate (enter gate 1) gate_start = Ret (Some s) \<and> f64_ge (gs_clock s) (gs_clock gate_start)"
proof -
  obtain s where s: "sim_turn gate (enter gate 1) gate_start = Ret (Some s)" using gate_turn by blast
  have "sim_reach gate 1 (sim_init gate () (\<lambda>_. 0) (\<lambda>_. VInt64 0)) gate_start"
    by (rule sim_reach.start) (rule gate_starts [unfolded gate_init_def])
  from clock_goes_forward [OF gate_timed this s] s show ?thesis by blast
qed

text \<open>A model that frees the clerk in no time.\<close>

definition hasty :: "unit code_model" where
  "hasty = \<lparr>cm_blocks =
     [(''line'', QueueCode \<lparr>qc_capacity = None, qc_overflow = None, qc_timeout = None, qc_guard = None,
         qc_next_timeout = [], qc_next = ''take''\<rparr>),
      (''take'', SeizeCode ''clerk'' ''give''),
      (''give'', ReleaseCode ''clerk'' ''leave'' [''line'']),
      (''leave'', TerminateCode)],
     cm_zero = [1 \<mapsto> []]\<rparr>"

definition hasty_state :: "unit gstate" where
  "hasty_state = on_queue ''line'' (\<lambda>q. snd (queue_push first q))
     ((sim_init hasty () (\<lambda>_. 1) (\<lambda>_. VInt64 0))\<lparr>gs_pools := (\<lambda>_. \<lparr>Entities = [[]], FreeList = []\<rparr>)\<rparr>)"

theorem release_reenters_its_queue_witness: "try_advance hasty (enter hasty 1000) ''line'' hasty_state = Deep"
proof -
  let ?c = "\<lparr>qc_capacity = None, qc_overflow = None, qc_timeout = None, qc_guard = None,
         qc_next_timeout = [], qc_next = ''take''\<rparr> :: unit queue_code"
  have "block_of hasty ''line'' = Some (QueueCode ?c)" "block_of hasty (qc_next ?c) = Some (SeizeCode ''clerk'' ''give'')"
    "block_of hasty ''give'' = Some (ReleaseCode ''clerk'' ''leave'' [''line''])" "block_of hasty ''leave'' = Some TerminateCode"
    "cm_zero hasty (ref_Type first) \<noteq> None"
    by (simp_all add: hasty_def block_of_def first_def)
  moreover have "queue_top (gs_queues hasty_state ''line'') = (Some first, gs_queues hasty_state ''line'')"
    by (simp add: hasty_state_def on_queue_def sim_init_def empty_queue_def queue_push_def queue_top_def drop_invalid_def Let_def)
  moreover have "rs_busy (gs_resources hasty_state ''clerk'') < rs_capacity (gs_resources hasty_state ''clerk'')"
    "unat (ref_Idx first) < length (Entities (gs_pools hasty_state (ref_Type first)))"
    by (simp_all add: hasty_state_def on_queue_def sim_init_def first_def)
  ultimately show ?thesis using release_reenters_its_queue [of hasty "''line''" ?c "''clerk''" "''give''" "''leave''" "[]" hasty_state first]
    by simp
qed

end
