(* ===== verification/Sim_Random.thy ===== *)
theory Sim_Random
  imports Go_Float_Arith
begin

text \<open>
  The random numbers of the simulators (codegen/rand/rand.go). The source of math/rand/v2 is what
  it will give: one sequence of values for each of \<open>Float64\<close>, \<open>ExpFloat64\<close> and \<open>NormFloat64\<close>,
  which any seed of the source fixes; every call takes the next value of its sequence.
\<close>

record random =
  rd_floats :: "nat \<Rightarrow> f64"
  rd_exps :: "nat \<Rightarrow> f64"
  rd_norms :: "nat \<Rightarrow> f64"

fun f64_mul :: "f64 \<Rightarrow> f64 \<Rightarrow> f64" where
  "f64_mul (Fin a) (Fin b) = f64_round (a * b)"
| "f64_mul NaN y = NaN"
| "f64_mul x NaN = NaN"
| "f64_mul (Fin a) y = (if a = 0 then NaN else if 0 < a then y else f64_neg y)"
| "f64_mul x (Fin b) = (if b = 0 then NaN else if 0 < b then x else f64_neg x)"
| "f64_mul PInf y = y"
| "f64_mul NInf y = f64_neg y"

definition f64_sub :: "f64 \<Rightarrow> f64 \<Rightarrow> f64" where
  "f64_sub x y = f64_add x (f64_neg y)"

definition next_float :: "random \<Rightarrow> f64 \<times> random" where
  "next_float r = (rd_floats r 0, r\<lparr>rd_floats := (\<lambda>n. rd_floats r (Suc n))\<rparr>)"

definition next_exp :: "random \<Rightarrow> f64 \<times> random" where
  "next_exp r = (rd_exps r 0, r\<lparr>rd_exps := (\<lambda>n. rd_exps r (Suc n))\<rparr>)"

definition next_norm :: "random \<Rightarrow> f64 \<times> random" where
  "next_norm r = (rd_norms r 0, r\<lparr>rd_norms := (\<lambda>n. rd_norms r (Suc n))\<rparr>)"

definition rand_Uniform :: "f64 \<Rightarrow> f64 \<Rightarrow> random \<Rightarrow> f64 \<times> random" where
  "rand_Uniform lo hi r =
     (let (u, r1) = next_float r in (f64_add lo (f64_mul u (f64_sub hi lo)), r1))"

definition rand_Exponential :: "f64 \<Rightarrow> random \<Rightarrow> f64 \<times> random" where
  "rand_Exponential lambda r = (let (x, r1) = next_exp r in (f64_div x lambda, r1))"

definition rand_Normal :: "f64 \<Rightarrow> f64 \<Rightarrow> random \<Rightarrow> f64 \<times> random" where
  "rand_Normal mean stddev r = (let (x, r1) = next_norm r in (f64_add mean (f64_mul x stddev), r1))"

text \<open>
  What math/rand/v2 promises: \<open>Float64\<close> is in \<open>[0, 1)\<close>, \<open>ExpFloat64\<close> is positive and finite, and
  all are doubles. A positive rate then gives times that do not go back.
\<close>

definition fair_source :: "random \<Rightarrow> bool" where
  "fair_source r \<longleftrightarrow>
     (\<forall>n. (\<exists>x. rd_floats r n = Fin x \<and> 0 \<le> x \<and> x < 1)) \<and> (\<forall>n. \<exists>x. rd_exps r n = Fin x \<and> 0 < x)"

lemma fair_next:
  "fair_source r \<Longrightarrow> fair_source (snd (rand_Uniform lo hi r))"
  "fair_source r \<Longrightarrow> fair_source (snd (rand_Exponential rate r))"
  by (simp_all add: fair_source_def rand_Uniform_def rand_Exponential_def next_float_def next_exp_def)

end
