(* ===== verification/Sim_Pm.thy ===== *)
theory Sim_Pm
  imports Sim_Statistics Sim_Random
begin

text \<open>
  The second example of the repository, a shop with two machines, a quality check and rework
  (codegen/example/pm/main.go), as the generator printed it: one definition for each function.
  The global variables are the state of the generated simulators; \<open>block_QUEUE_QueueA\<close> is the
  entry \<open>QueueA\<close> of the queues, and so on. A job has the fields JobType and ReworkCount. The
  functions that read a field are partial, because an index may be out of range.
\<close>

type_synonym pm = "random gstate"

definition entityType_Jobs :: "8 word" where
  "entityType_Jobs = 1"

section \<open>Expressions\<close>

text \<open>A variable or a field that has a value of its declared type, which it always has.\<close>

definition float_var :: "string \<Rightarrow> pm \<Rightarrow> f64 option" where
  "float_var v s = (case gs_vars s v of VFloat64 x \<Rightarrow> Some x | _ \<Rightarrow> None)"

definition int_field :: "nat \<Rightarrow> entity_ref \<Rightarrow> pm \<Rightarrow> 64 word option" where
  "int_field i ref s = (case read_target (TField i) ref s of Some (VInt64 n) \<Rightarrow> Some n | _ \<Rightarrow> None)"

definition exponential_time :: "string \<Rightarrow> (random, f64) sim_expr" where
  "exponential_time v ref s = map_option (\<lambda>rate. rand_Exponential rate (gs_rng s)) (float_var v s)"

text \<open>\<open>rng.Uniform(0.0, 1.0) < p\<close>\<close>

definition with_chance :: "rat \<Rightarrow> (random, bool) sim_expr" where
  "with_chance p ref s =
     (let (u, g) = rand_Uniform (Fin 0) (Fin 1) (gs_rng s) in Some (f64_lt u (f64_round p), g))"

definition field_test :: "nat \<Rightarrow> (64 word \<Rightarrow> bool) \<Rightarrow> (random, bool) sim_expr" where
  "field_test i f ref s = map_option (\<lambda>n. (f n, gs_rng s)) (int_field i ref s)"

definition exactly :: "'v \<Rightarrow> (random, 'v) sim_expr" where
  "exactly v ref s = Some (v, gs_rng s)"

definition one_rework_more :: "(random, sim_value) sim_expr" where
  "one_rework_more ref s = map_option (\<lambda>n. (VInt64 (n + 1), gs_rng s)) (int_field 1 ref s)"

definition one_sunk_more :: "(random, sim_value) sim_expr" where
  "one_sunk_more ref s =
     (case gs_vars s ''totalEntitiesSink'' of VUint64 n \<Rightarrow> Some (VUint64 (n + 1), gs_rng s) | _ \<Rightarrow> None)"

section \<open>Start, schedule, free\<close>

text \<open>The shop has no resources.\<close>

definition pm_initModel :: "random \<Rightarrow> pm \<Rightarrow> pm" where
  "pm_initModel source s = s\<lparr>
     gs_events := new_event_queue 1000,
     gs_clock := Fin 0, gs_stop := False, gs_reason := [],
     gs_rng := source,
     gs_pools := (\<lambda>_. new_pool 10),
     gs_resources := (\<lambda>_. \<lparr>rs_busy = 0, rs_capacity = 0, rs_maxBusy = 0, rs_seizeN = 0, rs_releaseN = 0\<rparr>),
     gs_queues := (\<lambda>_. empty_queue),
     gs_delays := (\<lambda>_. \<lparr>ds_enterN = 0, ds_exitN = 0, ds_busy = 0, ds_maxBusy = 0\<rparr>),
     gs_counts := (\<lambda>_. \<lparr>fc_enterN = 0, fc_exitN = 0\<rparr>),
     gs_creates := (\<lambda>_. \<lparr>cc_createdN = 0, cc_exitN = 0, cc_dropN = 0\<rparr>)\<rparr>"

definition pm_Schedule :: "f64 \<Rightarrow> sim_handler \<Rightarrow> pm \<Rightarrow> pm" where
  "pm_Schedule time h s =
     s\<lparr>gs_events := eq_push (gs_events s) \<lparr>Time = f64_add (gs_clock s) time, Handler = Some h\<rparr>\<rparr>"

definition pm_freeEntity :: "entity_ref \<Rightarrow> pm \<Rightarrow> pm run" where
  "pm_freeEntity ref s =
     (if ref_Type ref = entityType_Jobs then
        (case pool_free [VInt64 0, VInt64 0] (gs_pools s entityType_Jobs) (ref_Idx ref) of
           None \<Rightarrow> Fault
         | Some p \<Rightarrow> Ret (s\<lparr>gs_pools := (gs_pools s)(entityType_Jobs := p)\<rparr>))
      else Ret (s\<lparr>gs_stop := True, gs_reason := ''unknown entity type''\<rparr>))"

section \<open>Blocks, the called before the callers\<close>

definition func_block_TERMINATE_SinkSuccess :: "entity_ref \<Rightarrow> pm \<Rightarrow> (bool \<times> pm) run" where
  "func_block_TERMINATE_SinkSuccess ref s =
     (let s1 = s\<lparr>gs_counts := (gs_counts s)(''SinkSuccess'' := (gs_counts s ''SinkSuccess'')
            \<lparr>fc_enterN := fc_enterN (gs_counts s ''SinkSuccess'') + 1\<rparr>)\<rparr>
      in bindR (pm_freeEntity ref s1) (\<lambda>s2. Ret (True, s2)))"

definition func_block_TERMINATE_SinkScrap :: "entity_ref \<Rightarrow> pm \<Rightarrow> (bool \<times> pm) run" where
  "func_block_TERMINATE_SinkScrap ref s =
     (let s1 = s\<lparr>gs_counts := (gs_counts s)(''SinkScrap'' := (gs_counts s ''SinkScrap'')
            \<lparr>fc_enterN := fc_enterN (gs_counts s ''SinkScrap'') + 1\<rparr>)\<rparr>
      in bindR (pm_freeEntity ref s1) (\<lambda>s2. Ret (True, s2)))"

definition func_block_ASSIGN_SinkSuccessCount :: "entity_ref \<Rightarrow> pm \<Rightarrow> (bool \<times> pm) run" where
  "func_block_ASSIGN_SinkSuccessCount ref s =
     (let old = gs_vars s ''totalEntitiesSink'' in
      bindR (evalE one_sunk_more ref s) (\<lambda>(v, s1).
        let s2 = s1\<lparr>gs_vars := (gs_vars s1)(''totalEntitiesSink'' := v)\<rparr> in
        bindR (func_block_TERMINATE_SinkSuccess ref s2) (\<lambda>(ok, s3).
          if ok then Ret (True, passed ''SinkSuccessCount'' s3)
          else Ret (False, s3\<lparr>gs_vars := (gs_vars s3)(''totalEntitiesSink'' := old)\<rparr>))))"

definition func_block_ASSIGN_SinkScrapCount :: "entity_ref \<Rightarrow> pm \<Rightarrow> (bool \<times> pm) run" where
  "func_block_ASSIGN_SinkScrapCount ref s =
     (let old = gs_vars s ''totalEntitiesSink'' in
      bindR (evalE one_sunk_more ref s) (\<lambda>(v, s1).
        let s2 = s1\<lparr>gs_vars := (gs_vars s1)(''totalEntitiesSink'' := v)\<rparr> in
        bindR (func_block_TERMINATE_SinkScrap ref s2) (\<lambda>(ok, s3).
          if ok then Ret (True, passed ''SinkScrapCount'' s3)
          else Ret (False, s3\<lparr>gs_vars := (gs_vars s3)(''totalEntitiesSink'' := old)\<rparr>))))"

definition func_block_DELAY_DelayA :: "entity_ref \<Rightarrow> pm \<Rightarrow> (bool \<times> pm) run" where
  "func_block_DELAY_DelayA ref s =
     (let capacity = (1 :: u64) in
      if capacity \<le> ds_busy (gs_delays s ''DelayA'') then Ret (False, s)
      else
        bindR (evalE (exponential_time ''serviceARate'') ref s) (\<lambda>(duration, s1).
          let s2 = on_delay ''DelayA'' (\<lambda>d. d\<lparr>ds_enterN := ds_enterN d + 1, ds_busy := ds_busy d + 1\<rparr>) s1;
              s3 = on_delay ''DelayA'' (\<lambda>d. if ds_maxBusy d < ds_busy d then d\<lparr>ds_maxBusy := ds_busy d\<rparr> else d) s2
          in Ret (True, pm_Schedule duration (DelayOver ''DelayA'' ref) s3)))"

definition func_queue_push_QueueA :: "entity_ref \<Rightarrow> pm \<Rightarrow> u64 \<times> pm" where
  "func_queue_push_QueueA ref s =
     (let (idx, q) = queue_push ref (gs_queues s ''QueueA'') in (idx, on_queue ''QueueA'' (\<lambda>_. q) s))"

definition func_queue_top_QueueA :: "pm \<Rightarrow> entity_ref option \<times> pm" where
  "func_queue_top_QueueA s =
     (let (r, q) = queue_top (gs_queues s ''QueueA'') in (r, on_queue ''QueueA'' (\<lambda>_. q) s))"

definition func_queue_delete_QueueA :: "pm \<Rightarrow> pm" where
  "func_queue_delete_QueueA s = on_queue ''QueueA'' queue_delete s"

definition func_queue_get_QueueA :: "u64 \<Rightarrow> pm \<Rightarrow> entity_ref option \<times> pm" where
  "func_queue_get_QueueA idx s =
     (let (r, q) = queue_get idx (gs_queues s ''QueueA'') in (r, on_queue ''QueueA'' (\<lambda>_. q) s))"

definition func_queue_try_advance_QueueA :: "pm \<Rightarrow> (bool \<times> pm) run" where
  "func_queue_try_advance_QueueA s =
     (case func_queue_top_QueueA s of
        (None, s1) \<Rightarrow> Ret (False, s1)
      | (Some ref, s1) \<Rightarrow>
          bindR (func_block_DELAY_DelayA ref s1) (\<lambda>(ok, s2).
            if \<not> ok then Ret (False, s2)
            else Ret (True, on_queue ''QueueA'' (\<lambda>q. q\<lparr>sq_exitN := sq_exitN q + 1\<rparr>) (func_queue_delete_QueueA s2))))"

definition func_block_QUEUE_QueueA :: "entity_ref \<Rightarrow> pm \<Rightarrow> (bool \<times> pm) run" where
  "func_block_QUEUE_QueueA ref s =
     (let s1 = on_queue ''QueueA'' (\<lambda>q. q\<lparr>sq_enterN := sq_enterN q + 1\<rparr>) s;
          s2 = snd (func_queue_push_QueueA ref s1)
      in bindR (func_queue_try_advance_QueueA s2) (\<lambda>(_, s3). Ret (True, s3)))"

definition func_block_DELAY_DelayB :: "entity_ref \<Rightarrow> pm \<Rightarrow> (bool \<times> pm) run" where
  "func_block_DELAY_DelayB ref s =
     (let capacity = (1 :: u64) in
      if capacity \<le> ds_busy (gs_delays s ''DelayB'') then Ret (False, s)
      else
        bindR (evalE (exponential_time ''serviceBRate'') ref s) (\<lambda>(duration, s1).
          let s2 = on_delay ''DelayB'' (\<lambda>d. d\<lparr>ds_enterN := ds_enterN d + 1, ds_busy := ds_busy d + 1\<rparr>) s1;
              s3 = on_delay ''DelayB'' (\<lambda>d. if ds_maxBusy d < ds_busy d then d\<lparr>ds_maxBusy := ds_busy d\<rparr> else d) s2
          in Ret (True, pm_Schedule duration (DelayOver ''DelayB'' ref) s3)))"

definition func_queue_push_QueueB :: "entity_ref \<Rightarrow> pm \<Rightarrow> u64 \<times> pm" where
  "func_queue_push_QueueB ref s =
     (let (idx, q) = queue_push ref (gs_queues s ''QueueB'') in (idx, on_queue ''QueueB'' (\<lambda>_. q) s))"

definition func_queue_top_QueueB :: "pm \<Rightarrow> entity_ref option \<times> pm" where
  "func_queue_top_QueueB s =
     (let (r, q) = queue_top (gs_queues s ''QueueB'') in (r, on_queue ''QueueB'' (\<lambda>_. q) s))"

definition func_queue_delete_QueueB :: "pm \<Rightarrow> pm" where
  "func_queue_delete_QueueB s = on_queue ''QueueB'' queue_delete s"

definition func_queue_get_QueueB :: "u64 \<Rightarrow> pm \<Rightarrow> entity_ref option \<times> pm" where
  "func_queue_get_QueueB idx s =
     (let (r, q) = queue_get idx (gs_queues s ''QueueB'') in (r, on_queue ''QueueB'' (\<lambda>_. q) s))"

definition func_queue_try_advance_QueueB :: "pm \<Rightarrow> (bool \<times> pm) run" where
  "func_queue_try_advance_QueueB s =
     (case func_queue_top_QueueB s of
        (None, s1) \<Rightarrow> Ret (False, s1)
      | (Some ref, s1) \<Rightarrow>
          bindR (func_block_DELAY_DelayB ref s1) (\<lambda>(ok, s2).
            if \<not> ok then Ret (False, s2)
            else Ret (True, on_queue ''QueueB'' (\<lambda>q. q\<lparr>sq_exitN := sq_exitN q + 1\<rparr>) (func_queue_delete_QueueB s2))))"

definition func_block_QUEUE_QueueB :: "entity_ref \<Rightarrow> pm \<Rightarrow> (bool \<times> pm) run" where
  "func_block_QUEUE_QueueB ref s =
     (let s1 = on_queue ''QueueB'' (\<lambda>q. q\<lparr>sq_enterN := sq_enterN q + 1\<rparr>) s;
          s2 = snd (func_queue_push_QueueB ref s1)
      in bindR (func_queue_try_advance_QueueB s2) (\<lambda>(_, s3). Ret (True, s3)))"

definition func_block_DELAY_DelayQC :: "entity_ref \<Rightarrow> pm \<Rightarrow> (bool \<times> pm) run" where
  "func_block_DELAY_DelayQC ref s =
     (let capacity = (1 :: u64) in
      if capacity \<le> ds_busy (gs_delays s ''DelayQC'') then Ret (False, s)
      else
        bindR (evalE (exponential_time ''serviceQCRate'') ref s) (\<lambda>(duration, s1).
          let s2 = on_delay ''DelayQC'' (\<lambda>d. d\<lparr>ds_enterN := ds_enterN d + 1, ds_busy := ds_busy d + 1\<rparr>) s1;
              s3 = on_delay ''DelayQC'' (\<lambda>d. if ds_maxBusy d < ds_busy d then d\<lparr>ds_maxBusy := ds_busy d\<rparr> else d) s2
          in Ret (True, pm_Schedule duration (DelayOver ''DelayQC'' ref) s3)))"

definition func_queue_push_QueueQC :: "entity_ref \<Rightarrow> pm \<Rightarrow> u64 \<times> pm" where
  "func_queue_push_QueueQC ref s =
     (let (idx, q) = queue_push ref (gs_queues s ''QueueQC'') in (idx, on_queue ''QueueQC'' (\<lambda>_. q) s))"

definition func_queue_top_QueueQC :: "pm \<Rightarrow> entity_ref option \<times> pm" where
  "func_queue_top_QueueQC s =
     (let (r, q) = queue_top (gs_queues s ''QueueQC'') in (r, on_queue ''QueueQC'' (\<lambda>_. q) s))"

definition func_queue_delete_QueueQC :: "pm \<Rightarrow> pm" where
  "func_queue_delete_QueueQC s = on_queue ''QueueQC'' queue_delete s"

definition func_queue_get_QueueQC :: "u64 \<Rightarrow> pm \<Rightarrow> entity_ref option \<times> pm" where
  "func_queue_get_QueueQC idx s =
     (let (r, q) = queue_get idx (gs_queues s ''QueueQC'') in (r, on_queue ''QueueQC'' (\<lambda>_. q) s))"

definition func_queue_try_advance_QueueQC :: "pm \<Rightarrow> (bool \<times> pm) run" where
  "func_queue_try_advance_QueueQC s =
     (case func_queue_top_QueueQC s of
        (None, s1) \<Rightarrow> Ret (False, s1)
      | (Some ref, s1) \<Rightarrow>
          bindR (func_block_DELAY_DelayQC ref s1) (\<lambda>(ok, s2).
            if \<not> ok then Ret (False, s2)
            else Ret (True, on_queue ''QueueQC'' (\<lambda>q. q\<lparr>sq_exitN := sq_exitN q + 1\<rparr>) (func_queue_delete_QueueQC s2))))"

definition func_block_QUEUE_QueueQC :: "entity_ref \<Rightarrow> pm \<Rightarrow> (bool \<times> pm) run" where
  "func_block_QUEUE_QueueQC ref s =
     (let s1 = on_queue ''QueueQC'' (\<lambda>q. q\<lparr>sq_enterN := sq_enterN q + 1\<rparr>) s;
          s2 = snd (func_queue_push_QueueQC ref s1)
      in bindR (func_queue_try_advance_QueueQC s2) (\<lambda>(_, s3). Ret (True, s3)))"

definition func_block_BRANCH_BranchByType :: "entity_ref \<Rightarrow> pm \<Rightarrow> (bool \<times> pm) run" where
  "func_block_BRANCH_BranchByType ref s =
     bindR (if ref_Type ref = entityType_Jobs then evalE (field_test 0 (\<lambda>n. n = 1)) ref s else Ret (False, s)) (\<lambda>(one, s1).
       if one then bindR (func_block_QUEUE_QueueA ref s1) (\<lambda>(ok, t). if ok then Ret (True, passed ''BranchByType'' t) else Ret (False, t))
       else
         bindR (if ref_Type ref = entityType_Jobs then evalE (field_test 0 (\<lambda>n. n = 2)) ref s1 else Ret (False, s1)) (\<lambda>(two, s2).
           if two then bindR (func_block_QUEUE_QueueB ref s2) (\<lambda>(ok, t). if ok then Ret (True, passed ''BranchByType'' t) else Ret (False, t))
           else Ret (False, s2\<lparr>gs_stop := True, gs_reason := ''BranchByType: no branch condition matched''\<rparr>)))"

definition func_block_ASSIGN_AssignJobTypeOne :: "entity_ref \<Rightarrow> pm \<Rightarrow> (bool \<times> pm) run" where
  "func_block_ASSIGN_AssignJobTypeOne ref s =
     bindR (if ref_Type ref = entityType_Jobs then
              (case read_target (TField 0) ref s of
                 None \<Rightarrow> Fault
               | Some old \<Rightarrow> bindR (evalE (exactly (VInt64 1)) ref s) (\<lambda>(v, s1). Ret (Some old, set_field 0 v ref s1)))
            else Ret (None, s)) (\<lambda>(changed, s1).
       bindR (func_block_BRANCH_BranchByType ref s1) (\<lambda>(ok, s2).
         if ok then Ret (True, passed ''AssignJobTypeOne'' s2)
         else Ret (False, case changed of None \<Rightarrow> s2 | Some old \<Rightarrow> set_field 0 old ref s2)))"

definition func_block_ASSIGN_AssignJobTypeTwo :: "entity_ref \<Rightarrow> pm \<Rightarrow> (bool \<times> pm) run" where
  "func_block_ASSIGN_AssignJobTypeTwo ref s =
     bindR (if ref_Type ref = entityType_Jobs then
              (case read_target (TField 0) ref s of
                 None \<Rightarrow> Fault
               | Some old \<Rightarrow> bindR (evalE (exactly (VInt64 2)) ref s) (\<lambda>(v, s1). Ret (Some old, set_field 0 v ref s1)))
            else Ret (None, s)) (\<lambda>(changed, s1).
       bindR (func_block_BRANCH_BranchByType ref s1) (\<lambda>(ok, s2).
         if ok then Ret (True, passed ''AssignJobTypeTwo'' s2)
         else Ret (False, case changed of None \<Rightarrow> s2 | Some old \<Rightarrow> set_field 0 old ref s2)))"

definition func_block_BRANCH_BranchJobType :: "entity_ref \<Rightarrow> pm \<Rightarrow> (bool \<times> pm) run" where
  "func_block_BRANCH_BranchJobType ref s =
     bindR (evalE (with_chance (3 / 5)) ref s) (\<lambda>(yes, s1).
       if yes then bindR (func_block_ASSIGN_AssignJobTypeOne ref s1) (\<lambda>(ok, t). if ok then Ret (True, passed ''BranchJobType'' t) else Ret (False, t))
       else bindR (func_block_ASSIGN_AssignJobTypeTwo ref s1) (\<lambda>(ok, t). if ok then Ret (True, passed ''BranchJobType'' t) else Ret (False, t)))"

definition func_block_BRANCH_ReworkDecision :: "entity_ref \<Rightarrow> pm \<Rightarrow> (bool \<times> pm) run" where
  "func_block_BRANCH_ReworkDecision ref s =
     bindR (if ref_Type ref = entityType_Jobs then evalE (field_test 1 (\<lambda>n. sint n \<le> 3)) ref s else Ret (False, s)) (\<lambda>(again, s1).
       if again then bindR (func_block_BRANCH_BranchByType ref s1) (\<lambda>(ok, t). if ok then Ret (True, passed ''ReworkDecision'' t) else Ret (False, t))
       else bindR (func_block_ASSIGN_SinkScrapCount ref s1) (\<lambda>(ok, t). if ok then Ret (True, passed ''ReworkDecision'' t) else Ret (False, t)))"

definition func_block_ASSIGN_ReworkCountUp :: "entity_ref \<Rightarrow> pm \<Rightarrow> (bool \<times> pm) run" where
  "func_block_ASSIGN_ReworkCountUp ref s =
     bindR (if ref_Type ref = entityType_Jobs then
              (case read_target (TField 1) ref s of
                 None \<Rightarrow> Fault
               | Some old \<Rightarrow> bindR (evalE one_rework_more ref s) (\<lambda>(v, s1). Ret (Some old, set_field 1 v ref s1)))
            else Ret (None, s)) (\<lambda>(changed, s1).
       bindR (func_block_BRANCH_ReworkDecision ref s1) (\<lambda>(ok, s2).
         if ok then Ret (True, passed ''ReworkCountUp'' s2)
         else Ret (False, case changed of None \<Rightarrow> s2 | Some old \<Rightarrow> set_field 1 old ref s2)))"

definition func_block_BRANCH_QCResult :: "entity_ref \<Rightarrow> pm \<Rightarrow> (bool \<times> pm) run" where
  "func_block_BRANCH_QCResult ref s =
     bindR (evalE (with_chance (9 / 10)) ref s) (\<lambda>(yes, s1).
       if yes then bindR (func_block_ASSIGN_SinkSuccessCount ref s1) (\<lambda>(ok, t). if ok then Ret (True, passed ''QCResult'' t) else Ret (False, t))
       else bindR (func_block_ASSIGN_ReworkCountUp ref s1) (\<lambda>(ok, t). if ok then Ret (True, passed ''QCResult'' t) else Ret (False, t)))"

section \<open>Handlers\<close>

definition on_DelayA :: "entity_ref \<Rightarrow> pm \<Rightarrow> pm run" where
  "on_DelayA ref s =
     bindR (func_block_QUEUE_QueueQC ref s) (\<lambda>(ok, s1).
       if ok then
         (let s2 = on_delay ''DelayA'' (\<lambda>d. d\<lparr>ds_exitN := ds_exitN d + 1\<rparr>) s1;
              s3 = on_delay ''DelayA'' (\<lambda>d. if 0 < ds_busy d then d\<lparr>ds_busy := ds_busy d - 1\<rparr> else d) s2
          in bindR (func_queue_try_advance_QueueA s3) (\<lambda>(_, s4). Ret s4))
       else if gs_stop s1 then Ret s1
       else Ret (s1\<lparr>gs_stop := True, gs_reason := block_stuck ''DelayA''\<rparr>))"

definition on_DelayB :: "entity_ref \<Rightarrow> pm \<Rightarrow> pm run" where
  "on_DelayB ref s =
     bindR (func_block_QUEUE_QueueQC ref s) (\<lambda>(ok, s1).
       if ok then
         (let s2 = on_delay ''DelayB'' (\<lambda>d. d\<lparr>ds_exitN := ds_exitN d + 1\<rparr>) s1;
              s3 = on_delay ''DelayB'' (\<lambda>d. if 0 < ds_busy d then d\<lparr>ds_busy := ds_busy d - 1\<rparr> else d) s2
          in bindR (func_queue_try_advance_QueueB s3) (\<lambda>(_, s4). Ret s4))
       else if gs_stop s1 then Ret s1
       else Ret (s1\<lparr>gs_stop := True, gs_reason := block_stuck ''DelayB''\<rparr>))"

definition on_DelayQC :: "entity_ref \<Rightarrow> pm \<Rightarrow> pm run" where
  "on_DelayQC ref s =
     bindR (func_block_BRANCH_QCResult ref s) (\<lambda>(ok, s1).
       if ok then
         (let s2 = on_delay ''DelayQC'' (\<lambda>d. d\<lparr>ds_exitN := ds_exitN d + 1\<rparr>) s1;
              s3 = on_delay ''DelayQC'' (\<lambda>d. if 0 < ds_busy d then d\<lparr>ds_busy := ds_busy d - 1\<rparr> else d) s2
          in bindR (func_queue_try_advance_QueueQC s3) (\<lambda>(_, s4). Ret s4))
       else if gs_stop s1 then Ret s1
       else Ret (s1\<lparr>gs_stop := True, gs_reason := block_stuck ''DelayQC''\<rparr>))"

definition pm_func_block_CREATE_Source :: "pm \<Rightarrow> pm run" where
  "pm_func_block_CREATE_Source s =
     bindR (evalE (exponential_time ''arrivalRate'') no_ref s) (\<lambda>(time, s1). Ret (pm_Schedule time (CreateNow ''Source'') s1))"

text \<open>The loop over a batch; the flag says that the closure returned inside it.\<close>

fun pm_create_batch :: "nat \<Rightarrow> pm \<Rightarrow> (bool \<times> pm) run" where
  "pm_create_batch 0 s = Ret (False, s)"
| "pm_create_batch (Suc n) s =
     (let (newEntity, p) = pool_alloc [] (gs_pools s entityType_Jobs);
          p1 = p\<lparr>Entities := (Entities p)[unat newEntity := [VInt64 0, VInt64 0]]\<rparr>;
          ref = \<lparr>ref_Type = entityType_Jobs, ref_Idx = newEntity\<rparr>;
          s1 = on_create ''Source'' (\<lambda>x. x\<lparr>cc_createdN := cc_createdN x + 1\<rparr>) (s\<lparr>gs_pools := (gs_pools s)(entityType_Jobs := p1)\<rparr>)
      in bindR (func_block_BRANCH_BranchJobType ref s1) (\<lambda>(ok, s2).
           if ok then pm_create_batch n (on_create ''Source'' (\<lambda>x. x\<lparr>cc_exitN := cc_exitN x + 1\<rparr>) s2)
           else if gs_stop s2 then Ret (True, s2)
           else bindR (pm_freeEntity ref (on_create ''Source'' (\<lambda>x. x\<lparr>cc_dropN := cc_dropN x + 1\<rparr>) s2))
                  (pm_create_batch n)))"

definition on_Source :: "pm \<Rightarrow> pm run" where
  "on_Source s =
     (let batch = (1 :: u64) in
      bindR (pm_create_batch (unat batch) s) (\<lambda>(returned, s1).
        if returned \<or> gs_stop s1 then Ret s1 else pm_func_block_CREATE_Source s1))"

definition pm_startCreateBlocks :: "pm \<Rightarrow> pm run" where
  "pm_startCreateBlocks s = pm_func_block_CREATE_Source s"

text \<open>The closures that the program schedules.\<close>

definition pm_handler :: "sim_handler \<Rightarrow> pm \<Rightarrow> pm run" where
  "pm_handler h s =
     (case h of
        CreateNow _ \<Rightarrow> on_Source s
      | DelayOver b ref \<Rightarrow>
          if b = ''DelayA'' then on_DelayA ref s else if b = ''DelayB'' then on_DelayB ref s else on_DelayQC ref s
      | TimeoutOver _ _ \<Rightarrow> Fault)"

text \<open>One turn of the loop in \<open>run\<close> up to the report.\<close>

definition pm_turn :: "pm \<Rightarrow> pm option run" where
  "pm_turn s =
     (case eq_pop (gs_events s) of (e, q) \<Rightarrow>
        let s1 = s\<lparr>gs_events := q\<rparr> in
        if f64_eq (Time e) (Fin (- 1)) \<or> gs_stop s1 then Ret None
        else
          (case Handler e of
             None \<Rightarrow> Fault
           | Some h \<Rightarrow> bindR (pm_handler h (s1\<lparr>gs_clock := Time e\<rparr>)) (\<lambda>s2. Ret (Some s2))))"

text \<open>The states between the turns of a run.\<close>

inductive pm_reach :: "random \<Rightarrow> pm \<Rightarrow> pm \<Rightarrow> bool" for source s0 where
  start: "pm_startCreateBlocks (pm_initModel source s0) = Ret s \<Longrightarrow> pm_reach source s0 s"
| turn: "pm_reach source s0 s \<Longrightarrow> pm_turn s = Ret (Some s') \<Longrightarrow> pm_reach source s0 s'"

section \<open>The model\<close>

text \<open>The text codegen/example/pm/model.dsl, block by block.\<close>

definition jobs_guard :: "entity_guard option" where
  "jobs_guard = Some (entityType_Jobs, ''Jobs'')"

definition pm_delay :: "string \<Rightarrow> string \<Rightarrow> string \<Rightarrow> random block_code" where
  "pm_delay rate nxt wake = DelayCode \<lparr>dc_capacity = Some (exactly 1), dc_duration = exponential_time rate,
     dc_guard = None, dc_next = nxt, dc_wake = [wake]\<rparr>"

definition pm_queue :: "string \<Rightarrow> random block_code" where
  "pm_queue nxt = QueueCode \<lparr>qc_capacity = None, qc_overflow = None, qc_timeout = None, qc_guard = None,
     qc_next_timeout = [], qc_next = nxt\<rparr>"

definition pm_model :: "random code_model" where
  "pm_model = \<lparr>cm_blocks =
     [(''Source'', CreateCode \<lparr>ct_interval = exponential_time ''arrivalRate'', ct_immediately = False, ct_batch = exactly 1,
         ct_entity = entityType_Jobs, ct_defaults = [VInt64 0, VInt64 0], ct_destroy = True, ct_next = ''BranchJobType''\<rparr>),
      (''BranchJobType'', BranchCode [\<lparr>kc_guard = None, kc_condition = with_chance (3 / 5), kc_next = ''AssignJobTypeOne''\<rparr>]
         (Some ''AssignJobTypeTwo'')),
      (''AssignJobTypeOne'', AssignCode [\<lparr>ac_target = TField 0, ac_guard = jobs_guard, ac_value = exactly (VInt64 1)\<rparr>] ''BranchByType''),
      (''AssignJobTypeTwo'', AssignCode [\<lparr>ac_target = TField 0, ac_guard = jobs_guard, ac_value = exactly (VInt64 2)\<rparr>] ''BranchByType''),
      (''BranchByType'', BranchCode
         [\<lparr>kc_guard = jobs_guard, kc_condition = field_test 0 (\<lambda>n. n = 1), kc_next = ''QueueA''\<rparr>,
          \<lparr>kc_guard = jobs_guard, kc_condition = field_test 0 (\<lambda>n. n = 2), kc_next = ''QueueB''\<rparr>] None),
      (''QueueA'', pm_queue ''DelayA''),
      (''DelayA'', pm_delay ''serviceARate'' ''QueueQC'' ''QueueA''),
      (''QueueB'', pm_queue ''DelayB''),
      (''DelayB'', pm_delay ''serviceBRate'' ''QueueQC'' ''QueueB''),
      (''QueueQC'', pm_queue ''DelayQC''),
      (''DelayQC'', pm_delay ''serviceQCRate'' ''QCResult'' ''QueueQC''),
      (''QCResult'', BranchCode [\<lparr>kc_guard = None, kc_condition = with_chance (9 / 10), kc_next = ''SinkSuccessCount''\<rparr>]
         (Some ''ReworkCountUp'')),
      (''SinkSuccessCount'', AssignCode [\<lparr>ac_target = TVar ''totalEntitiesSink'', ac_guard = None, ac_value = one_sunk_more\<rparr>] ''SinkSuccess''),
      (''SinkSuccess'', TerminateCode),
      (''ReworkCountUp'', AssignCode [\<lparr>ac_target = TField 1, ac_guard = jobs_guard, ac_value = one_rework_more\<rparr>] ''ReworkDecision''),
      (''ReworkDecision'', BranchCode [\<lparr>kc_guard = jobs_guard, kc_condition = field_test 1 (\<lambda>n. sint n \<le> 3), kc_next = ''BranchByType''\<rparr>]
         (Some ''SinkScrapCount'')),
      (''SinkScrapCount'', AssignCode [\<lparr>ac_target = TVar ''totalEntitiesSink'', ac_guard = None, ac_value = one_sunk_more\<rparr>] ''SinkScrap''),
      (''SinkScrap'', TerminateCode)],
     cm_zero = [entityType_Jobs \<mapsto> [VInt64 0, VInt64 0]]\<rparr>"

definition pm_rank :: "string \<Rightarrow> nat" where
  "pm_rank = (\<lambda>_. 0)(''QueueA'' := 1, ''QueueB'' := 1, ''QueueQC'' := 1, ''SinkSuccessCount'' := 1, ''SinkScrapCount'' := 1,
     ''BranchByType'' := 2, ''AssignJobTypeOne'' := 3, ''AssignJobTypeTwo'' := 3, ''ReworkDecision'' := 3,
     ''BranchJobType'' := 4, ''ReworkCountUp'' := 4, ''QCResult'' := 5)"

text \<open>The variables with their values in the text.\<close>

definition pm_vars :: "string \<Rightarrow> sim_value" where
  "pm_vars = (\<lambda>_. VFloat64 (Fin 0))(''totalEntitiesEnd'' := VUint64 10000000, ''totalEntitiesSink'' := VUint64 0,
     ''arrivalRate'' := VFloat64 (Fin 1), ''serviceARate'' := VFloat64 (f64_round (83333333 / 100000000)),
     ''serviceBRate'' := VFloat64 (f64_round (55555556 / 100000000)), ''serviceQCRate'' := VFloat64 (Fin 2))"

end
