(* ===== verification/Sim_Pm_Correct.thy ===== *)
theory Sim_Pm_Correct
  imports Sim_Pm Sim_Clock
begin

text \<open>
  The shop program is the program of its model: its functions are the block functions of the
  generator on the model text, so what is proved of generated simulators holds of it. Beyond
  that, the shop never stops by itself, and no job is reworked more than three times.
\<close>

section \<open>The printed program and the model\<close>

lemma pm_blocks:
  "block_of pm_model ''Source'' = Some (CreateCode \<lparr>ct_interval = exponential_time ''arrivalRate'', ct_immediately = False,
     ct_batch = exactly 1, ct_entity = entityType_Jobs, ct_defaults = [VInt64 0, VInt64 0], ct_destroy = True, ct_next = ''BranchJobType''\<rparr>)"
  "block_of pm_model ''BranchJobType'' = Some (BranchCode
     [\<lparr>kc_guard = None, kc_condition = with_chance (3 / 5), kc_next = ''AssignJobTypeOne''\<rparr>] (Some ''AssignJobTypeTwo''))"
  "block_of pm_model ''AssignJobTypeOne'' = Some (AssignCode
     [\<lparr>ac_target = TField 0, ac_guard = jobs_guard, ac_value = exactly (VInt64 1)\<rparr>] ''BranchByType'')"
  "block_of pm_model ''AssignJobTypeTwo'' = Some (AssignCode
     [\<lparr>ac_target = TField 0, ac_guard = jobs_guard, ac_value = exactly (VInt64 2)\<rparr>] ''BranchByType'')"
  "block_of pm_model ''BranchByType'' = Some (BranchCode
     [\<lparr>kc_guard = jobs_guard, kc_condition = field_test 0 (\<lambda>n. n = 1), kc_next = ''QueueA''\<rparr>,
      \<lparr>kc_guard = jobs_guard, kc_condition = field_test 0 (\<lambda>n. n = 2), kc_next = ''QueueB''\<rparr>] None)"
  "block_of pm_model ''QueueA'' = Some (pm_queue ''DelayA'')"
  "block_of pm_model ''DelayA'' = Some (pm_delay ''serviceARate'' ''QueueQC'' ''QueueA'')"
  "block_of pm_model ''QueueB'' = Some (pm_queue ''DelayB'')"
  "block_of pm_model ''DelayB'' = Some (pm_delay ''serviceBRate'' ''QueueQC'' ''QueueB'')"
  "block_of pm_model ''QueueQC'' = Some (pm_queue ''DelayQC'')"
  "block_of pm_model ''DelayQC'' = Some (pm_delay ''serviceQCRate'' ''QCResult'' ''QueueQC'')"
  "block_of pm_model ''QCResult'' = Some (BranchCode
     [\<lparr>kc_guard = None, kc_condition = with_chance (9 / 10), kc_next = ''SinkSuccessCount''\<rparr>] (Some ''ReworkCountUp''))"
  "block_of pm_model ''SinkSuccessCount'' = Some (AssignCode
     [\<lparr>ac_target = TVar ''totalEntitiesSink'', ac_guard = None, ac_value = one_sunk_more\<rparr>] ''SinkSuccess'')"
  "block_of pm_model ''SinkSuccess'' = Some TerminateCode"
  "block_of pm_model ''ReworkCountUp'' = Some (AssignCode
     [\<lparr>ac_target = TField 1, ac_guard = jobs_guard, ac_value = one_rework_more\<rparr>] ''ReworkDecision'')"
  "block_of pm_model ''ReworkDecision'' = Some (BranchCode
     [\<lparr>kc_guard = jobs_guard, kc_condition = field_test 1 (\<lambda>n. sint n \<le> 3), kc_next = ''BranchByType''\<rparr>] (Some ''SinkScrapCount''))"
  "block_of pm_model ''SinkScrapCount'' = Some (AssignCode
     [\<lparr>ac_target = TVar ''totalEntitiesSink'', ac_guard = None, ac_value = one_sunk_more\<rparr>] ''SinkScrap'')"
  "block_of pm_model ''SinkScrap'' = Some TerminateCode"
  by (simp_all add: block_of_def pm_model_def)

lemma pm_built: "well_built pm_model pm_rank 6"
  by (simp add: well_built_def distinct_blocks_def ranked_def pm_model_def pm_rank_def calls_of_def pm_queue_def pm_delay_def)

declare enter.simps [simp del]

lemma pm_zero: "cm_zero pm_model t = (if t = entityType_Jobs then Some [VInt64 0, VInt64 0] else None)"
  by (simp add: pm_model_def)

lemma pm_free: "sim_free pm_model ref s = pm_freeEntity ref s"
  by (simp add: sim_free_def pm_zero pm_freeEntity_def sim_halt_def cong: option.case_cong)

lemma pm_schedule: "sim_schedule = pm_Schedule"
  by (intro ext) (simp add: sim_schedule_def pm_Schedule_def)

lemma evalE_exactly [simp]: "evalE (exactly v) ref s = Ret (v, s)"
  by (simp add: evalE_def exactly_def)

lemma jobs_guard: "guard_ok jobs_guard ref \<longleftrightarrow> ref_Type ref = entityType_Jobs" "guard_ok None ref"
  by (simp_all add: guard_ok_def jobs_guard_def)

lemma bindR_if: "bindR (if c then r else r1) f = (if c then bindR r f else bindR r1 f)"
  by simp

lemma bindR_assoc: "bindR (bindR r f) g = bindR r (\<lambda>x. bindR (f x) g)"
  by (cases r) simp_all

lemma bindR_split: "bindR (bindR r (\<lambda>(a, b). f a b)) g = bindR r (\<lambda>(a, b). bindR (f a b) g)"
  by (cases r) (auto split: prod.split)

lemma on_queue_same: "on_queue q f (on_queue q g s) = on_queue q (\<lambda>x. f (g x)) s"
  by (simp add: on_queue_def)

lemma on_queue_at: "gs_queues (on_queue q f s) q = f (gs_queues s q)"
  by (simp add: on_queue_def)

lemma advance_with:
  assumes "block_of m q = Some (pm_queue nxt)"
  shows "try_advance m call q s =
     (case queue_top (gs_queues s q) of
        (None, q1) \<Rightarrow> Ret (False, on_queue q (\<lambda>_. q1) s)
      | (Some ref, q1) \<Rightarrow> bindR (call nxt ref (on_queue q (\<lambda>_. q1) s)) (\<lambda>(ok, s2).
            if \<not> ok then Ret (False, s2)
            else Ret (True, on_queue q (\<lambda>x. x\<lparr>sq_exitN := sq_exitN x + 1\<rparr>) (on_queue q queue_delete s2))))"
  using assms by (simp add: try_advance_def pm_queue_def cong: option.case_cong)

lemmas enter_unfold = block_step_def pm_blocks terminate_main_def pm_free assign_main_def branch_main.simps branch_next_def
  jobs_guard Let_def

lemma enter_SinkSuccess: "enter pm_model (Suc n) ''SinkSuccess'' ref s = func_block_TERMINATE_SinkSuccess ref s"
  by (simp add: enter.simps enter_unfold func_block_TERMINATE_SinkSuccess_def)

lemma enter_SinkScrap: "enter pm_model (Suc n) ''SinkScrap'' ref s = func_block_TERMINATE_SinkScrap ref s"
  by (simp add: enter.simps enter_unfold func_block_TERMINATE_SinkScrap_def)

lemma sink_with:
  assumes "\<And>s. call nxt ref s = f s"
  shows "assign_main call b [\<lparr>ac_target = TVar v, ac_guard = None, ac_value = e\<rparr>] nxt ref s =
     (let old = gs_vars s v in
      bindR (evalE e ref s) (\<lambda>(x, s1).
        let s2 = s1\<lparr>gs_vars := (gs_vars s1)(v := x)\<rparr> in
        bindR (f s2) (\<lambda>(ok, s3).
          if ok then Ret (True, passed b s3) else Ret (False, s3\<lparr>gs_vars := (gs_vars s3)(v := old)\<rparr>))))"
  by (cases "evalE e ref s") (auto simp: assign_main_def assms jobs_guard read_target_def write_target_def Let_def cong: if_cong split: prod.split)

lemma field_with:
  assumes "\<And>s. call nxt ref s = f s"
  shows "assign_main call b [\<lparr>ac_target = TField i, ac_guard = jobs_guard, ac_value = e\<rparr>] nxt ref s =
     bindR (if ref_Type ref = entityType_Jobs then
              (case read_target (TField i) ref s of
                 None \<Rightarrow> Fault
               | Some old \<Rightarrow> bindR (evalE e ref s) (\<lambda>(v, s1). Ret (Some old, set_field i v ref s1)))
            else Ret (None, s)) (\<lambda>(changed, s1).
       bindR (f s1) (\<lambda>(ok, s2).
         if ok then Ret (True, passed b s2)
         else Ret (False, case changed of None \<Rightarrow> s2 | Some old \<Rightarrow> set_field i old ref s2)))"
  by (cases "evalE e ref s")
    (auto simp: assign_main_def assms jobs_guard write_target_def Let_def cong: if_cong split: prod.split option.split)

lemma queue_with:
  assumes "\<And>s. try_advance m call b s = f s" "block_of m b = Some (pm_queue nxt)"
  shows "block_step m call b ref s =
     bindR (f (snd (let (idx, q) = queue_push ref (gs_queues (on_queue b (\<lambda>q. q\<lparr>sq_enterN := sq_enterN q + 1\<rparr>) s) b)
        in (idx, on_queue b (\<lambda>_. q) (on_queue b (\<lambda>q. q\<lparr>sq_enterN := sq_enterN q + 1\<rparr>) s))))) (\<lambda>(_, s3). Ret (True, s3))"
  by (simp add: block_step_def assms(2) pm_queue_def queue_main_def queue_store_def assms(1) Let_def on_queue_def split: prod.split)

lemma delay_with:
  assumes "block_of m b = Some (pm_delay rate nxt wake)"
  shows "block_step m call b ref s =
     (if 1 \<le> ds_busy (gs_delays s b) then Ret (False, s)
      else bindR (evalE (exponential_time rate) ref s) (\<lambda>(t, s1).
        Ret (True, pm_Schedule t (DelayOver b ref)
          (on_delay b (\<lambda>d. if ds_maxBusy d < ds_busy d then d\<lparr>ds_maxBusy := ds_busy d\<rparr> else d)
            (on_delay b (\<lambda>d. d\<lparr>ds_enterN := ds_enterN d + 1, ds_busy := ds_busy d + 1\<rparr>) s1)))))"
  by (simp add: block_step_def assms pm_delay_def delay_main_def delay_start_def jobs_guard pm_schedule Let_def)

lemma enter_SinkSuccessCount: "enter pm_model (Suc (Suc n)) ''SinkSuccessCount'' ref s = func_block_ASSIGN_SinkSuccessCount ref s"
  unfolding enter.simps(2) [of _ "Suc n"] block_step_def pm_blocks option.case block_code.case func_block_ASSIGN_SinkSuccessCount_def
  by (rule sink_with) (rule enter_SinkSuccess)

lemma enter_SinkScrapCount: "enter pm_model (Suc (Suc n)) ''SinkScrapCount'' ref s = func_block_ASSIGN_SinkScrapCount ref s"
  unfolding enter.simps(2) [of _ "Suc n"] block_step_def pm_blocks option.case block_code.case func_block_ASSIGN_SinkScrapCount_def
  by (rule sink_with) (rule enter_SinkScrap)

lemma enter_DelayA: "enter pm_model (Suc n) ''DelayA'' ref s = func_block_DELAY_DelayA ref s"
  by (simp add: enter.simps delay_with pm_blocks func_block_DELAY_DelayA_def Let_def)

lemma advance_QueueA: "try_advance pm_model (enter pm_model (Suc n)) ''QueueA'' s = func_queue_try_advance_QueueA s"
  by (simp add: advance_with pm_blocks enter_DelayA func_queue_try_advance_QueueA_def func_queue_top_QueueA_def
      func_queue_delete_QueueA_def Let_def cong: option.case_cong if_cong split: prod.split)

lemma enter_QueueA: "enter pm_model (Suc (Suc n)) ''QueueA'' ref s = func_block_QUEUE_QueueA ref s"
  unfolding enter.simps(2) [of _ "Suc n"] func_block_QUEUE_QueueA_def func_queue_push_QueueA_def Let_def
  by (rule queue_with [unfolded Let_def]) (rule advance_QueueA, rule pm_blocks)

lemma enter_DelayB: "enter pm_model (Suc n) ''DelayB'' ref s = func_block_DELAY_DelayB ref s"
  by (simp add: enter.simps delay_with pm_blocks func_block_DELAY_DelayB_def Let_def)

lemma advance_QueueB: "try_advance pm_model (enter pm_model (Suc n)) ''QueueB'' s = func_queue_try_advance_QueueB s"
  by (simp add: advance_with pm_blocks enter_DelayB func_queue_try_advance_QueueB_def func_queue_top_QueueB_def
      func_queue_delete_QueueB_def Let_def cong: option.case_cong if_cong split: prod.split)

lemma enter_QueueB: "enter pm_model (Suc (Suc n)) ''QueueB'' ref s = func_block_QUEUE_QueueB ref s"
  unfolding enter.simps(2) [of _ "Suc n"] func_block_QUEUE_QueueB_def func_queue_push_QueueB_def Let_def
  by (rule queue_with [unfolded Let_def]) (rule advance_QueueB, rule pm_blocks)

lemma enter_DelayQC: "enter pm_model (Suc n) ''DelayQC'' ref s = func_block_DELAY_DelayQC ref s"
  by (simp add: enter.simps delay_with pm_blocks func_block_DELAY_DelayQC_def Let_def)

lemma advance_QueueQC: "try_advance pm_model (enter pm_model (Suc n)) ''QueueQC'' s = func_queue_try_advance_QueueQC s"
  by (simp add: advance_with pm_blocks enter_DelayQC func_queue_try_advance_QueueQC_def func_queue_top_QueueQC_def
      func_queue_delete_QueueQC_def Let_def cong: option.case_cong if_cong split: prod.split)

lemma enter_QueueQC: "enter pm_model (Suc (Suc n)) ''QueueQC'' ref s = func_block_QUEUE_QueueQC ref s"
  unfolding enter.simps(2) [of _ "Suc n"] func_block_QUEUE_QueueQC_def func_queue_push_QueueQC_def Let_def
  by (rule queue_with [unfolded Let_def]) (rule advance_QueueQC, rule pm_blocks)

lemma two_cases:
  assumes "\<And>s. call a ref s = f s" "\<And>s. call b ref s = g s"
  shows "branch_main call n [\<lparr>kc_guard = k, kc_condition = c, kc_next = a\<rparr>] (Some b) ref s =
     bindR (if guard_ok k ref then evalE c ref s else Ret (False, s)) (\<lambda>(yes, s1).
       if yes then bindR (f s1) (\<lambda>(ok, t). if ok then Ret (True, passed n t) else Ret (False, t))
       else bindR (g s1) (\<lambda>(ok, t). if ok then Ret (True, passed n t) else Ret (False, t)))"
  by (simp add: branch_next_def assms cong: if_cong)


lemma enter_BranchByType: "enter pm_model (Suc (Suc (Suc n))) ''BranchByType'' ref s = func_block_BRANCH_BranchByType ref s"
proof (cases "ref_Type ref = entityType_Jobs")
  case True
  then show ?thesis
    by (simp add: enter.simps(2) [of _ "Suc (Suc n)"] block_step_def pm_blocks func_block_BRANCH_BranchByType_def branch_next_def
        jobs_guard enter_QueueA enter_QueueB sim_halt_def cong: if_cong)
next
  case False
  then show ?thesis
    by (simp add: enter.simps(2) [of _ "Suc (Suc n)"] block_step_def pm_blocks func_block_BRANCH_BranchByType_def jobs_guard sim_halt_def cong: if_cong)
qed

lemma enter_AssignJobTypeOne: "enter pm_model (Suc (Suc (Suc (Suc n)))) ''AssignJobTypeOne'' ref s = func_block_ASSIGN_AssignJobTypeOne ref s"
  unfolding enter.simps(2) [of _ "Suc (Suc (Suc n))"] block_step_def pm_blocks option.case block_code.case func_block_ASSIGN_AssignJobTypeOne_def
  by (rule field_with) (rule enter_BranchByType)

lemma enter_AssignJobTypeTwo: "enter pm_model (Suc (Suc (Suc (Suc n)))) ''AssignJobTypeTwo'' ref s = func_block_ASSIGN_AssignJobTypeTwo ref s"
  unfolding enter.simps(2) [of _ "Suc (Suc (Suc n))"] block_step_def pm_blocks option.case block_code.case func_block_ASSIGN_AssignJobTypeTwo_def
  by (rule field_with) (rule enter_BranchByType)

lemma enter_BranchJobType: "enter pm_model (Suc (Suc (Suc (Suc (Suc n))))) ''BranchJobType'' ref s = func_block_BRANCH_BranchJobType ref s"
  unfolding enter.simps(2) [of _ "Suc (Suc (Suc (Suc n)))"] block_step_def pm_blocks option.case block_code.case func_block_BRANCH_BranchJobType_def
  by (subst two_cases, rule enter_AssignJobTypeOne, rule enter_AssignJobTypeTwo) (simp add: jobs_guard)

lemma enter_ReworkDecision: "enter pm_model (Suc (Suc (Suc (Suc n)))) ''ReworkDecision'' ref s = func_block_BRANCH_ReworkDecision ref s"
  unfolding enter.simps(2) [of _ "Suc (Suc (Suc n))"] block_step_def pm_blocks option.case block_code.case func_block_BRANCH_ReworkDecision_def
  by (subst two_cases, rule enter_BranchByType, rule enter_SinkScrapCount) (simp add: jobs_guard)

lemma enter_ReworkCountUp: "enter pm_model (Suc (Suc (Suc (Suc (Suc n))))) ''ReworkCountUp'' ref s = func_block_ASSIGN_ReworkCountUp ref s"
  unfolding enter.simps(2) [of _ "Suc (Suc (Suc (Suc n)))"] block_step_def pm_blocks option.case block_code.case func_block_ASSIGN_ReworkCountUp_def
  by (rule field_with) (rule enter_ReworkDecision)

lemma enter_QCResult: "enter pm_model (Suc (Suc (Suc (Suc (Suc (Suc n)))))) ''QCResult'' ref s = func_block_BRANCH_QCResult ref s"
  unfolding enter.simps(2) [of _ "Suc (Suc (Suc (Suc (Suc n))))"] block_step_def pm_blocks option.case block_code.case func_block_BRANCH_QCResult_def
  by (subst two_cases, rule enter_SinkSuccessCount, rule enter_ReworkCountUp) (simp add: jobs_guard)

text \<open>All of them with the depth that is enough.\<close>

lemma at_six:
  "enter pm_model 6 ''DelayA'' = func_block_DELAY_DelayA" "enter pm_model 6 ''DelayB'' = func_block_DELAY_DelayB"
  "enter pm_model 6 ''DelayQC'' = func_block_DELAY_DelayQC" "enter pm_model 6 ''QueueA'' = func_block_QUEUE_QueueA"
  "enter pm_model 6 ''QueueB'' = func_block_QUEUE_QueueB" "enter pm_model 6 ''QueueQC'' = func_block_QUEUE_QueueQC"
  "enter pm_model 6 ''BranchJobType'' = func_block_BRANCH_BranchJobType" "enter pm_model 6 ''QCResult'' = func_block_BRANCH_QCResult"
proof -
  have six: "6 = Suc (Suc (Suc (Suc (Suc (Suc 0)))))" by simp
  show "enter pm_model 6 ''DelayA'' = func_block_DELAY_DelayA" "enter pm_model 6 ''DelayB'' = func_block_DELAY_DelayB"
    "enter pm_model 6 ''DelayQC'' = func_block_DELAY_DelayQC" "enter pm_model 6 ''QueueA'' = func_block_QUEUE_QueueA"
    "enter pm_model 6 ''QueueB'' = func_block_QUEUE_QueueB" "enter pm_model 6 ''QueueQC'' = func_block_QUEUE_QueueQC"
    "enter pm_model 6 ''BranchJobType'' = func_block_BRANCH_BranchJobType" "enter pm_model 6 ''QCResult'' = func_block_BRANCH_QCResult"
    by (intro ext, simp only: six enter_DelayA enter_DelayB enter_DelayQC enter_QueueA enter_QueueB enter_QueueQC
        enter_BranchJobType enter_QCResult)+
qed

lemma advance_at_six:
  "try_advance pm_model (enter pm_model 6) ''QueueA'' = func_queue_try_advance_QueueA"
  "try_advance pm_model (enter pm_model 6) ''QueueB'' = func_queue_try_advance_QueueB"
  "try_advance pm_model (enter pm_model 6) ''QueueQC'' = func_queue_try_advance_QueueQC"
  using advance_QueueA [of 5] advance_QueueB [of 5] advance_QueueQC [of 5] by (simp_all add: fun_eq_iff)

lemma wake_one: "wake_queues m call [q] s = bindR (try_advance m call q s) (\<lambda>(_, s1). Ret s1)"
  by (simp cong: if_cong)

lemma delay_handler:
  assumes "block_of pm_model b = Some (pm_delay rate nxt q)"
    and "\<And>s. enter pm_model 6 nxt ref s = f s" "\<And>s. try_advance pm_model (enter pm_model 6) q s = g s"
  shows "sim_handle pm_model (enter pm_model 6) (DelayOver b ref) s =
     bindR (f s) (\<lambda>(ok, s1).
       if ok then
         (let s2 = on_delay b (\<lambda>d. d\<lparr>ds_exitN := ds_exitN d + 1\<rparr>) s1;
              s3 = on_delay b (\<lambda>d. if 0 < ds_busy d then d\<lparr>ds_busy := ds_busy d - 1\<rparr> else d) s2
          in bindR (g s3) (\<lambda>(_, s4). Ret s4))
       else if gs_stop s1 then Ret s1
       else Ret (s1\<lparr>gs_stop := True, gs_reason := block_stuck b\<rparr>))"
  using assms(1) by (simp add: sim_handle_def pm_delay_def on_delay_event_def assms(2,3) wake_one sim_halt_def
      del: wake_queues.simps cong: if_cong)

lemma pm_create_loop:
  "create_loop pm_model (enter pm_model 6) ''Source'' \<lparr>ct_interval = e, ct_immediately = i, ct_batch = n,
     ct_entity = entityType_Jobs, ct_defaults = [VInt64 0, VInt64 0], ct_destroy = True, ct_next = ''BranchJobType''\<rparr> k s =
   pm_create_batch k s"
  proof (induction k arbitrary: s)
  case (Suc k)
  have "create_loop pm_model (enter pm_model 6) ''Source'' \<lparr>ct_interval = e, ct_immediately = i, ct_batch = n,
     ct_entity = entityType_Jobs, ct_defaults = [VInt64 0, VInt64 0], ct_destroy = True, ct_next = ''BranchJobType''\<rparr> k =
     pm_create_batch k" using Suc.IH by (intro ext)
  then show ?case by (simp add: at_six pm_free Let_def cong: if_cong)
qed simp

lemma source_handler: "sim_handle pm_model (enter pm_model 6) (CreateNow ''Source'') s = on_Source s"
  by (simp add: sim_handle_def pm_blocks on_create_event_def create_body_def create_main_def schedule_create_def
      pm_create_loop on_Source_def pm_func_block_CREATE_Source_def pm_schedule del: pm_create_batch.simps cong: if_cong)

lemma owned_cases:
  assumes "owned_event pm_model e"
  obtains "Handler e = Some (CreateNow ''Source'')"
  | ref where "Handler e = Some (DelayOver ''DelayA'' ref)" | ref where "Handler e = Some (DelayOver ''DelayB'' ref)"
  | ref where "Handler e = Some (DelayOver ''DelayQC'' ref)"
  using assms by (auto simp: owned_event_def block_of_def pm_model_def pm_queue_def pm_delay_def split: option.splits sim_handler.splits if_splits)

lemma pm_handler_is_generated:
  assumes "owned_event pm_model e" "Handler e = Some h"
  shows "pm_handler h s = sim_handle pm_model (enter pm_model 6) h s"
  using assms(1)
proof (cases rule: owned_cases)
  case 1
  with assms(2) have "h = CreateNow ''Source''" by simp
  then show ?thesis by (simp add: source_handler pm_handler_def)
next
  case (2 ref)
  have "sim_handle pm_model (enter pm_model 6) (DelayOver ''DelayA'' ref) s = on_DelayA ref s"
    unfolding on_DelayA_def by (rule delay_handler) (rule pm_blocks, simp_all add: at_six advance_at_six)
  moreover have "h = DelayOver ''DelayA'' ref" using 2 assms(2) by simp
  ultimately show ?thesis by (simp add: pm_handler_def)
next
  case (3 ref)
  have "sim_handle pm_model (enter pm_model 6) (DelayOver ''DelayB'' ref) s = on_DelayB ref s"
    unfolding on_DelayB_def by (rule delay_handler) (rule pm_blocks, simp_all add: at_six advance_at_six)
  moreover have "h = DelayOver ''DelayB'' ref" using 3 assms(2) by simp
  ultimately show ?thesis by (simp add: pm_handler_def)
next
  case (4 ref)
  have "sim_handle pm_model (enter pm_model 6) (DelayOver ''DelayQC'' ref) s = on_DelayQC ref s"
    unfolding on_DelayQC_def by (rule delay_handler) (rule pm_blocks, simp_all add: at_six advance_at_six)
  moreover have "h = DelayOver ''DelayQC'' ref" using 4 assms(2) by simp
  ultimately show ?thesis by (simp add: pm_handler_def)
qed

lemma pm_init: "pm_initModel source s = sim_init pm_model source (\<lambda>_. 0) (gs_vars s)"
  by (simp add: pm_initModel_def sim_init_def)

lemma pm_start: "pm_startCreateBlocks s = start_blocks pm_model (enter pm_model 6) (cm_blocks pm_model) s"
proof -
  let ?c = "\<lparr>ct_interval = exponential_time ''arrivalRate'', ct_immediately = False, ct_batch = exactly 1,
    ct_entity = entityType_Jobs, ct_defaults = [VInt64 0, VInt64 0], ct_destroy = True, ct_next = ''BranchJobType''\<rparr>"
  have "start_blocks m call (cm_blocks pm_model) s = create_main m call ''Source'' ?c s" for m call
    by (cases "create_main m call ''Source'' ?c s") (simp_all add: pm_model_def pm_queue_def pm_delay_def)
  then show ?thesis
    by (simp add: create_main_def schedule_create_def pm_startCreateBlocks_def pm_func_block_CREATE_Source_def pm_schedule)
qed

lemma pm_turn_is_generated:
  assumes "owned pm_model s"
  shows "pm_turn s = sim_turn pm_model (enter pm_model 6) s"
proof (cases "gs_events s = []")
  case True
  then show ?thesis by (simp add: pm_turn_def sim_turn_def eq_pop_def)
next
  case False
  obtain e q where pop: "eq_pop (gs_events s) = (e, q)" by (cases "eq_pop (gs_events s)")
  have "e \<in> set (gs_events s)"
    using conjunct2 [OF mset_eq_pop [OF False pop]] by (metis set_mset_add_mset_insert set_mset_mset insertI1)
  with assms have "owned_event pm_model e" by (simp add: owned_def)
  with pop show ?thesis
    by (cases "Handler e") (simp_all add: pm_turn_def sim_turn_def Let_def pm_handler_is_generated cong: if_cong)
qed

section \<open>Calls that only move jobs\<close>

definition quiet :: "pm \<Rightarrow> pm \<Rightarrow> bool" where
  "quiet s t \<longleftrightarrow> gs_pools t = gs_pools s \<and> gs_vars t = gs_vars s \<and> gs_stop t = gs_stop s \<and> gs_creates t = gs_creates s \<and>
     gs_counts t ''SinkSuccess'' = gs_counts s ''SinkSuccess'' \<and> gs_counts t ''SinkScrap'' = gs_counts s ''SinkScrap''"

definition typed :: "pm \<Rightarrow> bool" where
  "typed s \<longleftrightarrow> (\<forall>v \<in> {''arrivalRate'', ''serviceARate'', ''serviceBRate'', ''serviceQCRate''}. float_var v s \<noteq> None) \<and>
     (\<exists>n. gs_vars s ''totalEntitiesSink'' = VUint64 n)"

definition answers :: "pm \<Rightarrow> (bool \<times> pm) run \<Rightarrow> bool" where
  "answers s r \<longleftrightarrow> (\<exists>ok t. r = Ret (ok, t) \<and> quiet s t)"

definition stores :: "pm \<Rightarrow> (bool \<times> pm) run \<Rightarrow> bool" where
  "stores s r \<longleftrightarrow> (\<exists>t. r = Ret (True, t) \<and> quiet s t)"

lemma quiet_refl [simp]: "quiet s s"
  by (simp add: quiet_def)

lemma quiet_trans: "quiet s t \<Longrightarrow> quiet t u \<Longrightarrow> quiet s u"
  by (simp add: quiet_def)

lemma quiet_typed: "quiet s t \<Longrightarrow> typed s \<Longrightarrow> typed t"
  by (simp add: quiet_def typed_def float_var_def)

lemma quiet_steps [simp]:
  "quiet s (on_queue q f t) = quiet s t" "quiet s (on_delay b g t) = quiet s t" "quiet s (t\<lparr>gs_rng := r\<rparr>) = quiet s t"
  "quiet s (pm_Schedule x h t) = quiet s t"
  by (simp_all add: quiet_def on_queue_def on_delay_def pm_Schedule_def)

lemma quiet_passed [simp]: "b \<noteq> ''SinkSuccess'' \<Longrightarrow> b \<noteq> ''SinkScrap'' \<Longrightarrow> quiet s (passed b t) = quiet s t"
  by (simp add: quiet_def passed_def)

lemma exponential_draws:
  assumes "typed s" "v \<in> {''arrivalRate'', ''serviceARate'', ''serviceBRate'', ''serviceQCRate''}"
  shows "\<exists>x g. evalE (exponential_time v) ref s = Ret (x, s\<lparr>gs_rng := g\<rparr>)"
proof -
  obtain rate where "float_var v s = Some rate" using assms unfolding typed_def by blast
  moreover obtain x g where "rand_Exponential rate (gs_rng s) = (x, g)" by (cases "rand_Exponential rate (gs_rng s)")
  ultimately have "evalE (exponential_time v) ref s = Ret (x, s\<lparr>gs_rng := g\<rparr>)" by (simp add: evalE_def exponential_time_def)
  then show ?thesis by blast
qed

lemma delay_answers:
  assumes "block_of pm_model b = Some (pm_delay rate nxt wake)" "typed s"
    "rate \<in> {''arrivalRate'', ''serviceARate'', ''serviceBRate'', ''serviceQCRate''}"
  shows "answers s (block_step pm_model call b ref s)"
  using exponential_draws [OF assms(2,3), of ref] by (auto simp: delay_with [OF assms(1)] answers_def)

lemma delays_answer:
  assumes "typed s"
  shows "answers s (func_block_DELAY_DelayA ref s)" "answers s (func_block_DELAY_DelayB ref s)"
    "answers s (func_block_DELAY_DelayQC ref s)"
  using assms delay_answers [OF pm_blocks(7)] delay_answers [OF pm_blocks(9)] delay_answers [OF pm_blocks(11)]
  by (simp_all flip: enter_DelayA [of 0] enter_DelayB [of 0] enter_DelayQC [of 0] add: enter.simps)

lemma advance_answers:
  assumes "block_of m q = Some (pm_queue nxt)" "\<And>ref s. typed s \<Longrightarrow> answers s (call nxt ref s)" "typed s"
  shows "answers s (try_advance m call q s)"
proof -
  obtain r q1 where top: "queue_top (gs_queues s q) = (r, q1)" by (cases "queue_top (gs_queues s q)")
  let ?s = "on_queue q (\<lambda>_. q1) s"
  have quiet: "quiet s ?s" by simp
  show ?thesis
  proof (cases r)
    case None
    with top quiet show ?thesis by (auto simp: advance_with [OF assms(1)] answers_def)
  next
    case (Some ref)
    have "typed ?s" using quiet assms(3) by (rule quiet_typed)
    from assms(2) [OF this, of ref] obtain ok t where "call nxt ref ?s = Ret (ok, t)" "quiet ?s t" by (auto simp: answers_def)
    moreover have "quiet s t" using quiet \<open>quiet ?s t\<close> by (rule quiet_trans)
    ultimately show ?thesis using top Some by (auto simp: advance_with [OF assms(1)] answers_def)
  qed
qed

lemma advances_answer:
  assumes "typed s"
  shows "answers s (func_queue_try_advance_QueueA s)" "answers s (func_queue_try_advance_QueueB s)"
    "answers s (func_queue_try_advance_QueueQC s)"
proof -
  have call: "answers s (enter pm_model 6 ''DelayA'' ref s)" "answers s (enter pm_model 6 ''DelayB'' ref s)"
    "answers s (enter pm_model 6 ''DelayQC'' ref s)" if "typed s" for ref s
    using delays_answer [OF that] by (simp_all add: at_six)
  show "answers s (func_queue_try_advance_QueueA s)" "answers s (func_queue_try_advance_QueueB s)"
    "answers s (func_queue_try_advance_QueueQC s)"
    unfolding advance_at_six [symmetric]
    by (rule advance_answers [OF _ _ assms], rule pm_blocks [unfolded pm_queue_def [symmetric]], erule call)+
qed

lemma queues_store:
  assumes "typed s"
  shows "stores s (func_block_QUEUE_QueueA ref s)" "stores s (func_block_QUEUE_QueueB ref s)"
    "stores s (func_block_QUEUE_QueueQC ref s)"
proof -
  let ?in = "\<lambda>q. on_queue q (\<lambda>_. snd (queue_push ref ((gs_queues s q)\<lparr>sq_enterN := sq_enterN (gs_queues s q) + 1\<rparr>))) s"
  have typed: "typed (?in q)" for q by (rule quiet_typed [OF _ assms]) simp
  have quiet: "quiet (?in q) t \<Longrightarrow> quiet s t" for q t by (rule quiet_trans [of s "?in q"]) simp_all
  show "stores s (func_block_QUEUE_QueueA ref s)" "stores s (func_block_QUEUE_QueueB ref s)" "stores s (func_block_QUEUE_QueueQC ref s)"
    using advances_answer(1) [OF typed [of "''QueueA''"]] advances_answer(2) [OF typed [of "''QueueB''"]]
      advances_answer(3) [OF typed [of "''QueueQC''"]]
    by (auto simp: stores_def answers_def func_block_QUEUE_QueueA_def func_block_QUEUE_QueueB_def func_block_QUEUE_QueueQC_def
        func_queue_push_QueueA_def func_queue_push_QueueB_def func_queue_push_QueueQC_def Let_def on_queue_same on_queue_at split_def dest!: quiet)
qed

section \<open>Jobs\<close>

text \<open>The job behind a reference, with its fields.\<close>

definition job_at :: "entity_ref \<Rightarrow> pm \<Rightarrow> 64 word \<Rightarrow> 64 word \<Rightarrow> bool" where
  "job_at ref s t k \<longleftrightarrow> ref_Type ref = entityType_Jobs \<and>
     pool_get (gs_pools s entityType_Jobs) (ref_Idx ref) = Some [VInt64 t, VInt64 k]"

lemma job_reads:
  assumes "job_at ref s t k"
  shows "ref_Type ref = entityType_Jobs" "read_target (TField 0) ref s = Some (VInt64 t)"
    "read_target (TField 1) ref s = Some (VInt64 k)" "int_field 0 ref s = Some t" "int_field 1 ref s = Some k"
  using assms by (simp_all add: job_at_def int_field_def read_target_def)

lemma job_quiet: "quiet s u \<Longrightarrow> job_at ref u t k = job_at ref s t k"
  by (simp add: quiet_def job_at_def)

lemma job_set:
  assumes "job_at ref s t k"
  shows "job_at ref (set_field 0 (VInt64 v) ref s) v k" "job_at ref (set_field 1 (VInt64 v) ref s) t v"
  using assms by (auto simp: job_at_def set_field_def pool_get_def Let_def split: if_splits)

lemma typed_set [simp]: "typed (set_field i v ref s) = typed s"
  by (simp add: typed_def float_var_def set_field_def Let_def)

lemma job_rng [simp]: "job_at ref (s\<lparr>gs_rng := g\<rparr>) t k = job_at ref s t k" "typed (s\<lparr>gs_rng := g\<rparr>) = typed s"
  by (simp_all add: job_at_def typed_def float_var_def)

lemma stores_passed:
  assumes "stores s r" "b \<noteq> ''SinkSuccess''" "b \<noteq> ''SinkScrap''"
  shows "stores s (bindR r (\<lambda>(ok, t). if ok then Ret (True, passed b t) else f t))"
  using assms by (auto simp: stores_def simp del: bindR_eq_Ret)

lemma type_stores:
  assumes "job_at ref s t k" "typed s" "t = 1 \<or> t = 2"
  shows "stores s (func_block_BRANCH_BranchByType ref s)"
  using assms(3) stores_passed [OF queues_store(1) [OF assms(2), of ref], of "''BranchByType''"]
    stores_passed [OF queues_store(2) [OF assms(2), of ref], of "''BranchByType''"] job_reads [OF assms(1)]
  by (auto simp: func_block_BRANCH_BranchByType_def evalE_def field_test_def)

lemma assign_stores:
  assumes "job_at ref s t k" "typed s"
  shows "stores (set_field 0 (VInt64 1) ref s) (func_block_ASSIGN_AssignJobTypeOne ref s)"
    "stores (set_field 0 (VInt64 2) ref s) (func_block_ASSIGN_AssignJobTypeTwo ref s)"
proof -
  have "stores (set_field 0 (VInt64 v) ref s) (func_block_BRANCH_BranchByType ref (set_field 0 (VInt64 v) ref s))"
    if "v = 1 \<or> v = 2" for v
    using job_set(1) [OF assms(1)] assms(2) that by (intro type_stores) simp_all
  from this [of 1] this [of 2] show
    "stores (set_field 0 (VInt64 1) ref s) (func_block_ASSIGN_AssignJobTypeOne ref s)"
    "stores (set_field 0 (VInt64 2) ref s) (func_block_ASSIGN_AssignJobTypeTwo ref s)"
    by (auto simp: func_block_ASSIGN_AssignJobTypeOne_def func_block_ASSIGN_AssignJobTypeTwo_def job_reads [OF assms(1)]
        intro: stores_passed)
qed

lemma chance_draws: "\<exists>yes g. evalE (with_chance p) ref s = Ret (yes, s\<lparr>gs_rng := g\<rparr>)"
  by (cases "rand_Uniform (Fin 0) (Fin 1) (gs_rng s)") (auto simp: evalE_def with_chance_def)

lemma set_rng: "set_field i v ref (s\<lparr>gs_rng := g\<rparr>) = (set_field i v ref s)\<lparr>gs_rng := g\<rparr>"
  by (simp add: set_field_def Let_def)

lemma quiet_rng_from: "quiet (s\<lparr>gs_rng := g\<rparr>) t = quiet s t"
  by (simp add: quiet_def)

lemma new_job_stores:
  assumes "job_at ref s t k" "typed s"
  shows "\<exists>v. (v = 1 \<or> v = 2) \<and> stores (set_field 0 (VInt64 v) ref s) (func_block_BRANCH_BranchJobType ref s)"
proof -
  obtain yes g where draw: "evalE (with_chance (3 / 5)) ref s = Ret (yes, s\<lparr>gs_rng := g\<rparr>)" using chance_draws by blast
  have job: "job_at ref (s\<lparr>gs_rng := g\<rparr>) t k" "typed (s\<lparr>gs_rng := g\<rparr>)" using assms by simp_all
  have "stores (set_field 0 (VInt64 (if yes then 1 else 2)) ref s) (func_block_BRANCH_BranchJobType ref s)"
    using stores_passed [OF assign_stores(1) [OF job]] stores_passed [OF assign_stores(2) [OF job]]
    by (simp add: func_block_BRANCH_BranchJobType_def draw set_rng stores_def quiet_rng_from)
  then show ?thesis by (intro exI [of _ "if yes then 1 else 2"]) simp
qed

text \<open>A job that leaves the shop.\<close>

definition sunk :: "pm \<Rightarrow> u64" where
  "sunk s = fc_enterN (gs_counts s ''SinkSuccess'') + fc_enterN (gs_counts s ''SinkScrap'')"

definition leaves :: "entity_ref \<Rightarrow> pm \<Rightarrow> (bool \<times> pm) run \<Rightarrow> bool" where
  "leaves ref s r \<longleftrightarrow> (\<exists>u p n. r = Ret (True, u) \<and>
     pool_free [VInt64 0, VInt64 0] (gs_pools s entityType_Jobs) (ref_Idx ref) = Some p \<and>
     gs_pools u = (gs_pools s)(entityType_Jobs := p) \<and> gs_stop u = gs_stop s \<and> gs_creates u = gs_creates s \<and>
     gs_vars s ''totalEntitiesSink'' = VUint64 n \<and> gs_vars u = (gs_vars s)(''totalEntitiesSink'' := VUint64 (n + 1)) \<and>
     sunk u = sunk s + 1)"

lemma sink_leaves:
  assumes "job_at ref s t k" "typed s"
  shows "leaves ref s (func_block_ASSIGN_SinkSuccessCount ref s)" "leaves ref s (func_block_ASSIGN_SinkScrapCount ref s)"
proof -
  obtain n where n: "gs_vars s ''totalEntitiesSink'' = VUint64 n" using assms(2) by (auto simp: typed_def)
  have t: "ref_Type ref = entityType_Jobs" and "unat (ref_Idx ref) < length (Entities (gs_pools s entityType_Jobs))"
    using assms(1) by (auto simp: job_at_def pool_get_def split: if_splits)
  then obtain p where p: "pool_free [VInt64 0, VInt64 0] (gs_pools s entityType_Jobs) (ref_Idx ref) = Some p"
    by (simp add: pool_free_def)
  show "leaves ref s (func_block_ASSIGN_SinkSuccessCount ref s)" "leaves ref s (func_block_ASSIGN_SinkScrapCount ref s)"
    using n p t by (simp_all add: leaves_def func_block_ASSIGN_SinkSuccessCount_def func_block_ASSIGN_SinkScrapCount_def
        func_block_TERMINATE_SinkSuccess_def func_block_TERMINATE_SinkScrap_def evalE_def one_sunk_more_def pm_freeEntity_def
        passed_def sunk_def Let_def)
qed

lemma leaves_passed:
  assumes "leaves ref s r" "b \<noteq> ''SinkSuccess''" "b \<noteq> ''SinkScrap''"
  shows "leaves ref s (bindR r (\<lambda>(ok, t). if ok then Ret (True, passed b t) else f t))"
  using assms by (auto simp: leaves_def passed_def sunk_def simp del: bindR_eq_Ret)

lemma decision:
  assumes "job_at ref s t k" "typed s" "t = 1 \<or> t = 2"
  shows "if sint k \<le> 3 then stores s (func_block_BRANCH_ReworkDecision ref s) else leaves ref s (func_block_BRANCH_ReworkDecision ref s)"
  using stores_passed [OF type_stores [OF assms], of "''ReworkDecision''"] leaves_passed [OF sink_leaves(2) [OF assms(1,2)], of "''ReworkDecision''"]
    job_reads [OF assms(1)]
  by (simp add: func_block_BRANCH_ReworkDecision_def evalE_def field_test_def)

lemma counted_up:
  assumes "job_at ref s t k" "typed s" "t = 1 \<or> t = 2"
  shows "if sint (k + 1) \<le> 3 then stores (set_field 1 (VInt64 (k + 1)) ref s) (func_block_ASSIGN_ReworkCountUp ref s)
    else leaves ref (set_field 1 (VInt64 (k + 1)) ref s) (func_block_ASSIGN_ReworkCountUp ref s)"
proof -
  let ?s = "set_field 1 (VInt64 (k + 1)) ref s"
  have "job_at ref ?s t (k + 1)" using assms(1) by (rule job_set)
  then have d: "if sint (k + 1) \<le> 3 then stores ?s (func_block_BRANCH_ReworkDecision ref ?s)
      else leaves ref ?s (func_block_BRANCH_ReworkDecision ref ?s)"
    using assms(2,3) by (intro decision) simp_all
  have "func_block_ASSIGN_ReworkCountUp ref s = bindR (func_block_BRANCH_ReworkDecision ref ?s) (\<lambda>(ok, t).
      if ok then Ret (True, passed ''ReworkCountUp'' t) else Ret (False, set_field 1 (VInt64 k) ref t))"
    by (simp add: func_block_ASSIGN_ReworkCountUp_def job_reads [OF assms(1)] evalE_def one_rework_more_def
        del: One_nat_def cong: option.case_cong if_cong)
  with d show ?thesis
    by (auto intro: stores_passed leaves_passed)
qed

section \<open>The shop\<close>

text \<open>
  Every live job, but those in \<open>X\<close>, is of one of the two types and has been reworked at most three
  times; \<open>n\<close> is what the counter of the sinks had at the start.
\<close>

definition job_ok :: "pm \<Rightarrow> u32 \<Rightarrow> bool" where
  "job_ok s i \<longleftrightarrow> (\<exists>t k. job_at \<lparr>ref_Type = entityType_Jobs, ref_Idx = i\<rparr> s t k \<and> (t = 1 \<or> t = 2) \<and> 0 \<le> sint k \<and> sint k \<le> 3)"

lemma job_okI:
  assumes "job_at ref s t k" "t = 1 \<or> t = 2" "0 \<le> sint k" "sint k \<le> 3"
  shows "job_ok s (ref_Idx ref)"
proof -
  have "\<lparr>ref_Type = entityType_Jobs, ref_Idx = ref_Idx ref\<rparr> = ref" using assms(1) by (cases ref) (simp add: job_at_def)
  with assms show ?thesis unfolding job_ok_def by auto
qed

definition shop_but :: "u32 set \<Rightarrow> u64 \<Rightarrow> pm \<Rightarrow> bool" where
  "shop_but X n s \<longleftrightarrow> typed s \<and> \<not> gs_stop s \<and> cc_dropN (gs_creates s ''Source'') = 0 \<and>
     gs_vars s ''totalEntitiesSink'' = VUint64 (n + sunk s) \<and>
     (\<forall>i \<in> pool_live (gs_pools s entityType_Jobs) - X. job_ok s i)"

lemma shop_quiet:
  assumes "shop_but X n s" "quiet s u"
  shows "shop_but X n u"
proof -
  have "job_ok u = job_ok s" using job_quiet [OF assms(2)] by (simp add: job_ok_def fun_eq_iff)
  moreover have "typed u" using assms by (auto simp: shop_but_def intro: quiet_typed)
  ultimately show ?thesis using assms by (simp add: shop_but_def quiet_def sunk_def)
qed

lemma shop_stores: "shop_but X n s \<Longrightarrow> stores s r \<Longrightarrow> \<exists>u. r = Ret (True, u) \<and> shop_but X n u"
  by (auto simp: stores_def intro: shop_quiet)

lemma job_set_other:
  assumes "ref_Type ref = entityType_Jobs" "i \<noteq> ref_Idx ref"
  shows "job_ok (set_field j v ref s) i = job_ok s i"
proof -
  have "unat i \<noteq> unat (ref_Idx ref)" using assms(2) by (auto simp: word_unat_eq_iff)
  then show ?thesis using assms(1) by (simp add: job_ok_def job_at_def set_field_def pool_get_def Let_def)
qed

lemma set_live: "pool_live (gs_pools (set_field j v ref s) x) = pool_live (gs_pools s x)"
  by (simp add: set_field_def pool_live_def Let_def)

lemma set_parts [simp]:
  "gs_vars (set_field j v ref s) = gs_vars s" "gs_stop (set_field j v ref s) = gs_stop s"
  "gs_creates (set_field j v ref s) = gs_creates s" "sunk (set_field j v ref s) = sunk s"
  by (simp_all add: set_field_def sunk_def Let_def)

lemma small_succ:
  assumes "0 \<le> sint (k :: 64 word)" "sint k \<le> 3"
  shows "sint (k + 1) = sint k + 1"
proof -
  have "k = word_of_int (sint k)" by simp
  moreover have "sint k = 0 \<or> sint k = 1 \<or> sint k = 2 \<or> sint k = 3" using assms by arith
  ultimately have "k = 0 \<or> k = 1 \<or> k = 2 \<or> k = 3" by (metis of_int_0 of_int_1 of_int_numeral)
  then show ?thesis by (elim disjE) simp_all
qed

lemma shop_set:
  assumes "shop_but X n s" "ref_Type ref = entityType_Jobs"
  shows "shop_but (insert (ref_Idx ref) X) n (set_field j v ref s)"
  using assms job_set_other [OF assms(2)] by (auto simp: shop_but_def set_live)

lemma shop_with:
  assumes "shop_but {i} n s" "job_ok s i"
  shows "shop_but {} n s"
  using assms by (auto simp: shop_but_def)

lemma shop_leaves:
  assumes "shop_but {ref_Idx ref} n s" "leaves ref s r" "pool_ok (gs_pools s entityType_Jobs)"
    "ref_Idx ref \<in> pool_live (gs_pools s entityType_Jobs)"
  shows "\<exists>u. r = Ret (True, u) \<and> shop_but {} n u"
proof -
  obtain u p k where r: "r = Ret (True, u)"
    and p: "pool_free [VInt64 0, VInt64 0] (gs_pools s entityType_Jobs) (ref_Idx ref) = Some p"
    and u: "gs_pools u = (gs_pools s)(entityType_Jobs := p)" "gs_stop u = gs_stop s" "gs_creates u = gs_creates s"
      "gs_vars s ''totalEntitiesSink'' = VUint64 k" "gs_vars u = (gs_vars s)(''totalEntitiesSink'' := VUint64 (k + 1))"
      "sunk u = sunk s + 1"
    using assms(2) by (auto simp: leaves_def)
  have live: "pool_live p = pool_live (gs_pools s entityType_Jobs) - {ref_Idx ref}"
    using pool_free_live [OF assms(3,4), of "[VInt64 0, VInt64 0]"] p by auto
  have "job_ok u i" if "i \<in> pool_live p" for i
  proof -
    have "i \<noteq> ref_Idx ref" using that live by blast
    then have "unat i \<noteq> unat (ref_Idx ref)" by (auto simp: word_unat_eq_iff)
    moreover have "job_ok s i" using assms(1) that live by (auto simp: shop_but_def)
    ultimately show ?thesis using p by (auto simp: job_ok_def job_at_def u(1) pool_get_def pool_free_def split: if_splits)
  qed
  moreover have "typed u" using assms(1) by (simp add: shop_but_def typed_def float_var_def u(5))
  ultimately show ?thesis using assms(1) r u live by (auto simp: shop_but_def algebra_simps)
qed

section \<open>Events of the shop\<close>

lemma checked:
  assumes s: "shop_but {} n s" and ref: "ref_Type ref = entityType_Jobs" "ref_Idx ref \<in> pool_live (gs_pools s entityType_Jobs)"
    and pool: "pool_ok (gs_pools s entityType_Jobs)"
  shows "\<exists>u. func_block_BRANCH_QCResult ref s = Ret (True, u) \<and> shop_but {} n u"
proof -
  obtain yes g where draw: "evalE (with_chance (9 / 10)) ref s = Ret (yes, s\<lparr>gs_rng := g\<rparr>)" using chance_draws by blast
  let ?s = "s\<lparr>gs_rng := g\<rparr>"
  have shop: "shop_but {} n ?s" using s by (rule shop_quiet) simp
  then have ty: "typed ?s" by (simp add: shop_but_def)
  have "job_ok ?s (ref_Idx ref)" using shop ref(2) by (simp add: shop_but_def)
  moreover have "\<lparr>ref_Type = entityType_Jobs, ref_Idx = ref_Idx ref\<rparr> = ref" using ref(1) by (cases ref) simp
  ultimately obtain t k where job: "job_at ref ?s t k" and t: "t = 1 \<or> t = 2" and k: "0 \<le> sint k" "sint k \<le> 3"
    by (auto simp: job_ok_def)
  let ?s1 = "set_field 1 (VInt64 (k + 1)) ref ?s"
  have pools: "pool_ok (gs_pools ?s1 entityType_Jobs)" "ref_Idx ref \<in> pool_live (gs_pools ?s1 entityType_Jobs)"
    using pool ref(2) by (simp_all add: set_live) (simp add: pool_ok_def set_field_def Let_def)
  have s1: "shop_but {ref_Idx ref} n ?s1" using shop ref(1) by (rule shop_set)
  have up: "sint (k + 1) = sint k + 1" using k by (rule small_succ)
  show ?thesis
  proof (cases yes)
    case True
    have "leaves ref ?s (func_block_ASSIGN_SinkSuccessCount ref ?s)" using job ty by (rule sink_leaves)
    then have "leaves ref ?s (func_block_BRANCH_QCResult ref s)"
      using True by (simp add: func_block_BRANCH_QCResult_def draw leaves_passed)
    moreover have "shop_but {ref_Idx ref} n ?s" using shop by (simp add: shop_but_def)
    ultimately show ?thesis using pool ref(2) by (intro shop_leaves [of ref n ?s]) simp_all
  next
    case False
    have d: "if sint (k + 1) \<le> 3 then stores ?s1 (func_block_BRANCH_QCResult ref s) else leaves ref ?s1 (func_block_BRANCH_QCResult ref s)"
      using False counted_up [OF job ty t] by (auto simp: func_block_BRANCH_QCResult_def draw intro: stores_passed leaves_passed)
    show ?thesis
    proof (cases "sint (k + 1) \<le> 3")
      case True
      have "job_ok ?s1 (ref_Idx ref)"
        using t k up True by (intro job_okI [OF job_set(2) [OF job]]) simp_all
      with s1 have "shop_but {} n ?s1" by (rule shop_with)
      with d True show ?thesis by (auto dest: shop_stores)
    next
      case False
      with d have "leaves ref ?s1 (func_block_BRANCH_QCResult ref s)" by simp
      with s1 show ?thesis using pools by (rule shop_leaves)
    qed
  qed
qed

lemma delay_done:
  assumes "shop_but {} n t" "\<And>s. typed s \<Longrightarrow> answers s (g s)"
  shows "\<exists>u. bindR (g (on_delay b h2 (on_delay b h1 t))) (\<lambda>(_, s4). Ret s4) = Ret u \<and> shop_but {} n u"
proof -
  let ?t = "on_delay b h2 (on_delay b h1 t)"
  have t: "shop_but {} n ?t" using assms(1) by (rule shop_quiet) simp
  then have "typed ?t" by (simp add: shop_but_def)
  with assms(2) obtain ok u where "g ?t = Ret (ok, u)" "quiet ?t u" unfolding answers_def by blast
  with shop_quiet [OF t] show ?thesis by auto
qed

lemma delays_done:
  assumes s: "shop_but {} n s"
  shows "\<exists>u. on_DelayA ref s = Ret u \<and> shop_but {} n u" "\<exists>u. on_DelayB ref s = Ret u \<and> shop_but {} n u"
    "ref_Type ref = entityType_Jobs \<Longrightarrow> ref_Idx ref \<in> pool_live (gs_pools s entityType_Jobs) \<Longrightarrow>
     pool_ok (gs_pools s entityType_Jobs) \<Longrightarrow> \<exists>u. on_DelayQC ref s = Ret u \<and> shop_but {} n u"
proof -
  have "typed s" using s by (simp add: shop_but_def)
  from shop_stores [OF s queues_store(3) [OF this, of ref]] obtain t
    where t: "func_block_QUEUE_QueueQC ref s = Ret (True, t)" "shop_but {} n t" by blast
  show "\<exists>u. on_DelayA ref s = Ret u \<and> shop_but {} n u" "\<exists>u. on_DelayB ref s = Ret u \<and> shop_but {} n u"
    using delay_done [OF t(2) advances_answer(1)] delay_done [OF t(2) advances_answer(2)]
    by (simp_all add: on_DelayA_def on_DelayB_def t(1) Let_def del: bindR_eq_Ret)
  show "\<exists>u. on_DelayQC ref s = Ret u \<and> shop_but {} n u"
    if "ref_Type ref = entityType_Jobs" "ref_Idx ref \<in> pool_live (gs_pools s entityType_Jobs)" "pool_ok (gs_pools s entityType_Jobs)"
  proof -
    from checked [OF s that] obtain t where t: "func_block_BRANCH_QCResult ref s = Ret (True, t)" "shop_but {} n t" by blast
    with delay_done [OF t(2) advances_answer(3)] show ?thesis
      by (simp add: on_DelayQC_def Let_def del: bindR_eq_Ret)
  qed
qed

lemma new_job:
  assumes s: "shop_but {} n s" and pool: "pool_ok (gs_pools s entityType_Jobs)"
    and al: "pool_alloc [] (gs_pools s entityType_Jobs) = (i, p)"
  defines "s1 \<equiv> on_create ''Source'' (\<lambda>x. x\<lparr>cc_createdN := cc_createdN x + 1\<rparr>)
    (s\<lparr>gs_pools := (gs_pools s)(entityType_Jobs := p\<lparr>Entities := (Entities p)[unat i := [VInt64 0, VInt64 0]]\<rparr>)\<rparr>)"
  shows "typed s1 \<and> job_at \<lparr>ref_Type = entityType_Jobs, ref_Idx = i\<rparr> s1 0 0 \<and>
    (length (Entities p) \<le> 2 ^ 32 \<longrightarrow> shop_but {i} n s1)"
proof -
  let ?q = "gs_pools s entityType_Jobs" and ?e = "[VInt64 0, VInt64 0]"
  have in_range: "unat i < length (Entities p)"
    using al
  proof (cases rule: pool_alloc_cases)
    case grow
    have "unat (word_of_nat (length (Entities ?q)) :: u32) \<le> length (Entities ?q)"
      by (simp add: unsigned_of_nat take_bit_nat_less_eq_self)
    with grow show ?thesis by simp
  next
    case (reuse fs)
    with pool show ?thesis by (simp add: pool_ok_def)
  qed
  have typed: "typed s1" using s by (simp add: s1_def shop_but_def typed_def float_var_def on_create_def)
  have job: "job_at \<lparr>ref_Type = entityType_Jobs, ref_Idx = i\<rparr> s1 0 0"
    using in_range by (simp add: s1_def job_at_def pool_get_def on_create_def)
  have "shop_but {i} n s1" if room: "length (Entities p) \<le> 2 ^ 32"
  proof -
    have "pool_room ?q" using al by (cases rule: pool_alloc_cases) (use room in \<open>auto simp: pool_room_def\<close>)
    from pool_alloc_live [OF pool this al] have live: "pool_live p = insert i (pool_live ?q)" by simp
    have old: "Entities p ! unat j = Entities ?q ! unat j \<and> unat j < length (Entities p)" if "j \<in> pool_live ?q" for j
      using al by (cases rule: pool_alloc_cases) (use that in \<open>auto simp: nth_append pool_live_def\<close>)
    have "job_ok s1 j" if "j \<in> pool_live ?q" "j \<noteq> i" for j
    proof -
      have "unat i \<noteq> unat j" using that(2) by (auto simp: word_unat_eq_iff)
      moreover have "job_ok s j" using s that(1) by (simp add: shop_but_def)
      moreover have "unat j < length (Entities ?q)" using that(1) by (simp add: pool_live_def)
      ultimately show ?thesis using old [OF that(1)]
        by (simp add: job_ok_def job_at_def s1_def on_create_def pool_get_def)
    qed
    moreover have "pool_live (gs_pools s1 entityType_Jobs) = insert i (pool_live ?q)"
      using live by (simp add: s1_def on_create_def pool_live_def)
    ultimately show ?thesis using s typed by (auto simp: shop_but_def s1_def on_create_def sunk_def)
  qed
  with typed job show ?thesis by simp
qed

lemma source_done:
  assumes s: "shop_but {} n s" and pool: "pool_ok (gs_pools s entityType_Jobs)"
  shows "\<exists>u. on_Source s = Ret u \<and> (roomy u \<longrightarrow> shop_but {} n u) \<and>
    (\<forall>x. length (Entities (gs_pools u x)) \<le> Suc (length (Entities (gs_pools s x))))"
proof -
  obtain i p where al: "pool_alloc [] (gs_pools s entityType_Jobs) = (i, p)" by (cases "pool_alloc [] (gs_pools s entityType_Jobs)")
  let ?ref = "\<lparr>ref_Type = entityType_Jobs, ref_Idx = i\<rparr>"
  define s1 where "s1 = on_create ''Source'' (\<lambda>x. x\<lparr>cc_createdN := cc_createdN x + 1\<rparr>)
    (s\<lparr>gs_pools := (gs_pools s)(entityType_Jobs := p\<lparr>Entities := (Entities p)[unat i := [VInt64 0, VInt64 0]]\<rparr>)\<rparr>)"
  note new = new_job [OF s pool al, folded s1_def]
  have ty: "typed s1" and job: "job_at ?ref s1 0 0" using new by blast+
  from new_job_stores [OF job ty] obtain v t where v: "v = 1 \<or> v = 2"
    and t: "func_block_BRANCH_BranchJobType ?ref s1 = Ret (True, t)" "quiet (set_field 0 (VInt64 v) ?ref s1) t"
    by (auto simp: stores_def)
  let ?t = "on_create ''Source'' (\<lambda>x. x\<lparr>cc_exitN := cc_exitN x + 1\<rparr>) t"
  have not_stop: "\<not> gs_stop ?t" using t(2) s by (simp add: quiet_def on_create_def s1_def shop_but_def)
  have "typed t" using t(2) by (rule quiet_typed) (simp add: ty)
  then have "typed ?t" by (simp add: typed_def float_var_def on_create_def)
  then obtain x g where draw: "evalE (exponential_time ''arrivalRate'') no_ref ?t = Ret (x, ?t\<lparr>gs_rng := g\<rparr>)"
    using exponential_draws [of ?t "''arrivalRate''"] by blast
  let ?u = "pm_Schedule x (CreateNow ''Source'') (?t\<lparr>gs_rng := g\<rparr>)"
  have u: "on_Source s = Ret ?u"
    using al t(1) not_stop draw
    by (simp add: on_Source_def pm_func_block_CREATE_Source_def Let_def flip: s1_def)
  have "shop_but {} n ?u" if "roomy ?u"
  proof -
    have "length (Entities (gs_pools t entityType_Jobs)) \<le> 2 ^ 32"
      using that by (simp add: roomy_def pm_Schedule_def on_create_def)
    then have "length (Entities p) \<le> 2 ^ 32" using t(2) by (simp add: quiet_def set_field_def s1_def on_create_def Let_def)
    then have "shop_but {i} n s1" using new by blast
    then have "shop_but {i} n (set_field 0 (VInt64 v) ?ref s1)" using shop_set [of "{i}" n s1 ?ref] by simp
    moreover have "job_ok (set_field 0 (VInt64 v) ?ref s1) i" using job_okI [OF job_set(1) [OF job] v] by simp
    ultimately have "shop_but {} n (set_field 0 (VInt64 v) ?ref s1)" by (rule shop_with)
    then have "shop_but {} n t" using t(2) by (rule shop_quiet)
    then have "shop_but {} n ?t" by (simp add: shop_but_def typed_def float_var_def on_create_def sunk_def job_ok_def job_at_def)
    then show ?thesis by (rule shop_quiet) simp
  qed
  moreover have "length (Entities p) \<le> Suc (length (Entities (gs_pools s entityType_Jobs)))"
    using al by (cases rule: pool_alloc_cases) simp_all
  then have "length (Entities (gs_pools ?u x)) \<le> Suc (length (Entities (gs_pools s x)))" for x
    using t(2) by (auto simp: quiet_def pm_Schedule_def on_create_def set_field_def s1_def Let_def)
  ultimately show ?thesis using u by blast
qed

section \<open>Runs of the shop\<close>

lemma pm_distinct: "distinct_blocks pm_model"
  using pm_built by (simp add: well_built_def)

lemma pm_reach_sim:
  "pm_reach source s0 s \<longleftrightarrow> sim_reach pm_model 6 (sim_init pm_model source (\<lambda>_. 0) (gs_vars s0)) s"
proof
  assume "pm_reach source s0 s"
  then show "sim_reach pm_model 6 (sim_init pm_model source (\<lambda>_. 0) (gs_vars s0)) s"
  proof (induction rule: pm_reach.induct)
    case (start s)
    then show ?case by (simp add: pm_start pm_init sim_reach.start)
  next
    case (turn s s')
    have "owned pm_model s" using pm_distinct turn.IH by (rule reach_owned)
    with turn show ?case by (auto simp: pm_turn_is_generated intro: sim_reach.turn)
  qed
next
  assume "sim_reach pm_model 6 (sim_init pm_model source (\<lambda>_. 0) (gs_vars s0)) s"
  then show "pm_reach source s0 s"
  proof (induction rule: sim_reach.induct)
    case (start s)
    then show ?case by (simp add: pm_start pm_init pm_reach.start)
  next
    case (turn s s')
    have "owned pm_model s" using pm_distinct turn.hyps(1) by (rule reach_owned)
    with turn show ?case by (auto simp: pm_turn_is_generated intro: pm_reach.turn)
  qed
qed

lemma reach_owned_pm: "pm_reach source s0 s \<Longrightarrow> owned pm_model s"
  using pm_distinct by (auto simp: pm_reach_sim intro: reach_owned)

lemma reach_good_pm: "pm_reach source s0 s \<Longrightarrow> roomy s \<Longrightarrow> good pm_model pm_rank 6 s"
  using pm_built by (auto simp: pm_reach_sim intro: reach_good)

lemma delayed_live:
  assumes "good pm_model pm_rank 6 s" "e \<in> set (gs_events s)" "Handler e = Some (DelayOver b ref)"
  shows "ref_Type ref = entityType_Jobs \<and> ref_Idx ref \<in> pool_live (gs_pools s entityType_Jobs)"
proof -
  obtain E where "mset (gs_events s) = add_mset e E" using assms(2) by (metis multi_member_split set_mset_mset)
  then have "ref \<in># delayed s" using assms(3) by (simp add: delayed_def delay_refs_def)
  then have "ref \<in># places pm_model pm_rank 6 s" by (simp add: places_def)
  moreover have "places pm_model pm_rank 6 s \<subseteq># live s" using assms(1) by (simp add: good_def fits_def)
  ultimately have "ref \<in># live s" by (rule mset_subset_eqD [rotated])
  then have live: "ref_Idx ref \<in> pool_live (gs_pools s (ref_Type ref))" by (simp add: live_def) (simp add: live_refs_def)
  then have "cm_zero pm_model (ref_Type ref) \<noteq> None" using assms(1) unfolding good_def fits_def sane_def by blast
  then have "ref_Type ref = entityType_Jobs" by (simp add: pm_zero split: if_splits)
  with live show ?thesis by simp
qed

lemma event_done:
  assumes good: "good pm_model pm_rank 6 s" and own: "owned pm_model s" and s: "shop_but {} n s"
    and pop: "eq_pop (gs_events s) = (e, q)" "gs_events s \<noteq> []"
  shows "\<exists>h u. Handler e = Some h \<and> pm_handler h (s\<lparr>gs_events := q, gs_clock := Time e\<rparr>) = Ret u \<and> (roomy u \<longrightarrow> shop_but {} n u)"
proof -
  have e: "e \<in> set (gs_events s)"
    using conjunct2 [OF mset_eq_pop [OF pop(2,1)]] by (metis set_mset_add_mset_insert set_mset_mset insertI1)
  let ?s = "s\<lparr>gs_events := q, gs_clock := Time e\<rparr>"
  have s1: "shop_but {} n ?s" using s by (rule shop_quiet) (simp add: quiet_def)
  have pool: "pool_ok (gs_pools ?s entityType_Jobs)" using good by (simp add: good_def fits_def sane_def)
  have "owned_event pm_model e" using own e by (simp add: owned_def)
  then show ?thesis
  proof (cases rule: owned_cases)
    case 1
    with source_done [OF s1 pool] show ?thesis by (auto simp: pm_handler_def)
  next
    case (2 ref)
    with delays_done(1) [OF s1] show ?thesis by (auto simp: pm_handler_def)
  next
    case (3 ref)
    with delays_done(2) [OF s1] show ?thesis by (auto simp: pm_handler_def)
  next
    case (4 ref)
    with delays_done(3) [OF s1, of ref] pool delayed_live [OF good e, of _ ref] show ?thesis by (auto simp: pm_handler_def)
  qed
qed

lemma turn_done:
  assumes "good pm_model pm_rank 6 s" "owned pm_model s" "shop_but {} n s"
  shows "if f64_eq (Time (fst (eq_pop (gs_events s)))) (Fin (- 1)) then pm_turn s = Ret None
    else \<exists>u. pm_turn s = Ret (Some u) \<and> (roomy u \<longrightarrow> shop_but {} n u)"
proof (cases "gs_events s = []")
  case True
  then show ?thesis by (simp add: pm_turn_def eq_pop_def)
next
  case False
  obtain e q where pop: "eq_pop (gs_events s) = (e, q)" by (cases "eq_pop (gs_events s)")
  from event_done [OF assms pop False] assms(3) pop show ?thesis
    by (auto simp: pm_turn_def Let_def shop_but_def)
qed

lemma shop_init: "typed s \<Longrightarrow> gs_vars s ''totalEntitiesSink'' = VUint64 n \<Longrightarrow> shop_but {} n (pm_initModel source s)"
  by (auto simp: shop_but_def pm_initModel_def typed_def float_var_def sunk_def new_pool_def pool_live_def)

lemma shop_start:
  assumes "typed s" "gs_vars s ''totalEntitiesSink'' = VUint64 n"
  shows "\<exists>u. pm_startCreateBlocks (pm_initModel source s) = Ret u \<and> shop_but {} n u"
proof -
  let ?s = "pm_initModel source s"
  have s: "shop_but {} n ?s" using assms by (rule shop_init)
  then have "typed ?s" by (simp add: shop_but_def)
  then obtain x g where draw: "evalE (exponential_time ''arrivalRate'') no_ref ?s = Ret (x, ?s\<lparr>gs_rng := g\<rparr>)"
    using exponential_draws [of ?s "''arrivalRate''"] by blast
  have "shop_but {} n (pm_Schedule x (CreateNow ''Source'') (?s\<lparr>gs_rng := g\<rparr>))" using s by (rule shop_quiet) simp
  then show ?thesis by (simp add: pm_startCreateBlocks_def pm_func_block_CREATE_Source_def draw)
qed

lemma pm_turn_roomy:
  assumes "owned pm_model s" "pm_turn s = Ret (Some s')" "roomy s'"
  shows "roomy s"
proof -
  have "sim_turn pm_model (enter pm_model 6) s = Ret (Some s')" using assms by (simp add: pm_turn_is_generated)
  then have "pools_grow s s'"
  proof (rule turn_cases)
    fix e q h
    assume "sim_handle pm_model (enter pm_model 6) h (s\<lparr>gs_events := q, gs_clock := Time e\<rparr>) = Ret s'"
    then have "pools_grow (s\<lparr>gs_events := q, gs_clock := Time e\<rparr>) s'" by (rule pools.handle_frame)
    then show ?thesis by (simp add: pools_grow_def)
  qed
  then show ?thesis using assms(3) by (rule roomy_grow)
qed

lemma reach_shop:
  assumes "pm_reach source s0 s" "typed s0" "gs_vars s0 ''totalEntitiesSink'' = VUint64 n" "roomy s"
  shows "shop_but {} n s"
  using assms(1,4)
proof (induction rule: pm_reach.induct)
  case (start s)
  from shop_start [OF assms(2,3), of source] start.hyps show ?case by auto
next
  case (turn s s')
  have own: "owned pm_model s" using turn.hyps(1) by (rule reach_owned_pm)
  have room: "roomy s" using own turn.hyps(2) turn.prems by (rule pm_turn_roomy)
  have good: "good pm_model pm_rank 6 s" using turn.hyps(1) room by (rule reach_good_pm)
  from turn_done [OF good own turn.IH [OF room]] turn.hyps(2) turn.prems show ?case by (auto split: if_splits)
qed

lemma pm_flow:
  "flow pm_model s = cc_createdN (gs_creates s ''Source'') - cc_dropN (gs_creates s ''Source'') - sunk s"
  by (simp add: flow_def pm_model_def block_flow_def pm_queue_def pm_delay_def sunk_def)

lemma size_live: "size (live s) = card (live_refs s)"
  by (simp add: live_def)

section \<open>Properties\<close>

text \<open>
  C4. The program that the generator printed for the shop is the program that the model text
  means: it reaches exactly the states that the block functions of the generator reach on the
  model, and every turn of its loop, ended, stopped by a panic or gone on, is theirs.
\<close>

theorem pm_program_is_generated:
  "pm_reach source s0 s \<and> pm_turn s = r \<longleftrightarrow>
   sim_reach pm_model 6 (sim_init pm_model source (\<lambda>_. 0) (gs_vars s0)) s \<and> sim_turn pm_model (enter pm_model 6) s = r"
  using reach_owned_pm [of source s0 s] by (auto simp: pm_reach_sim [symmetric] pm_turn_is_generated)

text \<open>
  C5. Whatever rates are set and whatever the random numbers are, the shop never stops by itself
  and never panics, it drops no job, counts every job that leaves, has in its queues and delays
  what was created and has not left, and keeps no job that was reworked more than three times; its
  loop ends only at an event of time -1.
\<close>

theorem shop_keeps_its_jobs:
  assumes "pm_reach source s0 s" "typed s0" "gs_vars s0 ''totalEntitiesSink'' = VUint64 n" "roomy s"
  shows "\<not> gs_stop s \<and> cc_dropN (gs_creates s ''Source'') = 0 \<and>
    gs_vars s ''totalEntitiesSink'' = VUint64 (n + sunk s) \<and>
    cc_createdN (gs_creates s ''Source'') = sunk s + of_nat (card (live_refs s)) \<and>
    whereabouts pm_model s = mset_set (live_refs s) \<and>
    (\<forall>i \<in> pool_live (gs_pools s entityType_Jobs). job_ok s i) \<and>
    (if f64_eq (Time (fst (eq_pop (gs_events s)))) (Fin (- 1)) then pm_turn s = Ret None else \<exists>u. pm_turn s = Ret (Some u))"
proof -
  have shop: "shop_but {} n s" using assms by (rule reach_shop)
  have own: "owned pm_model s" and good: "good pm_model pm_rank 6 s"
    using assms(1,4) by (auto intro: reach_owned_pm reach_good_pm)
  have stop: "\<not> gs_stop s" using shop by (simp add: shop_but_def)
  have "flow_slack pm_model s = 0" "places pm_model pm_rank 6 s = live s" using good stop by (simp_all add: good_def)
  then have "cc_createdN (gs_creates s ''Source'') = sunk s + of_nat (card (live_refs s))"
    using shop by (simp add: flow_slack_def pm_flow size_live shop_but_def algebra_simps)
  moreover have "whereabouts pm_model s = mset_set (live_refs s)"
    using good own pm_built stop places_whereabouts by (fastforce simp: good_def live_def)
  ultimately show ?thesis using shop turn_done [OF good own shop] by (auto simp: shop_but_def split: if_splits)
qed

section \<open>Example\<close>

definition pm_source :: random where
  "pm_source = \<lparr>rd_floats = (\<lambda>_. Fin (1 / 2)), rd_exps = (\<lambda>_. Fin 1), rd_norms = (\<lambda>_. Fin 0)\<rparr>"

definition pm_globals :: pm where
  "pm_globals = sim_init pm_model pm_source (\<lambda>_. 0) pm_vars"

lemma pm_globals_typed: "typed pm_globals" "gs_vars pm_globals ''totalEntitiesSink'' = VUint64 0"
  by (simp_all add: typed_def float_var_def pm_globals_def sim_init_def pm_vars_def)

theorem shop_keeps_its_jobs_witness:
  "\<exists>s. pm_reach pm_source pm_globals s \<and> cc_createdN (gs_creates s ''Source'') = sunk s + of_nat (card (live_refs s))"
proof -
  obtain s where s: "pm_startCreateBlocks (pm_initModel pm_source pm_globals) = Ret s"
    using shop_start [OF pm_globals_typed] by blast
  then have "pm_reach pm_source pm_globals s" by (rule pm_reach.start)
  moreover have "gs_pools s = (\<lambda>_. new_pool 10)"
    using s by (auto simp: pm_startCreateBlocks_def pm_func_block_CREATE_Source_def evalE_Ret pm_Schedule_def pm_initModel_def)
  then have "roomy s" by (simp add: roomy_def new_pool_def)
  ultimately show ?thesis using shop_keeps_its_jobs [OF _ pm_globals_typed] by blast
qed

end
