(* ===== verification/Sim_Transport.thy ===== *)
theory Sim_Transport
  imports Sim_Blocks Sim_Protocol Dsl_Model
begin

text \<open>
  The protocol side of every generated simulator (codegen/generator/emit_transport.go and
  emit_runtime.go): the commands before START, the metrics and the stop rule by their names, the
  reports, and the main loop. What the generator takes from the model is a \<open>sim_program\<close>: the blocks,
  the variables with their types, the resources and the hash. A printed closure that reads the
  simulation is a function on its state. Standard input is the list of its lines with the error that
  ended it, if any.
\<close>

section \<open>State\<close>

record 'g sim_program =
  pg_model :: "'g code_model"
  pg_vars :: "(string \<times> value_type) list"
  pg_resources :: "string list"
  pg_hash :: string

record 'g sim_metric =
  sm_name :: string
  sm_value :: "'g gstate \<Rightarrow> string"

record 'g transport =
  tp_out :: "string list option"
  tp_metrics :: "'g sim_metric list"
  tp_step :: f64
  tp_hasStep :: bool
  tp_next :: f64
  tp_rule :: "('g gstate \<Rightarrow> bool) option"

definition fresh_transport :: "'g transport" where
  "fresh_transport = \<lparr>tp_out = None, tp_metrics = [], tp_step = Fin 0, tp_hasStep = False, tp_next = Fin 0, tp_rule = None\<rparr>"

section \<open>Lines\<close>

definition tp_sendLine :: "string \<Rightarrow> 'g transport \<Rightarrow> 'g transport" where
  "tp_sendLine line t = (case tp_out t of None \<Rightarrow> t | Some out \<Rightarrow> t\<lparr>tp_out := Some (out @ [line])\<rparr>)"

definition tp_sendErr :: "string \<Rightarrow> string \<Rightarrow> 'g transport \<Rightarrow> 'g transport" where
  "tp_sendErr code message t =
     tp_sendLine (''ERR '' @ code @ '' '' @ map (\<lambda>c. if c = CHR 0x0A then CHR '' '' else c) message) t"

section \<open>Names\<close>

text \<open>Values as text and as numbers; there is no case for a bool where numbers are compared.\<close>

fun format_value :: "sim_value \<Rightarrow> string" where
  "format_value (VFloat64 x) = FormatFloat x"
| "format_value (VInt64 w) = itoa (sint w)"
| "format_value (VUint64 w) = FormatUint w"
| "format_value (VBool b) = (if b then ''true'' else ''false'')"

fun numeric_value :: "sim_value \<Rightarrow> f64" where
  "numeric_value (VFloat64 x) = x"
| "numeric_value (VInt64 w) = f64_round (of_int (sint w))"
| "numeric_value (VUint64 w) = f64_of_u64 w"
| "numeric_value (VBool b) = NaN"

text \<open>\<open>strconv.ParseBool\<close>\<close>

definition parse_bool :: "string \<Rightarrow> bool option" where
  "parse_bool s =
     (if s \<in> {''1'', ''t'', ''T'', ''true'', ''TRUE'', ''True''} then Some True
      else if s \<in> {''0'', ''f'', ''F'', ''false'', ''FALSE'', ''False''} then Some False
      else None)"

fun parse_value :: "value_type \<Rightarrow> string \<Rightarrow> sim_value option" where
  "parse_value ValueFloat64 raw = map_option VFloat64 (ParseFloat raw)"
| "parse_value ValueInt64 raw = map_option (\<lambda>n. VInt64 (word_of_int n)) (parse_int raw)"
| "parse_value ValueUint64 raw = map_option (\<lambda>n. VUint64 (word_of_int n)) (parse_uint raw)"
| "parse_value ValueBool raw = map_option VBool (parse_bool raw)"

definition tp_setVar :: "'g sim_program \<Rightarrow> string \<Rightarrow> string \<Rightarrow> 'g gstate \<Rightarrow> 'g transport \<Rightarrow> bool \<times> 'g gstate \<times> 'g transport" where
  "tp_setVar p name raw s t =
     (case map_of (pg_vars p) name of
        None \<Rightarrow> (False, s, tp_sendErr ''unknown_set_target'' name t)
      | Some ty \<Rightarrow>
          (case parse_value ty raw of
             None \<Rightarrow> (False, s, tp_sendErr ''bad_set_value'' (name @ ''='' @ raw) t)
           | Some v \<Rightarrow> (True, s\<lparr>gs_vars := (gs_vars s)(name := v)\<rparr>, t)))"

text \<open>The counters of a block and of a resource.\<close>

fun block_fields :: "string \<Rightarrow> 'g block_code \<Rightarrow> (string \<times> ('g gstate \<Rightarrow> u64)) list" where
  "block_fields b (CreateCode _) = [(''createdN'', \<lambda>s. cc_createdN (gs_creates s b)), (''exitN'', \<lambda>s. cc_exitN (gs_creates s b)),
     (''dropN'', \<lambda>s. cc_dropN (gs_creates s b))]"
| "block_fields b (QueueCode _) = [(''enterN'', \<lambda>s. sq_enterN (gs_queues s b)), (''exitN'', \<lambda>s. sq_exitN (gs_queues s b)),
     (''dropN'', \<lambda>s. sq_dropN (gs_queues s b)), (''timeoutN'', \<lambda>s. sq_timeoutN (gs_queues s b)),
     (''len'', \<lambda>s. sq_len (gs_queues s b)), (''maxLen'', \<lambda>s. sq_maxLen (gs_queues s b))]"
| "block_fields b (DelayCode _) = [(''enterN'', \<lambda>s. ds_enterN (gs_delays s b)), (''exitN'', \<lambda>s. ds_exitN (gs_delays s b)),
     (''busy'', \<lambda>s. ds_busy (gs_delays s b)), (''maxBusy'', \<lambda>s. ds_maxBusy (gs_delays s b))]"
| "block_fields b TerminateCode = [(''enterN'', \<lambda>s. fc_enterN (gs_counts s b))]"
| "block_fields b code = [(''enterN'', \<lambda>s. fc_enterN (gs_counts s b)), (''exitN'', \<lambda>s. fc_exitN (gs_counts s b))]"

definition resource_fields :: "string \<Rightarrow> (string \<times> ('g gstate \<Rightarrow> u64)) list" where
  "resource_fields r = [(''capacity'', \<lambda>s. rs_capacity (gs_resources s r)), (''busy'', \<lambda>s. rs_busy (gs_resources s r)),
     (''maxBusy'', \<lambda>s. rs_maxBusy (gs_resources s r)), (''seizeN'', \<lambda>s. rs_seizeN (gs_resources s r)),
     (''releaseN'', \<lambda>s. rs_releaseN (gs_resources s r))]"

definition dotted :: "string \<Rightarrow> (string \<times> ('g gstate \<Rightarrow> u64)) list \<Rightarrow> (string \<times> ('g gstate \<Rightarrow> sim_value)) list" where
  "dotted name = map (\<lambda>(field, get). (name @ ''.'' @ field, \<lambda>s. VUint64 (get s)))"

definition counter_table :: "'g sim_program \<Rightarrow> (string \<times> ('g gstate \<Rightarrow> sim_value)) list" where
  "counter_table p =
     concat (map (\<lambda>(b, code). dotted b (block_fields b code)) (cm_blocks (pg_model p))) @
     concat (map (\<lambda>r. dotted r (resource_fields r)) (pg_resources p))"

text \<open>The cases of the two printed switches.\<close>

definition metric_table :: "'g sim_program \<Rightarrow> (string \<times> ('g gstate \<Rightarrow> sim_value)) list" where
  "metric_table p = (''Simulation.clock'', \<lambda>s. VFloat64 (gs_clock s)) #
     map (\<lambda>(v, ty). (v, \<lambda>s. gs_vars s v)) (pg_vars p) @ counter_table p"

definition numeric_table :: "'g sim_program \<Rightarrow> (string \<times> ('g gstate \<Rightarrow> sim_value)) list" where
  "numeric_table p = (''Simulation.clock'', \<lambda>s. VFloat64 (gs_clock s)) #
     map (\<lambda>(v, ty). (v, \<lambda>s. gs_vars s v)) (filter (\<lambda>(v, ty). ty \<noteq> ValueBool) (pg_vars p)) @ counter_table p"

definition tp_resolveMetric :: "'g sim_program \<Rightarrow> string \<Rightarrow> 'g sim_metric option" where
  "tp_resolveMetric p name =
     map_option (\<lambda>get. \<lparr>sm_name = name, sm_value = (\<lambda>s. format_value (get s))\<rparr>) (map_of (metric_table p) name)"

definition tp_resolveNumericOperand :: "'g sim_program \<Rightarrow> string \<Rightarrow> ('g gstate \<Rightarrow> f64) option" where
  "tp_resolveNumericOperand p name =
     (case map_of (numeric_table p) name of
        Some get \<Rightarrow> Some (\<lambda>s. numeric_value (get s))
      | None \<Rightarrow> map_option (\<lambda>v _. v) (ParseFloat name))"

definition tp_configureStopRule :: "'g sim_program \<Rightarrow> string \<Rightarrow> string \<Rightarrow> string \<Rightarrow> 'g transport \<Rightarrow> bool \<times> 'g transport" where
  "tp_configureStopRule p leftName opn rightName t =
     (case tp_resolveNumericOperand p leftName of
        None \<Rightarrow> (False, tp_sendErr ''bad_rule_left'' leftName t)
      | Some left \<Rightarrow>
          (case tp_resolveNumericOperand p rightName of
             None \<Rightarrow> (False, tp_sendErr ''bad_rule_right'' rightName t)
           | Some right \<Rightarrow>
               (case compare_op opn of
                  None \<Rightarrow> (False, tp_sendErr ''bad_rule_op'' opn t)
                | Some f \<Rightarrow> (True, t\<lparr>tp_rule := Some (\<lambda>s. f (left s) (right s))\<rparr>))))"

section \<open>Commands\<close>

text \<open>The names of a METRIC command; \<open>Inl\<close> is the first unknown one.\<close>

fun tp_resolve_metrics :: "'g sim_program \<Rightarrow> string list \<Rightarrow> string + 'g sim_metric list" where
  "tp_resolve_metrics p [] = Inr []"
| "tp_resolve_metrics p (part # parts) =
     (let name = trim_space part in
      if name = [] then tp_resolve_metrics p parts
      else
        (case tp_resolveMetric p name of
           None \<Rightarrow> Inl name
         | Some metric \<Rightarrow> map_sum id (Cons metric) (tp_resolve_metrics p parts)))"

definition tp_metric_command :: "'g sim_program \<Rightarrow> string \<Rightarrow> 'g transport \<Rightarrow> 'g transport" where
  "tp_metric_command p line t =
     (let raw = trim_space (trim_prefix ''METRIC'' line) in
      if raw = [] then t\<lparr>tp_metrics := []\<rparr>
      else
        (case tp_resolve_metrics p (split_byte (CHR '';'') raw) of
           Inl name \<Rightarrow> tp_sendErr ''unknown_metric'' name t
         | Inr ms \<Rightarrow> t\<lparr>tp_metrics := ms\<rparr>))"

definition tp_metric_step_command :: "string list \<Rightarrow> 'g transport \<Rightarrow> 'g transport" where
  "tp_metric_step_command fs t =
     (if length fs \<noteq> 2 then tp_sendErr ''bad_metric_step'' ''expected METRIC_STEP <model_time_step>'' t
      else
        (case ParseFloat (fs ! 1) of
           None \<Rightarrow> tp_sendErr ''bad_metric_step'' (fs ! 1) t
         | Some v \<Rightarrow>
             if f64_le v (Fin 0) then tp_sendErr ''bad_metric_step'' (fs ! 1) t
             else t\<lparr>tp_step := v, tp_hasStep := True, tp_next := v\<rparr>))"

definition tp_set_command :: "'g sim_program \<Rightarrow> string list \<Rightarrow> 'g gstate \<Rightarrow> 'g transport \<Rightarrow> 'g gstate \<times> 'g transport" where
  "tp_set_command p fs s t =
     (if length fs = 3 then snd (tp_setVar p (fs ! 1) (fs ! 2) s t)
      else if length fs = 4 \<and> fs ! 2 = ''='' then snd (tp_setVar p (fs ! 1) (fs ! 3) s t)
      else (s, tp_sendErr ''bad_set'' ''expected SET <var_name> <value> or SET <var_name> = <value>'' t))"

definition tp_handleCommand :: "'g sim_program \<Rightarrow> string \<Rightarrow> 'g gstate \<Rightarrow> 'g transport \<Rightarrow> bool \<times> 'g gstate \<times> 'g transport" where
  "tp_handleCommand p line s t =
     (let fs = string_fields line in
      if fs = [] then (False, s, t)
      else if hd fs = ''RULE'' then
        (if length fs \<noteq> 5 \<or> fs ! 1 \<noteq> ''STOP''
         then (False, s, tp_sendErr ''bad_rule'' ''expected RULE STOP <left> <op> <right>'' t)
         else (False, s, snd (tp_configureStopRule p (fs ! 2) (fs ! 3) (fs ! 4) t)))
      else if hd fs = ''METRIC'' then (False, s, tp_metric_command p line t)
      else if hd fs = ''METRIC_STEP'' then (False, s, tp_metric_step_command fs t)
      else if hd fs = ''START'' then
        (if length fs \<noteq> 1 then (False, s, tp_sendErr ''bad_start'' ''START does not accept arguments'' t)
         else (True, s, tp_sendLine ''READY'' t))
      else if hd fs = ''SET'' then (False, tp_set_command p fs s t)
      else (False, s, tp_sendErr ''unknown_command'' (hd fs) t))"

fun tp_read_commands :: "'g sim_program \<Rightarrow> string list \<Rightarrow> string option \<Rightarrow> 'g gstate \<Rightarrow> 'g transport \<Rightarrow>
    bool \<times> 'g gstate \<times> 'g transport" where
  "tp_read_commands p [] err s t =
     (case err of None \<Rightarrow> (False, s, t) | Some e \<Rightarrow> (False, s, tp_sendErr ''read_error'' e t))"
| "tp_read_commands p (l # ls) err s t =
     (let line = trim_space l in
      if line = [] then tp_read_commands p ls err s t
      else
        (case tp_handleCommand p line s t of
           (True, s1, t1) \<Rightarrow> (True, s1, t1)
         | (False, s1, t1) \<Rightarrow> tp_read_commands p ls err s1 t1))"

definition tp_configureExperiment :: "'g sim_program \<Rightarrow> string list \<Rightarrow> string option \<Rightarrow> 'g gstate \<Rightarrow> 'g transport \<Rightarrow>
    bool \<times> 'g gstate \<times> 'g transport" where
  "tp_configureExperiment p input err s t =
     tp_read_commands p input err s (tp_sendLine (''HELLO '' @ pg_hash p) (t\<lparr>tp_out := Some []\<rparr>))"

section \<open>Reports\<close>

definition tp_sendStat :: "'g gstate \<Rightarrow> 'g transport \<Rightarrow> 'g transport" where
  "tp_sendStat s t =
     (if tp_metrics t = [] then t
      else tp_sendLine (''STAT '' @ join_with '';'' (map (\<lambda>m. sm_name m @ ''='' @ sm_value m s) (tp_metrics t))) t)"

definition tp_maybeSendMetricStep :: "'g gstate \<Rightarrow> 'g transport \<Rightarrow> 'g transport option" where
  "tp_maybeSendMetricStep s t =
     (if \<not> tp_hasStep t \<or> tp_metrics t = [] then Some t
      else if f64_lt (gs_clock s) (tp_next t) then Some t
      else
        (let t1 = tp_sendStat s t in
         map_option (\<lambda>n. t1\<lparr>tp_next := n\<rparr>) (advance_metric (gs_clock s) (tp_step t1) (tp_next t1))))"

section \<open>The main loop\<close>

text \<open>
  The loop goes on, has ended, the process has panicked, a report never comes back, or the calls
  went deeper than the bound. A turn of the simulation is an argument.
\<close>

datatype sim_outcome = Going | Over | Panicked | Stuck | TooDeep

definition tp_turn :: "('g gstate \<Rightarrow> 'g gstate option run) \<Rightarrow> 'g gstate \<times> 'g transport \<Rightarrow> sim_outcome \<times> 'g gstate \<times> 'g transport" where
  "tp_turn turn st =
     (let (s, t) = st in
      case turn s of
        Fault \<Rightarrow> (Panicked, s, t)
      | Deep \<Rightarrow> (TooDeep, s, t)
      | Ret None \<Rightarrow> (Over, s\<lparr>gs_events := snd (eq_pop (gs_events s))\<rparr>, t)
      | Ret (Some s1) \<Rightarrow>
          (case tp_maybeSendMetricStep s1 t of
             None \<Rightarrow> (Stuck, s1, t)
           | Some t1 \<Rightarrow>
               if gs_stop s1 then (Over, s1, t1)
               else
                 (case tp_rule t1 of
                    None \<Rightarrow> (Going, s1, t1)
                  | Some rule \<Rightarrow>
                      if rule s1 then (Over, sim_halt ''stop_rule'' s1, t1) else (Going, s1, t1))))"

fun tp_turns :: "('g gstate \<Rightarrow> 'g gstate option run) \<Rightarrow> nat \<Rightarrow> 'g gstate \<times> 'g transport \<Rightarrow> sim_outcome \<times> 'g gstate \<times> 'g transport" where
  "tp_turns turn 0 st = (Going, st)"
| "tp_turns turn (Suc n) st =
     (case tp_turn turn st of
        (Going, st1) \<Rightarrow> tp_turns turn n st1
      | (out, st1) \<Rightarrow> (out, st1))"

definition tp_finish :: "'g gstate \<times> 'g transport \<Rightarrow> 'g gstate \<times> 'g transport" where
  "tp_finish st =
     (let (s, t) = st;
          s1 = (if gs_reason s = [] then s\<lparr>gs_reason := ''empty_event_queue''\<rparr> else s)
      in (s1, tp_sendLine (''END '' @ gs_reason s1) (tp_sendStat s1 t)))"

text \<open>\<open>run\<close> with at most \<open>n\<close> turns of its loop.\<close>

definition tp_run :: "('g gstate \<Rightarrow> 'g gstate option run) \<Rightarrow> nat \<Rightarrow> 'g gstate \<times> 'g transport \<Rightarrow> sim_outcome \<times> 'g gstate \<times> 'g transport" where
  "tp_run turn n st =
     (case tp_turns turn n st of (Over, st1) \<Rightarrow> (Over, tp_finish st1) | (out, st1) \<Rightarrow> (out, st1))"

text \<open>
  The process, with \<open>initModel\<close> and \<open>startCreateBlocks\<close> as arguments; the result is \<open>None\<close> when no
  START came.
\<close>

definition tp_main :: "'g sim_program \<Rightarrow> ('g gstate \<Rightarrow> 'g gstate) \<Rightarrow> ('g gstate \<Rightarrow> 'g gstate run) \<Rightarrow>
    ('g gstate \<Rightarrow> 'g gstate option run) \<Rightarrow> nat \<Rightarrow> string list \<Rightarrow> string option \<Rightarrow> 'g gstate \<Rightarrow> 'g transport \<Rightarrow>
    (sim_outcome \<times> 'g gstate \<times> 'g transport) option \<times> 'g transport" where
  "tp_main p init startBlocks turn n input err s t =
     (case tp_configureExperiment p input err s t of
        (False, s1, t1) \<Rightarrow> (None, t1)
      | (True, s1, t1) \<Rightarrow>
          (case startBlocks (init s1) of
             Ret s2 \<Rightarrow> (let res = tp_run turn n (s2, t1) in (Some res, snd (snd res)))
           | Fault \<Rightarrow> (Some (Panicked, init s1, t1), t1)
           | Deep \<Rightarrow> (Some (TooDeep, init s1, t1), t1)))"

end
