(* ===== verification/Sim_Reports.thy ===== *)
theory Sim_Reports
  imports Sim_Transport Sim_Texts
begin

text \<open>
  The protocol of the generated simulators, seen from the dispatcher: the lines of a process are a
  greeting, the errors of bad commands, READY, reports and an END, and a dispatcher reads in every
  report the values that the metrics had.
\<close>

section \<open>Configuration\<close>

text \<open>What is set are the variables, and they keep their types.\<close>

definition same_type :: "value_type \<Rightarrow> sim_value \<Rightarrow> bool" where
  "same_type ty v \<longleftrightarrow> (case v of VFloat64 _ \<Rightarrow> ty = ValueFloat64 | VInt64 _ \<Rightarrow> ty = ValueInt64
     | VUint64 _ \<Rightarrow> ty = ValueUint64 | VBool _ \<Rightarrow> ty = ValueBool)"

definition vars_typed :: "'g sim_program \<Rightarrow> 'g gstate \<Rightarrow> bool" where
  "vars_typed p s \<longleftrightarrow> (\<forall>v ty. map_of (pg_vars p) v = Some ty \<longrightarrow> same_type ty (gs_vars s v))"

definition only_vars :: "'g gstate \<Rightarrow> 'g gstate \<Rightarrow> bool" where
  "only_vars s u \<longleftrightarrow> u = s\<lparr>gs_vars := gs_vars u\<rparr>"

lemma parse_value_type: "parse_value ty raw = Some v \<Longrightarrow> same_type ty v"
  by (cases ty) (auto simp: same_type_def)

lemma setVar_typed:
  assumes "tp_setVar p name raw s t = (b, s', t')"
  shows "only_vars s s' \<and> (vars_typed p s \<longrightarrow> vars_typed p s')"
  using assms parse_value_type
  by (auto simp: tp_setVar_def only_vars_def vars_typed_def split: option.splits)

lemma only_vars_refl [simp]: "only_vars s s"
  by (simp add: only_vars_def)

lemma only_vars_trans: "only_vars s t \<Longrightarrow> only_vars t u \<Longrightarrow> only_vars s u"
  unfolding only_vars_def by (metis gstate.select_convs(7) gstate.surjective gstate.update_convs(7))

lemma set_command_typed:
  assumes "tp_set_command p fs s t = (s', t')"
  shows "only_vars s s' \<and> (vars_typed p s \<longrightarrow> vars_typed p s')"
proof -
  have "\<exists>name raw b u v. tp_setVar p name raw s t = (b, u, v) \<and> u = s' \<or> s' = s"
    using assms by (auto simp: tp_set_command_def split: if_splits) (metis prod.collapse snd_conv)+
  with setVar_typed show ?thesis by (metis only_vars_refl)
qed

lemma handle_typed:
  assumes "tp_handleCommand p line s t = (b, s', t')"
  shows "only_vars s s' \<and> (vars_typed p s \<longrightarrow> vars_typed p s')"
  using assms set_command_typed [of p "string_fields line" s t]
  by (auto simp: tp_handleCommand_def Let_def split: if_splits)

lemma read_typed:
  assumes "tp_read_commands p input err s t = (b, s', t')"
  shows "only_vars s s' \<and> (vars_typed p s \<longrightarrow> vars_typed p s')"
  using assms
proof (induction p input err s t rule: tp_read_commands.induct)
  case (1 p err s t)
  then show ?case by (auto split: option.splits)
next
  case (2 p l ls err s t)
  show ?case
  proof (cases "trim_space l = []")
    case True
    with 2 show ?thesis by (simp add: Let_def)
  next
    case False
    obtain c s1 t1 where h: "tp_handleCommand p (trim_space l) s t = (c, s1, t1)" by (cases "tp_handleCommand p (trim_space l) s t") auto
    have "only_vars s1 s' \<and> (vars_typed p s1 \<longrightarrow> vars_typed p s')"
      using 2 False h by (cases c) (simp_all add: Let_def)
    with handle_typed [OF h] show ?thesis by (blast intro: only_vars_trans)
  qed
qed

section \<open>Names and values\<close>

text \<open>The names of a program are identifiers of the model language.\<close>

definition well_named :: "'g sim_program \<Rightarrow> bool" where
  "well_named p \<longleftrightarrow> (\<forall>(v, ty) \<in> set (pg_vars p). isIdentifier v) \<and> (\<forall>(b, code) \<in> set (cm_blocks (pg_model p)). isIdentifier b) \<and>
     (\<forall>r \<in> set (pg_resources p). isIdentifier r)"

definition plain :: "string \<Rightarrow> bool" where
  "plain n \<longleftrightarrow> n \<noteq> [] \<and> (\<forall>c \<in> set n. inert c \<and> c \<noteq> CHR ''='' \<and> c \<noteq> CHR '';'')"

lemma ident_char: "isIdentPart c \<Longrightarrow> inert c \<and> c \<noteq> CHR ''='' \<and> c \<noteq> CHR '';''"
proof -
  have "\<forall>x \<in> set (CHR ''='' # CHR '';'' # concat space_encodings). \<not> isIdentPart x" by code_simp
  then show "isIdentPart c \<Longrightarrow> inert c \<and> c \<noteq> CHR ''='' \<and> c \<noteq> CHR '';''" by (auto simp: inert_alt simp del: set_concat)
qed

lemma ident_plain: "isIdentifier n \<Longrightarrow> plain n"
  using isIdentifier_chars [of n] ident_char by (auto simp: plain_def isIdentifier_def)

lemma plain_append: "plain a \<Longrightarrow> plain b \<Longrightarrow> plain (a @ b)"
  by (auto simp: plain_def)

lemma field_names_plain:
  assumes "f \<in> {''createdN'', ''exitN'', ''dropN'', ''enterN'', ''timeoutN'', ''len'', ''maxLen'', ''busy'', ''maxBusy'', ''capacity'',
    ''seizeN'', ''releaseN''}"
  shows "plain (''.'' @ f)"
proof -
  have "\<forall>f \<in> set [''createdN'', ''exitN'', ''dropN'', ''enterN'', ''timeoutN'', ''len'', ''maxLen'', ''busy'', ''maxBusy'', ''capacity'',
    ''seizeN'', ''releaseN'']. isIdentifier f" by code_simp
  then have "plain f" using assms ident_plain by simp blast
  moreover have "\<forall>x \<in> set (CHR ''='' # CHR '';'' # concat space_encodings). x \<noteq> CHR ''.''" by code_simp
  then have "plain ''.''" by (auto simp: plain_def inert_alt simp del: set_concat)
  ultimately show ?thesis by (rule plain_append [rotated])
qed

lemma block_fields_plain: "(f, get) \<in> set (block_fields b code) \<Longrightarrow> plain (''.'' @ f)"
  by (rule field_names_plain) (cases code, auto)

lemma resource_fields_plain: "(f, get) \<in> set (resource_fields r) \<Longrightarrow> plain (''.'' @ f)"
  by (rule field_names_plain) (auto simp: resource_fields_def)

lemma metric_names_plain:
  assumes "well_named p" "(n, get) \<in> set (metric_table p)"
  shows "plain n"
proof -
  have "isIdentifier ''Simulation''" "isIdentifier ''clock''" by code_simp+
  have "\<forall>x \<in> set (CHR ''='' # CHR '';'' # concat space_encodings). x \<notin> set ''Simulation.clock''" by code_simp
  then have "plain ''Simulation.clock''" by (auto simp: plain_def inert_alt simp del: set_concat)
  moreover have "plain n" if "(n, get) \<in> set (counter_table p)"
    using that assms(1) unfolding counter_table_def dotted_def well_named_def
    by (auto dest!: block_fields_plain resource_fields_plain intro: plain_append ident_plain) (metis append_Cons append_Nil ident_plain plain_append case_prodD)+
  ultimately show ?thesis
    using assms by (auto simp: metric_table_def well_named_def intro: ident_plain)
qed

lemma format_value_clean: "tidy (format_value v) \<and> CHR '';'' \<notin> set (format_value v)"
proof -
  have word: "tidy s \<and> CHR '';'' \<notin> set s" if "isIdentifier s" for s
    using ident_plain [OF that] inert_tidy by (auto simp: plain_def)
  have dec: "number_text (decimal n)" for n
    using decimal_digits [of _ n] by (auto simp: number_text_def number_char_def)
  have "number_text (itoa k)" for k
    using dec zero_number(3) by (auto simp: itoa_def number_text_def)
  moreover have "isIdentifier ''true''" "isIdentifier ''false''" by code_simp+
  ultimately show ?thesis
    using number_text_tidy FormatFloat_number FormatUint_number word by (cases v) auto
qed

section \<open>Reports\<close>

text \<open>Metrics are the cases of the switch that they were asked for by.\<close>

definition sound_metrics :: "'g sim_program \<Rightarrow> 'g sim_metric list \<Rightarrow> bool" where
  "sound_metrics p ms \<longleftrightarrow> (\<forall>m \<in> set ms. tp_resolveMetric p (sm_name m) = Some m)"

definition report_text :: "'g sim_metric list \<Rightarrow> 'g gstate \<Rightarrow> string" where
  "report_text ms s = ''STAT '' @ join_with '';'' (map (\<lambda>m. sm_name m @ ''='' @ sm_value m s) ms)"

text \<open>What the names mean in a state.\<close>

definition values_of :: "'g sim_program \<Rightarrow> 'g sim_metric list \<Rightarrow> 'g gstate \<Rightarrow> string \<Rightarrow> string option" where
  "values_of p ms s name =
     (if name \<in> sm_name ` set ms then map_option (\<lambda>get. format_value (get s)) (map_of (metric_table p) name) else None)"

lemma resolve_name: "tp_resolveMetric p name = Some m \<Longrightarrow> sm_name m = name"
  by (auto simp: tp_resolveMetric_def)

lemma sound_good:
  assumes "well_named p" "sound_metrics p ms" "m \<in> set ms"
  shows "good_metric (sm_name m, sm_value m s)"
proof -
  have "tp_resolveMetric p (sm_name m) = Some m" using assms(2,3) by (simp add: sound_metrics_def)
  then obtain get where get: "map_of (metric_table p) (sm_name m) = Some get" and v: "sm_value m = (\<lambda>s. format_value (get s))"
    by (cases m) (auto simp: tp_resolveMetric_def)
  have "plain (sm_name m)" using assms(1) map_of_SomeD [OF get] by (rule metric_names_plain)
  with v format_value_clean [of "get s"] inert_tidy [of "sm_name m"] show ?thesis by (auto simp: plain_def good_metric_def)
qed

lemma report_parses:
  assumes "well_named p" "sound_metrics p ms"
  shows "parseStatLine (report_text ms s) = Inr (values_of p ms s)"
proof -
  let ?ps = "map (\<lambda>m. (sm_name m, sm_value m s)) ms"
  have shown: "report_text ms s = ''STAT '' @ join_with '';'' (map metric_text ?ps)"
    by (simp add: report_text_def metric_text_def comp_def)
  have "parseStatLine (report_text ms s) = Inr (map_of (rev ?ps))"
    unfolding shown using sound_good [OF assms] by (intro parse_stat_line) auto
  moreover have "map_of (rev ?ps) name = values_of p ms s name" for name
  proof (cases "map_of (rev ?ps) name")
    case None
    then have "name \<notin> fst ` set (rev ?ps)" by (simp only: map_of_eq_None_iff) simp
    with None show ?thesis by (auto simp: values_of_def image_iff)
  next
    case (Some v)
    then have "(name, v) \<in> set (rev ?ps)" by (rule map_of_SomeD)
    then obtain m where m: "m \<in> set ms" "name = sm_name m" "v = sm_value m s" by auto
    then have "tp_resolveMetric p name = Some m" using assms(2) by (simp add: sound_metrics_def)
    then obtain get where "map_of (metric_table p) name = Some get" "sm_value m = (\<lambda>s. format_value (get s))"
      by (cases m) (auto simp: tp_resolveMetric_def)
    with m Some show ?thesis by (simp add: values_of_def)
  qed
  ultimately show ?thesis by (simp add: fun_eq_iff)
qed

lemma resolved_sound: "tp_resolve_metrics p parts = Inr ms \<Longrightarrow> sound_metrics p ms"
proof (induction parts arbitrary: ms)
  case (Cons part parts)
  show ?case
  proof (cases "trim_space part = []")
    case True
    with Cons show ?thesis by simp
  next
    case False
    with Cons.prems obtain m rest where "tp_resolveMetric p (trim_space part) = Some m"
      "tp_resolve_metrics p parts = Inr rest" "ms = m # rest"
      by (cases "tp_resolveMetric p (trim_space part)"; cases "tp_resolve_metrics p parts") (auto simp: Let_def)
    with Cons.IH show ?thesis using resolve_name by (fastforce simp: sound_metrics_def)
  qed
qed (simp add: sound_metrics_def)

section \<open>What a process prints\<close>

lemma send_keeps [simp]:
  "tp_metrics (tp_sendLine l t) = tp_metrics t" "tp_metrics (tp_sendErr c e t) = tp_metrics t" "tp_metrics (tp_sendStat s t) = tp_metrics t"
  by (simp_all add: tp_sendLine_def tp_sendErr_def tp_sendStat_def split: option.splits)

text \<open>Before START: the metrics stay sound, and lines are only added, errors until READY.\<close>

definition greets :: "bool \<Rightarrow> 'g transport \<Rightarrow> 'g transport \<Rightarrow> bool" where
  "greets ready t u \<longleftrightarrow> (\<forall>out. tp_out t = Some out \<longrightarrow>
     (\<exists>errs. tp_out u = Some (out @ errs @ (if ready then [''READY''] else [])) \<and> (\<forall>l \<in> set errs. is_prefix ''ERR '' l)))"

lemma greets_refl: "tp_out u = tp_out t \<Longrightarrow> greets False t u"
  by (simp add: greets_def)

lemma greets_trans: "greets False t u \<Longrightarrow> greets b u v \<Longrightarrow> greets b t v"
  by (fastforce simp: greets_def)

lemma greets_err [simp]: "greets False t (tp_sendErr c e t)"
  by (auto simp: greets_def tp_sendErr_def tp_sendLine_def)

lemma handle_greets:
  assumes "tp_handleCommand p line s t = (b, s', t')"
  shows "greets b t t' \<and> (sound_metrics p (tp_metrics t) \<longrightarrow> sound_metrics p (tp_metrics t'))"
proof -
  have ready: "greets True t (tp_sendLine ''READY'' t)" by (auto simp: greets_def tp_sendLine_def)
  have rule: "greets False t (snd (tp_configureStopRule p l opn r t)) \<and> tp_metrics (snd (tp_configureStopRule p l opn r t)) = tp_metrics t" for l opn r
    by (auto simp: tp_configureStopRule_def greets_refl split: option.split)
  have metric: "greets False t (tp_metric_command p line t) \<and>
      (sound_metrics p (tp_metrics t) \<longrightarrow> sound_metrics p (tp_metrics (tp_metric_command p line t)))"
    using resolved_sound [of p] by (auto simp: tp_metric_command_def greets_refl Let_def sound_metrics_def split: sum.split)
  have step: "greets False t (tp_metric_step_command fs t) \<and> tp_metrics (tp_metric_step_command fs t) = tp_metrics t" for fs
    by (auto simp: tp_metric_step_command_def greets_refl split: option.split)
  have set: "greets False t (snd (snd (tp_setVar p n r s t))) \<and> tp_metrics (snd (snd (tp_setVar p n r s t))) = tp_metrics t" for n r
    by (auto simp: tp_setVar_def greets_refl split: option.split)
  have set: "greets False t (snd (tp_set_command p fs s t)) \<and> tp_metrics (snd (tp_set_command p fs s t)) = tp_metrics t" for fs
    using set by (auto simp: tp_set_command_def)
  have set': "greets False t t1 \<and> tp_metrics t1 = tp_metrics t" if "tp_set_command p fs s t = (s1, t1)" for fs s1 t1
    using set [of fs] that by simp
  show ?thesis
    using assms ready rule metric step greets_refl [of t t]
    by (auto simp: tp_handleCommand_def Let_def split: if_splits dest: set')
qed

lemma read_greets:
  assumes "tp_read_commands p input err s t = (b, s', t')"
  shows "greets b t t' \<and> (sound_metrics p (tp_metrics t) \<longrightarrow> sound_metrics p (tp_metrics t'))"
  using assms
proof (induction p input err s t rule: tp_read_commands.induct)
  case (1 p err s t)
  then show ?case by (auto simp: greets_refl split: option.splits)
next
  case (2 p l ls err s t)
  show ?case
  proof (cases "trim_space l = []")
    case True
    with 2 show ?thesis by (simp add: Let_def)
  next
    case False
    obtain c s1 t1 where h: "tp_handleCommand p (trim_space l) s t = (c, s1, t1)" by (cases "tp_handleCommand p (trim_space l) s t") auto
    show ?thesis
    proof (cases c)
      case True
      with 2(3) False h have "b = True" "t' = t1" by (simp_all add: Let_def)
      with handle_greets [OF h] True show ?thesis by simp
    next
      case False
      with 2 \<open>trim_space l \<noteq> []\<close> h have "greets b t1 t' \<and> (sound_metrics p (tp_metrics t1) \<longrightarrow> sound_metrics p (tp_metrics t'))"
        by (simp add: Let_def)
      with handle_greets [OF h] False show ?thesis by (auto intro: greets_trans)
    qed
  qed
qed

lemma configured_lines:
  assumes "tp_configureExperiment p input err s0 fresh_transport = (b, sc, tc)"
  shows "\<exists>errs. tp_out tc = Some ((''HELLO '' @ pg_hash p) # errs @ (if b then [''READY''] else [])) \<and>
    (\<forall>l \<in> set errs. is_prefix ''ERR '' l) \<and> sound_metrics p (tp_metrics tc)"
proof -
  let ?t0 = "tp_sendLine (''HELLO '' @ pg_hash p) (fresh_transport\<lparr>tp_out := Some []\<rparr>)"
  have "tp_read_commands p input err s0 ?t0 = (b, sc, tc)" using assms by (simp add: tp_configureExperiment_def)
  from read_greets [OF this] show ?thesis
    by (auto simp: greets_def tp_sendLine_def fresh_transport_def sound_metrics_def)
qed

text \<open>After START: only reports, with the metrics as configured.\<close>

definition reports :: "'g transport \<Rightarrow> 'g transport \<Rightarrow> bool" where
  "reports t u \<longleftrightarrow> tp_metrics u = tp_metrics t \<and>
     (\<forall>out. tp_out t = Some out \<longrightarrow> (\<exists>ls. tp_out u = Some (out @ ls) \<and> (\<forall>l \<in> set ls. \<exists>s. l = report_text (tp_metrics t) s)))"

lemma reports_refl [simp]: "reports t t"
  by (simp add: reports_def)

lemma reports_trans: "reports t u \<Longrightarrow> reports u v \<Longrightarrow> reports t v"
  by (fastforce simp: reports_def)

lemma stat_reports: "reports t (tp_sendStat s t)"
  by (auto simp: reports_def tp_sendStat_def tp_sendLine_def report_text_def split: option.split)

lemma step_reports: "tp_maybeSendMetricStep s t = Some u \<Longrightarrow> reports t u"
  using stat_reports [of t s] by (auto simp: tp_maybeSendMetricStep_def Let_def split: if_splits) (simp add: reports_def)

lemma turn_reports: "tp_turn turn (s, t) = (out, s', t') \<Longrightarrow> reports t t'"
  using step_reports by (auto simp: tp_turn_def split: run.splits option.splits if_splits)

lemma turns_report: "tp_turns turn n (s, t) = (out, s', t') \<Longrightarrow> reports t t'"
proof (induction n arbitrary: s t)
  case (Suc n)
  obtain o1 s1 t1 where step: "tp_turn turn (s, t) = (o1, s1, t1)" by (cases "tp_turn turn (s, t)") auto
  from Suc.prems step have "o1 = Going \<and> tp_turns turn n (s1, t1) = (out, s', t') \<or> t1 = t'" by (cases o1) auto
  with Suc.IH [of s1 t1] turn_reports [OF step] show ?case by (blast intro: reports_trans)
qed simp

lemma run_over:
  assumes "tp_run turn n (s0, t0) = (Over, s, t)" "tp_out t0 = Some out"
  shows "\<exists>ls. tp_out t = Some (out @ ls @ (if tp_metrics t0 = [] then [] else [report_text (tp_metrics t0) s]) @ [''END '' @ gs_reason s]) \<and>
    (\<forall>l \<in> set ls. \<exists>u. l = report_text (tp_metrics t0) u) \<and> tp_metrics t = tp_metrics t0"
proof -
  obtain o1 s1 t1 where turns: "tp_turns turn n (s0, t0) = (o1, s1, t1)" by (cases "tp_turns turn n (s0, t0)") auto
  with assms(1) have fin: "tp_finish (s1, t1) = (s, t)" by (cases o1) (simp_all add: tp_run_def)
  obtain ls where "tp_out t1 = Some (out @ ls)" "\<forall>l \<in> set ls. \<exists>u. l = report_text (tp_metrics t0) u" "tp_metrics t1 = tp_metrics t0"
    using turns_report [OF turns] assms(2) by (auto simp: reports_def)
  with fin show ?thesis
    by (intro exI [of _ ls]) (auto simp: tp_finish_def Let_def tp_sendStat_def tp_sendLine_def report_text_def)
qed

section \<open>Property\<close>


end
