(* ===== verification/Sim_Pm_Run.thy ===== *)
theory Sim_Pm_Run
  imports Sim_Pm_Correct Sim_Reports
begin

text \<open>
  The protocol side and the process of the shop (codegen/example/pm/main.go): the functions of the
  generated protocol for its variables and blocks, around the turns of its own loop. However it is
  configured, the process ends only by its stop rule or for want of events.
\<close>

section \<open>The program\<close>

definition pm_modelHash :: string where
  "pm_modelHash = ''6f155949352b29d96564d08110c12682626a309f0058d80404a035f1b42f8b5d''"

definition pm_program :: "random sim_program" where
  "pm_program = \<lparr>pg_model = pm_model,
     pg_vars = [(''totalEntitiesEnd'', ValueUint64), (''totalEntitiesSink'', ValueUint64), (''arrivalRate'', ValueFloat64),
       (''serviceARate'', ValueFloat64), (''serviceBRate'', ValueFloat64), (''serviceQCRate'', ValueFloat64)],
     pg_resources = [], pg_hash = pm_modelHash\<rparr>"

definition pm_setVar :: "string \<Rightarrow> string \<Rightarrow> pm \<Rightarrow> random transport \<Rightarrow> bool \<times> pm \<times> random transport" where
  "pm_setVar = tp_setVar pm_program"

definition pm_resolveMetric :: "string \<Rightarrow> random sim_metric option" where
  "pm_resolveMetric = tp_resolveMetric pm_program"

definition pm_resolveNumericOperand :: "string \<Rightarrow> (pm \<Rightarrow> f64) option" where
  "pm_resolveNumericOperand = tp_resolveNumericOperand pm_program"

definition pm_configureStopRule :: "string \<Rightarrow> string \<Rightarrow> string \<Rightarrow> random transport \<Rightarrow> bool \<times> random transport" where
  "pm_configureStopRule = tp_configureStopRule pm_program"

definition pm_handleCommand :: "string \<Rightarrow> pm \<Rightarrow> random transport \<Rightarrow> bool \<times> pm \<times> random transport" where
  "pm_handleCommand = tp_handleCommand pm_program"

definition pm_configureExperiment :: "string list \<Rightarrow> string option \<Rightarrow> pm \<Rightarrow> random transport \<Rightarrow> bool \<times> pm \<times> random transport" where
  "pm_configureExperiment = tp_configureExperiment pm_program"

text \<open>\<open>run\<close> with at most \<open>n\<close> turns of its loop, and the process.\<close>

definition pm_run :: "nat \<Rightarrow> pm \<times> random transport \<Rightarrow> sim_outcome \<times> pm \<times> random transport" where
  "pm_run = tp_run pm_turn"

definition pm_main :: "random \<Rightarrow> nat \<Rightarrow> string list \<Rightarrow> string option \<Rightarrow> pm \<Rightarrow> random transport \<Rightarrow>
    (sim_outcome \<times> pm \<times> random transport) option \<times> random transport" where
  "pm_main source = tp_main pm_program (pm_initModel source) pm_startCreateBlocks pm_turn"

section \<open>The process\<close>

lemma pm_well_named: "well_named pm_program"
  by (simp add: well_named_def pm_program_def pm_model_def isIdentifier_def isIdentStart_def isIdentPart_def is_upper_def is_lower_def)

lemma pm_typed: "vars_typed pm_program s \<Longrightarrow> typed s"
proof -
  assume s: "vars_typed pm_program s"
  have t: "same_type ty (gs_vars s v)" if "(v, ty) \<in> {(''arrivalRate'', ValueFloat64), (''serviceARate'', ValueFloat64),
      (''serviceBRate'', ValueFloat64), (''serviceQCRate'', ValueFloat64), (''totalEntitiesSink'', ValueUint64)}" for v ty
    using s that by (auto simp: vars_typed_def pm_program_def)
  have "float_var v s \<noteq> None" if "v \<in> {''arrivalRate'', ''serviceARate'', ''serviceBRate'', ''serviceQCRate''}" for v
    using t [of v ValueFloat64] that by (cases "gs_vars s v") (auto simp: float_var_def same_type_def)
  moreover have "\<exists>n. gs_vars s ''totalEntitiesSink'' = VUint64 n"
    using t [of "''totalEntitiesSink''" ValueUint64] by (cases "gs_vars s ''totalEntitiesSink''") (auto simp: same_type_def)
  ultimately show "typed s" by (simp add: typed_def)
qed

text \<open>A reason is given by a stop only.\<close>

definition keeps_reason :: "'g gstate \<Rightarrow> 'g gstate \<Rightarrow> bool" where
  "keeps_reason s u \<longleftrightarrow> (gs_stop s \<longrightarrow> gs_stop u) \<and> (gs_stop u \<or> gs_reason u = gs_reason s)"

interpretation reasons: handler_frame m keeps_reason
  by unfold_locales (auto simp: keeps_reason_def sim_halt_def on_queue_def on_delay_def on_resource_def on_create_def sim_schedule_def
      write_target_def set_field_def Let_def sim_free_def split: assign_target.splits option.splits)

lemma reach_reason:
  assumes "sim_reach m d (sim_init m rng capacity vars) s"
  shows "gs_stop s \<or> gs_reason s = []"
  using assms
proof (induction rule: sim_reach.induct)
  case (start s)
  have "keeps_reason (sim_init m rng capacity vars) s"
    by (rule reasons.start_frame [OF start.hyps subset_refl reasons.F_refl])
  then show ?case by (auto simp: keeps_reason_def sim_init_def)
next
  case (turn s s')
  from turn.hyps(2) show ?case
  proof (rule turn_cases)
    fix e q h
    assume "sim_handle m (enter m d) h (s\<lparr>gs_events := q, gs_clock := Time e\<rparr>) = Ret s'"
    then have "keeps_reason (s\<lparr>gs_events := q, gs_clock := Time e\<rparr>) s'" by (rule reasons.handle_frame)
    with turn.IH show ?thesis by (auto simp: keeps_reason_def)
  qed
qed

text \<open>Turns of the loop lead from one state of the run to another.\<close>

lemma turns_reach:
  assumes "tp_turns pm_turn n (s, t) = (out, s', t')" "pm_reach source s0 s"
  shows "out \<in> {Going, Stuck} \<and> pm_reach source s0 s' \<or>
    out = Over \<and> (\<exists>u. pm_reach source s0 u \<and>
      (s' = u \<and> gs_stop u \<or> s' = sim_halt ''stop_rule'' u \<or> pm_turn u = Ret None \<and> s' = u\<lparr>gs_events := snd (eq_pop (gs_events u))\<rparr>)) \<or>
    out \<in> {Panicked, TooDeep} \<and> pm_reach source s0 s' \<and> (\<forall>r. pm_turn s' \<noteq> Ret r)"
  using assms
proof (induction n arbitrary: s t)
  case (Suc n)
  obtain o1 s1 t1 where step: "tp_turn pm_turn (s, t) = (o1, s1, t1)" by (cases "tp_turn pm_turn (s, t)") auto
  have on: "pm_reach source s0 u" if "pm_turn s = Ret (Some u)" for u
    using Suc.prems(2) that by (rule pm_reach.turn)
  show ?case
  proof (cases "o1 = Going")
    case True
    with step have "pm_turn s = Ret (Some s1)" by (auto simp: tp_turn_def split: run.splits option.splits if_splits)
    with on Suc step True show ?thesis by simp
  next
    case False
    with Suc.prems(1) step have "out = o1" "s' = s1" by (cases o1; simp)+
    with step False Suc.prems(2) on show ?thesis
      by (auto simp: tp_turn_def split: run.splits option.splits if_splits)
  qed
qed simp

text \<open>
  C7. The process of the shop, from its standard input to its last line: whatever it is told and
  whatever the random numbers are, it does not panic and no call is too deep, and when it ends, the
  reason it reports is the stop rule or the want of events, never one of the errors that the
  blocks can raise.
\<close>

theorem shop_process_ends_well:
  assumes "pm_main source n input err s0 fresh_transport = (Some (out, s, t), t1)" "vars_typed pm_program s0" "roomy s"
  shows "out \<in> {Going, Over, Stuck} \<and>
    (out = Over \<longrightarrow> gs_reason s \<in> {''stop_rule'', ''empty_event_queue''} \<and>
      (\<exists>ls. tp_out t = Some (ls @ [''END '' @ gs_reason s])))"
proof -
  obtain b sc tc where conf: "tp_configureExperiment pm_program input err s0 fresh_transport = (b, sc, tc)"
    by (cases "tp_configureExperiment pm_program input err s0 fresh_transport") auto
  have "vars_typed pm_program sc"
    using conf assms(2) read_typed [of pm_program input err s0] unfolding tp_configureExperiment_def by blast
  then have ty: "typed sc" by (rule pm_typed)
  then obtain k where k: "gs_vars sc ''totalEntitiesSink'' = VUint64 k" by (auto simp: typed_def)
  obtain sb where start: "pm_startCreateBlocks (pm_initModel source sc) = Ret sb" using shop_start [OF ty k] by blast
  from assms(1) conf start have run: "tp_run pm_turn n (sb, tc) = (out, s, t)"
    by (cases b) (auto simp: pm_main_def tp_main_def Let_def)
  obtain o1 s1 t2 where turns: "tp_turns pm_turn n (sb, tc) = (o1, s1, t2)" by (cases "tp_turns pm_turn n (sb, tc)") auto
  have same: "out = o1" "gs_pools s = gs_pools s1" using run turns
    by (cases o1; auto simp: tp_run_def tp_finish_def Let_def)+
  have "pm_reach source sc sb" using start by (rule pm_reach.start)
  note cases = turns_reach [OF turns this]
  have going: "\<not> gs_stop u \<and> gs_reason u = [] \<and> (\<exists>r. pm_turn u = Ret r)"
    if "pm_reach source sc u" "gs_pools u = gs_pools s1" for u
  proof -
    have "roomy u" using assms(3) same(2) that(2) by (simp add: roomy_def)
    from shop_keeps_its_jobs [OF that(1) ty k this] have "\<not> gs_stop u" "\<exists>r. pm_turn u = Ret r" by (auto split: if_splits)
    with reach_reason [OF that(1) [unfolded pm_reach_sim]] show ?thesis by auto
  qed
  show ?thesis
  proof (cases "o1 = Over")
    case False
    with cases going same(1) show ?thesis by auto
  next
    case True
    with cases obtain u where u: "pm_reach source sc u" and
      s1: "s1 = u \<and> gs_stop u \<or> s1 = sim_halt ''stop_rule'' u \<or> s1 = u\<lparr>gs_events := snd (eq_pop (gs_events u))\<rparr>" by auto
    have pools: "gs_pools u = gs_pools s1" using s1 by (auto simp: sim_halt_def)
    have reason: "gs_reason s1 \<in> {[], ''stop_rule''}" using s1 going [OF u pools] by (auto simp: sim_halt_def)
    have "tp_finish (s1, t2) = (s, t)" using run turns True by (simp add: tp_run_def)
    then have "gs_reason s \<in> {''stop_rule'', ''empty_event_queue''}" using reason by (auto simp: tp_finish_def Let_def)
    moreover have "\<exists>pre. tp_out tc = Some pre" using configured_lines [OF conf] by blast
    then have "\<exists>ls. tp_out t = Some (ls @ [''END '' @ gs_reason s])"
      using run_over [of pm_turn n sb tc s t] run same(1) True by (metis append.assoc)
    ultimately show ?thesis using same(1) True by simp
  qed
qed

section \<open>Examples\<close>

definition pm_input :: "string list" where
  "pm_input = [''METRIC Source.createdN'', ''RULE STOP Source.createdN == Source.createdN'', ''START'']"

definition pm_demo :: "random transport" where
  "pm_demo = \<lparr>tp_out = Some [''HELLO '' @ pm_modelHash, ''READY''],
     tp_metrics = [\<lparr>sm_name = ''Source.createdN'', sm_value = (\<lambda>s. format_value (VUint64 (cc_createdN (gs_creates s ''Source''))))\<rparr>],
     tp_step = Fin 0, tp_hasStep = False, tp_next = Fin 0,
     tp_rule = Some (\<lambda>s. f64_eq (f64_of_u64 (cc_createdN (gs_creates s ''Source''))) (f64_of_u64 (cc_createdN (gs_creates s ''Source''))))\<rparr>"

lemma pm_names:
  "map_of (metric_table pm_program) ''Source.createdN'' = Some (\<lambda>s. VUint64 (cc_createdN (gs_creates s ''Source'')))"
  "map_of (numeric_table pm_program) ''Source.createdN'' = Some (\<lambda>s. VUint64 (cc_createdN (gs_creates s ''Source'')))"
  by (simp_all add: metric_table_def numeric_table_def counter_table_def dotted_def pm_program_def pm_model_def)

lemma pm_texts:
  "trim_space ''METRIC Source.createdN'' = ''METRIC Source.createdN''" "string_fields ''METRIC Source.createdN'' = [''METRIC'', ''Source.createdN'']"
  "trim_space (trim_prefix ''METRIC'' ''METRIC Source.createdN'') = ''Source.createdN''"
  "split_byte (CHR '';'') ''Source.createdN'' = [''Source.createdN'']" "trim_space ''Source.createdN'' = ''Source.createdN''"
  "trim_space ''RULE STOP Source.createdN == Source.createdN'' = ''RULE STOP Source.createdN == Source.createdN''"
  "string_fields ''RULE STOP Source.createdN == Source.createdN'' = [''RULE'', ''STOP'', ''Source.createdN'', ''=='', ''Source.createdN'']"
  "trim_space ''START'' = ''START''" "string_fields ''START'' = [''START'']"
  by code_simp+

lemma pm_told: "tp_configureExperiment pm_program pm_input None s fresh_transport = (True, s, pm_demo)"
  by (simp add: tp_configureExperiment_def pm_input_def tp_handleCommand_def pm_texts tp_metric_command_def tp_resolveMetric_def pm_names
      tp_configureStopRule_def tp_resolveNumericOperand_def compare_op_def fresh_transport_def tp_sendLine_def pm_demo_def Let_def)
    (simp add: pm_program_def)

lemma round_self: "f64_eq (f64_of_u64 w) (f64_of_u64 w)"
  by (auto simp: f64_of_u64_def f64_round_def)

lemma pm_first_turn:
  "\<exists>s u. pm_startCreateBlocks (pm_initModel pm_source pm_globals) = Ret s \<and> pm_turn s = Ret (Some u) \<and> roomy u \<and> \<not> gs_stop u"
proof -
  let ?i = "pm_initModel pm_source pm_globals"
  have draw: "evalE (exponential_time ''arrivalRate'') no_ref ?i = Ret (Fin 1, ?i\<lparr>gs_rng := snd (next_exp pm_source)\<rparr>)"
    by (simp add: evalE_def exponential_time_def float_var_def pm_initModel_def pm_globals_def sim_init_def pm_vars_def
        rand_Exponential_def next_exp_def pm_source_def f64_round_numeral [of num.One, simplified] Let_def)
  let ?s = "pm_Schedule (Fin 1) (CreateNow ''Source'') (?i\<lparr>gs_rng := snd (next_exp pm_source)\<rparr>)"
  have s: "pm_startCreateBlocks ?i = Ret ?s" by (simp add: pm_startCreateBlocks_def pm_func_block_CREATE_Source_def draw)
  have pop: "eq_pop (gs_events ?s) = (\<lparr>Time = Fin 1, Handler = Some (CreateNow ''Source'')\<rparr>, [])"
    by (simp add: pm_Schedule_def pm_initModel_def new_event_queue_def eq_push_def sift_up.simps eq_pop_def
        f64_round_numeral [of num.One, simplified] Let_def)
  let ?s1 = "?s\<lparr>gs_events := [], gs_clock := Fin 1\<rparr>"
  have "shop_but {} 0 ?s" using s shop_start [OF pm_globals_typed, of pm_source] by simp
  then have shop: "shop_but {} 0 ?s1" by (rule shop_quiet) (simp add: quiet_def)
  then have stop: "\<not> gs_stop ?s" by (simp add: shop_but_def)
  have pools: "gs_pools ?s1 = (\<lambda>_. new_pool 10)" by (simp add: pm_Schedule_def pm_initModel_def)
  then have "pool_ok (gs_pools ?s1 entityType_Jobs)" by (simp add: pool_new_ok)
  from source_done [OF shop this] obtain u where u: "on_Source ?s1 = Ret u" "roomy u \<longrightarrow> shop_but {} 0 u"
    and len: "\<And>x. length (Entities (gs_pools u x)) \<le> 1"
    unfolding pools by (auto simp: new_pool_def)
  have "length (Entities (gs_pools u x)) \<le> 2 ^ 32" for x using len [of x] by simp
  then have "roomy u" by (simp add: roomy_def)
  moreover have "pm_turn ?s = Ret (Some u)" using pop stop u(1) by (simp add: pm_turn_def pm_handler_def Let_def)
  ultimately show ?thesis using s u(2) by (auto simp: shop_but_def)
qed

text \<open>A run that ends by its stop rule after the first arrival.\<close>

lemma pm_demo_run:
  obtains s t where "pm_main pm_source 1 pm_input None pm_globals fresh_transport = (Some (Over, s, t), t)" "roomy s" "tp_metrics t \<noteq> []"
proof -
  obtain sb u where sb: "pm_startCreateBlocks (pm_initModel pm_source pm_globals) = Ret sb" "pm_turn sb = Ret (Some u)"
    and u: "roomy u" "\<not> gs_stop u"
    using pm_first_turn by blast
  have "tp_turns pm_turn 1 (sb, pm_demo) = (Over, sim_halt ''stop_rule'' u, pm_demo)"
    using sb(2) u(2) round_self by (simp add: tp_turn_def tp_maybeSendMetricStep_def pm_demo_def)
  then have "pm_main pm_source 1 pm_input None pm_globals fresh_transport =
      (Some (Over, tp_finish (sim_halt ''stop_rule'' u, pm_demo)), snd (tp_finish (sim_halt ''stop_rule'' u, pm_demo)))"
    by (simp add: pm_main_def tp_main_def pm_told sb(1) tp_run_def Let_def)
  moreover have "gs_pools (fst (tp_finish (sim_halt ''stop_rule'' u, pm_demo))) = gs_pools u"
    by (simp add: tp_finish_def sim_halt_def Let_def)
  ultimately show thesis
    using u(1) by (intro that [of "fst (tp_finish (sim_halt ''stop_rule'' u, pm_demo))" "snd (tp_finish (sim_halt ''stop_rule'' u, pm_demo))"])
      (simp_all add: roomy_def, simp add: tp_finish_def pm_demo_def Let_def)
qed

theorem shop_process_ends_well_witness:
  "\<exists>s t ls. pm_main pm_source 1 pm_input None pm_globals fresh_transport = (Some (Over, s, t), t) \<and>
    gs_reason s \<in> {''stop_rule'', ''empty_event_queue''} \<and> tp_out t = Some (ls @ [''END '' @ gs_reason s])"
proof -
  obtain s t where run: "pm_main pm_source 1 pm_input None pm_globals fresh_transport = (Some (Over, s, t), t)" "roomy s"
    by (rule pm_demo_run)
  have "vars_typed pm_program pm_globals"
    by (simp add: vars_typed_def pm_program_def pm_globals_def sim_init_def pm_vars_def same_type_def)
  from shop_process_ends_well [OF run(1) this run(2)] run(1) show ?thesis by blast
qed


end
