(* ===== verification/Codegen_Store.thy ===== *)
theory Codegen_Store
  imports Dispatcher_Server Go_Decimal
begin

text \<open>
  Where the code generator keeps what it makes (codegen/cmd/codegen/store.go, store_s3.go): a
  directory or a bucket, both behind the interface \<open>Store\<close>, which is a locale here; and the
  dispatcher's side of the bucket (dispatcher/store_s3.go). Local files and the bucket's objects
  are maps from names to contents. What the file system, the S3 client and \<open>url.Parse\<close> answer is
  an argument, and so is SHA-256, given as hexadecimal text. Paths are those of Linux.
\<close>

section \<open>URLs as text\<close>

definition upper_hex :: "nat \<Rightarrow> char" where
  "upper_hex n = (if n < 10 then char_of (n + 48) else char_of (n + 55))"

definition percent :: "char \<Rightarrow> string" where
  "percent c = [CHR 0x25, upper_hex (of_char c div 16), upper_hex (of_char c mod 16)]"

definition is_alnum :: "char \<Rightarrow> bool" where
  "is_alnum c \<longleftrightarrow> is_digit c \<or> is_lower c \<or> is_upper c"

text \<open>\<open>escape\<close> of net/url, for a path and for a host.\<close>

definition escape_path :: "string \<Rightarrow> string" where
  "escape_path p = (if p = ''*'' then p
     else concat (map (\<lambda>c. if is_alnum c \<or> c \<in> set ''-_.~$&+,/:;=@'' then [c] else percent c) p))"

definition escape_host :: "string \<Rightarrow> string" where
  "escape_host h = concat (map (\<lambda>c.
     if is_alnum c \<or> c \<in> set ''-_.~!$&()*+,;=:[]<>'' \<or> c = CHR 0x27 \<or> c = CHR 0x22
     then [c] else percent c) h)"

definition trim_right_slash :: "string \<Rightarrow> string" where
  "trim_right_slash s = rev (dropWhile (\<lambda>c. c = CHR ''/'') (rev s))"

section \<open>Storage\<close>

record storage =
  sg_files :: "string \<rightharpoonup> string"
  sg_bucket :: "string \<rightharpoonup> string \<times> string"

text \<open>
  What can go wrong in a call, and what it leaves behind: a failed write may leave the file as
  it was or with anything in it, a failed upload may have stored the object.
\<close>

record put_faults =
  pf_Ctx :: "string option"
  pf_Mkdir :: "string option"
  pf_Open :: "string option"
  pf_Write :: "(string \<times> string option) option"
  pf_Create :: "string option"
  pf_Copy :: "(string \<times> string) option"
  pf_Stat :: "string option"
  pf_IsDir :: bool
  pf_StatSize :: "int option"
  pf_Seek :: "string option"
  pf_Put :: "(string \<times> bool) option"

definition no_faults :: put_faults where
  "no_faults = \<lparr>pf_Ctx = None, pf_Mkdir = None, pf_Open = None, pf_Write = None, pf_Create = None,
     pf_Copy = None, pf_Stat = None, pf_IsDir = False, pf_StatSize = None, pf_Seek = None, pf_Put = None\<rparr>"

definition failing :: "string option \<Rightarrow> string + unit" where
  "failing e = (case e of None \<Rightarrow> Inr () | Some err \<Rightarrow> Inl err)"

lemma failing_Inr [simp]: "failing e = Inr u \<longleftrightarrow> e = None"
  by (simp add: failing_def split: option.splits)

lemma failing_simps [simp]: "failing None = Inr ()" "failing (Some err) = Inl err"
  by (simp_all add: failing_def)

text \<open>\<open>os.Open\<close> of a file and reading it to its end.\<close>

definition open_file :: "put_faults \<Rightarrow> string \<Rightarrow> storage \<Rightarrow> string + string" where
  "open_file f p st =
     (case (pf_Open f, sg_files st p) of
        (None, Some data) \<Rightarrow> Inr data
      | (None, None) \<Rightarrow> Inl (msg [''open '', p, '': no such file or directory''])
      | (Some err, _) \<Rightarrow> Inl err)"

section \<open>A directory (store.go)\<close>

record fs_store =
  fs_RootDir :: string
  fs_URIBase :: string

definition fileURI :: "string \<Rightarrow> string" where
  "fileURI p = ''file://'' @ escape_path p"

definition NewFSStore :: "(string \<Rightarrow> string + string) \<Rightarrow> string \<Rightarrow> string + fs_store" where
  "NewFSStore filepath_Abs rootDir =
     (if rootDir = [] then Inl ''empty artifact dir''
      else bindE (filepath_Abs rootDir)
        (\<lambda>absRoot. Inr \<lparr>fs_RootDir = absRoot, fs_URIBase = fileURI absRoot\<rparr>))"

definition normalizeObjectKey :: "string \<Rightarrow> string" where
  "normalizeObjectKey key = path_clean (trim_prefix ''/'' key)"

definition objectPath :: "fs_store \<Rightarrow> string \<Rightarrow> string + string" where
  "objectPath s key =
     (let cleanKey = normalizeObjectKey key in
      if cleanKey = [] then Inl ''empty artifact key''
      else if is_prefix ''../'' cleanKey \<or> cleanKey = ''..'' \<or> is_prefix ''/'' cleanKey
      then Inl (msg [''unsafe artifact key '', quoted key])
      else Inr (file_join [fs_RootDir s, cleanKey]))"

text \<open>The first test never succeeds: cleaning turns the empty key into a dot.\<close>

lemma empty_key_is_root: "objectPath \<lparr>fs_RootDir = ''/a'', fs_URIBase = u\<rparr> [] = Inr ''/a''"
  by (simp add: objectPath_def normalizeObjectKey_def trim_prefix_def path_clean_def split_byte_def
      file_join_def Let_def)

definition fs_objectURI :: "fs_store \<Rightarrow> string \<Rightarrow> string" where
  "fs_objectURI s key = trim_right_slash (fs_URIBase s) @ ''/'' @ normalizeObjectKey key"

definition fs_PutBytes ::
  "(string \<Rightarrow> string) \<Rightarrow> fs_store \<Rightarrow> put_faults \<Rightarrow> string \<Rightarrow> string \<Rightarrow> string \<Rightarrow> storage \<Rightarrow>
   (string + codegen_artifact_ref) \<times> storage" where
  "fs_PutBytes sha s f key data contentType st =
     (case bindE (failing (pf_Ctx f)) (\<lambda>_. bindE (objectPath s key)
             (\<lambda>p. bindE (failing (pf_Mkdir f)) (\<lambda>_. Inr p))) of
        Inl err \<Rightarrow> (Inl err, st)
      | Inr p \<Rightarrow>
          (case pf_Write f of
             Some (err, None) \<Rightarrow> (Inl err, st)
           | Some (err, Some rest) \<Rightarrow> (Inl err, st\<lparr>sg_files := (sg_files st)(p \<mapsto> rest)\<rparr>)
           | None \<Rightarrow>
               (Inr \<lparr>cg_URI = fs_objectURI s key, cg_Key = normalizeObjectKey key, cg_SHA256 = sha data,
                     cg_Size = int (length data), cg_ContentType = contentType\<rparr>,
                st\<lparr>sg_files := (sg_files st)(p \<mapsto> data)\<rparr>)))"

text \<open>\<open>os.Create\<close> empties the destination before the copy reads the source, even when both are
  the same file.\<close>

definition fs_PutFile ::
  "(string \<Rightarrow> string) \<Rightarrow> fs_store \<Rightarrow> put_faults \<Rightarrow> string \<Rightarrow> string \<Rightarrow> string \<Rightarrow> storage \<Rightarrow>
   (string + codegen_artifact_ref) \<times> storage" where
  "fs_PutFile sha s f key srcPath contentType st =
     (case bindE (failing (pf_Ctx f)) (\<lambda>_. bindE (objectPath s key)
             (\<lambda>p. bindE (open_file f srcPath st) (\<lambda>_. bindE (failing (pf_Mkdir f))
             (\<lambda>_. bindE (failing (pf_Create f)) (\<lambda>_. Inr p))))) of
        Inl err \<Rightarrow> (Inl err, st)
      | Inr p \<Rightarrow>
          (let files = (sg_files st)(p \<mapsto> []); data = the (files srcPath)
           in case pf_Copy f of
                Some (err, rest) \<Rightarrow> (Inl err, st\<lparr>sg_files := files(p \<mapsto> rest)\<rparr>)
              | None \<Rightarrow>
                  (Inr \<lparr>cg_URI = fs_objectURI s key, cg_Key = normalizeObjectKey key, cg_SHA256 = sha data,
                        cg_Size = int (length data), cg_ContentType = contentType\<rparr>,
                   st\<lparr>sg_files := files(p \<mapsto> data)\<rparr>)))"

section \<open>A bucket (store_s3.go)\<close>

record s3_config =
  s3_Endpoint :: string
  s3_AccessKey :: string
  s3_SecretKey :: string
  s3_Bucket :: string
  s3_UseSSL :: bool
  s3_Region :: string
  s3_Prefix :: string
  s3_CreateBucket :: bool

text \<open>\<open>url_parse\<close> gives scheme, host and path.\<close>

definition normalizeS3Endpoint ::
  "(string \<Rightarrow> string + (string \<times> string \<times> string)) \<Rightarrow> string \<Rightarrow> bool \<Rightarrow> string + (string \<times> bool)" where
  "normalizeS3Endpoint url_parse endpoint0 useSSL =
     (let endpoint = trim_space endpoint0 in
      if endpoint = [] then Inl ''empty s3 endpoint''
      else if is_prefix ''http://'' endpoint \<or> is_prefix ''https://'' endpoint then
        bindE (url_parse endpoint) (\<lambda>(scheme, host, path).
          if host = [] then Inl (msg [''invalid s3 endpoint '', quoted endpoint])
          else if path \<noteq> [] \<and> path \<noteq> ''/'' then Inl (msg [''s3 endpoint must not contain path: '', quoted endpoint])
          else if scheme = ''http'' then Inr (host, False)
          else if scheme = ''https'' then Inr (host, True)
          else Inl (msg [''unsupported s3 endpoint scheme '', quoted scheme]))
      else Inr (endpoint, useSSL))"

definition trim_slashes :: "string \<Rightarrow> string" where
  "trim_slashes s = trim_right_slash (dropWhile (\<lambda>c. c = CHR ''/'') s)"

definition normalizeS3Prefix :: "string \<Rightarrow> string + string" where
  "normalizeS3Prefix prefix0 =
     (let pre = trim_slashes (replace_byte (CHR 0x5C) (CHR ''/'') prefix0) in
      if pre = [] then Inr []
      else
        (let pre = path_clean pre in
         if pre = ''.'' \<or> pre = [] then Inr []
         else if pre = ''..'' \<or> is_prefix ''../'' pre
         then Inl (msg [''unsafe s3 prefix '', quoted pre])
         else Inr pre))"

text \<open>The dispatcher's own version.\<close>

definition dispatcher_normalizeS3Prefix :: "string \<Rightarrow> string + string" where
  "dispatcher_normalizeS3Prefix prefix0 =
     (let pre = trim_space prefix0 in if pre = [] then Inr [] else normalizeS3ObjectKey pre)"

record s3_store =
  st_Bucket :: string
  st_Prefix :: string

text \<open>\<open>new\<close>, \<open>bucket_exists\<close> and \<open>make_bucket\<close> are the client's answers; the regions are those it is given.\<close>

definition connect_bucket ::
  "(string \<Rightarrow> bool \<Rightarrow> string \<Rightarrow> string option) \<Rightarrow> (string \<Rightarrow> string + bool) \<Rightarrow> (string \<Rightarrow> string \<Rightarrow> string option) \<Rightarrow>
   s3_config \<Rightarrow> string \<Rightarrow> string \<times> bool \<Rightarrow> string \<Rightarrow> string + s3_store" where
  "connect_bucket new bucket_exists make_bucket cfg region endpoint pre =
     bindE (failing (new (fst endpoint) (snd endpoint) region)) (\<lambda>_.
     bindE (bucket_exists (s3_Bucket cfg)) (\<lambda>found.
     bindE (if found then Inr ()
            else if \<not> s3_CreateBucket cfg
            then Inl (msg [''s3 bucket '', quoted (s3_Bucket cfg), '' does not exist''])
            else failing (make_bucket (s3_Bucket cfg) region)) (\<lambda>_.
     Inr \<lparr>st_Bucket = s3_Bucket cfg, st_Prefix = pre\<rparr>)))"

definition NewS3Store ::
  "(string \<Rightarrow> string + string) \<Rightarrow> (string \<Rightarrow> string + (string \<times> string \<times> string)) \<Rightarrow>
   (string \<Rightarrow> bool \<Rightarrow> string \<Rightarrow> string option) \<Rightarrow> (string \<Rightarrow> string + bool) \<Rightarrow> (string \<Rightarrow> string \<Rightarrow> string option) \<Rightarrow>
   s3_config \<Rightarrow> string + s3_store" where
  "NewS3Store norm_prefix url_parse new bucket_exists make_bucket cfg =
     (if s3_Endpoint cfg = [] then Inl ''empty s3 endpoint''
      else if s3_AccessKey cfg = [] then Inl ''empty s3 access key''
      else if s3_SecretKey cfg = [] then Inl ''empty s3 secret key''
      else if s3_Bucket cfg = [] then Inl ''empty s3 bucket''
      else
        (let region = (if s3_Region cfg = [] then ''us-east-1'' else s3_Region cfg) in
         bindE (normalizeS3Endpoint url_parse (s3_Endpoint cfg) (s3_UseSSL cfg)) (\<lambda>endpoint.
         bindE (norm_prefix (s3_Prefix cfg)) (\<lambda>pre.
         connect_bucket new bucket_exists make_bucket cfg region endpoint pre))))"

definition codegen_NewS3Store where
  "codegen_NewS3Store = NewS3Store normalizeS3Prefix"

definition dispatcher_NewS3Store where
  "dispatcher_NewS3Store = NewS3Store dispatcher_normalizeS3Prefix"

definition s3_objectURI :: "s3_store \<Rightarrow> string \<Rightarrow> string" where
  "s3_objectURI s objectKey = ''s3://'' @ escape_host (st_Bucket s) @ escape_path (''/'' @ objectKey)"

text \<open>\<open>PutObject\<close>.\<close>

definition put_object ::
  "put_faults \<Rightarrow> string \<Rightarrow> string \<Rightarrow> string \<Rightarrow> storage \<Rightarrow> (string + unit) \<times> storage" where
  "put_object f objectKey data contentType st =
     (let stored = st\<lparr>sg_bucket := (sg_bucket st)(objectKey \<mapsto> (data, contentType))\<rparr> in
      case pf_Put f of
        None \<Rightarrow> (Inr (), stored)
      | Some (err, kept) \<Rightarrow> (Inl err, if kept then stored else st))"

definition s3_PutBytes ::
  "(string \<Rightarrow> string) \<Rightarrow> s3_store \<Rightarrow> put_faults \<Rightarrow> string \<Rightarrow> string \<Rightarrow> string \<Rightarrow> storage \<Rightarrow>
   (string + codegen_artifact_ref) \<times> storage" where
  "s3_PutBytes sha s f key data contentType st =
     (case bindE (failing (pf_Ctx f)) (\<lambda>_. objectKeyForWrite (st_Prefix s) key) of
        Inl err \<Rightarrow> (Inl err, st)
      | Inr objectKey \<Rightarrow>
          (case put_object f objectKey data contentType st of
             (Inl err, st) \<Rightarrow> (Inl err, st)
           | (Inr _, st) \<Rightarrow>
               (Inr \<lparr>cg_URI = s3_objectURI s objectKey, cg_Key = objectKey, cg_SHA256 = sha data,
                     cg_Size = int (length data), cg_ContentType = contentType\<rparr>, st)))"

text \<open>The file is read once for the hash and once for the upload.\<close>

definition hash_file :: "put_faults \<Rightarrow> string \<Rightarrow> storage \<Rightarrow> string + string" where
  "hash_file f srcPath st =
     bindE (open_file f srcPath st) (\<lambda>data.
     bindE (failing (pf_Stat f)) (\<lambda>_.
     if pf_IsDir f then Inl (msg [''source path is directory: '', srcPath])
     else bindE (failing (map_option fst (pf_Copy f))) (\<lambda>_.
     let expected = (case pf_StatSize f of None \<Rightarrow> int (length data) | Some n \<Rightarrow> n) in
     if int (length data) \<noteq> expected
     then Inl (msg [''source file size changed while hashing: expected '', itoa expected,
                    '' bytes, read '', decimal (length data), '' bytes''])
     else bindE (failing (pf_Seek f)) (\<lambda>_. Inr data))))"

definition s3_PutFile ::
  "(string \<Rightarrow> string) \<Rightarrow> s3_store \<Rightarrow> put_faults \<Rightarrow> string \<Rightarrow> string \<Rightarrow> string \<Rightarrow> storage \<Rightarrow>
   (string + codegen_artifact_ref) \<times> storage" where
  "s3_PutFile sha s f key srcPath contentType st =
     (case bindE (failing (pf_Ctx f)) (\<lambda>_. bindE (objectKeyForWrite (st_Prefix s) key)
             (\<lambda>objectKey. bindE (hash_file f srcPath st) (\<lambda>data. Inr (objectKey, data)))) of
        Inl err \<Rightarrow> (Inl err, st)
      | Inr (objectKey, data) \<Rightarrow>
          (case put_object f objectKey data contentType st of
             (Inl err, st) \<Rightarrow> (Inl err, st)
           | (Inr _, st) \<Rightarrow>
               (Inr \<lparr>cg_URI = s3_objectURI s objectKey, cg_Key = objectKey, cg_SHA256 = sha data,
                     cg_Size = int (length data), cg_ContentType = contentType\<rparr>, st)))"

section \<open>The dispatcher's side of the bucket (dispatcher/store_s3.go)\<close>

record get_faults =
  gf_Ctx :: "string option"
  gf_Stat :: "string option"
  gf_Get :: "string option"
  gf_Mkdir :: "string option"
  gf_Create :: "string option"
  gf_Copy :: "(string \<times> string) option"
  gf_Close :: "string option"
  gf_Rename :: "string option"
  gf_Remove :: "string option"

definition no_get_faults :: get_faults where
  "no_get_faults = \<lparr>gf_Ctx = None, gf_Stat = None, gf_Get = None, gf_Mkdir = None, gf_Create = None,
     gf_Copy = None, gf_Close = None, gf_Rename = None, gf_Remove = None\<rparr>"

definition stat_object :: "string option \<Rightarrow> string \<Rightarrow> storage \<Rightarrow> string + (string \<times> string)" where
  "stat_object fault objectKey st =
     (case (fault, sg_bucket st objectKey) of
        (Some err, _) \<Rightarrow> Inl err
      | (None, None) \<Rightarrow> Inl ''The specified key does not exist.''
      | (None, Some object) \<Rightarrow> Inr object)"

text \<open>\<open>without_tmp\<close> is the removal of the temporary file, whose error is ignored.\<close>

definition s3_GetFile ::
  "(string \<Rightarrow> string) \<Rightarrow> get_faults \<Rightarrow> string \<Rightarrow> string \<Rightarrow> string \<Rightarrow> storage \<Rightarrow>
   (string + artifact_ref) \<times> storage" where
  "s3_GetFile sha f key dstPath expectedSHA256 st =
     (case bindE (failing (gf_Ctx f)) (\<lambda>_. bindE (normalizeS3ObjectKey key) (\<lambda>objectKey.
             bindE (stat_object (gf_Stat f) objectKey st) (\<lambda>info.
             bindE (stat_object (gf_Get f) objectKey st) (\<lambda>object.
             bindE (failing (gf_Mkdir f)) (\<lambda>_. bindE (failing (gf_Create f)) (\<lambda>_.
             Inr (objectKey, snd info, fst object))))))) of
        Inl err \<Rightarrow> (Inl err, st)
      | Inr (objectKey, infoType, data) \<Rightarrow>
          (let tmpPath = dstPath @ ''.tmp'';
               filled = (\<lambda>bytes. st\<lparr>sg_files := (sg_files st)(tmpPath \<mapsto> bytes)\<rparr>);
               without_tmp = (\<lambda>st. if gf_Remove f = None then st\<lparr>sg_files := (sg_files st)(tmpPath := None)\<rparr> else st);
               digest = sha data
           in case (gf_Copy f, gf_Close f) of
                (Some (copyErr, bytes), _) \<Rightarrow> (Inl copyErr, without_tmp (filled bytes))
              | (None, Some closeErr) \<Rightarrow> (Inl closeErr, without_tmp (filled data))
              | (None, None) \<Rightarrow>
                  if expectedSHA256 \<noteq> [] \<and> \<not> equal_fold digest expectedSHA256
                  then (Inl (msg [''sha256 mismatch for '', objectKey, '': expected '', expectedSHA256, '', got '', digest]),
                        without_tmp (filled data))
                  else case gf_Rename f of
                         Some err \<Rightarrow> (Inl err, without_tmp (filled data))
                       | None \<Rightarrow>
                           (Inr \<lparr>ar_Key = objectKey, ar_Sha256 = digest, ar_Size = int (length data),
                                 ar_ContentType = (if infoType = [] then ''application/octet-stream'' else infoType)\<rparr>,
                            st\<lparr>sg_files := (sg_files st)(tmpPath := None, dstPath \<mapsto> data)\<rparr>)))"

definition dispatcher_PutFile ::
  "(string \<Rightarrow> string) \<Rightarrow> s3_store \<Rightarrow> put_faults \<Rightarrow> string \<Rightarrow> string \<Rightarrow> string \<Rightarrow> storage \<Rightarrow>
   (string + artifact_ref) \<times> storage" where
  "dispatcher_PutFile sha s f key srcPath contentType0 st =
     (let contentType = (if contentType0 = [] then ''application/octet-stream'' else contentType0) in
      case bindE (failing (pf_Ctx f)) (\<lambda>_. bindE (objectKeyForWrite (st_Prefix s) key)
             (\<lambda>objectKey. bindE (hash_file f srcPath st) (\<lambda>data. Inr (objectKey, data)))) of
        Inl err \<Rightarrow> (Inl err, st)
      | Inr (objectKey, data) \<Rightarrow>
          (case put_object f objectKey data contentType st of
             (Inl err, st) \<Rightarrow> (Inl err, st)
           | (Inr _, st) \<Rightarrow>
               (Inr \<lparr>ar_Key = objectKey, ar_Sha256 = sha data, ar_Size = int (length data),
                     ar_ContentType = contentType\<rparr>, st)))"

section \<open>Clean keys\<close>

text \<open>A key the stores accept is a path of plain names; cleaning leaves such a path as it is.\<close>

definition plain_names :: "string list \<Rightarrow> bool" where
  "plain_names xs \<longleftrightarrow> xs \<noteq> [] \<and> (\<forall>x \<in> set xs. x \<noteq> [] \<and> x \<noteq> ''.'' \<and> x \<noteq> ''..'' \<and> CHR ''/'' \<notin> set x)"

definition plain_key :: "string \<Rightarrow> bool" where
  "plain_key k \<longleftrightarrow> plain_names (split_byte (CHR ''/'') k)"

lemma clean_elems_id:
  "\<forall>x \<in> set xs. x \<noteq> [] \<and> x \<noteq> ''.'' \<and> x \<noteq> ''..'' \<Longrightarrow> clean_elems r acc xs = rev acc @ xs"
  by (induction xs arbitrary: acc) auto

lemma split_byte_Cons: "split_byte c (d # s) = (if d = c then [] # split_byte c s
    else (d # hd (split_byte c s)) # tl (split_byte c s))"
proof -
  have "split_byte_aux c (rev pre) t = (pre @ hd (split_byte_aux c [] t)) # tl (split_byte_aux c [] t)" for pre t
  proof (induction t arbitrary: pre)
    case (Cons x t)
    from Cons [of "pre @ [x]"] Cons [of "[x]"] show ?case by simp
  qed simp
  from this [of "[d]" s] show ?thesis by (simp add: split_byte_def)
qed

lemma split_byte_not_Nil [simp]: "split_byte c s \<noteq> []"
  by (simp add: split_byte_def split_byte_aux_not_Nil)

lemma plain_key_first: "\<not> plain_key (''/'' @ t)"
  by (simp add: plain_key_def plain_names_def split_byte_Cons)

lemma plain_key_alone: "\<not> plain_key []" "\<not> plain_key ''.''" "\<not> plain_key ''..''"
  by (simp_all add: plain_key_def plain_names_def split_byte_def)

lemma not_plain_up: "\<not> plain_key (''../'' @ t)"
  by (simp add: plain_key_def plain_names_def split_byte_Cons)

lemma plain_key_relative:
  "plain_key k \<Longrightarrow> \<not> is_prefix ''/'' k \<and> k \<noteq> [] \<and> k \<noteq> ''.'' \<and> k \<noteq> ''..'' \<and> \<not> is_prefix ''../'' k"
  using plain_key_alone plain_key_first not_plain_up unfolding is_prefix_iff by metis

lemma plain_key_clean: "plain_key k \<Longrightarrow> path_clean k = k"
  using plain_key_relative [of k]
  by (auto simp: plain_key_def plain_names_def path_clean_def Let_def clean_elems_id split_byte_join)

lemma plain_key_normal:
  "plain_key k \<Longrightarrow> CHR 0x5C \<notin> set k \<Longrightarrow> normalizeS3ObjectKey k = Inr k"
proof -
  assume k: "plain_key k" "CHR 0x5C \<notin> set k"
  have "replace_byte (CHR 0x5C) (CHR ''/'') k = k"
    using k(2) by (auto simp: replace_byte_def intro!: map_idI)
  moreover have "trim_prefix ''/'' k = k"
    using plain_key_relative [OF k(1)] by (simp add: trim_prefix_def)
  ultimately show ?thesis
    using plain_key_clean [OF k(1)] plain_key_relative [OF k(1)]
    by (simp add: normalizeS3ObjectKey_def)
qed

lemma clean_elems_set:
  "set (clean_elems r acc xs) \<subseteq> set acc \<union> {x \<in> set xs. x \<noteq> [] \<and> x \<noteq> ''.''} \<union> {''..''}"
  by (induction r acc xs rule: clean_elems.induct) (auto split: list.splits)

lemma split_bytes_of: "x \<in> set (split_byte c s) \<Longrightarrow> set x \<subseteq> set s"
proof -
  have "x \<in> set (split_byte_aux c cur s) \<Longrightarrow> set x \<subseteq> set cur \<union> set s" for cur
    by (induction c cur s rule: split_byte_aux.induct) (auto split: if_splits)
  from this [of "[]"] show "x \<in> set (split_byte c s) \<Longrightarrow> set x \<subseteq> set s" by (simp add: split_byte_def)
qed

lemma set_join_with: "set (join_with [c] xs) \<subseteq> insert c (\<Union> (set ` set xs))"
  by (induction "[c]" xs rule: join_with.induct) auto

lemma plain_key_join: "plain_names xs \<Longrightarrow> plain_key (join_with ''/'' xs)"
  unfolding plain_key_def plain_names_def by (simp add: split_byte_of_join)

text \<open>What cleaning a relative path can give.\<close>

lemma path_clean_relative:
  assumes "\<not> is_prefix ''/'' p"
  shows "path_clean p = ''.'' \<or> path_clean p = ''..'' \<or> is_prefix ''../'' (path_clean p) \<or>
    (plain_key (path_clean p) \<and> set (path_clean p) \<subseteq> insert (CHR ''/'') (set p))"
proof -
  let ?xs = "clean_elems False [] (split_byte (CHR ''/'') p)"
  obtain bs n where shape: "?xs = replicate n ''..'' @ bs" "plain bs"
    using clean_elems_shape [of "[]" False "split_byte (CHR ''/'') p"] split_byte_no_sep
    by (auto simp: plain_def)
  have names: "x \<noteq> ''.'' \<and> set x \<subseteq> set p \<union> {CHR ''.''}" if "x \<in> set ?xs" for x
    using that clean_elems_set [of False "[]" "split_byte (CHR ''/'') p"] split_bytes_of by fastforce
  show ?thesis
  proof (cases n)
    case 0
    have "set x \<subseteq> set p" if "x \<in> set bs" for x
      using that shape clean_elems_set [of False "[]" "split_byte (CHR ''/'') p"] split_bytes_of 0
      by (fastforce simp: plain_def)
    then have "set (join_with ''/'' bs) \<subseteq> insert (CHR ''/'') (set p)"
      using set_join_with [of "CHR ''/''" bs] by blast
    moreover have "plain_key (join_with ''/'' bs)" if "bs \<noteq> []"
      using that shape names 0 by (intro plain_key_join) (auto simp: plain_names_def plain_def)
    ultimately show ?thesis using assms shape 0
      by (cases "bs = []") (auto simp: path_clean_def Let_def)
  next
    case (Suc m)
    with shape join_starts_up [of "replicate m ''..'' @ bs"] assms show ?thesis
      by (auto simp: path_clean_def Let_def is_prefix_iff)
  qed
qed

lemma replace_byte_gone: "c \<noteq> d \<Longrightarrow> c \<notin> set (replace_byte c d s)"
  by (auto simp: replace_byte_def)

text \<open>What a store accepts is a plain key, which it accepts again as it is.\<close>

lemma s3_key_plain:
  assumes "normalizeS3ObjectKey key = Inr k" "\<not> is_prefix ''//'' (replace_byte (CHR 0x5C) (CHR ''/'') key)"
  shows "plain_key k \<and> CHR 0x5C \<notin> set k"
proof -
  let ?r = "replace_byte (CHR 0x5C) (CHR ''/'') key"
  let ?p = "trim_prefix ''/'' ?r"
  have rel: "\<not> is_prefix ''/'' ?p"
    using assms(2) by (auto simp: trim_prefix_def is_prefix_iff)
  have k: "k = path_clean ?p" "k \<noteq> ''.''" "k \<noteq> ''..''" "\<not> is_prefix ''../'' k"
    using assms(1) by (auto simp: normalizeS3ObjectKey_def Let_def split: if_splits)
  have "CHR 0x5C \<notin> set ?r" by (rule replace_byte_gone) simp
  then have "CHR 0x5C \<notin> set ?p" by (auto simp: trim_prefix_def dest: in_set_dropD)
  with path_clean_relative [OF rel] k show ?thesis by auto
qed

lemma s3_prefix_plain:
  assumes "normalizeS3Prefix p0 = Inr p"
  shows "p = [] \<or> plain_key p \<and> CHR 0x5C \<notin> set p"
proof -
  let ?r = "replace_byte (CHR 0x5C) (CHR ''/'') p0"
  let ?p = "trim_slashes ?r"
  have "CHR 0x5C \<notin> set ?r" by (rule replace_byte_gone) simp
  then have nobs: "CHR 0x5C \<notin> set ?p"
    by (auto simp: trim_slashes_def trim_right_slash_def dest!: set_dropWhileD)
  have rel: "\<not> is_prefix ''/'' ?p"
  proof -
    have "dropWhile (\<lambda>c. c = x) s = [] \<or> hd (dropWhile (\<lambda>c. c = x) s) \<noteq> x" for x :: char and s
      by (induction s) auto
    moreover have "\<exists>t. s = trim_right_slash s @ t" for s
      unfolding trim_right_slash_def
      by (metis rev_append rev_rev_ident takeWhile_dropWhile_id)
    ultimately show ?thesis
      unfolding trim_slashes_def is_prefix_iff by (metis append_Cons hd_append2 list.discI list.sel(1))
  qed
  show ?thesis
    using assms path_clean_relative [OF rel] nobs
    by (auto simp: normalizeS3Prefix_def Let_def split: if_splits)
qed

lemma split_byte_append:
  "CHR ''/'' \<notin> set a \<Longrightarrow> split_byte (CHR ''/'') (a @ ''/'' @ b) = a # split_byte (CHR ''/'') b"
  by (induction a) (auto simp: split_byte_Cons)

lemma plain_key_append: "plain_key a \<Longrightarrow> plain_key b \<Longrightarrow> plain_key (a @ ''/'' @ b)"
proof -
  assume "plain_key a" "plain_key b"
  then have "plain_names (split_byte (CHR ''/'') a @ split_byte (CHR ''/'') b)"
    by (auto simp: plain_key_def plain_names_def)
  moreover have "join_with ''/'' (xs @ ys) = join_with ''/'' xs @ ''/'' @ join_with ''/'' ys"
    if "xs \<noteq> []" "ys \<noteq> []" for xs ys
    using that by (induction "''/''" xs rule: join_with.induct) (auto simp: neq_Nil_conv)
  ultimately show ?thesis
    using plain_key_join by (metis split_byte_join split_byte_not_Nil)
qed

lemma written_key_plain:
  assumes "objectKeyForWrite p key = Inr k" "\<not> is_prefix ''//'' (replace_byte (CHR 0x5C) (CHR ''/'') key)"
    "p = [] \<or> plain_key p \<and> CHR 0x5C \<notin> set p"
  shows "normalizeS3ObjectKey k = Inr k"
proof -
  obtain c where c: "normalizeS3ObjectKey key = Inr c" "k = (if p = [] then c else p @ ''/'' @ c)"
    using assms(1) by (auto simp: objectKeyForWrite_def)
  from s3_key_plain [OF c(1) assms(2)] c(2) assms(3) show ?thesis
    by (intro plain_key_normal) (auto simp: plain_key_append [simplified])
qed

text \<open>The last name of a key stays the last name of the path it is cleaned to.\<close>

definition plain_name :: "string \<Rightarrow> bool" where
  "plain_name n \<longleftrightarrow> n \<noteq> [] \<and> n \<noteq> ''.'' \<and> n \<noteq> ''..'' \<and> CHR ''/'' \<notin> set n \<and> CHR 0x5C \<notin> set n"

definition named :: "string \<Rightarrow> string \<Rightarrow> bool" where
  "named n q \<longleftrightarrow> (\<exists>d. q = d @ n \<and> (d = [] \<or> last d = CHR ''/''))"

lemma namedI: "named n (d @ ''/'' @ n)"
  unfolding named_def by (intro exI [of _ "d @ ''/''"]) simp

lemma named_self [simp]: "named n n"
  by (simp add: named_def)

lemma named_ext: "named n q \<Longrightarrow> named n (d @ ''/'' @ q)"
  unfolding named_def by (elim exE conjE, rule_tac x = "d @ ''/'' @ da" in exI) auto

lemma clean_elems_last:
  "plain_name n \<Longrightarrow> clean_elems r acc (xs @ [n]) = clean_elems r acc xs @ [n]"
  by (induction r acc xs rule: clean_elems.induct) (auto simp: plain_name_def split: list.splits)

lemma split_byte_snoc: "CHR ''/'' \<notin> set n \<Longrightarrow> \<exists>xs. split_byte (CHR ''/'') (d @ ''/'' @ n) = xs @ [n]"
proof (induction d)
  case Nil
  have "split_byte (CHR ''/'') n = [n]" if "CHR ''/'' \<notin> set n" for n
    using that by (induction n) (auto simp: split_byte_Cons, simp add: split_byte_def)
  with Nil show ?case by (auto simp: split_byte_Cons)
next
  case (Cons c d)
  then obtain xs where xs: "split_byte (CHR ''/'') (d @ ''/'' @ n) = xs @ [n]" by blast
  have "xs \<noteq> []"
  proof
    assume "xs = []"
    then have "d @ ''/'' @ n = n" using xs split_byte_join [of "CHR ''/''" "d @ ''/'' @ n"] by simp
    then show False by simp
  qed
  with xs show ?case by (auto simp: split_byte_Cons intro: exI [of _ "[] # xs"] exI [of _ "(c # hd xs) # tl xs"])
qed

lemma join_with_snoc: "\<exists>d. join_with ''/'' (xs @ [n]) = d @ n \<and> (d = [] \<or> last d = CHR ''/'')"
proof (cases "xs = []")
  case False
  have "join_with ''/'' (xs @ [n]) = join_with ''/'' xs @ ''/'' @ n"
    using False by (induction "''/''" xs rule: join_with.induct) auto
  then show ?thesis by (intro exI [of _ "join_with ''/'' xs @ ''/''"]) simp
qed simp

lemma path_clean_named: "plain_name n \<Longrightarrow> named n p \<Longrightarrow> named n (path_clean p)"
proof -
  assume n: "plain_name n" and p: "named n p"
  have "\<exists>xs. split_byte (CHR ''/'') p = xs @ [n]"
  proof -
    from p obtain d where d: "p = d @ n" "d = [] \<or> last d = CHR ''/''" by (auto simp: named_def)
    show ?thesis
    proof (cases "d = []")
      case True
      have "split_byte (CHR ''/'') n = [n]" if "CHR ''/'' \<notin> set n" for n
        using that by (induction n) (auto simp: split_byte_Cons, simp add: split_byte_def)
      with True d n show ?thesis by (auto simp: plain_name_def)
    next
      case False
      with d have "p = butlast d @ ''/'' @ n" by (metis append.assoc append_butlast_last_id)
      with split_byte_snoc n show ?thesis by (auto simp: plain_name_def)
    qed
  qed
  then obtain xs where "split_byte (CHR ''/'') p = xs @ [n]" ..
  with n have el: "clean_elems r [] (split_byte (CHR ''/'') p) = clean_elems r [] xs @ [n]" for r
    by (simp add: clean_elems_last)
  obtain d where d: "join_with ''/'' (clean_elems r [] (split_byte (CHR ''/'') p)) = d @ n"
    "d = [] \<or> last d = CHR ''/''" if "r = is_prefix ''/'' p" for r
    using el join_with_snoc by metis
  have "n \<noteq> []" using n by (simp add: plain_name_def)
  with d show ?thesis
    unfolding path_clean_def Let_def named_def by (cases "is_prefix ''/'' p") fastforce+
qed

section \<open>What the code generator relies on\<close>

text \<open>
  The contract of \<open>Store\<close>: a successful call has stored exactly the data its reference
  describes, under the place of its key, and no call touches any other place.
\<close>

definition describes :: "(string \<Rightarrow> string) \<Rightarrow> codegen_artifact_ref \<Rightarrow> string \<Rightarrow> string \<Rightarrow> bool" where
  "describes sha ref data contentType \<longleftrightarrow> cg_SHA256 ref = sha data \<and> cg_Size ref = int (length data) \<and>
     cg_ContentType ref = contentType"

locale artifact_store =
  fixes put_bytes put_file :: "put_faults \<Rightarrow> string \<Rightarrow> string \<Rightarrow> string \<Rightarrow> storage \<Rightarrow>
      (string + codegen_artifact_ref) \<times> storage"
    and stored_at file_at :: "string \<Rightarrow> string option"
    and place :: "string \<Rightarrow> string"
    and peek :: "storage \<Rightarrow> string \<Rightarrow> string option"
    and sha :: "string \<Rightarrow> string"
  assumes bytes_stored: "put_bytes f key data ct st = (Inr ref, st') \<Longrightarrow>
      stored_at key = Some (place (cg_Key ref)) \<and> peek st' (place (cg_Key ref)) = Some data \<and>
      describes sha ref data ct"
    and file_stored: "put_file f key src ct st = (Inr ref, st') \<Longrightarrow>
      \<exists>data. sg_files st' src = Some data \<and> stored_at key = Some (place (cg_Key ref)) \<and>
        peek st' (place (cg_Key ref)) = Some data \<and> describes sha ref data ct"
    and bytes_elsewhere: "put_bytes f key data ct st = (r, st') \<Longrightarrow> (stored_at key \<noteq> Some q \<longrightarrow> peek st' q = peek st q) \<and>
      (file_at key \<noteq> Some q \<longrightarrow> sg_files st' q = sg_files st q)"
    and file_elsewhere: "put_file f key src ct st = (r, st') \<Longrightarrow> (stored_at key \<noteq> Some q \<longrightarrow> peek st' q = peek st q) \<and>
      (file_at key \<noteq> Some q \<longrightarrow> sg_files st' q = sg_files st q)"
    and peek_same: "stored_at key = Some q \<Longrightarrow> sg_bucket st' = sg_bucket st \<Longrightarrow>
      (\<And>p. file_at key = Some p \<Longrightarrow> sg_files st' p = sg_files st p) \<Longrightarrow> peek st' q = peek st q"
    and name_kept: "stored_at (d @ ''/'' @ n) = Some q \<Longrightarrow> plain_name n \<Longrightarrow> named n q"
    and bytes_accepted: "stored_at key = Some q \<Longrightarrow> \<exists>ref st'. put_bytes no_faults key data ct st = (Inr ref, st')"
    and file_accepted: "stored_at key = Some q \<Longrightarrow> sg_files st src \<noteq> None \<Longrightarrow>
      \<exists>ref st'. put_file no_faults key src ct st = (Inr ref, st')"
begin

lemma file_of_others: "put_file f key src ct st = (Inr ref, st') \<Longrightarrow> file_at key \<noteq> Some src \<Longrightarrow>
    \<exists>data. sg_files st src = Some data \<and> peek st' (place (cg_Key ref)) = Some data \<and> describes sha ref data ct"
  using file_stored file_elsewhere by fastforce

lemma rejected_key: "stored_at key = None \<Longrightarrow> \<exists>err. fst (put_bytes f key data ct st) = Inl err"
  using bytes_stored by (metis Inr_Inl_False obj_sumE option.distinct(1) prod.collapse sumE)

end

definition ok_part :: "'e + 'a \<Rightarrow> 'a option" where
  "ok_part r = (case r of Inl _ \<Rightarrow> None | Inr x \<Rightarrow> Some x)"

lemma ok_part_Some [simp]: "ok_part r = Some x \<longleftrightarrow> r = Inr x"
  by (simp add: ok_part_def split: sum.splits)

lemma objectPath_Inr:
  "objectPath s key = Inr p \<Longrightarrow> p = file_join [fs_RootDir s, normalizeObjectKey key]"
  by (simp add: objectPath_def Let_def split: if_splits)

lemma trim_prefix_named: "CHR ''/'' \<notin> set n \<Longrightarrow> named n (trim_prefix ''/'' (d @ ''/'' @ n))"
  by (cases d) (auto simp: trim_prefix_def named_def is_prefix_iff intro: exI [of _ "_ @ ''/''"])

lemma objectPath_named:
  "plain_name n \<Longrightarrow> named n (file_join [fs_RootDir s, normalizeObjectKey (d @ ''/'' @ n)])"
proof -
  assume n: "plain_name n"
  then have 1: "named n (normalizeObjectKey (d @ ''/'' @ n))"
    unfolding normalizeObjectKey_def by (intro path_clean_named trim_prefix_named) (simp_all add: plain_name_def)
  then have "normalizeObjectKey (d @ ''/'' @ n) \<noteq> []" using n by (auto simp: named_def plain_name_def)
  with 1 n show ?thesis
    by (cases "fs_RootDir s = []") (auto simp: file_join_def path_clean_named named_ext [simplified])
qed

lemma written_named:
  "objectKeyForWrite p (d @ ''/'' @ n) = Inr k \<Longrightarrow> plain_name n \<Longrightarrow> named n k"
proof -
  assume k: "objectKeyForWrite p (d @ ''/'' @ n) = Inr k" and n: "plain_name n"
  have "replace_byte (CHR 0x5C) (CHR ''/'') (d @ ''/'' @ n) = replace_byte (CHR 0x5C) (CHR ''/'') d @ ''/'' @ n"
    using n by (auto simp: replace_byte_def plain_name_def intro!: map_idI)
  with k n have "\<exists>c. named n c \<and> k = (if p = [] then c else p @ ''/'' @ c)"
    using path_clean_named [OF n trim_prefix_named [of n "replace_byte (CHR 0x5C) (CHR ''/'') d"]]
    by (auto simp: objectKeyForWrite_def normalizeS3ObjectKey_def Let_def plain_name_def split: if_splits)
  then show ?thesis using named_ext by auto
qed

interpretation directory: artifact_store "fs_PutBytes sha s" "fs_PutFile sha s" "\<lambda>key. ok_part (objectPath s key)"
  "\<lambda>key. ok_part (objectPath s key)" "\<lambda>key. file_join [fs_RootDir s, key]" sg_files sha
proof unfold_locales
  show "fs_PutBytes sha s f key data ct st = (Inr ref, st') \<Longrightarrow>
      ok_part (objectPath s key) = Some (file_join [fs_RootDir s, cg_Key ref]) \<and>
      sg_files st' (file_join [fs_RootDir s, cg_Key ref]) = Some data \<and> describes sha ref data ct" for f key data ct st ref st'
    using objectPath_Inr [of s key]
    by (auto simp: fs_PutBytes_def describes_def split: sum.splits option.splits)
  show "fs_PutFile sha s f key src ct st = (Inr ref, st') \<Longrightarrow>
      \<exists>data. sg_files st' src = Some data \<and> ok_part (objectPath s key) = Some (file_join [fs_RootDir s, cg_Key ref]) \<and>
      sg_files st' (file_join [fs_RootDir s, cg_Key ref]) = Some data \<and> describes sha ref data ct" for f key src ct st ref st'
    using objectPath_Inr [of s key]
    by (auto simp: fs_PutFile_def describes_def open_file_def Let_def split: sum.splits option.splits)
  show "fs_PutBytes sha s f key data ct st = (r, st') \<Longrightarrow> (ok_part (objectPath s key) \<noteq> Some q \<longrightarrow>
      sg_files st' q = sg_files st q) \<and> (ok_part (objectPath s key) \<noteq> Some q \<longrightarrow> sg_files st' q = sg_files st q)" for f key data ct st r st' q
    by (auto simp: fs_PutBytes_def split: sum.splits option.splits)
  show "fs_PutFile sha s f key src ct st = (r, st') \<Longrightarrow> (ok_part (objectPath s key) \<noteq> Some q \<longrightarrow>
      sg_files st' q = sg_files st q) \<and> (ok_part (objectPath s key) \<noteq> Some q \<longrightarrow> sg_files st' q = sg_files st q)" for f key src ct st r st' q
    by (auto simp: fs_PutFile_def Let_def split: sum.splits option.splits)
  show "ok_part (objectPath s key) = Some q \<Longrightarrow> sg_bucket st' = sg_bucket st \<Longrightarrow>
      (\<And>p. ok_part (objectPath s key) = Some p \<Longrightarrow> sg_files st' p = sg_files st p) \<Longrightarrow>
      sg_files st' q = sg_files st q" for key q st st'
    by simp
  show "ok_part (objectPath s (d @ ''/'' @ n)) = Some q \<Longrightarrow> plain_name n \<Longrightarrow> named n q" for d n q
    unfolding ok_part_Some by (metis objectPath_Inr objectPath_named)
  show "ok_part (objectPath s key) = Some q \<Longrightarrow>
      \<exists>ref st'. fs_PutBytes sha s no_faults key data ct st = (Inr ref, st')" for key q data ct st
    by (simp add: fs_PutBytes_def no_faults_def)
  show "ok_part (objectPath s key) = Some q \<Longrightarrow> sg_files st src \<noteq> None \<Longrightarrow>
      \<exists>ref st'. fs_PutFile sha s no_faults key src ct st = (Inr ref, st')" for key q st src ct
    by (auto simp: fs_PutFile_def no_faults_def open_file_def Let_def)
qed

lemma put_object_cases:
  "put_object f k data ct st = (r, st') \<Longrightarrow>
   sg_files st' = sg_files st \<and> (\<forall>q. q \<noteq> k \<longrightarrow> sg_bucket st' q = sg_bucket st q) \<and>
   (r = Inr () \<longrightarrow> sg_bucket st' k = Some (data, ct))"
  by (auto simp: put_object_def Let_def split: option.splits if_splits)

interpretation bucket: artifact_store "s3_PutBytes sha s" "s3_PutFile sha s"
  "\<lambda>key. ok_part (objectKeyForWrite (st_Prefix s) key)" "\<lambda>key. None" "\<lambda>key. key" "\<lambda>st q. map_option fst (sg_bucket st q)" sha
proof unfold_locales
  show "s3_PutBytes sha s f key data ct st = (Inr ref, st') \<Longrightarrow>
      ok_part (objectKeyForWrite (st_Prefix s) key) = Some (cg_Key ref) \<and>
      map_option fst (sg_bucket st' (cg_Key ref)) = Some data \<and> describes sha ref data ct" for f key data ct st ref st'
    by (auto simp: s3_PutBytes_def describes_def split: sum.splits prod.splits dest: put_object_cases)
  show "s3_PutFile sha s f key src ct st = (Inr ref, st') \<Longrightarrow>
      \<exists>data. sg_files st' src = Some data \<and> ok_part (objectKeyForWrite (st_Prefix s) key) = Some (cg_Key ref) \<and>
      map_option fst (sg_bucket st' (cg_Key ref)) = Some data \<and> describes sha ref data ct" for f key src ct st ref st'
    by (auto simp: s3_PutFile_def hash_file_def open_file_def describes_def Let_def
        split: sum.splits prod.splits option.splits if_splits dest!: put_object_cases)
  show "s3_PutBytes sha s f key data ct st = (r, st') \<Longrightarrow> (ok_part (objectKeyForWrite (st_Prefix s) key) \<noteq> Some q \<longrightarrow>
      map_option fst (sg_bucket st' q) = map_option fst (sg_bucket st q)) \<and> (None \<noteq> Some q \<longrightarrow> sg_files st' q = sg_files st q)"
    for f key data ct st r st' q
    by (auto simp: s3_PutBytes_def split: sum.splits prod.splits dest!: put_object_cases)
  show "s3_PutFile sha s f key src ct st = (r, st') \<Longrightarrow> (ok_part (objectKeyForWrite (st_Prefix s) key) \<noteq> Some q \<longrightarrow>
      map_option fst (sg_bucket st' q) = map_option fst (sg_bucket st q)) \<and> (None \<noteq> Some q \<longrightarrow> sg_files st' q = sg_files st q)"
    for f key src ct st r st' q
    by (auto simp: s3_PutFile_def split: sum.splits prod.splits dest!: put_object_cases)
  show "ok_part (objectKeyForWrite (st_Prefix s) key) = Some q \<Longrightarrow> sg_bucket st' = sg_bucket st \<Longrightarrow>
      (\<And>p. None = Some p \<Longrightarrow> sg_files st' p = sg_files st p) \<Longrightarrow>
      map_option fst (sg_bucket st' q) = map_option fst (sg_bucket st q)" for key q st st'
    by simp
  show "ok_part (objectKeyForWrite (st_Prefix s) (d @ ''/'' @ n)) = Some q \<Longrightarrow> plain_name n \<Longrightarrow> named n q" for d n q
    using written_named [of "st_Prefix s" d n q] by simp
  show "ok_part (objectKeyForWrite (st_Prefix s) key) = Some q \<Longrightarrow>
      \<exists>ref st'. s3_PutBytes sha s no_faults key data ct st = (Inr ref, st')" for key q data ct st
    by (simp add: s3_PutBytes_def no_faults_def put_object_def Let_def)
  show "ok_part (objectKeyForWrite (st_Prefix s) key) = Some q \<Longrightarrow> sg_files st src \<noteq> None \<Longrightarrow>
      \<exists>ref st'. s3_PutFile sha s no_faults key src ct st = (Inr ref, st')" for key q st src ct
    by (auto simp: s3_PutFile_def no_faults_def put_object_def hash_file_def open_file_def Let_def)
qed

text \<open>The dispatcher reads what its own \<open>PutFile\<close> stores as the code generator does.\<close>

lemma dispatcher_put_is_put:
  "fst (dispatcher_PutFile sha s f key src ct st) =
   (case fst (s3_PutFile sha s f key src (if ct = [] then ''application/octet-stream'' else ct) st) of
      Inl err \<Rightarrow> Inl err
    | Inr ref \<Rightarrow> Inr \<lparr>ar_Key = cg_Key ref, ar_Sha256 = cg_SHA256 ref, ar_Size = cg_Size ref,
        ar_ContentType = cg_ContentType ref\<rparr>) \<and>
   snd (dispatcher_PutFile sha s f key src ct st) =
   snd (s3_PutFile sha s f key src (if ct = [] then ''application/octet-stream'' else ct) st)"
  by (simp add: dispatcher_PutFile_def s3_PutFile_def Let_def split: sum.splits prod.splits)

end
