(* ===== verification/Codegen_Build.thy ===== *)
theory Codegen_Build
  imports Codegen_Store Dsl_Parse_Correct Dsl_Validate_Correct
begin

text \<open>
  From a model text to a program and a binary: the steps of codegen/generator/generator.go and
  of codegen/builder/builder.go. The emitter, SHA-256 and \<open>go build\<close> are arguments. A run of
  \<open>go build\<close> sees the local files and gives its output, its error, whether its time was over,
  and the file it wrote.
\<close>

section \<open>The generator (generator.go)\<close>

record gen_result =
  gr_Hash :: string
  gr_Source :: string

text \<open>A generation ends with an error or with a run-time panic.\<close>

datatype gen_fail = GenErr string | GenPanic

fun parse_failed :: "parse_fail \<Rightarrow> gen_fail" where
  "parse_failed (ParseErr e) = GenErr (parse_error_text e)"
| "parse_failed MakePanic = GenPanic"

fun model_failed :: "model_fail \<Rightarrow> gen_fail" where
  "model_failed (ModelErr e m) = GenErr (model_error_text e m)"
| "model_failed NilPanic = GenPanic"

definition map_err :: "('e \<Rightarrow> 'f) \<Rightarrow> 'e + 'a \<Rightarrow> 'f + 'a" where
  "map_err f r = (case r of Inl e \<Rightarrow> Inl (f e) | Inr x \<Rightarrow> Inr x)"

lemma map_err_Inr [simp]: "map_err f r = Inr x \<longleftrightarrow> r = Inr x"
  by (simp add: map_err_def split: sum.splits)

lemma map_err_simps [simp]: "map_err f (Inr x) = Inr x" "map_err f (Inl e) = Inl (f e)"
  by (simp_all add: map_err_def)

definition Generate :: "(dsl_model \<Rightarrow> string + string) \<Rightarrow> string \<Rightarrow> gen_fail + gen_result" where
  "Generate emit data =
     bindE (map_err parse_failed (Parse data)) (\<lambda>model.
     bindE (map_err model_failed (ValidateAndLink (Some model))) (\<lambda>linked.
     bindE (map_err GenErr (emit linked)) (\<lambda>source.
     Inr \<lparr>gr_Hash = m_Hash linked, gr_Source = source\<rparr>)))"

definition appendHashLine :: "string \<Rightarrow> string \<Rightarrow> string" where
  "appendHashLine hash data = hash @ [CHR 0x0A] @ data"

definition GenerateWithHash :: "(dsl_model \<Rightarrow> string + string) \<Rightarrow> string \<Rightarrow> string \<Rightarrow> gen_fail + gen_result" where
  "GenerateWithHash emit hash data =
     (if length hash \<noteq> 64
      then Inl (GenErr (msg [''incorrect model hash: expected 64 hex characters, got '', decimal (length hash)]))
      else if \<not> isHexText hash
      then Inl (GenErr ''incorrect model hash: expected hexadecimal SHA-256 hash'')
      else Generate emit (appendHashLine hash data))"

definition HashDSL :: "(string \<Rightarrow> string) \<Rightarrow> string \<Rightarrow> string" where
  "HashDSL sha data = sha data"

definition GenerateAutoHash ::
  "(string \<Rightarrow> string) \<Rightarrow> (dsl_model \<Rightarrow> string + string) \<Rightarrow> string \<Rightarrow> gen_fail + gen_result" where
  "GenerateAutoHash sha emit data = GenerateWithHash emit (HashDSL sha data) data"

section \<open>The builder (builder.go)\<close>

definition CodegenModulePath :: string where
  "CodegenModulePath = ''github.com/gulyaev-iv/go-cloud-des/codegen''"

record build_request =
  br_Source :: string
  br_OutputPath :: string
  br_GOOS :: string
  br_GOARCH :: string
  br_ModuleDir :: string
  br_WorkDirRoot :: string
  br_Timeout :: duration
  br_KeepWorkDir :: bool

record build_result =
  bu_WorkDir :: string
  bu_GoModPath :: string
  bu_SourcePath :: string
  bu_BinaryPath :: string
  bu_BuildLog :: string

record go_run =
  go_Log :: string
  go_Err :: "string option"
  go_Deadline :: bool
  go_Output :: "string option"

text \<open>
  \<open>be_Go\<close> gets the files, the work directory, the output path, GOOS, GOARCH and the timeout (if
  any); \<open>be_MkdirTemp\<close> the directory and the pattern, \<open>be_RemoveErr\<close> says whether removing a
  directory at the end fails, which is not noticed.
\<close>

record build_env =
  be_GOOS :: string
  be_GOARCH :: string
  be_Abs :: "string \<Rightarrow> string + string"
  be_ReadErr :: "string option"
  be_MkdirErr :: "string \<Rightarrow> string option"
  be_MkdirTemp :: "string \<Rightarrow> string \<Rightarrow> string + string"
  be_WriteMod :: "(string \<times> string option) option"
  be_WriteSource :: "(string \<times> string option) option"
  be_Go :: "(string \<rightharpoonup> string) \<Rightarrow> string \<Rightarrow> string \<Rightarrow> string \<Rightarrow> string \<Rightarrow> duration option \<Rightarrow> go_run"
  be_RemoveErr :: bool

text \<open>\<open>strings.Contains\<close> and \<open>filepath.Dir\<close>.\<close>

fun contains_str :: "string \<Rightarrow> string \<Rightarrow> bool" where
  "contains_str s [] \<longleftrightarrow> s = []"
| "contains_str s (c # t) \<longleftrightarrow> is_prefix s (c # t) \<or> contains_str s t"

definition file_dir :: "string \<Rightarrow> string" where
  "file_dir p = path_clean (rev (dropWhile (\<lambda>c. c \<noteq> CHR ''/'') (rev p)))"

definition ValidateCodegenModuleDir :: "build_env \<Rightarrow> string \<Rightarrow> storage \<Rightarrow> string + unit" where
  "ValidateCodegenModuleDir env moduleDir st =
     (case (be_ReadErr env, sg_files st (file_join [moduleDir, ''go.mod''])) of
        (Some err, _) \<Rightarrow> Inl (msg [''invalid module dir: '', err])
      | (None, None) \<Rightarrow> Inl (msg [''invalid module dir: open '', file_join [moduleDir, ''go.mod''],
                             '': no such file or directory''])
      | (None, Some data) \<Rightarrow>
          let expected = ''module '' @ CodegenModulePath in
          if contains_str expected data then Inr ()
          else Inl (msg [''invalid module dir '', quoted moduleDir, '': go.mod must contain '', quoted expected]))"

definition makeWorkDir :: "build_env \<Rightarrow> string \<Rightarrow> string + string" where
  "makeWorkDir env rootDir =
     (if rootDir = [] then be_MkdirTemp env [] ''cloud-des-codegen-build-*''
      else bindE (failing (be_MkdirErr env rootDir)) (\<lambda>_. be_MkdirTemp env rootDir ''build-*''))"

text \<open>\<open>os.WriteFile\<close>: the error and what the file holds then, or success.\<close>

definition write_file ::
  "(string \<times> string option) option \<Rightarrow> string \<Rightarrow> string \<Rightarrow> storage \<Rightarrow> string option \<times> storage" where
  "write_file fault p data st =
     (case fault of
        None \<Rightarrow> (None, st\<lparr>sg_files := (sg_files st)(p \<mapsto> data)\<rparr>)
      | Some (err, None) \<Rightarrow> (Some err, st)
      | Some (err, Some rest) \<Rightarrow> (Some err, st\<lparr>sg_files := (sg_files st)(p \<mapsto> rest)\<rparr>))"

definition go_mod_text :: "string \<Rightarrow> string" where
  "go_mod_text moduleDir =
     ''module cloud-des-generated-model'' @ [CHR 0x0A, CHR 0x0A] @ ''go 1.26.2'' @ [CHR 0x0A, CHR 0x0A] @
     ''require '' @ CodegenModulePath @ '' v0.0.0'' @ [CHR 0x0A, CHR 0x0A] @
     ''replace '' @ CodegenModulePath @ '' => '' @ moduleDir @ [CHR 0x0A]"

definition writeBuildWorkDir ::
  "build_env \<Rightarrow> build_result \<Rightarrow> string \<Rightarrow> string \<Rightarrow> storage \<Rightarrow> string option \<times> storage" where
  "writeBuildWorkDir env result moduleDir source st =
     (case write_file (be_WriteMod env) (bu_GoModPath result) (go_mod_text moduleDir) st of
        (Some err, st) \<Rightarrow> (Some err, st)
      | (None, st) \<Rightarrow> write_file (be_WriteSource env) (bu_SourcePath result) source st)"

definition ensureParentDir :: "build_env \<Rightarrow> string \<Rightarrow> string option" where
  "ensureParentDir env p =
     (let dir = file_dir p in if dir = ''.'' \<or> dir = [] then None else be_MkdirErr env dir)"

definition runGoBuild ::
  "build_env \<Rightarrow> string \<Rightarrow> string \<Rightarrow> string \<Rightarrow> string \<Rightarrow> duration \<Rightarrow> storage \<Rightarrow>
   (string \<times> string option) \<times> storage" where
  "runGoBuild env workDir outputPath goos goarch timeout st =
     (let run = be_Go env (sg_files st) workDir outputPath goos goarch (if timeout > 0 then Some timeout else None);
          st = (case go_Output run of None \<Rightarrow> st
                | Some binary \<Rightarrow> st\<lparr>sg_files := (sg_files st)(outputPath \<mapsto> binary)\<rparr>);
          buildLog = go_Log run
      in if go_Deadline run then ((buildLog, Some ''go build timeout''), st)
         else case go_Err run of
                None \<Rightarrow> ((buildLog, None), st)
              | Some err \<Rightarrow>
                  (let m = trim_space buildLog in
                   if m = [] then ((buildLog, Some err), st)
                   else ((buildLog, Some (msg [err, '': '', m])), st)))"

definition remove_all :: "string \<Rightarrow> storage \<Rightarrow> storage" where
  "remove_all dir st =
     st\<lparr>sg_files := (\<lambda>p. if p = dir \<or> is_prefix (dir @ ''/'') p then None else sg_files st p)\<rparr>"

text \<open>The work between making the work directory and removing it.\<close>

definition build_in ::
  "build_env \<Rightarrow> build_request \<Rightarrow> string \<Rightarrow> string \<Rightarrow> storage \<Rightarrow> (build_result \<times> string option) \<times> storage" where
  "build_in env req absModuleDir workDir st =
     (let result = \<lparr>bu_WorkDir = workDir, bu_GoModPath = file_join [workDir, ''go.mod''],
            bu_SourcePath = file_join [workDir, ''main.go''], bu_BinaryPath = br_OutputPath req, bu_BuildLog = []\<rparr>
      in case writeBuildWorkDir env result absModuleDir (br_Source req) st of
           (Some err, st) \<Rightarrow> ((result, Some err), st)
         | (None, st) \<Rightarrow>
             (case ensureParentDir env (br_OutputPath req) of
                Some err \<Rightarrow> ((result, Some err), st)
              | None \<Rightarrow>
                  (case be_Abs env (br_OutputPath req) of
                     Inl err \<Rightarrow> ((result, Some err), st)
                   | Inr absOutputPath \<Rightarrow>
                       (case runGoBuild env workDir absOutputPath (br_GOOS req) (br_GOARCH req) (br_Timeout req) st of
                          ((buildLog, err), st) \<Rightarrow>
                            ((result\<lparr>bu_BinaryPath := absOutputPath, bu_BuildLog := buildLog\<rparr>, err), st)))))"

text \<open>\<open>Build\<close> gives a result and an error, either of which may be nil.\<close>

definition Build ::
  "build_env \<Rightarrow> build_request \<Rightarrow> storage \<Rightarrow> (build_result option \<times> string option) \<times> storage" where
  "Build env req0 st =
     (if br_Source req0 = [] then ((None, Some ''empty source''), st)
      else if br_OutputPath req0 = [] then ((None, Some ''empty output path''), st)
      else
        (let req = req0\<lparr>br_GOOS := if br_GOOS req0 = [] then be_GOOS env else br_GOOS req0,
               br_GOARCH := if br_GOARCH req0 = [] then be_GOARCH env else br_GOARCH req0,
               br_ModuleDir := if br_ModuleDir req0 = [] then ''.'' else br_ModuleDir req0\<rparr>
         in case bindE (be_Abs env (br_ModuleDir req)) (\<lambda>absModuleDir.
                 bindE (ValidateCodegenModuleDir env absModuleDir st) (\<lambda>_.
                 bindE (makeWorkDir env (br_WorkDirRoot req)) (\<lambda>workDir.
                 Inr (absModuleDir, workDir)))) of
              Inl err \<Rightarrow> ((None, Some err), st)
            | Inr (absModuleDir, workDir) \<Rightarrow>
                (case build_in env req absModuleDir workDir st of
                   ((result, err), st) \<Rightarrow>
                     ((Some result, err),
                      if br_KeepWorkDir req \<or> be_RemoveErr env then st else remove_all workDir st))))"

section \<open>The hash survives\<close>

lemma hex_no_space: "is_hex_digit c \<Longrightarrow> is_word_byte c \<and> \<not> isSpace c \<and> c \<noteq> CHR 0x0A \<and> c \<noteq> CHR 0x0D"
  by (auto simp: is_hex_digit_def is_digit_def is_word_byte_def isSpace_def)

lemma index_byte_after: "c \<notin> set a \<Longrightarrow> index_byte c (a @ c # b) = Some (length a)"
  by (induction a) auto

lemma space_not_hex: "\<forall>e \<in> set space_encodings. \<forall>c \<in> set e. \<not> is_hex_digit c"
  by code_simp

lemma hex_tidy: "\<forall>c \<in> set s. is_hex_digit c \<Longrightarrow> tidy s"
proof -
  assume hex: "\<forall>c \<in> set s. is_hex_digit c"
  have no: "\<not> is_prefix e t" if "e \<in> set space_encodings \<or> rev e \<in> set space_encodings" "set t \<subseteq> set s" for e t
  proof
    assume "is_prefix e t"
    then have "set e \<subseteq> set s" using that(2) by (auto simp: is_prefix_iff)
    moreover have "\<exists>c \<in> set e. \<not> is_hex_digit c"
      using that(1) space_not_hex space_encodings_not_Nil by (metis rev_is_Nil_conv set_rev last_in_set)
    ultimately show False using hex by blast
  qed
  show ?thesis
    using no [of _ s] no [of _ "rev s"] unfolding tidy_def space_at_0 space_at_rev_0 by fastforce
qed

lemma scan_hash_line:
  assumes "isHexText hash"
  shows "ScanNoEmpty (NewLineScanner (appendHashLine hash data)) =
    (True, \<lparr>sc_data = data, sc_line = hash, sc_lineNum = 1\<rparr>)"
proof -
  have hex: "\<forall>c \<in> set hash. is_hex_digit c" "hash \<noteq> []"
    using assms by (auto simp: isHexText_def list_all_iff)
  then have nl: "CHR 0x0A \<notin> set hash" "last hash \<noteq> CHR 0x0D"
    using hex_no_space last_in_set by blast+
  have "trim_space hash \<noteq> []" using hex trim_tidy [OF hex_tidy] by simp
  moreover have "Scan (NewLineScanner (appendHashLine hash data)) =
      (True, \<lparr>sc_data = data, sc_line = hash, sc_lineNum = 1\<rparr>)"
    using nl hex by (simp add: Scan_def NewLineScanner_def appendHashLine_def index_byte_after Let_def)
  ultimately show ?thesis by (subst ScanNoEmpty.simps) simp
qed

lemma parse_hash_line:
  assumes "isHexText hash" "length hash = 64"
  shows "\<exists>s. over (line_count (appendHashLine hash data)) s \<and>
    parseHash NewModel (NewLineScanner (appendHashLine hash data)) = Inr (NewModel\<lparr>m_Hash := hash\<rparr>, s)"
proof -
  have hex: "\<forall>c \<in> set hash. is_hex_digit c" "hash \<noteq> []"
    using assms by (auto simp: isHexText_def list_all_iff)
  have trim: "trimLeftSpaces hash = hash"
    using hex hex_no_space by (cases hash) (auto simp: trimLeftSpaces_def)
  have all: "takeWhile is_word_byte hash = hash" "dropWhile is_word_byte hash = []"
    using hex hex_no_space by (auto simp: takeWhile_eq_all_conv)
  have "\<exists>s. parseHash NewModel (NewLineScanner (appendHashLine hash data)) = Inr (NewModel\<lparr>m_Hash := hash\<rparr>, s)"
    using assms hex(2)
    by (simp add: parseHash_def scan_hash_line Let_def Word_def trim all token_text_def trimLeftSpaces_def [of "[]"])
  with parseHash_ok [OF over_new, of "appendHashLine hash data"] show ?thesis by (auto simp: ends_def)
qed

lemma Parse_keeps_hash:
  assumes "isHexText hash" "length hash = 64" "Parse (appendHashLine hash data) = Inr m"
  shows "m_Hash m = hash"
proof -
  let ?d = "appendHashLine hash data" and ?n = "line_count (appendHashLine hash data)"
  obtain s where s: "over ?n s" "parseHash NewModel (NewLineScanner ?d) = Inr (NewModel\<lparr>m_Hash := hash\<rparr>, s)"
    using parse_hash_line [OF assms(1,2)] by blast
  have wf: "wf_decls (NewModel\<lparr>m_Hash := hash\<rparr>)" by (simp add: NewModel_def wf_decls_def declared_def)
  have "ends ?n (\<lambda>m. m_Hash m = hash) (Parse ?d)"
    unfolding Parse_def s(2) bindE_Inr prod.case
  proof (rule ends_bind [OF parseSectionHeader_ok], rule s(1), simp only: split_beta,
      rule ends_bind [OF count_below_ok], assumption,
      rule ends_bind [OF make_slice_ok],
      rule ends_bind [OF entities_ok], assumption, rule wf, simp only: split_beta,
      rule ends_bind [OF parseSectionHeader_ok], simp, simp only: split_beta,
      rule ends_bind [OF make_slice_ok],
      rule ends_bind [OF vars_ok], assumption, simp, simp only: split_beta,
      rule ends_bind [OF parseSectionHeader_ok], simp, simp only: split_beta,
      rule ends_bind [OF make_slice_ok],
      rule ends_bind [OF resources_ok], assumption, simp, simp only: split_beta,
      rule ends_bind [OF parseSectionHeader_ok], simp, simp only: split_beta,
      rule ends_bind [OF count_below_ok], assumption,
      rule ends_bind [OF make_slice_ok],
      rule ends_bind [OF blocks_ok], assumption, simp, simp only: split_beta Let_def,
      goal_cases)
    case 1
    then show ?case by auto
  qed
  with assms(3) show ?thesis by simp
qed

lemma ValidateAndLink_keeps_hash: "ValidateAndLink (Some m) = Inr m' \<Longrightarrow> m_Hash m' = m_Hash m"
  by (auto simp: ValidateAndLink_def Let_def)

text \<open>What a generation that succeeds has done.\<close>

lemma generated:
  assumes "GenerateWithHash emit hash data = Inr g"
  shows "gr_Hash g = hash \<and> length hash = 64 \<and> isHexText hash \<and>
    (\<exists>m linked. Parse (appendHashLine hash data) = Inr m \<and> ValidateAndLink (Some m) = Inr linked \<and>
       m_Hash linked = hash \<and> emit linked = Inr (gr_Source g))"
proof -
  have h: "length hash = 64" "isHexText hash" "Generate emit (appendHashLine hash data) = Inr g"
    using assms by (simp_all add: GenerateWithHash_def split: if_splits)
  then obtain m linked where "Parse (appendHashLine hash data) = Inr m" "ValidateAndLink (Some m) = Inr linked"
    "emit linked = Inr (gr_Source g)" "gr_Hash g = m_Hash linked"
    by (auto simp: Generate_def)
  with h Parse_keeps_hash [OF h(2,1)] ValidateAndLink_keeps_hash show ?thesis by auto
qed

section \<open>What a build leaves behind\<close>

definition inside :: "string \<Rightarrow> string \<Rightarrow> bool" where
  "inside d p \<longleftrightarrow> p = d \<or> is_prefix (d @ ''/'') p"

lemma inside_below [simp]: "inside d (d @ ''/'' @ n)"
  by (simp add: inside_def is_prefix_iff)

text \<open>
  \<open>os.MkdirTemp\<close> gives a new directory, by a clean name, and \<open>filepath.Abs\<close> leaves an absolute
  name alone.
\<close>

definition dir_names :: "string \<Rightarrow> bool" where
  "dir_names d \<longleftrightarrow> (\<forall>n \<in> {''go.mod'', ''main.go'', ''model'', ''model.exe''}. file_join [d, n] = d @ ''/'' @ n)"

definition work_dir :: "build_env \<Rightarrow> string \<Rightarrow> bool" where
  "work_dir env d \<longleftrightarrow> (\<exists>parent pattern. be_MkdirTemp env parent pattern = Inr d)"

lemma remove_all_files: "sg_files (remove_all d st) p = (if inside d p then None else sg_files st p)"
  by (simp add: remove_all_def inside_def)

lemma remove_all_bucket [simp]: "sg_bucket (remove_all d st) = sg_bucket st"
  by (simp add: remove_all_def)

lemma write_file_other:
  "write_file f q data st = (e, st') \<Longrightarrow> sg_bucket st' = sg_bucket st \<and> (p \<noteq> q \<longrightarrow> sg_files st' p = sg_files st p) \<and>
   (e = None \<longrightarrow> sg_files st' q = Some data)"
  by (auto simp: write_file_def split: option.splits)

lemma runGoBuild_files:
  "runGoBuild env wd out goos goarch t st = (r, st') \<Longrightarrow>
   sg_bucket st' = sg_bucket st \<and> (p \<noteq> out \<longrightarrow> sg_files st' p = sg_files st p)"
  by (auto simp: runGoBuild_def Let_def split: if_splits option.splits)

lemma runGoBuild_ok:
  "runGoBuild env wd out goos goarch t st = ((l, None), st') \<Longrightarrow>
   (\<exists>run. run = be_Go env (sg_files st) wd out goos goarch (if t > 0 then Some t else None) \<and> go_Err run = None \<and>
     \<not> go_Deadline run \<and> (\<forall>binary. go_Output run = Some binary \<longrightarrow> sg_files st' out = Some binary))"
  by (auto simp: runGoBuild_def Let_def split: if_splits option.splits)

lemma makeWorkDir_work: "makeWorkDir env d = Inr wd \<Longrightarrow> work_dir env wd"
  by (auto simp: makeWorkDir_def work_dir_def split: if_splits)

lemma writeBuildWorkDir_files:
  "writeBuildWorkDir env b m source st = (e, st') \<Longrightarrow>
   sg_bucket st' = sg_bucket st \<and>
   (p \<noteq> bu_GoModPath b \<longrightarrow> p \<noteq> bu_SourcePath b \<longrightarrow> sg_files st' p = sg_files st p) \<and>
   (e = None \<longrightarrow> sg_files st' (bu_SourcePath b) = Some source)"
  by (auto simp: writeBuildWorkDir_def split: prod.splits option.splits dest!: write_file_other [where p = p])

lemma build_in_files:
  assumes "build_in env req m wd st = (r, st')" "dir_names wd"
    "\<not> inside wd p" "be_Abs env (br_OutputPath req) \<noteq> Inr p"
  shows "sg_bucket st' = sg_bucket st \<and> sg_files st' p = sg_files st p"
proof -
  have "p \<noteq> file_join [wd, ''go.mod'']" "p \<noteq> file_join [wd, ''main.go'']"
    using assms(2,3) by (auto simp: dir_names_def inside_def is_prefix_iff)
  with assms(1,4) show ?thesis
    by (auto simp: build_in_def Let_def split: prod.splits option.splits sum.splits
        dest!: writeBuildWorkDir_files [where p = p] runGoBuild_files [where p = p])
qed

lemma build_in_bucket: "build_in env req m wd st = (r, st') \<Longrightarrow> sg_bucket st' = sg_bucket st"
  by (auto simp: build_in_def Let_def split: prod.splits option.splits sum.splits
      dest!: writeBuildWorkDir_files runGoBuild_files)

lemma Build_bucket: "Build env req st = (r, st') \<Longrightarrow> sg_bucket st' = sg_bucket st"
  by (auto simp: Build_def Let_def simp del: bindE_eq_Inr dest: build_in_bucket
      split: if_splits sum.splits prod.splits)

lemma Build_files:
  assumes "Build env req st = (r, st')" "\<And>d. work_dir env d \<Longrightarrow> dir_names d \<and> \<not> inside d p"
    "be_Abs env (br_OutputPath req) = Inr p \<Longrightarrow> False"
  shows "sg_bucket st' = sg_bucket st \<and> sg_files st' p = sg_files st p"
  using assms(1)
proof (cases "br_Source req = [] \<or> br_OutputPath req = []")
  case False
  let ?req = "req\<lparr>br_GOOS := if br_GOOS req = [] then be_GOOS env else br_GOOS req,
      br_GOARCH := if br_GOARCH req = [] then be_GOARCH env else br_GOARCH req,
      br_ModuleDir := if br_ModuleDir req = [] then ''.'' else br_ModuleDir req\<rparr>"
  let ?pre = "bindE (be_Abs env (br_ModuleDir ?req)) (\<lambda>m. bindE (ValidateCodegenModuleDir env m st) (\<lambda>_.
      bindE (makeWorkDir env (br_WorkDirRoot ?req)) (\<lambda>wd. Inr (m, wd))))"
  show ?thesis
  proof (cases ?pre)
    case (Inl err)
    with False assms(1) show ?thesis by (simp add: Build_def Let_def)
  next
    case (Inr x)
    then obtain m wd where x: "x = (m, wd)" "makeWorkDir env (br_WorkDirRoot req) = Inr wd" by auto
    obtain r1 e1 st1 where b: "build_in env ?req m wd st = ((r1, e1), st1)" by (metis prod.exhaust)
    have wd: "dir_names wd" "\<not> inside wd p" using assms(2) makeWorkDir_work [OF x(2)] by auto
    have out: "be_Abs env (br_OutputPath ?req) \<noteq> Inr p" using assms(3) by auto
    from build_in_files [OF b wd out] False assms(1) Inr x(1) b wd show ?thesis
      by (auto simp: Build_def Let_def remove_all_files split: if_splits)
  qed
qed (auto simp: Build_def split: if_splits)

text \<open>A build that succeeds has run \<open>go build\<close> on the source, and its binary is at the output path.\<close>

lemma build_in_ok:
  assumes "build_in env req m wd st = ((b, None), st')" "dir_names wd" "be_Abs env (br_OutputPath req) = Inr out"
  shows "bu_BinaryPath b = out \<and> (\<exists>files t run. files (wd @ ''/main.go'') = Some (br_Source req) \<and>
    run = be_Go env files wd out (br_GOOS req) (br_GOARCH req) t \<and> go_Err run = None \<and> \<not> go_Deadline run \<and>
    (\<forall>binary. go_Output run = Some binary \<longrightarrow> sg_files st' out = Some binary))"
proof -
  let ?b = "\<lparr>bu_WorkDir = wd, bu_GoModPath = file_join [wd, ''go.mod''],
      bu_SourcePath = file_join [wd, ''main.go''], bu_BinaryPath = br_OutputPath req, bu_BuildLog = []\<rparr>"
  obtain st1 where w: "writeBuildWorkDir env ?b m (br_Source req) st = (None, st1)"
    using assms(1) by (auto simp: build_in_def Let_def split: prod.splits option.splits)
  have src: "sg_files st1 (wd @ ''/main.go'') = Some (br_Source req)"
    using writeBuildWorkDir_files [OF w] assms(2) by (simp add: dir_names_def)
  obtain l where go: "runGoBuild env wd out (br_GOOS req) (br_GOARCH req) (br_Timeout req) st1 = ((l, None), st')"
    "bu_BinaryPath b = out"
    using assms(1,3) w by (auto simp: build_in_def Let_def split: prod.splits option.splits)
  from runGoBuild_ok [OF go(1)] src go(2) show ?thesis by blast
qed

lemma Build_ok:
  assumes "Build env req st = ((b, None), st')" "\<And>d. work_dir env d \<Longrightarrow> dir_names d \<and> \<not> inside d out"
    "be_Abs env (br_OutputPath req) = Inr out" "br_GOOS req \<noteq> []" "br_GOARCH req \<noteq> []"
  shows "bu_BinaryPath (the b) = out \<and> (\<exists>files wd t run. files (wd @ ''/main.go'') = Some (br_Source req) \<and>
    run = be_Go env files wd out (br_GOOS req) (br_GOARCH req) t \<and> go_Err run = None \<and> \<not> go_Deadline run \<and>
    (\<forall>binary. go_Output run = Some binary \<longrightarrow> sg_files st' out = Some binary))"
proof -
  let ?req = "req\<lparr>br_ModuleDir := if br_ModuleDir req = [] then ''.'' else br_ModuleDir req\<rparr>"
  have req: "req\<lparr>br_GOOS := br_GOOS req, br_GOARCH := br_GOARCH req\<rparr> = req" by (cases req) simp
  let ?pre = "bindE (be_Abs env (br_ModuleDir ?req)) (\<lambda>m. bindE (ValidateCodegenModuleDir env m st) (\<lambda>_.
      bindE (makeWorkDir env (br_WorkDirRoot ?req)) (\<lambda>wd. Inr (m, wd))))"
  have def: "Build env req st = (case ?pre of Inl err \<Rightarrow> ((None, Some err), st)
      | Inr (m, wd) \<Rightarrow> (case build_in env ?req m wd st of ((r, e), st1) \<Rightarrow>
          ((Some r, e), if br_KeepWorkDir ?req \<or> be_RemoveErr env then st1 else remove_all wd st1)))"
    using assms(1,4,5) by (simp add: Build_def Let_def req split: if_splits)
  obtain m wd where pre: "?pre = Inr (m, wd)" using assms(1) def by (cases ?pre) auto
  then have mk: "makeWorkDir env (br_WorkDirRoot req) = Inr wd" by auto
  note wd = assms(2) [OF makeWorkDir_work [OF mk]]
  obtain r e st1 where b: "build_in env ?req m wd st = ((r, e), st1)" by (metis prod.exhaust)
  have fin: "b = Some r" "e = None"
    "st' = (if br_KeepWorkDir ?req \<or> be_RemoveErr env then st1 else remove_all wd st1)"
    using assms(1) unfolding def pre by (simp_all add: b)
  have "br_OutputPath ?req = br_OutputPath req" by simp
  note ok = build_in_ok [OF b [unfolded fin(2)] conjunct1 [OF wd], of out, simplified, OF assms(3)]
  have "sg_files st' out = sg_files st1 out" using fin(3) wd by (simp add: remove_all_files)
  with ok fin(1) show ?thesis by auto
qed

end
