(* ===== verification/Codegen_Worker.thy ===== *)
theory Codegen_Worker
  imports Codegen_Build Go_Float_Arith
begin

text \<open>
  The code generator's worker (codegen/cmd/codegen: processor.go, task.go, metrics.go, serve.go):
  one task from its request to its result, what becomes of its message, the settings, and the
  loop that fetches messages for a pool of workers. A task ends with a result or, when the
  generator panics, with the end of the process (\<open>None\<close>).
\<close>

section \<open>Names (task.go)\<close>

definition "taskModeGenerate = ''generate''"
definition "taskModeBuild = ''build''"

definition "stageDecode = ''decode''"
definition "stageValidateRequest = ''validate_request''"
definition "stageGenerate = ''generate''"
definition "stageStoreSource = ''store_source''"
definition "stageBuild = ''build''"
definition "stageStoreBinary = ''store_binary''"
definition "stageStoreBuildLog = ''store_build_log''"

definition "errorDecode = ''decode_error''"
definition "errorBadRequest = ''bad_request''"
definition "errorGenerate = ''generation_error''"
definition "errorStoreSource = ''store_source_error''"
definition "errorBuild = ''build_error''"
definition "errorStoreBinary = ''store_binary_error''"
definition "errorStoreBuildLog = ''store_build_log_error''"

lemmas task_modes = taskModeGenerate_def taskModeBuild_def

section \<open>Metrics (metrics.go)\<close>

record task_metrics =
  tm_RequestID :: string
  tm_ModelHash :: string
  tm_Mode :: string
  tm_GOOS :: string
  tm_GOARCH :: string
  tm_OK :: bool
  tm_Stage :: string
  tm_ErrorCode :: string
  tm_ArtifactStore :: string
  tm_GenerateMS :: f64
  tm_BuildMS :: f64
  tm_StoreSourceMS :: f64
  tm_StoreBinaryMS :: f64
  tm_StoreBuildLogMS :: f64
  tm_StoreTotalMS :: f64
  tm_TotalMS :: f64
  tm_SourceSize :: int
  tm_BinarySize :: int

definition zero_metrics :: task_metrics where
  "zero_metrics = \<lparr>tm_RequestID = [], tm_ModelHash = [], tm_Mode = [], tm_GOOS = [], tm_GOARCH = [],
     tm_OK = False, tm_Stage = [], tm_ErrorCode = [], tm_ArtifactStore = [], tm_GenerateMS = Fin 0,
     tm_BuildMS = Fin 0, tm_StoreSourceMS = Fin 0, tm_StoreBinaryMS = Fin 0, tm_StoreBuildLogMS = Fin 0,
     tm_StoreTotalMS = Fin 0, tm_TotalMS = Fin 0, tm_SourceSize = 0, tm_BinarySize = 0\<rparr>"

definition durationMS :: "duration \<Rightarrow> f64" where
  "durationMS d = f64_div (f64_round (of_int d)) (Fin 1000000)"

definition completeTaskMetrics :: "task_metrics \<Rightarrow> duration \<Rightarrow> codegen_result \<Rightarrow> task_metrics" where
  "completeTaskMetrics metrics elapsed result =
     metrics\<lparr>tm_RequestID := cr_RequestID result, tm_ModelHash := cr_ModelHash result,
       tm_Mode := cr_Mode result, tm_GOOS := cr_GOOS result, tm_GOARCH := cr_GOARCH result,
       tm_OK := cr_OK result, tm_Stage := cr_Stage result, tm_ErrorCode := cr_ErrorCode result,
       tm_StoreTotalMS := f64_add (f64_add (tm_StoreSourceMS metrics) (tm_StoreBinaryMS metrics))
                                 (tm_StoreBuildLogMS metrics),
       tm_TotalMS := durationMS elapsed,
       tm_SourceSize := (case cr_Source result of None \<Rightarrow> tm_SourceSize metrics | Some r \<Rightarrow> cg_Size r),
       tm_BinarySize := (case cr_Binary result of None \<Rightarrow> tm_BinarySize metrics | Some r \<Rightarrow> cg_Size r)\<rparr>"

section \<open>One task (processor.go)\<close>

record process_config =
  pc_ModuleDir :: string
  pc_WorkDirRoot :: string
  pc_DefaultGOOS :: string
  pc_DefaultGOARCH :: string
  pc_BuildTimeout :: duration
  pc_KeepWorkDir :: bool

text \<open>The interface \<open>Store\<close>; the first argument is what goes wrong in the call.\<close>

record store_ops =
  so_PutBytes :: "put_faults \<Rightarrow> string \<Rightarrow> string \<Rightarrow> string \<Rightarrow> storage \<Rightarrow> (string + codegen_artifact_ref) \<times> storage"
  so_PutFile :: "put_faults \<Rightarrow> string \<Rightarrow> string \<Rightarrow> string \<Rightarrow> storage \<Rightarrow> (string + codegen_artifact_ref) \<times> storage"

text \<open>
  \<open>te_Took\<close> is the measured time of a stage (of the whole task for the empty name),
  \<open>te_OutputDir\<close> what making the output directory gives.
\<close>

record task_env =
  te_Emit :: "dsl_model \<Rightarrow> string + string"
  te_Build :: build_env
  te_OutputDir :: "string + string"
  te_RemoveErr :: bool
  te_Source :: put_faults
  te_Log :: put_faults
  te_Binary :: put_faults
  te_Took :: "string \<Rightarrow> duration"

definition boolOrDefault :: "bool option \<Rightarrow> bool \<Rightarrow> bool" where
  "boolOrDefault v d = (case v of None \<Rightarrow> d | Some b \<Rightarrow> b)"

definition sourceObjectKey :: "string \<Rightarrow> string" where
  "sourceObjectKey hash = msg [''models/'', hash, ''/source/main.go'']"

definition binaryFileName :: "string \<Rightarrow> string" where
  "binaryFileName goos = (if goos = ''windows'' then ''model.exe'' else ''model'')"

definition binaryObjectKey :: "string \<Rightarrow> string \<Rightarrow> string \<Rightarrow> string" where
  "binaryObjectKey hash goos goarch =
     msg [''models/'', hash, ''/bin/'', goos, ''/'', goarch, ''/'', binaryFileName goos]"

definition buildLogObjectKey :: "string \<Rightarrow> string \<Rightarrow> string \<Rightarrow> string" where
  "buildLogObjectKey hash goos goarch =
     msg [''models/'', hash, ''/logs/'', goos, ''/'', goarch, ''/build.log'']"

definition normalizeTask :: "task_env \<Rightarrow> process_config \<Rightarrow> codegen_task \<Rightarrow> string + codegen_task" where
  "normalizeTask env cfg task =
     (if ct_RequestID task = [] then Inl ''empty request_id''
      else if ct_ModelHash task = [] then Inl ''empty model_hash''
      else if ct_DSL task = [] then Inl ''empty dsl''
      else
        (let task = (if ct_Mode task = [] then task\<lparr>ct_Mode := taskModeBuild\<rparr> else task) in
         if ct_Mode task \<noteq> taskModeGenerate \<and> ct_Mode task \<noteq> taskModeBuild
         then Inl (msg [''unknown mode '', quoted (ct_Mode task)])
         else if ct_Mode task = taskModeBuild then
           (let task = (if ct_GOOS task = [] then task\<lparr>ct_GOOS := pc_DefaultGOOS cfg\<rparr> else task);
                task = (if ct_GOOS task = [] then task\<lparr>ct_GOOS := be_GOOS (te_Build env)\<rparr> else task);
                task = (if ct_GOARCH task = [] then task\<lparr>ct_GOARCH := pc_DefaultGOARCH cfg\<rparr> else task);
                task = (if ct_GOARCH task = [] then task\<lparr>ct_GOARCH := be_GOARCH (te_Build env)\<rparr> else task)
            in Inr task)
         else Inr task))"

definition failResult :: "codegen_result \<Rightarrow> string \<Rightarrow> string \<Rightarrow> string \<Rightarrow> codegen_result" where
  "failResult result stage code err =
     result\<lparr>cr_OK := False, cr_Stage := stage, cr_ErrorCode := code, cr_Message := err\<rparr>"

definition initial_result :: "codegen_task \<Rightarrow> codegen_result" where
  "initial_result task = \<lparr>cr_RequestID = ct_RequestID task, cr_OK = False, cr_ModelHash = ct_ModelHash task,
     cr_Mode = ct_Mode task, cr_GOOS = ct_GOOS task, cr_GOARCH = ct_GOARCH task, cr_Source = None,
     cr_Binary = None, cr_BuildLog = None, cr_Stage = [], cr_ErrorCode = [], cr_Message = []\<rparr>"

text \<open>\<open>time.Duration(task.BuildTimeoutSec) * time.Second\<close> wraps.\<close>

definition build_timeout :: "process_config \<Rightarrow> codegen_task \<Rightarrow> duration" where
  "build_timeout cfg task =
     (if ct_BuildTimeoutSec task > 0
      then sint (word_of_int (ct_BuildTimeoutSec task * 1000000000) :: 64 word)
      else pc_BuildTimeout cfg)"

lemma huge_build_timeout:
  "ct_BuildTimeoutSec task = 9300000000 \<Longrightarrow> build_timeout cfg task < 0"
  by (simp add: build_timeout_def)

text \<open>The steps give the result so far and the metrics; a failed step ends the task.\<close>

type_synonym task_state = "codegen_result \<times> task_metrics"

definition task_failed :: "string \<Rightarrow> string \<Rightarrow> string \<Rightarrow> task_state \<Rightarrow> task_state" where
  "task_failed stage code err x = (failResult (fst x) stage code err, snd x)"

definition store_source ::
  "task_env \<Rightarrow> store_ops \<Rightarrow> codegen_task \<Rightarrow> string \<Rightarrow> task_state \<Rightarrow> storage \<Rightarrow>
   (task_state + task_state) \<times> storage" where
  "store_source env store task source x st =
     (if \<not> boolOrDefault (ct_StoreSource task) True then (Inr x, st)
      else
        (case so_PutBytes store (te_Source env) (sourceObjectKey (ct_ModelHash task)) source
               ''text/x-go; charset=utf-8'' st of
           (put, st) \<Rightarrow>
             (let x = (fst x, (snd x)\<lparr>tm_StoreSourceMS := durationMS (te_Took env stageStoreSource)\<rparr>) in
              case put of
                Inl err \<Rightarrow> (Inl (task_failed stageStoreSource errorStoreSource err x), st)
              | Inr ref \<Rightarrow> (Inr ((fst x)\<lparr>cr_Source := Some ref\<rparr>, snd x), st))))"

definition store_build_log ::
  "task_env \<Rightarrow> store_ops \<Rightarrow> codegen_task \<Rightarrow> build_result option \<Rightarrow> string option \<Rightarrow> task_state \<Rightarrow> storage \<Rightarrow>
   (task_state + task_state) \<times> storage" where
  "store_build_log env store task built err x st =
     (case built of
        None \<Rightarrow> (Inr x, st)
      | Some b \<Rightarrow>
          if bu_BuildLog b = [] then (Inr x, st)
          else
            (case so_PutBytes store (te_Log env)
                    (buildLogObjectKey (ct_ModelHash task) (ct_GOOS task) (ct_GOARCH task))
                    (bu_BuildLog b) ''text/plain; charset=utf-8'' st of
               (put, st) \<Rightarrow>
                 (let x = (fst x, (snd x)\<lparr>tm_StoreBuildLogMS := durationMS (te_Took env stageStoreBuildLog)\<rparr>) in
                  case put of
                    Inl storeErr \<Rightarrow>
                      if err = None then (Inl (task_failed stageStoreBuildLog errorStoreBuildLog storeErr x), st)
                      else (Inr x, st)
                  | Inr ref \<Rightarrow> (Inr ((fst x)\<lparr>cr_BuildLog := Some ref\<rparr>, snd x), st))))"

definition store_binary ::
  "task_env \<Rightarrow> store_ops \<Rightarrow> codegen_task \<Rightarrow> build_result option \<Rightarrow> task_state \<Rightarrow> storage \<Rightarrow>
   (task_state + task_state) \<times> storage" where
  "store_binary env store task built x st =
     (if \<not> boolOrDefault (ct_StoreBinary task) True then (Inr x, st)
      else
        (case so_PutFile store (te_Binary env)
                (binaryObjectKey (ct_ModelHash task) (ct_GOOS task) (ct_GOARCH task))
                (bu_BinaryPath (the built)) ''application/octet-stream'' st of
           (put, st) \<Rightarrow>
             (let x = (fst x, (snd x)\<lparr>tm_StoreBinaryMS := durationMS (te_Took env stageStoreBinary)\<rparr>) in
              case put of
                Inl err \<Rightarrow> (Inl (task_failed stageStoreBinary errorStoreBinary err x), st)
              | Inr ref \<Rightarrow> (Inr ((fst x)\<lparr>cr_Binary := Some ref\<rparr>, snd x), st))))"

definition task_ok :: "task_state \<Rightarrow> task_state" where
  "task_ok x = ((fst x)\<lparr>cr_OK := True\<rparr>, snd x)"

definition build_request_of ::
  "process_config \<Rightarrow> codegen_task \<Rightarrow> string \<Rightarrow> string \<Rightarrow> build_request" where
  "build_request_of cfg task source outputDir =
     \<lparr>br_Source = source, br_OutputPath = file_join [outputDir, binaryFileName (ct_GOOS task)],
      br_GOOS = ct_GOOS task, br_GOARCH = ct_GOARCH task, br_ModuleDir = pc_ModuleDir cfg,
      br_WorkDirRoot = pc_WorkDirRoot cfg, br_Timeout = build_timeout cfg task,
      br_KeepWorkDir = pc_KeepWorkDir cfg\<rparr>"

text \<open>From the output directory to the stored binary.\<close>

definition build_and_store ::
  "task_env \<Rightarrow> process_config \<Rightarrow> store_ops \<Rightarrow> codegen_task \<Rightarrow> string \<Rightarrow> string \<Rightarrow> task_state \<Rightarrow> storage \<Rightarrow>
   task_state \<times> storage" where
  "build_and_store env cfg store task source outputDir x st =
     (case Build (te_Build env) (build_request_of cfg task source outputDir) st of
        ((built, err), st) \<Rightarrow>
          (let x = (fst x, (snd x)\<lparr>tm_BuildMS := durationMS (te_Took env stageBuild)\<rparr>) in
           case store_build_log env store task built err x st of
             (Inl x, st) \<Rightarrow> (x, st)
           | (Inr x, st) \<Rightarrow>
               (case err of
                  Some e \<Rightarrow> (task_failed stageBuild errorBuild e x, st)
                | None \<Rightarrow>
                    (case store_binary env store task built x st of
                       (Inl x, st) \<Rightarrow> (x, st)
                     | (Inr x, st) \<Rightarrow> (task_ok x, st)))))"

definition process_build ::
  "task_env \<Rightarrow> process_config \<Rightarrow> store_ops \<Rightarrow> codegen_task \<Rightarrow> string \<Rightarrow> task_state \<Rightarrow> storage \<Rightarrow>
   task_state \<times> storage" where
  "process_build env cfg store task source x st =
     (case te_OutputDir env of
        Inl err \<Rightarrow> (task_failed stageBuild errorBuild err x, st)
      | Inr outputDir \<Rightarrow>
          (case build_and_store env cfg store task source outputDir x st of
             (x, st) \<Rightarrow> (x, if te_RemoveErr env then st else remove_all outputDir st)))"

definition process_steps ::
  "task_env \<Rightarrow> process_config \<Rightarrow> store_ops \<Rightarrow> codegen_task \<Rightarrow> storage \<Rightarrow> task_state option \<times> storage" where
  "process_steps env cfg store task0 st =
     (let x = (initial_result task0, zero_metrics) in
      case normalizeTask env cfg task0 of
        Inl err \<Rightarrow> (Some (task_failed stageValidateRequest errorBadRequest err x), st)
      | Inr task \<Rightarrow>
          (let x = ((fst x)\<lparr>cr_Mode := ct_Mode task, cr_GOOS := ct_GOOS task, cr_GOARCH := ct_GOARCH task\<rparr>,
                    (snd x)\<lparr>tm_GenerateMS := durationMS (te_Took env stageGenerate)\<rparr>) in
           case GenerateWithHash (te_Emit env) (ct_ModelHash task) (ct_DSL task) of
             Inl GenPanic \<Rightarrow> (None, st)
           | Inl (GenErr err) \<Rightarrow> (Some (task_failed stageGenerate errorGenerate err x), st)
           | Inr g \<Rightarrow>
               (let x = ((fst x)\<lparr>cr_ModelHash := gr_Hash g\<rparr>, snd x) in
                case store_source env store task (gr_Source g) x st of
                  (Inl x, st) \<Rightarrow> (Some x, st)
                | (Inr x, st) \<Rightarrow>
                    if ct_Mode task = taskModeGenerate then (Some (task_ok x), st)
                    else
                      (case process_build env cfg store task (gr_Source g) x st of
                         (x, st) \<Rightarrow> (Some x, st)))))"

definition processTask ::
  "task_env \<Rightarrow> process_config \<Rightarrow> store_ops \<Rightarrow> codegen_task \<Rightarrow> storage \<Rightarrow>
   (codegen_result \<times> task_metrics) option \<times> storage" where
  "processTask env cfg store task st =
     (case process_steps env cfg store task st of
        (None, st) \<Rightarrow> (None, st)
      | (Some (result, metrics), st) \<Rightarrow>
          (Some (result, completeTaskMetrics metrics (te_Took env []) result), st))"

section \<open>What a task leaves in the store\<close>

text \<open>
  Temporary directories are new ones, apart from each other and from the store's directory; and
  \<open>go build\<close> that ends without an error has written its output.
\<close>

definition binary_names :: "string set" where
  "binary_names = {''model'', ''model.exe''}"

definition private_dirs :: "(string \<Rightarrow> string option) \<Rightarrow> task_env \<Rightarrow> bool" where
  "private_dirs file_at env \<longleftrightarrow>
     (\<forall>d. te_OutputDir env = Inr d \<or> work_dir (te_Build env) d \<longrightarrow>
        dir_names d \<and> (\<forall>key p. file_at key = Some p \<longrightarrow> \<not> inside d p)) \<and>
     (\<forall>d n. te_OutputDir env = Inr d \<and> n \<in> binary_names \<longrightarrow>
        be_Abs (te_Build env) (d @ ''/'' @ n) = Inr (d @ ''/'' @ n) \<and>
        (\<forall>w. work_dir (te_Build env) w \<longrightarrow> \<not> inside w (d @ ''/'' @ n)))"

definition go_builds :: "build_env \<Rightarrow> bool" where
  "go_builds env \<longleftrightarrow> (\<forall>files wd out goos goarch t.
     go_Err (be_Go env files wd out goos goarch t) = None \<and> \<not> go_Deadline (be_Go env files wd out goos goarch t) \<longrightarrow>
     go_Output (be_Go env files wd out goos goarch t) \<noteq> None)"

text \<open>The binary is what \<open>go build\<close> made of a directory with this main.go, for this platform.\<close>

definition built_from :: "build_env \<Rightarrow> string \<Rightarrow> string \<Rightarrow> string \<Rightarrow> string \<Rightarrow> bool" where
  "built_from env source goos goarch binary \<longleftrightarrow>
     (\<exists>files wd out t. files (wd @ ''/main.go'') = Some source \<and>
        go_Err (be_Go env files wd out goos goarch t) = None \<and>
        go_Output (be_Go env files wd out goos goarch t) = Some binary)"

text \<open>The program a task asks for.\<close>

definition program_of :: "(dsl_model \<Rightarrow> string + string) \<Rightarrow> codegen_task \<Rightarrow> string \<Rightarrow> bool" where
  "program_of emit task source \<longleftrightarrow>
     (\<exists>m linked. Parse (appendHashLine (ct_ModelHash task) (ct_DSL task)) = Inr m \<and>
        ValidateAndLink (Some m) = Inr linked \<and> m_Hash linked = ct_ModelHash task \<and> emit linked = Inr source)"

lemma named_last: "named n q \<Longrightarrow> n \<noteq> [] \<Longrightarrow> last q = last n"
  by (auto simp: named_def)

lemma binaryFileName_name: "binaryFileName goos \<in> binary_names"
  by (simp add: binaryFileName_def binary_names_def)

lemma plain_names_used:
  "plain_name ''main.go''" "plain_name ''build.log''" "n \<in> binary_names \<Longrightarrow> plain_name n"
  by (auto simp: plain_name_def binary_names_def)

lemma keys_named:
  "sourceObjectKey h = (''models/'' @ h @ ''/source'') @ ''/'' @ ''main.go''"
  "buildLogObjectKey h g a = (''models/'' @ h @ ''/logs/'' @ g @ ''/'' @ a) @ ''/'' @ ''build.log''"
  "binaryObjectKey h g a = (''models/'' @ h @ ''/bin/'' @ g @ ''/'' @ a) @ ''/'' @ binaryFileName g"
  by (simp_all add: sourceObjectKey_def buildLogObjectKey_def binaryObjectKey_def msg_def)

text \<open>What normalizing does to a task.\<close>

lemma normalizeTask_Inr:
  "normalizeTask env cfg task = Inr t \<Longrightarrow>
   ct_RequestID t = ct_RequestID task \<and> ct_ModelHash t = ct_ModelHash task \<and> ct_DSL t = ct_DSL task \<and>
   ct_StoreSource t = ct_StoreSource task \<and> ct_StoreBinary t = ct_StoreBinary task \<and>
   ct_ModelHash task \<noteq> [] \<and> ct_Mode t \<in> {taskModeGenerate, taskModeBuild} \<and>
   (ct_Mode task \<noteq> [] \<longrightarrow> ct_Mode t = ct_Mode task) \<and> (ct_Mode task = [] \<longrightarrow> ct_Mode t = taskModeBuild) \<and>
   (ct_GOOS task \<noteq> [] \<longrightarrow> ct_GOOS t = ct_GOOS task) \<and> (ct_GOARCH task \<noteq> [] \<longrightarrow> ct_GOARCH t = ct_GOARCH task) \<and>
   (ct_Mode t = taskModeBuild \<longrightarrow> be_GOOS (te_Build env) \<noteq> [] \<longrightarrow> be_GOARCH (te_Build env) \<noteq> [] \<longrightarrow>
     ct_GOOS t \<noteq> [] \<and> ct_GOARCH t \<noteq> [])"
  by (auto simp: normalizeTask_def Let_def task_modes split: if_splits)

context artifact_store
begin

lemma different_places:
  "stored_at (sourceObjectKey h) = Some q \<Longrightarrow> stored_at (buildLogObjectKey h' g a) \<noteq> Some q"
  "stored_at (sourceObjectKey h) = Some q \<Longrightarrow> stored_at (binaryObjectKey h' g a) \<noteq> Some q"
  "stored_at (buildLogObjectKey h g a) = Some q \<Longrightarrow> stored_at (binaryObjectKey h' g' a') \<noteq> Some q"
proof -
  have last: "stored_at (sourceObjectKey h) = Some q \<Longrightarrow> last q = CHR ''o''"
    "stored_at (buildLogObjectKey h g a) = Some q \<Longrightarrow> last q = CHR ''g''"
    "stored_at (binaryObjectKey h g a) = Some q \<Longrightarrow> last q \<in> {CHR ''l'', CHR ''e''}" for h g a q
    unfolding keys_named
    using name_kept [of "''models/'' @ h @ ''/source''" "''main.go''" q] plain_names_used(1)
      name_kept [of "''models/'' @ h @ ''/logs/'' @ g @ ''/'' @ a" "''build.log''" q] plain_names_used(2)
      name_kept [of "''models/'' @ h @ ''/bin/'' @ g @ ''/'' @ a" "binaryFileName g" q]
      plain_names_used(3) [OF binaryFileName_name [of g]]
    by (auto dest!: named_last simp: binaryFileName_def split: if_splits)
  show "stored_at (sourceObjectKey h) = Some q \<Longrightarrow> stored_at (buildLogObjectKey h' g a) \<noteq> Some q"
    using last(1) [of h q] last(2) [of h' g a q] by auto
  show "stored_at (sourceObjectKey h) = Some q \<Longrightarrow> stored_at (binaryObjectKey h' g a) \<noteq> Some q"
    using last(1) [of h q] last(3) [of h' g a q] by auto
  show "stored_at (buildLogObjectKey h g a) = Some q \<Longrightarrow> stored_at (binaryObjectKey h' g' a') \<noteq> Some q"
    using last(2) [of h g a q] last(3) [of h' g' a' q] by auto
qed

lemma source_stored:
  assumes "store_source env \<lparr>so_PutBytes = put_bytes, so_PutFile = put_file\<rparr> task source x st = (Inr y, st')"
  shows "fst y = (fst x)\<lparr>cr_Source := cr_Source (fst y)\<rparr> \<and>
    (boolOrDefault (ct_StoreSource task) True \<longrightarrow> (\<exists>ref. cr_Source (fst y) = Some ref \<and>
       stored_at (sourceObjectKey (ct_ModelHash task)) = Some (place (cg_Key ref)) \<and>
       peek st' (place (cg_Key ref)) = Some source \<and> describes sha ref source ''text/x-go; charset=utf-8''))"
  using assms bytes_stored
  by (fastforce simp: store_source_def Let_def split: if_splits prod.splits sum.splits)

lemma log_stored:
  assumes "store_build_log env \<lparr>so_PutBytes = put_bytes, so_PutFile = put_file\<rparr> task built err x st = (Inr y, st')"
  shows "fst y = (fst x)\<lparr>cr_BuildLog := cr_BuildLog (fst y)\<rparr> \<and>
    (\<forall>q. stored_at (buildLogObjectKey (ct_ModelHash task) (ct_GOOS task) (ct_GOARCH task)) \<noteq> Some q \<longrightarrow>
       peek st' q = peek st q) \<and>
    (\<forall>q. file_at (buildLogObjectKey (ct_ModelHash task) (ct_GOOS task) (ct_GOARCH task)) \<noteq> Some q \<longrightarrow>
       sg_files st' q = sg_files st q)"
proof (cases "built = None \<or> bu_BuildLog (the built) = []")
  case True
  with assms show ?thesis by (auto simp: store_build_log_def split: option.splits)
next
  case False
  let ?k = "buildLogObjectKey (ct_ModelHash task) (ct_GOOS task) (ct_GOARCH task)"
  obtain put st1 where p: "put_bytes (te_Log env) ?k (bu_BuildLog (the built)) ''text/plain; charset=utf-8'' st = (put, st1)"
    by fastforce
  have "st' = st1 \<and> fst y = (fst x)\<lparr>cr_BuildLog := cr_BuildLog (fst y)\<rparr>"
    using False assms p
    by (auto simp: store_build_log_def Let_def split: option.splits sum.splits if_splits)
  with bytes_elsewhere [OF p] show ?thesis by blast
qed

lemma binary_stored:
  assumes "store_binary env \<lparr>so_PutBytes = put_bytes, so_PutFile = put_file\<rparr> task built x st = (Inr y, st')"
    "\<And>key. file_at key \<noteq> Some (bu_BinaryPath (the built))"
  shows "fst y = (fst x)\<lparr>cr_Binary := cr_Binary (fst y)\<rparr> \<and>
    (\<forall>q. stored_at (binaryObjectKey (ct_ModelHash task) (ct_GOOS task) (ct_GOARCH task)) \<noteq> Some q \<longrightarrow>
       peek st' q = peek st q) \<and>
    (boolOrDefault (ct_StoreBinary task) True \<longrightarrow>
      (\<exists>ref binary. cr_Binary (fst y) = Some ref \<and> sg_files st (bu_BinaryPath (the built)) = Some binary \<and>
         stored_at (binaryObjectKey (ct_ModelHash task) (ct_GOOS task) (ct_GOARCH task)) = Some (place (cg_Key ref)) \<and>
         peek st' (place (cg_Key ref)) = Some binary \<and> describes sha ref binary ''application/octet-stream''))"
proof (cases "boolOrDefault (ct_StoreBinary task) True")
  case True
  let ?k = "binaryObjectKey (ct_ModelHash task) (ct_GOOS task) (ct_GOARCH task)"
  obtain put st1 where p: "put_file (te_Binary env) ?k (bu_BinaryPath (the built)) ''application/octet-stream'' st = (put, st1)"
    by fastforce
  obtain ref where ref: "put = Inr ref" "st' = st1" "fst y = (fst x)\<lparr>cr_Binary := Some ref\<rparr>"
    using True assms(1) p by (auto simp: store_binary_def Let_def split: sum.splits)
  from file_of_others [OF p [unfolded ref(1)] assms(2)] file_stored [OF p [unfolded ref(1)]]
    file_elsewhere [OF p] ref True show ?thesis by auto
qed (use assms in \<open>auto simp: store_binary_def\<close>)

text \<open>What a successful build gives: the source stays, the binary of the reply is stored.\<close>

lemma built_and_stored:
  assumes "build_and_store env cfg \<lparr>so_PutBytes = put_bytes, so_PutFile = put_file\<rparr> task source d x st = (y, st')"
    "cr_OK (fst y)" "\<not> cr_OK (fst x)" "te_OutputDir env = Inr d" "private_dirs file_at env" "go_builds (te_Build env)"
    "ct_GOOS task \<noteq> []" "ct_GOARCH task \<noteq> []"
  shows "cr_Source (fst y) = cr_Source (fst x) \<and>
    (\<forall>q. stored_at (sourceObjectKey h) = Some q \<longrightarrow> peek st' q = peek st q) \<and>
    (boolOrDefault (ct_StoreBinary task) True \<longrightarrow> (\<exists>ref binary. cr_Binary (fst y) = Some ref \<and>
       stored_at (binaryObjectKey (ct_ModelHash task) (ct_GOOS task) (ct_GOARCH task)) = Some (place (cg_Key ref)) \<and>
       peek st' (place (cg_Key ref)) = Some binary \<and> describes sha ref binary ''application/octet-stream'' \<and>
       built_from (te_Build env) source (ct_GOOS task) (ct_GOARCH task) binary))"
proof -
  let ?ops = "\<lparr>so_PutBytes = put_bytes, so_PutFile = put_file\<rparr>" and ?env = "te_Build env"
  let ?req = "build_request_of cfg task source d" and ?out = "d @ ''/'' @ binaryFileName (ct_GOOS task)"
  obtain built err st1 where b: "Build ?env ?req st = ((built, err), st1)" by (metis prod.exhaust)
  define x1 where "x1 = (fst x, (snd x)\<lparr>tm_BuildMS := durationMS (te_Took env stageBuild)\<rparr>)"
  have x1: "\<not> cr_OK (fst x1)" "cr_Source (fst x1) = cr_Source (fst x)" using assms(3) by (simp_all add: x1_def)
  note def = assms(1) [unfolded build_and_store_def b prod.case Let_def x1_def [symmetric]]
  obtain r2 st2 where l: "store_build_log env ?ops task built err x1 st1 = (r2, st2)" by fastforce
  obtain x2 where x2: "r2 = Inr x2"
    using def l x1 assms(2)
    by (cases r2) (auto simp: store_build_log_def task_failed_def failResult_def Let_def
        split: option.splits prod.splits sum.splits if_splits)
  note log = log_stored [OF l [unfolded x2]]
  note d2 = def [unfolded l x2 prod.case sum.case]
  have err: "err = None"
    using d2 assms(2) log x1(1) by (cases err) (auto simp: task_failed_def failResult_def)
  obtain r3 st3 where p: "store_binary env ?ops task built x2 st2 = (r3, st3)" by fastforce
  note d3 = d2 [unfolded err option.case p prod.case]
  obtain x3 where x3: "r3 = Inr x3"
    using d3 assms(2) p
    by (cases r3) (auto simp: store_binary_def task_failed_def failResult_def Let_def split: prod.splits sum.splits if_splits)
  have fin: "y = task_ok x3" "st' = st3" using d3 x3 by auto
  have out: "br_OutputPath ?req = ?out" "be_Abs ?env ?out = Inr ?out" "\<And>w. work_dir ?env w \<Longrightarrow> \<not> inside w ?out"
    using assms(4,5) binaryFileName_name [of "ct_GOOS task"]
    by (auto simp: build_request_of_def private_dirs_def dir_names_def binary_names_def)
  have outside: "file_at key \<noteq> Some ?out" for key
    using assms(4,5) inside_below unfolding private_dirs_def by metis
  have dirs: "\<And>w. work_dir ?env w \<Longrightarrow> dir_names w" using assms(5) by (simp add: private_dirs_def)
  have abs: "be_Abs ?env (br_OutputPath ?req) = Inr ?out" using out by simp
  note ok = Build_ok [OF b [unfolded err] conjI [OF dirs out(3)] abs]
  have plat: "br_Source ?req = source" "br_GOOS ?req = ct_GOOS task" "br_GOARCH ?req = ct_GOARCH task"
    by (simp_all add: build_request_of_def)
  obtain files wd t where go: "files (wd @ ''/main.go'') = Some source"
    "go_Err (be_Go ?env files wd ?out (ct_GOOS task) (ct_GOARCH task) t) = None"
    "\<not> go_Deadline (be_Go ?env files wd ?out (ct_GOOS task) (ct_GOARCH task) t)"
    "\<And>binary. go_Output (be_Go ?env files wd ?out (ct_GOOS task) (ct_GOARCH task) t) = Some binary \<Longrightarrow>
       sg_files st1 ?out = Some binary" and path: "bu_BinaryPath (the built) = ?out"
    using ok assms(7,8) unfolding plat by blast
  obtain binary where bin: "go_Output (be_Go ?env files wd ?out (ct_GOOS task) (ct_GOARCH task) t) = Some binary"
    using assms(6) go(2,3) unfolding go_builds_def by blast
  have made: "built_from ?env source (ct_GOOS task) (ct_GOARCH task) binary"
    unfolding built_from_def using go(1,2) bin by blast
  have at2: "sg_files st2 ?out = Some binary" using log outside go(4) [OF bin] by simp
  note stored = binary_stored [OF p [unfolded x3] outside [folded path]]
  have same1: "peek st1 q = peek st q" if "stored_at (sourceObjectKey h) = Some q" for q
  proof (rule peek_same [OF that])
    have pd: "dir_names w \<and> \<not> inside w p" if "file_at key = Some p" "work_dir ?env w" for w p key
      using assms(5) that unfolding private_dirs_def by blast
    show "sg_files st1 p = sg_files st p" if "file_at (sourceObjectKey h) = Some p" for p
      using Build_files [OF b pd [OF that]] outside that abs by fastforce
    show "sg_bucket st1 = sg_bucket st"
      by (rule Build_bucket [OF b])
  qed
  have "peek st' q = peek st q" if "stored_at (sourceObjectKey h) = Some q" for q
    using same1 [OF that] different_places(1,2) [OF that] log stored fin by metis
  moreover have "cr_Source (fst y) = cr_Source (fst x)"
  proof -
    have "cr_Source (fst x3) = cr_Source (fst x2)" "cr_Source (fst x2) = cr_Source (fst x1)"
      using arg_cong [OF conjunct1 [OF stored], of cr_Source] arg_cong [OF conjunct1 [OF log], of cr_Source]
      by simp_all
    with fin x1 show ?thesis by (simp add: task_ok_def)
  qed
  moreover have "cr_Binary (fst y) = cr_Binary (fst x3)" using fin by (simp add: task_ok_def)
  ultimately show ?thesis using stored fin at2 path made by auto
qed

text \<open>What an answered task has stored.\<close>

lemma answered_task:
  assumes "processTask env cfg \<lparr>so_PutBytes = put_bytes, so_PutFile = put_file\<rparr> task st = (Some (r, m), st')"
    "cr_OK r" "private_dirs file_at env" "go_builds (te_Build env)"
    "be_GOOS (te_Build env) \<noteq> []" "be_GOARCH (te_Build env) \<noteq> []"
  shows "\<exists>source t. normalizeTask env cfg task = Inr t \<and> program_of (te_Emit env) task source \<and>
    (boolOrDefault (ct_StoreSource task) True \<longrightarrow> (\<exists>ref. cr_Source r = Some ref \<and>
       stored_at (sourceObjectKey (ct_ModelHash task)) = Some (place (cg_Key ref)) \<and>
       peek st' (place (cg_Key ref)) = Some source \<and> describes sha ref source ''text/x-go; charset=utf-8'')) \<and>
    (ct_Mode t = taskModeBuild \<longrightarrow> boolOrDefault (ct_StoreBinary task) True \<longrightarrow>
      (\<exists>ref binary. cr_Binary r = Some ref \<and>
         stored_at (binaryObjectKey (ct_ModelHash task) (ct_GOOS t) (ct_GOARCH t)) = Some (place (cg_Key ref)) \<and>
         peek st' (place (cg_Key ref)) = Some binary \<and> describes sha ref binary ''application/octet-stream'' \<and>
         built_from (te_Build env) source (ct_GOOS t) (ct_GOARCH t) binary))"
proof -
  let ?ops = "\<lparr>so_PutBytes = put_bytes, so_PutFile = put_file\<rparr>" and ?h = "ct_ModelHash task"
  obtain m0 where steps: "process_steps env cfg ?ops task st = (Some (r, m0), st')"
    using assms(1) by (auto simp: processTask_def split: prod.splits option.splits)
  obtain t where t: "normalizeTask env cfg task = Inr t"
    using steps assms(2)
    by (cases "normalizeTask env cfg task") (auto simp: process_steps_def task_failed_def failResult_def)
  note n = normalizeTask_Inr [OF t]
  obtain g where g: "GenerateWithHash (te_Emit env) (ct_ModelHash t) (ct_DSL t) = Inr g"
    using steps assms(2) t
    by (cases "GenerateWithHash (te_Emit env) (ct_ModelHash t) (ct_DSL t)")
      (auto simp: process_steps_def task_failed_def failResult_def Let_def split: gen_fail.splits)
  define x where "x = ((initial_result task)\<lparr>cr_Mode := ct_Mode t, cr_GOOS := ct_GOOS t, cr_GOARCH := ct_GOARCH t,
      cr_ModelHash := gr_Hash g\<rparr>, zero_metrics\<lparr>tm_GenerateMS := durationMS (te_Took env stageGenerate)\<rparr>)"
  obtain r1 st1 where s: "store_source env ?ops t (gr_Source g) x st = (r1, st1)" by fastforce
  have def: "(case r1 of Inl x \<Rightarrow> (Some x, st1) | Inr x \<Rightarrow>
      if ct_Mode t = taskModeGenerate then (Some (task_ok x), st1)
      else (case process_build env cfg ?ops t (gr_Source g) x st1 of (x, st) \<Rightarrow> (Some x, st))) = (Some (r, m0), st')"
    using steps by (simp add: process_steps_def t g s [unfolded x_def] Let_def)
  obtain y where y: "r1 = Inr y"
    using def s assms(2)
    by (cases r1) (auto simp: store_source_def task_failed_def failResult_def Let_def split: if_splits prod.splits sum.splits)
  note src = source_stored [OF s [unfolded y]]
  have prog: "program_of (te_Emit env) task (gr_Source g)"
    using generated [OF g] n unfolding program_of_def by auto
  show ?thesis
  proof (cases "ct_Mode t = taskModeGenerate")
    case True
    then have "r = (fst y)\<lparr>cr_OK := True\<rparr>" "st' = st1" using def y by (auto simp: task_ok_def)
    with src prog t n True show ?thesis by (auto simp: task_modes)
  next
    case False
    then have mode: "ct_Mode t = taskModeBuild" using n by auto
    obtain d where d: "te_OutputDir env = Inr d"
      using def y False assms(2)
      by (cases "te_OutputDir env") (auto simp: process_build_def task_failed_def failResult_def)
    obtain z st2 where z: "build_and_store env cfg ?ops t (gr_Source g) d y st1 = (z, st2)" by fastforce
    have fin: "z = (r, m0)" "st' = (if te_RemoveErr env then st2 else remove_all d st2)"
      using def y False by (simp_all add: process_build_def d z)
    have ok: "cr_OK (fst z)" "\<not> cr_OK (fst y)"
      using assms(2) fin(1) arg_cong [OF conjunct1 [OF src], of cr_OK] by (simp_all add: x_def initial_result_def)
    have plat: "ct_GOOS t \<noteq> []" "ct_GOARCH t \<noteq> []" using n mode assms(5,6) by auto
    note b = built_and_stored [OF z ok d assms(3,4) plat]
    have keep: "peek st' q = peek st2 q" if "stored_at key = Some q" for key q
      using that
    proof (rule peek_same)
      show "sg_bucket st' = sg_bucket st2" using fin by simp
      show "sg_files st' p = sg_files st2 p" if "file_at key = Some p" for p
        using assms(3) d that fin(2) unfolding private_dirs_def by (auto simp: remove_all_files)
    qed
    have hash: "ct_ModelHash t = ?h" "ct_StoreSource t = ct_StoreSource task" "ct_StoreBinary t = ct_StoreBinary task"
      using n by auto
    have source: "boolOrDefault (ct_StoreSource task) True \<longrightarrow> (\<exists>ref. cr_Source r = Some ref \<and>
       stored_at (sourceObjectKey ?h) = Some (place (cg_Key ref)) \<and>
       peek st' (place (cg_Key ref)) = Some (gr_Source g) \<and> describes sha ref (gr_Source g) ''text/x-go; charset=utf-8'')"
      using src b [of ?h] keep fin(1) hash by fastforce
    have binary: "boolOrDefault (ct_StoreBinary task) True \<longrightarrow> (\<exists>ref binary. cr_Binary r = Some ref \<and>
       stored_at (binaryObjectKey ?h (ct_GOOS t) (ct_GOARCH t)) = Some (place (cg_Key ref)) \<and>
       peek st' (place (cg_Key ref)) = Some binary \<and> describes sha ref binary ''application/octet-stream'' \<and>
       built_from (te_Build env) (gr_Source g) (ct_GOOS t) (ct_GOARCH t) binary)"
      using b [of ?h] keep fin(1) hash by fastforce
    show ?thesis using t prog source binary by blast
  qed
qed

end

end
