(* ===== verification/Codegen_Serve.thy ===== *)
theory Codegen_Serve
  imports Codegen_Worker Control_Server
begin

text \<open>
  The code generator as a server (codegen/cmd/codegen/serve.go): its settings, the choice of the
  store, what becomes of one task message, and the loop that fetches messages for a pool of
  workers. JSON, NATS and the clock are arguments. The properties connect the worker with the
  control plane that asks it and with the dispatchers that load what it has stored.
\<close>

section \<open>Settings\<close>

record codegen_serve_config =
  gs_Workers :: int
  gs_NATSURL :: string
  gs_NATSStream :: string
  gs_NATSSubject :: string
  gs_NATSConsumer :: string
  gs_NATSCreateStream :: bool
  gs_NATSFetchWait :: duration
  gs_NATSAckWait :: duration
  gs_NATSPublishWait :: duration
  gs_MetricsSubject :: string
  gs_ArtifactStore :: string
  gs_ArtifactDir :: string
  gs_S3 :: s3_config
  gs_ModuleDir :: string
  gs_WorkDirRoot :: string
  gs_DefaultGOOS :: string
  gs_DefaultGOARCH :: string
  gs_BuildTimeout :: duration
  gs_KeepWorkDir :: bool

text \<open>The defaults of the flags, then the checks after parsing them.\<close>

definition default_serve_config :: "int \<Rightarrow> string \<Rightarrow> string \<Rightarrow> string \<Rightarrow> codegen_serve_config" where
  "default_serve_config numCPU natsURL goos goarch =
     \<lparr>gs_Workers = numCPU, gs_NATSURL = natsURL, gs_NATSStream = ''CODEGEN_TASKS'',
      gs_NATSSubject = ''codegen.tasks'', gs_NATSConsumer = ''codegen-worker'', gs_NATSCreateStream = True,
      gs_NATSFetchWait = 1000000000, gs_NATSAckWait = 600000000000, gs_NATSPublishWait = 5000000000,
      gs_MetricsSubject = [], gs_ArtifactStore = ''fs'', gs_ArtifactDir = ''./artifacts'',
      gs_S3 = \<lparr>s3_Endpoint = ''localhost:9000'', s3_AccessKey = ''minioadmin'', s3_SecretKey = ''minioadmin'',
        s3_Bucket = ''cloud-des-artifacts'', s3_UseSSL = False, s3_Region = ''ru-1'', s3_Prefix = [],
        s3_CreateBucket = True\<rparr>,
      gs_ModuleDir = ''.'', gs_WorkDirRoot = [], gs_DefaultGOOS = goos, gs_DefaultGOARCH = goarch,
      gs_BuildTimeout = 120000000000, gs_KeepWorkDir = False\<rparr>"

definition check_serve_config :: "codegen_serve_config \<Rightarrow> string + unit" where
  "check_serve_config cfg =
     (let s3 = gs_S3 cfg in
      bindE (failE (gs_Workers cfg \<le> 0) ''workers must be > 0'') (\<lambda>_.
      bindE (failE (gs_NATSURL cfg = []) ''empty nats-url'') (\<lambda>_.
      bindE (failE (gs_NATSStream cfg = []) ''empty nats-stream'') (\<lambda>_.
      bindE (failE (gs_NATSSubject cfg = []) ''empty nats-subject'') (\<lambda>_.
      bindE (failE (gs_NATSConsumer cfg = []) ''empty nats-consumer'') (\<lambda>_.
      bindE (failE (gs_NATSFetchWait cfg \<le> 0) ''nats-fetch-wait must be > 0'') (\<lambda>_.
      bindE (failE (gs_NATSAckWait cfg \<le> 0) ''nats-ack-wait must be > 0'') (\<lambda>_.
      bindE (failE (gs_NATSPublishWait cfg \<le> 0) ''nats-publish-wait must be > 0'') (\<lambda>_.
      bindE
        (if gs_ArtifactStore cfg = ''fs'' then failE (gs_ArtifactDir cfg = []) ''empty artifact-dir''
         else if gs_ArtifactStore cfg = ''s3'' then
           bindE (failE (s3_Endpoint s3 = []) ''empty s3-endpoint'') (\<lambda>_.
           bindE (failE (s3_AccessKey s3 = []) ''empty s3-access-key'') (\<lambda>_.
           bindE (failE (s3_SecretKey s3 = []) ''empty s3-secret-key'') (\<lambda>_.
           bindE (failE (s3_Bucket s3 = []) ''empty s3-bucket'') (\<lambda>_.
           failE (s3_Region s3 = []) ''empty s3-region''))))
         else Inl (msg [''unknown artifact-store '', quoted (gs_ArtifactStore cfg), '', expected fs or s3''])) (\<lambda>_.
      bindE (failE (gs_DefaultGOOS cfg = []) ''empty default-goos'') (\<lambda>_.
      bindE (failE (gs_DefaultGOARCH cfg = []) ''empty default-goarch'') (\<lambda>_.
      failE (gs_BuildTimeout cfg \<le> 0) ''build-timeout must be > 0''))))))))))))"

definition fs_ops :: "(string \<Rightarrow> string) \<Rightarrow> fs_store \<Rightarrow> store_ops" where
  "fs_ops sha s = \<lparr>so_PutBytes = fs_PutBytes sha s, so_PutFile = fs_PutFile sha s\<rparr>"

definition s3_ops :: "(string \<Rightarrow> string) \<Rightarrow> s3_store \<Rightarrow> store_ops" where
  "s3_ops sha s = \<lparr>so_PutBytes = s3_PutBytes sha s, so_PutFile = s3_PutFile sha s\<rparr>"

text \<open>\<open>connect\<close> is \<open>NewS3Store\<close> with the client's answers.\<close>

definition newServeStore ::
  "(string \<Rightarrow> string) \<Rightarrow> (string \<Rightarrow> string + string) \<Rightarrow> (s3_config \<Rightarrow> string + s3_store) \<Rightarrow>
   codegen_serve_config \<Rightarrow> string + store_ops" where
  "newServeStore sha filepath_Abs connect cfg =
     (if gs_ArtifactStore cfg = ''fs''
      then bindE (NewFSStore filepath_Abs (gs_ArtifactDir cfg)) (\<lambda>s. Inr (fs_ops sha s))
      else if gs_ArtifactStore cfg = ''s3''
      then bindE (connect (gs_S3 cfg)) (\<lambda>s. Inr (s3_ops sha s))
      else Inl (msg [''unknown artifact store '', quoted (gs_ArtifactStore cfg)]))"

definition artifactStoreDescription :: "codegen_serve_config \<Rightarrow> string" where
  "artifactStoreDescription cfg =
     (let s3 = gs_S3 cfg in
      if gs_ArtifactStore cfg = ''fs'' then msg [''fs:'', gs_ArtifactDir cfg]
      else if gs_ArtifactStore cfg = ''s3'' then
        (if s3_Prefix s3 = [] then msg [''s3://'', s3_Bucket s3, '' endpoint='', s3_Endpoint s3]
         else msg [''s3://'', s3_Bucket s3, ''/'', s3_Prefix s3, '' endpoint='', s3_Endpoint s3])
      else gs_ArtifactStore cfg)"

definition process_config_of :: "codegen_serve_config \<Rightarrow> process_config" where
  "process_config_of cfg =
     \<lparr>pc_ModuleDir = gs_ModuleDir cfg, pc_WorkDirRoot = gs_WorkDirRoot cfg,
      pc_DefaultGOOS = gs_DefaultGOOS cfg, pc_DefaultGOARCH = gs_DefaultGOARCH cfg,
      pc_BuildTimeout = gs_BuildTimeout cfg, pc_KeepWorkDir = gs_KeepWorkDir cfg\<rparr>"

section \<open>One message\<close>

text \<open>
  What a worker does with a message, in order. A publication carries its error, if any; a
  message is acknowledged or given back, whatever the server answers.
\<close>

datatype message_event =
    Published string codegen_result "string option"
  | PublishedMetrics task_metrics
  | Acked
  | Naked

record message_env =
  mv_Decode :: "string + codegen_task"
  mv_Reply :: string
  mv_Publish :: "string \<Rightarrow> string option"
  mv_Task :: task_env

definition publishMetricsBestEffort :: "codegen_serve_config \<Rightarrow> task_metrics \<Rightarrow> message_event list" where
  "publishMetricsBestEffort cfg metrics =
     (if gs_MetricsSubject cfg = [] then [] else [PublishedMetrics metrics])"

text \<open>The part that both branches share: answer, metrics, acknowledgement.\<close>

definition answer_message ::
  "codegen_serve_config \<Rightarrow> (string \<Rightarrow> string option) \<Rightarrow> string \<Rightarrow> codegen_result \<Rightarrow> task_metrics \<Rightarrow>
   message_event list" where
  "answer_message cfg publish replySubject result metrics =
     (if replySubject = [] then publishMetricsBestEffort cfg metrics @ [Acked]
      else case publish replySubject of
             Some err \<Rightarrow> [Published replySubject result (Some err), Naked]
           | None \<Rightarrow> Published replySubject result None # publishMetricsBestEffort cfg metrics @ [Acked])"

definition decode_failed_result :: "string \<Rightarrow> codegen_result" where
  "decode_failed_result err = \<lparr>cr_RequestID = [], cr_OK = False, cr_ModelHash = [], cr_Mode = [], cr_GOOS = [],
     cr_GOARCH = [], cr_Source = None, cr_Binary = None, cr_BuildLog = None, cr_Stage = stageDecode,
     cr_ErrorCode = errorDecode, cr_Message = err\<rparr>"

definition handleTaskMessage ::
  "codegen_serve_config \<Rightarrow> store_ops \<Rightarrow> message_env \<Rightarrow> storage \<Rightarrow> message_event list option \<times> storage" where
  "handleTaskMessage cfg store env st =
     (case mv_Decode env of
        Inl err \<Rightarrow>
          (let metrics = zero_metrics\<lparr>tm_Stage := stageDecode, tm_ErrorCode := errorDecode,
                 tm_ArtifactStore := gs_ArtifactStore cfg\<rparr> in
           (Some (answer_message cfg (mv_Publish env) (mv_Reply env) (decode_failed_result err) metrics), st))
      | Inr task \<Rightarrow>
          (let replySubject = (if ct_ReplySubject task = [] then mv_Reply env else ct_ReplySubject task) in
           case processTask (mv_Task env) (process_config_of cfg) store task st of
             (None, st) \<Rightarrow> (None, st)
           | (Some (result, metrics), st) \<Rightarrow>
               (Some (answer_message cfg (mv_Publish env) replySubject result
                        (metrics\<lparr>tm_ArtifactStore := gs_ArtifactStore cfg\<rparr>)), st)))"

section \<open>The pool\<close>

text \<open>\<open>fetchOne\<close>: the first message of the batch, else its error.\<close>

definition fetchOne :: "string + ('m list \<times> string option) \<Rightarrow> string + 'm option" where
  "fetchOne batch =
     (case batch of
        Inl err \<Rightarrow> Inl err
      | Inr (m # _, _) \<Rightarrow> Inr (Some m)
      | Inr ([], Some err) \<Rightarrow> Inl err
      | Inr ([], None) \<Rightarrow> Inr None)"

text \<open>
  \<open>fetchLoop\<close> and its workers share the buffered channel of free places. A token is taken
  before a fetch and put back when the fetch gives nothing or the message is dealt with; a send
  on the full channel would wait. The fetcher waits for a place, fetches, holds a message for
  the first idle worker, or is about to put a token back (to go on or to stop).
\<close>

datatype 'm fetcher = Waiting | Fetching | Holding 'm | GivingBack bool | Dropping 'm | Stopped

record 'm worker_pool =
  po_workers :: nat
  po_available :: nat
  po_fetcher :: "'m fetcher"
  po_busy :: "'m list"
  po_finishing :: nat
  po_taken :: "'m list"
  po_settled :: "'m list"

definition start_pool :: "nat \<Rightarrow> 'm worker_pool" where
  "start_pool n = \<lparr>po_workers = n, po_available = n, po_fetcher = Waiting, po_busy = [], po_finishing = 0,
     po_taken = [], po_settled = []\<rparr>"

inductive pool_step :: "'m worker_pool \<Rightarrow> 'm worker_pool \<Rightarrow> bool" where
  shutdown: "po_fetcher s = Waiting \<Longrightarrow> pool_step s (s\<lparr>po_fetcher := Stopped\<rparr>)"
| take_place: "po_fetcher s = Waiting \<Longrightarrow> po_available s > 0 \<Longrightarrow>
    pool_step s (s\<lparr>po_fetcher := Fetching, po_available := po_available s - 1\<rparr>)"
| fetch_failed: "po_fetcher s = Fetching \<Longrightarrow> fetchOne batch = (Inl err :: string + 'm option) \<Longrightarrow>
    pool_step s (s\<lparr>po_fetcher := GivingBack stopping\<rparr>)"
| fetch_nothing: "po_fetcher s = Fetching \<Longrightarrow> fetchOne batch = (Inr None :: string + 'm option) \<Longrightarrow>
    pool_step s (s\<lparr>po_fetcher := GivingBack False\<rparr>)"
| fetched: "po_fetcher s = Fetching \<Longrightarrow> fetchOne batch = Inr (Some m) \<Longrightarrow>
    pool_step s (s\<lparr>po_fetcher := Holding m, po_taken := po_taken s @ [m]\<rparr>)"
| give_back: "po_fetcher s = GivingBack stopping \<Longrightarrow> po_available s < po_workers s \<Longrightarrow>
    pool_step s (s\<lparr>po_fetcher := if stopping then Stopped else Waiting, po_available := po_available s + 1\<rparr>)"
| hand_over: "po_fetcher s = Holding m \<Longrightarrow> length (po_busy s) + po_finishing s < po_workers s \<Longrightarrow>
    pool_step s (s\<lparr>po_fetcher := Waiting, po_busy := m # po_busy s\<rparr>)"
| canceled: "po_fetcher s = Holding m \<Longrightarrow> pool_step s (s\<lparr>po_fetcher := Dropping m\<rparr>)"
| drop_message: "po_fetcher s = Dropping m \<Longrightarrow> po_available s < po_workers s \<Longrightarrow>
    pool_step s (s\<lparr>po_fetcher := Stopped, po_available := po_available s + 1, po_settled := m # po_settled s\<rparr>)"
| handled: "m \<in> set (po_busy s) \<Longrightarrow>
    pool_step s (s\<lparr>po_busy := remove1 m (po_busy s), po_finishing := po_finishing s + 1,
                  po_settled := m # po_settled s\<rparr>)"
| free_place: "po_finishing s > 0 \<Longrightarrow> po_available s < po_workers s \<Longrightarrow>
    pool_step s (s\<lparr>po_finishing := po_finishing s - 1, po_available := po_available s + 1\<rparr>)"

fun token_held :: "'m fetcher \<Rightarrow> nat" where
  "token_held Waiting = 0"
| "token_held Stopped = 0"
| "token_held _ = 1"

fun in_hand :: "'m fetcher \<Rightarrow> 'm list" where
  "in_hand (Holding m) = [m]"
| "in_hand (Dropping m) = [m]"
| "in_hand _ = []"

text \<open>A place is free, or it belongs to the fetcher or to one worker; and no message is lost.\<close>

definition pool_inv :: "'m worker_pool \<Rightarrow> bool" where
  "pool_inv s \<longleftrightarrow>
     po_available s + token_held (po_fetcher s) + length (po_busy s) + po_finishing s = po_workers s \<and>
     mset (po_taken s) = mset (po_settled s) + mset (po_busy s) + mset (in_hand (po_fetcher s))"

lemma pool_step_inv: "pool_step s s' \<Longrightarrow> pool_inv s \<Longrightarrow> pool_inv s' \<and> po_workers s' = po_workers s"
proof (induction rule: pool_step.induct)
  case (handled m s)
  then have "length (remove1 m (po_busy s)) + 1 = length (po_busy s)"
    using length_pos_if_in_set [of m "po_busy s"] by (simp add: length_remove1)
  with handled show ?case by (auto simp: pool_inv_def length_remove1)
next
  case (take_place s)
  then show ?case by (auto simp: pool_inv_def)
qed (auto simp: pool_inv_def split: if_splits)

lemma pool_run_inv: "pool_step\<^sup>*\<^sup>* (start_pool n) s \<Longrightarrow> pool_inv s \<and> po_workers s = n"
  by (induction rule: rtranclp_induct) (auto simp: start_pool_def pool_inv_def dest: pool_step_inv [unfolded pool_inv_def])

section \<open>The worker keeps the control plane's contract\<close>

text \<open>
  The code generator as the control plane sees it: the reply of a worker, or none when the
  worker ended without one.
\<close>

definition codegen_service ::
  "task_env \<Rightarrow> process_config \<Rightarrow> store_ops \<Rightarrow> storage \<Rightarrow> codegen_task \<Rightarrow> string + codegen_result" where
  "codegen_service env cfg store st task =
     (case fst (processTask env cfg store task st) of
        None \<Rightarrow> Inl ''context deadline exceeded''
      | Some (result, metrics) \<Rightarrow> Inr result)"

text \<open>What the steps of a task leave alone in its result.\<close>

definition about :: "codegen_result \<Rightarrow> codegen_result \<Rightarrow> bool" where
  "about r r' \<longleftrightarrow> cr_RequestID r' = cr_RequestID r \<and> cr_ModelHash r' = cr_ModelHash r \<and> cr_Mode r' = cr_Mode r \<and>
     cr_GOOS r' = cr_GOOS r \<and> cr_GOARCH r' = cr_GOARCH r"

lemma about_refl [simp]: "about r r"
  by (simp add: about_def)

lemma about_trans: "about r r' \<Longrightarrow> about r' r'' \<Longrightarrow> about r r''"
  by (simp add: about_def)

lemma task_failed_about [simp]: "about r (fst (task_failed stage code err x)) \<longleftrightarrow> about r (fst x)"
  by (simp add: about_def task_failed_def failResult_def)

lemma task_ok_about [simp]: "about r (fst (task_ok x)) \<longleftrightarrow> about r (fst x)"
  by (simp add: about_def task_ok_def)

lemma store_source_about:
  "store_source env store task source x st = (y, st') \<Longrightarrow> about (fst x) (fst (case_sum (\<lambda>z. z) (\<lambda>z. z) y))"
  by (auto simp: store_source_def Let_def about_def task_failed_def failResult_def
      split: if_splits prod.splits sum.splits)

lemma store_build_log_about:
  "store_build_log env store task built err x st = (y, st') \<Longrightarrow> about (fst x) (fst (case_sum (\<lambda>z. z) (\<lambda>z. z) y))"
  by (auto simp: store_build_log_def Let_def about_def task_failed_def failResult_def
      split: if_splits prod.splits sum.splits option.splits)

lemma store_binary_about:
  "store_binary env store task built x st = (y, st') \<Longrightarrow> about (fst x) (fst (case_sum (\<lambda>z. z) (\<lambda>z. z) y))"
  by (auto simp: store_binary_def Let_def about_def task_failed_def failResult_def
      split: if_splits prod.splits sum.splits)

lemma build_and_store_about:
  assumes "build_and_store env cfg store task source d x st = (y, st')"
  shows "about (fst x) (fst y)"
proof -
  obtain built err st1 where b: "Build (te_Build env) (build_request_of cfg task source d) st = ((built, err), st1)"
    by (metis prod.exhaust)
  define x1 where "x1 = (fst x, (snd x)\<lparr>tm_BuildMS := durationMS (te_Took env stageBuild)\<rparr>)"
  note def = assms [unfolded build_and_store_def b prod.case Let_def x1_def [symmetric]]
  obtain r2 st2 where l: "store_build_log env store task built err x1 st1 = (r2, st2)" by fastforce
  have l2: "about (fst x) (fst (case_sum (\<lambda>z. z) (\<lambda>z. z) r2))"
    using store_build_log_about [OF l] by (simp add: x1_def)
  show ?thesis
  proof (cases r2)
    case (Inl z)
    with def l l2 show ?thesis by auto
  next
    case (Inr x2)
    obtain r3 st3 where p: "store_binary env store task built x2 st2 = (r3, st3)" by fastforce
    have "about (fst x2) (fst (case_sum (\<lambda>z. z) (\<lambda>z. z) r3))" using store_binary_about [OF p] .
    with l2 Inr have "about (fst x) (fst (case_sum (\<lambda>z. z) (\<lambda>z. z) r3))" by (auto intro: about_trans)
    with def l l2 p Inr show ?thesis by (cases err; cases r3) auto
  qed
qed

lemma process_build_about:
  "process_build env cfg store task source x st = (y, st') \<Longrightarrow> about (fst x) (fst y)"
  by (auto simp: process_build_def split: sum.splits prod.splits dest: build_and_store_about)

lemma process_steps_about:
  assumes "process_steps env cfg store task st = (Some y, st')"
  shows "cr_RequestID (fst y) = ct_RequestID task \<and> cr_ModelHash (fst y) = ct_ModelHash task \<and>
    (ct_GOOS task \<noteq> [] \<longrightarrow> cr_GOOS (fst y) = ct_GOOS task) \<and>
    (ct_GOARCH task \<noteq> [] \<longrightarrow> cr_GOARCH (fst y) = ct_GOARCH task)"
proof (cases "normalizeTask env cfg task")
  case (Inl err)
  with assms show ?thesis
    by (auto simp: process_steps_def Let_def task_failed_def failResult_def initial_result_def)
next
  case (Inr t)
  note n = normalizeTask_Inr [OF Inr]
  let ?g = "GenerateWithHash (te_Emit env) (ct_ModelHash t) (ct_DSL t)"
  define r where "r = (initial_result task)\<lparr>cr_Mode := ct_Mode t, cr_GOOS := ct_GOOS t, cr_GOARCH := ct_GOARCH t\<rparr>"
  define ms where "ms = zero_metrics\<lparr>tm_GenerateMS := durationMS (te_Took env stageGenerate)\<rparr>"
  note def = assms [unfolded process_steps_def Let_def Inr sum.case fst_conv snd_conv,
    folded r_def ms_def]
  have base: "cr_RequestID r = ct_RequestID task \<and> cr_ModelHash r = ct_ModelHash task \<and>
    (ct_GOOS task \<noteq> [] \<longrightarrow> cr_GOOS r = ct_GOOS task) \<and> (ct_GOARCH task \<noteq> [] \<longrightarrow> cr_GOARCH r = ct_GOARCH task)"
    using n by (simp add: r_def initial_result_def)
  have "about r (fst y)"
  proof (cases ?g)
    case (Inl f)
    with def show ?thesis by (cases f) auto
  next
    case g: (Inr g)
    have "gr_Hash g = cr_ModelHash r" using generated [OF g] n base by simp
    then have same: "r\<lparr>cr_ModelHash := gr_Hash g\<rparr> = r" by simp
    obtain r1 st1 where s: "store_source env store t (gr_Source g) (r, ms) st = (r1, st1)" by fastforce
    note d2 = def [unfolded g sum.case same s prod.case]
    have a: "about r (fst (case_sum (\<lambda>z. z) (\<lambda>z. z) r1))" using store_source_about [OF s] by simp
    show ?thesis
    proof (cases r1)
      case (Inl z)
      with d2 a show ?thesis by simp
    next
      case (Inr z)
      obtain w st2 where w: "process_build env cfg store t (gr_Source g) z st1 = (w, st2)" by fastforce
      have "about r (fst z)" using a Inr by simp
      with process_build_about [OF w] d2 Inr w show ?thesis by (auto intro: about_trans split: if_splits)
    qed
  qed
  with base show ?thesis by (simp add: about_def)
qed

text \<open>
  C14. The worker answers for what it was asked: whatever becomes of a task, its result names the
  model and the platform of the request, which is what the control plane relies on when it
  stores the artifacts and queues the experiments of a batch.
\<close>

theorem worker_answers_its_request:
  "answers_request (codegen_service env cfg store st)"
  using process_steps_about
  by (fastforce simp: answers_request_def codegen_service_def processTask_def split: option.splits prod.splits)

definition answered :: "message_event list \<Rightarrow> bool" where
  "answered evs \<longleftrightarrow> (\<exists>subject result. Published subject result None \<in> set evs)"

text \<open>
  C12. A message is settled once, and only with its answer: the worker acknowledges it exactly
  when the answer is published or nobody waits for one, and gives it back otherwise. Only a
  task that ends the process is left to be delivered again.
\<close>

theorem message_settled_once:
  "case handleTaskMessage cfg store env st of
     (None, st') \<Rightarrow> (\<exists>task. mv_Decode env = Inr task \<and> fst (processTask (mv_Task env) (process_config_of cfg) store task st) = None)
   | (Some evs, st') \<Rightarrow>
       (\<exists>before. evs = before @ [Acked] \<or> evs = before @ [Naked]) \<and>
       count_list evs Acked + count_list evs Naked = 1 \<and>
       (last evs = Acked \<longleftrightarrow> answered evs \<or> (\<forall>subject result err. Published subject result err \<notin> set evs)) \<and>
       (last evs = Naked \<longrightarrow> (\<forall>metrics. PublishedMetrics metrics \<notin> set evs))"
proof -
  have "(\<exists>before. evs = before @ [Acked] \<or> evs = before @ [Naked]) \<and>
       count_list evs Acked + count_list evs Naked = 1 \<and>
       (last evs = Acked \<longleftrightarrow> answered evs \<or> (\<forall>subject result err. Published subject result err \<notin> set evs)) \<and>
       (last evs = Naked \<longrightarrow> (\<forall>metrics. PublishedMetrics metrics \<notin> set evs))"
    if "evs = answer_message cfg p subject r m" for evs p subject r m
    using that
    by (auto simp: answer_message_def publishMetricsBestEffort_def answered_def split: option.splits)
  then show ?thesis
    by (auto simp: handleTaskMessage_def Let_def split: sum.splits prod.splits option.splits)
qed


lemma one_message_run:
  "pool_step\<^sup>*\<^sup>* (start_pool 1)
     \<lparr>po_workers = 1, po_available = 0, po_fetcher = Holding (7 :: nat), po_busy = [], po_finishing = 0,
      po_taken = [7], po_settled = []\<rparr>"
proof -
  have "pool_step (start_pool 1 :: nat worker_pool) ((start_pool 1)\<lparr>po_fetcher := Fetching, po_available := 0\<rparr>)"
    using pool_step.take_place [of "start_pool 1 :: nat worker_pool"] by (simp add: start_pool_def)
  moreover have "pool_step ((start_pool 1)\<lparr>po_fetcher := Fetching, po_available := 0\<rparr>)
     \<lparr>po_workers = 1, po_available = 0, po_fetcher = Holding (7 :: nat), po_busy = [], po_finishing = 0,
      po_taken = [7], po_settled = []\<rparr>"
    using pool_step.fetched [of "(start_pool 1)\<lparr>po_fetcher := Fetching, po_available := 0\<rparr>" "Inr ([7], None)" "7 :: nat"]
    by (simp add: start_pool_def fetchOne_def)
  ultimately show ?thesis by (meson converse_rtranclp_into_rtranclp rtranclp.rtrancl_refl)
qed


section \<open>From the generator to the nodes\<close>

lemma key_names_model: "\<not> is_prefix ''//'' (replace_byte (CHR 0x5C) (CHR ''/'') (''models/'' @ t))"
  by (simp add: replace_byte_def)

lemma GetFile_found:
  assumes "normalizeS3ObjectKey key = Inr key" "sg_bucket st key = Some (data, ct)" "expected = [] \<or> equal_fold (sha data) expected"
  shows "\<exists>got st'. s3_GetFile sha no_get_faults key dst expected st = (Inr got, st') \<and>
    sg_files st' dst = Some data \<and> ar_Sha256 got = sha data"
  using assms by (auto simp: s3_GetFile_def no_get_faults_def stat_object_def Let_def)

text \<open>
  C11. A dispatcher loads exactly what was built: when a worker reports a task as done and has
  stored the binary in the bucket, the binary is what the compiler made of the program
  generated from the text of the task, for the platform of the task, and a dispatcher that
  asks for the reported key and hash gets these bytes, as long as the object is not replaced.
\<close>

theorem built_binary_reaches_nodes:
  assumes "processTask env cfg (s3_ops sha s) task st = (Some (r, m), st')" "cr_OK r"
    "ct_Mode task \<in> {[], taskModeBuild}" "boolOrDefault (ct_StoreBinary task) True"
    "ct_GOOS task \<noteq> []" "ct_GOARCH task \<noteq> []" "normalizeS3Prefix p0 = Inr (st_Prefix s)"
    "private_dirs (\<lambda>_. None) env" "go_builds (te_Build env)"
    "be_GOOS (te_Build env) \<noteq> []" "be_GOARCH (te_Build env) \<noteq> []"
  shows "\<exists>ref source binary. cr_Binary r = Some ref \<and> program_of (te_Emit env) task source \<and>
    built_from (te_Build env) source (ct_GOOS task) (ct_GOARCH task) binary \<and>
    (\<forall>later dst. sg_bucket later (cg_Key ref) = sg_bucket st' (cg_Key ref) \<longrightarrow>
       (\<exists>got later'. s3_GetFile sha no_get_faults (cg_Key ref) dst (cg_SHA256 ref) later = (Inr got, later') \<and>
          sg_files later' dst = Some binary))"
proof -
  obtain source t where t: "normalizeTask env cfg task = Inr t" and prog: "program_of (te_Emit env) task source"
    and bin: "ct_Mode t = taskModeBuild \<longrightarrow> boolOrDefault (ct_StoreBinary task) True \<longrightarrow>
      (\<exists>ref binary. cr_Binary r = Some ref \<and>
         ok_part (objectKeyForWrite (st_Prefix s) (binaryObjectKey (ct_ModelHash task) (ct_GOOS t) (ct_GOARCH t))) =
           Some (cg_Key ref) \<and>
         map_option fst (sg_bucket st' (cg_Key ref)) = Some binary \<and> describes sha ref binary ''application/octet-stream'' \<and>
         built_from (te_Build env) source (ct_GOOS t) (ct_GOARCH t) binary)"
    using bucket.answered_task [OF assms(1) [unfolded s3_ops_def] assms(2,8-11)] by blast
  note n = normalizeTask_Inr [OF t]
  have same: "ct_Mode t = taskModeBuild" "ct_GOOS t = ct_GOOS task" "ct_GOARCH t = ct_GOARCH task"
    using n assms(3,5,6) by auto
  then obtain ref binary where ref: "cr_Binary r = Some ref"
    "objectKeyForWrite (st_Prefix s) (binaryObjectKey (ct_ModelHash task) (ct_GOOS task) (ct_GOARCH task)) = Inr (cg_Key ref)"
    "map_option fst (sg_bucket st' (cg_Key ref)) = Some binary" "cg_SHA256 ref = sha binary"
    "built_from (te_Build env) source (ct_GOOS task) (ct_GOARCH task) binary"
    using bin assms(4) by (auto simp: describes_def)
  have "normalizeS3ObjectKey (cg_Key ref) = Inr (cg_Key ref)"
    using written_key_plain [OF ref(2)] key_names_model s3_prefix_plain [OF assms(7)]
    by (simp add: keys_named)
  then have "\<exists>got later'. s3_GetFile sha no_get_faults (cg_Key ref) dst (cg_SHA256 ref) later = (Inr got, later') \<and>
      sg_files later' dst = Some binary" if "sg_bucket later (cg_Key ref) = sg_bucket st' (cg_Key ref)" for later dst
    using that ref(3,4) GetFile_found [of "cg_Key ref" later binary _ "cg_SHA256 ref" sha dst] by (fastforce simp: equal_fold_def)
  with ref(1,5) prog show ?thesis by blast
qed

text \<open>A worker on a sample task: the demo model, a compiler that writes a short file.\<close>

definition demo_task :: codegen_task where
  "demo_task = \<lparr>ct_RequestID = ''r'', ct_ReplySubject = ''reply'', ct_ModelHash = replicate 64 (CHR ''a''),
     ct_DSL = drop 65 demo_text, ct_Mode = ''build'', ct_GOOS = ''linux'', ct_GOARCH = ''amd64'',
     ct_StoreSource = None, ct_StoreBinary = None, ct_BuildTimeoutSec = 60\<rparr>"

definition demo_build_env :: build_env where
  "demo_build_env = \<lparr>be_GOOS = ''linux'', be_GOARCH = ''amd64'', be_Abs = Inr, be_ReadErr = None,
     be_MkdirErr = (\<lambda>_. None), be_MkdirTemp = (\<lambda>_ _. Inr ''/tmp/w''), be_WriteMod = None, be_WriteSource = None,
     be_Go = (\<lambda>_ _ _ _ _ _. \<lparr>go_Log = [], go_Err = None, go_Deadline = False, go_Output = Some ''ELF''\<rparr>),
     be_RemoveErr = False\<rparr>"

definition demo_env :: task_env where
  "demo_env = \<lparr>te_Emit = (\<lambda>m. Inr ''package main''), te_Build = demo_build_env, te_OutputDir = Inr ''/tmp/o'',
     te_RemoveErr = False, te_Source = no_faults, te_Log = no_faults, te_Binary = no_faults, te_Took = (\<lambda>_. 0)\<rparr>"

definition demo_worker :: process_config where
  "demo_worker = \<lparr>pc_ModuleDir = ''/m'', pc_WorkDirRoot = [], pc_DefaultGOOS = ''linux'', pc_DefaultGOARCH = ''amd64'',
     pc_BuildTimeout = 120000000000, pc_KeepWorkDir = False\<rparr>"

definition demo_storage :: storage where
  "demo_storage = \<lparr>sg_files = [''/m/go.mod'' \<mapsto> ''module '' @ CodegenModulePath], sg_bucket = Map.empty\<rparr>"

definition demo_store :: s3_store where
  "demo_store = \<lparr>st_Bucket = ''models'', st_Prefix = ''team/a''\<rparr>"

definition demo_hash :: "string \<Rightarrow> string" where
  "demo_hash s = replicate 64 (CHR ''b'')"

lemma demo_done:
  "map_option (\<lambda>x. cr_OK (fst x)) (fst (processTask demo_env demo_worker (s3_ops demo_hash demo_store) demo_task demo_storage)) =
   Some True"
  by code_simp

lemma demo_dirs: "private_dirs (\<lambda>_. None) demo_env" "go_builds demo_build_env"
proof -
  have "dir_names ''/tmp/o'' \<and> dir_names ''/tmp/w''" unfolding dir_names_def by code_simp
  moreover have "\<not> inside ''/tmp/w'' (''/tmp/o'' @ ''/'' @ n)" for n by (simp add: inside_def)
  ultimately show "private_dirs (\<lambda>_. None) demo_env"
    by (auto simp: private_dirs_def demo_env_def demo_build_env_def work_dir_def)
  show "go_builds demo_build_env" by (simp add: go_builds_def demo_build_env_def)
qed

theorem built_binary_reaches_nodes_witness:
  "\<exists>r m st' ref. processTask demo_env demo_worker (s3_ops demo_hash demo_store) demo_task demo_storage = (Some (r, m), st') \<and>
     cr_Binary r = Some ref \<and>
     (\<exists>got later. s3_GetFile demo_hash no_get_faults (cg_Key ref) ''/w/model'' (cg_SHA256 ref) st' = (Inr got, later) \<and>
        sg_files later ''/w/model'' = Some ''ELF'')"
proof -
  let ?p = "processTask demo_env demo_worker (s3_ops demo_hash demo_store) demo_task demo_storage"
  obtain r m st' where run: "?p = (Some (r, m), st')" "cr_OK r"
    using demo_done by (cases ?p) auto
  have given: "ct_Mode demo_task \<in> {[], taskModeBuild}" "boolOrDefault (ct_StoreBinary demo_task) True"
    "ct_GOOS demo_task \<noteq> []" "ct_GOARCH demo_task \<noteq> []"
    "be_GOOS (te_Build demo_env) \<noteq> []" "be_GOARCH (te_Build demo_env) \<noteq> []"
    by (simp_all add: demo_task_def boolOrDefault_def task_modes demo_env_def demo_build_env_def)
  have env: "te_Build demo_env = demo_build_env" by (simp add: demo_env_def)
  have pre: "normalizeS3Prefix ''team/a/'' = Inr (st_Prefix demo_store)" by code_simp
  obtain ref source binary where ref: "cr_Binary r = Some ref"
    "built_from demo_build_env source (ct_GOOS demo_task) (ct_GOARCH demo_task) binary"
    "\<exists>got later. s3_GetFile demo_hash no_get_faults (cg_Key ref) ''/w/model'' (cg_SHA256 ref) st' = (Inr got, later) \<and>
       sg_files later ''/w/model'' = Some binary"
    using built_binary_reaches_nodes [OF run given(1-4) pre demo_dirs(1) demo_dirs(2) [folded env] given(5,6)]
    unfolding env by blast
  have "binary = ''ELF''" using ref(2) by (auto simp: built_from_def demo_build_env_def)
  with run ref show ?thesis by blast
qed

text \<open>The same task when its answer cannot be published: the message goes back.\<close>

definition mute_env :: message_env where
  "mute_env = \<lparr>mv_Decode = Inr demo_task, mv_Reply = [], mv_Publish = (\<lambda>_. Some ''nats: connection closed''),
     mv_Task = demo_env\<rparr>"

definition demo_serve :: codegen_serve_config where
  "demo_serve = (default_serve_config 1 ''nats://localhost:4222'' ''linux'' ''amd64'')
     \<lparr>gs_MetricsSubject := ''metrics'', gs_ModuleDir := ''/m''\<rparr>"

fun is_nak :: "message_event \<Rightarrow> bool" where
  "is_nak Naked \<longleftrightarrow> True"
| "is_nak _ \<longleftrightarrow> False"

lemma is_nak_iff: "is_nak e \<longleftrightarrow> e = Naked"
  by (cases e) simp_all

lemma mute_given_back:
  "map_option (\<lambda>evs. is_nak (last evs)) (fst (handleTaskMessage demo_serve (s3_ops demo_hash demo_store) mute_env demo_storage)) =
   Some True"
  by code_simp

theorem message_settled_once_witness:
  "\<exists>evs st'. handleTaskMessage demo_serve (s3_ops demo_hash demo_store) mute_env demo_storage = (Some evs, st') \<and>
     last evs = Naked \<and> \<not> answered evs \<and> count_list evs Naked \<le> 1 \<and> (\<forall>metrics. PublishedMetrics metrics \<notin> set evs)"
proof -
  let ?h = "handleTaskMessage demo_serve (s3_ops demo_hash demo_store) mute_env demo_storage"
  obtain evs st' where run: "?h = (Some evs, st')" "last evs = Naked"
    using mute_given_back by (cases ?h) (auto simp: is_nak_iff)
  with message_settled_once [where cfg = demo_serve and store = "s3_ops demo_hash demo_store"
      and env = mute_env and st = demo_storage] show ?thesis
    by auto
qed

text \<open>The same for a store that is a directory: the files under its root are the artifacts.\<close>

lemma directory_keeps_artifacts:
  assumes "processTask env cfg (fs_ops sha s) task st = (Some (r, m), st')" "cr_OK r"
    "private_dirs (\<lambda>key. ok_part (objectPath s key)) env" "go_builds (te_Build env)"
    "be_GOOS (te_Build env) \<noteq> []" "be_GOARCH (te_Build env) \<noteq> []" "boolOrDefault (ct_StoreSource task) True"
  shows "\<exists>ref source. cr_Source r = Some ref \<and> program_of (te_Emit env) task source \<and>
    sg_files st' (file_join [fs_RootDir s, cg_Key ref]) = Some source"
  using directory.answered_task [OF assms(1) [unfolded fs_ops_def] assms(2-6)] assms(7) by blast

section \<open>A text that ends the server\<close>

text \<open>
  A section count that \<open>make\<close> cannot serve panics in the parser. Nothing in the worker recovers
  from it, so the process ends, the message is neither answered nor settled, and JetStream
  delivers it to the next server after the acknowledgement time.
\<close>

definition poison_task :: codegen_task where
  "poison_task = demo_task\<lparr>ct_DSL := drop 65 panic_text\<rparr>"

definition poison_env :: message_env where
  "poison_env = \<lparr>mv_Decode = Inr poison_task, mv_Reply = [], mv_Publish = (\<lambda>_. None), mv_Task = demo_env\<rparr>"

lemma poison_not_settled:
  "fst (handleTaskMessage (default_serve_config 1 ''nats://localhost:4222'' ''linux'' ''amd64'')
     (s3_ops demo_hash demo_store) poison_env demo_storage) = None"
  by code_simp

text \<open>The platform of a task is part of the object keys as it is: the log of a failed build for the
  platform below is stored as the log of another model.\<close>

lemma log_of_another_model:
  "normalizeS3ObjectKey (buildLogObjectKey ''aa'' ''../../bb/logs/linux'' ''amd64'') =
   normalizeS3ObjectKey (buildLogObjectKey ''bb'' ''linux'' ''amd64'')"
  by code_simp

section \<open>Downloads\<close>

text \<open>
  C15. A download is whole or nothing: whatever fails, the destination is as it was, and a
  download that succeeds with an expected hash has put bytes with this hash there. Besides the
  temporary file nothing else is touched.
\<close>

theorem download_all_or_nothing:
  "case s3_GetFile sha f key dst expected st of
     (Inl err, st') \<Rightarrow> sg_files st' dst = sg_files st dst
   | (Inr ref, st') \<Rightarrow> \<exists>data. sg_files st' dst = Some data \<and> ar_Sha256 ref = sha data \<and>
       (expected = [] \<or> equal_fold (sha data) expected) \<and> sg_files st' (dst @ ''.tmp'') = None"
  by (auto simp: s3_GetFile_def Let_def split: sum.splits prod.splits option.splits)

end
