(* ===== verification/Spec2Isabelle.thy ===== *)
theory Spec2Isabelle
  imports Event_Queue Entity_Pool Pending_Queue Node_Registry Dispatcher_Server
    Control_Server Dsl_Validate_Correct Dsl_Expr_Correct Sim_Experiment Sim_Clock Sim_Pm_Run Codegen_Serve
begin

text \<open>
  go-cloud-des runs discrete-event simulation experiments in a cluster. A user writes a model
  in a small language; the code generator (codegen/) turns it into a Go program and builds
  it; the control plane (controlplane/) stores batches of experiments in PostgreSQL, keeps
  the waiting ones in a queue and places them on dispatcher nodes; a dispatcher (dispatcher/)
  runs the simulator as a child process that speaks a line protocol, and reports the result;
  the simulators use an event queue and an entity pool (codegen/container/).

  Parts and theories, in the order of the imports:

  \<^item> Go_Prelude, Go_Float, Go_Decimal, Go_Float_Text, Go_Float_Arith, Go_Float_Print: what the
    program uses of Go itself.
    A \<open>string\<close> or \<open>[]byte\<close> is a list of bytes, an error result is a sum (\<open>Inl\<close> the error),
    a \<open>uint64\<close> whose overflow matters is a \<open>64 word\<close>, a \<open>float64\<close> is a rational number, an
    infinity or NaN, its operations round to nearest even as IEEE doubles do (the sign of a
    zero is not kept). Numbers as text are what \<open>strconv\<close> prints and accepts.
  \<^item> Event_Queue (container/binary.go) and Entity_Pool (container/pool.go): the heap of
    events (each node has four children) and the free-list allocator of the simulators. The sift loops are recursive
    functions with a measure. The heap keeps its invariant and pops in order; the pool never
    hands out a live handle twice.
  \<^item> Api_Types: the messages of api/ and the status words.
  \<^item> Pending_Queue (pending_queue.go): the queue with its index of keys; it refines a list
    without duplicates (locale of a duplicate-free queue, interpreted on the code's queue).
  \<^item> Reservation_Ledger and Node_Registry (node_registry.go): nodes, heartbeats, expiry and
    placement. The ledger is the abstract account of what was reserved where.
  \<^item> Dispatcher_Registry (dispatcher/registry.go): the runs of a node with its slots and
    memory; Dispatcher_Protocol (protocol.go, run.go, util.go, config.go): lines, names and
    run configurations; Model_Process (model_process.go, metric_trace.go): the conversation
    with the simulator, whose output, exit and deadlines are an environment; Dispatcher_Server
    (server.go, run.go, model_cache.go, store_s3.go): starting, running and stopping runs.
  \<^item> Repository (controlplane/repository.go, schema.sql): tables are lists of rows, a SQL
    statement is a function on them, and the database may refuse a statement or execute it
    and lose the answer, as an environment says. The number of statements sent so far is
    part of the state.
  \<^item> Scheduler (scheduler.go, config.go, provisioner.go) and Control_Server (server.go,
    submit.go, codegen_client.go): ticks, reconciliation and the service calls over the
    queue, the node registry and the database. NATS, SHA-256, random ids and the dispatchers
    are parameters.
  \<^item> Dsl_Scanner, Dsl_Model, Dsl_Parser, Dsl_Blocks, Dsl_Parse (codegen/generator: scanner.go,
    error.go, model.go, parser.go, parser_helper.go, parse_entity.go, parse_var.go,
    parse_resource.go, parse_block.go): the model language. The parameter loops of the parser
    share one function, which ends because every scan consumes data. Dsl_Parse_Correct has
    the contract of the parsing functions, a locale of the declarations a section may hold
    (interpreted on the four of the language), and what it gives for a whole text.
    Dsl_Validate (validate.go) is validation and linking, Dsl_Validate_Correct says exactly
    which models pass it: the search for wait targets is reachability. Dsl_Expr
    (emit_expr.go, emit_name.go) is the translation of the expressions of a model to Go text,
    and Dsl_Expr_Correct relates an accepted expression to its translation word by word.
  \<^item> Codegen_Store (cmd/codegen/store.go, store_s3.go, dispatcher/store_s3.go): a directory or a
    bucket behind one interface (locale of an artifact store, interpreted on both), and the
    download of a dispatcher. Codegen_Build (generator.go, builder/builder.go): from a model
    text to a source and a binary. Codegen_Worker (processor.go, metrics.go) and Codegen_Serve
    (serve.go): one task, what becomes of its message, and the pool of workers as a step
    relation. The emitter, \<open>go build\<close>, JSON and NATS are arguments; what a worker reports is
    what a dispatcher loads, and its answers are those the control plane relies on.
  \<^item> Sim_Blocks (emit_block.go, emit_runtime.go): what the functions the generator prints for
    a model do. A model is a list of block configurations; \<open>enter\<close> moves an entity into a block
    as the printed \<open>enter_...\<close> functions call each other, and a scheduled closure is a value of
    \<open>sim_action\<close>. Sim_Queue has the queue functions printed for every QUEUE block: slots with
    marks and tickets, refining a plain first-in first-out line (locale of a queue with
    timeouts, interpreted on the printed functions). The text that \<open>emit\<close> assembles is not
    modelled, apart from its expressions; the programs it printed for the two examples are
    (below), and \<open>pm_program_is_generated\<close> relates one of them to Sim_Blocks.
  \<^item> About any generated simulator: Sim_Refusal (a refused entry changes nothing), Sim_Frame (a
    locale of what an operation leaves alone), Sim_Places (every entity is in one place),
    Sim_Conserve and Sim_Entities (each entity created is in the model or was released, and
    its handle is live), Sim_Statistics (counters and averages), Sim_Office (an office as a
    concrete model), Sim_Clock (the clock never goes back, and a model in which a release
    re-enters its own queue).
  \<^item> Sim_Mm1 and Sim_Mm1_Run: the program printed for the M/M/1 example
    (codegen/example/mm1/main.go), global variables as a record, scheduled closures as data:
    blocks and handlers, protocol, main loop. Mm1_Spec is the M/M/1 system as a step relation,
    Sim_Mm1_Correct the simulation between the two, and Sim_Experiment the composition of the
    simulator with the dispatcher that runs it.
  \<^item> Sim_Random, Sim_Protocol, Sim_Transport: the random streams, number texts and process of
    a generated program (emit_transport.go), over a locale of the variables and blocks of the
    model. Sim_Pm is the program printed for the shop example (codegen/example/pm/main.go),
    Sim_Pm_Correct shows that it is what Sim_Blocks makes of the model, so that all that is
    said of any simulator holds for it. Sim_Texts and Sim_Reports: the dispatcher reads in
    every report what the program meant, and Sim_Pm_Run a whole run of the shop under the
    dispatcher.

  The properties are marked C1, C2, ... in front of their theorems. Each component has the
  invariant its operations keep, what each operation returns on every branch, and the
  properties that span components: an accepted submission is stored and queued, a tick loses
  no experiment and starts none twice, an accepted start ends with one result, an experiment
  with a generated simulator is reported with the values of the system it simulates.

  Bounds: every loop but three is a total function without fuel. The main loop of a simulator
  may run for ever: it is modelled turn by turn (the number of turns is a parameter) and the
  properties hold after any number of turns, for the M/M/1 program up to 2^32, the number of
  entity handles; for the other programs the pool is assumed to have room. The loop that
  advances the next report time is \<open>while_option\<close>, whose \<open>None\<close> is a loop without end.
  \<open>enter\<close> has a bound on the depth of calls: a model whose blocks can be ranked, each block
  above those it calls, never reaches a bound above its ranks (6 for the shop), and no other
  result depends on it. Times of the services are integers (nanoseconds), durations wrap or
  saturate as the code's do.

  Not modelled: the text of the generated Go program (emitter.go and the templates of the
  other emit files), the command line of the code generator, the dispatcher's reporter, the web
  API, S3 and NATS clients, process start-up and flag parsing, cgroups, logging, and the
  generated API code. These are text templates, I/O and glue.
\<close>

section \<open>The scheduler and the dispatchers\<close>

text \<open>What a dispatcher asks of a start request, and what it has to offer.\<close>

definition well_formed_request :: "start_request \<Rightarrow> bool" where
  "well_formed_request req \<longleftrightarrow>
     length (sq_ModelHash req) = 64 \<and> isHex (sq_ModelHash req) \<and> sq_ExperimentId req \<noteq> [] \<and>
     (case sq_Binary req of
        None \<Rightarrow> False
      | Some bin \<Rightarrow> ba_Key bin \<noteq> [] \<and>
          (ba_Sha256 bin = [] \<or> length (ba_Sha256 bin) = 64 \<and> isHex (ba_Sha256 bin)))"

definition is_running :: "start_request \<Rightarrow> 'c registry \<Rightarrow> bool" where
  "is_running req r \<longleftrightarrow>
     (case experiments r (experimentKey (sq_ModelHash req) (sq_ExperimentId req)) of
        None \<Rightarrow> False | Some existing \<Rightarrow> isActiveStatus (rs_Status (er_Result existing)))"

definition has_room :: "start_request \<Rightarrow> 'c registry \<Rightarrow> bool" where
  "has_room req r \<longleftrightarrow>
     (totalSlots r > 0 \<longrightarrow> usedSlots r < totalSlots r) \<and>
     (totalMemoryBytes r > 0 \<and> sq_MemoryLimitBytes req > 0 \<longrightarrow>
        reservedMemoryBytes r + sq_MemoryLimitBytes req \<le> totalMemoryBytes r)"

lemma try_start_decided:
  "try_start (sq_ModelHash req) (sq_ExperimentId req) (sq_MemoryLimitBytes req) r = ((res, code, why), r') \<Longrightarrow>
   (res \<noteq> None \<longleftrightarrow> \<not> is_running req r \<and> has_room req r) \<and>
   (is_running req r \<longrightarrow> code = ''experiment_already_running'') \<and>
   (\<not> is_running req r \<and> \<not> has_room req r \<longrightarrow> code = ''no_free_slots'' \<or> code = ''not_enough_memory'')"
  by (auto simp: try_start_def is_running_def has_room_def Let_def not_less not_le
      split: if_splits option.splits)

lemma reject_outcome:
  "fst (classify_response (rejectedStart req code message)) =
     (if code = ''experiment_already_running'' then startOutcomeAlreadyRunning
      else if code = ''no_free_slots'' \<or> code = ''not_enough_memory'' \<or> code = ''request_canceled''
      then startOutcomeRetryable else startOutcomeFatal)"
  by (simp add: classify_response_def rejectedStart_def isAlreadyRunningRejectCode_def isTransientRejectCode_def)

text \<open>
  C16. The scheduler understands what a dispatcher answers to a start request: it takes the
  experiment as started exactly when the dispatcher handed it to a worker, as running already
  exactly when the dispatcher has it running, puts it back into the queue exactly when the
  dispatcher had no slot or memory left or the request was canceled, and gives it up only for
  a request that no dispatcher would ever accept.
\<close>

theorem start_answer_understood:
  assumes "start_experiment scfg c ended req r = ((resp, task), r')"
  shows "let outcome = fst (classify_response resp) in
    (outcome = startOutcomeAccepted \<longleftrightarrow> task \<noteq> None) \<and>
    (outcome = startOutcomeAccepted \<longleftrightarrow>
       well_formed_request req \<and> \<not> is_running req r \<and> has_room req r \<and> ended = None) \<and>
    (outcome = startOutcomeAlreadyRunning \<longleftrightarrow> well_formed_request req \<and> is_running req r) \<and>
    (outcome = startOutcomeRetryable \<longleftrightarrow>
       well_formed_request req \<and> \<not> is_running req r \<and> (has_room req r \<longrightarrow> ended \<noteq> None)) \<and>
    (outcome = startOutcomeFatal \<longleftrightarrow> \<not> well_formed_request req)"
proof (cases "well_formed_request req")
  case False
  then have "task = None \<and> (\<exists>message. resp = rejectedStart req ''bad_request'' message)"
    using assms
    by (auto simp: start_experiment_def well_formed_request_def Let_def split: if_splits option.splits)
  with False reject_outcome [of req "''bad_request''"] show ?thesis by auto
next
  case True
  then obtain bin where bin: "sq_Binary req = Some bin" by (auto simp: well_formed_request_def split: option.splits)
  obtain res code why r1 where st:
    "try_start (sq_ModelHash req) (sq_ExperimentId req) (sq_MemoryLimitBytes req) r = ((res, code, why), r1)"
    by (metis prod.exhaust)
  note decided = try_start_decided [OF st]
  have ne: "sq_ModelHash req \<noteq> []" using True by (auto simp: well_formed_request_def)
  show ?thesis
  proof (cases res)
    case None
    then have "resp = rejectedStart req code why \<and> task = None"
      using assms True bin st ne by (auto simp: start_experiment_def well_formed_request_def Let_def)
    with None True decided reject_outcome [of req code why] show ?thesis by auto
  next
    case (Some started)
    then have room: "\<not> is_running req r \<and> has_room req r" using decided by simp
    show ?thesis
    proof (cases ended)
      case None
      then have "sp_Accepted resp \<and> task \<noteq> None"
        using assms True bin st ne Some by (auto simp: start_experiment_def well_formed_request_def Let_def)
      with None True room show ?thesis by (simp add: classify_response_def)
    next
      case ended: (Some err)
      then have "resp = rejectedStart req ''request_canceled'' err \<and> task = None"
        using assms True bin st ne Some by (auto simp: start_experiment_def well_formed_request_def Let_def)
      with ended True room reject_outcome [of req "''request_canceled''" err] show ?thesis by simp
    qed
  qed
qed

theorem start_answer_understood_witness:
  "fst (classify_response (fst (fst (sample_answer (Some ''context canceled''))))) = startOutcomeRetryable"
proof -
  obtain resp task r where a: "sample_answer (Some ''context canceled'') = ((resp, task), r)"
    by (metis prod.exhaust)
  have "well_formed_request sample_request"
    by (simp add: well_formed_request_def sample_request_def sample_hash_def isHex_def) code_simp
  moreover have "\<not> is_running sample_request (new_registry 1 1000 :: nat registry)"
    by (simp add: is_running_def new_registry_def)
  ultimately show ?thesis using start_answer_understood [OF a] by (simp add: a Let_def)
qed

end
